(* ===== verification/Prelude.thy ===== *)
theory Prelude
  imports Main "HOL-Library.AList" "HOL-Library.Char_ord" "HOL-Library.List_Lexorder" "HOL-Library.Word"
begin

text \<open>
  What the component theories share: the model of the Go types and library functions the code
  uses (instants, durations, \<^verbatim>\<open>uuid.UUID\<close>, maps, \<^verbatim>\<open>strings\<close>, \<^verbatim>\<open>sort.Strings\<close>), the theorem
  collections, and generic lemmas on lists, association lists and words.

  Conventions.
  \<^item> A \<^verbatim>\<open>time.Time\<close> is an \<open>int\<close>: nanoseconds since the zero time of Go, so \<^verbatim>\<open>t.IsZero()\<close> is
    \<open>t = 0\<close>; a \<^verbatim>\<open>time.Duration\<close> is an \<open>int\<close> of nanoseconds.
  \<^item> A \<^verbatim>\<open>uuid.UUID\<close> is its 16 bytes, a \<open>128 word\<close>; \<^verbatim>\<open>uuid.Nil\<close> is \<open>0\<close>.
  \<^item> A Go \<^verbatim>\<open>string\<close> is its bytes, a \<open>char list\<close>; its order is the byte order.
  \<^item> A Go map is an association list with distinct keys (\<open>gomap_wf\<close>). Its order is the
    order a \<^verbatim>\<open>range\<close> loop happens to use; theorems quantify over the list, so over every order.
\<close>

unbundle bit_operations_syntax

named_theorems go_simps "Characteristic equations of the modelled Go library functions"
named_theorems pset_simps "Membership of a bit in the result of a set operation"

type_synonym uuid = "128 word"
type_synonym time = int
type_synonym duration = int
type_synonym ('k, 'v) gomap = "('k \<times> 'v) list"

abbreviation uuid_Nil :: uuid where "uuid_Nil \<equiv> 0"

definition IsZero :: "time \<Rightarrow> bool" where
  "IsZero t \<longleftrightarrow> t = 0"

abbreviation time_Millisecond :: duration where "time_Millisecond \<equiv> 1000000"
abbreviation time_Second :: duration where "time_Second \<equiv> 1000000000"
abbreviation time_Minute :: duration where "time_Minute \<equiv> 60 * 1000000000"
abbreviation time_Hour :: duration where "time_Hour \<equiv> 3600 * 1000000000"

section \<open>Go maps\<close>

abbreviation gomap_wf :: "('k, 'v) gomap \<Rightarrow> bool" where
  "gomap_wf m \<equiv> distinct (map fst m)"

abbreviation gomap_get :: "('k, 'v) gomap \<Rightarrow> 'k \<Rightarrow> 'v option" where
  "gomap_get m k \<equiv> map_of m k"

abbreviation gomap_set :: "'k \<Rightarrow> 'v \<Rightarrow> ('k, 'v) gomap \<Rightarrow> ('k, 'v) gomap" where
  "gomap_set \<equiv> AList.update"

abbreviation gomap_del :: "'k \<Rightarrow> ('k, 'v) gomap \<Rightarrow> ('k, 'v) gomap" where
  "gomap_del \<equiv> AList.delete"

text \<open>\<^verbatim>\<open>m[k]\<close> in Go gives the zero value of the element type when the key is absent.\<close>

definition gomap_at :: "'v \<Rightarrow> ('k, 'v) gomap \<Rightarrow> 'k \<Rightarrow> 'v" where
  "gomap_at zero m k = (case gomap_get m k of None \<Rightarrow> zero | Some v \<Rightarrow> v)"

lemma gomap_get_set [simp]:
  "gomap_get (gomap_set k v m) k' = (if k' = k then Some v else gomap_get m k')"
  by (simp add: update_conv')

lemma gomap_get_del [simp]:
  "gomap_get (gomap_del k m) k' = (if k' = k then None else gomap_get m k')"
  by (simp add: delete_conv')

lemma gomap_at_set [simp]:
  "gomap_at z (gomap_set k v m) k' = (if k' = k then v else gomap_at z m k')"
  by (simp add: gomap_at_def)

lemma gomap_at_Nil [simp]: "gomap_at z [] k = z"
  by (simp add: gomap_at_def)

lemma gomap_wf_set [simp, intro]: "gomap_wf m \<Longrightarrow> gomap_wf (gomap_set k v m)"
  by (rule distinct_update)

lemma gomap_wf_del [simp, intro]: "gomap_wf m \<Longrightarrow> gomap_wf (gomap_del k m)"
  by (rule distinct_delete)

lemma gomap_filter_get:
  "gomap_wf m \<Longrightarrow> gomap_get (filter P m) k =
     (case gomap_get m k of None \<Rightarrow> None | Some v \<Rightarrow> if P (k, v) then Some v else None)"
  by (induction m) (auto simp: map_of_eq_None_iff split: option.splits)

lemma gomap_wf_filter [simp, intro]: "gomap_wf m \<Longrightarrow> gomap_wf (filter P m)"
  by (rule distinct_map_filter)

section \<open>Go strings\<close>

definition strings_HasPrefix :: "string \<Rightarrow> string \<Rightarrow> bool" where
  "strings_HasPrefix s p \<longleftrightarrow> take (length p) s = p"

definition strings_HasSuffix :: "string \<Rightarrow> string \<Rightarrow> bool" where
  "strings_HasSuffix s p \<longleftrightarrow> length p \<le> length s \<and> drop (length s - length p) s = p"

definition strings_TrimPrefix :: "string \<Rightarrow> string \<Rightarrow> string" where
  "strings_TrimPrefix s p = (if strings_HasPrefix s p then drop (length p) s else s)"

definition strings_TrimSuffix :: "string \<Rightarrow> string \<Rightarrow> string" where
  "strings_TrimSuffix s p = (if strings_HasSuffix s p then take (length s - length p) s else s)"

fun strings_Contains :: "string \<Rightarrow> string \<Rightarrow> bool" where
  "strings_Contains [] p \<longleftrightarrow> p = []"
| "strings_Contains (c # s) p \<longleftrightarrow> strings_HasPrefix (c # s) p \<or> strings_Contains s p"

text \<open>\<^verbatim>\<open>strings.Cut(s, sep)\<close> for a separator of one byte: the parts before and after the first
  occurrence; the whole string and the empty one when there is none.\<close>

fun strings_Cut :: "string \<Rightarrow> char \<Rightarrow> string \<times> string" where
  "strings_Cut [] sep = ([], [])"
| "strings_Cut (c # s) sep =
     (if c = sep then ([], s) else (let (a, b) = strings_Cut s sep in (c # a, b)))"

definition ascii_space :: "char \<Rightarrow> bool" where
  "ascii_space c \<longleftrightarrow> c \<in> {CHR '' '', CHR 0x09, CHR 0x0A, CHR 0x0B, CHR 0x0C, CHR 0x0D}"

definition strings_TrimSpace :: "string \<Rightarrow> string" where
  "strings_TrimSpace s = rev (dropWhile ascii_space (rev (dropWhile ascii_space s)))"

text \<open>\<^verbatim>\<open>strings.ToLower\<close> on ASCII bytes; other bytes are kept.\<close>

definition ascii_lower :: "char \<Rightarrow> char" where
  "ascii_lower c = (let n = (of_char c :: nat) in if 65 \<le> n \<and> n \<le> 90 then char_of (n + 32) else c)"

definition strings_ToLower :: "string \<Rightarrow> string" where
  "strings_ToLower s = map ascii_lower s"

text \<open>\<^verbatim>\<open>strings.Fields\<close>: the maximal runs of non-space bytes.\<close>

fun fields_loop :: "string \<Rightarrow> string \<Rightarrow> string list" where
  "fields_loop cur [] = (if cur = [] then [] else [rev cur])"
| "fields_loop cur (c # s) =
     (if ascii_space c then (if cur = [] then [] else [rev cur]) @ fields_loop [] s
      else fields_loop (c # cur) s)"

definition strings_Fields :: "string \<Rightarrow> string list" where
  "strings_Fields s = fields_loop [] s"

text \<open>\<^verbatim>\<open>sort.Strings\<close>: the byte order of Go strings is the lexicographic order of
  \<open>HOL-Library.List_Lexorder\<close> over \<open>HOL-Library.Char_ord\<close>.\<close>

definition sort_Strings :: "string list \<Rightarrow> string list" where
  "sort_Strings xs = sort xs"

lemma set_sort_Strings [simp]: "set (sort_Strings xs) = set xs"
  by (simp add: sort_Strings_def)

lemma sorted_sort_Strings [simp]: "sorted (sort_Strings xs)"
  by (simp add: sort_Strings_def)

lemma HasPrefix_append [simp]: "strings_HasPrefix (p @ s) p"
  by (simp add: strings_HasPrefix_def)

lemma HasPrefix_iff: "strings_HasPrefix s p \<longleftrightarrow> (\<exists>r. s = p @ r)"
  unfolding strings_HasPrefix_def by (metis append_eq_conv_conj append_take_drop_id)

lemma HasPrefix_Cons [simp]:
  "strings_HasPrefix (c # s) (d # p) \<longleftrightarrow> c = d \<and> strings_HasPrefix s p"
  "strings_HasPrefix s []" "strings_HasPrefix [] p \<longleftrightarrow> p = []"
  by (auto simp: strings_HasPrefix_def)

lemma Contains_char_iff: "strings_Contains s [c] \<longleftrightarrow> c \<in> set s"
  by (induction s) (auto simp: strings_HasPrefix_def)

section \<open>Lists\<close>

text \<open>A loop that appends elements it has not seen yet (the \<^verbatim>\<open>seen\<close> map idiom).\<close>

lemma distinct_snoc [simp]: "distinct (xs @ [x]) \<longleftrightarrow> distinct xs \<and> x \<notin> set xs"
  by simp

lemma foldl_invariant:
  assumes "I s" and "\<And>s x. x \<in> set xs \<Longrightarrow> I s \<Longrightarrow> I (f s x)"
  shows "I (foldl f s xs)"
  using assms by (induction xs arbitrary: s) auto

section \<open>Numbers in texts\<close>

text \<open>\<^verbatim>\<open>fmt.Sprintf\<close> with \<^verbatim>\<open>%d\<close> for the index of a list.\<close>

fun itoa :: "nat \<Rightarrow> string" where
  "itoa n = (if n < 10 then [char_of (48 + n)] else itoa (n div 10) @ [char_of (48 + n mod 10)])"

declare itoa.simps [simp del]

definition indexed :: "string \<Rightarrow> nat \<Rightarrow> string" where
  "indexed field i = field @ ''['' @ itoa i @ '']''"

end
