(* ===== verification/Catalog.thy ===== *)
theory Catalog
  imports Prelude
begin

text \<open>
  The catalog of atomic permissions (\<^verbatim>\<open>internal/authz/catalog/catalog.go\<close>): the source table,
  the \<^verbatim>\<open>init\<close> function that builds the entries, the index and the expansion of the old actions,
  and the lookups. The label texts of the entries are shown to users only and are left out.
  The lemmas show that \<^verbatim>\<open>init\<close> does not panic, that the index and the bit positions are inverse
  to each other, and that the dependencies of an entry are entries again.
\<close>

section \<open>Scopes and entries\<close>

datatype Scope = ScopeOrg | ScopeProject | ScopeRepo | ScopeEnv | ScopePlatform

record Perm =
  ID :: string
  Bit :: nat
  Scopes :: "Scope list"
  Sensitive :: bool
  Tokenable :: bool
  LegacyGap :: bool
  Requires :: "string list"
  Legacy :: "string list"
  Since :: nat
  Deprecated :: bool
  Group :: string

definition Perm_HasScope :: "Perm \<Rightarrow> Scope \<Rightarrow> bool" where
  "Perm_HasScope p s = list_ex (\<lambda>x. x = s) (Scopes p)"

text \<open>A row of the source table: id, scopes, flags and the old actions.\<close>

datatype raw = Raw (raw_id: string) (raw_scopes: string) (raw_flags: string) (raw_legacy: string)

definition table :: "raw list" where
  "table = [
    Raw ''org:read'' ''O'' [] [],
    Raw ''org:update'' ''O'' [] [],
    Raw ''org:delete'' ''O'' ''s'' [],
    Raw ''org:access-policy'' ''O'' ''s'' [],
    Raw ''org:transfer'' ''O'' ''s'' [],
    Raw ''member:read'' ''O'' [] [],
    Raw ''member:invite'' ''O'' [] [],
    Raw ''member:update'' ''O'' [] [],
    Raw ''member:remove'' ''O'' [] [],
    Raw ''member:leave'' ''O'' [] [],
    Raw ''member:suspend'' ''O'' [] [],
    Raw ''group:read'' ''O'' [] [],
    Raw ''group:manage'' ''O'' ''s'' [],
    Raw ''template:read'' ''O'' [] [],
    Raw ''template:manage'' ''O'' ''s'' [],
    Raw ''audit:read'' ''O'' [] [],
    Raw ''audit:export'' ''O'' [] [],
    Raw ''orgvar:read'' ''O'' [] [],
    Raw ''orgvar:write'' ''O'' ''s'' [],
    Raw ''orgvar:reveal'' ''O'' ''s'' [],
    Raw ''billing:read'' ''O'' [] [],
    Raw ''billing:manage'' ''O'' ''s'' [],
    Raw ''token:read-all'' ''O'' [] [],
    Raw ''token:revoke-any'' ''O'' [] [],
    Raw ''oauthclient:manage'' ''O'' [] [],
    Raw ''project:create'' ''O'' ''g'' [],
    Raw ''project:view'' ''PRE'' [] ''project.read'',
    Raw ''project:read'' ''P'' [] ''project.read'',
    Raw ''project:update'' ''P'' [] ''project.ops'',
    Raw ''project:delete'' ''P'' ''s'' ''project.delete'',
    Raw ''project:restore'' ''P'' ''s'' ''project.delete'',
    Raw ''deployment:read'' ''P'' [] ''project.read'',
    Raw ''deployment:create'' ''P'' [] ''project.deploy'',
    Raw ''deployment:cancel'' ''P'' [] ''project.deploy'',
    Raw ''deployment:rollback'' ''P'' [] ''project.deploy'',
    Raw ''preview:read'' ''P'' [] ''project.read'',
    Raw ''preview:manage'' ''P'' [] ''project.deploy'',
    Raw ''log:read'' ''P'' [] ''project.read'',
    Raw ''envvar:read'' ''P'' [] ''project.read'',
    Raw ''envvar:write'' ''P'' [] ''project.env_write'',
    Raw ''envvar:reveal'' ''P'' ''s'' ''project.env_reveal'',
    Raw ''environment:read'' ''PE'' [] ''env.read'',
    Raw ''environment:manage'' ''PE'' [] ''env.admin'',
    Raw ''promotion:request'' ''PE'' [] ''env.request'',
    Raw ''promotion:approve'' ''PE'' ''s'' ''env.approve'',
    Raw ''worker:read'' ''P'' [] ''project.read'',
    Raw ''worker:manage'' ''P'' [] ''project.ops'',
    Raw ''cron:read'' ''P'' [] ''project.read'',
    Raw ''cron:manage'' ''P'' [] ''project.ops'',
    Raw ''cron:trigger'' ''P'' [] ''project.ops'',
    Raw ''domain:read'' ''OP'' [] ''project.read'',
    Raw ''domain:manage'' ''OP'' ''g'' ''project.ops'',
    Raw ''email:read'' ''P'' [] ''project.read'',
    Raw ''email:manage'' ''P'' [] ''project.ops'',
    Raw ''storage:read'' ''P'' [] ''project.read'',
    Raw ''storage:manage'' ''P'' [] ''project.databases'',
    Raw ''storage:presign'' ''P'' [] ''project.ops'',
    Raw ''database:read'' ''OP'' [] ''project.read'',
    Raw ''database:create'' ''OP'' ''g'' ''project.databases'',
    Raw ''database:delete'' ''P'' ''s'' ''project.databases'',
    Raw ''database:query'' ''P'' ''s'' ''project.ops'',
    Raw ''backup:read'' ''P'' [] ''project.read'',
    Raw ''backup:manage'' ''P'' [] ''project.ops'',
    Raw ''backup:restore'' ''P'' ''s'' ''project.databases'',
    Raw ''connaudit:read'' ''P'' [] ''project.read'',
    Raw ''connaudit:manage'' ''P'' [] ''project.ops'',
    Raw ''network:read'' ''P'' [] ''project.read'',
    Raw ''network:manage'' ''P'' ''s'' ''project.network'',
    Raw ''gateway:connect'' ''P'' [] ''project.connect'',
    Raw ''gateway:manage'' ''P'' ''s'' ''project.network'',
    Raw ''gateway:token'' ''P'' ''s'' ''project.network'',
    Raw ''git:read'' ''PR'' [] ''git.read'',
    Raw ''git:write'' ''PR'' [] ''git.write'',
    Raw ''git:review'' ''PR'' [] ''git.review'',
    Raw ''git:merge'' ''PR'' [] ''git.merge'',
    Raw ''git:link'' ''P'' [] ''project.ops'',
    Raw ''git:protect'' ''PR'' ''s'' ''git.admin'',
    Raw ''git:settings'' ''PR'' [] ''git.admin'',
    Raw ''git:mirror'' ''PR'' [] ''git.admin'',
    Raw ''git:review-dismiss'' ''PR'' [] ''git.admin'',
    Raw ''git:token-service'' ''PR'' ''s'' ''git.admin'',
    Raw ''ci:read'' ''PR'' [] ''git.read'',
    Raw ''ci:run'' ''PR'' [] ''git.write'',
    Raw ''ci:variable'' ''PR'' [] ''git.admin'',
    Raw ''ci:secret'' ''PR'' ''s'' ''git.admin'',
    Raw ''security:read'' ''P'' [] ''security.read'',
    Raw ''security:triage'' ''P'' [] ''security.triage'',
    Raw ''security:upload'' ''P'' [] ''security.triage'',
    Raw ''security:admin'' ''P'' ''s'' ''security.admin'',
    Raw ''webhook:manage'' ''P'' [] ''webhooks.manage'',
    Raw ''assignment:read'' ''OP'' [] ''project.members'',
    Raw ''assignment:grant'' ''OPRE'' ''s'' ''project.members'',
    Raw ''platform-user:read'' ''L'' [] [],
    Raw ''platform-user:create'' ''L'' [] [],
    Raw ''platform-user:suspend'' ''L'' [] [],
    Raw ''platform-user:delete'' ''L'' [] [],
    Raw ''platform-user:set-role'' ''L'' [] [],
    Raw ''platform-backup:read'' ''L'' [] [],
    Raw ''platform-backup:run'' ''L'' [] []
]"

definition groupOf :: "(string \<times> string) list" where
  "groupOf = [
    (''org'', ''organization''), (''member'', ''members''), (''group'', ''groups''), (''template'', ''templates''),
    (''assignment'', ''access''), (''audit'', ''audit''), (''orgvar'', ''variables''), (''billing'', ''billing''),
    (''token'', ''tokens''), (''oauthclient'', ''integrations''), (''project'', ''project''),
    (''deployment'', ''deployments''), (''preview'', ''deployments''), (''log'', ''observability''),
    (''envvar'', ''variables''), (''environment'', ''environments''), (''promotion'', ''environments''),
    (''worker'', ''runtime''), (''cron'', ''runtime''), (''domain'', ''networking''), (''email'', ''networking''),
    (''network'', ''networking''), (''gateway'', ''networking''), (''storage'', ''data''), (''database'', ''data''),
    (''backup'', ''data''), (''connaudit'', ''data''), (''git'', ''git''), (''ci'', ''git''), (''security'', ''security''),
    (''webhook'', ''integrations''), (''platform-user'', ''platform''), (''platform-backup'', ''platform'')]"

definition needsRead :: "string list" where
  "needsRead = [''manage'', ''write'', ''create'', ''delete'', ''run'',
    ''trigger'', ''request'', ''merge'', ''review'']"

definition explicitRequires :: "(string \<times> string) list" where
  "explicitRequires = [
    (''envvar:reveal'', ''envvar:read''),
    (''backup:restore'', ''backup:read''),
    (''database:query'', ''database:read''),
    (''promotion:approve'', ''environment:read''),
    (''assignment:grant'', ''assignment:read'')]"

definition nonTokenable :: "string list" where
  "nonTokenable = [''org'', ''member'', ''group'', ''template'', ''assignment'',
    ''token'', ''oauthclient'', ''platform-user'', ''platform-backup'']"

definition MaxPerms :: nat where "MaxPerms = 128"

definition scopeRank :: "Scope \<Rightarrow> nat" where
  "scopeRank s = (case s of ScopeOrg \<Rightarrow> 0 | ScopeProject \<Rightarrow> 1 | ScopeRepo \<Rightarrow> 2 | ScopeEnv \<Rightarrow> 3
     | ScopePlatform \<Rightarrow> 4)"

definition sharesScope :: "Perm \<Rightarrow> Perm \<Rightarrow> bool" where
  "sharesScope a b = list_ex (Perm_HasScope b) (Scopes a)"

section \<open>The init function\<close>

datatype panic = DuplicatePermission string | TooManyPermissions

text \<open>First loop: the index, with the panic on a repeated id.\<close>

fun init_index :: "nat \<Rightarrow> raw list \<Rightarrow> (string, nat) gomap \<Rightarrow> panic + (string, nat) gomap" where
  "init_index i [] ix = Inr ix"
| "init_index i (r # rs) ix =
     (if gomap_get ix (raw_id r) \<noteq> None then Inl (DuplicatePermission (raw_id r))
      else init_index (Suc i) rs (gomap_set (raw_id r) i ix))"

definition scope_of_letter :: "char \<Rightarrow> Scope list" where
  "scope_of_letter c =
     (if c = CHR ''O'' then [ScopeOrg]
      else if c = CHR ''P'' then [ScopeProject]
      else if c = CHR ''R'' then [ScopeRepo]
      else if c = CHR ''E'' then [ScopeEnv]
      else if c = CHR ''L'' then [ScopePlatform]
      else [])"

text \<open>Second loop: one entry, before the dependencies are known.\<close>

definition init_perm :: "nat \<Rightarrow> raw \<Rightarrow> Perm" where
  "init_perm i r =
     (let res = fst (strings_Cut (raw_id r) (CHR '':'')) in
      \<lparr> ID = raw_id r, Bit = i,
        Scopes = sort_key scopeRank (concat (map scope_of_letter (raw_scopes r))),
        Sensitive = strings_Contains (raw_flags r) ''s'',
        Tokenable = (\<not> List.member nonTokenable res \<and> raw_id r \<noteq> ''billing:manage''),
        LegacyGap = strings_Contains (raw_flags r) ''g'',
        Requires = [],
        Legacy = (if raw_legacy r \<noteq> [] then strings_Fields (raw_legacy r) else []),
        Since = 1, Deprecated = False,
        Group = gomap_at [] groupOf res \<rparr>)"

definition base_perms :: "raw list \<Rightarrow> Perm list" where
  "base_perms rs = map (\<lambda>(i, r). init_perm i r) (enumerate 0 rs)"

text \<open>The expansion of the old actions, filled by the second loop.\<close>

definition init_byOld :: "Perm list \<Rightarrow> (string, nat list) gomap" where
  "init_byOld ps =
     foldl (\<lambda>m p. foldl (\<lambda>m old. gomap_set old (gomap_at [] m old @ [Bit p]) m) m (Legacy p)) [] ps"

text \<open>The closure \<^verbatim>\<open>add\<close> of the third loop: no self reference, no repetition.\<close>

definition add_req :: "string \<Rightarrow> string list \<Rightarrow> string \<Rightarrow> string list" where
  "add_req self req i = (if i = self then req else if List.member req i then req else req @ [i])"

text \<open>Its three steps: rule 1 (\<^verbatim>\<open>project:view\<close>), rule 2 (the read permission of the resource, when it
  exists with a shared scope) and the explicit dependencies.\<close>

definition req_view :: "Perm \<Rightarrow> string list" where
  "req_view p =
     (if ID p \<noteq> ''project:view'' \<and> \<not> Perm_HasScope p ScopeOrg \<and> \<not> Perm_HasScope p ScopePlatform
      then add_req (ID p) [] ''project:view'' else [])"

definition verb_needs_read :: "string \<Rightarrow> string \<Rightarrow> bool" where
  "verb_needs_read res verb \<longleftrightarrow> verb \<noteq> ''read'' \<and>
     (List.member needsRead verb \<or> res = ''git'' \<or> res = ''ci'' \<or> res = ''security'' \<or> res = ''member'')"

definition req_read :: "(string, nat) gomap \<Rightarrow> Perm list \<Rightarrow> Perm \<Rightarrow> string list \<Rightarrow> string list" where
  "req_read ix ps p req =
     (let res = fst (strings_Cut (ID p) (CHR '':'')); verb = snd (strings_Cut (ID p) (CHR '':'')) in
      if verb_needs_read res verb then
        (case gomap_get ix (res @ '':read'') of
           Some j \<Rightarrow> if sharesScope p (ps ! j) then add_req (ID p) req (res @ '':read'') else req
         | None \<Rightarrow> req)
      else req)"

definition req_explicit :: "Perm \<Rightarrow> string list \<Rightarrow> string list" where
  "req_explicit p req =
     (case gomap_get explicitRequires (ID p) of Some e \<Rightarrow> add_req (ID p) req e | None \<Rightarrow> req)"

definition requires_of :: "(string, nat) gomap \<Rightarrow> Perm list \<Rightarrow> Perm \<Rightarrow> string list" where
  "requires_of ix ps p = sort_Strings (req_explicit p (req_read ix ps p (req_view p)))"

record catalog_state =
  cat_perms :: "Perm list"
  cat_index :: "(string, nat) gomap"
  cat_byOld :: "(string, nat list) gomap"

definition init_catalog :: "raw list \<Rightarrow> panic + catalog_state" where
  "init_catalog rs =
     (case init_index 0 rs [] of
        Inl e \<Rightarrow> Inl e
      | Inr ix \<Rightarrow>
          if length rs > MaxPerms then Inl TooManyPermissions
          else let ps = base_perms rs in
            Inr \<lparr> cat_perms = map (\<lambda>p. p\<lparr>Requires := requires_of ix ps p\<rparr>) ps,
                  cat_index = ix, cat_byOld = init_byOld ps \<rparr>)"

section \<open>The package variables and the lookups\<close>

text \<open>The package variables after \<^verbatim>\<open>init\<close>; a panic leaves them empty (the process does not start).\<close>

definition the_catalog :: catalog_state where
  "the_catalog = (case init_catalog table of
      Inr c \<Rightarrow> c | Inl _ \<Rightarrow> \<lparr> cat_perms = [], cat_index = [], cat_byOld = [] \<rparr>)"

definition perms :: "Perm list" where "perms = cat_perms the_catalog"
definition index :: "(string, nat) gomap" where "index = cat_index the_catalog"
definition byOld :: "(string, nat list) gomap" where "byOld = cat_byOld the_catalog"

definition All :: "Perm list" where "All = perms"

definition Len :: nat where "Len = length perms"

definition Has :: "string \<Rightarrow> bool" where "Has i \<longleftrightarrow> gomap_get index i \<noteq> None"

definition Get :: "string \<Rightarrow> Perm option" where
  "Get i = (case gomap_get index i of None \<Rightarrow> None | Some j \<Rightarrow> Some (perms ! j))"

definition Bit_of :: "string \<Rightarrow> nat option" where "Bit_of i = gomap_get index i"

definition IDAt :: "int \<Rightarrow> string" where
  "IDAt b = (if b < 0 \<or> b \<ge> int (length perms) then [] else ID (perms ! nat b))"

definition Expand :: "string \<Rightarrow> string list" where
  "Expand old = map (\<lambda>j. ID (perms ! j)) (gomap_at [] byOld old)"

definition OldActions :: "string list" where
  "OldActions = sort_Strings (map fst byOld)"

definition Match :: "string \<Rightarrow> string list" where
  "Match pattern =
     (if pattern = ''*'' then map ID perms
      else if strings_HasSuffix pattern '':*'' then
        (let pre = strings_TrimSuffix pattern ''*'' in
         map ID (filter (\<lambda>p. strings_HasPrefix (ID p) pre) perms))
      else if Has pattern then [pattern] else [])"

section \<open>init does not panic, and the index is the inverse of the bit order\<close>

definition ids :: "string list" where "ids = map raw_id table"

lemma ids_eval: "ids = [
     ''org:read'', ''org:update'', ''org:delete'', ''org:access-policy'', ''org:transfer'',
     ''member:read'', ''member:invite'', ''member:update'', ''member:remove'', ''member:leave'',
     ''member:suspend'', ''group:read'', ''group:manage'', ''template:read'', ''template:manage'',
     ''audit:read'', ''audit:export'', ''orgvar:read'', ''orgvar:write'', ''orgvar:reveal'',
     ''billing:read'', ''billing:manage'', ''token:read-all'', ''token:revoke-any'',
     ''oauthclient:manage'', ''project:create'', ''project:view'', ''project:read'', ''project:update'',
     ''project:delete'', ''project:restore'', ''deployment:read'', ''deployment:create'',
     ''deployment:cancel'', ''deployment:rollback'', ''preview:read'', ''preview:manage'', ''log:read'',
     ''envvar:read'', ''envvar:write'', ''envvar:reveal'', ''environment:read'', ''environment:manage'',
     ''promotion:request'', ''promotion:approve'', ''worker:read'', ''worker:manage'', ''cron:read'',
     ''cron:manage'', ''cron:trigger'', ''domain:read'', ''domain:manage'', ''email:read'',
     ''email:manage'', ''storage:read'', ''storage:manage'', ''storage:presign'', ''database:read'',
     ''database:create'', ''database:delete'', ''database:query'', ''backup:read'', ''backup:manage'',
     ''backup:restore'', ''connaudit:read'', ''connaudit:manage'', ''network:read'', ''network:manage'',
     ''gateway:connect'', ''gateway:manage'', ''gateway:token'', ''git:read'', ''git:write'',
     ''git:review'', ''git:merge'', ''git:link'', ''git:protect'', ''git:settings'', ''git:mirror'',
     ''git:review-dismiss'', ''git:token-service'', ''ci:read'', ''ci:run'', ''ci:variable'',
     ''ci:secret'', ''security:read'', ''security:triage'', ''security:upload'', ''security:admin'',
     ''webhook:manage'', ''assignment:read'', ''assignment:grant'', ''platform-user:read'',
     ''platform-user:create'', ''platform-user:suspend'', ''platform-user:delete'',
     ''platform-user:set-role'', ''platform-backup:read'', ''platform-backup:run'']"
  by (simp add: ids_def table_def)

lemma length_table [simp]: "length table = 99"
  by (simp add: table_def)

lemma length_ids [simp]: "length ids = 99"
  by (simp add: ids_def)

lemma distinct_ids: "distinct ids"
  by (simp add: ids_eval)

lemma ids_nth_eq [simp]: "b < 99 \<Longrightarrow> c < 99 \<Longrightarrow> ids ! b = ids ! c \<longleftrightarrow> b = c"
  using distinct_ids by (simp add: nth_eq_iff_index_eq)

lemma update_fresh: "k \<notin> fst ` set m \<Longrightarrow> gomap_set k v m = m @ [(k, v)]"
  by (induction m) auto

lemma init_index_Inr:
  assumes "distinct (map raw_id rs)" and "set (map raw_id rs) \<inter> fst ` set ix = {}"
  shows "init_index i rs ix = Inr (ix @ zip (map raw_id rs) [i..<i + length rs])"
  using assms
proof (induction rs arbitrary: i ix)
  case Nil
  then show ?case by simp
next
  case (Cons r rs)
  then have fresh: "raw_id r \<notin> fst ` set ix" by auto
  have "init_index i (r # rs) ix = init_index (Suc i) rs (ix @ [(raw_id r, i)])"
    using fresh by (simp add: update_fresh map_of_eq_None_iff)
  also have "\<dots> = Inr ((ix @ [(raw_id r, i)]) @ zip (map raw_id rs) [Suc i..<Suc i + length rs])"
    using Cons.prems by (intro Cons.IH) auto
  finally show ?case by (simp add: upt_rec)
qed

lemma init_index_dup:
  "init_index i rs ix = Inr ix' \<Longrightarrow> distinct (map raw_id rs) \<and> set (map raw_id rs) \<inter> fst ` set ix = {}"
  by (induction i rs ix rule: init_index.induct)
     (auto simp: map_of_eq_None_iff update_conv' dom_update split: if_splits)

lemma init_index_table: "init_index 0 table [] = Inr (zip ids [0..<99])"
  using init_index_Inr [of table "[]" 0] distinct_ids by (simp add: ids_def)

lemma init_catalog_table:
  "init_catalog table = Inr \<lparr>
     cat_perms = map (\<lambda>p. p\<lparr>Requires := requires_of (zip ids [0..<99]) (base_perms table) p\<rparr>) (base_perms table),
     cat_index = zip ids [0..<99], cat_byOld = init_byOld (base_perms table) \<rparr>"
  by (simp add: init_catalog_def init_index_table MaxPerms_def Let_def)

lemma index_eq: "index = zip ids [0..<99]"
  by (simp add: index_def the_catalog_def init_catalog_table)

lemma perms_eq:
  "perms = map (\<lambda>p. p\<lparr>Requires := requires_of index (base_perms table) p\<rparr>) (base_perms table)"
  by (simp add: perms_def the_catalog_def init_catalog_table index_eq)

lemma byOld_eq: "byOld = init_byOld (base_perms table)"
  by (simp add: byOld_def the_catalog_def init_catalog_table)

lemma length_base_perms [simp]: "length (base_perms rs) = length rs"
  by (simp add: base_perms_def)

lemma nth_base_perms: "i < length rs \<Longrightarrow> base_perms rs ! i = init_perm i (rs ! i)"
  by (simp add: base_perms_def nth_enumerate_eq)

lemma length_perms [simp]: "length perms = 99"
  by (simp add: perms_eq)

lemma ID_init_perm [simp]: "ID (init_perm i r) = raw_id r"
  and Bit_init_perm [simp]: "Bit (init_perm i r) = i"
  and Legacy_init_perm: "Legacy (init_perm i r) = (if raw_legacy r \<noteq> [] then strings_Fields (raw_legacy r) else [])"
  and Sensitive_init_perm: "Sensitive (init_perm i r) = strings_Contains (raw_flags r) ''s''"
  and Scopes_init_perm: "Scopes (init_perm i r) = sort_key scopeRank (concat (map scope_of_letter (raw_scopes r)))"
  by (simp_all add: init_perm_def Let_def)

lemma perms_nth:
  "i < 99 \<Longrightarrow> perms ! i = (init_perm i (table ! i))
      \<lparr>Requires := requires_of index (base_perms table) (init_perm i (table ! i))\<rparr>"
  by (simp add: perms_eq nth_base_perms)

lemma ID_perms_nth [simp]: "i < 99 \<Longrightarrow> ID (perms ! i) = ids ! i"
  and Bit_perms_nth [simp]: "i < 99 \<Longrightarrow> Bit (perms ! i) = i"
  by (simp_all add: perms_nth ids_def)

lemma map_ID_perms: "map ID perms = ids"
  by (rule nth_equalityI) simp_all

lemma index_get_iff: "gomap_get index i = Some b \<longleftrightarrow> b < 99 \<and> ids ! b = i"
proof -
  have "gomap_get index i = Some b \<longleftrightarrow> (i, b) \<in> set (zip ids [0..<99])"
    unfolding index_eq using distinct_ids by (intro map_of_eq_Some_iff) (simp add: map_fst_zip)
  also have "\<dots> \<longleftrightarrow> b < 99 \<and> ids ! b = i"
    by (auto simp: in_set_zip)
  finally show ?thesis .
qed

lemma index_nth [simp]: "b < 99 \<Longrightarrow> gomap_get index (ids ! b) = Some b"
  by (simp add: index_get_iff)

lemma index_None_iff: "gomap_get index i = None \<longleftrightarrow> i \<notin> set ids"
  by (metis index_get_iff in_set_conv_nth length_ids not_None_eq)

lemma index_bound: "gomap_get index i = Some b \<Longrightarrow> b < 99"
  by (simp add: index_get_iff)

lemma Has_iff: "Has i \<longleftrightarrow> i \<in> set ids"
  by (simp add: Has_def index_None_iff)

section \<open>The expansion of the old actions\<close>

lemma fields_loop_no_space:
  "\<forall>c \<in> set s. \<not> ascii_space c \<Longrightarrow> fields_loop cur s = (if cur = [] \<and> s = [] then [] else [rev cur @ s])"
  by (induction s arbitrary: cur) auto

lemma Fields_no_space: "s \<noteq> [] \<Longrightarrow> \<forall>c \<in> set s. \<not> ascii_space c \<Longrightarrow> strings_Fields s = [s]"
  by (simp add: strings_Fields_def fields_loop_no_space)

lemma table_legacy_no_space: "\<forall>r \<in> set table. \<forall>c \<in> set (raw_legacy r). \<not> ascii_space c"
  by (simp add: table_def ascii_space_def)

lemma Legacy_table:
  assumes "r \<in> set table"
  shows "Legacy (init_perm i r) = (if raw_legacy r = [] then [] else [raw_legacy r])"
  using assms table_legacy_no_space by (simp add: Legacy_init_perm Fields_no_space)

lemma init_byOld_table:
  "init_byOld (base_perms table) =
     foldl (\<lambda>m (i, r). if raw_legacy r = [] then m
              else gomap_set (raw_legacy r) (gomap_at [] m (raw_legacy r) @ [i]) m) [] (enumerate 0 table)"
  unfolding init_byOld_def base_perms_def foldl_map
  by (rule foldl_cong) (auto simp: Legacy_table in_set_enumerate_eq)

lemma byOld_eval: "byOld = [
    (''project.read'', [26, 27, 31, 35, 37, 38, 45, 47, 50, 52, 54, 57, 61, 64, 66]),
    (''project.ops'', [28, 46, 48, 49, 51, 53, 56, 60, 62, 65, 75]),
    (''project.delete'', [29, 30]), (''project.deploy'', [32, 33, 34, 36]),
    (''project.env_write'', [39]), (''project.env_reveal'', [40]),
    (''env.read'', [41]), (''env.admin'', [42]), (''env.request'', [43]),
    (''env.approve'', [44]), (''project.databases'', [55, 58, 59, 63]),
    (''project.network'', [67, 69, 70]), (''project.connect'', [68]),
    (''git.read'', [71, 81]), (''git.write'', [72, 82]),
    (''git.review'', [73]), (''git.merge'', [74]),
    (''git.admin'', [76, 77, 78, 79, 80, 83, 84]), (''security.read'', [85]),
    (''security.triage'', [86, 87]), (''security.admin'', [88]),
    (''webhooks.manage'', [89]), (''project.members'', [90, 91])]"
  unfolding byOld_eq init_byOld_table by code_simp

lemma byOld_bound: "\<forall>(old, js) \<in> set byOld. \<forall>j \<in> set js. j < 99"
  by (simp add: byOld_eval)

lemma byOld_at_bound: "j \<in> set (gomap_at [] byOld old) \<Longrightarrow> j < 99"
  using byOld_bound by (cases "gomap_get byOld old") (fastforce simp: gomap_at_def dest: map_of_SomeD)+

lemma Expand_eq: "Expand old = map (\<lambda>j. ids ! j) (gomap_at [] byOld old)"
  unfolding Expand_def by (rule map_cong) (auto simp: byOld_at_bound)

lemma Expand_Has: "i \<in> set (Expand old) \<Longrightarrow> Has i"
  by (auto simp: Expand_eq Has_iff byOld_at_bound)

section \<open>Dependencies\<close>

lemma set_add_req [simp]: "set (add_req self req i) = (if i = self then set req else insert i (set req))"
  by (auto simp: add_req_def)

lemma distinct_add_req: "distinct req \<Longrightarrow> distinct (add_req self req i)"
  by (simp add: add_req_def)

lemma project_view_bit: "gomap_get index ''project:view'' = Some 26"
  by (simp add: index_get_iff ids_eval)

lemma explicitRequires_Has: "(i, e) \<in> set explicitRequires \<Longrightarrow> e \<in> set ids"
  by (auto simp: explicitRequires_def ids_eval)

lemma set_req_view: "set (req_view p) \<subseteq> {''project:view''} - {ID p}"
  by (auto simp: req_view_def)

lemma set_req_read: "set (req_read ix ps p req) \<subseteq> set req \<union> ({i. gomap_get ix i \<noteq> None} - {ID p})"
  by (auto simp: req_read_def Let_def split: option.splits)

lemma set_req_explicit: "set (req_explicit p req) \<subseteq> set req \<union> (snd ` set explicitRequires - {ID p})"
  by (force simp: req_explicit_def split: option.splits if_splits dest!: map_of_SomeD)

lemma requires_of_sources:
  "set (requires_of ix ps p) \<subseteq>
     ({''project:view''} \<union> {i. gomap_get ix i \<noteq> None} \<union> snd ` set explicitRequires) - {ID p}"
  using set_req_explicit set_req_read set_req_view unfolding requires_of_def set_sort_Strings by blast

lemma requires_of_Has:
  assumes "r \<in> set (requires_of index ps p)"
  shows "r \<in> set ids"
proof -
  have "{''project:view''} \<subseteq> set ids"
    by (simp add: ids_eval)
  moreover have "{i. gomap_get index i \<noteq> None} \<subseteq> set ids"
    unfolding index_None_iff by simp
  moreover have "snd ` set explicitRequires \<subseteq> set ids"
    using explicitRequires_Has by auto
  ultimately have "{''project:view''} \<union> {i. gomap_get index i \<noteq> None} \<union> snd ` set explicitRequires \<subseteq> set ids"
    by (intro Un_least)
  moreover have "r \<in> {''project:view''} \<union> {i. gomap_get index i \<noteq> None} \<union> snd ` set explicitRequires"
    using subsetD [OF requires_of_sources assms] by (rule DiffD1)
  ultimately show ?thesis by (rule subsetD)
qed

lemma requires_of_not_self: "ID p \<notin> set (requires_of ix ps p)"
proof
  assume "ID p \<in> set (requires_of ix ps p)"
  from subsetD [OF requires_of_sources this] show False by simp
qed

lemma requires_of_sorted: "sorted (requires_of ix ps p)"
  by (simp add: requires_of_def)

lemma requires_of_distinct: "distinct (requires_of ix ps p)"
proof -
  have "distinct (req_view p)"
    by (simp add: req_view_def distinct_add_req)
  then have "distinct (req_read ix ps p (req_view p))"
    by (simp add: req_read_def Let_def distinct_add_req split: option.split)
  then have "distinct (req_explicit p (req_read ix ps p (req_view p)))"
    by (simp add: req_explicit_def distinct_add_req split: option.split)
  then show ?thesis by (simp add: requires_of_def sort_Strings_def)
qed

lemma perms_cases:
  assumes "p \<in> set perms"
  obtains i where "i < 99" "p = perms ! i"
  using assms by (auto simp: in_set_conv_nth)

lemma Requires_perms:
  assumes "p \<in> set perms"
  shows "\<exists>q. ID q = ID p \<and> Requires p = requires_of index (base_perms table) q"
  using assms by (auto simp: perms_eq)

section \<open>Properties\<close>

text \<open>\<^verbatim>\<open>init\<close> succeeds exactly on tables without a repeated id and with at most \<^verbatim>\<open>MaxPerms\<close>
  rows, and otherwise panics; the table of the source is such a table.\<close>

theorem init_catalog_ok_iff:
  "((\<exists>c. init_catalog rs = Inr c) \<longleftrightarrow> distinct (map raw_id rs) \<and> length rs \<le> MaxPerms)
   \<and> init_catalog table = Inr the_catalog \<and> length perms = 99"
proof -
  have "(\<exists>c. init_catalog rs = Inr c) \<longleftrightarrow> (\<exists>ix. init_index 0 rs [] = Inr ix) \<and> length rs \<le> MaxPerms"
    by (auto simp: init_catalog_def Let_def split: sum.splits)
  also have "(\<exists>ix. init_index 0 rs [] = Inr ix) \<longleftrightarrow> distinct (map raw_id rs)"
    using init_index_Inr [of rs "[]" 0] init_index_dup [of 0 rs "[]"] by auto
  finally show ?thesis
    by (simp add: the_catalog_def init_catalog_table)
qed

text \<open>The bit of a permission and the permission at a bit are inverse to each other: \<^verbatim>\<open>Bit\<close>
  knows exactly the ids \<^verbatim>\<open>IDAt\<close> returns for the positions of the table, and outside of them
  \<^verbatim>\<open>IDAt\<close> is the empty string.\<close>

theorem Bit_IDAt_roundtrip:
  "(Bit_of i = Some b \<longleftrightarrow> int b < int Len \<and> IDAt (int b) = i)
   \<and> (n < 0 \<or> int Len \<le> n \<longrightarrow> IDAt n = [])"
  by (auto simp: Bit_of_def IDAt_def Len_def index_get_iff)

theorem Bit_IDAt_roundtrip_witness:
  "((-1::int) < 0 \<or> int Len \<le> -1) \<and> IDAt (-1) = [] \<and> Bit_of ''project:view'' = Some 26"
  using Bit_IDAt_roundtrip [of "''project:view''" 26 "-1"] by (simp add: Bit_of_def project_view_bit)

text \<open>Every dependency of a catalog entry is itself a catalog entry, different from the entry;
  the list is sorted and has no repetition, so the validation of a template against it can always
  be satisfied.\<close>

theorem Requires_closed:
  assumes "p \<in> set All"
  shows "(\<forall>r \<in> set (Requires p). Has r \<and> r \<noteq> ID p) \<and> sorted (Requires p) \<and> distinct (Requires p)"
proof -
  obtain q where q: "ID q = ID p" "Requires p = requires_of index (base_perms table) q"
    using Requires_perms assms by (auto simp: All_def)
  then show ?thesis
    using requires_of_Has requires_of_not_self [of q] requires_of_sorted requires_of_distinct
    by (auto simp: Has_iff)
qed

theorem Requires_closed_witness:
  "perms ! 44 \<in> set All \<and> sorted (Requires (perms ! 44)) \<and> distinct (Requires (perms ! 44))"
proof -
  have h: "perms ! 44 \<in> set All" by (simp add: All_def)
  show ?thesis using h Requires_closed [OF h] by simp
qed

end
