(* ===== verification/Perm_Set.thy ===== *)
theory Perm_Set
  imports Catalog
begin

text \<open>
  The permission bitset (\<^verbatim>\<open>internal/authz/catalog/set.go\<close>): 128 bits in two 64-bit words, with the
  word operations of the code, the hexadecimal mask and its parser. The locale \<open>bitset\<close> states what
  the rest of the engine relies on (which bits the result of each operation has); its interpretation
  on the word-level definitions is the refinement of the bitset to a set of bit positions.
\<close>

section \<open>The type and its operations\<close>

datatype pset = PSet (w0: "64 word") (w1: "64 word")

definition empty_set :: pset where "empty_set = PSet 0 0"

text \<open>\<^verbatim>\<open>addBit\<close> indexes an array of two words; its callers pass positions of the index, which are
  below 128 (\<open>index_bound\<close>), so the array access never panics.\<close>

definition addBit :: "pset \<Rightarrow> nat \<Rightarrow> pset" where
  "addBit s b =
     (if drop_bit 6 b = 0 then PSet (w0 s OR push_bit (b AND 63) 1) (w1 s)
      else PSet (w0 s) (w1 s OR push_bit (b AND 63) 1))"

fun ParseSet_loop :: "pset \<Rightarrow> string list \<Rightarrow> string list \<Rightarrow> pset \<times> string list" where
  "ParseSet_loop s unknown [] = (s, unknown)"
| "ParseSet_loop s unknown (i # rest) =
     (case gomap_get index i of
        Some b \<Rightarrow> ParseSet_loop (addBit s b) unknown rest
      | None \<Rightarrow> ParseSet_loop s (unknown @ [i]) rest)"

definition ParseSet :: "string list \<Rightarrow> pset \<times> string list" where
  "ParseSet is = ParseSet_loop empty_set [] is"

definition NewSet :: "string list \<Rightarrow> pset" where
  "NewSet is = fst (ParseSet is)"

definition Full :: pset where
  "Full = foldl addBit empty_set [0..<length perms]"

definition Add :: "pset \<Rightarrow> string \<Rightarrow> pset" where
  "Add s i = (case gomap_get index i of Some b \<Rightarrow> addBit s b | None \<Rightarrow> s)"

definition HasBit :: "pset \<Rightarrow> nat \<Rightarrow> bool" where
  "HasBit s b =
     (if b \<ge> MaxPerms then False
      else (if drop_bit 6 b = 0 then w0 s else w1 s) AND push_bit (b AND 63) 1 \<noteq> 0)"

definition Set_Has :: "pset \<Rightarrow> string \<Rightarrow> bool" where
  "Set_Has s i = (case gomap_get index i of Some b \<Rightarrow> HasBit s b | None \<Rightarrow> False)"

definition Union :: "pset \<Rightarrow> pset \<Rightarrow> pset" where
  "Union s t = PSet (w0 s OR w0 t) (w1 s OR w1 t)"

definition Intersect :: "pset \<Rightarrow> pset \<Rightarrow> pset" where
  "Intersect s t = PSet (w0 s AND w0 t) (w1 s AND w1 t)"

definition Minus :: "pset \<Rightarrow> pset \<Rightarrow> pset" where
  "Minus s t = PSet (w0 s AND NOT (w0 t)) (w1 s AND NOT (w1 t))"

definition IsEmpty :: "pset \<Rightarrow> bool" where
  "IsEmpty s \<longleftrightarrow> w0 s OR w1 s = 0"

definition ContainsAll :: "pset \<Rightarrow> pset \<Rightarrow> bool" where
  "ContainsAll s t \<longleftrightarrow> IsEmpty (Minus t s)"

text \<open>\<^verbatim>\<open>bits.OnesCount64\<close> counts the bits of a word.\<close>

definition OnesCount64 :: "64 word \<Rightarrow> nat" where
  "OnesCount64 w = length (filter (bit w) [0..<64])"

definition Set_Len :: "pset \<Rightarrow> nat" where
  "Set_Len s = OnesCount64 (w0 s) + OnesCount64 (w1 s)"

definition IDs :: "pset \<Rightarrow> string list" where
  "IDs s = map (\<lambda>i. ID (perms ! i)) (filter (HasBit s) [0..<length perms])"

definition ExpandSet :: "string list \<Rightarrow> pset" where
  "ExpandSet olds = foldl (\<lambda>s old. foldl addBit s (gomap_at [] byOld old)) empty_set olds"

section \<open>The hexadecimal mask\<close>

text \<open>\<^verbatim>\<open>encoding/hex\<close>: two lower-case digits a byte; decoding fails on an odd length or another digit.\<close>

definition hexchars :: string where "hexchars = ''0123456789abcdef''"

fun hex_EncodeToString :: "8 word list \<Rightarrow> string" where
  "hex_EncodeToString [] = []"
| "hex_EncodeToString (b # bs) =
     hexchars ! (unat b div 16) # hexchars ! (unat b mod 16) # hex_EncodeToString bs"

definition fromHexChar :: "char \<Rightarrow> nat option" where
  "fromHexChar c =
     (let n = (of_char c :: nat) in
      if 48 \<le> n \<and> n \<le> 57 then Some (n - 48)
      else if 97 \<le> n \<and> n \<le> 102 then Some (n - 97 + 10)
      else if 65 \<le> n \<and> n \<le> 70 then Some (n - 65 + 10)
      else None)"

fun hex_DecodeString :: "string \<Rightarrow> 8 word list option" where
  "hex_DecodeString [] = Some []"
| "hex_DecodeString [c] = None"
| "hex_DecodeString (c # d # s) =
     (case (fromHexChar c, fromHexChar d, hex_DecodeString s) of
        (Some a, Some b, Some bs) \<Rightarrow> Some (word_of_nat (a * 16 + b) # bs)
      | _ \<Rightarrow> None)"

definition byte_of :: "64 word \<Rightarrow> nat \<Rightarrow> 8 word" where
  "byte_of w k = ucast (drop_bit k w)"

text \<open>The loop stores \<^verbatim>\<open>byte(s.w[1] >> (8*i))\<close> at \<^verbatim>\<open>7-i\<close> and \<^verbatim>\<open>byte(s.w[0] >> (8*i))\<close> at \<^verbatim>\<open>15-i\<close>, so byte
  \<open>j\<close> of the first half holds the bits from \<open>8 * (7 - j)\<close> on.\<close>

definition mask_bytes :: "pset \<Rightarrow> 8 word list" where
  "mask_bytes s = map (\<lambda>j. byte_of (w1 s) (8 * (7 - j))) [0..<8] @ map (\<lambda>j. byte_of (w0 s) (8 * (7 - j))) [0..<8]"

definition Hex :: "pset \<Rightarrow> string" where
  "Hex s = hex_EncodeToString (mask_bytes s)"

definition SetFromHex :: "string \<Rightarrow> pset option" where
  "SetFromHex h0 =
     (let h1 = strings_TrimPrefix (strings_ToLower h0) ''0x'' in
      if length h1 = 0 \<or> length h1 > 32 then None
      else let h = replicate (32 - length h1) (CHR ''0'') @ h1 in
        case hex_DecodeString h of
          None \<Rightarrow> None
        | Some r \<Rightarrow>
            Some (Intersect
              (foldl (\<lambda>s i. PSet (w0 s OR push_bit (8 * i) (ucast (r ! (15 - i))))
                                 (w1 s OR push_bit (8 * i) (ucast (r ! (7 - i))))) empty_set [0..<8]) Full))"

section \<open>Bits of words\<close>

lemma and_exp_iff: "(w AND 2 ^ n = 0) \<longleftrightarrow> \<not> bit w n" for w :: "'a::len word"
proof -
  have "w AND 2 ^ n = (if bit w n then 2 ^ n else 0)"
    by (rule bit_word_eqI) (auto simp: bit_simps)
  moreover have "bit w n \<Longrightarrow> 2 ^ n \<noteq> (0 :: 'a word)"
    by (auto dest: bit_imp_le_length simp: bit_eq_iff bit_simps)
  ultimately show ?thesis by auto
qed

lemma drop_bit_6: "drop_bit 6 b = 0 \<longleftrightarrow> b < 64" for b :: nat
  by (simp add: drop_bit_eq_div div_eq_0_iff)

lemma and_63: "b AND 63 = b mod 64" for b :: nat
  using take_bit_eq_mask [of 6 b] by (simp add: take_bit_eq_mod mask_eq_exp_minus_1)

lemma HasBit_bit: "HasBit s b \<longleftrightarrow> b < 128 \<and> (if b < 64 then bit (w0 s) b else bit (w1 s) (b - 64))"
proof -
  have "b < 128 \<Longrightarrow> \<not> b < 64 \<Longrightarrow> b mod 64 = b - 64" by (simp add: le_mod_geq)
  then show ?thesis
    by (auto simp: HasBit_def MaxPerms_def drop_bit_6 and_63 and_exp_iff)
qed

lemma pset_eqI: "(\<And>b. b < 128 \<Longrightarrow> HasBit s b = HasBit t b) \<Longrightarrow> s = t"
proof (rule pset.expand, intro conjI bit_word_eqI)
  fix n assume h: "\<And>b. b < 128 \<Longrightarrow> HasBit s b = HasBit t b"
  show "n < LENGTH(64) \<Longrightarrow> bit (w0 s) n = bit (w0 t) n"
    using h [of n] by (simp add: HasBit_bit)
  show "n < LENGTH(64) \<Longrightarrow> bit (w1 s) n = bit (w1 t) n"
    using h [of "n + 64"] by (simp add: HasBit_bit)
qed

lemma HasBit_empty [pset_simps]: "\<not> HasBit empty_set b"
  by (simp add: HasBit_bit empty_set_def)

lemma HasBit_addBit [pset_simps]: "c < 128 \<Longrightarrow> HasBit (addBit s c) b \<longleftrightarrow> b = c \<or> HasBit s b"
proof -
  assume c: "c < 128"
  have "c mod 64 = (if c < 64 then c else c - 64)" using c by (simp add: le_mod_geq)
  then show ?thesis
    using c by (auto simp: HasBit_bit addBit_def drop_bit_6 and_63 bit_simps)
qed

lemma HasBit_Union [pset_simps]: "HasBit (Union s t) b \<longleftrightarrow> HasBit s b \<or> HasBit t b"
  by (auto simp: HasBit_bit Union_def bit_simps)

lemma HasBit_Intersect [pset_simps]: "HasBit (Intersect s t) b \<longleftrightarrow> HasBit s b \<and> HasBit t b"
  by (auto simp: HasBit_bit Intersect_def bit_simps)

lemma HasBit_Minus [pset_simps]: "HasBit (Minus s t) b \<longleftrightarrow> HasBit s b \<and> \<not> HasBit t b"
  by (auto simp: HasBit_bit Minus_def bit_simps)

lemma HasBit_bound: "HasBit s b \<Longrightarrow> b < 128"
  by (simp add: HasBit_bit)

lemma IsEmpty_iff: "IsEmpty s \<longleftrightarrow> s = empty_set"
  by (cases s) (simp add: IsEmpty_def empty_set_def or_eq_0_iff)

section \<open>The interface the engine relies on\<close>

locale bitset =
  fixes has :: "'s \<Rightarrow> nat \<Rightarrow> bool"
    and empt :: "'s"
    and union :: "'s \<Rightarrow> 's \<Rightarrow> 's"
    and inter :: "'s \<Rightarrow> 's \<Rightarrow> 's"
    and minus :: "'s \<Rightarrow> 's \<Rightarrow> 's"
    and is_empty :: "'s \<Rightarrow> bool"
    and contains :: "'s \<Rightarrow> 's \<Rightarrow> bool"
  assumes has_empt: "\<not> has empt b"
    and has_union: "has (union s t) b \<longleftrightarrow> has s b \<or> has t b"
    and has_inter: "has (inter s t) b \<longleftrightarrow> has s b \<and> has t b"
    and has_minus: "has (minus s t) b \<longleftrightarrow> has s b \<and> \<not> has t b"
    and ext: "(\<And>b. has s b = has t b) \<Longrightarrow> s = t"
    and is_empty_iff: "is_empty s \<longleftrightarrow> s = empt"
    and contains_def: "contains s t \<longleftrightarrow> is_empty (minus t s)"
begin

lemma eq_iff: "s = t \<longleftrightarrow> (\<forall>b. has s b = has t b)"
  using ext by blast

lemma is_empty_has: "is_empty s \<longleftrightarrow> (\<forall>b. \<not> has s b)"
  by (auto simp: is_empty_iff eq_iff has_empt)

lemma contains_has: "contains s t \<longleftrightarrow> (\<forall>b. has t b \<longrightarrow> has s b)"
  by (auto simp: contains_def is_empty_has has_minus)

lemma contains_empt: "contains s empt"
  by (simp add: contains_has has_empt)

lemma contains_refl: "contains s s"
  by (simp add: contains_has)

lemma contains_trans: "contains s t \<Longrightarrow> contains t u \<Longrightarrow> contains s u"
  by (auto simp: contains_has)

lemma contains_antisym: "contains s t \<Longrightarrow> contains t s \<Longrightarrow> s = t"
  by (auto simp: contains_has eq_iff)

lemma contains_union: "contains (union s t) s" "contains (union s t) t"
  by (auto simp: contains_has has_union)

lemma union_least: "contains u s \<Longrightarrow> contains u t \<Longrightarrow> contains u (union s t)"
  by (auto simp: contains_has has_union)

lemma contains_inter: "contains s (inter s t)" "contains t (inter s t)"
  by (auto simp: contains_has has_inter)

lemma inter_absorb: "contains t s \<Longrightarrow> inter s t = s"
  by (auto simp: contains_has has_inter eq_iff)

lemma contains_Union_iff: "contains u (union s t) \<longleftrightarrow> contains u s \<and> contains u t"
  by (auto simp: contains_has has_union)

lemma union_empt: "union empt s = s" "union s empt = s"
  by (auto simp: eq_iff has_union has_empt)

lemma union_comm: "union s t = union t s"
  by (auto simp: eq_iff has_union)

lemma union_assoc: "union (union s t) u = union s (union t u)"
  by (auto simp: eq_iff has_union)

lemma union_idem: "union s s = s"
  by (auto simp: eq_iff has_union)

lemma has_foldl_union: "has (foldl (\<lambda>s x. union s (f x)) s xs) b \<longleftrightarrow> has s b \<or> (\<exists>x \<in> set xs. has (f x) b)"
  by (induction xs arbitrary: s) (auto simp: has_union)

end

interpretation ps: bitset HasBit empty_set Union Intersect Minus IsEmpty ContainsAll
proof unfold_locales
  show "s = t" if "\<And>b. HasBit s b = HasBit t b" for s t
    using that by (intro pset_eqI)
qed (simp_all add: pset_simps IsEmpty_iff ContainsAll_def)

section \<open>Parsing and listing ids\<close>

lemma HasBit_foldl_addBit:
  "\<forall>b \<in> set bs. b < 128 \<Longrightarrow> HasBit (foldl addBit s bs) b \<longleftrightarrow> b \<in> set bs \<or> HasBit s b"
  by (induction bs arbitrary: s) (auto simp: pset_simps)

lemma HasBit_Full [pset_simps]: "HasBit Full b \<longleftrightarrow> b < 99"
  by (simp add: Full_def HasBit_foldl_addBit HasBit_empty)

lemma index_lt_128: "gomap_get index i = Some b \<Longrightarrow> b < 128"
  using index_bound by fastforce

lemma ParseSet_loop_eq:
  "ParseSet_loop s u is = (foldl addBit s (List.map_filter (gomap_get index) is), u @ filter (\<lambda>i. \<not> Has i) is)"
  by (induction s u "is" rule: ParseSet_loop.induct)
     (auto simp: List.map_filter_simps Has_def split: option.splits)

lemma ParseSet_eq:
  "ParseSet is = (foldl addBit empty_set (List.map_filter (gomap_get index) is), filter (\<lambda>i. \<not> Has i) is)"
  by (simp add: ParseSet_def ParseSet_loop_eq)

lemma set_map_filter_index:
  "b \<in> set (List.map_filter (gomap_get index) is) \<longleftrightarrow> (\<exists>i \<in> set is. gomap_get index i = Some b)"
  by (auto simp: List.map_filter_def image_iff Bex_def)

lemma HasBit_NewSet [pset_simps]: "HasBit (NewSet is) b \<longleftrightarrow> b < 99 \<and> ids ! b \<in> set is"
proof -
  have "HasBit (NewSet is) b \<longleftrightarrow> (\<exists>i \<in> set is. gomap_get index i = Some b)"
    unfolding NewSet_def ParseSet_eq fst_conv
    by (subst HasBit_foldl_addBit) (auto simp: set_map_filter_index index_lt_128 HasBit_empty)
  then show ?thesis by (auto simp: index_get_iff)
qed

lemma NewSet_cong: "set is = set js \<Longrightarrow> NewSet is = NewSet js"
  by (rule pset_eqI) (simp add: pset_simps)

lemma NewSet_bits:
  assumes "\<forall>b \<in> set bs. b < 99"
  shows "NewSet (map ((!) ids) bs) = foldl addBit empty_set bs"
proof (rule pset_eqI)
  fix b :: nat
  have "(\<exists>c \<in> set bs. ids ! b = ids ! c) \<and> b < 99 \<longleftrightarrow> b \<in> set bs"
    using assms distinct_ids by (auto simp: nth_eq_iff_index_eq)
  moreover have "\<forall>b \<in> set bs. b < 128" using assms by auto
  ultimately show "HasBit (NewSet (map ((!) ids) bs)) b = HasBit (foldl addBit empty_set bs) b"
    by (auto simp: pset_simps HasBit_foldl_addBit image_iff)
qed

lemma Set_Has_iff: "Set_Has s i \<longleftrightarrow> (\<exists>b < 99. ids ! b = i \<and> HasBit s b)"
  by (cases "gomap_get index i") (auto simp: Set_Has_def index_get_iff)

lemma Add_NewSet: "Add s i = Union s (NewSet [i])"
proof (cases "gomap_get index i")
  case None
  then have "i \<notin> set ids" by (simp add: index_None_iff)
  then have "\<not> (b < 99 \<and> ids ! b = i)" for b by auto
  then show ?thesis
    using None by (intro pset_eqI) (auto simp: Add_def pset_simps)
next
  case (Some c)
  then have "c < 99" "i = ids ! c" by (auto simp: index_get_iff)
  then show ?thesis
    using Some by (intro pset_eqI) (auto simp: Add_def pset_simps)
qed

lemma set_IDs: "set (IDs s) = {ids ! b | b. b < 99 \<and> HasBit s b}"
  by (auto simp: IDs_def)

lemma IDs_eq: "IDs s = map ((!) ids) (filter (HasBit s) [0..<99])"
  by (simp add: IDs_def)

lemma IDs_nth_iff: "b < 99 \<Longrightarrow> ids ! b \<in> set (IDs s) \<longleftrightarrow> HasBit s b"
  using distinct_ids by (auto simp: set_IDs nth_eq_iff_index_eq)

lemma distinct_IDs: "distinct (IDs s)"
  using distinct_ids by (auto simp: IDs_eq distinct_map inj_on_def nth_eq_iff_index_eq)

lemma OnesCount64_card: "OnesCount64 w = card {n. n < 64 \<and> bit w n}"
proof -
  have "set (filter (bit w) [0..<64]) = {n. n < 64 \<and> bit w n}" by auto
  then show ?thesis
    unfolding OnesCount64_def by (metis distinct_card distinct_filter distinct_upt)
qed

lemma Set_Len_card: "Set_Len s = card {b. HasBit s b}"
proof -
  let ?A = "{n. n < 64 \<and> bit (w0 s) n}" and ?B = "(\<lambda>n. n + 64) ` {n. n < 64 \<and> bit (w1 s) n}"
  have eq: "{b. HasBit s b} = ?A \<union> ?B"
  proof (intro set_eqI iffI)
    fix b assume "b \<in> {b. HasBit s b}"
    then show "b \<in> ?A \<union> ?B"
      by (cases "b < 64") (auto simp: HasBit_bit image_iff intro!: exI [of _ "b - 64"])
  qed (auto simp: HasBit_bit)
  have "card (?A \<union> ?B) = card ?A + card ?B"
    by (rule card_Un_disjoint) auto
  also have "card ?B = card {n. n < 64 \<and> bit (w1 s) n}"
    by (rule card_image) simp
  finally show ?thesis by (simp add: eq Set_Len_def OnesCount64_card)
qed

lemma HasBit_ExpandSet [pset_simps]:
  "HasBit (ExpandSet olds) b \<longleftrightarrow> (\<exists>old \<in> set olds. b \<in> set (gomap_at [] byOld old))"
proof -
  have "HasBit (foldl (\<lambda>s old. foldl addBit s (gomap_at [] byOld old)) s olds) b
        \<longleftrightarrow> HasBit s b \<or> (\<exists>old \<in> set olds. b \<in> set (gomap_at [] byOld old))" for s
  proof (induction olds arbitrary: s)
    case (Cons old olds)
    have "\<forall>b \<in> set (gomap_at [] byOld old). b < 128"
      using byOld_at_bound by fastforce
    then show ?case by (auto simp: Cons.IH HasBit_foldl_addBit)
  qed simp
  then show ?thesis by (simp add: ExpandSet_def HasBit_empty)
qed

section \<open>The mask round trip\<close>

lemma length_hex_Encode [simp]: "length (hex_EncodeToString bs) = 2 * length bs"
  by (induction bs) auto

lemma length_Hex [simp]: "length (Hex s) = 32"
  by (simp add: Hex_def mask_bytes_def)

lemma Hex_not_Nil [simp]: "Hex s \<noteq> []"
  by (metis length_Hex list.size(3) zero_neq_numeral)

lemma hexchars_cases:
  "n < 16 \<Longrightarrow> fromHexChar (hexchars ! n) = Some n \<and> ascii_lower (hexchars ! n) = hexchars ! n \<and> hexchars ! n \<noteq> CHR ''x''"
proof -
  assume "n < 16"
  then have "n \<in> set [0..<16]" by simp
  moreover have "\<forall>n \<in> set [0..<16]. fromHexChar (hexchars ! n) = Some n
      \<and> ascii_lower (hexchars ! n) = hexchars ! n \<and> hexchars ! n \<noteq> CHR ''x''"
    by code_simp
  ultimately show ?thesis by blast
qed

lemma nibbles: "unat (b :: 8 word) div 16 < 16" "unat b mod 16 < 16"
  using unsigned_less [of b, where ?'a = nat] by auto

lemma hex_Decode_Encode: "hex_DecodeString (hex_EncodeToString bs) = Some bs"
proof (induction bs)
  case (Cons b bs)
  have "unat b div 16 * 16 + unat b mod 16 = unat b" by simp
  then show ?case
    by (simp add: Cons.IH hexchars_cases nibbles del: mult_div_mod_eq div_mult_mod_eq)
qed simp

lemma ToLower_hex: "strings_ToLower (hex_EncodeToString bs) = hex_EncodeToString bs"
  unfolding strings_ToLower_def by (induction bs) (simp_all add: hexchars_cases nibbles)

lemma not_0x_hex: "\<not> strings_HasPrefix (hex_EncodeToString bs) ''0x''"
  by (cases bs) (simp_all add: hexchars_cases nibbles)

lemma bit_push_byte:
  "bit (push_bit k (ucast (byte_of w k)) :: 64 word) n \<longleftrightarrow> k \<le> n \<and> n < k + 8 \<and> bit w n"
  by (auto simp: byte_of_def bit_simps dest: bit_imp_le_length)

lemma reassemble_word:
  "foldl (\<lambda>a i. a OR push_bit (8 * i) (ucast (byte_of w (8 * i)))) 0 [0..<8] = w"
proof (rule bit_word_eqI)
  fix n assume n: "n < LENGTH(64)"
  have "bit (foldl (\<lambda>a i. a OR push_bit (8 * i) (ucast (byte_of w (8 * i)))) a xs) n
      \<longleftrightarrow> bit a n \<or> (\<exists>i \<in> set xs. 8 * i \<le> n \<and> n < 8 * i + 8 \<and> bit w n)"
    for a :: "64 word" and xs
    by (induction xs arbitrary: a) (auto simp: bit_or_iff bit_push_byte)
  moreover have "8 * (n div 8) \<le> n \<and> n < 8 * (n div 8) + 8" "n div 8 < 8"
    using n by auto
  ultimately show "bit (foldl (\<lambda>a i. a OR push_bit (8 * i) (ucast (byte_of w (8 * i)))) (0 :: 64 word) [0..<8]) n = bit w n"
    by (auto intro!: bexI [of _ "n div 8"])
qed

lemma foldl_PSet:
  "foldl (\<lambda>s i. PSet (f (w0 s) i) (g (w1 s) i)) s xs = PSet (foldl f (w0 s) xs) (foldl g (w1 s) xs)"
  by (induction xs arbitrary: s) (auto intro: pset.expand)

lemma mask_bytes_nth:
  "i < 8 \<Longrightarrow> mask_bytes s ! (15 - i) = byte_of (w0 s) (8 * i)"
  "i < 8 \<Longrightarrow> mask_bytes s ! (7 - i) = byte_of (w1 s) (8 * i)"
proof -
  assume i: "i < 8"
  then have "\<not> 15 - i < 8" "15 - i - 8 = 7 - i" "7 - i < 8" "7 - (7 - i) = i" by simp_all
  then show "mask_bytes s ! (15 - i) = byte_of (w0 s) (8 * i)"
    and "mask_bytes s ! (7 - i) = byte_of (w1 s) (8 * i)"
    by (simp_all add: mask_bytes_def nth_append del: diff_diff_cancel)
qed

lemma SetFromHex_Hex: "SetFromHex (Hex s) = Some (Intersect s Full)"
proof -
  have low: "strings_TrimPrefix (strings_ToLower (Hex s)) ''0x'' = Hex s"
    by (simp only: Hex_def ToLower_hex strings_TrimPrefix_def not_0x_hex if_False)
  have dec: "hex_DecodeString (Hex s) = Some (mask_bytes s)"
    by (simp add: Hex_def hex_Decode_Encode)
  have "foldl (\<lambda>s' i. PSet (w0 s' OR push_bit (8 * i) (ucast (mask_bytes s ! (15 - i))))
                      (w1 s' OR push_bit (8 * i) (ucast (mask_bytes s ! (7 - i))))) empty_set [0..<8]
      = foldl (\<lambda>s' i. PSet (w0 s' OR push_bit (8 * i) (ucast (byte_of (w0 s) (8 * i))))
                      (w1 s' OR push_bit (8 * i) (ucast (byte_of (w1 s) (8 * i))))) empty_set [0..<8]"
    by (rule foldl_cong) (simp_all add: mask_bytes_nth)
  also have "\<dots> = s"
    using foldl_PSet [of "\<lambda>a i. a OR push_bit (8 * i) (ucast (byte_of (w0 s) (8 * i)))"
        "\<lambda>a i. a OR push_bit (8 * i) (ucast (byte_of (w1 s) (8 * i)))" empty_set "[0..<8]"]
    by (simp add: empty_set_def reassemble_word)
  finally show ?thesis
    unfolding SetFromHex_def low by (simp add: Let_def dec)
qed

section \<open>Properties\<close>

text \<open>C39. The bitset refines a set of catalog ids: parsing a list gives exactly the set of its known
  ids and reports the unknown ones in order, listing a parsed set gives back the known ids without
  repetition in bit order, and \<^verbatim>\<open>Len\<close> counts the members.\<close>

theorem ParseSet_refines:
  "(\<forall>i. Set_Has (fst (ParseSet is)) i \<longleftrightarrow> i \<in> set is \<and> Has i)
   \<and> snd (ParseSet is) = filter (\<lambda>i. \<not> Has i) is
   \<and> IDs (fst (ParseSet is)) = filter (\<lambda>i. i \<in> set is) ids
   \<and> Set_Len (fst (ParseSet is)) = card {i \<in> set is. Has i}"
proof -
  let ?s = "fst (ParseSet is)"
  have bit: "HasBit ?s b \<longleftrightarrow> b < 99 \<and> ids ! b \<in> set is" for b
    using HasBit_NewSet by (simp add: NewSet_def)
  have has: "Set_Has ?s i \<longleftrightarrow> i \<in> set is \<and> Has i" for i
    by (auto simp: Set_Has_iff bit Has_iff in_set_conv_nth [of _ ids])
  have "IDs ?s = map ((!) ids) (filter (\<lambda>b. ids ! b \<in> set is) [0..<99])"
    unfolding IDs_eq by (intro arg_cong [of _ _ "map ((!) ids)"] filter_cong) (auto simp: bit)
  also have "\<dots> = filter (\<lambda>i. i \<in> set is) (map ((!) ids) [0..<99])"
    by (simp add: filter_map comp_def)
  also have "map ((!) ids) [0..<99] = ids"
    using map_nth [of ids] by simp
  finally have list: "IDs ?s = filter (\<lambda>i. i \<in> set is) ids" .
  have "{i \<in> set is. Has i} = (!) ids ` {b. HasBit ?s b}"
    by (auto simp: bit Has_iff in_set_conv_nth [of _ ids])
  then have "card {i \<in> set is. Has i} = card {b. HasBit ?s b}"
    by (simp add: card_image inj_on_def bit)
  then show ?thesis
    using has list by (simp add: Set_Len_card ParseSet_eq)
qed

text \<open>C40. The published mask round trips: parsing \<^verbatim>\<open>Hex\<close> of a set gives the set back, with the bits
  beyond the catalog cleared; the mask always has 32 digits.\<close>

theorem SetFromHex_roundtrip:
  "SetFromHex (Hex s) = Some (Intersect s Full) \<and> length (Hex s) = 32
   \<and> (ContainsAll Full s \<longrightarrow> SetFromHex (Hex s) = Some s)"
  by (simp add: SetFromHex_Hex ps.inter_absorb)

theorem SetFromHex_roundtrip_witness:
  "ContainsAll Full empty_set \<and> SetFromHex (Hex empty_set) = Some empty_set"
  using SetFromHex_roundtrip [of empty_set] ps.contains_empt [of Full] by blast

end
