(* ===== verification/Snapshot.thy ===== *)
theory Snapshot
  imports Perm_Set
begin

text \<open>
  The compiled snapshot of one (user, organization) pair: the plain data of
  \<^verbatim>\<open>internal/authz/engine/store.go\<close> and the evaluator of \<^verbatim>\<open>internal/authz/engine/snapshot.go\<close>
  (\<^verbatim>\<open>compile\<close>, \<^verbatim>\<open>projectRaw\<close>, \<^verbatim>\<open>scopeSet\<close>, \<^verbatim>\<open>visible\<close>, \<^verbatim>\<open>access\<close>, \<^verbatim>\<open>has\<close>).
  The specification \<open>spec_effective\<close> states the resolution rule of the package comment as a set of
  permissions computed directly from the assignments; the main lemma says that a compiled snapshot
  answers every scope with exactly that set.
\<close>

section \<open>What the store supplies (store.go)\<close>

datatype SubjectKind = SubjectUser | SubjectGroup

datatype ScopeType = StOrg | StProject | StRepo | StEnv

record OrgTemplate =
  tpl_ID :: uuid
  tpl_Slug :: string
  tpl_Version :: int
  tpl_Permissions :: pset
  tpl_FloorID :: uuid
  tpl_BaseID :: uuid
  tpl_Floor :: pset
  tpl_Base :: pset
  tpl_HasCeiling :: bool
  tpl_Ceiling :: pset
  tpl_CeilingProject :: pset

record Assignment =
  a_ID :: uuid
  a_SubjectKind :: SubjectKind
  a_SubjectID :: uuid
  a_Scope :: ScopeType
  a_ScopeID :: uuid
  a_ProjectID :: uuid
  a_TemplateID :: uuid
  a_TemplateSlug :: string
  a_TemplateVersion :: int
  a_Permissions :: pset
  a_Source :: string
  a_ExpiresAt :: time

record Epochs =
  ep_Org :: int
  ep_User :: int

record AccessData =
  d_Member :: bool
  d_UserActive :: bool
  d_MemberActive :: bool
  d_Template :: "OrgTemplate option"
  d_Policy :: string
  d_ProjectOverrides :: "(uuid, string) gomap"
  d_Assignments :: "Assignment list"
  d_Epochs :: Epochs

definition zero_OrgTemplate :: OrgTemplate where
  "zero_OrgTemplate = \<lparr> tpl_ID = 0, tpl_Slug = [], tpl_Version = 0, tpl_Permissions = empty_set, tpl_FloorID = 0,
     tpl_BaseID = 0, tpl_Floor = empty_set, tpl_Base = empty_set, tpl_HasCeiling = False,
     tpl_Ceiling = empty_set, tpl_CeilingProject = empty_set \<rparr>"

definition zero_AccessData :: AccessData where
  "zero_AccessData = \<lparr> d_Member = False, d_UserActive = False, d_MemberActive = False, d_Template = None,
     d_Policy = [], d_ProjectOverrides = [], d_Assignments = [], d_Epochs = \<lparr> ep_Org = 0, ep_User = 0 \<rparr> \<rparr>"

section \<open>Scopes, outcomes and the snapshot\<close>

record EScope =
  sc_Type :: ScopeType
  sc_ID :: uuid
  sc_ProjectID :: uuid

definition OrgScope :: EScope where
  "OrgScope = \<lparr> sc_Type = StOrg, sc_ID = 0, sc_ProjectID = 0 \<rparr>"

definition ProjectScope :: "uuid \<Rightarrow> EScope" where
  "ProjectScope p = \<lparr> sc_Type = StProject, sc_ID = p, sc_ProjectID = p \<rparr>"

definition RepoScope :: "uuid \<Rightarrow> uuid \<Rightarrow> EScope" where
  "RepoScope p r = \<lparr> sc_Type = StRepo, sc_ID = r, sc_ProjectID = p \<rparr>"

definition EnvScope :: "uuid \<Rightarrow> uuid \<Rightarrow> EScope" where
  "EnvScope p e = \<lparr> sc_Type = StEnv, sc_ID = e, sc_ProjectID = p \<rparr>"

text \<open>\<open>SourceNone\<close> and \<open>ReasonNone\<close> are the empty strings of the code.\<close>

datatype Source = SourceNone | SourceOrg | SourceExplicit | SourceInherited

datatype Reason = ReasonNone | ReasonNotMember | ReasonSuspended | ReasonTemplateUnresolved | ReasonHidden

record Access =
  acc_Member :: bool
  acc_Hidden :: bool
  acc_Source :: Source
  acc_Reason :: Reason

datatype override = ovNone | ovOpen | ovRestricted

record projEntry =
  pe_set :: pset
  pe_own :: bool
  pe_override :: override

record scopedEntry =
  se_set :: pset
  se_project :: uuid

abbreviation zero_projEntry :: projEntry where
  "zero_projEntry \<equiv> \<lparr> pe_set = empty_set, pe_own = False, pe_override = ovNone \<rparr>"

abbreviation zero_scopedEntry :: scopedEntry where
  "zero_scopedEntry \<equiv> \<lparr> se_set = empty_set, se_project = 0 \<rparr>"

definition mustBit :: "string \<Rightarrow> nat option" where
  "mustBit i = Bit_of i"

definition bitView :: nat where
  "bitView = the (mustBit ''project:view'')"

definition sensitives :: "nat \<Rightarrow> bool" where
  "sensitives b = (if b < length perms then Sensitive (perms ! b) else False)"

record snapshot =
  s_user :: uuid
  s_org :: uuid
  s_epochs :: Epochs
  s_compiled :: time
  s_validUntil :: time
  s_member :: bool
  s_closed :: bool
  s_reason :: Reason
  s_tpl :: OrgTemplate
  s_perms :: pset
  s_floor :: pset
  s_base :: pset
  s_hasCeil :: bool
  s_ceilOrg :: pset
  s_ceilProj :: pset
  s_policyOpen :: bool
  s_orgWide :: pset
  s_projects :: "(uuid, projEntry) gomap"
  s_repos :: "(uuid, scopedEntry) gomap"
  s_envs :: "(uuid, scopedEntry) gomap"
  s_data :: AccessData
  s_bytes :: int

section \<open>compile\<close>

definition expired :: "Assignment \<Rightarrow> time \<Rightarrow> bool" where
  "expired a now \<longleftrightarrow> \<not> IsZero (a_ExpiresAt a) \<and> \<not> a_ExpiresAt a > now"

definition new_snapshot :: "uuid \<Rightarrow> uuid \<Rightarrow> AccessData \<Rightarrow> time \<Rightarrow> duration \<Rightarrow> snapshot" where
  "new_snapshot user org d now ttl =
     \<lparr> s_user = user, s_org = org, s_epochs = d_Epochs d, s_compiled = now, s_validUntil = now + ttl,
       s_member = d_Member d, s_closed = False, s_reason = ReasonNone, s_tpl = zero_OrgTemplate,
       s_perms = empty_set, s_floor = empty_set, s_base = empty_set, s_hasCeil = False,
       s_ceilOrg = empty_set, s_ceilProj = empty_set, s_policyOpen = False, s_orgWide = empty_set,
       s_projects = [], s_repos = [], s_envs = [], s_data = d, s_bytes = 256 \<rparr>"

definition with_template :: "OrgTemplate \<Rightarrow> AccessData \<Rightarrow> snapshot \<Rightarrow> snapshot" where
  "with_template t d s = s\<lparr> s_tpl := t,
     s_perms := tpl_Permissions t, s_floor := tpl_Floor t, s_base := tpl_Base t,
     s_hasCeil := tpl_HasCeiling t, s_ceilOrg := tpl_Ceiling t, s_ceilProj := tpl_CeilingProject t,
     s_policyOpen := (d_Policy d \<noteq> ''restricted'') \<rparr>"

text \<open>The loop over \<^verbatim>\<open>ProjectOverrides\<close>: values other than open and restricted are ignored.\<close>

definition set_override :: "(uuid, projEntry) gomap \<Rightarrow> uuid \<times> string \<Rightarrow> (uuid, projEntry) gomap" where
  "set_override m pm =
     (let pid = fst pm; e = gomap_at zero_projEntry m pid in
      if snd pm = ''open'' then gomap_set pid (e\<lparr> pe_override := ovOpen \<rparr>) m
      else if snd pm = ''restricted'' then gomap_set pid (e\<lparr> pe_override := ovRestricted \<rparr>) m
      else m)"

text \<open>The body of the loop over \<^verbatim>\<open>Assignments\<close>.\<close>

definition add_scoped :: "(uuid, scopedEntry) gomap \<Rightarrow> Assignment \<Rightarrow> (uuid, scopedEntry) gomap" where
  "add_scoped m a =
     (let e = gomap_at zero_scopedEntry m (a_ScopeID a) in
      gomap_set (a_ScopeID a) \<lparr> se_set = Union (se_set e) (a_Permissions a), se_project = a_ProjectID a \<rparr> m)"

definition add_project :: "(uuid, projEntry) gomap \<Rightarrow> Assignment \<Rightarrow> (uuid, projEntry) gomap" where
  "add_project m a =
     (let e = gomap_at zero_projEntry m (a_ScopeID a) in
      gomap_set (a_ScopeID a) (e\<lparr> pe_set := Union (pe_set e) (a_Permissions a), pe_own := True \<rparr>) m)"

definition assign_step :: "time \<Rightarrow> snapshot \<Rightarrow> Assignment \<Rightarrow> snapshot" where
  "assign_step now s a =
     (if expired a now then s
      else
        let s1 = (if \<not> IsZero (a_ExpiresAt a) \<and> a_ExpiresAt a < s_validUntil s
                  then s\<lparr> s_validUntil := a_ExpiresAt a \<rparr> else s)
        in (case a_Scope a of
              StOrg \<Rightarrow> s1\<lparr> s_orgWide := Union (s_orgWide s1) (a_Permissions a) \<rparr>
            | StProject \<Rightarrow> s1\<lparr> s_projects := add_project (s_projects s1) a \<rparr>
            | StRepo \<Rightarrow> s1\<lparr> s_repos := add_scoped (s_repos s1) a \<rparr>
            | StEnv \<Rightarrow> s1\<lparr> s_envs := add_scoped (s_envs s1) a \<rparr>))"

definition count_bytes :: "AccessData \<Rightarrow> snapshot \<Rightarrow> snapshot" where
  "count_bytes d s = s\<lparr> s_bytes := s_bytes s + int (length (s_projects s)) * 72
     + int (length (s_repos s) + length (s_envs s)) * 88
     + int (length (d_Assignments d)) * 160 + int (length (d_ProjectOverrides d)) * 48 \<rparr>"

definition compile :: "uuid \<Rightarrow> uuid \<Rightarrow> AccessData \<Rightarrow> time \<Rightarrow> duration \<Rightarrow> snapshot" where
  "compile user org d now ttl =
     (let s = new_snapshot user org d now ttl in
      if \<not> d_Member d then s\<lparr> s_closed := True, s_reason := ReasonNotMember \<rparr>
      else if \<not> d_UserActive d \<or> \<not> d_MemberActive d then s\<lparr> s_closed := True, s_reason := ReasonSuspended \<rparr>
      else case d_Template d of
             None \<Rightarrow> s\<lparr> s_closed := True, s_reason := ReasonTemplateUnresolved \<rparr>
           | Some t \<Rightarrow>
               let s1 = with_template t d s;
                   s2 = s1\<lparr> s_projects := foldl set_override [] (d_ProjectOverrides d) \<rparr>;
                   s3 = foldl (assign_step now) s2 (d_Assignments d)
               in count_bytes d s3)"

section \<open>Reading a snapshot\<close>

definition is_open :: "snapshot \<Rightarrow> projEntry \<Rightarrow> bool" where
  "is_open s e = (case pe_override e of ovOpen \<Rightarrow> True | ovRestricted \<Rightarrow> False | ovNone \<Rightarrow> s_policyOpen s)"

definition projectRaw :: "snapshot \<Rightarrow> uuid \<Rightarrow> pset \<times> bool" where
  "projectRaw s pid =
     (let e = gomap_at zero_projEntry (s_projects s) pid;
          raw = (if pe_own e then pe_set e
                 else if is_open s e then Union (s_orgWide s) (s_base s) else s_orgWide s)
      in (Union raw (s_floor s), pe_own e))"

definition add_entry :: "(uuid, scopedEntry) gomap \<Rightarrow> EScope \<Rightarrow> pset \<times> bool \<Rightarrow> pset \<times> bool" where
  "add_entry m sc so =
     (case gomap_get m (sc_ID sc) of
        Some e \<Rightarrow> if se_project e = sc_ProjectID sc then (Union (fst so) (se_set e), True) else so
      | None \<Rightarrow> so)"

definition scopeSet :: "snapshot \<Rightarrow> EScope \<Rightarrow> pset \<times> bool \<times> bool" where
  "scopeSet s sc =
     (if s_closed s then (empty_set, False, s_member s \<and> sc_Type sc \<noteq> StOrg)
      else if sc_Type sc = StOrg then
        ((if s_hasCeil s then Intersect (s_perms s) (s_ceilOrg s) else s_perms s), False, False)
      else
        let so0 = projectRaw s (sc_ProjectID sc);
            so1 = (case sc_Type sc of
                     StRepo \<Rightarrow> add_entry (s_repos s) sc so0
                   | StEnv \<Rightarrow> add_entry (s_envs s) sc so0
                   | _ \<Rightarrow> so0);
            st = (if s_hasCeil s then Intersect (fst so1) (s_ceilProj s) else fst so1)
        in if \<not> HasBit st bitView then (empty_set, False, True) else (st, snd so1, False))"

definition visible :: "snapshot \<Rightarrow> uuid \<Rightarrow> bool" where
  "visible s pid =
     (if s_closed s then False
      else let raw = fst (projectRaw s pid);
               raw' = (if s_hasCeil s then Intersect raw (s_ceilProj s) else raw)
           in HasBit raw' bitView)"

definition access :: "snapshot \<Rightarrow> EScope \<Rightarrow> pset \<Rightarrow> bool \<Rightarrow> bool \<Rightarrow> Access" where
  "access s sc st own hidden =
     (let a = \<lparr> acc_Member = s_member s, acc_Hidden = hidden, acc_Source = SourceNone, acc_Reason = ReasonNone \<rparr> in
      if s_closed s then a\<lparr> acc_Reason := s_reason s \<rparr>
      else if hidden then a\<lparr> acc_Reason := ReasonHidden \<rparr>
      else if sc_Type sc = StOrg then a
      else if \<not> IsEmpty (s_floor s) \<and> ContainsAll (s_floor s) st then a\<lparr> acc_Source := SourceOrg \<rparr>
      else if own then a\<lparr> acc_Source := SourceExplicit \<rparr>
      else a\<lparr> acc_Source := SourceInherited \<rparr>)"

definition snapshot_has :: "snapshot \<Rightarrow> EScope \<Rightarrow> nat \<Rightarrow> bool" where
  "snapshot_has s sc b = HasBit (fst (scopeSet s sc)) b"

lemma bitView_eq [simp]: "bitView = 26"
  by (simp add: bitView_def mustBit_def Bit_of_def project_view_bit)

section \<open>The fields of a compiled snapshot\<close>

definition live :: "AccessData \<Rightarrow> time \<Rightarrow> Assignment list" where
  "live d now = filter (\<lambda>a. \<not> expired a now) (d_Assignments d)"

definition live_at :: "AccessData \<Rightarrow> time \<Rightarrow> ScopeType \<Rightarrow> Assignment list" where
  "live_at d now t = filter (\<lambda>a. a_Scope a = t) (live d now)"

lemma assign_fold_frame:
  "s_user (foldl (assign_step now) s as) = s_user s \<and> s_org (foldl (assign_step now) s as) = s_org s \<and>
   s_epochs (foldl (assign_step now) s as) = s_epochs s \<and>
   s_compiled (foldl (assign_step now) s as) = s_compiled s \<and>
   s_member (foldl (assign_step now) s as) = s_member s \<and>
   s_closed (foldl (assign_step now) s as) = s_closed s \<and>
   s_reason (foldl (assign_step now) s as) = s_reason s \<and>
   s_tpl (foldl (assign_step now) s as) = s_tpl s \<and>
   s_perms (foldl (assign_step now) s as) = s_perms s \<and>
   s_floor (foldl (assign_step now) s as) = s_floor s \<and>
   s_base (foldl (assign_step now) s as) = s_base s \<and>
   s_hasCeil (foldl (assign_step now) s as) = s_hasCeil s \<and>
   s_ceilOrg (foldl (assign_step now) s as) = s_ceilOrg s \<and>
   s_ceilProj (foldl (assign_step now) s as) = s_ceilProj s \<and>
   s_policyOpen (foldl (assign_step now) s as) = s_policyOpen s \<and>
   s_data (foldl (assign_step now) s as) = s_data s"
  by (rule foldl_invariant) (auto simp: assign_step_def Let_def split: ScopeType.splits)

lemma assign_fold_maps:
  "s_orgWide (foldl (assign_step now) s as) =
     foldl (\<lambda>w a. Union w (a_Permissions a)) (s_orgWide s) (filter (\<lambda>a. \<not> expired a now \<and> a_Scope a = StOrg) as)"
  "s_projects (foldl (assign_step now) s as) =
     foldl add_project (s_projects s) (filter (\<lambda>a. \<not> expired a now \<and> a_Scope a = StProject) as)"
  "s_repos (foldl (assign_step now) s as) =
     foldl add_scoped (s_repos s) (filter (\<lambda>a. \<not> expired a now \<and> a_Scope a = StRepo) as)"
  "s_envs (foldl (assign_step now) s as) =
     foldl add_scoped (s_envs s) (filter (\<lambda>a. \<not> expired a now \<and> a_Scope a = StEnv) as)"
  by (induction as arbitrary: s) (auto simp: assign_step_def Let_def split: ScopeType.splits)

lemma assign_fold_validUntil:
  "s_validUntil (foldl (assign_step now) s as) =
     foldl min (s_validUntil s)
       (map a_ExpiresAt (filter (\<lambda>a. \<not> expired a now \<and> \<not> IsZero (a_ExpiresAt a)) as))"
  by (induction as arbitrary: s) (auto simp: assign_step_def Let_def min_def split: ScopeType.splits)

lemma foldl_min_le: "foldl min v xs \<le> (v::int) \<and> (\<forall>x \<in> set xs. foldl min v xs \<le> x)"
proof (induction xs arbitrary: v)
  case (Cons x xs)
  have "foldl min (min v x) xs \<le> min v x \<and> (\<forall>y \<in> set xs. foldl min (min v x) xs \<le> y)"
    by (rule Cons.IH)
  then show ?case by auto
qed simp

definition resolves :: "AccessData \<Rightarrow> OrgTemplate \<Rightarrow> bool" where
  "resolves d t \<longleftrightarrow> d_Member d \<and> d_UserActive d \<and> d_MemberActive d \<and> d_Template d = Some t"

lemma compile_closed_iff: "s_closed (compile u g d now ttl) \<longleftrightarrow> (\<nexists>t. resolves d t)"
  by (auto simp: compile_def resolves_def new_snapshot_def with_template_def count_bytes_def Let_def
        assign_fold_frame split: option.splits)

lemma compile_resolves:
  assumes "resolves d t"
  shows "s_closed (compile u g d now ttl) = False" "s_member (compile u g d now ttl)"
    "s_perms (compile u g d now ttl) = tpl_Permissions t"
    "s_floor (compile u g d now ttl) = tpl_Floor t"
    "s_base (compile u g d now ttl) = tpl_Base t"
    "s_hasCeil (compile u g d now ttl) = tpl_HasCeiling t"
    "s_ceilOrg (compile u g d now ttl) = tpl_Ceiling t"
    "s_ceilProj (compile u g d now ttl) = tpl_CeilingProject t"
    "s_policyOpen (compile u g d now ttl) = (d_Policy d \<noteq> ''restricted'')"
    "s_tpl (compile u g d now ttl) = t"
  using assms
  by (auto simp: compile_def resolves_def new_snapshot_def with_template_def count_bytes_def Let_def assign_fold_frame)

lemma compile_maps:
  assumes "resolves d t"
  shows "s_orgWide (compile u g d now ttl) =
      foldl (\<lambda>w a. Union w (a_Permissions a)) empty_set (live_at d now StOrg)"
    and "s_projects (compile u g d now ttl) =
      foldl add_project (foldl set_override [] (d_ProjectOverrides d)) (live_at d now StProject)"
    and "s_repos (compile u g d now ttl) = foldl add_scoped [] (live_at d now StRepo)"
    and "s_envs (compile u g d now ttl) = foldl add_scoped [] (live_at d now StEnv)"
    and "s_validUntil (compile u g d now ttl) =
      foldl min (now + ttl) (map a_ExpiresAt (filter (\<lambda>a. \<not> IsZero (a_ExpiresAt a)) (live d now)))"
  using assms
  by (simp_all add: compile_def resolves_def new_snapshot_def with_template_def count_bytes_def Let_def
      assign_fold_maps assign_fold_validUntil live_at_def live_def conj_commute cong: conj_cong)

lemma compile_common [simp]:
  "s_compiled (compile u g d now ttl) = now" "s_data (compile u g d now ttl) = d"
  "s_epochs (compile u g d now ttl) = d_Epochs d" "s_member (compile u g d now ttl) = d_Member d"
  "s_user (compile u g d now ttl) = u" "s_org (compile u g d now ttl) = g"
  by (auto simp: compile_def new_snapshot_def with_template_def count_bytes_def Let_def assign_fold_frame
      split: option.splits)

lemma compile_reason:
  "s_closed (compile u g d now ttl) \<Longrightarrow> s_reason (compile u g d now ttl) =
     (if \<not> d_Member d then ReasonNotMember
      else if \<not> d_UserActive d \<or> \<not> d_MemberActive d then ReasonSuspended else ReasonTemplateUnresolved)"
  by (auto simp: compile_def new_snapshot_def with_template_def count_bytes_def Let_def assign_fold_frame
      split: option.splits)

section \<open>The resolution rule as a specification\<close>

text \<open>
  The specification reads the assignments directly: the own assignments of a project replace the
  organization-wide ones and the base of the template, the floor always adds, assignments at a
  repository or environment of the project add to it, the ceiling bounds the result, and without
  \<^verbatim>\<open>project:view\<close> nothing is left.
\<close>

definition grants :: "Assignment list \<Rightarrow> nat \<Rightarrow> bool" where
  "grants as b \<longleftrightarrow> (\<exists>a \<in> set as. HasBit (a_Permissions a) b)"

definition own_of :: "AccessData \<Rightarrow> time \<Rightarrow> uuid \<Rightarrow> Assignment list" where
  "own_of d now p = filter (\<lambda>a. a_ScopeID a = p) (live_at d now StProject)"

definition nested_of :: "AccessData \<Rightarrow> time \<Rightarrow> EScope \<Rightarrow> Assignment list" where
  "nested_of d now sc = (if sc_Type sc \<in> {StRepo, StEnv}
     then filter (\<lambda>a. a_ScopeID a = sc_ID sc \<and> a_ProjectID a = sc_ProjectID sc) (live_at d now (sc_Type sc)) else [])"

definition opens :: "AccessData \<Rightarrow> uuid \<Rightarrow> bool" where
  "opens d p \<longleftrightarrow> (case gomap_get (d_ProjectOverrides d) p of
       None \<Rightarrow> d_Policy d \<noteq> ''restricted''
     | Some m \<Rightarrow> m = ''open'' \<or> (m \<noteq> ''restricted'' \<and> d_Policy d \<noteq> ''restricted''))"

definition spec_project :: "AccessData \<Rightarrow> OrgTemplate \<Rightarrow> time \<Rightarrow> uuid \<Rightarrow> nat \<Rightarrow> bool" where
  "spec_project d t now p b \<longleftrightarrow> HasBit (tpl_Floor t) b \<or>
     (if own_of d now p \<noteq> [] then grants (own_of d now p) b
      else grants (live_at d now StOrg) b \<or> (opens d p \<and> HasBit (tpl_Base t) b))"

definition spec_bounded :: "AccessData \<Rightarrow> OrgTemplate \<Rightarrow> time \<Rightarrow> EScope \<Rightarrow> nat \<Rightarrow> bool" where
  "spec_bounded d t now sc b \<longleftrightarrow>
     (spec_project d t now (sc_ProjectID sc) b \<or> grants (nested_of d now sc) b) \<and>
     (tpl_HasCeiling t \<longrightarrow> HasBit (tpl_CeilingProject t) b)"

definition spec_effective :: "AccessData \<Rightarrow> time \<Rightarrow> EScope \<Rightarrow> nat set" where
  "spec_effective d now sc = {b. \<exists>t. resolves d t \<and>
     (if sc_Type sc = StOrg then HasBit (tpl_Permissions t) b \<and> (tpl_HasCeiling t \<longrightarrow> HasBit (tpl_Ceiling t) b)
      else spec_bounded d t now sc b \<and> spec_bounded d t now sc bitView)}"

text \<open>What the store guarantees: a repository or environment belongs to one project, and the
  overrides are a map.\<close>

definition data_wf :: "AccessData \<Rightarrow> bool" where
  "data_wf d \<longleftrightarrow> gomap_wf (d_ProjectOverrides d) \<and>
     (\<forall>a \<in> set (d_Assignments d). \<forall>a' \<in> set (d_Assignments d).
        a_Scope a = a_Scope a' \<and> a_Scope a \<in> {StRepo, StEnv} \<and> a_ScopeID a = a_ScopeID a' \<longrightarrow>
        a_ProjectID a = a_ProjectID a')"

lemma at_foldl_add_project:
  "gomap_at zero_projEntry (foldl add_project m as) p =
     (let e = gomap_at zero_projEntry m p; mine = filter (\<lambda>a. a_ScopeID a = p) as in
      e\<lparr> pe_set := foldl (\<lambda>w a. Union w (a_Permissions a)) (pe_set e) mine, pe_own := pe_own e \<or> mine \<noteq> [] \<rparr>)"
  by (induction as arbitrary: m) (auto simp: add_project_def Let_def)

lemma at_foldl_set_override:
  "gomap_wf ov \<Longrightarrow> p \<notin> fst ` set ov \<Longrightarrow>
     gomap_at zero_projEntry (foldl set_override m ov) p = gomap_at zero_projEntry m p"
  by (induction ov arbitrary: m) (auto simp: set_override_def Let_def)

lemma override_entry:
  assumes "gomap_wf ov" and "gomap_at zero_projEntry m p = zero_projEntry"
  shows "gomap_at zero_projEntry (foldl set_override m ov) p = zero_projEntry\<lparr> pe_override :=
     (case gomap_get ov p of None \<Rightarrow> ovNone
      | Some v \<Rightarrow> if v = ''open'' then ovOpen else if v = ''restricted'' then ovRestricted else ovNone) \<rparr>"
  using assms
proof (induction ov arbitrary: m)
  case (Cons kv ov)
  obtain k v where kv: "kv = (k, v)" by force
  show ?case
  proof (cases "k = p")
    case True
    then show ?thesis using Cons.prems kv by (simp add: at_foldl_set_override) (simp add: set_override_def Let_def)
  next
    case False
    then have "gomap_at zero_projEntry (set_override m kv) p = zero_projEntry"
      using Cons.prems kv by (simp add: set_override_def Let_def)
    then show ?thesis using Cons kv False by simp
  qed
qed simp

lemma add_scoped_get:
  "gomap_get (add_scoped m a) i = (if i = a_ScopeID a
     then Some \<lparr> se_set = Union (se_set (gomap_at zero_scopedEntry m i)) (a_Permissions a), se_project = a_ProjectID a \<rparr>
     else gomap_get m i)"
  "gomap_at zero_scopedEntry (add_scoped m a) i = (if i = a_ScopeID a
     then \<lparr> se_set = Union (se_set (gomap_at zero_scopedEntry m i)) (a_Permissions a), se_project = a_ProjectID a \<rparr>
     else gomap_at zero_scopedEntry m i)"
  by (simp_all add: add_scoped_def Let_def)

lemma get_foldl_add_scoped:
  assumes "\<forall>a \<in> set as. a_ScopeID a = i \<longrightarrow> a_ProjectID a = q"
    and "gomap_get m i = None \<or> se_project (the (gomap_get m i)) = q"
  shows "gomap_get (foldl add_scoped m as) i =
     (let mine = filter (\<lambda>a. a_ScopeID a = i) as in
      if mine = [] then gomap_get m i
      else Some \<lparr> se_set = foldl (\<lambda>w a. Union w (a_Permissions a)) (se_set (gomap_at zero_scopedEntry m i)) mine,
                  se_project = q \<rparr>)"
  using assms
proof (induction as arbitrary: m)
  case (Cons a as)
  have "gomap_get (foldl add_scoped (add_scoped m a) as) i =
     (let mine = filter (\<lambda>a. a_ScopeID a = i) as in
      if mine = [] then gomap_get (add_scoped m a) i
      else Some \<lparr> se_set = foldl (\<lambda>w a. Union w (a_Permissions a)) (se_set (gomap_at zero_scopedEntry (add_scoped m a) i)) mine,
                  se_project = q \<rparr>)"
    by (rule Cons.IH) (use Cons.prems in \<open>auto simp: add_scoped_get\<close>)
  then show ?case using Cons.prems(1) by (auto simp: add_scoped_get Let_def)
qed (auto simp: Let_def)

lemma HasBit_projectRaw:
  assumes "resolves d t" "gomap_wf (d_ProjectOverrides d)"
  shows "HasBit (fst (projectRaw (compile u g d now ttl) p)) b = spec_project d t now p b"
    and "snd (projectRaw (compile u g d now ttl) p) \<longleftrightarrow> own_of d now p \<noteq> []"
  using assms
  by (auto simp: projectRaw_def compile_maps compile_resolves at_foldl_add_project override_entry Let_def
      spec_project_def grants_def own_of_def opens_def is_open_def ps.has_foldl_union pset_simps
      split: option.splits)

lemma mem_live_at: "a \<in> set (live_at d now k) \<longleftrightarrow> a \<in> set (d_Assignments d) \<and> \<not> expired a now \<and> a_Scope a = k"
  by (auto simp: live_at_def live_def)

text \<open>A repository or environment entry adds exactly the live assignments made there.\<close>

lemma add_entry_nested:
  assumes wf: "data_wf d" and ty: "sc_Type sc \<in> {StRepo, StEnv}"
  shows "HasBit (fst (add_entry (foldl add_scoped [] (live_at d now (sc_Type sc))) sc so)) b \<longleftrightarrow>
           HasBit (fst so) b \<or> grants (nested_of d now sc) b"
    and "snd (add_entry (foldl add_scoped [] (live_at d now (sc_Type sc))) sc so) \<longleftrightarrow>
           snd so \<or> nested_of d now sc \<noteq> []"
proof -
  let ?as = "live_at d now (sc_Type sc)" and ?i = "sc_ID sc"
  let ?mine = "filter (\<lambda>a. a_ScopeID a = ?i) ?as"
  obtain q where q: "\<forall>a \<in> set ?as. a_ScopeID a = ?i \<longrightarrow> a_ProjectID a = q"
  proof (cases ?mine)
    case Nil
    then show ?thesis using that by (auto simp: filter_empty_conv)
  next
    case (Cons a0 as0)
    then have a0: "a0 \<in> set ?mine" by simp
    have "\<forall>a \<in> set ?as. a_ScopeID a = ?i \<longrightarrow> a_ProjectID a = a_ProjectID a0"
      using a0 wf ty unfolding data_wf_def mem_live_at set_filter by (metis (mono_tags, lifting) mem_Collect_eq mem_live_at)
    then show ?thesis by (rule that)
  qed
  have get: "gomap_get (foldl add_scoped [] ?as) ?i = (if ?mine = [] then None
      else Some \<lparr> se_set = foldl (\<lambda>w a. Union w (a_Permissions a)) empty_set ?mine, se_project = q \<rparr>)"
    using get_foldl_add_scoped [OF q, of "[]"] by (simp add: Let_def)
  have nest: "nested_of d now sc = (if q = sc_ProjectID sc then ?mine else [])"
    using ty q by (auto simp: nested_of_def intro!: filter_cong filter_False)
  show "HasBit (fst (add_entry (foldl add_scoped [] ?as) sc so)) b \<longleftrightarrow>
        HasBit (fst so) b \<or> grants (nested_of d now sc) b"
    "snd (add_entry (foldl add_scoped [] ?as) sc so) \<longleftrightarrow> snd so \<or> nested_of d now sc \<noteq> []"
    unfolding nest by (auto simp: add_entry_def get grants_def ps.has_foldl_union pset_simps filter_empty_conv)
qed

lemma nested_of_other: "sc_Type sc \<notin> {StRepo, StEnv} \<Longrightarrow> nested_of d now sc = []"
  by (simp add: nested_of_def)

definition scoped_raw :: "snapshot \<Rightarrow> EScope \<Rightarrow> pset \<times> bool" where
  "scoped_raw s sc = (let so0 = projectRaw s (sc_ProjectID sc) in
     case sc_Type sc of StRepo \<Rightarrow> add_entry (s_repos s) sc so0
                      | StEnv \<Rightarrow> add_entry (s_envs s) sc so0 | _ \<Rightarrow> so0)"

definition ceil_proj :: "snapshot \<Rightarrow> pset \<Rightarrow> pset" where
  "ceil_proj s st = (if s_hasCeil s then Intersect st (s_ceilProj s) else st)"

lemma scopeSet_nested:
  "\<not> s_closed s \<Longrightarrow> sc_Type sc \<noteq> StOrg \<Longrightarrow> scopeSet s sc =
     (if HasBit (ceil_proj s (fst (scoped_raw s sc))) bitView
      then (ceil_proj s (fst (scoped_raw s sc)), snd (scoped_raw s sc), False) else (empty_set, False, True))"
  by (simp add: scopeSet_def scoped_raw_def ceil_proj_def Let_def)

lemma scoped_raw_compile:
  assumes r: "resolves d t" and wf: "data_wf d" and ty: "sc_Type sc \<noteq> StOrg"
  shows "HasBit (fst (scoped_raw (compile u g d now ttl) sc)) b \<longleftrightarrow>
           spec_project d t now (sc_ProjectID sc) b \<or> grants (nested_of d now sc) b"
    and "snd (scoped_raw (compile u g d now ttl) sc) \<longleftrightarrow>
           own_of d now (sc_ProjectID sc) \<noteq> [] \<or> nested_of d now sc \<noteq> []"
proof -
  have ov: "gomap_wf (d_ProjectOverrides d)" using wf by (simp add: data_wf_def)
  note raw = HasBit_projectRaw [OF r ov]
  note maps = compile_maps(3,4) [OF r]
  show "HasBit (fst (scoped_raw (compile u g d now ttl) sc)) b \<longleftrightarrow>
           spec_project d t now (sc_ProjectID sc) b \<or> grants (nested_of d now sc) b"
    using ty add_entry_nested(1) [OF wf, of sc now] by (cases "sc_Type sc")
      (simp_all add: scoped_raw_def Let_def raw maps nested_of_other grants_def)
  show "snd (scoped_raw (compile u g d now ttl) sc) \<longleftrightarrow>
           own_of d now (sc_ProjectID sc) \<noteq> [] \<or> nested_of d now sc \<noteq> []"
    using ty add_entry_nested(2) [OF wf, of sc now] by (cases "sc_Type sc")
      (simp_all add: scoped_raw_def Let_def raw maps nested_of_other)
qed

lemma HasBit_ceil_compile:
  assumes r: "resolves d t" and wf: "data_wf d" and ty: "sc_Type sc \<noteq> StOrg"
  shows "HasBit (ceil_proj (compile u g d now ttl) (fst (scoped_raw (compile u g d now ttl) sc))) b
           \<longleftrightarrow> spec_bounded d t now sc b"
  by (auto simp: ceil_proj_def compile_resolves [OF r] pset_simps scoped_raw_compile [OF r wf ty] spec_bounded_def)

lemma scopeSet_closed: "s_closed s \<Longrightarrow> scopeSet s sc = (empty_set, False, s_member s \<and> sc_Type sc \<noteq> StOrg)"
  by (simp add: scopeSet_def)

lemma spec_effective_closed: "(\<nexists>t. resolves d t) \<Longrightarrow> spec_effective d now sc = {}"
  by (simp add: spec_effective_def)

lemma spec_effective_resolves:
  "resolves d t \<Longrightarrow> spec_effective d now sc = {b.
     (if sc_Type sc = StOrg then HasBit (tpl_Permissions t) b \<and> (tpl_HasCeiling t \<longrightarrow> HasBit (tpl_Ceiling t) b)
      else spec_bounded d t now sc b \<and> spec_bounded d t now sc bitView)}"
  by (auto simp: spec_effective_def resolves_def)

lemma spec_effective_empty_iff:
  "resolves d t \<Longrightarrow> sc_Type sc \<noteq> StOrg \<Longrightarrow> spec_effective d now sc = {} \<longleftrightarrow> \<not> spec_bounded d t now sc bitView"
  by (auto simp: spec_effective_resolves)

lemma compile_effective:
  assumes wf: "data_wf d"
  shows "snapshot_has (compile u g d now ttl) sc b \<longleftrightarrow> b \<in> spec_effective d now sc"
proof (cases "\<exists>t. resolves d t")
  case True
  then obtain t where r: "resolves d t" by blast
  show ?thesis
  proof (cases "sc_Type sc = StOrg")
    case True
    then show ?thesis
      by (simp add: snapshot_has_def scopeSet_def compile_resolves [OF r] spec_effective_resolves [OF r] pset_simps)
  next
    case False
    then show ?thesis
      by (simp add: snapshot_has_def scopeSet_nested compile_resolves [OF r] spec_effective_resolves [OF r]
          HasBit_ceil_compile [OF r wf False] pset_simps)
  qed
next
  case False
  then have "s_closed (compile u g d now ttl)" by (simp add: compile_closed_iff)
  then show ?thesis using False by (simp add: snapshot_has_def scopeSet_closed spec_effective_closed pset_simps)
qed

lemma compile_hidden:
  assumes wf: "data_wf d"
  shows "snd (snd (scopeSet (compile u g d now ttl) sc)) \<longleftrightarrow>
           d_Member d \<and> sc_Type sc \<noteq> StOrg \<and> spec_effective d now sc = {}"
proof (cases "\<exists>t. resolves d t")
  case True
  then obtain t where r: "resolves d t" by blast
  then have m: "d_Member d" by (simp add: resolves_def)
  show ?thesis
  proof (cases "sc_Type sc = StOrg")
    case True
    then show ?thesis by (simp add: scopeSet_def compile_resolves [OF r])
  next
    case False
    then show ?thesis
      by (simp add: scopeSet_nested compile_resolves [OF r] HasBit_ceil_compile [OF r wf False] m
          spec_effective_empty_iff [OF r])
  qed
next
  case False
  then have "s_closed (compile u g d now ttl)" by (simp add: compile_closed_iff)
  then show ?thesis using False by (simp add: scopeSet_closed spec_effective_closed)
qed

section \<open>Stability in time and monotonicity\<close>

lemma live_stable:
  assumes r: "resolves d t" and "now \<le> now'" and until: "now' < s_validUntil (compile u g d now ttl)"
  shows "live d now' = live d now"
proof -
  have "expired a now' = expired a now" if a: "a \<in> set (d_Assignments d)" for a
  proof (cases "IsZero (a_ExpiresAt a) \<or> expired a now")
    case True
    then show ?thesis using assms(2) by (auto simp: expired_def)
  next
    case False
    then have "a_ExpiresAt a \<in> set (map a_ExpiresAt (filter (\<lambda>a. \<not> IsZero (a_ExpiresAt a)) (live d now)))"
      using a by (auto simp: live_def)
    then have "s_validUntil (compile u g d now ttl) \<le> a_ExpiresAt a"
      using foldl_min_le by (simp add: compile_maps [OF r])
    then show ?thesis using until False assms(2) by (auto simp: expired_def)
  qed
  then show ?thesis by (auto simp: live_def intro: filter_cong)
qed

lemma scopeSet_live:
  assumes "live d now' = live d now"
  shows "scopeSet (compile u g d now' ttl') sc = scopeSet (compile u g d now ttl) sc"
proof (cases "\<exists>t. resolves d t")
  case True
  then obtain t where r: "resolves d t" by blast
  have "is_open (compile u g d now' ttl') = is_open (compile u g d now ttl)"
    by (rule ext) (simp add: is_open_def compile_resolves(9) [OF r] split: override.split)
  then have "projectRaw (compile u g d now' ttl') = projectRaw (compile u g d now ttl)"
    by (intro ext) (simp add: projectRaw_def compile_resolves [OF r] compile_maps [OF r] live_at_def assms Let_def)
  then show ?thesis
    by (cases "sc_Type sc") (simp_all add: scopeSet_def compile_resolves [OF r] compile_maps [OF r] live_at_def assms Let_def)
next
  case False
  then show ?thesis by (simp add: scopeSet_def compile_closed_iff)
qed

lemma scopeSet_stable:
  assumes "now \<le> now'" and "now' < s_validUntil (compile u g d now ttl)"
  shows "scopeSet (compile u g d now ttl) sc = scopeSet (compile u g d now' ttl') sc"
proof (cases "\<exists>t. resolves d t")
  case True
  then show ?thesis using live_stable assms scopeSet_live by metis
next
  case False
  then show ?thesis by (simp add: scopeSet_def compile_closed_iff)
qed

lemma validUntil_le: "s_validUntil (compile u g d now ttl) \<le> now + ttl"
  using foldl_min_le
  by (auto simp: compile_def new_snapshot_def with_template_def count_bytes_def assign_fold_validUntil Let_def split: option.splits)

lemma visible_scopeSet: "visible s p \<longleftrightarrow> snapshot_has s (ProjectScope p) bitView"
  by (simp add: visible_def snapshot_has_def scopeSet_def ProjectScope_def Let_def pset_simps)

lemma grants_mono: "set as \<subseteq> set as' \<Longrightarrow> grants as b \<Longrightarrow> grants as' b"
  by (auto simp: grants_def)

definition extends :: "AccessData \<Rightarrow> AccessData \<Rightarrow> bool" where
  "extends d d' \<longleftrightarrow> (\<exists>more. d' = d\<lparr> d_Assignments := d_Assignments d @ more \<rparr> \<and> (\<forall>a \<in> set more. a_Scope a \<noteq> StProject))"

lemma extends_spec_bounded:
  assumes ex: "extends d d'" and b: "spec_bounded d t now sc b"
  shows "spec_bounded d' t now sc b"
proof -
  obtain more where d': "d' = d\<lparr> d_Assignments := d_Assignments d @ more \<rparr>"
    and np: "\<forall>a \<in> set more. a_Scope a \<noteq> StProject" using ex by (auto simp: extends_def)
  have own: "own_of d' now p = own_of d now p" for p
    using np by (auto simp: d' own_of_def live_at_def live_def)
  have opens: "opens d' p = opens d p" for p by (auto simp: d' opens_def split: option.split)
  have "set (live_at d now k) \<subseteq> set (live_at d' now k)" for k by (auto simp: d' mem_live_at)
  then have "grants (live_at d now StOrg) b \<Longrightarrow> grants (live_at d' now StOrg) b"
    "grants (nested_of d now sc) b \<Longrightarrow> grants (nested_of d' now sc) b"
    by (blast intro: grants_mono, auto simp: nested_of_def grants_def subset_iff split: if_splits)
  then show ?thesis using b by (auto simp: spec_bounded_def spec_project_def own opens split: if_splits)
qed

section \<open>Properties\<close>

text \<open>
  C1 (refinement). For well-formed store data, the compiled snapshot grants at every scope exactly
  the permissions of the resolution rule \<open>spec_effective\<close>, it hides a project scope exactly from the
  members for whom that set is empty, and the listing test \<^verbatim>\<open>visible\<close> agrees with it.
\<close>

theorem compile_refines:
  assumes "data_wf d"
  shows "{b. snapshot_has (compile u g d now ttl) sc b} = spec_effective d now sc \<and>
     (snd (snd (scopeSet (compile u g d now ttl) sc)) \<longleftrightarrow>
        d_Member d \<and> sc_Type sc \<noteq> StOrg \<and> spec_effective d now sc = {}) \<and>
     (visible (compile u g d now ttl) p \<longleftrightarrow> spec_effective d now (ProjectScope p) \<noteq> {})"
proof (intro conjI)
  have "bitView \<in> spec_effective d now (ProjectScope p) \<longleftrightarrow> spec_effective d now (ProjectScope p) \<noteq> {}"
    by (auto simp: spec_effective_def ProjectScope_def split: if_splits)
  then show "visible (compile u g d now ttl) p \<longleftrightarrow> spec_effective d now (ProjectScope p) \<noteq> {}"
    by (simp only: visible_scopeSet compile_effective [OF assms])
qed (use assms in \<open>simp_all add: compile_effective compile_hidden\<close>)

definition ex_tpl :: OrgTemplate where
  "ex_tpl = \<lparr> tpl_ID = 1, tpl_Slug = ''member'', tpl_Version = 1, tpl_Permissions = PSet 3 0, tpl_FloorID = 0,
     tpl_BaseID = 2, tpl_Floor = empty_set, tpl_Base = PSet (2 ^ 26) 0, tpl_HasCeiling = True,
     tpl_Ceiling = PSet 1 0, tpl_CeilingProject = PSet (2 ^ 26 + 2 ^ 27) 0 \<rparr>"

definition ex_assignment :: "ScopeType \<Rightarrow> uuid \<Rightarrow> uuid \<Rightarrow> pset \<Rightarrow> time \<Rightarrow> Assignment" where
  "ex_assignment k i p st until = \<lparr> a_ID = 9, a_SubjectKind = SubjectUser, a_SubjectID = 5, a_Scope = k, a_ScopeID = i,
     a_ProjectID = p, a_TemplateID = 4, a_TemplateSlug = ''custom'', a_TemplateVersion = 1, a_Permissions = st,
     a_Source = ''manual'', a_ExpiresAt = until \<rparr>"

definition ex_data :: AccessData where
  "ex_data = \<lparr> d_Member = True, d_UserActive = True, d_MemberActive = True, d_Template = Some ex_tpl,
     d_Policy = ''open'', d_ProjectOverrides = [(7, ''restricted'')],
     d_Assignments = [ex_assignment StProject 6 6 (PSet (2 ^ 26 + 2 ^ 28) 0) 100,
                      ex_assignment StRepo 61 6 (PSet (2 ^ 27) 0) 0],
     d_Epochs = \<lparr> ep_Org = 1, ep_User = 1 \<rparr> \<rparr>"

theorem compile_refines_witness:
  "data_wf ex_data \<and> {b. snapshot_has (compile 5 1 ex_data 50 300) (RepoScope 6 61) b} = spec_effective ex_data 50 (RepoScope 6 61)"
  using compile_refines [of ex_data 5 1 50 300 "RepoScope 6 61"]
  by (simp add: data_wf_def ex_data_def ex_assignment_def)

text \<open>
  C27 (safety). A snapshot compiled at \<open>now\<close> gives at every scope, until its \<^verbatim>\<open>validUntil\<close>, the answer a
  compilation at the later instant would give from the same data; \<^verbatim>\<open>validUntil\<close> never exceeds the TTL.
  A cached snapshot therefore never outlives an assignment that expires.
\<close>

theorem snapshot_time_stable:
  assumes "now \<le> now'" and "now' < s_validUntil (compile u g d now ttl)"
  shows "scopeSet (compile u g d now ttl) sc = scopeSet (compile u g d now' ttl') sc \<and> now' < now + ttl"
  using scopeSet_stable [OF assms] validUntil_le [of u g d now ttl] assms(2) by simp_all

theorem snapshot_time_stable_witness:
  "(50::time) \<le> 99 \<and> 99 < s_validUntil (compile 5 1 ex_data 50 300) \<and>
   scopeSet (compile 5 1 ex_data 50 300) (ProjectScope 6) = scopeSet (compile 5 1 ex_data 99 300) (ProjectScope 6)"
proof -
  have v: "(99::time) < s_validUntil (compile 5 1 ex_data 50 300)"
    by (simp add: compile_def new_snapshot_def with_template_def count_bytes_def assign_step_def Let_def
        ex_data_def ex_assignment_def expired_def IsZero_def)
  show ?thesis using snapshot_time_stable [OF _ v, of "ProjectScope 6" 300] v by simp
qed

text \<open>
  Fail closed: a non-member, a suspended user or member, and a member whose template does
  not resolve hold no permission at any scope and see no project; the reason names the first of these
  that applies; and whoever holds any permission is an active member.
\<close>

theorem compile_fail_closed:
  "((\<exists>sc b. snapshot_has (compile u g d now ttl) sc b) \<longrightarrow> (\<exists>t. resolves d t)) \<and>
   ((\<nexists>t. resolves d t) \<longrightarrow>
     (let s = compile u g d now ttl; (st, own, hidden) = scopeSet s sc in
      st = empty_set \<and> \<not> own \<and> \<not> visible s p \<and> acc_Source (access s sc st own hidden) = SourceNone \<and>
      acc_Reason (access s sc st own hidden) =
        (if \<not> d_Member d then ReasonNotMember
         else if \<not> d_UserActive d \<or> \<not> d_MemberActive d then ReasonSuspended else ReasonTemplateUnresolved)))"
proof (rule conjI)
  have c: "(\<nexists>t. resolves d t) \<Longrightarrow> s_closed (compile u g d now ttl)" by (simp add: compile_closed_iff)
  show "(\<exists>sc b. snapshot_has (compile u g d now ttl) sc b) \<longrightarrow> (\<exists>t. resolves d t)"
    using c scopeSet_closed by (fastforce simp: snapshot_has_def pset_simps)
  show "(\<nexists>t. resolves d t) \<longrightarrow> (let s = compile u g d now ttl; (st, own, hidden) = scopeSet s sc in
      st = empty_set \<and> \<not> own \<and> \<not> visible s p \<and> acc_Source (access s sc st own hidden) = SourceNone \<and>
      acc_Reason (access s sc st own hidden) =
        (if \<not> d_Member d then ReasonNotMember
         else if \<not> d_UserActive d \<or> \<not> d_MemberActive d then ReasonSuspended else ReasonTemplateUnresolved))"
    using c by (simp add: scopeSet_closed visible_def access_def Let_def compile_reason)
qed

theorem compile_fail_closed_witness:
  "(\<nexists>t. resolves (ex_data\<lparr> d_UserActive := False \<rparr>) t) \<and>
   fst (scopeSet (compile 5 1 (ex_data\<lparr> d_UserActive := False \<rparr>) 50 300) (ProjectScope 6)) = empty_set"
  using compile_fail_closed [of 5 1 "ex_data\<lparr> d_UserActive := False \<rparr>" 50 300 "ProjectScope 6" 6]
  by (simp add: resolves_def Let_def split: prod.splits)

text \<open>
  Additions at the organization, a repository or an environment never take a permission
  away: only an own assignment of a project replaces the fallback. And no assignment at all lets a
  member pass the ceiling of the template, at any scope.
\<close>

theorem additions_monotone:
  assumes "data_wf d'" and "data_wf d" and "extends d d'" and "resolves d t"
  shows "(snapshot_has (compile u g d now ttl) sc b \<longrightarrow> snapshot_has (compile u g d' now ttl) sc b) \<and>
     (tpl_HasCeiling t \<and> snapshot_has (compile u g d' now ttl) sc b \<longrightarrow>
        HasBit (if sc_Type sc = StOrg then tpl_Ceiling t else tpl_CeilingProject t) b)"
proof (intro conjI)
  have r': "resolves d' t" using assms(3,4) by (auto simp: extends_def resolves_def)
  show "snapshot_has (compile u g d now ttl) sc b \<longrightarrow> snapshot_has (compile u g d' now ttl) sc b"
    using extends_spec_bounded [OF assms(3)]
    by (auto simp: compile_effective assms spec_effective_resolves [OF r'] spec_effective_resolves [OF assms(4)] split: if_splits)
  show "tpl_HasCeiling t \<and> snapshot_has (compile u g d' now ttl) sc b \<longrightarrow>
           HasBit (if sc_Type sc = StOrg then tpl_Ceiling t else tpl_CeilingProject t) b"
    by (auto simp: compile_effective assms spec_effective_resolves [OF r'] spec_bounded_def)
qed

theorem additions_monotone_witness:
  "let d' = ex_data\<lparr> d_Assignments := d_Assignments ex_data @ [ex_assignment StOrg 1 0 (PSet (2 ^ 27) 0) 0] \<rparr> in
   data_wf d' \<and> data_wf ex_data \<and> extends ex_data d' \<and> resolves ex_data ex_tpl \<and>
   (snapshot_has (compile 5 1 ex_data 50 300) (ProjectScope 6) 26 \<longrightarrow> snapshot_has (compile 5 1 d' 50 300) (ProjectScope 6) 26)"
proof -
  let ?d = "ex_data\<lparr> d_Assignments := d_Assignments ex_data @ [ex_assignment StOrg 1 0 (PSet (2 ^ 27) 0) 0] \<rparr>"
  have h: "data_wf ?d" "data_wf ex_data" "resolves ex_data ex_tpl"
    by (simp_all add: data_wf_def resolves_def ex_data_def ex_assignment_def)
  have e: "extends ex_data ?d" by (auto simp: extends_def ex_assignment_def)
  show ?thesis using h e additions_monotone [OF h(1,2) e h(3), of 5 1 50 300 "ProjectScope 6" 26] by simp
qed

end
