(* ===== verification/Explain.thy ===== *)
theory Explain
  imports Snapshot
begin

text \<open>
  The explanation of a decision (\<^verbatim>\<open>internal/authz/engine/explain.go\<close>): \<open>contributions\<close> lists what puts a
  permission into the set of a scope, \<open>nearMisses\<close> what looked relevant and did not count, and
  \<open>explain_snapshot\<close> is the part of \<^verbatim>\<open>Explain\<close> that works on a compiled snapshot (loading it is the
  engine's part). The lemmas tie the explanation to the evaluator: the list of grants is empty exactly
  when the set before the ceiling lacks the permission, so every cause it names is the true one.
\<close>

datatype Cause = CauseGranted | CauseNotMember | CauseSuspended | CauseTemplateUnresolved
  | CauseHidden | CauseCeiling | CauseMissing | CauseUnknownPermission

datatype Via = ViaNone | ViaOrgTemplate | ViaFloor | ViaBase | ViaOrgAssignment | ViaProjectAssignment
  | ViaRepoAssignment | ViaEnvAssignment

record Grant =
  g_Via :: Via
  g_AssignmentID :: uuid
  g_SubjectKind :: "SubjectKind option"
  g_SubjectID :: uuid
  g_TemplateID :: uuid
  g_TemplateSlug :: string
  g_TemplateVersion :: int
  g_Source :: string
  g_ExpiresAt :: time

datatype NoteCode = NoteExpired | NoteReplaced | NoteBaseInactive | NoteCeilingCut

record Note =
  n_Code :: NoteCode
  n_Grants :: "Grant list"

record Decision =
  dc_Allowed :: bool
  dc_Cause :: Cause
  dc_Perm :: string
  dc_Scope :: EScope
  dc_Access :: Access
  dc_Grants :: "Grant list"
  dc_Notes :: "Note list"
  dc_Strict :: bool

definition zero_Access :: Access where
  "zero_Access = \<lparr> acc_Member = False, acc_Hidden = False, acc_Source = SourceNone, acc_Reason = ReasonNone \<rparr>"

text \<open>A grant that comes from a template: the assignment fields keep their zero values.\<close>

definition tpl_grant :: "Via \<Rightarrow> uuid \<Rightarrow> string \<Rightarrow> int \<Rightarrow> Grant" where
  "tpl_grant v i slug ver = \<lparr> g_Via = v, g_AssignmentID = 0, g_SubjectKind = None, g_SubjectID = 0,
     g_TemplateID = i, g_TemplateSlug = slug, g_TemplateVersion = ver, g_Source = [], g_ExpiresAt = 0 \<rparr>"

definition asg :: "Via \<Rightarrow> Assignment \<Rightarrow> Grant" where
  "asg v a = \<lparr> g_Via = v, g_AssignmentID = a_ID a, g_SubjectKind = Some (a_SubjectKind a),
     g_SubjectID = a_SubjectID a, g_TemplateID = a_TemplateID a, g_TemplateSlug = a_TemplateSlug a,
     g_TemplateVersion = a_TemplateVersion a, g_Source = a_Source a, g_ExpiresAt = a_ExpiresAt a \<rparr>"

text \<open>The loops over \<^verbatim>\<open>s.data.Assignments\<close> that append one grant per assignment passing a test.\<close>

definition collect :: "Via \<Rightarrow> (Assignment \<Rightarrow> bool) \<Rightarrow> Assignment list \<Rightarrow> Grant list" where
  "collect v P as = map (asg v) (filter P as)"

definition org_grants :: "snapshot \<Rightarrow> nat \<Rightarrow> time \<Rightarrow> Grant list" where
  "org_grants s b now = collect ViaOrgAssignment
     (\<lambda>a. a_Scope a = StOrg \<and> \<not> expired a now \<and> HasBit (a_Permissions a) b) (d_Assignments (s_data s))"

definition nested_grants :: "snapshot \<Rightarrow> EScope \<Rightarrow> nat \<Rightarrow> time \<Rightarrow> Grant list" where
  "nested_grants s sc b now =
     (if sc_Type sc = StRepo \<or> sc_Type sc = StEnv then
        collect (if sc_Type sc = StRepo then ViaRepoAssignment else ViaEnvAssignment)
          (\<lambda>a. a_ScopeID a = sc_ID sc \<and> a_ProjectID a = sc_ProjectID sc \<and> \<not> expired a now \<and>
               HasBit (a_Permissions a) b \<and> a_Scope a = sc_Type sc) (d_Assignments (s_data s))
      else [])"

definition contributions :: "snapshot \<Rightarrow> EScope \<Rightarrow> nat \<Rightarrow> time \<Rightarrow> Grant list" where
  "contributions s sc b now =
     (if s_closed s then []
      else if sc_Type sc = StOrg then
        (if HasBit (s_perms s) b
         then [tpl_grant ViaOrgTemplate (tpl_ID (s_tpl s)) (tpl_Slug (s_tpl s)) (tpl_Version (s_tpl s))] else [])
      else
        let e = gomap_at zero_projEntry (s_projects s) (sc_ProjectID sc);
            opn = is_open s e in
        (if HasBit (s_floor s) b then [tpl_grant ViaFloor (tpl_FloorID (s_tpl s)) [] 0] else []) @
        (if pe_own e then
           collect ViaProjectAssignment
             (\<lambda>a. a_Scope a = StProject \<and> a_ScopeID a = sc_ProjectID sc \<and> \<not> expired a now \<and> HasBit (a_Permissions a) b)
             (d_Assignments (s_data s))
         else org_grants s b now @
           (if opn \<and> HasBit (s_base s) b then [tpl_grant ViaBase (tpl_BaseID (s_tpl s)) [] 0] else [])) @
        nested_grants s sc b now)"

text \<open>The expired assignments that would have granted the permission at the scope.\<close>

definition expired_grant :: "EScope \<Rightarrow> Assignment \<Rightarrow> Grant list" where
  "expired_grant sc a = (case a_Scope a of
       StOrg \<Rightarrow> [asg ViaOrgAssignment a]
     | StProject \<Rightarrow> if a_ScopeID a = sc_ProjectID sc then [asg ViaProjectAssignment a] else []
     | StRepo \<Rightarrow> if sc_Type sc = StRepo \<and> a_ScopeID a = sc_ID sc then [asg ViaRepoAssignment a] else []
     | StEnv \<Rightarrow> if sc_Type sc = StEnv \<and> a_ScopeID a = sc_ID sc then [asg ViaEnvAssignment a] else [])"

definition nearMisses :: "snapshot \<Rightarrow> EScope \<Rightarrow> nat \<Rightarrow> Note list" where
  "nearMisses s sc b =
     (let now = s_compiled s;
          ex = concat (map (expired_grant sc)
                 (filter (\<lambda>a. expired a now \<and> HasBit (a_Permissions a) b) (d_Assignments (s_data s))));
          e = gomap_at zero_projEntry (s_projects s) (sc_ProjectID sc);
          opn = is_open s e;
          base = tpl_grant ViaBase (tpl_BaseID (s_tpl s)) [] 0 in
      (if ex \<noteq> [] then [\<lparr> n_Code = NoteExpired, n_Grants = ex \<rparr>] else []) @
      (if pe_own e then
         let rep = org_grants s b now @ (if opn \<and> HasBit (s_base s) b then [base] else []) in
         if rep \<noteq> [] then [\<lparr> n_Code = NoteReplaced, n_Grants = rep \<rparr>] else []
       else if \<not> opn \<and> HasBit (s_base s) b then [\<lparr> n_Code = NoteBaseInactive, n_Grants = [base] \<rparr>]
       else []))"

definition new_Decision :: "string \<Rightarrow> EScope \<Rightarrow> Decision" where
  "new_Decision perm sc = \<lparr> dc_Allowed = False, dc_Cause = CauseUnknownPermission, dc_Perm = perm, dc_Scope = sc,
     dc_Access = zero_Access, dc_Grants = [], dc_Notes = [], dc_Strict = False \<rparr>"

definition explain_snapshot :: "snapshot \<Rightarrow> EScope \<Rightarrow> nat \<Rightarrow> Decision \<Rightarrow> Decision" where
  "explain_snapshot s sc b d =
     (let (st, own, hidden) = scopeSet s sc;
          grants = contributions s sc b (s_compiled s);
          d1 = d\<lparr> dc_Access := access s sc st own hidden, dc_Allowed := HasBit st b \<rparr>;
          d2 = (if HasBit st b then d1\<lparr> dc_Cause := CauseGranted, dc_Grants := grants \<rparr>
                else if s_closed s then
                  d1\<lparr> dc_Cause := (case s_reason s of ReasonNotMember \<Rightarrow> CauseNotMember
                      | ReasonSuspended \<Rightarrow> CauseSuspended | _ \<Rightarrow> CauseTemplateUnresolved) \<rparr>
                else if hidden then d1\<lparr> dc_Cause := CauseHidden, dc_Grants := grants \<rparr>
                else if length grants > 0 then
                  d1\<lparr> dc_Cause := CauseCeiling, dc_Grants := grants,
                      dc_Notes := dc_Notes d1 @ [\<lparr> n_Code = NoteCeilingCut, n_Grants = grants \<rparr>] \<rparr>
                else d1\<lparr> dc_Cause := CauseMissing, dc_Grants := [] \<rparr>)
      in if dc_Cause d2 \<noteq> CauseGranted \<and> \<not> s_closed s \<and> sc_Type sc \<noteq> StOrg
         then d2\<lparr> dc_Notes := dc_Notes d2 @ nearMisses s sc b \<rparr> else d2)"

section \<open>Grants and the evaluator agree\<close>

text \<open>The set of a scope before the ceiling and the visibility test.\<close>

definition uncut :: "snapshot \<Rightarrow> EScope \<Rightarrow> nat \<Rightarrow> bool" where
  "uncut s sc b = (if sc_Type sc = StOrg then HasBit (s_perms s) b else HasBit (fst (scoped_raw s sc)) b)"

lemma collect_empty_iff: "collect v P as = [] \<longleftrightarrow> (\<forall>a \<in> set as. \<not> P a)"
  by (simp add: collect_def filter_empty_conv)

lemma org_grants_iff: "org_grants (compile u g d now ttl) b now \<noteq> [] \<longleftrightarrow> grants (live_at d now StOrg) b"
  by (auto simp: org_grants_def collect_empty_iff grants_def mem_live_at)

lemma nested_grants_iff: "nested_grants (compile u g d now ttl) sc b now \<noteq> [] \<longleftrightarrow> grants (nested_of d now sc) b"
  by (auto simp: nested_grants_def collect_empty_iff grants_def nested_of_def mem_live_at)

lemma compile_entry:
  assumes r: "resolves d t" and wf: "data_wf d"
  shows "pe_own (gomap_at zero_projEntry (s_projects (compile u g d now ttl)) p) \<longleftrightarrow> own_of d now p \<noteq> []"
    and "is_open (compile u g d now ttl) (gomap_at zero_projEntry (s_projects (compile u g d now ttl)) p) = opens d p"
  using wf
  by (auto simp: compile_maps [OF r] compile_resolves [OF r] at_foldl_add_project override_entry data_wf_def Let_def
      is_open_def opens_def own_of_def split: option.splits)

lemma own_grants_iff:
  "(\<exists>a \<in> set (d_Assignments d). a_Scope a = StProject \<and> a_ScopeID a = p \<and> \<not> expired a now \<and> HasBit (a_Permissions a) b)
   \<longleftrightarrow> grants (own_of d now p) b"
  by (auto simp: grants_def own_of_def mem_live_at)

lemma contributions_iff:
  assumes r: "resolves d t" and wf: "data_wf d"
  shows "contributions (compile u g d now ttl) sc b now \<noteq> [] \<longleftrightarrow> uncut (compile u g d now ttl) sc b"
proof (cases "sc_Type sc = StOrg")
  case True
  then show ?thesis by (simp add: contributions_def uncut_def compile_resolves [OF r])
next
  case False
  show ?thesis
    using False own_grants_iff [of d "sc_ProjectID sc" now b] org_grants_iff [of u g d now ttl b] nested_grants_iff [of u g d now ttl sc b]
    by (auto simp: contributions_def uncut_def compile_resolves [OF r] compile_entry [OF r wf] collect_empty_iff
        scoped_raw_compile [OF r wf False] spec_project_def Let_def)
qed

lemma explain_fields:
  "dc_Allowed (explain_snapshot s sc b d) = snapshot_has s sc b"
  "dc_Cause (explain_snapshot s sc b d) =
     (if snapshot_has s sc b then CauseGranted
      else if s_closed s then (case s_reason s of ReasonNotMember \<Rightarrow> CauseNotMember
                      | ReasonSuspended \<Rightarrow> CauseSuspended | _ \<Rightarrow> CauseTemplateUnresolved)
      else if snd (snd (scopeSet s sc)) then CauseHidden
      else if contributions s sc b (s_compiled s) \<noteq> [] then CauseCeiling else CauseMissing)"
  "\<not> s_closed s \<Longrightarrow> dc_Grants (explain_snapshot s sc b (new_Decision perm sc)) = contributions s sc b (s_compiled s)"
  by (auto simp: explain_snapshot_def snapshot_has_def new_Decision_def Let_def split: prod.splits)

text \<open>A denied permission that something grants, at a scope that is not hidden, was cut by the ceiling.\<close>

lemma cut_by_ceiling:
  assumes r: "resolves d t" and wf: "data_wf d"
    and deny: "\<not> snapshot_has (compile u g d now ttl) sc b" "\<not> snd (snd (scopeSet (compile u g d now ttl) sc))"
    and "uncut (compile u g d now ttl) sc b"
  shows "tpl_HasCeiling t" "\<not> HasBit (if sc_Type sc = StOrg then tpl_Ceiling t else tpl_CeilingProject t) b"
proof -
  have "tpl_HasCeiling t \<and> \<not> HasBit (if sc_Type sc = StOrg then tpl_Ceiling t else tpl_CeilingProject t) b"
  proof (cases "sc_Type sc = StOrg")
    case True
    then show ?thesis using assms(3,5)
      by (auto simp: snapshot_has_def uncut_def scopeSet_def compile_resolves [OF r] pset_simps split: if_splits)
  next
    case False
    then show ?thesis using assms(3-5)
      by (auto simp: snapshot_has_def uncut_def scopeSet_nested compile_resolves [OF r] ceil_proj_def pset_simps split: if_splits)
  qed
  then show "tpl_HasCeiling t" "\<not> HasBit (if sc_Type sc = StOrg then tpl_Ceiling t else tpl_CeilingProject t) b"
    by blast+
qed

lemma snapshot_has_uncut:
  assumes r: "resolves d t" and has: "snapshot_has (compile u g d now ttl) sc b"
  shows "uncut (compile u g d now ttl) sc b"
proof (cases "sc_Type sc = StOrg")
  case True
  then show ?thesis using has
    by (auto simp: snapshot_has_def uncut_def scopeSet_def compile_resolves [OF r] pset_simps split: if_splits)
next
  case False
  then show ?thesis using has
    by (auto simp: snapshot_has_def uncut_def scopeSet_nested compile_resolves [OF r] ceil_proj_def pset_simps split: if_splits)
qed

section \<open>The grants of the data\<close>

text \<open>What the loaded data offer at a scope before the ceiling and the visibility test, and the grants that do:
  both read the template and the live assignments, not the compiled snapshot.\<close>

definition spec_offered :: "AccessData \<Rightarrow> OrgTemplate \<Rightarrow> time \<Rightarrow> EScope \<Rightarrow> nat \<Rightarrow> bool" where
  "spec_offered d t now sc b \<longleftrightarrow>
     (if sc_Type sc = StOrg then HasBit (tpl_Permissions t) b
      else spec_project d t now (sc_ProjectID sc) b \<or> grants (nested_of d now sc) b)"

definition spec_grants :: "AccessData \<Rightarrow> OrgTemplate \<Rightarrow> time \<Rightarrow> EScope \<Rightarrow> nat \<Rightarrow> Grant set" where
  "spec_grants d t now sc b =
     (if sc_Type sc = StOrg then {g. HasBit (tpl_Permissions t) b \<and> g = tpl_grant ViaOrgTemplate (tpl_ID t) (tpl_Slug t) (tpl_Version t)}
      else {g. HasBit (tpl_Floor t) b \<and> g = tpl_grant ViaFloor (tpl_FloorID t) [] 0} \<union>
        {g. own_of d now (sc_ProjectID sc) = [] \<and> opens d (sc_ProjectID sc) \<and> HasBit (tpl_Base t) b \<and> g = tpl_grant ViaBase (tpl_BaseID t) [] 0} \<union>
        {g. own_of d now (sc_ProjectID sc) = [] \<and> (\<exists>a \<in> set (live_at d now StOrg). HasBit (a_Permissions a) b \<and> g = asg ViaOrgAssignment a)} \<union>
        {g. \<exists>a \<in> set (own_of d now (sc_ProjectID sc)). HasBit (a_Permissions a) b \<and> g = asg ViaProjectAssignment a} \<union>
        {g. \<exists>a \<in> set (nested_of d now sc). HasBit (a_Permissions a) b \<and>
            g = asg (if sc_Type sc = StRepo then ViaRepoAssignment else ViaEnvAssignment) a})"

lemma collect_set: "set (collect v P as) = {g. \<exists>a \<in> set as. P a \<and> g = asg v a}"
  by (auto simp: collect_def)

lemma org_grants_set: "set (org_grants (compile u g d now ttl) b now) =
    {gr. \<exists>a \<in> set (live_at d now StOrg). HasBit (a_Permissions a) b \<and> gr = asg ViaOrgAssignment a}"
  by (auto simp: org_grants_def collect_set mem_live_at)

lemma nested_grants_set: "set (nested_grants (compile u g d now ttl) sc b now) =
    {gr. \<exists>a \<in> set (nested_of d now sc). HasBit (a_Permissions a) b \<and>
       gr = asg (if sc_Type sc = StRepo then ViaRepoAssignment else ViaEnvAssignment) a}"
  by (auto simp: nested_grants_def collect_set nested_of_def mem_live_at)

lemma own_grants_set:
  "set (collect ViaProjectAssignment (\<lambda>a. a_Scope a = StProject \<and> a_ScopeID a = p \<and> \<not> expired a now \<and> HasBit (a_Permissions a) b) (d_Assignments d)) =
   {gr. \<exists>a \<in> set (own_of d now p). HasBit (a_Permissions a) b \<and> gr = asg ViaProjectAssignment a}"
  by (auto simp: collect_set own_of_def mem_live_at)

lemma contributions_set:
  assumes r: "resolves d t" and wf: "data_wf d"
  shows "set (contributions (compile u g d now ttl) sc b now) = spec_grants d t now sc b"
proof (cases "sc_Type sc = StOrg")
  case True
  then show ?thesis by (simp add: contributions_def spec_grants_def compile_resolves [OF r])
next
  case False
  show ?thesis
  proof (cases "own_of d now (sc_ProjectID sc) = []")
    case True
    then show ?thesis using False
      by (auto simp: contributions_def spec_grants_def compile_resolves [OF r] compile_entry [OF r wf] Let_def org_grants_set nested_grants_set)
  next
    case own: False
    then show ?thesis using False
      by (auto simp: contributions_def spec_grants_def compile_resolves [OF r] compile_entry [OF r wf] Let_def own_grants_set nested_grants_set)
  qed
qed

lemma spec_grants_empty: "spec_grants d t now sc b = {} \<longleftrightarrow> \<not> spec_offered d t now sc b"
  by (auto simp: spec_grants_def spec_offered_def spec_project_def grants_def)

abbreviation explained :: "uuid \<Rightarrow> uuid \<Rightarrow> AccessData \<Rightarrow> time \<Rightarrow> duration \<Rightarrow> EScope \<Rightarrow> nat \<Rightarrow> string \<Rightarrow> Decision" where
  "explained u g d now ttl sc b perm \<equiv> explain_snapshot (compile u g d now ttl) sc b (new_Decision perm sc)"

lemma explain_allowed:
  "data_wf d \<Longrightarrow> dc_Allowed (explained u g d now ttl sc b perm) \<longleftrightarrow> b \<in> spec_effective d now sc"
  by (simp add: explain_fields compile_effective)

lemma explain_closed:
  "(\<nexists>t. resolves d t) \<Longrightarrow> dc_Cause (explained u g d now ttl sc b perm) =
     (if \<not> d_Member d then CauseNotMember
      else if \<not> d_UserActive d \<or> \<not> d_MemberActive d then CauseSuspended else CauseTemplateUnresolved)"
  using compile_reason [of u g d now ttl]
  by (simp add: explain_fields compile_closed_iff snapshot_has_def scopeSet_closed pset_simps)

lemma explain_open_grants:
  "resolves d t \<Longrightarrow> dc_Grants (explained u g d now ttl sc b perm) = contributions (compile u g d now ttl) sc b now"
  using explain_fields(3) [of "compile u g d now ttl" sc b perm] by (simp add: compile_resolves)

lemma explain_grants:
  assumes "data_wf d" and r: "resolves d t"
  shows "set (dc_Grants (explained u g d now ttl sc b perm)) = spec_grants d t now sc b"
  by (simp add: explain_open_grants [OF r] contributions_set [OF r assms(1)])

lemma explain_resolved:
  assumes wf: "data_wf d" and r: "resolves d t"
  shows "dc_Cause (explained u g d now ttl sc b perm) =
    (if b \<in> spec_effective d now sc then CauseGranted
     else if sc_Type sc \<noteq> StOrg \<and> spec_effective d now sc = {} then CauseHidden
     else if spec_offered d t now sc b then CauseCeiling else CauseMissing)"
proof -
  have "contributions (compile u g d now ttl) sc b now \<noteq> [] \<longleftrightarrow> spec_offered d t now sc b"
    using contributions_set [OF r wf, of u g now ttl sc b] spec_grants_empty [of d t now sc b] by (metis set_empty)
  then show ?thesis using r wf
    by (simp add: explain_fields(2) compile_effective compile_hidden compile_resolves [OF r]) (simp add: resolves_def)
qed

lemma explain_ceiling:
  assumes "data_wf d" and c: "dc_Cause (explained u g d now ttl sc b perm) = CauseCeiling" and r: "resolves d t"
  shows "tpl_HasCeiling t \<and> \<not> HasBit (if sc_Type sc = StOrg then tpl_Ceiling t else tpl_CeilingProject t) b"
proof -
  have "\<not> snapshot_has (compile u g d now ttl) sc b" "\<not> snd (snd (scopeSet (compile u g d now ttl) sc))"
    "contributions (compile u g d now ttl) sc b now \<noteq> []"
    using c r by (auto simp: explain_fields(2) compile_resolves [OF r] split: if_splits)
  then show ?thesis using cut_by_ceiling [OF r assms(1)] contributions_iff [OF r assms(1)] by blast
qed

section \<open>Properties\<close>

text \<open>
  C30 (functional). The explanation never disagrees with the evaluator and states the true cause, read off
  the loaded data: \<^verbatim>\<open>Allowed\<close> is membership in the effective set; without a resolved template the cause is
  not a member, suspended or unresolved, in this order; with one it is granted when the set has the
  permission, hidden when the set of a project, repository or environment scope is empty, cut by the
  ceiling when the template (at the organization) or the floor, base and live assignments that apply at
  the scope offer the permission, and missing when none of them does. A ceiling cause names a template
  that has a ceiling without the permission, and the grants listed are exactly those of the data: the
  template, floor or base that has it and every live assignment that applies and has it.
\<close>

theorem explain_cause_exact:
  assumes "data_wf d"
  shows "(dc_Allowed (explained u g d now ttl sc b perm) \<longleftrightarrow> b \<in> spec_effective d now sc) \<and>
     ((\<nexists>t. resolves d t) \<longrightarrow> dc_Cause (explained u g d now ttl sc b perm) =
          (if \<not> d_Member d then CauseNotMember
           else if \<not> d_UserActive d \<or> \<not> d_MemberActive d then CauseSuspended else CauseTemplateUnresolved)) \<and>
     (resolves d t \<longrightarrow> dc_Cause (explained u g d now ttl sc b perm) =
          (if b \<in> spec_effective d now sc then CauseGranted
           else if sc_Type sc \<noteq> StOrg \<and> spec_effective d now sc = {} then CauseHidden
           else if spec_offered d t now sc b then CauseCeiling else CauseMissing)) \<and>
     (dc_Cause (explained u g d now ttl sc b perm) = CauseCeiling \<longrightarrow> resolves d t \<longrightarrow>
           tpl_HasCeiling t \<and> \<not> HasBit (if sc_Type sc = StOrg then tpl_Ceiling t else tpl_CeilingProject t) b) \<and>
     (resolves d t \<longrightarrow> set (dc_Grants (explained u g d now ttl sc b perm)) = spec_grants d t now sc b)"
  by (rule conjI [OF explain_allowed [OF assms] conjI [OF impI [OF explain_closed] conjI [OF impI [OF explain_resolved [OF assms]]
      conjI [OF impI [OF impI [OF explain_ceiling [OF assms]]] impI [OF explain_grants [OF assms]]]]]])

theorem explain_cause_exact_witness:
  "data_wf ex_data \<and> resolves ex_data ex_tpl \<and>
   (dc_Allowed (explain_snapshot (compile 5 1 ex_data 50 300) (ProjectScope 6) 28 (new_Decision ''x'' (ProjectScope 6)))
      \<longleftrightarrow> 28 \<in> spec_effective ex_data 50 (ProjectScope 6)) \<and>
   set (dc_Grants (explain_snapshot (compile 5 1 ex_data 50 300) (ProjectScope 6) 28 (new_Decision ''x'' (ProjectScope 6)))) =
      spec_grants ex_data ex_tpl 50 (ProjectScope 6) 28"
proof -
  have wf: "data_wf ex_data" and r: "resolves ex_data ex_tpl"
    by (simp_all add: data_wf_def resolves_def ex_data_def ex_assignment_def)
  then show ?thesis using explain_cause_exact [OF wf, of 5 1 50 300 "ProjectScope 6" 28 "''x''" ex_tpl] by blast
qed

text \<open>
  Every grant the explanation lists that names an assignment comes from an assignment
  of the loaded data that is not expired, holds the permission and applies at the scope.
\<close>

theorem contributions_sound:
  assumes "gr \<in> set (contributions (compile u g d now ttl) sc b now)"
    and "g_Via gr \<in> {ViaOrgAssignment, ViaProjectAssignment, ViaRepoAssignment, ViaEnvAssignment}"
  shows "\<exists>a \<in> set (live d now). gr = asg (g_Via gr) a \<and> HasBit (a_Permissions a) b \<and>
     (a_Scope a = StOrg \<or> a_Scope a = StProject \<and> a_ScopeID a = sc_ProjectID sc \<or>
      a_Scope a = sc_Type sc \<and> a_ScopeID a = sc_ID sc \<and> a_ProjectID a = sc_ProjectID sc)"
proof -
  have col: "\<exists>a \<in> set (d_Assignments d). gr = asg v a \<and> P a" if "gr \<in> set (collect v P (d_Assignments d))" for v P
    using that by (auto simp: collect_def)
  have not_tpl: "gr \<noteq> tpl_grant v i n k" if "v \<in> {ViaOrgTemplate, ViaFloor, ViaBase}" for v i n k
    using assms(2) that by (auto simp: tpl_grant_def)
  have via: "g_Via (asg v a) = v" for v a by (simp add: asg_def)
  show ?thesis
    using assms(1) not_tpl
    by (auto simp: contributions_def org_grants_def nested_grants_def live_def via Let_def
        split: if_splits dest!: col)
qed

theorem contributions_sound_witness:
  "\<exists>gr. gr \<in> set (contributions (compile 5 1 ex_data 50 300) (ProjectScope 6) 28 50) \<and> g_Via gr = ViaProjectAssignment \<and>
     (\<exists>a \<in> set (live ex_data 50). gr = asg (g_Via gr) a \<and> HasBit (a_Permissions a) 28)"
proof -
  let ?a = "ex_assignment StProject 6 6 (PSet (2 ^ 26 + 2 ^ 28) 0) 100"
  have wf: "data_wf ex_data" and r: "resolves ex_data ex_tpl"
    by (simp_all add: data_wf_def resolves_def ex_data_def ex_assignment_def)
  have own: "own_of ex_data 50 6 \<noteq> []" by (simp add: own_of_def live_at_def live_def ex_data_def ex_assignment_def expired_def)
  have bit: "HasBit (PSet (2 ^ 26 + 2 ^ 28) 0) 28" by code_simp
  have a: "?a \<in> set (d_Assignments ex_data)" by (simp add: ex_data_def)
  have mem: "asg ViaProjectAssignment ?a \<in> set (contributions (compile 5 1 ex_data 50 300) (ProjectScope 6) 28 50)"
    using own bit a
    by (simp add: contributions_def compile_resolves [OF r] compile_entry [OF r wf] ProjectScope_def Let_def collect_def)
      (auto simp: ex_assignment_def expired_def)
  have v: "g_Via (asg ViaProjectAssignment ?a) = ViaProjectAssignment" by (simp add: asg_def)
  then have "\<exists>a \<in> set (live ex_data 50). asg ViaProjectAssignment ?a = asg (g_Via (asg ViaProjectAssignment ?a)) a \<and>
      HasBit (a_Permissions a) 28"
    using contributions_sound [OF mem] by blast
  then show ?thesis using mem v by blast
qed

end
