(* ===== verification/Engine_Cache.thy ===== *)
theory Engine_Cache
  imports Snapshot
begin

text \<open>
  The in-process snapshot cache (\<^verbatim>\<open>internal/authz/engine/cache.go\<close>): a byte budget with eviction of the
  least recently used entries. Every operation holds the lock of the cache for its whole body, so
  each is one function on the cache state; \<^verbatim>\<open>get\<close> also moves the coarse use time. The locale
  \<open>snapshot_cache\<close> is what the engine relies on; it is interpreted on these definitions.

  Sizes are \<open>int\<close>: an estimate is at most a few hundred bytes per row of a membership, far below the
  range of \<^verbatim>\<open>int64\<close>. The order of the association list is the iteration order of the Go map, so the
  stable sort below covers every order in which \<^verbatim>\<open>sort.Slice\<close> may leave entries used at the same time.
\<close>

definition DefaultTTL :: duration where "DefaultTTL = 30 * time_Second"
definition DefaultMaxBytes :: int where "DefaultMaxBytes = 64 * 2 ^ 20"

type_synonym cacheKey = "uuid \<times> uuid"

record cacheEntry =
  ce_snap :: snapshot
  ce_used :: int

record cache =
  c_m :: "(cacheKey, cacheEntry) gomap"
  c_bytes :: int
  c_max :: int

definition newCache :: "int \<Rightarrow> cache" where
  "newCache mx = \<lparr> c_m = [], c_bytes = 0, c_max = (if mx \<le> 0 then DefaultMaxBytes else mx) \<rparr>"

definition cache_get :: "cache \<Rightarrow> cacheKey \<Rightarrow> time \<Rightarrow> snapshot option \<times> cache" where
  "cache_get c k now =
     (case gomap_get (c_m c) k of
        None \<Rightarrow> (None, c)
      | Some en \<Rightarrow>
          if \<not> now < s_validUntil (ce_snap en) then (None, c)
          else (Some (ce_snap en),
                if now - ce_used en > time_Second
                then c\<lparr> c_m := gomap_set k (en\<lparr> ce_used := now \<rparr>) (c_m c) \<rparr> else c))"

text \<open>One pass of the eviction loop. The key was read from the map under the same lock, so the
  entry is there (\<open>evict_victims_in\<close>); the other branch would be the nil dereference.\<close>

definition drop_entry :: "cache \<Rightarrow> cacheKey \<Rightarrow> cache" where
  "drop_entry c k = (case gomap_get (c_m c) k of
       None \<Rightarrow> c
     | Some en \<Rightarrow> c\<lparr> c_bytes := c_bytes c - s_bytes (ce_snap en), c_m := gomap_del k (c_m c) \<rparr>)"

fun evict_loop :: "int \<Rightarrow> cache \<Rightarrow> cacheKey list \<Rightarrow> cache" where
  "evict_loop target c [] = c"
| "evict_loop target c (k # ks) = (if c_bytes c \<le> target then c else evict_loop target (drop_entry c k) ks)"

definition evict_order :: "cache \<Rightarrow> cacheKey \<Rightarrow> cacheKey list" where
  "evict_order c keep =
     map fst (sort_key (\<lambda>kv. ce_used (snd kv)) (filter (\<lambda>kv. fst kv \<noteq> keep) (c_m c)))"

definition evictLocked :: "cache \<Rightarrow> cacheKey \<Rightarrow> cache" where
  "evictLocked c keep = evict_loop (c_max c div 10 * 9) c (evict_order c keep)"

definition cache_put :: "cache \<Rightarrow> cacheKey \<Rightarrow> snapshot \<Rightarrow> time \<Rightarrow> cache" where
  "cache_put c k s now =
     (let old = (case gomap_get (c_m c) k of None \<Rightarrow> 0 | Some en \<Rightarrow> s_bytes (ce_snap en));
          c' = c\<lparr> c_m := gomap_set k \<lparr> ce_snap = s, ce_used = now \<rparr> (c_m c),
                  c_bytes := c_bytes c - old + s_bytes s \<rparr>
      in if c_bytes c' > c_max c' then evictLocked c' k else c')"

definition evict_one :: "(cacheKey \<Rightarrow> bool) \<Rightarrow> cache \<Rightarrow> cacheKey \<times> cacheEntry \<Rightarrow> cache" where
  "evict_one pred c kv = (if pred (fst kv)
     then c\<lparr> c_bytes := c_bytes c - s_bytes (ce_snap (snd kv)), c_m := gomap_del (fst kv) (c_m c) \<rparr> else c)"

definition evictIf :: "(cacheKey \<Rightarrow> bool) \<Rightarrow> cache \<Rightarrow> cache" where
  "evictIf pred c = foldl (evict_one pred) c (c_m c)"

definition cache_len :: "cache \<Rightarrow> nat \<times> int" where
  "cache_len c = (length (c_m c), c_bytes c)"

section \<open>Accounting invariant\<close>

definition total_bytes :: "(cacheKey, cacheEntry) gomap \<Rightarrow> int" where
  "total_bytes m = sum_list (map (\<lambda>kv. s_bytes (ce_snap (snd kv))) m)"

definition cache_wf :: "cache \<Rightarrow> bool" where
  "cache_wf c \<longleftrightarrow> gomap_wf (c_m c) \<and> c_bytes c = total_bytes (c_m c) \<and> c_max c > 0"

lemma total_bytes_del:
  "gomap_wf m \<Longrightarrow> total_bytes (gomap_del k m) =
     total_bytes m - (case gomap_get m k of None \<Rightarrow> 0 | Some en \<Rightarrow> s_bytes (ce_snap en))"
  by (induction m) (auto simp: total_bytes_def delete_id map_of_eq_None_iff split: option.splits)

lemma total_bytes_set:
  "gomap_wf m \<Longrightarrow> total_bytes (gomap_set k en m) =
     total_bytes m - (case gomap_get m k of None \<Rightarrow> 0 | Some en' \<Rightarrow> s_bytes (ce_snap en')) + s_bytes (ce_snap en)"
  by (induction m) (auto simp: total_bytes_def map_of_eq_None_iff split: option.splits)

lemma drop_entry_wf: "cache_wf c \<Longrightarrow> cache_wf (drop_entry c k)"
  by (auto simp: drop_entry_def cache_wf_def total_bytes_del split: option.splits)

lemma drop_entry_get: "gomap_get (c_m (drop_entry c k)) k' = (if k' = k then None else gomap_get (c_m c) k')"
  by (auto simp: drop_entry_def split: option.splits)

lemma drop_entry_max [simp]: "c_max (drop_entry c k) = c_max c"
  by (simp add: drop_entry_def split: option.splits)

lemma evict_loop_inv: "P c \<Longrightarrow> (\<And>c k. P c \<Longrightarrow> P (drop_entry c k)) \<Longrightarrow> P (evict_loop target c ks)"
  by (induction target c ks rule: evict_loop.induct) auto

lemma evict_loop_get:
  "gomap_get (c_m (evict_loop target c ks)) k = gomap_get (c_m c) k \<or>
   (k \<in> set ks \<and> gomap_get (c_m (evict_loop target c ks)) k = None)"
  by (induction target c ks rule: evict_loop.induct) (auto simp: drop_entry_get split: if_splits)

text \<open>The loop stops at the target, or has dropped every key it was given.\<close>

lemma evict_loop_budget:
  "c_bytes (evict_loop target c ks) \<le> target \<or> (\<forall>k \<in> set ks. gomap_get (c_m (evict_loop target c ks)) k = None)"
proof (induction target c ks rule: evict_loop.induct)
  case (2 target c k ks)
  have "gomap_get (c_m (evict_loop target (drop_entry c k) ks)) k = None"
    using evict_loop_get [of target "drop_entry c k" ks k] by (auto simp: drop_entry_get)
  then show ?case using 2 by auto
qed simp

text \<open>A dropped key comes before every key of the list that is kept.\<close>

lemma evict_loop_prefix:
  "distinct ks \<Longrightarrow> i < j \<Longrightarrow> j < length ks \<Longrightarrow> gomap_get (c_m c) (ks ! i) \<noteq> None \<Longrightarrow>
   gomap_get (c_m (evict_loop target c ks)) (ks ! i) \<noteq> None \<Longrightarrow>
   gomap_get (c_m (evict_loop target c ks)) (ks ! j) = gomap_get (c_m c) (ks ! j)"
proof (induction target c ks arbitrary: i j rule: evict_loop.induct)
  case (2 target c k ks)
  show ?case
  proof (cases "c_bytes c \<le> target")
    case False
    show ?thesis
    proof (cases i)
      case 0
      then have "gomap_get (c_m (evict_loop target (drop_entry c k) ks)) k \<noteq> None" using 2 False by simp
      moreover have "gomap_get (c_m (evict_loop target (drop_entry c k) ks)) k = None"
        using evict_loop_get [of target "drop_entry c k" ks k] by (auto simp: drop_entry_get)
      ultimately show ?thesis by blast
    next
      case (Suc i')
      then obtain j' where j: "j = Suc j'" using 2(3) by (cases j) auto
      have ne: "ks ! i' \<noteq> k" "ks ! j' \<noteq> k" using 2 Suc j by (auto simp: in_set_conv_nth)
      then show ?thesis using 2(1) [OF False, of i' j'] 2(2-) Suc j False by (simp add: drop_entry_get)
    qed
  qed simp
qed simp

lemma evict_order_set: "set (evict_order c keep) = fst ` set (c_m c) - {keep}"
  by (auto simp: evict_order_def)

lemma evict_order_distinct: "gomap_wf (c_m c) \<Longrightarrow> distinct (evict_order c keep)"
  by (auto simp: evict_order_def distinct_map intro: inj_on_subset)

lemma evict_order_sorted:
  assumes wf: "gomap_wf (c_m c)" and ij: "i < j" "j < length (evict_order c keep)"
    and "gomap_get (c_m c) (evict_order c keep ! i) = Some en"
    and "gomap_get (c_m c) (evict_order c keep ! j) = Some en'"
  shows "ce_used en \<le> ce_used en'"
proof -
  define kvs where "kvs = sort_key (\<lambda>kv. ce_used (snd kv)) (filter (\<lambda>kv. fst kv \<noteq> keep) (c_m c))"
  have ord: "evict_order c keep = map fst kvs" by (simp add: evict_order_def kvs_def)
  have sub: "set kvs \<subseteq> set (c_m c)" by (auto simp: kvs_def)
  have at: "snd (kvs ! n) = e" if n: "n < length kvs" and g: "gomap_get (c_m c) (evict_order c keep ! n) = Some e" for n e
  proof -
    have "(fst (kvs ! n), snd (kvs ! n)) \<in> set (c_m c)" using n sub nth_mem by fastforce
    then have "gomap_get (c_m c) (fst (kvs ! n)) = Some (snd (kvs ! n))" by (rule map_of_is_SomeI [OF wf])
    then show ?thesis using n g by (simp add: ord)
  qed
  have "sorted (map (\<lambda>kv. ce_used (snd kv)) kvs)" unfolding kvs_def by (rule sorted_sort_key)
  then have "ce_used (snd (kvs ! i)) \<le> ce_used (snd (kvs ! j))"
    using ij by (auto simp: sorted_iff_nth_mono_less ord)
  then show ?thesis using at [of i en] at [of j en'] assms by (simp add: ord)
qed

lemma evictLocked_wf: "cache_wf c \<Longrightarrow> cache_wf (evictLocked c k)"
  unfolding evictLocked_def by (rule evict_loop_inv) (auto intro: drop_entry_wf)

lemma put_base_wf:
  assumes "cache_wf c"
  shows "cache_wf (c\<lparr> c_m := gomap_set k \<lparr> ce_snap = s, ce_used = now \<rparr> (c_m c),
     c_bytes := c_bytes c - (case gomap_get (c_m c) k of None \<Rightarrow> 0 | Some en \<Rightarrow> s_bytes (ce_snap en)) + s_bytes s \<rparr>)"
  using assms by (simp add: cache_wf_def total_bytes_set)

lemma cache_put_wf: "cache_wf c \<Longrightarrow> cache_wf (cache_put c k s now)"
  unfolding cache_put_def Let_def by (auto intro!: evictLocked_wf put_base_wf)

lemma total_bytes_touch:
  "gomap_wf m \<Longrightarrow> gomap_get m k = Some en \<Longrightarrow> total_bytes (gomap_set k (en\<lparr> ce_used := n \<rparr>) m) = total_bytes m"
  by (simp add: total_bytes_set)

lemma cache_get_wf: "cache_wf c \<Longrightarrow> cache_wf (snd (cache_get c k now))"
  by (auto simp: cache_get_def cache_wf_def total_bytes_touch split: option.splits)

lemma evictIf_step:
  assumes "cache_wf c0" "set kvs \<subseteq> set (c_m c0)" "distinct (map fst kvs)"
  shows "cache_wf (foldl (evict_one pred) c0 kvs) \<and>
     (\<forall>k. gomap_get (c_m (foldl (evict_one pred) c0 kvs)) k =
        (if pred k \<and> k \<in> fst ` set kvs then None else gomap_get (c_m c0) k))"
  using assms
proof (induction kvs arbitrary: c0)
  case (Cons kv kvs)
  let ?c1 = "evict_one pred c0 kv"
  have mwf: "gomap_wf (c_m c0)" using Cons.prems(1) by (simp add: cache_wf_def)
  have "(fst kv, snd kv) \<in> set (c_m c0)" using Cons.prems(2) by simp
  then have g: "gomap_get (c_m c0) (fst kv) = Some (snd kv)" by (rule map_of_is_SomeI [OF mwf])
  have wf: "cache_wf ?c1" using Cons.prems(1) by (simp add: evict_one_def cache_wf_def total_bytes_del g)
  have "x \<in> set (c_m ?c1)" if x: "x \<in> set kvs" for x
  proof -
    have "fst x \<noteq> fst kv" "x \<in> set (c_m c0)" using Cons.prems x by (auto simp: image_iff)
    then show ?thesis by (simp add: evict_one_def AList.delete_eq case_prod_unfold)
  qed
  then have "set kvs \<subseteq> set (c_m ?c1)" by blast
  from Cons.IH [OF wf this] Cons.prems(3) show ?case by (auto simp: evict_one_def)
qed simp

lemma evictIf_wf: "cache_wf c \<Longrightarrow> cache_wf (evictIf pred c)"
  unfolding evictIf_def using evictIf_step [of c "c_m c" pred] by (simp add: cache_wf_def)

lemma evictIf_get:
  assumes wf: "cache_wf c"
  shows "gomap_get (c_m (evictIf pred c)) k = (if pred k then None else gomap_get (c_m c) k)"
proof -
  have "distinct (map fst (c_m c))" using wf by (simp add: cache_wf_def)
  then have "gomap_get (c_m (evictIf pred c)) k = (if pred k \<and> k \<in> fst ` set (c_m c) then None else gomap_get (c_m c) k)"
    unfolding evictIf_def using evictIf_step [OF wf subset_refl, of pred] by blast
  then show ?thesis by (cases "k \<in> fst ` set (c_m c)") (simp_all add: map_of_eq_None_iff)
qed

lemma evict_budget:
  assumes "cache_wf c"
  shows "c_bytes (evictLocked c keep) \<le> c_max c \<or> (\<forall>k. k \<noteq> keep \<longrightarrow> gomap_get (c_m (evictLocked c keep)) k = None)"
proof (cases "c_bytes (evictLocked c keep) \<le> c_max c div 10 * 9")
  case True
  have "0 < c_max c" using assms by (simp add: cache_wf_def)
  then have "c_max c div 10 * 9 \<le> c_max c" by presburger
  then show ?thesis using True by linarith
next
  case False
  then have gone: "\<forall>k \<in> set (evict_order c keep). gomap_get (c_m (evictLocked c keep)) k = None"
    using evict_loop_budget [of "c_max c div 10 * 9" c "evict_order c keep"] by (auto simp: evictLocked_def)
  have "gomap_get (c_m (evictLocked c keep)) k = None" if k: "k \<noteq> keep" for k
  proof (cases "gomap_get (c_m c) k")
    case None
    then show ?thesis using evict_loop_get [of "c_max c div 10 * 9" c "evict_order c keep" k] by (auto simp: evictLocked_def)
  next
    case (Some en)
    then have "k \<in> set (evict_order c keep)" using k by (auto simp: evict_order_set dest: map_of_SomeD intro: rev_image_eqI)
    then show ?thesis using gone by blast
  qed
  then show ?thesis by blast
qed

lemma evict_lru:
  assumes wf: "cache_wf c" and k1: "gomap_get (c_m c) k1 = Some en1" "k1 \<noteq> keep" and k2: "gomap_get (c_m c) k2 = Some en2" "k2 \<noteq> keep"
    and "gomap_get (c_m (evictLocked c keep)) k1 = None" and "gomap_get (c_m (evictLocked c keep)) k2 \<noteq> None"
  shows "ce_used en1 \<le> ce_used en2"
proof -
  let ?ks = "evict_order c keep"
  have mwf: "gomap_wf (c_m c)" using wf by (simp add: cache_wf_def)
  have "k1 \<in> set ?ks" "k2 \<in> set ?ks"
    using k1 k2 by (auto simp: evict_order_set dest: map_of_SomeD intro: rev_image_eqI)
  then obtain i j where i: "i < length ?ks" "?ks ! i = k1" and j: "j < length ?ks" "?ks ! j = k2"
    by (auto simp: in_set_conv_nth)
  have "\<not> j < i"
    using evict_loop_prefix [OF evict_order_distinct [OF mwf], of j i keep c "c_max c div 10 * 9"] i j k1 k2 assms(6,7)
    by (auto simp: evictLocked_def)
  moreover have "i \<noteq> j" using i j assms(6,7) by auto
  ultimately have "i < j" by linarith
  then show ?thesis using evict_order_sorted [OF mwf, of i j keep] i j k1 k2 by auto
qed

section \<open>The contract of a snapshot cache\<close>

text \<open>
  What a client may rely on: an entry just put is found, the others are unchanged or gone, an eviction
  removes exactly the selected keys, and a lookup changes no entry.
\<close>

locale snapshot_cache =
  fixes inv :: "'c \<Rightarrow> bool"
    and lookup :: "'c \<Rightarrow> 'k \<Rightarrow> 's option"
    and put :: "'c \<Rightarrow> 'k \<Rightarrow> 's \<Rightarrow> time \<Rightarrow> 'c"
    and evict :: "('k \<Rightarrow> bool) \<Rightarrow> 'c \<Rightarrow> 'c"
    and touch :: "'c \<Rightarrow> 'k \<Rightarrow> time \<Rightarrow> 'c"
  assumes inv_put: "inv c \<Longrightarrow> inv (put c k s now)"
    and inv_evict: "inv c \<Longrightarrow> inv (evict p c)"
    and inv_touch: "inv c \<Longrightarrow> inv (touch c k now)"
    and lookup_put_same: "inv c \<Longrightarrow> lookup (put c k s now) k = Some s"
    and lookup_put_other: "inv c \<Longrightarrow> k' \<noteq> k \<Longrightarrow> lookup (put c k s now) k' = Some s' \<Longrightarrow> lookup c k' = Some s'"
    and lookup_evict: "inv c \<Longrightarrow> lookup (evict p c) k = (if p k then None else lookup c k)"
    and lookup_touch: "inv c \<Longrightarrow> lookup (touch c k now) k' = lookup c k'"
begin

definition holds :: "('k \<Rightarrow> 's \<Rightarrow> bool) \<Rightarrow> 'c \<Rightarrow> bool" where
  "holds P c \<longleftrightarrow> (\<forall>k s. lookup c k = Some s \<longrightarrow> P k s)"

lemma holdsD: "holds P c \<Longrightarrow> lookup c k = Some s \<Longrightarrow> P k s"
  by (simp add: holds_def)

lemma holds_mono: "holds P c \<Longrightarrow> (\<And>k s. P k s \<Longrightarrow> Q k s) \<Longrightarrow> holds Q c"
  by (simp add: holds_def)

lemma holds_put: "inv c \<Longrightarrow> holds P c \<Longrightarrow> P k s \<Longrightarrow> holds P (put c k s now)"
  unfolding holds_def by (metis lookup_put_same lookup_put_other option.inject)

lemma holds_evict: "inv c \<Longrightarrow> holds P c \<Longrightarrow> holds P (evict p c)"
  by (simp add: holds_def lookup_evict)

lemma holds_touch: "inv c \<Longrightarrow> holds P c \<Longrightarrow> holds P (touch c k now)"
  by (simp add: holds_def lookup_touch)

lemma holds_evicted: "inv c \<Longrightarrow> holds P c \<Longrightarrow> holds (\<lambda>k s. P k s \<and> \<not> p k) (evict p c)"
  by (simp add: holds_def lookup_evict)

end

definition cache_lookup :: "cache \<Rightarrow> cacheKey \<Rightarrow> snapshot option" where
  "cache_lookup c k = map_option ce_snap (gomap_get (c_m c) k)"

definition cache_touch :: "cache \<Rightarrow> cacheKey \<Rightarrow> time \<Rightarrow> cache" where
  "cache_touch c k now = snd (cache_get c k now)"

lemma cache_get_lookup:
  "fst (cache_get c k now) = (case cache_lookup c k of
     Some s \<Rightarrow> if now < s_validUntil s then Some s else None | None \<Rightarrow> None)"
  by (simp add: cache_get_def cache_lookup_def split: option.splits)

lemma evictLocked_lookup:
  "gomap_get (c_m (evictLocked c keep)) k = gomap_get (c_m c) k \<or>
   (k \<noteq> keep \<and> gomap_get (c_m (evictLocked c keep)) k = None)"
  using evict_loop_get [of "c_max c div 10 * 9" c "evict_order c keep" k] evict_order_set [of c keep]
  by (auto simp: evictLocked_def)

lemma put_get:
  "gomap_get (c_m (cache_put c k s now)) k = Some \<lparr> ce_snap = s, ce_used = now \<rparr>"
  "k' \<noteq> k \<Longrightarrow> gomap_get (c_m (cache_put c k s now)) k' = gomap_get (c_m c) k' \<or>
              gomap_get (c_m (cache_put c k s now)) k' = None"
proof -
  let ?c = "c\<lparr> c_m := gomap_set k \<lparr> ce_snap = s, ce_used = now \<rparr> (c_m c),
     c_bytes := c_bytes c - (case gomap_get (c_m c) k of None \<Rightarrow> 0 | Some en \<Rightarrow> s_bytes (ce_snap en)) + s_bytes s \<rparr>"
  have put: "cache_put c k s now = ?c \<or> cache_put c k s now = evictLocked ?c k"
    by (simp add: cache_put_def Let_def)
  show "gomap_get (c_m (cache_put c k s now)) k = Some \<lparr> ce_snap = s, ce_used = now \<rparr>"
    using put evictLocked_lookup [of ?c k k] by auto
  show "gomap_get (c_m (cache_put c k s now)) k' = gomap_get (c_m c) k' \<or>
        gomap_get (c_m (cache_put c k s now)) k' = None" if "k' \<noteq> k"
    using put evictLocked_lookup [of ?c k k'] that by auto
qed

interpretation sc: snapshot_cache cache_wf cache_lookup cache_put evictIf cache_touch
proof unfold_locales
  fix c :: cache and k k' :: cacheKey and s s' :: snapshot and now :: time and p :: "cacheKey \<Rightarrow> bool"
  assume wf: "cache_wf c"
  show "cache_wf (cache_put c k s now)" "cache_wf (evictIf p c)" "cache_wf (cache_touch c k now)"
    using wf by (simp_all add: cache_put_wf evictIf_wf cache_touch_def cache_get_wf)
  show "cache_lookup (cache_put c k s now) k = Some s" by (simp add: cache_lookup_def put_get)
  show "cache_lookup c k' = Some s'" if "k' \<noteq> k" "cache_lookup (cache_put c k s now) k' = Some s'"
    using put_get(2) [OF that(1), of c s now] that(2) by (auto simp: cache_lookup_def)
  show "cache_lookup (evictIf p c) k = (if p k then None else cache_lookup c k)"
    using wf by (simp add: cache_lookup_def evictIf_get)
  show "cache_lookup (cache_touch c k now) k' = cache_lookup c k'"
    by (auto simp: cache_touch_def cache_get_def cache_lookup_def split: option.splits)
qed

section \<open>Properties\<close>

text \<open>
  Every cache operation keeps the accounting: keys are unique and \<^verbatim>\<open>bytes\<close> is the sum
  of the sizes of the cached snapshots; the empty cache satisfies it.
\<close>

theorem cache_accounting:
  "cache_wf (newCache n) \<and>
   (cache_wf c \<longrightarrow> cache_wf (cache_put c k s now) \<and> cache_wf (evictIf pred c) \<and> cache_wf (snd (cache_get c k now)))"
proof
  show "cache_wf (newCache n)" by (simp add: newCache_def cache_wf_def total_bytes_def DefaultMaxBytes_def)
qed (simp add: cache_put_wf evictIf_wf cache_get_wf)

definition ex_cache :: cache where
  "ex_cache = cache_put (newCache 1000) (5, 1) (compile 5 1 zero_AccessData 50 300) 50"

lemma ex_cache_wf: "cache_wf ex_cache"
  unfolding ex_cache_def by (rule cache_put_wf) (simp add: newCache_def cache_wf_def total_bytes_def)

theorem cache_accounting_witness:
  "cache_wf ex_cache \<and> cache_wf (cache_put ex_cache (6, 1) (compile 6 1 zero_AccessData 60 300) 60)"
  using cache_accounting [of 0 ex_cache "(6, 1)" "compile 6 1 zero_AccessData 60 300" 60] ex_cache_wf by blast

text \<open>
  C37 (bounds). From a cache whose keys are unique and whose counter is the sum of the entry sizes (the
  state every operation keeps), a \<^verbatim>\<open>put\<close> leaves a cache whose entries together take no more than the
  budget, unless it holds nothing but the entry just put; the counter is again that sum, the entry just
  put is there, no other entry is new or changed, and eviction is least recently used first: when an
  entry was dropped, every other entry kept was used at the same time or later.
\<close>

theorem cache_put_budget:
  assumes wf: "cache_wf c"
  shows "(sum_list (map (\<lambda>kv. s_bytes (ce_snap (snd kv))) (c_m (cache_put c k s now))) \<le> c_max c \<or>
        (\<forall>k'. k' \<noteq> k \<longrightarrow> cache_lookup (cache_put c k s now) k' = None)) \<and>
     c_bytes (cache_put c k s now) = sum_list (map (\<lambda>kv. s_bytes (ce_snap (snd kv))) (c_m (cache_put c k s now))) \<and>
     cache_lookup (cache_put c k s now) k = Some s \<and>
     (\<forall>k' s'. k' \<noteq> k \<and> cache_lookup (cache_put c k s now) k' = Some s' \<longrightarrow> cache_lookup c k' = Some s') \<and>
     (gomap_get (c_m c) k1 = Some en1 \<longrightarrow> gomap_get (c_m c) k2 = Some en2 \<longrightarrow> k1 \<noteq> k \<longrightarrow> k2 \<noteq> k \<longrightarrow>
         cache_lookup (cache_put c k s now) k1 = None \<longrightarrow> cache_lookup (cache_put c k s now) k2 \<noteq> None \<longrightarrow>
         ce_used en1 \<le> ce_used en2)"
proof (intro conjI impI)
  let ?c = "c\<lparr> c_m := gomap_set k \<lparr> ce_snap = s, ce_used = now \<rparr> (c_m c),
     c_bytes := c_bytes c - (case gomap_get (c_m c) k of None \<Rightarrow> 0 | Some en \<Rightarrow> s_bytes (ce_snap en)) + s_bytes s \<rparr>"
  have put: "cache_put c k s now = (if c_bytes ?c > c_max c then evictLocked ?c k else ?c)"
    by (simp add: cache_put_def Let_def)
  have wf': "cache_wf ?c" by (rule put_base_wf [OF wf])
  note budget = evict_budget [OF wf', of k]
  show bytes: "c_bytes (cache_put c k s now) = sum_list (map (\<lambda>kv. s_bytes (ce_snap (snd kv))) (c_m (cache_put c k s now)))"
    using cache_put_wf [OF wf] by (simp add: cache_wf_def total_bytes_def)
  have "c_bytes (cache_put c k s now) \<le> c_max c \<or> (\<forall>k'. k' \<noteq> k \<longrightarrow> cache_lookup (cache_put c k s now) k' = None)"
    using budget by (auto simp: put cache_lookup_def)
  then show "sum_list (map (\<lambda>kv. s_bytes (ce_snap (snd kv))) (c_m (cache_put c k s now))) \<le> c_max c \<or>
        (\<forall>k'. k' \<noteq> k \<longrightarrow> cache_lookup (cache_put c k s now) k' = None)"
    unfolding bytes .
  show "\<forall>k' s'. k' \<noteq> k \<and> cache_lookup (cache_put c k s now) k' = Some s' \<longrightarrow> cache_lookup c k' = Some s'"
    using sc.lookup_put_other [OF wf] by blast
  show "cache_lookup (cache_put c k s now) k = Some s" by (rule sc.lookup_put_same [OF wf])
  show "ce_used en1 \<le> ce_used en2"
    if "gomap_get (c_m c) k1 = Some en1" "gomap_get (c_m c) k2 = Some en2" "k1 \<noteq> k" "k2 \<noteq> k"
      "cache_lookup (cache_put c k s now) k1 = None" "cache_lookup (cache_put c k s now) k2 \<noteq> None"
  proof -
    have "gomap_get (c_m (evictLocked ?c k)) k1 = None" "gomap_get (c_m (evictLocked ?c k)) k2 \<noteq> None"
      using that by (auto simp: put cache_lookup_def split: if_splits)
    then show ?thesis using evict_lru [OF wf', of k1 en1 k k2 en2] that by simp
  qed
qed

theorem cache_put_budget_witness:
  "cache_wf ex_cache \<and> cache_lookup (cache_put ex_cache (6, 1) (compile 6 1 zero_AccessData 60 300) 60) (6, 1) =
     Some (compile 6 1 zero_AccessData 60 300)"
  using cache_put_budget [OF ex_cache_wf, of "(6, 1)" "compile 6 1 zero_AccessData 60 300" 60] ex_cache_wf by blast

end
