(* ===== verification/Engine.thy ===== *)
theory Engine
  imports Engine_Cache Explain
begin

text \<open>
  The permission engine (\<^verbatim>\<open>internal/authz/engine/engine.go\<close>, and \<^verbatim>\<open>Explain\<close> of \<^verbatim>\<open>explain.go\<close>). Two views of
  the same code:

  \<^item> one call as a function on the engine state, run by one goroutine; the \<^verbatim>\<open>Store\<close> interface is the
    record \<open>Store\<close>, an argument of every operation, and \<open>st_wait\<close> is what the \<^verbatim>\<open>select\<close> of a caller
    that joins a load in flight yields;
  \<^item> the goroutines of \<^verbatim>\<open>compileNow\<close> and \<^verbatim>\<open>Invalidate\<close> as a step relation on a shared state, one step
    per atomic access (the atomic counter, the store query, the locked cache operations), for what
    depends on their interleaving.
\<close>

type_synonym 'a res = "string + 'a"

record Store =
  st_LoadAccess :: "cacheKey \<Rightarrow> AccessData option res"
  st_Epochs :: "cacheKey \<Rightarrow> Epochs res"
  st_wait :: "cacheKey \<Rightarrow> snapshot res"

record Engine =
  e_ttl :: duration
  e_cache :: cache
  e_invGen :: "64 word"
  e_inflight :: "(cacheKey, nat) gomap"
  e_hits :: "64 word"
  e_misses :: "64 word"
  e_compiles :: "64 word"
  e_strictReloads :: "64 word"
  e_strictChecks :: "64 word"

definition New :: "duration \<Rightarrow> int \<Rightarrow> Engine" where
  "New ttl maxBytes = \<lparr> e_ttl = (if ttl \<le> 0 then DefaultTTL else ttl), e_cache = newCache maxBytes,
     e_invGen = 0, e_inflight = [], e_hits = 0, e_misses = 0, e_compiles = 0, e_strictReloads = 0, e_strictChecks = 0 \<rparr>"

record Target =
  tg_Org :: uuid
  tg_User :: uuid

text \<open>The predicate \<^verbatim>\<open>Invalidate\<close> hands to \<^verbatim>\<open>evictIf\<close>; a key is (user, organization).\<close>

definition selects :: "Target \<Rightarrow> cacheKey \<Rightarrow> bool" where
  "selects t k =
     (if tg_Org t \<noteq> uuid_Nil \<and> tg_User t \<noteq> uuid_Nil then snd k = tg_Org t \<or> fst k = tg_User t
      else if tg_Org t \<noteq> uuid_Nil then snd k = tg_Org t
      else if tg_User t \<noteq> uuid_Nil then fst k = tg_User t
      else True)"

definition Invalidate :: "Target \<Rightarrow> Engine \<Rightarrow> Engine" where
  "Invalidate t e = e\<lparr> e_invGen := e_invGen e + 1, e_inflight := [], e_cache := evictIf (selects t) (e_cache e) \<rparr>"

definition InvalidateOrg :: "uuid \<Rightarrow> Engine \<Rightarrow> Engine" where
  "InvalidateOrg g = Invalidate \<lparr> tg_Org = g, tg_User = uuid_Nil \<rparr>"

definition InvalidateUser :: "uuid \<Rightarrow> Engine \<Rightarrow> Engine" where
  "InvalidateUser u = Invalidate \<lparr> tg_Org = uuid_Nil, tg_User = u \<rparr>"

text \<open>A nil \<^verbatim>\<open>*AccessData\<close> stands for a non-member.\<close>

definition or_zero :: "AccessData option \<Rightarrow> AccessData" where
  "or_zero d = (case d of None \<Rightarrow> zero_AccessData | Some d \<Rightarrow> d)"

text \<open>The generation is read before the load and compared after it; one goroutine alone sees no change.\<close>

definition compileNow :: "Store \<Rightarrow> Engine \<Rightarrow> cacheKey \<Rightarrow> time \<Rightarrow> snapshot res \<times> Engine" where
  "compileNow st e k now =
     (let gen = e_invGen e in
      case st_LoadAccess st k of
        Inl err \<Rightarrow> (Inl err, e)
      | Inr d \<Rightarrow>
          let e1 = e\<lparr> e_compiles := e_compiles e + 1 \<rparr>;
              s = compile (fst k) (snd k) (or_zero d) now (e_ttl e1)
          in (Inr s, if e_invGen e1 = gen then e1\<lparr> e_cache := cache_put (e_cache e1) k s now \<rparr> else e1))"

definition loadShared :: "Store \<Rightarrow> Engine \<Rightarrow> cacheKey \<Rightarrow> time \<Rightarrow> snapshot res \<times> Engine" where
  "loadShared st e k now =
     (case gomap_get (e_inflight e) k of
        Some f \<Rightarrow> (st_wait st k, e)
      | None \<Rightarrow>
          let (r, e1) = compileNow st (e\<lparr> e_inflight := gomap_set k 0 (e_inflight e) \<rparr>) k now
          in (r, e1\<lparr> e_inflight := gomap_del k (e_inflight e1) \<rparr>))"

definition engine_snapshot :: "Store \<Rightarrow> Engine \<Rightarrow> cacheKey \<Rightarrow> bool \<Rightarrow> time \<Rightarrow> snapshot res \<times> Engine" where
  "engine_snapshot st e k strict now =
     (let (hit, c) = cache_get (e_cache e) k now; e0 = e\<lparr> e_cache := c \<rparr> in
      case hit of
        Some s \<Rightarrow>
          let e1 = e0\<lparr> e_hits := e_hits e0 + 1 \<rparr> in
          if \<not> strict then (Inr s, e1)
          else
            let e2 = e1\<lparr> e_strictChecks := e_strictChecks e1 + 1 \<rparr> in
            (case st_Epochs st k of
               Inl err \<Rightarrow> (Inl err, e2)
             | Inr ep \<Rightarrow>
                 if ep = s_epochs s then (Inr s, e2)
                 else compileNow st (e2\<lparr> e_strictReloads := e_strictReloads e2 + 1 \<rparr>) k now)
      | None \<Rightarrow>
          let e1 = e0\<lparr> e_misses := e_misses e0 + 1 \<rparr> in
          if strict then compileNow st e1 k now else loadShared st e1 k now)"

section \<open>Decisions\<close>

text \<open>Every decision takes a snapshot and reads it; an error of the store is passed on.\<close>

definition with_snapshot ::
  "Store \<Rightarrow> Engine \<Rightarrow> cacheKey \<Rightarrow> bool \<Rightarrow> time \<Rightarrow> (snapshot \<Rightarrow> 'a) \<Rightarrow> 'a res \<times> Engine" where
  "with_snapshot st e k strict now f =
     (let (r, e') = engine_snapshot st e k strict now in
      (case r of Inl err \<Rightarrow> Inl err | Inr s \<Rightarrow> Inr (f s), e'))"

definition effective :: "Store \<Rightarrow> Engine \<Rightarrow> cacheKey \<Rightarrow> EScope \<Rightarrow> bool \<Rightarrow> time \<Rightarrow> (Access \<times> pset) res \<times> Engine" where
  "effective st e k sc strict now = with_snapshot st e k strict now
     (\<lambda>s. let (st, own, hidden) = scopeSet s sc in (access s sc st own hidden, st))"

definition Effective :: "Store \<Rightarrow> Engine \<Rightarrow> cacheKey \<Rightarrow> EScope \<Rightarrow> time \<Rightarrow> (Access \<times> pset) res \<times> Engine" where
  "Effective st e k sc now = effective st e k sc False now"

definition EffectiveStrict :: "Store \<Rightarrow> Engine \<Rightarrow> cacheKey \<Rightarrow> EScope \<Rightarrow> time \<Rightarrow> (Access \<times> pset) res \<times> Engine" where
  "EffectiveStrict st e k sc now = effective st e k sc True now"

definition Can :: "Store \<Rightarrow> Engine \<Rightarrow> cacheKey \<Rightarrow> EScope \<Rightarrow> string \<Rightarrow> time \<Rightarrow> bool res \<times> Engine" where
  "Can st e k sc perm now =
     (case Bit_of perm of
        None \<Rightarrow> (Inr False, e)
      | Some b \<Rightarrow> with_snapshot st e k (sensitives b) now (\<lambda>s. snapshot_has s sc b))"

definition CanStrict :: "Store \<Rightarrow> Engine \<Rightarrow> cacheKey \<Rightarrow> EScope \<Rightarrow> string \<Rightarrow> time \<Rightarrow> bool res \<times> Engine" where
  "CanStrict st e k sc perm now =
     (case Bit_of perm of
        None \<Rightarrow> (Inr False, e)
      | Some b \<Rightarrow> with_snapshot st e k True now (\<lambda>s. snapshot_has s sc b))"

text \<open>The loop over the requested permissions: \<open>None\<close> when one is unknown.\<close>

fun CanAll_loop :: "pset \<Rightarrow> bool \<Rightarrow> string list \<Rightarrow> (pset \<times> bool) option" where
  "CanAll_loop want strict [] = Some (want, strict)"
| "CanAll_loop want strict (p # ps) =
     (case Bit_of p of
        None \<Rightarrow> None
      | Some b \<Rightarrow> CanAll_loop (Union want (NewSet [p])) (strict \<or> sensitives b) ps)"

definition CanAll :: "Store \<Rightarrow> Engine \<Rightarrow> cacheKey \<Rightarrow> EScope \<Rightarrow> string list \<Rightarrow> time \<Rightarrow> bool res \<times> Engine" where
  "CanAll st e k sc ps now =
     (if ps = [] then (Inr False, e)
      else case CanAll_loop empty_set False ps of
             None \<Rightarrow> (Inr False, e)
           | Some (want, strict) \<Rightarrow> with_snapshot st e k strict now (\<lambda>s. ContainsAll (fst (scopeSet s sc)) want))"

text \<open>The projects are given by their identifiers, the only field the filter reads.\<close>

definition FilterProjects :: "Store \<Rightarrow> Engine \<Rightarrow> cacheKey \<Rightarrow> uuid list \<Rightarrow> time \<Rightarrow> uuid list res \<times> Engine" where
  "FilterProjects st e k projects now = with_snapshot st e k False now (\<lambda>s. filter (visible s) projects)"

definition Visibility :: "Store \<Rightarrow> Engine \<Rightarrow> cacheKey \<Rightarrow> time \<Rightarrow> (uuid \<Rightarrow> bool) res \<times> Engine" where
  "Visibility st e k now = with_snapshot st e k False now visible"

definition Explain :: "Store \<Rightarrow> Engine \<Rightarrow> cacheKey \<Rightarrow> EScope \<Rightarrow> string \<Rightarrow> time \<Rightarrow> Decision res \<times> Engine" where
  "Explain st e k sc perm now =
     (case Bit_of perm of
        None \<Rightarrow> (Inr (new_Decision perm sc), e)
      | Some b \<Rightarrow> with_snapshot st e k (sensitives b) now
          (\<lambda>s. explain_snapshot s sc b ((new_Decision perm sc)\<lparr> dc_Strict := sensitives b \<rparr>)))"

section \<open>Invariant of the engine\<close>

text \<open>
  A cached snapshot is the compilation of some data of its key at an instant not in the future. Under
  the epoch discipline of the store (every write that changes what \<^verbatim>\<open>LoadAccess\<close> returns bumps an
  epoch), a cached snapshot whose epochs are the current ones was compiled from the current data:
  that is \<open>coherent\<close>.
\<close>

definition compiled_from :: "duration \<Rightarrow> time \<Rightarrow> cacheKey \<Rightarrow> snapshot \<Rightarrow> bool" where
  "compiled_from ttl now k s \<longleftrightarrow>
     s = compile (fst k) (snd k) (s_data s) (s_compiled s) ttl \<and> s_compiled s \<le> now"

definition engine_wf :: "Engine \<Rightarrow> time \<Rightarrow> bool" where
  "engine_wf e now \<longleftrightarrow> cache_wf (e_cache e) \<and> sc.holds (compiled_from (e_ttl e) now) (e_cache e)"

definition coherent :: "Store \<Rightarrow> Engine \<Rightarrow> cacheKey \<Rightarrow> bool" where
  "coherent st e k \<longleftrightarrow> (\<forall>s ep. cache_lookup (e_cache e) k = Some s \<longrightarrow> st_Epochs st k = Inr ep \<longrightarrow>
     s_epochs s = ep \<longrightarrow> map_sum id or_zero (st_LoadAccess st k) = Inr (s_data s))"

lemma compiled_from_mono: "compiled_from ttl now k s \<Longrightarrow> now \<le> now' \<Longrightarrow> compiled_from ttl now' k s"
  by (simp add: compiled_from_def)

lemma engine_wf_later: "engine_wf e now \<Longrightarrow> now \<le> now' \<Longrightarrow> engine_wf e now'"
  unfolding engine_wf_def by (blast intro: sc.holds_mono compiled_from_mono)

lemma compiled_from_compile: "compiled_from ttl now k (compile (fst k) (snd k) d now ttl)"
  by (simp add: compiled_from_def)

lemma compileNow_wf:
  "engine_wf e now \<Longrightarrow> engine_wf (snd (compileNow st e k now)) now"
  by (auto simp: engine_wf_def compileNow_def Let_def sc.inv_put compiled_from_compile intro!: sc.holds_put split: sum.splits)

lemma compileNow_ttl [simp]: "e_ttl (snd (compileNow st e k now)) = e_ttl e"
  by (simp add: compileNow_def Let_def split: sum.splits)

lemma loadShared_ttl [simp]: "e_ttl (snd (loadShared st e k now)) = e_ttl e"
  using compileNow_ttl [of st "e\<lparr> e_inflight := gomap_set k 0 (e_inflight e) \<rparr>" k now]
  by (simp add: loadShared_def case_prod_unfold Let_def split: option.splits)

lemma loadShared_wf:
  assumes wf: "engine_wf e now"
  shows "engine_wf (snd (loadShared st e k now)) now"
proof (cases "gomap_get (e_inflight e) k")
  case None
  let ?e = "e\<lparr> e_inflight := gomap_set k 0 (e_inflight e) \<rparr>"
  have "engine_wf (snd (compileNow st ?e k now)) now"
    by (rule compileNow_wf) (use wf in \<open>simp add: engine_wf_def\<close>)
  then show ?thesis using None by (simp add: loadShared_def engine_wf_def case_prod_unfold Let_def)
next
  case (Some f)
  then show ?thesis using wf by (simp add: loadShared_def)
qed

lemma engine_wf_touch:
  "engine_wf e now \<Longrightarrow> e_cache e1 = cache_touch (e_cache e) k t \<Longrightarrow> e_ttl e1 = e_ttl e \<Longrightarrow> engine_wf e1 now"
  by (simp add: engine_wf_def sc.inv_touch sc.holds_touch)

text \<open>The outcomes of the lookup: a valid cached snapshot (on the strict path with the current epochs),
  an error of the epoch query, or a load, from a state in which only counters and use times moved.\<close>

lemma engine_snapshot_cases:
  obtains (hit) s e1 where "cache_lookup (e_cache e) k = Some s" "now < s_validUntil s"
      "strict \<longrightarrow> st_Epochs st k = Inr (s_epochs s)" "engine_snapshot st e k strict now = (Inr s, e1)"
      "e_cache e1 = cache_touch (e_cache e) k now" "e_ttl e1 = e_ttl e" "e_inflight e1 = e_inflight e"
  | (epoch_error) err e1 where "cache_lookup (e_cache e) k \<noteq> None" "strict" "st_Epochs st k = Inl err" "engine_snapshot st e k strict now = (Inl err, e1)"
      "e_cache e1 = cache_touch (e_cache e) k now" "e_ttl e1 = e_ttl e" "e_inflight e1 = e_inflight e"
  | (strict_load) e1 where "strict" "engine_snapshot st e k strict now = compileNow st e1 k now"
      "e_cache e1 = cache_touch (e_cache e) k now" "e_ttl e1 = e_ttl e" "e_inflight e1 = e_inflight e"
  | (shared_load) e1 where "\<not> strict" "engine_snapshot st e k strict now = loadShared st e1 k now"
      "e_cache e1 = cache_touch (e_cache e) k now" "e_ttl e1 = e_ttl e" "e_inflight e1 = e_inflight e"
proof (cases "fst (cache_get (e_cache e) k now)")
  case None
  then obtain e1 where "engine_snapshot st e k strict now = (if strict then compileNow st e1 k now else loadShared st e1 k now)"
    "e_cache e1 = cache_touch (e_cache e) k now" "e_ttl e1 = e_ttl e" "e_inflight e1 = e_inflight e"
    by (simp add: engine_snapshot_def cache_touch_def Let_def case_prod_unfold)
  then show ?thesis using strict_load shared_load by (cases strict) simp_all
next
  case (Some s)
  then have s: "cache_lookup (e_cache e) k = Some s" "now < s_validUntil s"
    by (auto simp: cache_get_lookup split: option.splits if_splits)
  let ?e1 = "e\<lparr> e_cache := cache_touch (e_cache e) k now, e_hits := e_hits e + 1 \<rparr>"
  let ?e2 = "?e1\<lparr> e_strictChecks := e_strictChecks e + 1 \<rparr>"
  have eq: "engine_snapshot st e k strict now = (if \<not> strict then (Inr s, ?e1) else
     case st_Epochs st k of Inl err \<Rightarrow> (Inl err, ?e2)
     | Inr ep \<Rightarrow> if ep = s_epochs s then (Inr s, ?e2)
               else compileNow st (?e2\<lparr> e_strictReloads := e_strictReloads e + 1 \<rparr>) k now)"
    using Some by (simp add: engine_snapshot_def cache_touch_def Let_def case_prod_unfold split: sum.split)
  show ?thesis
  proof (cases strict)
    case False
    then show ?thesis using s eq hit [of s ?e1] by simp
  next
    case True
    note strict = this
    show ?thesis
    proof (cases "st_Epochs st k")
      case (Inl err)
      then show ?thesis using strict eq s epoch_error [of err ?e2] by simp
    next
      case (Inr ep)
      then show ?thesis
        using strict eq s hit [of s ?e2] strict_load [of "?e2\<lparr> e_strictReloads := e_strictReloads e + 1 \<rparr>"]
        by (cases "ep = s_epochs s") simp_all
    qed
  qed
qed

lemma engine_snapshot_wf:
  assumes wf: "engine_wf e now"
  shows "engine_wf (snd (engine_snapshot st e k strict now)) now"
  by (cases rule: engine_snapshot_cases [of e k now strict st])
    (auto intro: engine_wf_touch [OF wf] compileNow_wf loadShared_wf)

lemma Invalidate_wf: "engine_wf e now \<Longrightarrow> engine_wf (Invalidate t e) now"
  by (simp add: engine_wf_def Invalidate_def sc.inv_evict sc.holds_evict)

section \<open>What a call decides on\<close>

text \<open>The snapshot a call returns answers every scope as a compilation of the current data would.\<close>

definition decides_on :: "AccessData \<Rightarrow> Engine \<Rightarrow> cacheKey \<Rightarrow> time \<Rightarrow> snapshot \<Rightarrow> bool" where
  "decides_on d e k now s \<longleftrightarrow> (\<forall>sc. scopeSet s sc = scopeSet (compile (fst k) (snd k) d now (e_ttl e)) sc)"

lemma compileNow_fresh:
  "st_LoadAccess st k = Inr od \<Longrightarrow> fst (compileNow st e k now) = Inr (compile (fst k) (snd k) (or_zero od) now (e_ttl e))"
  by (simp add: compileNow_def Let_def)

lemma loadShared_fresh:
  "st_LoadAccess st k = Inr od \<Longrightarrow> gomap_get (e_inflight e) k = None \<Longrightarrow>
   fst (loadShared st e k now) = Inr (compile (fst k) (snd k) (or_zero od) now (e_ttl e))"
  using compileNow_fresh [of st k od "e\<lparr> e_inflight := gomap_set k 0 (e_inflight e) \<rparr>" now]
  by (simp add: loadShared_def case_prod_unfold Let_def)

lemma cached_decides:
  assumes "engine_wf e now" and "cache_lookup (e_cache e) k = Some s" and "now < s_validUntil s"
  shows "decides_on (s_data s) e k now s" and "now - e_ttl e < s_compiled s" and "s_compiled s \<le> now"
proof -
  have s: "s = compile (fst k) (snd k) (s_data s) (s_compiled s) (e_ttl e)" and le: "s_compiled s \<le> now"
    using assms(1) sc.holdsD [OF _ assms(2), of "compiled_from (e_ttl e) now"] by (simp_all add: engine_wf_def compiled_from_def)
  have until: "now < s_validUntil (compile (fst k) (snd k) (s_data s) (s_compiled s) (e_ttl e))" using assms(3) s by simp
  show "decides_on (s_data s) e k now s" unfolding decides_on_def using scopeSet_stable [OF le until] s by metis
  show "now - e_ttl e < s_compiled s" using until validUntil_le [of "fst k" "snd k" "s_data s" "s_compiled s" "e_ttl e"] by linarith
  show "s_compiled s \<le> now" by (rule le)
qed

lemma strict_snapshot_current:
  assumes wf: "engine_wf e now" and co: "coherent st e k"
    and load: "st_LoadAccess st k = Inr od" and ep: "st_Epochs st k = Inr ep"
  shows "\<exists>s. fst (engine_snapshot st e k True now) = Inr s \<and> decides_on (or_zero od) e k now s"
proof (cases rule: engine_snapshot_cases [of e k now True st])
  case (hit s e1)
  have "s_data s = or_zero od" using co hit(1,3) load by (simp add: coherent_def)
  then show ?thesis using cached_decides(1) [OF wf hit(1,2)] hit(4) by simp
next
  case (strict_load e1)
  then show ?thesis using compileNow_fresh [OF load, of e1 now] by (simp add: decides_on_def)
qed (use ep in simp_all)

lemma uncached_snapshot_current:
  assumes "cache_lookup (e_cache e) k = None" and "gomap_get (e_inflight e) k = None"
    and load: "st_LoadAccess st k = Inr od"
  shows "\<exists>s. fst (engine_snapshot st e k strict now) = Inr s \<and> decides_on (or_zero od) e k now s"
proof (cases rule: engine_snapshot_cases [of e k now strict st])
  case (strict_load e1)
  then show ?thesis using compileNow_fresh [OF load, of e1 now] by (simp add: decides_on_def)
next
  case (shared_load e1)
  then show ?thesis using loadShared_fresh [OF load, of e1 now] assms(2) by (simp add: decides_on_def)
qed (use assms(1) in simp_all)

lemma decides_on_has:
  "decides_on d e k now s \<Longrightarrow> data_wf d \<Longrightarrow> snapshot_has s sc b \<longleftrightarrow> b \<in> spec_effective d now sc"
  using compile_effective [of d "fst k" "snd k" now "e_ttl e" sc b] by (simp add: decides_on_def snapshot_has_def)

lemma with_snapshot_eq:
  "fst (with_snapshot st e k strict now f) = map_sum id f (fst (engine_snapshot st e k strict now))"
  by (simp add: with_snapshot_def case_prod_unfold Let_def split: sum.split)

lemma Invalidate_lookup:
  "engine_wf e now \<Longrightarrow> selects t k \<Longrightarrow> cache_lookup (e_cache (Invalidate t e)) k = None"
  by (simp add: Invalidate_def engine_wf_def sc.lookup_evict)

lemma CanAll_loop_eq:
  "CanAll_loop want strict ps = (if \<forall>p \<in> set ps. Bit_of p \<noteq> None
     then Some (Union want (NewSet ps), strict \<or> (\<exists>p \<in> set ps. sensitives (the (Bit_of p)))) else None)"
proof (induction ps arbitrary: want strict)
  case Nil
  have "Union want (NewSet []) = want" by (rule pset_eqI) (simp add: pset_simps)
  then show ?case by simp
next
  case (Cons p ps)
  have "Union (Union want (NewSet [p])) (NewSet ps) = Union want (NewSet (p # ps))"
    by (rule pset_eqI) (auto simp: pset_simps)
  then show ?case by (auto simp: Cons.IH split: option.split)
qed

lemma Bit_of_iff: "Bit_of p = Some b \<longleftrightarrow> b < 99 \<and> ids ! b = p"
  by (simp add: Bit_of_def index_get_iff)

lemma ContainsAll_NewSet:
  assumes "\<forall>p \<in> set ps. Bit_of p \<noteq> None"
  shows "ContainsAll st (NewSet ps) \<longleftrightarrow> (\<forall>p \<in> set ps. HasBit st (the (Bit_of p)))"
proof -
  have "ContainsAll st (NewSet ps) \<longleftrightarrow> (\<forall>b. b < 99 \<and> ids ! b \<in> set ps \<longrightarrow> HasBit st b)"
    by (simp add: ps.contains_has pset_simps)
  also have "\<dots> \<longleftrightarrow> (\<forall>p \<in> set ps. \<forall>b. Bit_of p = Some b \<longrightarrow> HasBit st b)"
    by (auto simp: Bit_of_iff)
  also have "\<dots> \<longleftrightarrow> (\<forall>p \<in> set ps. HasBit st (the (Bit_of p)))" using assms by fastforce
  finally show ?thesis .
qed

section \<open>Goroutines of compileNow and Invalidate\<close>

text \<open>
  A goroutine is its program counter with its local variables. \<^verbatim>\<open>compileNow\<close>: entered with the clock
  read; generation read; data loaded; generation compared equal; done. \<^verbatim>\<open>Invalidate\<close>: entered;
  generation bumped; loads in flight forgotten; done. Other goroutines write to the store, and time
  passes. The ghost field \<open>w_log\<close> records what each query returned and when.
\<close>

datatype goroutine =
    GEntered cacheKey time
  | GGen cacheKey time "64 word"
  | GLoaded cacheKey time "64 word" AccessData
  | GChecked cacheKey time snapshot
  | GReturned cacheKey snapshot
  | IEntered Target
  | IBumped Target
  | IForgot Target
  | IReturned Target

record world =
  w_store :: "cacheKey \<Rightarrow> AccessData"
  w_clock :: time
  w_eng :: Engine
  w_go :: "goroutine list"
  w_log :: "(time \<times> cacheKey \<times> AccessData) list"

inductive estep :: "world \<Rightarrow> world \<Rightarrow> bool" where
  tick: "w_clock w \<le> t \<Longrightarrow> estep w (w\<lparr> w_clock := t \<rparr>)"
| store_write: "estep w (w\<lparr> w_store := (w_store w)(k := d) \<rparr>)"
| call_compile: "estep w (w\<lparr> w_go := w_go w @ [GEntered k (w_clock w)] \<rparr>)"
| call_Invalidate: "estep w (w\<lparr> w_go := w_go w @ [IEntered t] \<rparr>)"
| read_gen: "i < length (w_go w) \<Longrightarrow> w_go w ! i = GEntered k now \<Longrightarrow>
    estep w (w\<lparr> w_go := (w_go w)[i := GGen k now (e_invGen (w_eng w))] \<rparr>)"
| load: "i < length (w_go w) \<Longrightarrow> w_go w ! i = GGen k now gen \<Longrightarrow>
    estep w (w\<lparr> w_go := (w_go w)[i := GLoaded k now gen (w_store w k)],
               w_log := (w_clock w, k, w_store w k) # w_log w \<rparr>)"
| check_same: "i < length (w_go w) \<Longrightarrow> w_go w ! i = GLoaded k now gen d \<Longrightarrow> e_invGen (w_eng w) = gen \<Longrightarrow>
    estep w (w\<lparr> w_go := (w_go w)[i := GChecked k now (compile (fst k) (snd k) d now (e_ttl (w_eng w)))] \<rparr>)"
| check_changed: "i < length (w_go w) \<Longrightarrow> w_go w ! i = GLoaded k now gen d \<Longrightarrow> e_invGen (w_eng w) \<noteq> gen \<Longrightarrow>
    estep w (w\<lparr> w_go := (w_go w)[i := GReturned k (compile (fst k) (snd k) d now (e_ttl (w_eng w)))] \<rparr>)"
| put: "i < length (w_go w) \<Longrightarrow> w_go w ! i = GChecked k now s \<Longrightarrow>
    estep w (w\<lparr> w_go := (w_go w)[i := GReturned k s],
               w_eng := (w_eng w)\<lparr> e_cache := cache_put (e_cache (w_eng w)) k s now \<rparr> \<rparr>)"
| bump: "i < length (w_go w) \<Longrightarrow> w_go w ! i = IEntered t \<Longrightarrow>
    estep w (w\<lparr> w_go := (w_go w)[i := IBumped t], w_eng := (w_eng w)\<lparr> e_invGen := e_invGen (w_eng w) + 1 \<rparr> \<rparr>)"
| forget: "i < length (w_go w) \<Longrightarrow> w_go w ! i = IBumped t \<Longrightarrow>
    estep w (w\<lparr> w_go := (w_go w)[i := IForgot t], w_eng := (w_eng w)\<lparr> e_inflight := [] \<rparr> \<rparr>)"
| evict: "i < length (w_go w) \<Longrightarrow> w_go w ! i = IForgot t \<Longrightarrow>
    estep w (w\<lparr> w_go := (w_go w)[i := IReturned t],
               w_eng := (w_eng w)\<lparr> e_cache := evictIf (selects t) (e_cache (w_eng w)) \<rparr> \<rparr>)"

definition start :: "duration \<Rightarrow> int \<Rightarrow> (cacheKey \<Rightarrow> AccessData) \<Rightarrow> time \<Rightarrow> world" where
  "start ttl maxBytes store t = \<lparr> w_store = store, w_clock = t, w_eng = New ttl maxBytes, w_go = [], w_log = [] \<rparr>"

inductive reachable :: "world \<Rightarrow> world \<Rightarrow> bool" where
  refl: "reachable w w"
| step: "reachable w w' \<Longrightarrow> estep w' w'' \<Longrightarrow> reachable w w''"

text \<open>A snapshot stems from a query made after its instant of compilation.\<close>

definition stems :: "world \<Rightarrow> cacheKey \<Rightarrow> snapshot \<Rightarrow> bool" where
  "stems w k s \<longleftrightarrow> (\<exists>t d. (t, k, d) \<in> set (w_log w) \<and> s_compiled s \<le> t \<and> t \<le> w_clock w \<and>
     s = compile (fst k) (snd k) d (s_compiled s) (e_ttl (w_eng w)))"

fun go_ok :: "world \<Rightarrow> goroutine \<Rightarrow> bool" where
  "go_ok w (GEntered k now) \<longleftrightarrow> now \<le> w_clock w"
| "go_ok w (GGen k now gen) \<longleftrightarrow> now \<le> w_clock w"
| "go_ok w (GLoaded k now gen d) \<longleftrightarrow> (\<exists>t. (t, k, d) \<in> set (w_log w) \<and> now \<le> t \<and> t \<le> w_clock w)"
| "go_ok w (GChecked k now s) \<longleftrightarrow> stems w k s"
| "go_ok w (GReturned k s) \<longleftrightarrow> stems w k s"
| "go_ok w _ \<longleftrightarrow> True"

definition world_ok :: "world \<Rightarrow> bool" where
  "world_ok w \<longleftrightarrow> cache_wf (e_cache (w_eng w)) \<and> sc.holds (stems w) (e_cache (w_eng w)) \<and> (\<forall>x \<in> set (w_go w). go_ok w x)"

lemma stems_mono:
  assumes "stems w k s" and ext: "set (w_log w) \<subseteq> set (w_log w')" "w_clock w \<le> w_clock w'" "e_ttl (w_eng w') = e_ttl (w_eng w)"
  shows "stems w' k s"
proof -
  obtain t d where "(t, k, d) \<in> set (w_log w)" "s_compiled s \<le> t" "t \<le> w_clock w"
    and s: "s = compile (fst k) (snd k) d (s_compiled s) (e_ttl (w_eng w))"
    using assms(1) unfolding stems_def by blast
  then have "(t, k, d) \<in> set (w_log w') \<and> s_compiled s \<le> t \<and> t \<le> w_clock w'" using ext by auto
  then show ?thesis unfolding stems_def ext(3) using s by blast
qed

lemma go_ok_mono:
  "go_ok w x \<Longrightarrow> set (w_log w) \<subseteq> set (w_log w') \<Longrightarrow> w_clock w \<le> w_clock w' \<Longrightarrow>
   e_ttl (w_eng w') = e_ttl (w_eng w) \<Longrightarrow> go_ok w' x"
proof (cases x)
  case (GLoaded k now gen d)
  assume "go_ok w x" "set (w_log w) \<subseteq> set (w_log w')" "w_clock w \<le> w_clock w'"
  then show ?thesis using GLoaded by fastforce
qed (auto intro: stems_mono)

lemma stems_compile:
  "(t, k, d) \<in> set (w_log w) \<Longrightarrow> now \<le> t \<Longrightarrow> t \<le> w_clock w \<Longrightarrow>
   stems w k (compile (fst k) (snd k) d now (e_ttl (w_eng w)))"
  unfolding stems_def by (intro exI [of _ t] exI [of _ d]) simp

text \<open>A step that keeps the log, the clock and the cache entries and moves one goroutine.\<close>

lemma world_ok_move:
  assumes ok: "world_ok w" and ext: "set (w_log w) \<subseteq> set (w_log w')" "w_clock w \<le> w_clock w'"
      "e_ttl (w_eng w') = e_ttl (w_eng w)"
    and cache: "cache_wf (e_cache (w_eng w'))" "sc.holds (stems w') (e_cache (w_eng w'))"
    and go: "\<And>x. x \<in> set (w_go w') \<Longrightarrow> x \<in> set (w_go w) \<or> go_ok w' x"
  shows "world_ok w'"
  unfolding world_ok_def using ok go cache by (auto simp: world_ok_def intro: go_ok_mono [OF _ ext])

lemma holds_stems_mono:
  assumes "world_ok w" and "set (w_log w) \<subseteq> set (w_log w')" "w_clock w \<le> w_clock w'" "e_ttl (w_eng w') = e_ttl (w_eng w)"
  shows "sc.holds (stems w') (e_cache (w_eng w))"
  using assms by (auto simp: world_ok_def intro: sc.holds_mono stems_mono)

lemma set_list_update: "x \<in> set (xs[i := y]) \<Longrightarrow> x \<in> set xs \<or> x = y"
  by (metis insertE set_update_subset_insert subsetD)

lemma estep_ok:
  assumes "estep w w'" and ok: "world_ok w"
  shows "world_ok w'"
proof -
  have cwf: "cache_wf (e_cache (w_eng w))" using ok by (simp add: world_ok_def)
  have goD: "go_ok w x" if "i < length (w_go w)" "w_go w ! i = x" for i x
    using ok that by (auto simp: world_ok_def)
  note hs = holds_stems_mono [OF ok]
  show ?thesis using assms(1)
  proof cases
    case (load i k now gen)
    then show ?thesis using goD [OF load(2,3)] cwf
      by (intro world_ok_move [OF ok]) (auto intro!: hs dest!: set_list_update)
  next
    case (check_same i k now gen d)
    have "stems w k (compile (fst k) (snd k) d now (e_ttl (w_eng w)))"
      using goD [OF check_same(2,3)] by (auto intro: stems_compile)
    then have "stems w' k (compile (fst k) (snd k) d now (e_ttl (w_eng w)))"
      by (rule stems_mono) (simp_all add: check_same(1))
    then show ?thesis using cwf unfolding check_same(1)
      by (intro world_ok_move [OF ok]) (auto intro!: hs dest!: set_list_update)
  next
    case (check_changed i k now gen d)
    have "stems w k (compile (fst k) (snd k) d now (e_ttl (w_eng w)))"
      using goD [OF check_changed(2,3)] by (auto intro: stems_compile)
    then have "stems w' k (compile (fst k) (snd k) d now (e_ttl (w_eng w)))"
      by (rule stems_mono) (simp_all add: check_changed(1))
    then show ?thesis using cwf unfolding check_changed(1)
      by (intro world_ok_move [OF ok]) (auto intro!: hs dest!: set_list_update)
  next
    case (put i k now s)
    have "stems w k s" using goD [OF put(2,3)] by simp
    then have s: "stems w' k s" by (rule stems_mono) (simp_all add: put(1))
    have "sc.holds (stems w') (e_cache (w_eng w))" by (rule hs) (simp_all add: put(1))
    then have "sc.holds (stems w') (cache_put (e_cache (w_eng w)) k s now)" using s cwf by (simp add: sc.holds_put)
    then show ?thesis using cwf s unfolding put(1)
      by (intro world_ok_move [OF ok]) (auto simp: sc.inv_put dest!: set_list_update)
  next
    case (evict i t)
    have "sc.holds (stems w') (e_cache (w_eng w))" by (rule hs) (simp_all add: evict(1))
    then have "sc.holds (stems w') (evictIf (selects t) (e_cache (w_eng w)))" using cwf by (simp add: sc.holds_evict)
    then show ?thesis using cwf unfolding evict(1)
      by (intro world_ok_move [OF ok]) (auto simp: sc.inv_evict dest!: set_list_update)
  next
    case (read_gen i k now)
    then show ?thesis using goD [OF read_gen(2,3)] cwf
      by (intro world_ok_move [OF ok]) (auto intro!: hs dest!: set_list_update)
  qed (use cwf in \<open>intro world_ok_move [OF ok]; auto intro!: hs dest!: set_list_update\<close>)+
qed

lemma start_ok: "world_ok (start ttl m store t)"
  by (simp add: world_ok_def start_def New_def newCache_def cache_wf_def total_bytes_def sc.holds_def cache_lookup_def
      DefaultMaxBytes_def)

lemma reachable_ok: "reachable w w' \<Longrightarrow> world_ok w \<Longrightarrow> world_ok w'"
  by (induction rule: reachable.induct) (auto intro: estep_ok)

lemma reachable_trans: "reachable w' w'' \<Longrightarrow> reachable w w' \<Longrightarrow> reachable w w''"
  by (induction rule: reachable.induct) (auto intro: reachable.step)

text \<open>A goroutine that runs \<^verbatim>\<open>Invalidate\<close> without being interrupted does what the function does.\<close>

lemma run_Invalidate:
  "\<exists>w'. reachable w w' \<and> w_go w' = w_go w @ [IReturned t] \<and> w_eng w' = Invalidate t (w_eng w) \<and>
     w_store w' = w_store w \<and> w_clock w' = w_clock w"
proof -
  let ?n = "length (w_go w)"
  define v1 where "v1 = w\<lparr> w_go := w_go w @ [IEntered t] \<rparr>"
  define v2 where "v2 = v1\<lparr> w_go := (w_go v1)[?n := IBumped t], w_eng := (w_eng v1)\<lparr> e_invGen := e_invGen (w_eng v1) + 1 \<rparr> \<rparr>"
  define v3 where "v3 = v2\<lparr> w_go := (w_go v2)[?n := IForgot t], w_eng := (w_eng v2)\<lparr> e_inflight := [] \<rparr> \<rparr>"
  define v4 where "v4 = v3\<lparr> w_go := (w_go v3)[?n := IReturned t],
     w_eng := (w_eng v3)\<lparr> e_cache := evictIf (selects t) (e_cache (w_eng v3)) \<rparr> \<rparr>"
  have f2: "w_go v2 = w_go w @ [IBumped t]" by (simp add: v2_def v1_def)
  have f3: "w_go v3 = w_go w @ [IForgot t]" by (simp add: v3_def f2)
  have "estep w v1" unfolding v1_def by (rule estep.call_Invalidate)
  moreover have "estep v1 v2" unfolding v2_def by (rule estep.bump) (simp_all add: v1_def)
  moreover have "estep v2 v3" unfolding v3_def by (rule estep.forget) (simp_all add: f2)
  moreover have "estep v3 v4" unfolding v4_def by (rule estep.evict) (simp_all add: f3)
  ultimately have "reachable w v4" by (metis reachable.intros)
  moreover have "w_go v4 = w_go w @ [IReturned t]" by (simp add: v4_def f3)
  ultimately show ?thesis by (intro exI [of _ v4]) (simp add: v4_def v3_def v2_def v1_def Invalidate_def)
qed

text \<open>A goroutine that loads without being interrupted passes the comparison of the generation.\<close>

lemma run_load:
  "\<exists>w'. reachable w w' \<and> w_go w' = w_go w @ [GChecked k (w_clock w)
       (compile (fst k) (snd k) (w_store w k) (w_clock w) (e_ttl (w_eng w)))] \<and>
     w_eng w' = w_eng w \<and> w_store w' = w_store w \<and> w_clock w' = w_clock w"
proof -
  let ?n = "length (w_go w)" and ?t = "w_clock w" and ?gen = "e_invGen (w_eng w)" and ?d = "w_store w k"
  define v1 where "v1 = w\<lparr> w_go := w_go w @ [GEntered k (w_clock w)] \<rparr>"
  define v2 where "v2 = v1\<lparr> w_go := (w_go v1)[?n := GGen k ?t (e_invGen (w_eng v1))] \<rparr>"
  define v3 where "v3 = v2\<lparr> w_go := (w_go v2)[?n := GLoaded k ?t ?gen (w_store v2 k)],
     w_log := (w_clock v2, k, w_store v2 k) # w_log v2 \<rparr>"
  define v4 where "v4 = v3\<lparr> w_go := (w_go v3)[?n := GChecked k ?t (compile (fst k) (snd k) ?d ?t (e_ttl (w_eng v3)))] \<rparr>"
  have f2: "w_go v2 = w_go w @ [GGen k ?t ?gen]" "w_eng v2 = w_eng w" "w_store v2 = w_store w" "w_clock v2 = ?t"
    by (simp_all add: v2_def v1_def)
  have f3: "w_go v3 = w_go w @ [GLoaded k ?t ?gen ?d]" "w_eng v3 = w_eng w" "w_store v3 = w_store w" "w_clock v3 = ?t"
    by (simp_all add: v3_def f2)
  have "estep w v1" unfolding v1_def by (rule estep.call_compile)
  moreover have "estep v1 v2" unfolding v2_def by (rule estep.read_gen) (simp_all add: v1_def)
  moreover have "estep v2 v3" unfolding v3_def by (rule estep.load) (simp_all add: f2)
  moreover have "estep v3 v4" unfolding v4_def by (rule estep.check_same [where gen = ?gen]) (simp_all add: f3)
  ultimately have "reachable w v4" by (metis reachable.intros)
  then show ?thesis by (intro exI [of _ v4]) (simp add: v4_def f3)
qed

text \<open>The run in which an \<^verbatim>\<open>Invalidate\<close> falls between the comparison of the generation and the \<^verbatim>\<open>put\<close>.\<close>

lemma race_run:
  fixes d0 d1 :: AccessData
  shows "\<exists>w. reachable (start ttl m (\<lambda>_. d0) now) w \<and> w_store w k = d1 \<and> w_clock w = now \<and> IReturned tg \<in> set (w_go w) \<and>
     e_ttl (w_eng w) = e_ttl (New ttl m) \<and>
     cache_lookup (e_cache (w_eng w)) k = Some (compile (fst k) (snd k) d0 now (e_ttl (New ttl m)))"
proof -
  let ?s = "compile (fst k) (snd k) d0 now (e_ttl (New ttl m))" and ?w0 = "start ttl m (\<lambda>_. d0) now"
  have f0: "w_go ?w0 = []" "w_clock ?w0 = now" "w_eng ?w0 = New ttl m" "w_store ?w0 = (\<lambda>_. d0)" by (simp_all add: start_def)
  obtain v1 where r1: "reachable ?w0 v1" and f1: "w_go v1 = [GChecked k now ?s]" "w_clock v1 = now" "w_eng v1 = New ttl m"
    using run_load [of ?w0 k] by (auto simp: f0)
  define v2 where "v2 = v1\<lparr> w_store := (w_store v1)(k := d1) \<rparr>"
  have r2: "reachable ?w0 v2" unfolding v2_def by (rule reachable.step [OF r1 estep.store_write])
  obtain v3 where r3: "reachable v2 v3" and f3: "w_go v3 = [GChecked k now ?s, IReturned tg]" "w_clock v3 = now"
    "w_eng v3 = Invalidate tg (New ttl m)" "w_store v3 k = d1"
    using run_Invalidate [of v2 tg] f1 by (auto simp: v2_def)
  define v4 where "v4 = v3\<lparr> w_go := (w_go v3)[0 := GReturned k ?s],
     w_eng := (w_eng v3)\<lparr> e_cache := cache_put (e_cache (w_eng v3)) k ?s now \<rparr> \<rparr>"
  have "estep v3 v4" unfolding v4_def by (rule estep.put [where now = now]) (simp_all add: f3)
  then have r4: "reachable ?w0 v4" using r2 r3 reachable_trans reachable.step by blast
  have "cache_wf (e_cache (w_eng v3))"
    using reachable_ok [OF reachable_trans [OF r3 r2] start_ok] by (simp add: world_ok_def)
  then have "cache_lookup (e_cache (w_eng v4)) k = Some ?s" by (simp add: v4_def sc.lookup_put_same)
  then show ?thesis using r4 by (intro exI [of _ v4]) (simp add: v4_def f3 Invalidate_def)
qed

lemma ex_compile_until: "50 < s_validUntil (compile 5 1 ex_data 50 300)"
  by (simp add: compile_def new_snapshot_def with_template_def count_bytes_def assign_step_def Let_def
      ex_data_def ex_assignment_def expired_def IsZero_def)

section \<open>Properties\<close>

text \<open>
  C3 (safety). The strict path decides on the current data: for a store that answers and a coherent
  cache, \<^verbatim>\<open>CanStrict\<close> for every permission, \<^verbatim>\<open>Can\<close> for every permission marked sensitive, and the set of
  \<^verbatim>\<open>EffectiveStrict\<close> are what the resolution rule gives for the data the store holds now.
\<close>

theorem strict_path_current:
  assumes "engine_wf e now" and "coherent st e k" and "st_LoadAccess st k = Inr od" and "st_Epochs st k = Inr ep"
    and "data_wf (or_zero od)" and "Bit_of perm = Some b"
  shows "fst (CanStrict st e k sc perm now) = Inr (b \<in> spec_effective (or_zero od) now sc) \<and>
     (sensitives b \<longrightarrow> fst (Can st e k sc perm now) = Inr (b \<in> spec_effective (or_zero od) now sc)) \<and>
     (\<exists>a p. fst (EffectiveStrict st e k sc now) = Inr (a, p) \<and> {c. HasBit p c} = spec_effective (or_zero od) now sc)"
proof (intro conjI impI)
  obtain s where s: "fst (engine_snapshot st e k True now) = Inr s" and d: "decides_on (or_zero od) e k now s"
    using strict_snapshot_current [OF assms(1-4)] by blast
  note has = decides_on_has [OF d assms(5)]
  show "fst (CanStrict st e k sc perm now) = Inr (b \<in> spec_effective (or_zero od) now sc)"
    by (simp add: CanStrict_def assms(6) with_snapshot_eq s has)
  show "fst (Can st e k sc perm now) = Inr (b \<in> spec_effective (or_zero od) now sc)" if "sensitives b"
    using that by (simp add: Can_def assms(6) with_snapshot_eq s has)
  show "\<exists>a p. fst (EffectiveStrict st e k sc now) = Inr (a, p) \<and> {c. HasBit p c} = spec_effective (or_zero od) now sc"
    using has [unfolded snapshot_has_def]
    by (auto simp: EffectiveStrict_def effective_def with_snapshot_eq s case_prod_unfold Let_def)
qed

definition ex_store :: Store where
  "ex_store = \<lparr> st_LoadAccess = (\<lambda>k. Inr (Some ex_data)), st_Epochs = (\<lambda>k. Inr (d_Epochs ex_data)), st_wait = (\<lambda>k. Inl ''canceled'') \<rparr>"

lemma ex_data_wf: "data_wf ex_data"
  by (simp add: data_wf_def ex_data_def ex_assignment_def)

lemma New_wf: "engine_wf (New ttl m) now"
  by (simp add: engine_wf_def New_def newCache_def cache_wf_def total_bytes_def sc.holds_def cache_lookup_def DefaultMaxBytes_def)

theorem strict_path_current_witness:
  "engine_wf (New 300 0) 50 \<and> coherent ex_store (New 300 0) (5, 1) \<and>
   fst (CanStrict ex_store (New 300 0) (5, 1) (ProjectScope 6) ''project:view'' 50) = Inr (26 \<in> spec_effective ex_data 50 (ProjectScope 6))"
proof -
  have co: "coherent ex_store (New 300 0) (5, 1)" by (simp add: coherent_def New_def newCache_def cache_lookup_def)
  show ?thesis
    using strict_path_current [OF New_wf co, of "Some ex_data" "d_Epochs ex_data" "''project:view''" 26 "ProjectScope 6"] co
    by (simp add: ex_store_def or_zero_def ex_data_wf New_wf Bit_of_def project_view_bit)
qed

text \<open>
  C4 (safety). A writer reads its own write, in a sequential run: from any well-formed engine, whatever
  snapshots it caches and whatever loads it has registered as in flight, a \<^verbatim>\<open>Can\<close> or \<^verbatim>\<open>FilterProjects\<close> that
  follows an \<^verbatim>\<open>Invalidate\<close> whose target selects the pair, with no step of another goroutine in between, decides
  on the data the store holds now: the cached snapshot of the pair is gone and a registered load is not
  joined. (A goroutine that has compared the generation and not yet put its snapshot is outside this
  statement; \<open>invalidate_race\<close> shows what it can leave in the cache.)
\<close>

theorem read_your_writes:
  assumes "engine_wf e now" and "selects t k" and "st_LoadAccess st k = Inr od"
    and "data_wf (or_zero od)" and "Bit_of perm = Some b"
  shows "fst (Can st (Invalidate t e) k sc perm now) = Inr (b \<in> spec_effective (or_zero od) now sc) \<and>
     fst (FilterProjects st (Invalidate t e) k ps now) =
       Inr (filter (\<lambda>p. bitView \<in> spec_effective (or_zero od) now (ProjectScope p)) ps)"
proof (intro conjI)
  have none: "cache_lookup (e_cache (Invalidate t e)) k = None" "gomap_get (e_inflight (Invalidate t e)) k = None"
    using Invalidate_lookup [OF assms(1,2)] by (simp_all add: Invalidate_def)
  have cur: "\<exists>s. fst (engine_snapshot st (Invalidate t e) k strict now) = Inr s \<and>
      (\<forall>sc b. snapshot_has s sc b \<longleftrightarrow> b \<in> spec_effective (or_zero od) now sc)" for strict
    using uncached_snapshot_current [OF none assms(3), of strict now] decides_on_has [OF _ assms(4)] by blast
  show "fst (Can st (Invalidate t e) k sc perm now) = Inr (b \<in> spec_effective (or_zero od) now sc)"
    using cur [of "sensitives b"] by (auto simp: Can_def assms(5) with_snapshot_eq)
  show "fst (FilterProjects st (Invalidate t e) k ps now) =
           Inr (filter (\<lambda>p. bitView \<in> spec_effective (or_zero od) now (ProjectScope p)) ps)"
    using cur [of False]
    by (auto simp: FilterProjects_def with_snapshot_eq visible_scopeSet intro!: filter_cong)
qed

theorem read_your_writes_witness:
  "selects \<lparr> tg_Org = 1, tg_User = 0 \<rparr> (5, 1) \<and>
   fst (Can ex_store (Invalidate \<lparr> tg_Org = 1, tg_User = 0 \<rparr> (New 300 0)) (5, 1) (ProjectScope 7) ''project:view'' 50) =
     Inr (26 \<in> spec_effective ex_data 50 (ProjectScope 7))"
  using read_your_writes [OF New_wf, of "\<lparr> tg_Org = 1, tg_User = 0 \<rparr>" "(5, 1)" ex_store "Some ex_data" "''project:view''" 26]
  by (simp add: ex_store_def or_zero_def ex_data_wf Bit_of_def project_view_bit selects_def)

text \<open>
  C28 (error). Fail closed: an unknown permission is denied without touching the engine; \<^verbatim>\<open>CanAll\<close> of no
  permission or of an unknown one is false, and otherwise it is the conjunction over one snapshot, on
  the strict path when one of them is sensitive; a store that fails never yields a grant on the
  strict path.
\<close>

theorem decisions_fail_closed:
  "(Bit_of perm = None \<longrightarrow> Can st e k sc perm now = (Inr False, e) \<and> CanStrict st e k sc perm now = (Inr False, e)) \<and>
   fst (CanAll st e k sc ps now) =
     (if ps = [] \<or> (\<exists>p \<in> set ps. Bit_of p = None) then Inr False
      else map_sum id (\<lambda>s. \<forall>p \<in> set ps. snapshot_has s sc (the (Bit_of p)))
             (fst (engine_snapshot st e k (\<exists>p \<in> set ps. sensitives (the (Bit_of p))) now))) \<and>
   (st_LoadAccess st k = Inl err \<and> st_Epochs st k = Inl err' \<longrightarrow> fst (CanStrict st e k sc perm now) \<noteq> Inr True)"
proof (intro conjI [OF _ conjI])
  have un: "Union empty_set st = st" for st by (rule ps.union_empt)
  show "Bit_of perm = None \<longrightarrow> Can st e k sc perm now = (Inr False, e) \<and> CanStrict st e k sc perm now = (Inr False, e)"
    by (simp add: Can_def CanStrict_def)
  show "fst (CanAll st e k sc ps now) =
     (if ps = [] \<or> (\<exists>p \<in> set ps. Bit_of p = None) then Inr False
      else map_sum id (\<lambda>s. \<forall>p \<in> set ps. snapshot_has s sc (the (Bit_of p)))
             (fst (engine_snapshot st e k (\<exists>p \<in> set ps. sensitives (the (Bit_of p))) now)))"
    by (auto simp: CanAll_def CanAll_loop_eq with_snapshot_eq ContainsAll_NewSet un snapshot_has_def)
  show "st_LoadAccess st k = Inl err \<and> st_Epochs st k = Inl err' \<longrightarrow> fst (CanStrict st e k sc perm now) \<noteq> Inr True"
    by (cases rule: engine_snapshot_cases [of e k now True st])
      (auto simp: CanStrict_def with_snapshot_eq compileNow_def Let_def split: option.split)
qed

theorem decisions_fail_closed_witness:
  "Bit_of ''nope'' = None \<and> Can ex_store (New 300 0) (5, 1) OrgScope ''nope'' 50 = (Inr False, New 300 0)"
proof -
  have "Bit_of ''nope'' = None" by (simp add: Bit_of_def index_None_iff ids_eval)
  then show ?thesis using decisions_fail_closed [of "''nope''" ex_store "New 300 0" "(5, 1)" OrgScope 50] by simp
qed

text \<open>
  \<^verbatim>\<open>Explain\<close> and \<^verbatim>\<open>Can\<close> agree: from the same engine state and instant, \<^verbatim>\<open>Explain\<close> returns
  a decision whose \<^verbatim>\<open>Allowed\<close> is what \<^verbatim>\<open>Can\<close> returns, or the same error, and leaves the same engine.
\<close>

theorem Explain_agrees_with_Can:
  "map_sum id dc_Allowed (fst (Explain st e k sc perm now)) = fst (Can st e k sc perm now) \<and>
   snd (Explain st e k sc perm now) = snd (Can st e k sc perm now)"
proof (rule conjI)
  show "map_sum id dc_Allowed (fst (Explain st e k sc perm now)) = fst (Can st e k sc perm now)"
    by (cases "fst (engine_snapshot st e k (sensitives (the (Bit_of perm))) now)")
      (auto simp: Explain_def Can_def with_snapshot_eq explain_fields(1) new_Decision_def split: option.split)
  show "snd (Explain st e k sc perm now) = snd (Can st e k sc perm now)"
    by (simp add: Explain_def Can_def with_snapshot_def case_prod_unfold Let_def split: option.split)
qed

text \<open>
  C26 (invariant). Bounded staleness, under every interleaving of loads, invalidations, writes and the
  passing of time: a snapshot the cache still serves was compiled from data a query returned within
  the last TTL, and it answers every scope as a compilation of that data at this instant would.
\<close>

theorem bounded_staleness:
  assumes "reachable (start ttl m store t0) w" and "fst (cache_get (e_cache (w_eng w)) k (w_clock w)) = Some s"
  shows "\<exists>t d. (t, k, d) \<in> set (w_log w) \<and> w_clock w - e_ttl (w_eng w) < t \<and> t \<le> w_clock w \<and>
     decides_on d (w_eng w) k (w_clock w) s"
proof -
  have look: "cache_lookup (e_cache (w_eng w)) k = Some s" and until: "w_clock w < s_validUntil s"
    using assms(2) by (auto simp: cache_get_lookup split: option.splits if_splits)
  have "stems w k s" using reachable_ok [OF assms(1) start_ok] sc.holdsD [OF _ look, of "stems w"] by (simp add: world_ok_def)
  then obtain t d where t: "(t, k, d) \<in> set (w_log w)" "s_compiled s \<le> t" "t \<le> w_clock w"
    and s: "s = compile (fst k) (snd k) d (s_compiled s) (e_ttl (w_eng w))" unfolding stems_def by blast
  have until': "w_clock w < s_validUntil (compile (fst k) (snd k) d (s_compiled s) (e_ttl (w_eng w)))" using until s by simp
  have "decides_on d (w_eng w) k (w_clock w) s"
    unfolding decides_on_def using scopeSet_stable [OF _ until'] t s by (metis order_trans)
  moreover have "w_clock w - e_ttl (w_eng w) < t"
    using until' validUntil_le [of "fst k" "snd k" d "s_compiled s" "e_ttl (w_eng w)"] t(2) by linarith
  ultimately show ?thesis using t by blast
qed

theorem bounded_staleness_witness:
  "\<exists>w. reachable (start 300 0 (\<lambda>_. ex_data) 50) w \<and>
     (\<exists>s t d. fst (cache_get (e_cache (w_eng w)) (5, 1) (w_clock w)) = Some s \<and>
        (t, (5, 1), d) \<in> set (w_log w) \<and> decides_on d (w_eng w) (5, 1) (w_clock w) s)"
proof -
  obtain w where r: "reachable (start 300 0 (\<lambda>_. ex_data) 50) w" and clk: "w_clock w = 50"
    and look: "cache_lookup (e_cache (w_eng w)) (5, 1) = Some (compile 5 1 ex_data 50 (e_ttl (New 300 0)))"
    using race_run [of 300 0 ex_data 50 "(5, 1)" ex_data] by auto
  have get: "fst (cache_get (e_cache (w_eng w)) (5, 1) (w_clock w)) = Some (compile 5 1 ex_data 50 (e_ttl (New 300 0)))"
    using look by (simp add: cache_get_lookup clk New_def ex_compile_until)
  show ?thesis using bounded_staleness [OF r get] r get by blast
qed



end
