(* ===== verification/Catalog_Tables.thy ===== *)
theory Catalog_Tables
  imports Perm_Set
begin

text \<open>
  The scopes and the dependencies of the 99 catalog entries, by bit, evaluated once in the kernel from
  the definitions of \<open>Catalog\<close>. Theorems about concrete role templates compute on these tables.
\<close>

definition scope_ranks :: "nat list list" where
  "scope_ranks = [[0], [0], [0], [0], [0], [0], [0], [0], [0], [0], [0], [0], [0], [0], [0],
  [0], [0], [0], [0], [0], [0], [0], [0], [0], [0], [0], [1, 2, 3], [1],
  [1], [1], [1], [1], [1], [1], [1], [1], [1], [1], [1], [1], [1], [1, 3],
  [1, 3], [1, 3], [1, 3], [1], [1], [1], [1], [1], [0, 1], [0, 1], [1], [1],
  [1], [1], [1], [0, 1], [0, 1], [1], [1], [1], [1], [1], [1], [1], [1],
  [1], [1], [1], [1], [1, 2], [1, 2], [1, 2], [1, 2], [1], [1, 2], [1, 2],
  [1, 2], [1, 2], [1, 2], [1, 2], [1, 2], [1, 2], [1, 2], [1], [1], [1],
  [1], [1], [0, 1], [0, 1, 2, 3], [4], [4], [4], [4], [4], [4], [4]]"

definition require_bits :: "nat list list" where
  "require_bits = [[], [], [0], [], [], [], [5], [5], [5], [5], [5], [], [11], [], [13], [],
  [], [], [17], [], [], [20], [], [], [], [], [], [26], [26], [27, 26],
  [26], [26], [31, 26], [26], [26], [26], [35, 26], [26], [26], [38, 26],
  [38, 26], [26], [41, 26], [26], [41, 26], [26], [26, 45], [26], [47, 26],
  [47, 26], [], [50], [26], [52, 26], [26], [26, 54], [26], [], [57],
  [57, 26], [57, 26], [26], [61, 26], [61, 26], [26], [64, 26], [26],
  [66, 26], [26], [26], [26], [26], [71, 26], [71, 26], [71, 26], [71, 26],
  [71, 26], [71, 26], [71, 26], [71, 26], [71, 26], [26], [81, 26],
  [81, 26], [81, 26], [26], [26, 85], [26, 85], [26, 85], [26], [], [90],
  [], [92], [], [92], [], [], [97]]"

lemma scope_ranks_eval: "map (\<lambda>p. map scopeRank (Scopes p)) (base_perms table) = scope_ranks"
  by code_simp

lemma require_bits_eval:
  "map (requires_of (zip ids [0..<99]) (base_perms table)) (base_perms table) = map (map ((!) ids)) require_bits"
  by code_simp

lemma length_tables [simp]: "length scope_ranks = 99" "length require_bits = 99"
  by (simp_all add: scope_ranks_def require_bits_def)

lemma Scopes_nth: "b < 99 \<Longrightarrow> map scopeRank (Scopes (perms ! b)) = scope_ranks ! b"
  using arg_cong [OF scope_ranks_eval, of "\<lambda>xs. xs ! b"] by (simp add: perms_eq)

lemma Requires_nth: "b < 99 \<Longrightarrow> Requires (perms ! b) = map ((!) ids) (require_bits ! b)"
  using arg_cong [OF require_bits_eval, of "\<lambda>xs. xs ! b"] by (simp add: perms_eq index_eq)

lemma require_bits_bound: "\<forall>rs \<in> set require_bits. \<forall>r \<in> set rs. r < 99"
  by (simp add: require_bits_def)

lemma HasScope_nth: "b < 99 \<Longrightarrow> Perm_HasScope (perms ! b) s \<longleftrightarrow> scopeRank s \<in> set (scope_ranks ! b)"
proof -
  assume "b < 99"
  have "inj scopeRank" by (auto simp: inj_def scopeRank_def split: Scope.splits)
  then show ?thesis using Scopes_nth [OF \<open>b < 99\<close>, symmetric]
    by (auto simp: Perm_HasScope_def inj_image_mem_iff list_ex_iff)
qed

end
