(* ===== verification/Sys_Templates.thy ===== *)
theory Sys_Templates
  imports Engine Catalog_Tables
begin

text \<open>
  The system role templates (\<^verbatim>\<open>internal/authz/systemtemplates/systemtemplates.go\<close>) and the embedded
  document \<^verbatim>\<open>systemtemplates.json\<close> they are loaded from, and the translation of a permission set into a
  legacy role (\<^verbatim>\<open>internal/authz/engine/legacyrole.go\<close>).

  The model starts at the decoded document (\<open>fileDoc\<close>); an optional JSON array is an \<open>option\<close>. The uuid
  package is not part of the repository: the functions used of it are the record \<open>uuid_lib\<close>, an argument
  of \<open>Parse\<close>. What the embedded document relies on is \<open>uuid_ok\<close>: parsing each id written in the file
  gives the name-based uuid of its kind and slug, and these are distinct and not nil.
\<close>

section \<open>Types\<close>

record uuid_lib =
  NewSHA1 :: "uuid \<Rightarrow> string \<Rightarrow> uuid"
  uuid_Parse :: "string \<Rightarrow> uuid option"
  uuid_String :: "uuid \<Rightarrow> string"
  NameSpaceURL :: uuid

definition SchemaVersion :: int where "SchemaVersion = 1"
definition catalog_Version :: int where "catalog_Version = 1"
definition NamespaceName :: string where "NamespaceName = ''urn:capsule:permissions:system-templates''"

definition Namespace :: "uuid_lib \<Rightarrow> uuid" where
  "Namespace U = NewSHA1 U (NameSpaceURL U) NamespaceName"

abbreviation KindOrg :: string where "KindOrg \<equiv> ''org''"
abbreviation KindProject :: string where "KindProject \<equiv> ''project''"
abbreviation KindRepo :: string where "KindRepo \<equiv> ''repo''"

definition template_ID :: "uuid_lib \<Rightarrow> string \<Rightarrow> string \<Rightarrow> uuid" where
  "template_ID U kind slug = NewSHA1 U (Namespace U) (kind @ ''/'' @ slug)"

record Text =
  ES :: string
  EN :: string

record Template =
  t_ID :: uuid
  t_Kind :: string
  t_Slug :: string
  t_Name :: string
  t_Description :: Text
  t_Version :: int
  t_LegacyRole :: string
  t_Permissions :: pset
  t_PermissionIDs :: "string list"
  t_FloorID :: uuid
  t_BaseID :: uuid
  t_Floor :: pset
  t_Base :: pset
  t_HasCeiling :: bool
  t_Ceiling :: pset
  t_CeilingProject :: pset
  t_CeilingIDs :: "string list"
  t_CeilingProjIDs :: "string list"

record fileTemplate =
  ft_ID :: string
  ft_Kind :: string
  ft_Slug :: string
  ft_Name :: string
  ft_Description :: Text
  ft_Version :: int
  ft_LegacyRole :: string
  ft_Permissions :: "string list"
  ft_FloorTemplate :: "string option"
  ft_BaseTemplate :: "string option"
  ft_Ceiling :: "string list option"
  ft_CeilingProject :: "string list option"

record fileDoc =
  doc_SchemaVersion :: int
  doc_CatalogVersion :: int
  doc_Namespace :: string
  doc_Templates :: "fileTemplate list"

datatype perr =
    PSchema int | PCatalog int | PNamespace string
  | PKind string string | PDuplicate string string | PWrongID string string string
  | PPermissions string string "string list" | PScope string string string
  | PRequires string string string string | PReference string string string
  | PNotOrg string string | PCeilingPair string string
  | PCeilingUnknown string string "string list" "string list"
  | PCeilingPermissions string string | PCeilingProject string string

section \<open>Parse\<close>

definition scope_ok :: "string \<Rightarrow> Perm \<Rightarrow> bool" where
  "scope_ok kind p =
     (if kind = KindOrg then Perm_HasScope p ScopeOrg
      else if kind = KindProject then Perm_HasScope p ScopeProject \<or> Perm_HasScope p ScopeRepo \<or> Perm_HasScope p ScopeEnv
      else if kind = KindRepo then Perm_HasScope p ScopeRepo
      else False)"

text \<open>The loop over \<^verbatim>\<open>PermissionIDs\<close>; \<^verbatim>\<open>Get\<close> of an id that is not in the catalog would give the zero
  entry, which has no scope.\<close>

fun checkScopes :: "Template \<Rightarrow> string list \<Rightarrow> perr option" where
  "checkScopes t [] = None"
| "checkScopes t (i # is) =
     (case Get i of
        Some p \<Rightarrow> if scope_ok (t_Kind t) p then checkScopes t is else Some (PScope (t_Kind t) (t_Slug t) i)
      | None \<Rightarrow> Some (PScope (t_Kind t) (t_Slug t) i))"

fun check_reqs :: "Template \<Rightarrow> string \<Rightarrow> string list \<Rightarrow> perr option" where
  "check_reqs t i [] = None"
| "check_reqs t i (r # rs) =
     (if \<not> Set_Has (t_Permissions t) r then Some (PRequires (t_Kind t) (t_Slug t) i r) else check_reqs t i rs)"

fun checkRequires :: "Template \<Rightarrow> string list \<Rightarrow> perr option" where
  "checkRequires t [] = None"
| "checkRequires t (i # is) =
     (case check_reqs t i (case Get i of Some p \<Rightarrow> Requires p | None \<Rightarrow> []) of
        Some e \<Rightarrow> Some e | None \<Rightarrow> checkRequires t is)"

definition new_Template :: "uuid \<Rightarrow> fileTemplate \<Rightarrow> pset \<Rightarrow> Template" where
  "new_Template i ft st = \<lparr> t_ID = i, t_Kind = ft_Kind ft, t_Slug = ft_Slug ft, t_Name = ft_Name ft,
     t_Description = ft_Description ft, t_Version = ft_Version ft, t_LegacyRole = ft_LegacyRole ft,
     t_Permissions = st, t_PermissionIDs = IDs st, t_FloorID = 0, t_BaseID = 0, t_Floor = empty_set,
     t_Base = empty_set, t_HasCeiling = False, t_Ceiling = empty_set, t_CeilingProject = empty_set,
     t_CeilingIDs = [], t_CeilingProjIDs = [] \<rparr>"

text \<open>The body of the first loop; \<open>seen\<close> is the map of (kind, slug) pairs.\<close>

definition parse_one :: "uuid_lib \<Rightarrow> (string \<times> string) list \<Rightarrow> fileTemplate \<Rightarrow> perr + Template" where
  "parse_one U seen ft =
     (let k = ft_Kind ft; s = ft_Slug ft in
      if k \<noteq> KindOrg \<and> k \<noteq> KindProject \<and> k \<noteq> KindRepo then Inl (PKind k s)
      else if (k, s) \<in> set seen \<or> s = [] \<or> ft_Version ft < 1 then Inl (PDuplicate k s)
      else case uuid_Parse U (ft_ID ft) of
             None \<Rightarrow> Inl (PWrongID k s (ft_ID ft))
           | Some i \<Rightarrow>
               if i \<noteq> template_ID U k s then Inl (PWrongID k s (ft_ID ft))
               else
                 let (st, unknown) = ParseSet (ft_Permissions ft); t = new_Template i ft st in
                 if length unknown > 0 \<or> Set_Len st \<noteq> length (ft_Permissions ft) then Inl (PPermissions k s unknown)
                 else (case checkScopes t (t_PermissionIDs t) of
                         Some e \<Rightarrow> Inl e
                       | None \<Rightarrow> (case checkRequires t (t_PermissionIDs t) of Some e \<Rightarrow> Inl e | None \<Rightarrow> Inr t)))"

fun parse_pass1 :: "uuid_lib \<Rightarrow> Template list \<Rightarrow> (uuid, nat) gomap \<Rightarrow> (string \<times> string) list \<Rightarrow> fileTemplate list
    \<Rightarrow> perr + Template list \<times> (uuid, nat) gomap" where
  "parse_pass1 U out byID seen [] = Inr (out, byID)"
| "parse_pass1 U out byID seen (ft # fts) =
     (case parse_one U seen ft of
        Inl e \<Rightarrow> Inl e
      | Inr t \<Rightarrow> parse_pass1 U (out @ [t]) (gomap_set (t_ID t) (length out) byID) ((ft_Kind ft, ft_Slug ft) # seen) fts)"

definition resolve :: "uuid_lib \<Rightarrow> Template list \<Rightarrow> (uuid, nat) gomap \<Rightarrow> Template \<Rightarrow> string \<Rightarrow> string option
    \<Rightarrow> perr + uuid \<times> pset" where
  "resolve U out byID t what ref =
     (case ref of
        None \<Rightarrow> Inr (0, empty_set)
      | Some r \<Rightarrow>
          (case uuid_Parse U r of
             None \<Rightarrow> Inl (PReference (t_Kind t) (t_Slug t) what)
           | Some rid \<Rightarrow>
               (case gomap_get byID rid of
                  None \<Rightarrow> Inl (PReference (t_Kind t) (t_Slug t) what)
                | Some j \<Rightarrow> if t_Kind (out ! j) \<noteq> KindProject then Inl (PReference (t_Kind t) (t_Slug t) what)
                           else Inr (rid, t_Permissions (out ! j)))))"

definition set_ceiling :: "Template \<Rightarrow> string list \<Rightarrow> string list \<Rightarrow> perr + Template" where
  "set_ceiling t ce cp =
     (let (c, u1) = ParseSet ce; (p, u2) = ParseSet cp in
      if length u1 + length u2 > 0 then Inl (PCeilingUnknown (t_Kind t) (t_Slug t) u1 u2)
      else if \<not> ContainsAll c (t_Permissions t) then Inl (PCeilingPermissions (t_Kind t) (t_Slug t))
      else if \<not> ContainsAll c p then Inl (PCeilingProject (t_Kind t) (t_Slug t))
      else Inr (t\<lparr> t_HasCeiling := True, t_Ceiling := c, t_CeilingProject := p,
                   t_CeilingIDs := IDs c, t_CeilingProjIDs := IDs p \<rparr>))"

text \<open>The body of the second loop.\<close>

definition link_one :: "uuid_lib \<Rightarrow> Template list \<Rightarrow> (uuid, nat) gomap \<Rightarrow> fileTemplate \<Rightarrow> Template \<Rightarrow> perr + Template" where
  "link_one U out byID ft t =
     (case resolve U out byID t ''floor_template_id'' (ft_FloorTemplate ft) of
        Inl e \<Rightarrow> Inl e
      | Inr (fid, fl) \<Rightarrow>
          (case resolve U out byID t ''base_template_id'' (ft_BaseTemplate ft) of
             Inl e \<Rightarrow> Inl e
           | Inr (bid, ba) \<Rightarrow>
               let t' = t\<lparr> t_FloorID := fid, t_Floor := fl, t_BaseID := bid, t_Base := ba \<rparr> in
               if (fid \<noteq> uuid_Nil \<or> bid \<noteq> uuid_Nil \<or> ft_Ceiling ft \<noteq> None \<or> ft_CeilingProject ft \<noteq> None) \<and> t_Kind t \<noteq> KindOrg
               then Inl (PNotOrg (t_Kind t) (t_Slug t))
               else (case (ft_Ceiling ft, ft_CeilingProject ft) of
                       (Some ce, Some cp) \<Rightarrow> set_ceiling t' ce cp
                     | (None, None) \<Rightarrow> Inr t'
                     | _ \<Rightarrow> Inl (PCeilingPair (t_Kind t) (t_Slug t)))))"

fun link_all :: "uuid_lib \<Rightarrow> Template list \<Rightarrow> (uuid, nat) gomap \<Rightarrow> (fileTemplate \<times> Template) list \<Rightarrow> perr + Template list" where
  "link_all U out byID [] = Inr []"
| "link_all U out byID (ft # fts) =
     (case link_one U out byID (fst ft) (snd ft) of
        Inl e \<Rightarrow> Inl e
      | Inr t \<Rightarrow> (case link_all U out byID fts of Inl e \<Rightarrow> Inl e | Inr ts \<Rightarrow> Inr (t # ts)))"

definition Parse :: "uuid_lib \<Rightarrow> fileDoc \<Rightarrow> perr + Template list" where
  "Parse U doc =
     (if doc_SchemaVersion doc \<noteq> SchemaVersion then Inl (PSchema (doc_SchemaVersion doc))
      else if doc_CatalogVersion doc > catalog_Version then Inl (PCatalog (doc_CatalogVersion doc))
      else if doc_Namespace doc \<noteq> uuid_String U (Namespace U) then Inl (PNamespace (doc_Namespace doc))
      else case parse_pass1 U [] [] [] (doc_Templates doc) of
             Inl e \<Rightarrow> Inl e
           | Inr (out, byID) \<Rightarrow> link_all U out byID (zip (doc_Templates doc) out))"

section \<open>The embedded document\<close>

definition org_owner_perms :: "string list" where
  "org_owner_perms = [
    ''org:read'', ''org:update'', ''org:delete'', ''org:access-policy'', ''org:transfer'', ''member:read'',
    ''member:invite'', ''member:update'', ''member:remove'', ''member:suspend'', ''group:read'',
    ''group:manage'', ''template:read'', ''template:manage'', ''audit:read'', ''audit:export'',
    ''orgvar:read'', ''orgvar:write'', ''orgvar:reveal'', ''billing:read'', ''billing:manage'',
    ''token:read-all'', ''token:revoke-any'', ''oauthclient:manage'', ''project:create'', ''domain:read'',
    ''domain:manage'', ''database:read'', ''database:create'', ''assignment:read'', ''assignment:grant'']"

definition file_org_owner :: fileTemplate where
  "file_org_owner = \<lparr> ft_ID = ''0167de2c-9d25-5d49-90c8-a0d19a24a8c7'', ft_Kind = ''org'', ft_Slug = ''owner'',
     ft_Name = ''Owner'',
     ft_Description = \<lparr> ES = ''Propietario de la organizaci'' @ [CHR 0xC3, CHR 0xB3] @ ''n: todo, con acceso de administrador a todos los proyectos'',
       EN = ''Organization owner: everything, with admin access to every project'' \<rparr>,
     ft_Version = 1, ft_LegacyRole = ''owner'', ft_Permissions = org_owner_perms,
     ft_FloorTemplate = Some ''a1c1ce3f-89d8-5859-90cc-874d1dc6c0fa'', ft_BaseTemplate = None,
     ft_Ceiling = None, ft_CeilingProject = None \<rparr>"

definition org_admin_perms :: "string list" where
  "org_admin_perms = [
    ''org:read'', ''org:access-policy'', ''member:read'', ''member:invite'', ''member:update'',
    ''member:remove'', ''member:leave'', ''member:suspend'', ''group:read'', ''group:manage'',
    ''template:read'', ''template:manage'', ''audit:read'', ''audit:export'', ''orgvar:read'',
    ''orgvar:write'', ''orgvar:reveal'', ''billing:read'', ''token:read-all'', ''token:revoke-any'',
    ''oauthclient:manage'', ''project:create'', ''domain:read'', ''domain:manage'', ''database:read'',
    ''database:create'', ''assignment:read'', ''assignment:grant'']"

definition file_org_admin :: fileTemplate where
  "file_org_admin = \<lparr> ft_ID = ''df249c74-c92c-5dca-93e7-231244856683'', ft_Kind = ''org'', ft_Slug = ''admin'',
     ft_Name = ''Admin'',
     ft_Description = \<lparr> ES = ''Administrador de la organizaci'' @ [CHR 0xC3, CHR 0xB3] @ ''n: acceso de administrador a todos los proyectos'',
       EN = ''Organization admin: admin access to every project'' \<rparr>,
     ft_Version = 1, ft_LegacyRole = ''admin'', ft_Permissions = org_admin_perms,
     ft_FloorTemplate = Some ''a1c1ce3f-89d8-5859-90cc-874d1dc6c0fa'', ft_BaseTemplate = None,
     ft_Ceiling = None, ft_CeilingProject = None \<rparr>"

definition org_member_perms :: "string list" where
  "org_member_perms = [
    ''org:read'', ''member:read'', ''member:leave'', ''orgvar:read'', ''project:create'', ''domain:read'',
    ''domain:manage'', ''database:read'', ''database:create'']"

definition file_org_member :: fileTemplate where
  "file_org_member = \<lparr> ft_ID = ''cd52eb93-6281-51ca-8141-ce23dc59ad8c'', ft_Kind = ''org'', ft_Slug = ''member'',
     ft_Name = ''Member'',
     ft_Description = \<lparr> ES = ''Miembro: despliega en los proyectos abiertos y ve solo los suyos en organizaciones restringidas'',
       EN = ''Member: deploys in open projects and sees only their own in restricted organizations'' \<rparr>,
     ft_Version = 1, ft_LegacyRole = ''member'', ft_Permissions = org_member_perms,
     ft_FloorTemplate = None, ft_BaseTemplate = Some ''27b2742d-9e83-5265-ad65-d9fde30cc4f6'',
     ft_Ceiling = None, ft_CeilingProject = None \<rparr>"

definition org_readonly_perms :: "string list" where
  "org_readonly_perms = [
    ''org:read'', ''member:read'', ''member:leave'', ''orgvar:read'', ''project:create'', ''domain:read'',
    ''domain:manage'', ''database:read'', ''database:create'']"

definition org_readonly_ceiling :: "string list" where
  "org_readonly_ceiling = [
    ''org:read'', ''member:read'', ''member:leave'', ''orgvar:read'', ''project:create'', ''project:view'',
    ''project:read'', ''deployment:read'', ''preview:read'', ''log:read'', ''envvar:read'',
    ''environment:read'', ''worker:read'', ''cron:read'', ''domain:read'', ''domain:manage'', ''email:read'',
    ''storage:read'', ''database:read'', ''database:create'', ''backup:read'', ''connaudit:read'',
    ''network:read'', ''git:read'', ''ci:read'', ''security:read'']"

definition org_readonly_ceiling_project :: "string list" where
  "org_readonly_ceiling_project = [
    ''project:view'', ''project:read'', ''deployment:read'', ''preview:read'', ''log:read'', ''envvar:read'',
    ''environment:read'', ''worker:read'', ''cron:read'', ''domain:read'', ''email:read'', ''storage:read'',
    ''database:read'', ''backup:read'', ''connaudit:read'', ''network:read'', ''git:read'', ''ci:read'',
    ''security:read'']"

definition file_org_readonly :: fileTemplate where
  "file_org_readonly = \<lparr> ft_ID = ''2bb815eb-1cb4-5d68-bfa3-ea67a3f93ced'', ft_Kind = ''org'', ft_Slug = ''readonly'',
     ft_Name = ''Readonly'',
     ft_Description = \<lparr> ES = ''Solo lectura: nunca m'' @ [CHR 0xC3, CHR 0xA1] @ ''s que viewer, aunque una asignaci'' @ [CHR 0xC3, CHR 0xB3] @ ''n diga otra cosa'',
       EN = ''Read only: never more than viewer, whatever an assignment says'' \<rparr>,
     ft_Version = 1, ft_LegacyRole = ''readonly'', ft_Permissions = org_readonly_perms,
     ft_FloorTemplate = None, ft_BaseTemplate = Some ''ddf8a5b1-322c-57c1-a334-e2c9e62922b5'',
     ft_Ceiling = Some org_readonly_ceiling, ft_CeilingProject = Some org_readonly_ceiling_project \<rparr>"

definition project_viewer_perms :: "string list" where
  "project_viewer_perms = [
    ''project:view'', ''project:read'', ''deployment:read'', ''preview:read'', ''log:read'', ''envvar:read'',
    ''environment:read'', ''worker:read'', ''cron:read'', ''domain:read'', ''email:read'', ''storage:read'',
    ''database:read'', ''backup:read'', ''connaudit:read'', ''network:read'', ''git:read'', ''ci:read'',
    ''security:read'']"

definition file_project_viewer :: fileTemplate where
  "file_project_viewer = \<lparr> ft_ID = ''ddf8a5b1-322c-57c1-a334-e2c9e62922b5'', ft_Kind = ''project'', ft_Slug = ''viewer'',
     ft_Name = ''Viewer'',
     ft_Description = \<lparr> ES = ''Ve el proyecto, el c'' @ [CHR 0xC3, CHR 0xB3] @ ''digo, las alertas y los entornos'',
       EN = ''Sees the project, code, alerts and environments'' \<rparr>,
     ft_Version = 1, ft_LegacyRole = ''viewer'', ft_Permissions = project_viewer_perms,
     ft_FloorTemplate = None, ft_BaseTemplate = None,
     ft_Ceiling = None, ft_CeilingProject = None \<rparr>"

definition project_deployer_perms :: "string list" where
  "project_deployer_perms = [
    ''project:view'', ''project:read'', ''project:update'', ''deployment:read'', ''deployment:create'',
    ''deployment:cancel'', ''deployment:rollback'', ''preview:read'', ''preview:manage'', ''log:read'',
    ''envvar:read'', ''envvar:write'', ''environment:read'', ''promotion:request'', ''worker:read'',
    ''worker:manage'', ''cron:read'', ''cron:manage'', ''cron:trigger'', ''domain:read'', ''domain:manage'',
    ''email:read'', ''email:manage'', ''storage:read'', ''storage:presign'', ''database:read'',
    ''database:query'', ''backup:read'', ''backup:manage'', ''connaudit:read'', ''connaudit:manage'',
    ''network:read'', ''gateway:connect'', ''git:read'', ''git:write'', ''git:review'', ''git:merge'',
    ''git:link'', ''ci:read'', ''ci:run'', ''security:read'', ''security:triage'', ''security:upload'']"

definition file_project_deployer :: fileTemplate where
  "file_project_deployer = \<lparr> ft_ID = ''27b2742d-9e83-5265-ad65-d9fde30cc4f6'', ft_Kind = ''project'', ft_Slug = ''deployer'',
     ft_Name = ''Deployer'',
     ft_Description = \<lparr> ES = ''Despliega, edita variables y operaciones del proyecto y trabaja con el c'' @ [CHR 0xC3, CHR 0xB3] @ ''digo'',
       EN = ''Deploys, edits variables and operations of the project and works on code'' \<rparr>,
     ft_Version = 1, ft_LegacyRole = ''deployer'', ft_Permissions = project_deployer_perms,
     ft_FloorTemplate = None, ft_BaseTemplate = None,
     ft_Ceiling = None, ft_CeilingProject = None \<rparr>"

definition project_admin_perms :: "string list" where
  "project_admin_perms = [
    ''project:view'', ''project:read'', ''project:update'', ''project:delete'', ''project:restore'',
    ''deployment:read'', ''deployment:create'', ''deployment:cancel'', ''deployment:rollback'',
    ''preview:read'', ''preview:manage'', ''log:read'', ''envvar:read'', ''envvar:write'', ''envvar:reveal'',
    ''environment:read'', ''environment:manage'', ''promotion:request'', ''worker:read'', ''worker:manage'',
    ''cron:read'', ''cron:manage'', ''cron:trigger'', ''domain:read'', ''domain:manage'', ''email:read'',
    ''email:manage'', ''storage:read'', ''storage:manage'', ''storage:presign'', ''database:read'',
    ''database:create'', ''database:delete'', ''database:query'', ''backup:read'', ''backup:manage'',
    ''backup:restore'', ''connaudit:read'', ''connaudit:manage'', ''network:read'', ''network:manage'',
    ''gateway:connect'', ''gateway:manage'', ''gateway:token'', ''git:read'', ''git:write'', ''git:review'',
    ''git:merge'', ''git:link'', ''git:protect'', ''git:settings'', ''git:mirror'', ''git:review-dismiss'',
    ''git:token-service'', ''ci:read'', ''ci:run'', ''ci:variable'', ''ci:secret'', ''security:read'',
    ''security:triage'', ''security:upload'', ''security:admin'', ''webhook:manage'', ''assignment:read'',
    ''assignment:grant'']"

definition file_project_admin :: fileTemplate where
  "file_project_admin = \<lparr> ft_ID = ''a1c1ce3f-89d8-5859-90cc-874d1dc6c0fa'', ft_Kind = ''project'', ft_Slug = ''admin'',
     ft_Name = ''Admin'',
     ft_Description = \<lparr> ES = ''Administra el proyecto (todo salvo aprobar promociones, que decide cada entorno)'',
       EN = ''Administers the project (everything except approving promotions, which each environment decides)'' \<rparr>,
     ft_Version = 1, ft_LegacyRole = ''admin'', ft_Permissions = project_admin_perms,
     ft_FloorTemplate = None, ft_BaseTemplate = None,
     ft_Ceiling = None, ft_CeilingProject = None \<rparr>"

definition repo_repo_read_perms :: "string list" where
  "repo_repo_read_perms = [
    ''project:view'', ''git:read'', ''ci:read'']"

definition file_repo_repo_read :: fileTemplate where
  "file_repo_repo_read = \<lparr> ft_ID = ''d78a2640-17e0-5dfe-8507-3712345f015f'', ft_Kind = ''repo'', ft_Slug = ''repo-read'',
     ft_Name = ''Repo read'',
     ft_Description = \<lparr> ES = ''Lee el c'' @ [CHR 0xC3, CHR 0xB3] @ ''digo y la CI de un repositorio'',
       EN = ''Reads the code and CI of a repository'' \<rparr>,
     ft_Version = 1, ft_LegacyRole = [], ft_Permissions = repo_repo_read_perms,
     ft_FloorTemplate = None, ft_BaseTemplate = None,
     ft_Ceiling = None, ft_CeilingProject = None \<rparr>"

definition repo_repo_write_perms :: "string list" where
  "repo_repo_write_perms = [
    ''project:view'', ''git:read'', ''git:write'', ''git:review'', ''git:merge'', ''ci:read'', ''ci:run'']"

definition file_repo_repo_write :: fileTemplate where
  "file_repo_repo_write = \<lparr> ft_ID = ''6679d797-4bb4-5326-ae57-9e0d5ffe0a43'', ft_Kind = ''repo'', ft_Slug = ''repo-write'',
     ft_Name = ''Repo write'',
     ft_Description = \<lparr> ES = ''Lee y escribe c'' @ [CHR 0xC3, CHR 0xB3] @ ''digo, revisa, fusiona y lanza CI en un repositorio'',
       EN = ''Reads and writes code, reviews, merges and runs CI in a repository'' \<rparr>,
     ft_Version = 1, ft_LegacyRole = [], ft_Permissions = repo_repo_write_perms,
     ft_FloorTemplate = None, ft_BaseTemplate = None,
     ft_Ceiling = None, ft_CeilingProject = None \<rparr>"

definition SystemTemplatesJSON :: fileDoc where
  "SystemTemplatesJSON = \<lparr> doc_SchemaVersion = 1, doc_CatalogVersion = 1,
     doc_Namespace = ''04f66add-c6a6-5714-aa88-8166877f93a9'',
     doc_Templates = [file_org_owner, file_org_admin, file_org_member, file_org_readonly, file_project_viewer, file_project_deployer, file_project_admin, file_repo_repo_read, file_repo_repo_write] \<rparr>"

section \<open>Lookups\<close>

text \<open>\<^verbatim>\<open>load\<close> panics when the embedded document does not parse: \<open>None\<close>.\<close>

definition load :: "uuid_lib \<Rightarrow> Template list option" where
  "load U = (case Parse U SystemTemplatesJSON of Inl e \<Rightarrow> None | Inr ts \<Rightarrow> Some ts)"

definition template_get :: "Template list \<Rightarrow> string \<Rightarrow> string \<Rightarrow> Template option" where
  "template_get loaded kind slug = find (\<lambda>t. t_Kind t = kind \<and> t_Slug t = slug) loaded"

definition template_Org :: "Template list \<Rightarrow> string \<Rightarrow> Template option" where
  "template_Org loaded slug = template_get loaded KindOrg slug"

definition template_Project :: "Template list \<Rightarrow> string \<Rightarrow> Template option" where
  "template_Project loaded slug = template_get loaded KindProject slug"

definition template_Repo :: "Template list \<Rightarrow> string \<Rightarrow> Template option" where
  "template_Repo loaded slug = template_get loaded KindRepo slug"

definition template_ByID :: "Template list \<Rightarrow> uuid \<Rightarrow> Template option" where
  "template_ByID loaded i = find (\<lambda>t. t_ID t = i) loaded"

section \<open>LegacyRole\<close>

text \<open>\<open>None\<close> is the panic of \<^verbatim>\<open>loadLegacy\<close>: a template is missing.\<close>

definition LegacyRole :: "Template list \<Rightarrow> pset \<Rightarrow> string option" where
  "LegacyRole loaded s =
     (case (template_Project loaded ''admin'', template_Project loaded ''deployer'') of
        (Some a, Some d) \<Rightarrow> Some (
          if ContainsAll s (t_Permissions a) then ''admin''
          else if ContainsAll s (t_Permissions d) then ''deployer''
          else if HasBit s bitView then ''viewer''
          else [])
      | _ \<Rightarrow> None)"

section \<open>What a loaded document guarantees\<close>

definition template_ok :: "uuid_lib \<Rightarrow> Template \<Rightarrow> bool" where
  "template_ok U t \<longleftrightarrow> t_Kind t \<in> {KindOrg, KindProject, KindRepo} \<and> t_Slug t \<noteq> [] \<and> 1 \<le> t_Version t \<and>
     t_ID t = template_ID U (t_Kind t) (t_Slug t) \<and>
     (\<forall>b. HasBit (t_Permissions t) b \<longrightarrow> b < 99 \<and> scope_ok (t_Kind t) (perms ! b) \<and>
        (\<forall>r \<in> set (Requires (perms ! b)). Set_Has (t_Permissions t) r))"

definition ref_ok :: "Template list \<Rightarrow> uuid \<Rightarrow> pset \<Rightarrow> bool" where
  "ref_ok ts i st \<longleftrightarrow> (i = uuid_Nil \<and> st = empty_set) \<or>
     (\<exists>p \<in> set ts. t_Kind p = KindProject \<and> t_ID p = i \<and> st = t_Permissions p)"

definition links_ok :: "Template list \<Rightarrow> Template \<Rightarrow> bool" where
  "links_ok ts t \<longleftrightarrow> ref_ok ts (t_FloorID t) (t_Floor t) \<and> ref_ok ts (t_BaseID t) (t_Base t) \<and>
     (t_HasCeiling t \<longrightarrow> ContainsAll (t_Ceiling t) (t_Permissions t) \<and> ContainsAll (t_Ceiling t) (t_CeilingProject t)) \<and>
     (t_Kind t \<noteq> KindOrg \<longrightarrow> t_FloorID t = uuid_Nil \<and> t_BaseID t = uuid_Nil \<and> \<not> t_HasCeiling t)"

lemma Get_iff: "Get i = Some p \<longleftrightarrow> (\<exists>b < 99. ids ! b = i \<and> p = perms ! b)"
  by (auto simp: Get_def index_get_iff split: option.split)

lemma Get_nth [simp]: "b < 99 \<Longrightarrow> Get (ids ! b) = Some (perms ! b)"
  by (simp add: Get_def)

lemma checkScopes_None_iff:
  "checkScopes t is = None \<longleftrightarrow> (\<forall>i \<in> set is. \<exists>p. Get i = Some p \<and> scope_ok (t_Kind t) p)"
  by (induction "is") (auto split: option.splits)

lemma check_reqs_None_iff: "check_reqs t i rs = None \<longleftrightarrow> (\<forall>r \<in> set rs. Set_Has (t_Permissions t) r)"
  by (induction rs) auto

lemma checkRequires_None_iff:
  "checkRequires t is = None \<longleftrightarrow>
     (\<forall>i \<in> set is. \<forall>r \<in> set (case Get i of Some p \<Rightarrow> Requires p | None \<Rightarrow> []). Set_Has (t_Permissions t) r)"
proof (induction "is")
  case (Cons i "is")
  let ?rs = "case Get i of Some p \<Rightarrow> Requires p | None \<Rightarrow> []"
  have "checkRequires t (i # is) = None \<longleftrightarrow> check_reqs t i ?rs = None \<and> checkRequires t is = None"
    by (cases "check_reqs t i ?rs") simp_all
  then show ?case unfolding Cons.IH check_reqs_None_iff list.set by blast
qed simp

lemma checks_IDs:
  "checkScopes t (IDs st) = None \<longleftrightarrow> (\<forall>b < 99. HasBit st b \<longrightarrow> scope_ok (t_Kind t) (perms ! b))"
  "checkRequires t (IDs st) = None \<longleftrightarrow>
     (\<forall>b < 99. HasBit st b \<longrightarrow> (\<forall>r \<in> set (Requires (perms ! b)). Set_Has (t_Permissions t) r))"
  by (auto simp: checkScopes_None_iff checkRequires_None_iff set_IDs)

lemma parse_one_Inr:
  assumes "parse_one U seen ft = Inr t"
  shows "template_ok U t" and "t_Kind t = ft_Kind ft" and "t_Slug t = ft_Slug ft"
    and "(t_Kind t, t_Slug t) \<notin> set seen" and "t_Permissions t = NewSet (ft_Permissions ft)"
    and "\<not> t_HasCeiling t"
proof -
  obtain st where t: "t = new_Template (template_ID U (ft_Kind ft) (ft_Slug ft)) ft st"
    and st: "st = NewSet (ft_Permissions ft)"
    and kind: "ft_Kind ft \<in> {KindOrg, KindProject, KindRepo}" "(ft_Kind ft, ft_Slug ft) \<notin> set seen"
      "ft_Slug ft \<noteq> []" "\<not> ft_Version ft < 1"
    and checks: "checkScopes t (IDs st) = None" "checkRequires t (IDs st) = None"
    using assms by (auto simp: parse_one_def Let_def NewSet_def new_Template_def split: if_splits option.splits prod.splits)
  have bound: "b < 99" if "HasBit st b" for b using that by (simp add: st pset_simps)
  have "\<forall>b. HasBit st b \<longrightarrow> b < 99 \<and> scope_ok (t_Kind t) (perms ! b) \<and> (\<forall>r \<in> set (Requires (perms ! b)). Set_Has (t_Permissions t) r)"
    using bound checks unfolding checks_IDs by blast
  then show "template_ok U t" using kind by (simp add: template_ok_def t new_Template_def)
  show "t_Kind t = ft_Kind ft" "t_Slug t = ft_Slug ft" "(t_Kind t, t_Slug t) \<notin> set seen"
    "t_Permissions t = NewSet (ft_Permissions ft)" "\<not> t_HasCeiling t"
    using kind by (simp_all add: t st new_Template_def)
qed

definition index_ok :: "Template list \<Rightarrow> (uuid, nat) gomap \<Rightarrow> bool" where
  "index_ok out byID \<longleftrightarrow> (\<forall>i j. gomap_get byID i = Some j \<longrightarrow> j < length out \<and> t_ID (out ! j) = i)"

abbreviation kind_slug :: "Template \<Rightarrow> string \<times> string" where
  "kind_slug t \<equiv> (t_Kind t, t_Slug t)"

lemma parse_pass1_Inr:
  assumes "parse_pass1 U out byID seen fts = Inr (out', byID')"
    and "\<forall>t \<in> set out. template_ok U t" "index_ok out byID" "set (map kind_slug out) = set seen" "distinct (map kind_slug out)"
  shows "(\<forall>t \<in> set out'. template_ok U t) \<and> index_ok out' byID' \<and> distinct (map kind_slug out') \<and>
     length out' = length out + length fts"
  using assms
proof (induction fts arbitrary: out byID seen)
  case (Cons ft fts)
  obtain t where t: "parse_one U seen ft = Inr t"
    and rest: "parse_pass1 U (out @ [t]) (gomap_set (t_ID t) (length out) byID) ((ft_Kind ft, ft_Slug ft) # seen) fts = Inr (out', byID')"
    using Cons.prems(1) by (auto split: sum.splits)
  note p = parse_one_Inr [OF t]
  have "index_ok (out @ [t]) (gomap_set (t_ID t) (length out) byID)"
    using Cons.prems(3) by (auto simp: index_ok_def nth_append less_Suc_eq)
  with Cons.IH [OF rest] Cons.prems p show ?case by auto
qed simp

lemma resolve_Inr:
  "index_ok out byID \<Longrightarrow> resolve U out byID t what ref = Inr (i, st) \<Longrightarrow> ref_ok out i st"
  by (force simp: resolve_def ref_ok_def index_ok_def split: option.splits if_splits)

text \<open>Linking keeps every field the first pass filled.\<close>

definition same_core :: "Template \<Rightarrow> Template \<Rightarrow> bool" where
  "same_core t t' \<longleftrightarrow> t_ID t' = t_ID t \<and> t_Kind t' = t_Kind t \<and> t_Slug t' = t_Slug t \<and> t_Version t' = t_Version t \<and>
     t_Permissions t' = t_Permissions t"

lemma link_one_Inr:
  assumes ix: "index_ok out byID" and l: "link_one U out byID ft t = Inr t'" and t: "\<not> t_HasCeiling t"
  shows "same_core t t'" and "links_ok out t'"
proof -
  obtain fid fl bid ba where f: "resolve U out byID t ''floor_template_id'' (ft_FloorTemplate ft) = Inr (fid, fl)"
    and b: "resolve U out byID t ''base_template_id'' (ft_BaseTemplate ft) = Inr (bid, ba)"
    using l by (auto simp: link_one_def split: sum.splits)
  note r = resolve_Inr [OF ix f] resolve_Inr [OF ix b]
  show "same_core t t'" "links_ok out t'"
    using l r t by (auto simp: link_one_def f b Let_def set_ceiling_def same_core_def links_ok_def
        split: if_splits option.splits prod.splits)
qed

lemma link_all_Inr:
  assumes "index_ok out byID" and "link_all U out byID fts = Inr ts" and "\<forall>x \<in> set fts. \<not> t_HasCeiling (snd x)"
  shows "list_all2 same_core (map snd fts) ts \<and> (\<forall>t \<in> set ts. links_ok out t)"
  using assms(2,3)
proof (induction fts arbitrary: ts)
  case (Cons x fts)
  then show ?case using link_one_Inr [OF assms(1), of U "fst x" "snd x"] by (auto split: sum.splits)
qed simp

lemma index_ok_Nil: "index_ok [] []"
  by (simp add: index_ok_def)

lemma pass1_no_ceiling:
  "parse_pass1 U out byID seen fts = Inr (out', byID') \<Longrightarrow> \<forall>t \<in> set out. \<not> t_HasCeiling t \<Longrightarrow> \<forall>t \<in> set out'. \<not> t_HasCeiling t"
proof (induction fts arbitrary: out byID seen)
  case (Cons ft fts)
  obtain t where t: "parse_one U seen ft = Inr t"
    and rest: "parse_pass1 U (out @ [t]) (gomap_set (t_ID t) (length out) byID) ((ft_Kind ft, ft_Slug ft) # seen) fts = Inr (out', byID')"
    using Cons.prems(1) by (auto split: sum.splits)
  have "\<forall>x \<in> set (out @ [t]). \<not> t_HasCeiling x" using parse_one_Inr(6) [OF t] Cons.prems(2) by simp
  then show ?case by (rule Cons.IH [OF rest])
qed simp

lemma same_core_keys: "list_all2 same_core out ts \<Longrightarrow> map kind_slug ts = map kind_slug out"
  by (induction rule: list_all2_induct) (simp_all add: same_core_def)

lemma same_core_template_ok: "same_core t t' \<Longrightarrow> template_ok U t \<Longrightarrow> template_ok U t'"
  unfolding same_core_def template_ok_def by metis

lemma same_core_ok: "list_all2 same_core out ts \<Longrightarrow> \<forall>t \<in> set out. template_ok U t \<Longrightarrow> \<forall>t \<in> set ts. template_ok U t"
  by (induction rule: list_all2_induct) (auto intro: same_core_template_ok)

lemma ref_ok_core:
  assumes "list_all2 same_core out ts" "ref_ok out i st"
  shows "ref_ok ts i st"
proof -
  have "\<exists>p' \<in> set ts. same_core p p'" if "p \<in> set out" for p
    using assms(1) that by (metis in_set_conv_nth list_all2_conv_all_nth)
  then show ?thesis using assms(2) unfolding ref_ok_def same_core_def by metis
qed

lemma links_ok_core: "list_all2 same_core out ts \<Longrightarrow> links_ok out t \<Longrightarrow> links_ok ts t"
  unfolding links_ok_def using ref_ok_core by blast

section \<open>The embedded document loads\<close>

text \<open>What the document relies on of the uuid package.\<close>

definition uuid_ok :: "uuid_lib \<Rightarrow> bool" where
  "uuid_ok U \<longleftrightarrow> uuid_String U (Namespace U) = doc_Namespace SystemTemplatesJSON \<and>
     (\<forall>ft \<in> set (doc_Templates SystemTemplatesJSON). uuid_Parse U (ft_ID ft) = Some (template_ID U (ft_Kind ft) (ft_Slug ft))) \<and>
     distinct (uuid_Nil # map (\<lambda>ft. template_ID U (ft_Kind ft) (ft_Slug ft)) (doc_Templates SystemTemplatesJSON))"

definition first_pass :: "uuid_lib \<Rightarrow> fileTemplate \<Rightarrow> Template" where
  "first_pass U ft = new_Template (template_ID U (ft_Kind ft) (ft_Slug ft)) ft (NewSet (ft_Permissions ft))"

text \<open>The checks of the first pass on a list of bits, over the evaluated tables.\<close>

definition kind_ranks :: "string \<Rightarrow> nat list" where
  "kind_ranks k = (if k = KindOrg then [0] else if k = KindProject then [1, 2, 3] else if k = KindRepo then [2] else [])"

definition bits_ok :: "string \<Rightarrow> nat list \<Rightarrow> bool" where
  "bits_ok k bs \<longleftrightarrow> distinct bs \<and> list_all (\<lambda>b. b < 99 \<and> list_ex (\<lambda>r. List.member (scope_ranks ! b) r) (kind_ranks k) \<and>
     list_all (List.member bs) (require_bits ! b)) bs"

lemma HasBit_NewSet_bits:
  "(\<forall>b \<in> set bs. b < 99) \<Longrightarrow> HasBit (NewSet (map ((!) ids) bs)) b \<longleftrightarrow> b \<in> set bs"
proof -
  assume bs: "\<forall>b \<in> set bs. b < 99"
  then have "\<forall>b \<in> set bs. b < 128" by fastforce
  then show ?thesis using HasBit_foldl_addBit [of bs empty_set b] bs by (simp add: NewSet_bits pset_simps)
qed

lemma ParseSet_known:
  "(\<forall>b \<in> set bs. b < 99) \<Longrightarrow> ParseSet (map ((!) ids) bs) = (NewSet (map ((!) ids) bs), [])"
  by (auto simp: NewSet_def ParseSet_eq Has_iff)

lemma Set_Len_NewSet: "(\<forall>b \<in> set bs. b < 99) \<Longrightarrow> distinct bs \<Longrightarrow> Set_Len (NewSet (map ((!) ids) bs)) = length bs"
  by (simp add: Set_Len_card HasBit_NewSet_bits distinct_card)

lemma scope_ok_ranks:
  "b < 99 \<Longrightarrow> list_ex (\<lambda>r. List.member (scope_ranks ! b) r) (kind_ranks k) \<Longrightarrow> scope_ok k (perms ! b)"
  by (auto simp: scope_ok_def kind_ranks_def HasScope_nth scopeRank_def split: if_splits)

lemma Set_Has_nth: "r < 99 \<Longrightarrow> Set_Has st (ids ! r) \<longleftrightarrow> HasBit st r"
  using distinct_ids by (auto simp: Set_Has_iff nth_eq_iff_index_eq)

lemma parse_one_ok:
  assumes bits: "ft_Permissions ft = map ((!) ids) bs" "bits_ok (ft_Kind ft) bs"
    and "ft_Kind ft \<in> {KindOrg, KindProject, KindRepo}" "(ft_Kind ft, ft_Slug ft) \<notin> set seen" "ft_Slug ft \<noteq> []" "ft_Version ft = 1"
    and "uuid_Parse U (ft_ID ft) = Some (template_ID U (ft_Kind ft) (ft_Slug ft))"
  shows "parse_one U seen ft = Inr (first_pass U ft)"
proof -
  let ?t = "first_pass U ft"
  have b: "\<forall>b \<in> set bs. b < 99" "distinct bs" using bits by (auto simp: bits_ok_def list_all_iff)
  have kind: "t_Kind ?t = ft_Kind ft" "t_Permissions ?t = NewSet (map ((!) ids) bs)"
    "t_PermissionIDs ?t = IDs (NewSet (map ((!) ids) bs))"
    by (simp_all add: first_pass_def new_Template_def bits)
  have "checkScopes ?t (t_PermissionIDs ?t) = None"
    using bits(2) by (auto simp: kind checks_IDs HasBit_NewSet_bits [OF b(1)] bits_ok_def list_all_iff intro!: scope_ok_ranks)
  moreover have "checkRequires ?t (t_PermissionIDs ?t) = None"
  proof -
    have "Set_Has (NewSet (map ((!) ids) bs)) (ids ! r)" if "c \<in> set bs" "r \<in> set (require_bits ! c)" for c r
      using bits(2) that b by (auto simp: bits_ok_def list_all_iff Set_Has_nth HasBit_NewSet_bits)
    then show ?thesis
      by (auto simp: kind checks_IDs HasBit_NewSet_bits [OF b(1)] Requires_nth)
  qed
  ultimately show ?thesis
    using assms(3-) by (auto simp: parse_one_def Let_def bits(1) ParseSet_known [OF b(1)] Set_Len_NewSet [OF b] first_pass_def)
qed

lemma parse_pass1_ok:
  assumes "\<forall>ft \<in> set fts. \<forall>seen. (ft_Kind ft, ft_Slug ft) \<notin> set seen \<longrightarrow> parse_one U seen ft = Inr (first_pass U ft)"
    and "distinct (map (\<lambda>ft. (ft_Kind ft, ft_Slug ft)) fts)" "(\<lambda>ft. (ft_Kind ft, ft_Slug ft)) ` set fts \<inter> set seen = {}"
  shows "\<exists>byID'. parse_pass1 U out byID seen fts = Inr (out @ map (first_pass U) fts, byID') \<and>
     (distinct (map (\<lambda>ft. t_ID (first_pass U ft)) fts) \<longrightarrow>
        (\<forall>i < length fts. gomap_get byID' (t_ID (first_pass U (fts ! i))) = Some (length out + i)) \<and>
        (\<forall>k. k \<notin> (\<lambda>ft. t_ID (first_pass U ft)) ` set fts \<longrightarrow> gomap_get byID' k = gomap_get byID k))"
  using assms
proof (induction fts arbitrary: out byID seen)
  case (Cons ft fts)
  let ?t = "first_pass U ft"
  have one: "parse_one U seen ft = Inr ?t" using Cons.prems by auto
  obtain byID' where p: "parse_pass1 U (out @ [?t]) (gomap_set (t_ID ?t) (length out) byID) ((ft_Kind ft, ft_Slug ft) # seen) fts =
      Inr ((out @ [?t]) @ map (first_pass U) fts, byID')"
    and ix: "distinct (map (\<lambda>ft. t_ID (first_pass U ft)) fts) \<Longrightarrow>
      (\<forall>i < length fts. gomap_get byID' (t_ID (first_pass U (fts ! i))) = Some (length (out @ [?t]) + i)) \<and>
      (\<forall>k. k \<notin> (\<lambda>ft. t_ID (first_pass U ft)) ` set fts \<longrightarrow>
         gomap_get byID' k = gomap_get (gomap_set (t_ID ?t) (length out) byID) k)"
    using Cons.IH [of "(ft_Kind ft, ft_Slug ft) # seen" "out @ [?t]" "gomap_set (t_ID ?t) (length out) byID"] Cons.prems by auto
  have "gomap_get byID' (t_ID (first_pass U ((ft # fts) ! i))) = Some (length out + i)"
    if "distinct (map (\<lambda>ft. t_ID (first_pass U ft)) (ft # fts))" "i < length (ft # fts)" for i
    using ix that by (cases i) auto
  then show ?case using one p ix by (intro exI [of _ byID']) auto
qed simp

definition org_owner_perms_b :: "nat list" where
  "org_owner_perms_b = [
    0, 1, 2, 3, 4, 5, 6, 7, 8, 10, 11, 12, 13, 14, 15, 16, 17, 18, 19, 20, 21, 22, 23, 24, 25, 50, 51, 57,
    58, 90, 91]"

definition org_admin_perms_b :: "nat list" where
  "org_admin_perms_b = [
    0, 3, 5, 6, 7, 8, 9, 10, 11, 12, 13, 14, 15, 16, 17, 18, 19, 20, 22, 23, 24, 25, 50, 51, 57, 58, 90, 91]"

definition org_member_perms_b :: "nat list" where
  "org_member_perms_b = [
    0, 5, 9, 17, 25, 50, 51, 57, 58]"

definition org_readonly_perms_b :: "nat list" where
  "org_readonly_perms_b = [
    0, 5, 9, 17, 25, 50, 51, 57, 58]"

definition org_readonly_ceiling_b :: "nat list" where
  "org_readonly_ceiling_b = [
    0, 5, 9, 17, 25, 26, 27, 31, 35, 37, 38, 41, 45, 47, 50, 51, 52, 54, 57, 58, 61, 64, 66, 71, 81, 85]"

definition org_readonly_ceiling_project_b :: "nat list" where
  "org_readonly_ceiling_project_b = [
    26, 27, 31, 35, 37, 38, 41, 45, 47, 50, 52, 54, 57, 61, 64, 66, 71, 81, 85]"

definition project_viewer_perms_b :: "nat list" where
  "project_viewer_perms_b = [
    26, 27, 31, 35, 37, 38, 41, 45, 47, 50, 52, 54, 57, 61, 64, 66, 71, 81, 85]"

definition project_deployer_perms_b :: "nat list" where
  "project_deployer_perms_b = [
    26, 27, 28, 31, 32, 33, 34, 35, 36, 37, 38, 39, 41, 43, 45, 46, 47, 48, 49, 50, 51, 52, 53, 54, 56, 57,
    60, 61, 62, 64, 65, 66, 68, 71, 72, 73, 74, 75, 81, 82, 85, 86, 87]"

definition project_admin_perms_b :: "nat list" where
  "project_admin_perms_b = [
    26, 27, 28, 29, 30, 31, 32, 33, 34, 35, 36, 37, 38, 39, 40, 41, 42, 43, 45, 46, 47, 48, 49, 50, 51, 52,
    53, 54, 55, 56, 57, 58, 59, 60, 61, 62, 63, 64, 65, 66, 67, 68, 69, 70, 71, 72, 73, 74, 75, 76, 77, 78,
    79, 80, 81, 82, 83, 84, 85, 86, 87, 88, 89, 90, 91]"

definition repo_repo_read_perms_b :: "nat list" where
  "repo_repo_read_perms_b = [
    26, 71, 81]"

definition repo_repo_write_perms_b :: "nat list" where
  "repo_repo_write_perms_b = [
    26, 71, 72, 73, 74, 81, 82]"

lemma org_owner_perms_eq: "org_owner_perms = map ((!) ids) org_owner_perms_b"
  by (simp add: org_owner_perms_def org_owner_perms_b_def ids_eval)

lemma org_admin_perms_eq: "org_admin_perms = map ((!) ids) org_admin_perms_b"
  by (simp add: org_admin_perms_def org_admin_perms_b_def ids_eval)

lemma org_member_perms_eq: "org_member_perms = map ((!) ids) org_member_perms_b"
  by (simp add: org_member_perms_def org_member_perms_b_def ids_eval)

lemma org_readonly_perms_eq: "org_readonly_perms = map ((!) ids) org_readonly_perms_b"
  by (simp add: org_readonly_perms_def org_readonly_perms_b_def ids_eval)

lemma org_readonly_ceiling_eq: "org_readonly_ceiling = map ((!) ids) org_readonly_ceiling_b"
  by (simp add: org_readonly_ceiling_def org_readonly_ceiling_b_def ids_eval)

lemma org_readonly_ceiling_project_eq: "org_readonly_ceiling_project = map ((!) ids) org_readonly_ceiling_project_b"
  by (simp add: org_readonly_ceiling_project_def org_readonly_ceiling_project_b_def ids_eval)

lemma project_viewer_perms_eq: "project_viewer_perms = map ((!) ids) project_viewer_perms_b"
  by (simp add: project_viewer_perms_def project_viewer_perms_b_def ids_eval)

lemma project_deployer_perms_eq: "project_deployer_perms = map ((!) ids) project_deployer_perms_b"
  by (simp add: project_deployer_perms_def project_deployer_perms_b_def ids_eval)

lemma project_admin_perms_eq: "project_admin_perms = map ((!) ids) project_admin_perms_b"
  by (simp add: project_admin_perms_def project_admin_perms_b_def ids_eval)

lemma repo_repo_read_perms_eq: "repo_repo_read_perms = map ((!) ids) repo_repo_read_perms_b"
  by (simp add: repo_repo_read_perms_def repo_repo_read_perms_b_def ids_eval)

lemma repo_repo_write_perms_eq: "repo_repo_write_perms = map ((!) ids) repo_repo_write_perms_b"
  by (simp add: repo_repo_write_perms_def repo_repo_write_perms_b_def ids_eval)

lemma bits_bound:
  "\<forall>b \<in> set org_owner_perms_b. b < 99"
  "\<forall>b \<in> set org_admin_perms_b. b < 99"
  "\<forall>b \<in> set org_member_perms_b. b < 99"
  "\<forall>b \<in> set org_readonly_perms_b. b < 99"
  "\<forall>b \<in> set org_readonly_ceiling_b. b < 99"
  "\<forall>b \<in> set org_readonly_ceiling_project_b. b < 99"
  "\<forall>b \<in> set project_viewer_perms_b. b < 99"
  "\<forall>b \<in> set project_deployer_perms_b. b < 99"
  "\<forall>b \<in> set project_admin_perms_b. b < 99"
  "\<forall>b \<in> set repo_repo_read_perms_b. b < 99"
  "\<forall>b \<in> set repo_repo_write_perms_b. b < 99"
  by (simp_all add: org_owner_perms_b_def org_admin_perms_b_def org_member_perms_b_def org_readonly_perms_b_def org_readonly_ceiling_b_def org_readonly_ceiling_project_b_def project_viewer_perms_b_def project_deployer_perms_b_def project_admin_perms_b_def repo_repo_read_perms_b_def repo_repo_write_perms_b_def)

lemmas perms_eq_bits = org_owner_perms_eq org_admin_perms_eq org_member_perms_eq org_readonly_perms_eq org_readonly_ceiling_eq org_readonly_ceiling_project_eq project_viewer_perms_eq project_deployer_perms_eq project_admin_perms_eq repo_repo_read_perms_eq repo_repo_write_perms_eq

lemma HasBit_perms:
  "HasBit (NewSet org_owner_perms) b \<longleftrightarrow> b \<in> set org_owner_perms_b"
  "HasBit (NewSet org_admin_perms) b \<longleftrightarrow> b \<in> set org_admin_perms_b"
  "HasBit (NewSet org_member_perms) b \<longleftrightarrow> b \<in> set org_member_perms_b"
  "HasBit (NewSet org_readonly_perms) b \<longleftrightarrow> b \<in> set org_readonly_perms_b"
  "HasBit (NewSet org_readonly_ceiling) b \<longleftrightarrow> b \<in> set org_readonly_ceiling_b"
  "HasBit (NewSet org_readonly_ceiling_project) b \<longleftrightarrow> b \<in> set org_readonly_ceiling_project_b"
  "HasBit (NewSet project_viewer_perms) b \<longleftrightarrow> b \<in> set project_viewer_perms_b"
  "HasBit (NewSet project_deployer_perms) b \<longleftrightarrow> b \<in> set project_deployer_perms_b"
  "HasBit (NewSet project_admin_perms) b \<longleftrightarrow> b \<in> set project_admin_perms_b"
  "HasBit (NewSet repo_repo_read_perms) b \<longleftrightarrow> b \<in> set repo_repo_read_perms_b"
  "HasBit (NewSet repo_repo_write_perms) b \<longleftrightarrow> b \<in> set repo_repo_write_perms_b"
  unfolding perms_eq_bits by (rule HasBit_NewSet_bits, rule bits_bound)+

lemmas file_defs = file_org_owner_def file_org_admin_def file_org_member_def file_org_readonly_def
  file_project_viewer_def file_project_deployer_def file_project_admin_def file_repo_repo_read_def file_repo_repo_write_def

lemma perms_bits_ok:
  "bits_ok KindOrg org_owner_perms_b"
  "bits_ok KindOrg org_admin_perms_b"
  "bits_ok KindOrg org_member_perms_b"
  "bits_ok KindOrg org_readonly_perms_b"
  "bits_ok KindProject project_viewer_perms_b"
  "bits_ok KindProject project_deployer_perms_b"
  "bits_ok KindProject project_admin_perms_b"
  "bits_ok KindRepo repo_repo_read_perms_b"
  "bits_ok KindRepo repo_repo_write_perms_b"
  by code_simp+

lemma parse_one_file:
  assumes "uuid_ok U" and "ft \<in> set (doc_Templates SystemTemplatesJSON)" and "(ft_Kind ft, ft_Slug ft) \<notin> set seen"
  shows "parse_one U seen ft = Inr (first_pass U ft)"
proof -
  have ft: "ft_Kind ft \<in> {KindOrg, KindProject, KindRepo}" "ft_Slug ft \<noteq> []" "ft_Version ft = 1"
    "\<exists>bs. ft_Permissions ft = map ((!) ids) bs \<and> bits_ok (ft_Kind ft) bs"
    using assms(2) perms_bits_ok by (auto simp: SystemTemplatesJSON_def file_defs perms_eq_bits)
  have "uuid_Parse U (ft_ID ft) = Some (template_ID U (ft_Kind ft) (ft_Slug ft))" using assms(1,2) by (simp add: uuid_ok_def)
  then show ?thesis using ft assms(3) parse_one_ok by blast
qed

definition sys_templates :: "uuid_lib \<Rightarrow> Template list" where
  "sys_templates U = [
     (first_pass U file_org_owner)\<lparr> t_FloorID := template_ID U KindProject ''admin'', t_Floor := NewSet project_admin_perms \<rparr>,
     (first_pass U file_org_admin)\<lparr> t_FloorID := template_ID U KindProject ''admin'', t_Floor := NewSet project_admin_perms \<rparr>,
     (first_pass U file_org_member)\<lparr> t_BaseID := template_ID U KindProject ''deployer'', t_Base := NewSet project_deployer_perms \<rparr>,
     (first_pass U file_org_readonly)\<lparr> t_BaseID := template_ID U KindProject ''viewer'', t_Base := NewSet project_viewer_perms,
        t_HasCeiling := True, t_Ceiling := NewSet org_readonly_ceiling, t_CeilingProject := NewSet org_readonly_ceiling_project,
        t_CeilingIDs := IDs (NewSet org_readonly_ceiling), t_CeilingProjIDs := IDs (NewSet org_readonly_ceiling_project) \<rparr>,
     first_pass U file_project_viewer, first_pass U file_project_deployer, first_pass U file_project_admin,
     first_pass U file_repo_repo_read, first_pass U file_repo_repo_write]"

lemma file_keys:
  "map (\<lambda>ft. (ft_Kind ft, ft_Slug ft)) (doc_Templates SystemTemplatesJSON) =
     [(KindOrg, ''owner''), (KindOrg, ''admin''), (KindOrg, ''member''), (KindOrg, ''readonly''), (KindProject, ''viewer''),
      (KindProject, ''deployer''), (KindProject, ''admin''), (KindRepo, ''repo-read''), (KindRepo, ''repo-write'')]"
  by (simp add: SystemTemplatesJSON_def file_defs)

lemma t_ID_first_pass: "t_ID (first_pass U ft) = template_ID U (ft_Kind ft) (ft_Slug ft)"
  by (simp add: first_pass_def new_Template_def)

lemma pass1_file:
  assumes "uuid_ok U"
  obtains byID where "parse_pass1 U [] [] [] (doc_Templates SystemTemplatesJSON) = Inr (map (first_pass U) (doc_Templates SystemTemplatesJSON), byID)"
    and "gomap_get byID (template_ID U KindProject ''viewer'') = Some 4" "gomap_get byID (template_ID U KindProject ''deployer'') = Some 5"
      "gomap_get byID (template_ID U KindProject ''admin'') = Some 6"
proof -
  let ?fts = "doc_Templates SystemTemplatesJSON"
  have d: "distinct (map (\<lambda>ft. t_ID (first_pass U ft)) ?fts)" using assms by (simp add: uuid_ok_def t_ID_first_pass)
  have k: "distinct (map (\<lambda>ft. (ft_Kind ft, ft_Slug ft)) ?fts)" unfolding file_keys by simp
  obtain byID where p: "parse_pass1 U [] [] [] ?fts = Inr (map (first_pass U) ?fts, byID)"
    and ix: "\<forall>i < length ?fts. gomap_get byID (t_ID (first_pass U (?fts ! i))) = Some i"
    using parse_pass1_ok [OF _ k, of U "[]" "[]" "[]"] parse_one_file [OF assms] d by auto
  show ?thesis
    by (rule that [OF p]) (use ix [rule_format, of 4] ix [rule_format, of 5] ix [rule_format, of 6]
        in \<open>simp_all add: t_ID_first_pass SystemTemplatesJSON_def file_defs\<close>)
qed

text \<open>Which sets contain which, decided on the bits.\<close>

lemma bits_subset:
  "set org_readonly_perms_b \<subseteq> set org_readonly_ceiling_b"
  "set org_readonly_ceiling_project_b \<subseteq> set org_readonly_ceiling_b"
  "set project_viewer_perms_b \<subseteq> set project_deployer_perms_b"
  "set project_deployer_perms_b \<subseteq> set project_admin_perms_b"
  "set org_readonly_ceiling_project_b = set project_viewer_perms_b"
  "26 \<in> set project_viewer_perms_b" "32 \<in> set project_deployer_perms_b - set project_viewer_perms_b"
  "29 \<in> set project_admin_perms_b - set project_deployer_perms_b"
  by code_simp+

lemma readonly_ceilings:
  "ContainsAll (NewSet org_readonly_ceiling) (NewSet org_readonly_perms)"
  "ContainsAll (NewSet org_readonly_ceiling) (NewSet org_readonly_ceiling_project)"
  using bits_subset(1,2) by (auto simp: ps.contains_has HasBit_perms)

lemma project_files:
  "uuid_ok U \<Longrightarrow> uuid_Parse U ''ddf8a5b1-322c-57c1-a334-e2c9e62922b5'' = Some (template_ID U KindProject ''viewer'')"
  "uuid_ok U \<Longrightarrow> uuid_Parse U ''27b2742d-9e83-5265-ad65-d9fde30cc4f6'' = Some (template_ID U KindProject ''deployer'')"
  "uuid_ok U \<Longrightarrow> uuid_Parse U ''a1c1ce3f-89d8-5859-90cc-874d1dc6c0fa'' = Some (template_ID U KindProject ''admin'')"
  by (simp_all add: uuid_ok_def SystemTemplatesJSON_def file_project_viewer_def file_project_deployer_def file_project_admin_def)

lemma resolve_project:
  "uuid_Parse U r = Some i \<Longrightarrow> gomap_get byID i = Some j \<Longrightarrow> t_Kind (out ! j) = KindProject \<Longrightarrow>
   resolve U out byID t what (Some r) = Inr (i, t_Permissions (out ! j))"
  by (simp add: resolve_def)

lemma out_nth:
  "map (first_pass U) (doc_Templates SystemTemplatesJSON) ! 4 = first_pass U file_project_viewer"
  "map (first_pass U) (doc_Templates SystemTemplatesJSON) ! 5 = first_pass U file_project_deployer"
  "map (first_pass U) (doc_Templates SystemTemplatesJSON) ! 6 = first_pass U file_project_admin"
  by (simp_all add: SystemTemplatesJSON_def)

lemma first_pass_fields:
  "t_Kind (first_pass U ft) = ft_Kind ft" "t_Slug (first_pass U ft) = ft_Slug ft"
  "t_Permissions (first_pass U ft) = NewSet (ft_Permissions ft)" "t_HasCeiling (first_pass U ft) = False"
  "t_Version (first_pass U ft) = ft_Version ft"
  "(first_pass U ft)\<lparr> t_FloorID := 0, t_Floor := empty_set \<rparr> = first_pass U ft"
  "(first_pass U ft)\<lparr> t_FloorID := i, t_Floor := s, t_BaseID := 0, t_Base := empty_set \<rparr> = (first_pass U ft)\<lparr> t_FloorID := i, t_Floor := s \<rparr>"
  "(first_pass U ft)\<lparr> t_FloorID := 0, t_Floor := empty_set, t_BaseID := i, t_Base := s \<rparr> = (first_pass U ft)\<lparr> t_BaseID := i, t_Base := s \<rparr>"
  by (simp_all add: first_pass_def new_Template_def)

text \<open>The second pass, one shape at a time.\<close>

lemma link_plain:
  "ft_FloorTemplate ft = None \<Longrightarrow> ft_BaseTemplate ft = None \<Longrightarrow> ft_Ceiling ft = None \<Longrightarrow> ft_CeilingProject ft = None \<Longrightarrow>
   link_one U out byID ft (first_pass U ft) = Inr (first_pass U ft)"
  by (simp add: link_one_def resolve_def Let_def first_pass_fields)

lemma link_floor:
  "ft_Kind ft = KindOrg \<Longrightarrow> ft_FloorTemplate ft = Some r \<Longrightarrow> ft_BaseTemplate ft = None \<Longrightarrow> ft_Ceiling ft = None \<Longrightarrow>
   ft_CeilingProject ft = None \<Longrightarrow> resolve U out byID (first_pass U ft) ''floor_template_id'' (Some r) = Inr (i, s) \<Longrightarrow>
   link_one U out byID ft (first_pass U ft) = Inr ((first_pass U ft)\<lparr> t_FloorID := i, t_Floor := s \<rparr>)"
  by (simp add: link_one_def first_pass_fields Let_def) (simp add: resolve_def first_pass_fields)

lemma link_base:
  "ft_Kind ft = KindOrg \<Longrightarrow> ft_FloorTemplate ft = None \<Longrightarrow> ft_BaseTemplate ft = Some r \<Longrightarrow> ft_Ceiling ft = None \<Longrightarrow>
   ft_CeilingProject ft = None \<Longrightarrow> resolve U out byID (first_pass U ft) ''base_template_id'' (Some r) = Inr (i, s) \<Longrightarrow>
   link_one U out byID ft (first_pass U ft) = Inr ((first_pass U ft)\<lparr> t_BaseID := i, t_Base := s \<rparr>)"
  by (simp add: link_one_def first_pass_fields Let_def) (simp add: resolve_def first_pass_fields)

lemma link_ceiling:
  "ft_Kind ft = KindOrg \<Longrightarrow> ft_FloorTemplate ft = None \<Longrightarrow> ft_BaseTemplate ft = Some r \<Longrightarrow>
   ft_Ceiling ft = Some ce \<Longrightarrow> ft_CeilingProject ft = Some cp \<Longrightarrow>
   resolve U out byID (first_pass U ft) ''base_template_id'' (Some r) = Inr (i, s) \<Longrightarrow>
   ParseSet ce = (NewSet ce, []) \<Longrightarrow> ParseSet cp = (NewSet cp, []) \<Longrightarrow>
   ContainsAll (NewSet ce) (NewSet (ft_Permissions ft)) \<Longrightarrow> ContainsAll (NewSet ce) (NewSet cp) \<Longrightarrow>
   link_one U out byID ft (first_pass U ft) = Inr ((first_pass U ft)\<lparr> t_BaseID := i, t_Base := s,
     t_HasCeiling := True, t_Ceiling := NewSet ce, t_CeilingProject := NewSet cp,
     t_CeilingIDs := IDs (NewSet ce), t_CeilingProjIDs := IDs (NewSet cp) \<rparr>)"
  by (simp add: link_one_def first_pass_fields Let_def)
    (simp add: resolve_def first_pass_fields set_ceiling_def)

lemma link_all_ok:
  "list_all2 (\<lambda>x t. link_one U out byID (fst x) (snd x) = Inr t) fts ts \<Longrightarrow> link_all U out byID fts = Inr ts"
  by (induction fts ts rule: list_all2_induct) simp_all

lemma Parse_embedded:
  assumes "uuid_ok U"
  shows "Parse U SystemTemplatesJSON = Inr (sys_templates U)"
proof -
  let ?out = "map (first_pass U) (doc_Templates SystemTemplatesJSON)"
  obtain byID where p: "parse_pass1 U [] [] [] (doc_Templates SystemTemplatesJSON) = Inr (?out, byID)"
    and ix: "gomap_get byID (template_ID U KindProject ''viewer'') = Some 4" "gomap_get byID (template_ID U KindProject ''deployer'') = Some 5"
      "gomap_get byID (template_ID U KindProject ''admin'') = Some 6"
    using pass1_file [OF assms] by blast
  note ref = resolve_project [OF project_files(1) [OF assms] ix(1), of ?out] resolve_project [OF project_files(2) [OF assms] ix(2), of ?out]
    resolve_project [OF project_files(3) [OF assms] ix(3), of ?out]
  have kinds: "t_Kind (?out ! 4) = KindProject" "t_Kind (?out ! 5) = KindProject" "t_Kind (?out ! 6) = KindProject"
    "t_Permissions (?out ! 4) = NewSet project_viewer_perms" "t_Permissions (?out ! 5) = NewSet project_deployer_perms"
    "t_Permissions (?out ! 6) = NewSet project_admin_perms"
    unfolding out_nth by (simp_all add: first_pass_fields file_project_viewer_def file_project_deployer_def file_project_admin_def)
  have known: "ParseSet org_readonly_ceiling = (NewSet org_readonly_ceiling, [])"
    "ParseSet org_readonly_ceiling_project = (NewSet org_readonly_ceiling_project, [])"
    unfolding perms_eq_bits by (rule ParseSet_known, rule bits_bound)+
  note org = link_floor [OF _ _ _ _ _ ref(3)] link_base [OF _ _ _ _ _ ref(2)] link_ceiling [OF _ _ _ _ _ ref(1) known]
  have "list_all2 (\<lambda>x t. link_one U ?out byID (fst x) (snd x) = Inr t)
     (zip (doc_Templates SystemTemplatesJSON) (map (first_pass U) (doc_Templates SystemTemplatesJSON))) (sys_templates U)"
  proof -
    have "link_one U ?out byID file_org_owner (first_pass U file_org_owner) = Inr (sys_templates U ! 0)"
      "link_one U ?out byID file_org_admin (first_pass U file_org_admin) = Inr (sys_templates U ! 1)"
      using org(1) [of file_org_owner] org(1) [of file_org_admin] kinds
      by (simp_all add: sys_templates_def file_org_owner_def file_org_admin_def)
    moreover have "link_one U ?out byID file_org_member (first_pass U file_org_member) = Inr (sys_templates U ! 2)"
      using org(2) [of file_org_member] kinds by (simp add: sys_templates_def file_org_member_def)
    moreover have "link_one U ?out byID file_org_readonly (first_pass U file_org_readonly) = Inr (sys_templates U ! 3)"
      using org(3) [of file_org_readonly] kinds readonly_ceilings by (simp add: sys_templates_def file_org_readonly_def)
    moreover have "link_one U ?out byID ft (first_pass U ft) = Inr (first_pass U ft)"
      if "ft \<in> {file_project_viewer, file_project_deployer, file_project_admin, file_repo_repo_read, file_repo_repo_write}" for ft
      using that by (intro link_plain) (auto simp: file_defs)
    ultimately show ?thesis by (simp add: SystemTemplatesJSON_def sys_templates_def)
  qed
  then show ?thesis using p assms link_all_ok
    by (simp add: Parse_def uuid_ok_def SchemaVersion_def catalog_Version_def) (simp add: SystemTemplatesJSON_def)
qed

lemma readonly_ceiling_viewer: "NewSet org_readonly_ceiling_project = NewSet project_viewer_perms"
  by (rule pset_eqI) (simp add: HasBit_perms bits_subset)

lemma roles_nested:
  "ContainsAll (NewSet project_deployer_perms) (NewSet project_viewer_perms)"
  "\<not> ContainsAll (NewSet project_viewer_perms) (NewSet project_deployer_perms)"
  "ContainsAll (NewSet project_admin_perms) (NewSet project_deployer_perms)"
  "\<not> ContainsAll (NewSet project_deployer_perms) (NewSet project_admin_perms)"
  using bits_subset(3,4,7,8) by (auto simp: ps.contains_has HasBit_perms)

lemma sys_template_find:
  "template_Org (sys_templates U) ''owner'' = Some (sys_templates U ! 0)"
  "template_Org (sys_templates U) ''admin'' = Some (sys_templates U ! 1)"
  "template_Org (sys_templates U) ''readonly'' = Some (sys_templates U ! 3)"
  "template_Project (sys_templates U) ''viewer'' = Some (sys_templates U ! 4)"
  "template_Project (sys_templates U) ''deployer'' = Some (sys_templates U ! 5)"
  "template_Project (sys_templates U) ''admin'' = Some (sys_templates U ! 6)"
  "template_Org (sys_templates U) ''member'' = Some (sys_templates U ! 2)"
  by (simp_all add: template_Org_def template_Project_def template_get_def sys_templates_def first_pass_def new_Template_def file_defs)

lemma find_perms:
  "t_Permissions (sys_templates U ! 4) = NewSet project_viewer_perms"
  "t_Permissions (sys_templates U ! 5) = NewSet project_deployer_perms"
  "t_Permissions (sys_templates U ! 6) = NewSet project_admin_perms"
  by (simp_all add: sys_templates_def first_pass_fields file_defs)

lemma find_links:
  "t_Floor (sys_templates U ! 0) = NewSet project_admin_perms" "t_Floor (sys_templates U ! 1) = NewSet project_admin_perms"
  "t_HasCeiling (sys_templates U ! 3)" "t_CeilingProject (sys_templates U ! 3) = NewSet project_viewer_perms"
  using readonly_ceiling_viewer by (simp_all add: sys_templates_def)

lemma no_approve_bits:
  "44 \<notin> set org_owner_perms_b" "44 \<notin> set org_admin_perms_b" "44 \<notin> set org_member_perms_b" "44 \<notin> set org_readonly_perms_b"
  "44 \<notin> set project_viewer_perms_b" "44 \<notin> set project_deployer_perms_b" "44 \<notin> set project_admin_perms_b"
  "44 \<notin> set repo_repo_read_perms_b" "44 \<notin> set repo_repo_write_perms_b"
  by code_simp+

lemma no_approve: "\<forall>t \<in> set (sys_templates U). \<not> Set_Has (t_Permissions t) ''promotion:approve''"
proof -
  have "''promotion:approve'' = ids ! 44" by (simp add: ids_eval)
  then have has: "Set_Has st ''promotion:approve'' = HasBit st 44" for st by (simp only: Set_Has_nth)
  show ?thesis unfolding has by (simp add: sys_templates_def first_pass_fields file_defs HasBit_perms no_approve_bits)
qed

section \<open>Properties\<close>

text \<open>
  C36 (invariant). Loading fails closed: when \<^verbatim>\<open>Parse\<close> accepts a document, every template has a known
  kind, a version, the uuid of its kind and slug, only permissions that can be granted at its scope, and
  all the dependencies of each of them; kinds and slugs are unique; floor and base are the permissions
  of a project template; a ceiling contains the template and its project ceiling; and only organization
  templates have these.
\<close>

theorem Parse_sound:
  assumes "Parse U doc = Inr ts"
  shows "length ts = length (doc_Templates doc) \<and> (\<forall>t \<in> set ts. template_ok U t \<and> links_ok ts t) \<and> distinct (map kind_slug ts)"
proof (intro conjI)
  obtain out byID where p: "parse_pass1 U [] [] [] (doc_Templates doc) = Inr (out, byID)"
    and l: "link_all U out byID (zip (doc_Templates doc) out) = Inr ts"
    using assms by (auto simp: Parse_def split: if_splits sum.splits)
  have 1: "\<forall>t \<in> set out. template_ok U t" "index_ok out byID" "distinct (map kind_slug out)" "length out = length (doc_Templates doc)"
    using parse_pass1_Inr [OF p] by (auto simp: index_ok_Nil)
  have noceil: "\<forall>t \<in> set out. \<not> t_HasCeiling t" by (rule pass1_no_ceiling [OF p]) simp
  have 2: "list_all2 same_core out ts" "\<forall>t \<in> set ts. links_ok out t"
  proof -
    have "\<forall>x \<in> set (zip (doc_Templates doc) out). \<not> t_HasCeiling (snd x)" using noceil by (metis in_set_zipE prod.collapse)
    from link_all_Inr [OF 1(2) l this] show "list_all2 same_core out ts" "\<forall>t \<in> set ts. links_ok out t" using 1(4) by simp_all
  qed
  show "length ts = length (doc_Templates doc)" using 2(1) 1(4) by (simp add: list_all2_lengthD [symmetric])
  show "distinct (map kind_slug ts)" using same_core_keys [OF 2(1)] 1(3) by simp
  show "\<forall>t \<in> set ts. template_ok U t \<and> links_ok ts t"
    using same_core_ok [OF 2(1)] 1(1) links_ok_core [OF 2(1)] 2(2) by blast
qed

definition ex_uuid_table :: "(string \<times> string \<times> uuid) list" where
  "ex_uuid_table = [
     (NamespaceName, ''04f66add-c6a6-5714-aa88-8166877f93a9'', 0x04f66addc6a65714aa888166877f93a9),
     (''org/owner'', ''0167de2c-9d25-5d49-90c8-a0d19a24a8c7'', 0x0167de2c9d255d4990c8a0d19a24a8c7),
     (''org/admin'', ''df249c74-c92c-5dca-93e7-231244856683'', 0xdf249c74c92c5dca93e7231244856683),
     (''org/member'', ''cd52eb93-6281-51ca-8141-ce23dc59ad8c'', 0xcd52eb93628151ca8141ce23dc59ad8c),
     (''org/readonly'', ''2bb815eb-1cb4-5d68-bfa3-ea67a3f93ced'', 0x2bb815eb1cb45d68bfa3ea67a3f93ced),
     (''project/viewer'', ''ddf8a5b1-322c-57c1-a334-e2c9e62922b5'', 0xddf8a5b1322c57c1a334e2c9e62922b5),
     (''project/deployer'', ''27b2742d-9e83-5265-ad65-d9fde30cc4f6'', 0x27b2742d9e835265ad65d9fde30cc4f6),
     (''project/admin'', ''a1c1ce3f-89d8-5859-90cc-874d1dc6c0fa'', 0xa1c1ce3f89d8585990cc874d1dc6c0fa),
     (''repo/repo-read'', ''d78a2640-17e0-5dfe-8507-3712345f015f'', 0xd78a264017e05dfe85073712345f015f),
     (''repo/repo-write'', ''6679d797-4bb4-5326-ae57-9e0d5ffe0a43'', 0x6679d7974bb45326ae579e0d5ffe0a43)]"

definition ex_uuid :: uuid_lib where
  "ex_uuid = \<lparr>
     NewSHA1 = (\<lambda>ns name. case map_of ex_uuid_table name of Some (s, u) \<Rightarrow> u | None \<Rightarrow> 1),
     uuid_Parse = (\<lambda>s. map_of (map (\<lambda>(n, s, u). (s, u)) ex_uuid_table) s),
     uuid_String = (\<lambda>u. case map_of (map (\<lambda>(n, s, u). (u, s)) ex_uuid_table) u of Some s \<Rightarrow> s | None \<Rightarrow> []),
     NameSpaceURL = 0x6ba7b8119dad11d180b400c04fd430c8 \<rparr>"

lemma ex_uuid_ok: "uuid_ok ex_uuid"
  by (simp add: uuid_ok_def ex_uuid_def ex_uuid_table_def Namespace_def NamespaceName_def template_ID_def
      SystemTemplatesJSON_def file_defs)

theorem Parse_sound_witness:
  "Parse ex_uuid SystemTemplatesJSON = Inr (sys_templates ex_uuid) \<and> distinct (map kind_slug (sys_templates ex_uuid))"
  using Parse_sound [OF Parse_embedded [OF ex_uuid_ok]] Parse_embedded [OF ex_uuid_ok] by blast

text \<open>
  The embedded document loads, and the roles it defines are nested: a project viewer
  holds less than a deployer, a deployer less than an admin; the floor of owner and admin is the project
  admin; the project ceiling of readonly is exactly the viewer; and no template grants
  \<^verbatim>\<open>promotion:approve\<close>, which only an environment's approver list gives.
\<close>

theorem system_templates_load:
  assumes "uuid_ok U"
  shows "\<exists>ts owner admin readonly pv pd pa. load U = Some ts \<and> length ts = 9 \<and>
     template_Org ts ''owner'' = Some owner \<and> template_Org ts ''admin'' = Some admin \<and> template_Org ts ''readonly'' = Some readonly \<and>
     template_Project ts ''viewer'' = Some pv \<and> template_Project ts ''deployer'' = Some pd \<and> template_Project ts ''admin'' = Some pa \<and>
     ContainsAll (t_Permissions pd) (t_Permissions pv) \<and> \<not> ContainsAll (t_Permissions pv) (t_Permissions pd) \<and>
     ContainsAll (t_Permissions pa) (t_Permissions pd) \<and> \<not> ContainsAll (t_Permissions pd) (t_Permissions pa) \<and>
     t_Floor owner = t_Permissions pa \<and> t_Floor admin = t_Permissions pa \<and>
     t_HasCeiling readonly \<and> t_CeilingProject readonly = t_Permissions pv \<and>
     (\<forall>t \<in> set ts. \<not> Set_Has (t_Permissions t) ''promotion:approve'')"
proof -
  have "load U = Some (sys_templates U)" by (simp add: load_def Parse_embedded [OF assms])
  moreover have "length (sys_templates U) = 9" by (simp add: sys_templates_def)
  ultimately show ?thesis
    using sys_template_find [of U] roles_nested no_approve [of U] by (simp add: find_perms find_links [simplified])
qed

theorem system_templates_load_witness:
  "uuid_ok ex_uuid \<and> load ex_uuid \<noteq> None"
  using system_templates_load [OF ex_uuid_ok] ex_uuid_ok by auto

end
