(* ===== verification/Legacy_Authz.thy ===== *)
theory Legacy_Authz
  imports Complex_Main Sys_Templates
begin

text \<open>
  The legacy decision and the service in front of both engines (\<^verbatim>\<open>internal/authz/authz.go\<close>,
  \<^verbatim>\<open>git_actions.go\<close>, \<^verbatim>\<open>gateway_actions.go\<close>, \<^verbatim>\<open>shadow.go\<close>): the role matrix, \<open>Resolve\<close>, the v1 operations over
  the legacy store, the modes and the shadow comparison. Roles, actions and modes are strings, as in the
  code; the interface \<^verbatim>\<open>V2\<close> is a record of functions on the state of the engine behind it.
\<close>

type_synonym Action = string
type_synonym Role = string

abbreviation RoleAdmin :: Role where "RoleAdmin \<equiv> ''admin''"
abbreviation RoleDeployer :: Role where "RoleDeployer \<equiv> ''deployer''"
abbreviation RoleViewer :: Role where "RoleViewer \<equiv> ''viewer''"
abbreviation ModeOpen :: string where "ModeOpen \<equiv> ''open''"
abbreviation ModeRestricted :: string where "ModeRestricted \<equiv> ''restricted''"

definition AllActions :: "Action list" where
  "AllActions = [''project.read'', ''project.deploy'', ''project.env_write'', ''project.env_reveal'', ''project.ops'',
     ''project.databases'', ''project.network'', ''project.members'', ''project.delete'']"

section \<open>The role matrix\<close>

text \<open>The literal of \<^verbatim>\<open>authz.go\<close>, then the \<^verbatim>\<open>init\<close> functions of \<^verbatim>\<open>gateway_actions.go\<close> and \<^verbatim>\<open>git_actions.go\<close>.\<close>

definition matrix_base :: "(Role, (Action, bool) gomap) gomap" where
  "matrix_base = [
     (RoleViewer, [(''project.read'', True)]),
     (RoleDeployer, [(''project.read'', True), (''project.deploy'', True), (''project.env_write'', True), (''project.ops'', True)]),
     (RoleAdmin, [(''project.read'', True), (''project.deploy'', True), (''project.env_write'', True), (''project.env_reveal'', True),
        (''project.ops'', True), (''project.databases'', True), (''project.network'', True), (''project.members'', True),
        (''project.delete'', True)])]"

definition grant :: "Role \<Rightarrow> Action list \<Rightarrow> (Role, (Action, bool) gomap) gomap \<Rightarrow> (Role, (Action, bool) gomap) gomap" where
  "grant r as m = foldl (\<lambda>m a. gomap_set r (gomap_set a True (gomap_at [] m r)) m) m as"

definition gateway_init :: "(Role, (Action, bool) gomap) gomap \<Rightarrow> (Role, (Action, bool) gomap) gomap" where
  "gateway_init m = grant RoleAdmin [''project.connect''] (grant RoleDeployer [''project.connect''] m)"

definition GitActions :: "Action list" where
  "GitActions = [''git.read'', ''git.write'', ''git.review'', ''git.merge'', ''git.admin'',
     ''security.read'', ''security.triage'', ''security.admin'',
     ''env.read'', ''env.request'', ''env.admin'', ''env.approve'', ''webhooks.manage'']"

definition git_init :: "(Role, (Action, bool) gomap) gomap \<Rightarrow> (Role, (Action, bool) gomap) gomap" where
  "git_init m =
     grant RoleAdmin [''git.read'', ''git.write'', ''git.review'', ''git.merge'', ''git.admin'',
         ''security.read'', ''security.triage'', ''security.admin'', ''env.read'', ''env.request'', ''env.admin'', ''webhooks.manage'']
       (grant RoleDeployer [''git.read'', ''git.write'', ''git.review'', ''git.merge'', ''security.read'', ''security.triage'',
           ''env.read'', ''env.request'']
         (grant RoleViewer [''git.read'', ''security.read'', ''env.read''] m))"

definition matrix :: "(Role, (Action, bool) gomap) gomap" where
  "matrix = git_init (gateway_init matrix_base)"

definition RoleAllows :: "Role \<Rightarrow> Action \<Rightarrow> bool" where
  "RoleAllows r a = gomap_at False (gomap_at [] matrix r) a"

definition ValidProjectRole :: "string \<Rightarrow> bool" where
  "ValidProjectRole s \<longleftrightarrow> s = RoleAdmin \<or> s = RoleDeployer \<or> s = RoleViewer"

definition ValidMode :: "string \<Rightarrow> bool" where
  "ValidMode s \<longleftrightarrow> s = ModeOpen \<or> s = ModeRestricted"

definition IsGitAction :: "Action \<Rightarrow> bool" where
  "IsGitAction a = list_ex (\<lambda>g. g = a) GitActions"

definition GitActionsFor :: "Role \<Rightarrow> Action list" where
  "GitActionsFor r = filter (RoleAllows r) GitActions"

section \<open>Resolve\<close>

record LAccess =
  la_Role :: Role
  la_Source :: Source
  la_Member :: bool
  la_Hidden :: bool

definition zero_LAccess :: LAccess where
  "zero_LAccess = \<lparr> la_Role = [], la_Source = SourceNone, la_Member = False, la_Hidden = False \<rparr>"

definition Resolve :: "string \<Rightarrow> string \<Rightarrow> string \<Rightarrow> LAccess" where
  "Resolve orgRole mode explicit =
     (if orgRole = [] then zero_LAccess
      else let a = zero_LAccess\<lparr> la_Member := True \<rparr> in
        if orgRole = ''owner'' \<or> orgRole = ''admin'' then a\<lparr> la_Role := RoleAdmin, la_Source := SourceOrg \<rparr>
        else if orgRole = ''readonly'' then
          (if mode = ModeRestricted \<and> \<not> ValidProjectRole explicit then a\<lparr> la_Hidden := True \<rparr>
           else a\<lparr> la_Role := RoleViewer,
                   la_Source := (if ValidProjectRole explicit then SourceExplicit else SourceInherited) \<rparr>)
        else if orgRole = ''member'' then
          (if ValidProjectRole explicit then a\<lparr> la_Role := explicit, la_Source := SourceExplicit \<rparr>
           else if mode = ModeRestricted then a\<lparr> la_Hidden := True \<rparr>
           else a\<lparr> la_Role := RoleDeployer, la_Source := SourceInherited \<rparr>)
        else a\<lparr> la_Hidden := True \<rparr>)"

definition CanGit :: "string \<Rightarrow> string \<Rightarrow> string \<Rightarrow> Action \<Rightarrow> bool" where
  "CanGit orgRole mode explicit a = RoleAllows (la_Role (Resolve orgRole mode explicit)) a"

record OrgAccess =
  oa_OrgRole :: string
  oa_Mode :: string
  oa_Explicit :: "(uuid, string) gomap"

record LGrant =
  lg_OrgID :: uuid
  lg_OrgSlug :: string
  lg_ProjectID :: uuid
  lg_ProjectSlug :: string
  lg_OrgRole :: string
  lg_Mode :: string
  lg_ExplicitRole :: string

text \<open>The legacy \<^verbatim>\<open>Store\<close>: organization first, then user, as in its methods.\<close>

record LStore =
  ls_LoadOrgAccess :: "uuid \<Rightarrow> uuid \<Rightarrow> OrgAccess option res"
  ls_UserGrants :: "uuid \<Rightarrow> LGrant list res"

definition accessV1 :: "LStore \<Rightarrow> uuid \<Rightarrow> uuid \<Rightarrow> uuid \<Rightarrow> LAccess res" where
  "accessV1 ls user org project =
     (case ls_LoadOrgAccess ls org user of
        Inl err \<Rightarrow> Inl err
      | Inr None \<Rightarrow> Inr zero_LAccess
      | Inr (Some oa) \<Rightarrow> Inr (Resolve (oa_OrgRole oa) (oa_Mode oa) (gomap_at [] (oa_Explicit oa) project)))"

definition filterProjectsV1 :: "LStore \<Rightarrow> uuid \<Rightarrow> uuid \<Rightarrow> uuid list \<Rightarrow> uuid list res" where
  "filterProjectsV1 ls user org projects =
     (case ls_LoadOrgAccess ls org user of
        Inl err \<Rightarrow> Inl err
      | Inr None \<Rightarrow> Inr []
      | Inr (Some oa) \<Rightarrow> Inr (filter (\<lambda>p. la_Role (Resolve (oa_OrgRole oa) (oa_Mode oa) (gomap_at [] (oa_Explicit oa) p)) \<noteq> []) projects))"

definition visibilityV1 :: "LStore \<Rightarrow> uuid \<Rightarrow> uuid \<Rightarrow> (uuid \<Rightarrow> bool) res" where
  "visibilityV1 ls user org =
     (case ls_LoadOrgAccess ls org user of
        Inl err \<Rightarrow> Inl err
      | Inr oa \<Rightarrow> Inr (\<lambda>p. case oa of None \<Rightarrow> False
          | Some oa \<Rightarrow> la_Role (Resolve (oa_OrgRole oa) (oa_Mode oa) (gomap_at [] (oa_Explicit oa) p)) \<noteq> []))"

definition group_name :: "LGrant \<Rightarrow> Role \<Rightarrow> string" where
  "group_name g r = ''project:'' @ lg_OrgSlug g @ ''/'' @ lg_ProjectSlug g @ '':'' @ r"

fun groups_loop :: "LGrant list \<Rightarrow> string list" where
  "groups_loop [] = []"
| "groups_loop (g # gs) =
     (let a = Resolve (lg_OrgRole g) (lg_Mode g) (lg_ExplicitRole g) in
      if la_Role a = [] then groups_loop gs else group_name g (la_Role a) # groups_loop gs)"

definition ProjectGroups :: "LStore \<Rightarrow> uuid \<Rightarrow> string list res" where
  "ProjectGroups ls user =
     (case ls_UserGrants ls user of Inl err \<Rightarrow> Inl err | Inr gs \<Rightarrow> Inr (sort_Strings (groups_loop gs)))"

text \<open>\<^verbatim>\<open>OrgOnlyStore\<close> over the role lookup of an organization repository (\<open>None\<close>: not found).\<close>

definition OrgOnlyStore :: "(uuid \<Rightarrow> uuid \<Rightarrow> string option res) \<Rightarrow> LStore" where
  "OrgOnlyStore role = \<lparr>
     ls_LoadOrgAccess = (\<lambda>org user. case role org user of
        Inl err \<Rightarrow> Inl err
      | Inr None \<Rightarrow> Inr None
      | Inr (Some r) \<Rightarrow> Inr (Some \<lparr> oa_OrgRole = r, oa_Mode = ModeOpen, oa_Explicit = [] \<rparr>)),
     ls_UserGrants = (\<lambda>user. Inr []) \<rparr>"

section \<open>Modes, atoms and the shadow comparison (shadow.go)\<close>

abbreviation ModeV1 :: string where "ModeV1 \<equiv> ''v1''"
abbreviation ModeShadow :: string where "ModeShadow \<equiv> ''shadow''"
abbreviation ModeV2 :: string where "ModeV2 \<equiv> ''v2''"

definition ParseMode :: "string \<Rightarrow> string \<times> bool" where
  "ParseMode s =
     (let m = strings_ToLower (strings_TrimSpace s) in
      if m = [] \<or> m = ModeV1 then (ModeV1, True)
      else if m = ModeShadow then (ModeShadow, True)
      else if m = ModeV2 then (ModeV2, True)
      else (ModeV1, False))"

record Outcome =
  oc_Access :: LAccess
  oc_Allowed :: bool

record 's V2 =
  v2_Check :: "uuid \<Rightarrow> uuid \<Rightarrow> uuid \<Rightarrow> Action \<Rightarrow> 's \<Rightarrow> Outcome res \<times> 's"
  v2_Access :: "uuid \<Rightarrow> uuid \<Rightarrow> uuid \<Rightarrow> 's \<Rightarrow> LAccess res \<times> 's"
  v2_FilterProjects :: "uuid \<Rightarrow> uuid \<Rightarrow> uuid list \<Rightarrow> 's \<Rightarrow> uuid list res \<times> 's"
  v2_Visibility :: "uuid \<Rightarrow> uuid \<Rightarrow> 's \<Rightarrow> (uuid \<Rightarrow> bool) res \<times> 's"

text \<open>The sample rate is a rational; \<open>cfg_OrgMode\<close> is \<open>None\<close> for a nil function, and the function gives
  \<open>None\<close> when it panics.\<close>

record 's EngineConfig =
  cfg_V2 :: "'s V2"
  cfg_Global :: string
  cfg_OrgMode :: "(uuid \<Rightarrow> string option) option"
  cfg_SampleRate :: rat
  cfg_Timeout :: duration
  cfg_MaxInFlight :: int

definition EnableEngine :: "'s EngineConfig \<Rightarrow> 's EngineConfig" where
  "EnableEngine cfg = cfg\<lparr>
     cfg_Global := (if cfg_Global cfg = [] then ModeV1 else cfg_Global cfg),
     cfg_SampleRate := (if cfg_SampleRate cfg \<le> 0 \<or> cfg_SampleRate cfg > 1 then 1 else cfg_SampleRate cfg),
     cfg_Timeout := (if cfg_Timeout cfg \<le> 0 then 500 * time_Millisecond else cfg_Timeout cfg),
     cfg_MaxInFlight := (if cfg_MaxInFlight cfg \<le> 0 then 64 else cfg_MaxInFlight cfg) \<rparr>"

definition modeFor :: "'s EngineConfig \<Rightarrow> uuid \<Rightarrow> string" where
  "modeFor cfg org =
     (case cfg_OrgMode cfg of
        None \<Rightarrow> cfg_Global cfg
      | Some f \<Rightarrow>
          if org = uuid_Nil then cfg_Global cfg
          else (case f org of
                  None \<Rightarrow> cfg_Global cfg
                | Some m \<Rightarrow> if m = ModeV1 \<or> m = ModeShadow \<or> m = ModeV2 then m else cfg_Global cfg))"

definition ModeFor :: "'s EngineConfig option \<Rightarrow> uuid \<Rightarrow> string" where
  "ModeFor x org = (case x of None \<Rightarrow> ModeV1 | Some cfg \<Rightarrow> modeFor cfg org)"

definition IsAtom :: "Action \<Rightarrow> bool" where
  "IsAtom a = strings_Contains a '':''"

definition Atoms :: "Action \<Rightarrow> string list" where
  "Atoms a = (if IsAtom a then (if Has a then [a] else []) else Expand a)"

text \<open>The map built once: for each atom, the old actions whose expansion contains it.\<close>

definition atomOld :: "(string, Action list) gomap" where
  "atomOld = foldl (\<lambda>m old. foldl (\<lambda>m a. gomap_set a (gomap_at [] m a @ [old]) m) m (Expand old)) [] OldActions"

definition allowV1 :: "Role \<Rightarrow> Action \<Rightarrow> bool" where
  "allowV1 r a = (if \<not> IsAtom a then RoleAllows r a else list_ex (RoleAllows r) (gomap_at [] atomOld a))"

definition checkV1 :: "LStore \<Rightarrow> uuid \<Rightarrow> uuid \<Rightarrow> uuid \<Rightarrow> Action \<Rightarrow> Outcome res" where
  "checkV1 ls user org project act =
     (case accessV1 ls user org project of
        Inl err \<Rightarrow> Inl err
      | Inr acc \<Rightarrow> Inr \<lparr> oc_Access = acc, oc_Allowed = la_Member acc \<and> \<not> la_Hidden acc \<and> allowV1 (la_Role acc) act \<rparr>)"

section \<open>The service\<close>

text \<open>What a comparison reports: skipped (the engine failed), or compared with or without a mismatch.\<close>

datatype shadow_result = ShadowSkip string | ShadowCompared bool

definition compare_check :: "Outcome \<Rightarrow> Outcome res \<Rightarrow> shadow_result" where
  "compare_check ov n = (case n of
       Inl err \<Rightarrow> ShadowSkip ''error''
     | Inr n \<Rightarrow> ShadowCompared (la_Member (oc_Access n) \<noteq> la_Member (oc_Access ov) \<or>
          la_Hidden (oc_Access n) \<noteq> la_Hidden (oc_Access ov) \<or> oc_Allowed n \<noteq> oc_Allowed ov))"

definition compare_access :: "LAccess \<Rightarrow> LAccess res \<Rightarrow> shadow_result" where
  "compare_access a n = (case n of Inl err \<Rightarrow> ShadowSkip ''error'' | Inr n \<Rightarrow> ShadowCompared (n \<noteq> a))"

fun sameProjects_loop :: "uuid list \<Rightarrow> uuid list \<Rightarrow> bool" where
  "sameProjects_loop (a # as) (b # bs) = (if a \<noteq> b then False else sameProjects_loop as bs)"
| "sameProjects_loop as bs = True"

definition sameProjects :: "uuid list \<Rightarrow> uuid list \<Rightarrow> bool" where
  "sameProjects as bs = (if length as \<noteq> length bs then False else sameProjects_loop as bs)"

definition compare_filter :: "uuid list \<Rightarrow> uuid list res \<Rightarrow> shadow_result" where
  "compare_filter ps n = (case n of Inl err \<Rightarrow> ShadowSkip ''error'' | Inr n \<Rightarrow> ShadowCompared (\<not> sameProjects ps n))"

text \<open>\<^verbatim>\<open>shadow\<close>: whether the comparison is launched, given the random draw and the comparisons in flight.\<close>

datatype launch = NotSampled | Busy | Launched

definition shadow :: "'s EngineConfig \<Rightarrow> rat \<Rightarrow> int \<Rightarrow> launch" where
  "shadow cfg draw inflight =
     (if cfg_SampleRate cfg < 1 \<and> draw \<ge> cfg_SampleRate cfg then NotSampled
      else if inflight \<ge> cfg_MaxInFlight cfg then Busy else Launched)"

text \<open>Each operation returns its answer, the state of the engine, and the comparison it hands to
  \<open>shadow\<close>: a function of the engine state, since it runs later, in a goroutine of its own.\<close>

definition Check :: "LStore \<Rightarrow> 's EngineConfig option \<Rightarrow> uuid \<Rightarrow> uuid \<Rightarrow> uuid \<Rightarrow> Action \<Rightarrow> 's
    \<Rightarrow> Outcome res \<times> 's \<times> ('s \<Rightarrow> shadow_result) option" where
  "Check ls x user org project act s =
     (case x of
        None \<Rightarrow> (checkV1 ls user org project act, s, None)
      | Some cfg \<Rightarrow>
          if modeFor cfg org = ModeV2 then
            (let (r, s') = v2_Check (cfg_V2 cfg) user org project act s in (r, s', None))
          else if modeFor cfg org = ModeShadow then
            (case checkV1 ls user org project act of
               Inl err \<Rightarrow> (Inl err, s, None)
             | Inr ov \<Rightarrow> (Inr ov, s, Some (\<lambda>s'. compare_check ov (fst (v2_Check (cfg_V2 cfg) user org project act s')))))
          else (checkV1 ls user org project act, s, None))"

definition Service_Access :: "LStore \<Rightarrow> 's EngineConfig option \<Rightarrow> uuid \<Rightarrow> uuid \<Rightarrow> uuid \<Rightarrow> 's
    \<Rightarrow> LAccess res \<times> 's \<times> ('s \<Rightarrow> shadow_result) option" where
  "Service_Access ls x user org project s =
     (case x of
        None \<Rightarrow> (accessV1 ls user org project, s, None)
      | Some cfg \<Rightarrow>
          if modeFor cfg org = ModeV2 then
            (let (r, s') = v2_Access (cfg_V2 cfg) user org project s in (r, s', None))
          else if modeFor cfg org = ModeShadow then
            (case accessV1 ls user org project of
               Inl err \<Rightarrow> (Inl err, s, None)
             | Inr a \<Rightarrow> (Inr a, s, Some (\<lambda>s'. compare_access a (fst (v2_Access (cfg_V2 cfg) user org project s')))))
          else (accessV1 ls user org project, s, None))"

definition Service_FilterProjects :: "LStore \<Rightarrow> 's EngineConfig option \<Rightarrow> uuid \<Rightarrow> uuid \<Rightarrow> uuid list \<Rightarrow> 's
    \<Rightarrow> uuid list res \<times> 's \<times> ('s \<Rightarrow> shadow_result) option" where
  "Service_FilterProjects ls x user org projects s =
     (case x of
        None \<Rightarrow> (filterProjectsV1 ls user org projects, s, None)
      | Some cfg \<Rightarrow>
          if modeFor cfg org = ModeV2 then
            (let (r, s') = v2_FilterProjects (cfg_V2 cfg) user org projects s in (r, s', None))
          else if modeFor cfg org = ModeShadow then
            (case filterProjectsV1 ls user org projects of
               Inl err \<Rightarrow> (Inl err, s, None)
             | Inr ps \<Rightarrow> (Inr ps, s, Some (\<lambda>s'. compare_filter ps (fst (v2_FilterProjects (cfg_V2 cfg) user org projects s')))))
          else (filterProjectsV1 ls user org projects, s, None))"

definition compare_visible :: "uuid \<Rightarrow> bool \<Rightarrow> (uuid \<Rightarrow> bool) res \<Rightarrow> shadow_result" where
  "compare_visible p v n = (case n of Inl err \<Rightarrow> ShadowSkip ''error'' | Inr nv \<Rightarrow> ShadowCompared (nv p \<noteq> v))"

text \<open>In shadow mode the answer is a closure with a buffered channel of capacity 8 that nothing reads:
  called for the \<open>n\<close>-th time it answers with the legacy predicate and hands over a comparison while \<open>n < 8\<close>.\<close>

definition visibility_wrapped :: "'s EngineConfig \<Rightarrow> uuid \<Rightarrow> uuid \<Rightarrow> (uuid \<Rightarrow> bool) \<Rightarrow> nat \<Rightarrow> uuid
    \<Rightarrow> bool \<times> ('s \<Rightarrow> shadow_result) option" where
  "visibility_wrapped cfg user org old n p =
     (let v = old p in
      (v, if n < 8 then Some (\<lambda>s'. compare_visible p v (fst (v2_Visibility (cfg_V2 cfg) user org s'))) else None))"

definition Service_Visibility :: "LStore \<Rightarrow> 's EngineConfig option \<Rightarrow> uuid \<Rightarrow> uuid \<Rightarrow> 's
    \<Rightarrow> (nat \<Rightarrow> uuid \<Rightarrow> bool \<times> ('s \<Rightarrow> shadow_result) option) res \<times> 's" where
  "Service_Visibility ls x user org s =
     (let plain = map_sum id (\<lambda>f n p. (f p, None)) in
      case x of
        None \<Rightarrow> (plain (visibilityV1 ls user org), s)
      | Some cfg \<Rightarrow>
          if modeFor cfg org = ModeV2 then
            (let (r, s') = v2_Visibility (cfg_V2 cfg) user org s in (plain r, s'))
          else if modeFor cfg org = ModeShadow then
            (case visibilityV1 ls user org of
               Inl err \<Rightarrow> (Inl err, s)
             | Inr old \<Rightarrow> (Inr (visibility_wrapped cfg user org old), s))
          else (plain (visibilityV1 ls user org), s))"

definition Service_Can :: "LStore \<Rightarrow> 's EngineConfig option \<Rightarrow> uuid \<Rightarrow> uuid \<Rightarrow> uuid \<Rightarrow> Action \<Rightarrow> 's \<Rightarrow> bool res" where
  "Service_Can ls x user org project act s = map_sum id oc_Allowed (fst (Check ls x user org project act s))"

definition EffectiveRole :: "LStore \<Rightarrow> 's EngineConfig option \<Rightarrow> uuid \<Rightarrow> uuid \<Rightarrow> uuid \<Rightarrow> 's \<Rightarrow> Role res" where
  "EffectiveRole ls x user org project s = map_sum id la_Role (fst (Service_Access ls x user org project s))"

section \<open>The matrix, evaluated\<close>

lemma IsAtom_iff: "IsAtom a \<longleftrightarrow> CHR '':'' \<in> set a"
  by (simp add: IsAtom_def Contains_char_iff)

lemma ids_are_atoms: "\<forall>i \<in> set ids. IsAtom i"
  unfolding IsAtom_iff ids_eval by simp

lemma old_keys_not_atoms: "\<forall>a \<in> set (map fst byOld). \<not> IsAtom a"
  unfolding IsAtom_iff byOld_eval by simp

definition role_bits :: "Role \<Rightarrow> nat list" where
  "role_bits r = (if r = RoleAdmin then project_admin_perms_b else if r = RoleDeployer then project_deployer_perms_b
     else if r = RoleViewer then project_viewer_perms_b else [])"

definition byOld_table :: "(string, nat list) gomap" where
  "byOld_table = [
    (''project.read'', [26, 27, 31, 35, 37, 38, 45, 47, 50, 52, 54, 57, 61, 64, 66]),
    (''project.ops'', [28, 46, 48, 49, 51, 53, 56, 60, 62, 65, 75]),
    (''project.delete'', [29, 30]), (''project.deploy'', [32, 33, 34, 36]),
    (''project.env_write'', [39]), (''project.env_reveal'', [40]),
    (''env.read'', [41]), (''env.admin'', [42]), (''env.request'', [43]),
    (''env.approve'', [44]), (''project.databases'', [55, 58, 59, 63]),
    (''project.network'', [67, 69, 70]), (''project.connect'', [68]),
    (''git.read'', [71, 81]), (''git.write'', [72, 82]),
    (''git.review'', [73]), (''git.merge'', [74]),
    (''git.admin'', [76, 77, 78, 79, 80, 83, 84]), (''security.read'', [85]),
    (''security.triage'', [86, 87]), (''security.admin'', [88]),
    (''webhooks.manage'', [89]), (''project.members'', [90, 91])]"

lemma byOld_table: "byOld = byOld_table"
  by (simp add: byOld_eval byOld_table_def)

text \<open>Two finite checks: on each old action the matrix agrees with containment of its expansion, and on
  each bit the old actions a role holds that contain it exist exactly when the role template holds it.\<close>

lemma matrix_eval: "matrix = [
    (RoleViewer, map (\<lambda>a. (a, True)) [''project.read'', ''git.read'', ''security.read'', ''env.read'']),
    (RoleDeployer, map (\<lambda>a. (a, True)) [''project.read'', ''project.deploy'', ''project.env_write'', ''project.ops'', ''project.connect'', ''git.read'', ''git.write'', ''git.review'', ''git.merge'', ''security.read'', ''security.triage'', ''env.read'', ''env.request'']),
    (RoleAdmin, map (\<lambda>a. (a, True)) [''project.read'', ''project.deploy'', ''project.env_write'', ''project.env_reveal'', ''project.ops'', ''project.databases'', ''project.network'', ''project.members'', ''project.delete'', ''project.connect'', ''git.read'', ''git.write'', ''git.review'', ''git.merge'', ''git.admin'', ''security.read'', ''security.triage'', ''security.admin'', ''env.read'', ''env.request'', ''env.admin'', ''webhooks.manage''])]"
  by (simp add: matrix_def git_init_def gateway_init_def grant_def matrix_base_def gomap_at_def)

lemma RoleAllows_eval:
  "RoleAllows RoleViewer a \<longleftrightarrow> List.member [''project.read'', ''git.read'', ''security.read'', ''env.read''] a"
  "RoleAllows RoleDeployer a \<longleftrightarrow> List.member [''project.read'', ''project.deploy'', ''project.env_write'', ''project.ops'', ''project.connect'', ''git.read'', ''git.write'', ''git.review'', ''git.merge'', ''security.read'', ''security.triage'', ''env.read'', ''env.request''] a"
  "RoleAllows RoleAdmin a \<longleftrightarrow> List.member [''project.read'', ''project.deploy'', ''project.env_write'', ''project.env_reveal'', ''project.ops'', ''project.databases'', ''project.network'', ''project.members'', ''project.delete'', ''project.connect'', ''git.read'', ''git.write'', ''git.review'', ''git.merge'', ''git.admin'', ''security.read'', ''security.triage'', ''security.admin'', ''env.read'', ''env.request'', ''env.admin'', ''webhooks.manage''] a"
  unfolding RoleAllows_def matrix_eval by (simp_all add: gomap_at_def)

lemma RoleAllows_none: "r \<notin> {RoleViewer, RoleDeployer, RoleAdmin} \<Longrightarrow> \<not> RoleAllows r a"
  unfolding RoleAllows_def matrix_eval by (simp add: gomap_at_def)

lemma matrix_old_check:
  "\<forall>kv \<in> set byOld_table. (RoleAllows RoleViewer (fst kv) \<longleftrightarrow> set (snd kv) \<subseteq> set project_viewer_perms_b) \<and> snd kv \<noteq> []"
  "\<forall>kv \<in> set byOld_table. RoleAllows RoleDeployer (fst kv) \<longleftrightarrow> set (snd kv) \<subseteq> set project_deployer_perms_b"
  "\<forall>kv \<in> set byOld_table. RoleAllows RoleAdmin (fst kv) \<longleftrightarrow> set (snd kv) \<subseteq> set project_admin_perms_b"
  unfolding RoleAllows_eval by code_simp+

lemma role_bits_union:
  "set project_viewer_perms_b = set (concat (map snd (filter (\<lambda>kv. RoleAllows RoleViewer (fst kv)) byOld_table)))"
  "set project_deployer_perms_b = set (concat (map snd (filter (\<lambda>kv. RoleAllows RoleDeployer (fst kv)) byOld_table)))"
  "set project_admin_perms_b = set (concat (map snd (filter (\<lambda>kv. RoleAllows RoleAdmin (fst kv)) byOld_table)))"
  unfolding RoleAllows_eval by code_simp+

lemma RoleAllows_table:
  assumes "ValidProjectRole r" and "(a, ks) \<in> set byOld_table"
  shows "RoleAllows r a \<longleftrightarrow> set ks \<subseteq> set (role_bits r)" and "ks \<noteq> []"
proof -
  note c = matrix_old_check [THEN bspec, OF assms(2), unfolded fst_conv snd_conv]
  show "RoleAllows r a \<longleftrightarrow> set ks \<subseteq> set (role_bits r)"
    using assms(1) c unfolding ValidProjectRole_def by (elim disjE) (simp_all add: role_bits_def)
  show "ks \<noteq> []" using c(1) by blast
qed

lemma RoleAllows_unknown: "a \<notin> fst ` set byOld_table \<Longrightarrow> \<not> RoleAllows r a"
  using RoleAllows_none [of r a] by (cases "r = RoleViewer"; cases "r = RoleDeployer"; cases "r = RoleAdmin")
    (auto simp: RoleAllows_eval byOld_table_def)

text \<open>The old actions a role holds cover exactly the bits of the system template of the role.\<close>

lemma role_bits_cover:
  assumes "ValidProjectRole r"
  shows "b \<in> set (role_bits r) \<longleftrightarrow> (\<exists>a ks. (a, ks) \<in> set byOld_table \<and> RoleAllows r a \<and> b \<in> set ks)"
  using assms unfolding ValidProjectRole_def
  by (elim disjE) (simp_all only: role_bits_def role_bits_union if_True if_False refl list.inject char.inject simp_thms, auto)

lemma gomap_at_foldl_append:
  "gomap_at [] (foldl (\<lambda>m a. gomap_set a (gomap_at [] m a @ [v]) m) m as) k = gomap_at [] m k @ replicate (count_list as k) v"
  by (induction as arbitrary: m) (simp_all add: replicate_append_same)

lemma atomOld_set: "set (gomap_at [] atomOld a) = {old \<in> set OldActions. a \<in> set (Expand old)}"
proof -
  have "set (gomap_at [] (foldl (\<lambda>m old. foldl (\<lambda>m a. gomap_set a (gomap_at [] m a @ [old]) m) m (Expand old)) m os) a) =
      set (gomap_at [] m a) \<union> {old \<in> set os. a \<in> set (Expand old)}" for m os
    by (induction os arbitrary: m) (auto simp: gomap_at_foldl_append count_list_0_iff)
  then show ?thesis by (simp add: atomOld_def)
qed

lemma OldActions_set: "set OldActions = fst ` set byOld_table"
  by (simp add: OldActions_def byOld_table)

lemma byOld_table_get: "(a, ks) \<in> set byOld_table \<longleftrightarrow> gomap_get byOld a = Some ks"
proof -
  have "distinct (map fst byOld_table)" by (simp add: byOld_table_def)
  then show ?thesis unfolding byOld_table by (rule map_of_eq_Some_iff [symmetric])
qed

lemma Expand_table: "(a, ks) \<in> set byOld_table \<Longrightarrow> Expand a = map ((!) ids) ks"
  by (simp add: Expand_eq gomap_at_def byOld_table_get)

lemma Expand_unknown: "a \<notin> fst ` set byOld_table \<Longrightarrow> Expand a = []"
  by (auto simp: Expand_eq gomap_at_def byOld_table map_of_eq_None_iff [symmetric])

lemma byOld_table_bound: "(a, ks) \<in> set byOld_table \<Longrightarrow> b \<in> set ks \<Longrightarrow> b < 99"
  using byOld_at_bound [of b a] by (simp add: gomap_at_def byOld_table_get)

text \<open>The legacy decision of an action is containment of its atoms in the role template.\<close>

lemma allowV1_iff:
  assumes r: "ValidProjectRole r"
  shows "allowV1 r a \<longleftrightarrow> Atoms a \<noteq> [] \<and> (\<forall>i \<in> set (Atoms a). \<exists>b \<in> set (role_bits r). ids ! b = i)"
proof (cases "IsAtom a")
  case True
  have "allowV1 r a \<longleftrightarrow> (\<exists>kv \<in> set byOld_table. RoleAllows r (fst kv) \<and> a \<in> set (Expand (fst kv)))"
    using True by (auto simp: allowV1_def list_ex_iff atomOld_set OldActions_set)
  also have "\<dots> \<longleftrightarrow> (\<exists>kv \<in> set byOld_table. RoleAllows r (fst kv) \<and> a \<in> (!) ids ` set (snd kv))"
  proof -
    have "set (Expand (fst kv)) = (!) ids ` set (snd kv)" if "kv \<in> set byOld_table" for kv
      using Expand_table [of "fst kv" "snd kv"] that by simp
    then show ?thesis by blast
  qed
  also have "\<dots> \<longleftrightarrow> (\<exists>b \<in> set (role_bits r). ids ! b = a)" by (force simp: role_bits_cover [OF r])
  also have "\<dots> \<longleftrightarrow> Has a \<and> (\<exists>b \<in> set (role_bits r). ids ! b = a)"
    by (auto simp: Has_iff role_bits_cover [OF r] byOld_table_bound)
  finally show ?thesis using True by (auto simp: Atoms_def)
next
  case False
  show ?thesis
  proof (cases "a \<in> fst ` set byOld_table")
    case True
    then obtain ks where ks: "(a, ks) \<in> set byOld_table" by auto
    have "b \<in> set (role_bits r) \<longleftrightarrow> (\<exists>c \<in> set (role_bits r). ids ! c = ids ! b)" if "b \<in> set ks" for b
      using byOld_table_bound [OF ks that] byOld_table_bound distinct_ids
      by (metis length_ids nth_eq_iff_index_eq role_bits_cover [OF r])
    then show ?thesis using False RoleAllows_table [OF r ks] Expand_table [OF ks]
      by (auto simp: allowV1_def Atoms_def)
  next
    case no: False
    then show ?thesis using False RoleAllows_unknown [OF no] Expand_unknown [OF no] by (simp add: allowV1_def Atoms_def)
  qed
qed

lemma role_bits_template:
  assumes "ValidProjectRole r"
  shows "\<exists>t. template_Project (sys_templates U) r = Some t \<and> (\<forall>b. HasBit (t_Permissions t) b \<longleftrightarrow> b \<in> set (role_bits r))"
  using assms unfolding ValidProjectRole_def
  by (elim disjE) (simp_all add: sys_template_find find_perms HasBit_perms role_bits_def)

lemma role_bits_bound: "ValidProjectRole r \<Longrightarrow> b \<in> set (role_bits r) \<Longrightarrow> b < 99"
  using byOld_table_bound by (auto simp: role_bits_cover)

lemma has_role_bits:
  assumes "\<forall>b. HasBit st b \<longleftrightarrow> b \<in> set (role_bits r)" and "ValidProjectRole r"
  shows "Set_Has st i \<longleftrightarrow> (\<exists>b \<in> set (role_bits r). ids ! b = i)"
  using assms role_bits_bound by (auto simp: Set_Has_iff)

section \<open>Properties\<close>

text \<open>
  \<open>Resolve\<close>: a role is given exactly to members who may see the project, and it is one
  of the three project roles; owners and admins are project admins everywhere; readonly never gets more
  than viewer; in a restricted organization the others need an explicit row; an unknown organization
  role sees nothing.
\<close>

theorem Resolve_spec:
  "(la_Role (Resolve rl m e) \<noteq> [] \<longleftrightarrow> la_Member (Resolve rl m e) \<and> \<not> la_Hidden (Resolve rl m e)) \<and>
   (la_Role (Resolve rl m e) \<noteq> [] \<longrightarrow> ValidProjectRole (la_Role (Resolve rl m e))) \<and>
   (rl = ''owner'' \<or> rl = ''admin'' \<longrightarrow> la_Role (Resolve rl m e) = RoleAdmin) \<and>
   (rl = ''readonly'' \<longrightarrow> la_Role (Resolve rl m e) = [] \<or> la_Role (Resolve rl m e) = RoleViewer) \<and>
   (m = ModeRestricted \<and> \<not> ValidProjectRole e \<and> rl \<noteq> ''owner'' \<and> rl \<noteq> ''admin'' \<longrightarrow> la_Role (Resolve rl m e) = []) \<and>
   (rl \<notin> {''owner'', ''admin'', ''member'', ''readonly''} \<longrightarrow> la_Role (Resolve rl m e) = [])"
  by (auto simp: Resolve_def zero_LAccess_def ValidProjectRole_def Let_def)

theorem Resolve_spec_witness:
  "''restricted'' = ModeRestricted \<and> \<not> ValidProjectRole [] \<and> la_Role (Resolve ''member'' ModeRestricted []) = []"
  using Resolve_spec [of "''member''" ModeRestricted "[]"] by (simp add: ValidProjectRole_def)

text \<open>
  C35 (equivalence). The legacy matrix and the system project templates are the same policy: for each
  project role and every action, old or atomic, the legacy decision is that the action has atoms and the
  template of the role holds them all.
\<close>

theorem matrix_equals_templates:
  assumes "uuid_ok U" and "ValidProjectRole r"
  shows "\<exists>ts t. load U = Some ts \<and> template_Project ts r = Some t \<and>
     (\<forall>a. allowV1 r a \<longleftrightarrow> Atoms a \<noteq> [] \<and> (\<forall>i \<in> set (Atoms a). Set_Has (t_Permissions t) i))"
proof -
  obtain t where t: "template_Project (sys_templates U) r = Some t" and b: "\<forall>b. HasBit (t_Permissions t) b \<longleftrightarrow> b \<in> set (role_bits r)"
    using role_bits_template [OF assms(2)] by blast
  have "load U = Some (sys_templates U)" by (simp add: load_def Parse_embedded [OF assms(1)])
  then show ?thesis using t allowV1_iff [OF assms(2)] has_role_bits [OF b assms(2)] by auto
qed

theorem matrix_equals_templates_witness:
  "uuid_ok ex_uuid \<and> ValidProjectRole RoleDeployer \<and> (\<exists>ts t. load ex_uuid = Some ts \<and> template_Project ts RoleDeployer = Some t \<and>
     (allowV1 RoleDeployer ''project.deploy'' \<longleftrightarrow>
        Atoms ''project.deploy'' \<noteq> [] \<and> (\<forall>i \<in> set (Atoms ''project.deploy''). Set_Has (t_Permissions t) i)))"
proof -
  have v: "ValidProjectRole RoleDeployer" by (simp add: ValidProjectRole_def)
  show ?thesis using matrix_equals_templates [OF ex_uuid_ok v] ex_uuid_ok v by blast
qed

text \<open>
  The mode decides who answers: without an engine, in mode v1 and in mode shadow, the
  answers of \<^verbatim>\<open>Check\<close>, \<^verbatim>\<open>Access\<close> and \<^verbatim>\<open>FilterProjects\<close> are the legacy ones and the engine is not touched
  by the call; a comparison is handed over only in mode shadow.
\<close>

theorem shadow_keeps_answers:
  assumes "ModeFor x org \<noteq> ModeV2"
  shows "fst (Check ls x user org p act s) = checkV1 ls user org p act \<and> fst (snd (Check ls x user org p act s)) = s \<and>
     fst (Service_Access ls x user org p s) = accessV1 ls user org p \<and> fst (snd (Service_Access ls x user org p s)) = s \<and>
     fst (Service_FilterProjects ls x user org ps s) = filterProjectsV1 ls user org ps \<and>
     fst (snd (Service_FilterProjects ls x user org ps s)) = s \<and>
     (snd (snd (Check ls x user org p act s)) \<noteq> None \<longrightarrow> ModeFor x org = ModeShadow)"
  using assms
  by (intro conjI; cases x; simp add: Check_def Service_Access_def Service_FilterProjects_def ModeFor_def split: sum.split)

definition ex_lstore :: LStore where
  "ex_lstore = OrgOnlyStore (\<lambda>org user. Inr (if user = 5 then Some ''member'' else None))"

theorem shadow_keeps_answers_witness:
  "ModeFor (None :: unit EngineConfig option) 1 \<noteq> ModeV2 \<and>
   fst (Check ex_lstore (None :: unit EngineConfig option) 5 1 6 ''project.read'' ()) = checkV1 ex_lstore 5 1 6 ''project.read''"
  using shadow_keeps_answers [of "None :: unit EngineConfig option" 1 ex_lstore 5 6 "''project.read''" "()"] by (simp add: ModeFor_def)

end
