(* ===== verification/V2_Adapter.thy ===== *)
theory V2_Adapter
  imports Legacy_Authz
begin

text \<open>
  The engine with the shapes of the legacy package (\<^verbatim>\<open>internal/authz/v2adapter/adapter.go\<close>), the legacy
  store presented as a store of the engine, the token decision (\<^verbatim>\<open>internal/authz/wire/tokens.go\<close>) and the
  cache of per-organization modes (\<^verbatim>\<open>OrgModes\<close> of \<^verbatim>\<open>internal/authz/wire/wire.go\<close>). The main theorem is the
  migration property: over a legacy store, the new engine gives the outcomes of the legacy decision.

  A panic of \<^verbatim>\<open>LegacyRole\<close> (a system template is missing) is the error \<open>legacy_panic\<close>; it does not happen
  once the embedded document has loaded.
\<close>

section \<open>The adapter\<close>

definition legacy_panic :: string where
  "legacy_panic = ''engine: system project templates missing''"

definition scopeOf :: "uuid \<Rightarrow> EScope" where
  "scopeOf project = (if project = uuid_Nil then OrgScope else ProjectScope project)"

definition strictNeeded :: "string list \<Rightarrow> bool" where
  "strictNeeded ps = list_ex (\<lambda>p. case Get p of Some c \<Rightarrow> Sensitive c | None \<Rightarrow> False) ps"

definition legacyAccess :: "Template list \<Rightarrow> Access \<Rightarrow> pset \<Rightarrow> LAccess res" where
  "legacyAccess ts a st =
     (case LegacyRole ts st of
        None \<Rightarrow> Inl legacy_panic
      | Some r \<Rightarrow> Inr \<lparr> la_Role = r, la_Source = acc_Source a, la_Member = acc_Member a, la_Hidden = acc_Hidden a \<rparr>)"

definition adapter_Check :: "Template list \<Rightarrow> Store \<Rightarrow> time \<Rightarrow> uuid \<Rightarrow> uuid \<Rightarrow> uuid \<Rightarrow> Action \<Rightarrow> Engine \<Rightarrow> Outcome res \<times> Engine" where
  "adapter_Check ts st now user org project act e =
     (let want = Atoms act;
          (r, e') = (if strictNeeded want then EffectiveStrict st e (user, org) (scopeOf project) now
                     else Effective st e (user, org) (scopeOf project) now)
      in (case r of
            Inl err \<Rightarrow> Inl err
          | Inr (acc, s) \<Rightarrow>
              (case legacyAccess ts acc s of
                 Inl err \<Rightarrow> Inl err
               | Inr la \<Rightarrow>
                   let (ws, unknown) = ParseSet want in
                   Inr \<lparr> oc_Access = la, oc_Allowed = acc_Member acc \<and> \<not> acc_Hidden acc \<and> length want > 0 \<and>
                         length unknown = 0 \<and> ContainsAll s ws \<rparr>), e'))"

definition adapter_Access :: "Template list \<Rightarrow> Store \<Rightarrow> time \<Rightarrow> uuid \<Rightarrow> uuid \<Rightarrow> uuid \<Rightarrow> Engine \<Rightarrow> LAccess res \<times> Engine" where
  "adapter_Access ts st now user org project e =
     (let (r, e') = Effective st e (user, org) (scopeOf project) now in
      (case r of Inl err \<Rightarrow> Inl err | Inr (acc, s) \<Rightarrow> legacyAccess ts acc s, e'))"

definition adapter_FilterProjects :: "Store \<Rightarrow> time \<Rightarrow> uuid \<Rightarrow> uuid \<Rightarrow> uuid list \<Rightarrow> Engine \<Rightarrow> uuid list res \<times> Engine" where
  "adapter_FilterProjects st now user org ps e = FilterProjects st e (user, org) ps now"

definition adapter_Visibility :: "Store \<Rightarrow> time \<Rightarrow> uuid \<Rightarrow> uuid \<Rightarrow> Engine \<Rightarrow> (uuid \<Rightarrow> bool) res \<times> Engine" where
  "adapter_Visibility st now user org e = Visibility st e (user, org) now"

definition Adapter :: "Template list \<Rightarrow> Store \<Rightarrow> time \<Rightarrow> Engine V2" where
  "Adapter ts st now = \<lparr> v2_Check = adapter_Check ts st now, v2_Access = adapter_Access ts st now,
     v2_FilterProjects = adapter_FilterProjects st now, v2_Visibility = adapter_Visibility st now \<rparr>"

section \<open>LegacyStore\<close>

definition engine_template :: "Template \<Rightarrow> OrgTemplate" where
  "engine_template t = \<lparr> tpl_ID = t_ID t, tpl_Slug = t_Slug t, tpl_Version = t_Version t, tpl_Permissions = t_Permissions t,
     tpl_FloorID = t_FloorID t, tpl_BaseID = t_BaseID t, tpl_Floor = t_Floor t, tpl_Base = t_Base t,
     tpl_HasCeiling = t_HasCeiling t, tpl_Ceiling = t_Ceiling t, tpl_CeilingProject = t_CeilingProject t \<rparr>"

text \<open>The loop over the explicit roles; \<open>fresh\<close> is \<^verbatim>\<open>uuid.New()\<close> for the entry of a project.\<close>

definition explicit_assignments :: "Template list \<Rightarrow> (uuid \<Rightarrow> uuid) \<Rightarrow> uuid \<Rightarrow> (uuid, string) gomap \<Rightarrow> Assignment list" where
  "explicit_assignments ts fresh user ex = concat (map (\<lambda>(pid, role).
     if \<not> ValidProjectRole role then []
     else case template_Project ts role of
            None \<Rightarrow> []
          | Some pt \<Rightarrow> [\<lparr> a_ID = fresh pid, a_SubjectKind = SubjectUser, a_SubjectID = user, a_Scope = StProject,
               a_ScopeID = pid, a_ProjectID = pid, a_TemplateID = t_ID pt, a_TemplateSlug = t_Slug pt,
               a_TemplateVersion = t_Version pt, a_Permissions = t_Permissions pt, a_Source = ''migrated'', a_ExpiresAt = 0 \<rparr>]) ex)"

definition legacy_data :: "Template list \<Rightarrow> (uuid \<Rightarrow> uuid) \<Rightarrow> uuid \<Rightarrow> OrgAccess \<Rightarrow> AccessData" where
  "legacy_data ts fresh user oa = zero_AccessData\<lparr> d_Member := True, d_UserActive := True, d_MemberActive := True,
     d_Policy := oa_Mode oa, d_Template := map_option engine_template (template_Org ts (oa_OrgRole oa)),
     d_Assignments := explicit_assignments ts fresh user (oa_Explicit oa) \<rparr>"

definition LegacyStore :: "Template list \<Rightarrow> (uuid \<Rightarrow> uuid) \<Rightarrow> LStore \<Rightarrow> (cacheKey \<Rightarrow> snapshot res) \<Rightarrow> Store" where
  "LegacyStore ts fresh old wait = \<lparr>
     st_LoadAccess = (\<lambda>(user, org). case ls_LoadOrgAccess old org user of
        Inl err \<Rightarrow> Inl err
      | Inr None \<Rightarrow> Inr (Some zero_AccessData)
      | Inr (Some oa) \<Rightarrow> Inr (Some (legacy_data ts fresh user oa))),
     st_Epochs = (\<lambda>k. Inr \<lparr> ep_Org = 0, ep_User = 0 \<rparr>),
     st_wait = wait \<rparr>"

text \<open>\<^verbatim>\<open>NewLegacyV2\<close>: a TTL of one nanosecond, and a clock that advances on every read.\<close>

definition NewLegacyEngine :: Engine where
  "NewLegacyEngine = New 1 0"

section \<open>Token decisions (wire/tokens.go)\<close>

record TokenInfo =
  ti_TokenID :: uuid
  ti_Restricted :: bool
  ti_Set :: pset
  ti_OrgID :: "uuid option"
  ti_ProjectID :: "uuid option"

definition DecideToken :: "Store \<Rightarrow> Engine \<Rightarrow> time \<Rightarrow> TokenInfo \<Rightarrow> uuid \<Rightarrow> uuid \<Rightarrow> uuid \<Rightarrow> string list \<Rightarrow> bool res \<times> Engine" where
  "DecideToken st e now ti user org project ps =
     (let (r, e') = EffectiveStrict st e (user, org) (scopeOf project) now in
      (case r of
         Inl err \<Rightarrow> Inl err
       | Inr (acc, s) \<Rightarrow>
           if \<not> acc_Member acc \<or> acc_Hidden acc then Inr False
           else let (want, unknown) = ParseSet ps in
             if length unknown > 0 \<or> length ps = 0 \<or> \<not> ContainsAll s want then Inr False
             else if ti_Restricted ti then
               (if \<not> ContainsAll (ti_Set ti) want then Inr False
                else if (case ti_OrgID ti of Some i \<Rightarrow> i \<noteq> org | None \<Rightarrow> False) then Inr False
                else if (case ti_ProjectID ti of Some i \<Rightarrow> i \<noteq> project | None \<Rightarrow> False) then Inr False
                else Inr True)
             else Inr True, e'))"

section \<open>Per-organization modes (wire/wire.go)\<close>

record modeEntry =
  me_mode :: string
  me_exp :: time

record OrgModes =
  om_ttl :: duration
  om_m :: "(uuid, modeEntry) gomap"

definition NewOrgModes :: "duration \<Rightarrow> OrgModes" where
  "NewOrgModes ttl = \<lparr> om_ttl = (if ttl \<le> 0 then 10 * time_Second else ttl), om_m = [] \<rparr>"

text \<open>\<open>src\<close> is \<^verbatim>\<open>LoadOrgPolicy\<close> followed by the JSON decoding of the settings: an error, or the engine field
  (empty when there is no policy, no such field or no valid JSON).\<close>

definition OrgModes_load :: "(uuid \<Rightarrow> string res) \<Rightarrow> OrgModes \<Rightarrow> uuid \<Rightarrow> time \<Rightarrow> string \<times> OrgModes" where
  "OrgModes_load src om org now =
     (case src org of
        Inl err \<Rightarrow> ([], om)
      | Inr s \<Rightarrow>
          let mode = (if s \<noteq> [] \<and> snd (ParseMode s) then fst (ParseMode s) else []);
              m = (if length (om_m om) > 4096 then [] else om_m om)
          in (mode, om\<lparr> om_m := gomap_set org \<lparr> me_mode = mode, me_exp = now + om_ttl om \<rparr> m \<rparr>))"

definition OrgModes_Mode :: "(uuid \<Rightarrow> string res) \<Rightarrow> OrgModes \<Rightarrow> uuid \<Rightarrow> time \<Rightarrow> string \<times> OrgModes" where
  "OrgModes_Mode src om org now =
     (case gomap_get (om_m om) org of
        Some en \<Rightarrow> if now < me_exp en then (me_mode en, om) else OrgModes_load src om org now
      | None \<Rightarrow> OrgModes_load src om org now)"

definition OrgModes_Invalidate :: "OrgModes \<Rightarrow> uuid \<Rightarrow> OrgModes" where
  "OrgModes_Invalidate om org = om\<lparr> om_m := (if org = uuid_Nil then [] else gomap_del org (om_m om)) \<rparr>"

section \<open>What the legacy data compile to\<close>

lemma explicit_assignments_mem:
  assumes "gomap_wf ex"
  shows "a \<in> set (explicit_assignments ts fresh user ex) \<Longrightarrow> a_Scope a = StProject \<and> a_ExpiresAt a = 0 \<and>
      gomap_get ex (a_ScopeID a) \<noteq> None \<and> ValidProjectRole (gomap_at [] ex (a_ScopeID a)) \<and>
      (\<exists>pt. template_Project ts (gomap_at [] ex (a_ScopeID a)) = Some pt \<and> a_Permissions a = t_Permissions pt)"
    and "ValidProjectRole (gomap_at [] ex p) \<Longrightarrow> template_Project ts (gomap_at [] ex p) \<noteq> None \<Longrightarrow>
      \<exists>a \<in> set (explicit_assignments ts fresh user ex). a_ScopeID a = p"
proof -
  assume "a \<in> set (explicit_assignments ts fresh user ex)"
  then obtain pid role pt where "(pid, role) \<in> set ex" "ValidProjectRole role" "template_Project ts role = Some pt"
    "a_ScopeID a = pid" "a_Scope a = StProject" "a_ExpiresAt a = 0" "a_Permissions a = t_Permissions pt"
    by (auto simp: explicit_assignments_def split: if_splits option.splits) metis
  moreover from this have "gomap_get ex pid = Some role" using assms by simp
  ultimately show "a_Scope a = StProject \<and> a_ExpiresAt a = 0 \<and>
      gomap_get ex (a_ScopeID a) \<noteq> None \<and> ValidProjectRole (gomap_at [] ex (a_ScopeID a)) \<and>
      (\<exists>pt. template_Project ts (gomap_at [] ex (a_ScopeID a)) = Some pt \<and> a_Permissions a = t_Permissions pt)"
    by (simp add: gomap_at_def)
next
  assume v: "ValidProjectRole (gomap_at [] ex p)" and t: "template_Project ts (gomap_at [] ex p) \<noteq> None"
  then obtain role pt where "gomap_get ex p = Some role" "ValidProjectRole role" "template_Project ts role = Some pt"
    by (cases "gomap_get ex p") (auto simp: gomap_at_def ValidProjectRole_def)
  then have "(p, role) \<in> set ex" by (simp add: map_of_SomeD)
  then show "\<exists>a \<in> set (explicit_assignments ts fresh user ex). a_ScopeID a = p"
    using \<open>ValidProjectRole role\<close> \<open>template_Project ts role = Some pt\<close>
    by (force simp: explicit_assignments_def)
qed

text \<open>The four organization templates, by what the evaluator reads of them.\<close>

lemma org_template_fields:
  "template_Org (sys_templates U) rl \<noteq> None \<longleftrightarrow> rl \<in> {''owner'', ''admin'', ''member'', ''readonly''}"
  by (simp add: template_Org_def template_get_def sys_templates_def first_pass_def new_Template_def file_defs)

lemma org_template_bits:
  "rl = ''owner'' \<or> rl = ''admin'' \<Longrightarrow> template_Org (sys_templates U) rl = Some t \<Longrightarrow>
     \<not> t_HasCeiling t \<and> t_Base t = empty_set \<and> (\<forall>b. HasBit (t_Floor t) b \<longleftrightarrow> b \<in> set project_admin_perms_b)"
  "template_Org (sys_templates U) ''member'' = Some t \<Longrightarrow>
     \<not> t_HasCeiling t \<and> t_Floor t = empty_set \<and> (\<forall>b. HasBit (t_Base t) b \<longleftrightarrow> b \<in> set project_deployer_perms_b)"
  "template_Org (sys_templates U) ''readonly'' = Some t \<Longrightarrow>
     t_HasCeiling t \<and> t_Floor t = empty_set \<and> (\<forall>b. HasBit (t_Base t) b \<longleftrightarrow> b \<in> set project_viewer_perms_b) \<and>
     (\<forall>b. HasBit (t_CeilingProject t) b \<longleftrightarrow> b \<in> set project_viewer_perms_b)"
  using readonly_ceiling_viewer
  by (auto simp: sys_template_find) (simp_all add: sys_templates_def first_pass_def new_Template_def HasBit_perms)

lemma legacy_data_fields:
  "d_Member (legacy_data ts fresh user oa)" "d_UserActive (legacy_data ts fresh user oa)" "d_MemberActive (legacy_data ts fresh user oa)"
  "d_Template (legacy_data ts fresh user oa) = map_option engine_template (template_Org ts (oa_OrgRole oa))"
  "d_Policy (legacy_data ts fresh user oa) = oa_Mode oa" "d_ProjectOverrides (legacy_data ts fresh user oa) = []"
  "d_Assignments (legacy_data ts fresh user oa) = explicit_assignments ts fresh user (oa_Explicit oa)"
  by (simp_all add: legacy_data_def zero_AccessData_def)

lemma legacy_data_wf: "gomap_wf (oa_Explicit oa) \<Longrightarrow> data_wf (legacy_data ts fresh user oa)"
  using explicit_assignments_mem(1) by (fastforce simp: data_wf_def legacy_data_fields)

lemma legacy_live:
  assumes wf: "gomap_wf (oa_Explicit oa)"
  shows "live_at (legacy_data ts fresh user oa) now StOrg = []"
    and "live_at (legacy_data ts fresh user oa) now StProject = explicit_assignments ts fresh user (oa_Explicit oa)"
  using explicit_assignments_mem(1) [OF wf]
  by (auto simp: live_at_def live_def legacy_data_fields expired_def IsZero_def filter_empty_conv filter_id_conv)

lemma project_role_known: "ValidProjectRole r \<Longrightarrow> template_Project (sys_templates U) r \<noteq> None"
  using role_bits_template by fastforce

abbreviation sys_data :: "uuid_lib \<Rightarrow> (uuid \<Rightarrow> uuid) \<Rightarrow> uuid \<Rightarrow> OrgAccess \<Rightarrow> AccessData" where
  "sys_data U fresh user oa \<equiv> legacy_data (sys_templates U) fresh user oa"

lemma legacy_own:
  assumes wf: "gomap_wf (oa_Explicit oa)"
  shows "own_of (sys_data U fresh user oa) now p \<noteq> [] \<longleftrightarrow> ValidProjectRole (gomap_at [] (oa_Explicit oa) p)"
    and "grants (own_of (sys_data U fresh user oa) now p) b \<longleftrightarrow> b \<in> set (role_bits (gomap_at [] (oa_Explicit oa) p))"
proof -
  let ?ex = "oa_Explicit oa" and ?as = "explicit_assignments (sys_templates U) fresh user (oa_Explicit oa)"
  have own: "own_of (sys_data U fresh user oa) now p = filter (\<lambda>a. a_ScopeID a = p) ?as" by (simp add: own_of_def legacy_live [OF wf])
  show ne: "own_of (sys_data U fresh user oa) now p \<noteq> [] \<longleftrightarrow> ValidProjectRole (gomap_at [] ?ex p)"
    using explicit_assignments_mem(1) [OF wf] explicit_assignments_mem(2) [OF wf, of p] project_role_known
    by (auto simp: own filter_empty_conv)
  have bits: "HasBit (a_Permissions a) b \<longleftrightarrow> b \<in> set (role_bits (gomap_at [] ?ex p))"
    if "a \<in> set (own_of (sys_data U fresh user oa) now p)" for a
  proof -
    have "a \<in> set ?as" and p: "a_ScopeID a = p" using that by (simp_all add: own)
    then obtain pt where "template_Project (sys_templates U) (gomap_at [] ?ex p) = Some pt" "a_Permissions a = t_Permissions pt"
        "ValidProjectRole (gomap_at [] ?ex p)"
      using explicit_assignments_mem(1) [OF wf, of a "sys_templates U" fresh user] by blast
    then show ?thesis using role_bits_template [of "gomap_at [] ?ex p" U] by simp
  qed
  show "grants (own_of (sys_data U fresh user oa) now p) b \<longleftrightarrow> b \<in> set (role_bits (gomap_at [] ?ex p))"
  proof (cases "ValidProjectRole (gomap_at [] ?ex p)")
    case True
    then have "own_of (sys_data U fresh user oa) now p \<noteq> []" using ne by blast
    then obtain a where a: "a \<in> set (own_of (sys_data U fresh user oa) now p)" by (meson hd_in_set)
    show ?thesis unfolding grants_def using bits a by blast
  next
    case False
    then have "own_of (sys_data U fresh user oa) now p = []" using ne by blast
    moreover have "role_bits (gomap_at [] ?ex p) = []" using False by (simp add: role_bits_def ValidProjectRole_def)
    ultimately show ?thesis by (simp add: grants_def)
  qed
qed

text \<open>The effective set at a project is the template of the role the legacy decision resolves.\<close>

lemma opens_legacy: "opens (sys_data U fresh user oa) p \<longleftrightarrow> oa_Mode oa \<noteq> ModeRestricted"
  by (simp add: opens_def legacy_data_fields)

lemma role_bits_simps:
  "role_bits RoleAdmin = project_admin_perms_b" "role_bits RoleDeployer = project_deployer_perms_b"
  "role_bits RoleViewer = project_viewer_perms_b" "role_bits [] = []"
  by (simp_all add: role_bits_def)

lemma role_bits_between:
  "ValidProjectRole r \<Longrightarrow> set project_viewer_perms_b \<subseteq> set (role_bits r) \<and> set (role_bits r) \<subseteq> set project_admin_perms_b"
  using bits_subset(3,4) by (auto simp: ValidProjectRole_def role_bits_def)

lemma spec_project_legacy:
  assumes "gomap_wf (oa_Explicit oa)"
  shows "spec_project (sys_data U fresh user oa) t now p b \<longleftrightarrow> HasBit (tpl_Floor t) b \<or>
     (if ValidProjectRole (gomap_at [] (oa_Explicit oa) p) then b \<in> set (role_bits (gomap_at [] (oa_Explicit oa) p))
      else oa_Mode oa \<noteq> ModeRestricted \<and> HasBit (tpl_Base t) b)"
  using legacy_own [OF assms] by (simp add: spec_project_def legacy_live [OF assms] opens_legacy grants_def)

lemma legacy_resolves:
  "resolves (sys_data U fresh user oa) t \<longleftrightarrow> (\<exists>T. template_Org (sys_templates U) (oa_OrgRole oa) = Some T \<and> t = engine_template T)"
  by (auto simp: resolves_def legacy_data_fields)

lemma engine_template_fields:
  "tpl_Floor (engine_template T) = t_Floor T" "tpl_Base (engine_template T) = t_Base T"
  "tpl_HasCeiling (engine_template T) = t_HasCeiling T" "tpl_CeilingProject (engine_template T) = t_CeilingProject T"
  by (simp_all add: engine_template_def)

lemma spec_effective_project:
  assumes "resolves d t"
  shows "spec_effective d now (ProjectScope p) =
    (if spec_project d t now p bitView \<and> (tpl_HasCeiling t \<longrightarrow> HasBit (tpl_CeilingProject t) bitView)
     then {b. spec_project d t now p b \<and> (tpl_HasCeiling t \<longrightarrow> HasBit (tpl_CeilingProject t) b)} else {})"
  by (auto simp: spec_effective_resolves [OF assms] spec_bounded_def nested_of_def ProjectScope_def grants_def)

lemma view_in_role: "ValidProjectRole r \<Longrightarrow> 26 \<in> set (role_bits r)"
  using role_bits_between bits_subset(6) by blast

lemma legacy_effective:
  assumes wf: "gomap_wf (oa_Explicit oa)"
  shows "spec_effective (sys_data U fresh user oa) now (ProjectScope p) =
     set (role_bits (la_Role (Resolve (oa_OrgRole oa) (oa_Mode oa) (gomap_at [] (oa_Explicit oa) p))))"
proof (cases "template_Org (sys_templates U) (oa_OrgRole oa)")
  case None
  then have "oa_OrgRole oa \<notin> {''owner'', ''admin'', ''member'', ''readonly''}" using org_template_fields by blast
  then have "la_Role (Resolve (oa_OrgRole oa) (oa_Mode oa) e) = []" for e by (simp add: Resolve_def zero_LAccess_def Let_def)
  moreover have "\<nexists>t. resolves (sys_data U fresh user oa) t" by (simp add: legacy_resolves None)
  ultimately show ?thesis by (simp add: spec_effective_closed role_bits_simps)
next
  case (Some T)
  let ?e = "gomap_at [] (oa_Explicit oa) p"
  have r: "resolves (sys_data U fresh user oa) (engine_template T)" by (simp add: legacy_resolves Some)
  note eff = spec_effective_project [OF r, of now p] spec_project_legacy [OF wf] engine_template_fields
  have "oa_OrgRole oa \<in> {''owner'', ''admin'', ''member'', ''readonly''}" using org_template_fields Some by blast
  then consider "oa_OrgRole oa = ''owner'' \<or> oa_OrgRole oa = ''admin''" | "oa_OrgRole oa = ''member''" | "oa_OrgRole oa = ''readonly''"
    by blast
  then show ?thesis
  proof cases
    case 1
    have role: "la_Role (Resolve (oa_OrgRole oa) (oa_Mode oa) ?e) = RoleAdmin" using 1 by (auto simp: Resolve_def zero_LAccess_def Let_def)
    show ?thesis using org_template_bits(1) [OF 1 Some] role_bits_between [of ?e] view_in_role [of RoleAdmin]
      unfolding role eff by (auto simp: role_bits_simps ValidProjectRole_def pset_simps split: if_splits)
  next
    case 2
    have role: "la_Role (Resolve (oa_OrgRole oa) (oa_Mode oa) ?e) =
       (if ValidProjectRole ?e then ?e else if oa_Mode oa = ModeRestricted then [] else RoleDeployer)"
      using 2 by (simp add: Resolve_def zero_LAccess_def Let_def)
    show ?thesis using org_template_bits(2) [OF Some [unfolded 2]] view_in_role [of ?e] view_in_role [of RoleDeployer]
      unfolding role eff by (simp add: role_bits_simps ValidProjectRole_def [of RoleDeployer] pset_simps)
  next
    case 3
    have role: "la_Role (Resolve (oa_OrgRole oa) (oa_Mode oa) ?e) =
       (if oa_Mode oa = ModeRestricted \<and> \<not> ValidProjectRole ?e then [] else RoleViewer)"
      using 3 by (simp add: Resolve_def zero_LAccess_def Let_def)
    show ?thesis using org_template_bits(3) [OF Some [unfolded 3]] role_bits_between [of ?e] view_in_role [of ?e] bits_subset(6)
      unfolding role eff by (auto simp: role_bits_simps pset_simps)
  qed
qed

lemma legacy_own_flag:
  assumes wf: "gomap_wf (oa_Explicit oa)" and r: "resolves (sys_data U fresh user oa) t"
    and view: "spec_effective (sys_data U fresh user oa) now (ProjectScope p) \<noteq> {}"
  shows "fst (snd (scopeSet (compile u g (sys_data U fresh user oa) now ttl) (ProjectScope p))) \<longleftrightarrow>
     ValidProjectRole (gomap_at [] (oa_Explicit oa) p)"
proof -
  let ?d = "sys_data U fresh user oa" and ?sc = "ProjectScope p"
  have ty: "sc_Type ?sc \<noteq> StOrg" and pid: "sc_ProjectID ?sc = p" by (simp_all add: ProjectScope_def)
  have "HasBit (ceil_proj (compile u g ?d now ttl) (fst (scoped_raw (compile u g ?d now ttl) ?sc))) bitView"
    using view spec_effective_empty_iff [OF r ty] HasBit_ceil_compile [OF r legacy_data_wf [OF wf] ty] by blast
  then have "scopeSet (compile u g ?d now ttl) ?sc = (ceil_proj (compile u g ?d now ttl) (fst (scoped_raw (compile u g ?d now ttl) ?sc)),
      snd (scoped_raw (compile u g ?d now ttl) ?sc), False)"
    using scopeSet_nested [of "compile u g ?d now ttl" ?sc] ty compile_resolves(1) [OF r, of u g now ttl] by presburger
  moreover have "snd (scoped_raw (compile u g ?d now ttl) ?sc) \<longleftrightarrow> ValidProjectRole (gomap_at [] (oa_Explicit oa) p)"
    using scoped_raw_compile(2) [OF r legacy_data_wf [OF wf] ty] legacy_own(1) [OF wf]
    by (simp add: pid nested_of_def) (simp add: ProjectScope_def)
  ultimately show ?thesis by simp
qed

lemma resolve_role_valid: "la_Role (Resolve rl m e) = [] \<or> ValidProjectRole (la_Role (Resolve rl m e))"
  by (auto simp: Resolve_def zero_LAccess_def ValidProjectRole_def Let_def)

lemma role_bits_contains:
  assumes "r = [] \<or> ValidProjectRole r"
  shows "set project_admin_perms_b \<subseteq> set (role_bits r) \<longleftrightarrow> r = RoleAdmin"
    and "set project_deployer_perms_b \<subseteq> set (role_bits r) \<longleftrightarrow> r = RoleAdmin \<or> r = RoleDeployer"
    and "26 \<in> set (role_bits r) \<longleftrightarrow> r \<noteq> []"
proof -
  have 1: "29 \<in> set project_admin_perms_b" "29 \<notin> set project_deployer_perms_b" "29 \<notin> set project_viewer_perms_b"
    and 2: "32 \<in> set project_deployer_perms_b" "32 \<notin> set project_viewer_perms_b"
    using bits_subset(3,7,8) by blast+
  consider "r = []" | "r = RoleAdmin" | "r = RoleDeployer" | "r = RoleViewer" using assms by (auto simp: ValidProjectRole_def)
  note c = this
  show "set project_admin_perms_b \<subseteq> set (role_bits r) \<longleftrightarrow> r = RoleAdmin"
    by (rule c; use 1 in \<open>auto simp: role_bits_simps\<close>)
  show "set project_deployer_perms_b \<subseteq> set (role_bits r) \<longleftrightarrow> r = RoleAdmin \<or> r = RoleDeployer"
    by (rule c; use 2 bits_subset(4) in \<open>auto simp: role_bits_simps\<close>)
  show "26 \<in> set (role_bits r) \<longleftrightarrow> r \<noteq> []" using assms view_in_role [of r] by (auto simp: role_bits_simps ValidProjectRole_def)
qed

lemma LegacyRole_bits:
  assumes "\<forall>b. HasBit st b \<longleftrightarrow> b \<in> set (role_bits r)" and "r = [] \<or> ValidProjectRole r"
  shows "LegacyRole (sys_templates U) st = Some r"
proof -
  have "ContainsAll st (NewSet project_admin_perms) \<longleftrightarrow> set project_admin_perms_b \<subseteq> set (role_bits r)"
    "ContainsAll st (NewSet project_deployer_perms) \<longleftrightarrow> set project_deployer_perms_b \<subseteq> set (role_bits r)"
    unfolding ps.contains_has HasBit_perms assms(1) [rule_format] by blast+
  moreover have "HasBit st 26 \<longleftrightarrow> 26 \<in> set (role_bits r)" using assms(1) by blast
  ultimately have "ContainsAll st (NewSet project_admin_perms) \<longleftrightarrow> r = RoleAdmin"
    "ContainsAll st (NewSet project_deployer_perms) \<longleftrightarrow> r = RoleAdmin \<or> r = RoleDeployer" "HasBit st 26 \<longleftrightarrow> r \<noteq> []"
    using role_bits_contains [OF assms(2)] by blast+
  then show ?thesis
    using assms(2) by (auto simp: LegacyRole_def sys_template_find find_perms ValidProjectRole_def)
qed

text \<open>The source the evaluator names at a visible project.\<close>

lemma legacy_source:
  assumes wf: "gomap_wf (oa_Explicit oa)" and r: "resolves (sys_data U fresh user oa) t"
    and st: "\<forall>b. HasBit st b \<longleftrightarrow> b \<in> set (role_bits (la_Role (Resolve (oa_OrgRole oa) (oa_Mode oa) (gomap_at [] (oa_Explicit oa) p))))"
    and vis: "la_Role (Resolve (oa_OrgRole oa) (oa_Mode oa) (gomap_at [] (oa_Explicit oa) p)) \<noteq> []"
  shows "acc_Source (access (compile u g (sys_data U fresh user oa) now ttl) (ProjectScope p) st
      (ValidProjectRole (gomap_at [] (oa_Explicit oa) p)) False) =
    la_Source (Resolve (oa_OrgRole oa) (oa_Mode oa) (gomap_at [] (oa_Explicit oa) p))"
proof -
  obtain T where T: "template_Org (sys_templates U) (oa_OrgRole oa) = Some T" "t = engine_template T"
    using r by (auto simp: legacy_resolves)
  let ?s = "compile u g (sys_data U fresh user oa) now ttl" and ?e = "gomap_at [] (oa_Explicit oa) p"
  have src: "acc_Source (access ?s (ProjectScope p) st own False) =
     (if \<not> IsEmpty (t_Floor T) \<and> ContainsAll (t_Floor T) st then SourceOrg else if own then SourceExplicit else SourceInherited)" for own
    by (simp add: access_def compile_resolves [OF r] T engine_template_fields ProjectScope_def Let_def)
  have "oa_OrgRole oa \<in> {''owner'', ''admin'', ''member'', ''readonly''}" using org_template_fields T by blast
  then consider "oa_OrgRole oa = ''owner'' \<or> oa_OrgRole oa = ''admin''" | "oa_OrgRole oa = ''member'' \<or> oa_OrgRole oa = ''readonly''" by blast
  then show ?thesis
  proof cases
    case 1
    have role: "Resolve (oa_OrgRole oa) (oa_Mode oa) ?e = zero_LAccess\<lparr> la_Member := True, la_Role := RoleAdmin, la_Source := SourceOrg \<rparr>"
      using 1 by (auto simp: Resolve_def zero_LAccess_def Let_def)
    have floor: "\<forall>b. HasBit (t_Floor T) b \<longleftrightarrow> b \<in> set project_admin_perms_b" using org_template_bits(1) [OF 1 T(1)] by blast
    then have "\<not> IsEmpty (t_Floor T)" using bits_subset(8) ps.is_empty_has by blast
    moreover have "ContainsAll (t_Floor T) st" using st floor by (simp add: ps.contains_has role role_bits_simps)
    ultimately show ?thesis by (simp add: src role)
  next
    case 2
    have "t_Floor T = empty_set" using 2 T org_template_bits(2,3) by auto
    then have "IsEmpty (t_Floor T)" by (simp add: IsEmpty_iff)
    then show ?thesis using 2 vis by (auto simp: src Resolve_def zero_LAccess_def Let_def split: if_splits)
  qed
qed

lemma role_bits_empty_iff: "r = [] \<or> ValidProjectRole r \<Longrightarrow> set (role_bits r) = {} \<longleftrightarrow> r = []"
  using view_in_role [of r] by (auto simp: role_bits_simps)

lemma resolve_flags:
  "rl \<noteq> [] \<Longrightarrow> la_Member (Resolve rl m e) \<and> (la_Hidden (Resolve rl m e) \<longleftrightarrow> la_Role (Resolve rl m e) = []) \<and>
     (la_Role (Resolve rl m e) = [] \<longrightarrow> la_Source (Resolve rl m e) = SourceNone)"
  by (auto simp: Resolve_def zero_LAccess_def ValidProjectRole_def Let_def)

lemma legacy_scope_bits:
  assumes wf: "gomap_wf (oa_Explicit oa)"
    and sc: "scopeSet (compile u g (sys_data U fresh user oa) now ttl) (ProjectScope p) = (st, own, hidden)"
  shows "\<forall>b. HasBit st b \<longleftrightarrow> b \<in> set (role_bits (la_Role (Resolve (oa_OrgRole oa) (oa_Mode oa) (gomap_at [] (oa_Explicit oa) p))))"
    and "hidden \<longleftrightarrow> la_Role (Resolve (oa_OrgRole oa) (oa_Mode oa) (gomap_at [] (oa_Explicit oa) p)) = []"
proof -
  let ?d = "sys_data U fresh user oa" and ?A = "Resolve (oa_OrgRole oa) (oa_Mode oa) (gomap_at [] (oa_Explicit oa) p)"
  note dwf = legacy_data_wf [OF wf, of "sys_templates U" fresh user]
  note eff = legacy_effective [OF wf, of U fresh user now p]
  show "\<forall>b. HasBit st b \<longleftrightarrow> b \<in> set (role_bits (la_Role ?A))"
    using compile_effective [OF dwf, of u g now ttl "ProjectScope p"] unfolding snapshot_has_def sc eff fst_conv by blast
  have "hidden \<longleftrightarrow> d_Member ?d \<and> sc_Type (ProjectScope p) \<noteq> StOrg \<and> set (role_bits (la_Role ?A)) = {}"
    using compile_hidden [OF dwf, of u g now ttl "ProjectScope p"] unfolding sc eff snd_conv .
  then show "hidden \<longleftrightarrow> la_Role ?A = []"
    unfolding role_bits_empty_iff [OF resolve_role_valid] by (simp add: legacy_data_fields(1) ProjectScope_def)
qed

lemma access_flags:
  "acc_Member (access s sc st own hidden) = s_member s" "acc_Hidden (access s sc st own hidden) = hidden"
  "hidden \<Longrightarrow> acc_Source (access s sc st own hidden) = SourceNone"
  by (simp_all add: access_def Let_def)

lemma legacy_access_eq:
  assumes wf: "gomap_wf (oa_Explicit oa)" and org: "oa_OrgRole oa \<noteq> []"
    and sc: "scopeSet (compile u g (sys_data U fresh user oa) now ttl) (ProjectScope p) = (st, own, hidden)"
  shows "legacyAccess (sys_templates U) (access (compile u g (sys_data U fresh user oa) now ttl) (ProjectScope p) st own hidden) st =
     Inr (Resolve (oa_OrgRole oa) (oa_Mode oa) (gomap_at [] (oa_Explicit oa) p))"
proof -
  let ?d = "sys_data U fresh user oa"
  define s where "s = compile u g ?d now ttl"
  define A where "A = Resolve (oa_OrgRole oa) (oa_Mode oa) (gomap_at [] (oa_Explicit oa) p)"
  have bits: "\<forall>b. HasBit st b \<longleftrightarrow> b \<in> set (role_bits (la_Role A))" and hid: "hidden \<longleftrightarrow> la_Role A = []"
    using legacy_scope_bits [OF wf sc] unfolding A_def by blast+
  have valid: "la_Role A = [] \<or> ValidProjectRole (la_Role A)" unfolding A_def by (rule resolve_role_valid)
  have flags: "la_Member A" "la_Hidden A \<longleftrightarrow> la_Role A = []" "la_Role A = [] \<longrightarrow> la_Source A = SourceNone"
    using resolve_flags [OF org] unfolding A_def by blast+
  have "acc_Source (access s (ProjectScope p) st own hidden) = la_Source A"
  proof (cases "la_Role A = []")
    case True
    then show ?thesis using hid flags by (simp add: access_flags)
  next
    case False
    then have ne: "spec_effective ?d now (ProjectScope p) \<noteq> {}"
      unfolding legacy_effective [OF wf] A_def role_bits_empty_iff [OF resolve_role_valid] .
    then obtain t where r: "resolves ?d t" using spec_effective_closed by blast
    have "own = ValidProjectRole (gomap_at [] (oa_Explicit oa) p)"
      using legacy_own_flag [OF wf r ne, of u g ttl] unfolding sc fst_conv snd_conv .
    then show ?thesis
      using legacy_source [OF wf r bits [unfolded A_def] False [unfolded A_def], of u g now ttl] hid False by (simp only: A_def s_def)
  qed
  moreover have "acc_Member (access s (ProjectScope p) st own hidden)" by (simp add: access_flags s_def legacy_data_fields)
  ultimately have "legacyAccess (sys_templates U) (access s (ProjectScope p) st own hidden) st = Inr A"
    using flags hid by (simp add: legacyAccess_def LegacyRole_bits [OF bits valid] access_flags)
  then show ?thesis unfolding s_def A_def .
qed

section \<open>The engine over a legacy store\<close>

text \<open>With a TTL of one nanosecond and a clock that has advanced since the last call, nothing cached is
  served: every call compiles what the store returns.\<close>

lemma legacy_cache_miss:
  assumes "engine_wf e (now - 1)" and "e_ttl e = 1"
  shows "fst (cache_get (e_cache e) k now) = None"
proof (cases "cache_lookup (e_cache e) k")
  case (Some s)
  have "s = compile (fst k) (snd k) (s_data s) (s_compiled s) 1" "s_compiled s \<le> now - 1"
    using assms sc.holdsD [OF _ Some, of "compiled_from (e_ttl e) (now - 1)"] by (simp_all add: engine_wf_def compiled_from_def)
  then have "s_validUntil s \<le> now" using validUntil_le [of "fst k" "snd k" "s_data s" "s_compiled s" 1] by simp
  then show ?thesis by (simp add: cache_get_lookup Some)
qed (simp add: cache_get_lookup)

lemma missed_snapshot:
  assumes "fst (cache_get (e_cache e) k now) = None" and "gomap_get (e_inflight e) k = None"
  shows "fst (engine_snapshot st e k strict now) =
     map_sum id (\<lambda>od. compile (fst k) (snd k) (or_zero od) now (e_ttl e)) (st_LoadAccess st k)"
  using assms
  by (simp add: engine_snapshot_def loadShared_def compileNow_def case_prod_unfold Let_def split: sum.split)

definition legacy_ready :: "Engine \<Rightarrow> time \<Rightarrow> cacheKey \<Rightarrow> bool" where
  "legacy_ready e now k \<longleftrightarrow> engine_wf e (now - 1) \<and> e_ttl e = 1 \<and> gomap_get (e_inflight e) k = None"

lemma legacy_ready_new: "legacy_ready NewLegacyEngine now k"
  by (simp add: legacy_ready_def NewLegacyEngine_def New_wf) (simp add: New_def)

lemma legacy_snapshot:
  assumes "legacy_ready e now (user, org)"
  shows "fst (engine_snapshot (LegacyStore ts fresh ls wait) e (user, org) strict now) =
    (case ls_LoadOrgAccess ls org user of
       Inl err \<Rightarrow> Inl err
     | Inr oa \<Rightarrow> Inr (compile user org (case oa of None \<Rightarrow> zero_AccessData | Some oa \<Rightarrow> legacy_data ts fresh user oa) now 1))"
  using assms legacy_cache_miss [of e now "(user, org)"]
  by (simp add: legacy_ready_def missed_snapshot LegacyStore_def or_zero_def split: sum.split option.split)

lemma zero_snapshot:
  "scopeSet (compile u g zero_AccessData now ttl) sc = (empty_set, False, False)"
  "acc_Member (access (compile u g zero_AccessData now ttl) sc st own hidden) = False"
  "acc_Source (access (compile u g zero_AccessData now ttl) sc st own hidden) = SourceNone"
  by (simp_all add: compile_def new_snapshot_def zero_AccessData_def scopeSet_def access_def Let_def)

lemma zero_access:
  "legacyAccess (sys_templates U) (access (compile u g zero_AccessData now ttl) sc empty_set False False) empty_set = Inr zero_LAccess"
  using LegacyRole_bits [of empty_set "[]" U]
  by (simp add: legacyAccess_def zero_snapshot access_flags(2) zero_LAccess_def role_bits_simps pset_simps)

text \<open>Containment of the atoms of an action, on the adapter's side.\<close>

lemma contains_atoms:
  assumes bits: "\<forall>b. HasBit st b \<longleftrightarrow> b \<in> set (role_bits r)" and r: "ValidProjectRole r"
  shows "allowV1 r act \<longleftrightarrow> length (Atoms act) > 0 \<and> length (snd (ParseSet (Atoms act))) = 0 \<and> ContainsAll st (fst (ParseSet (Atoms act)))"
proof -
  have known: "i \<in> set ids" if "i \<in> set (Atoms act)" for i
    using that Expand_Has by (auto simp: Atoms_def Has_iff split: if_splits)
  have "ContainsAll st (fst (ParseSet (Atoms act))) \<longleftrightarrow> (\<forall>b. b < 99 \<and> ids ! b \<in> set (Atoms act) \<longrightarrow> b \<in> set (role_bits r))"
    using bits by (simp add: ps.contains_has NewSet_def [symmetric] pset_simps)
  also have "\<dots> \<longleftrightarrow> (\<forall>i \<in> set (Atoms act). \<exists>b \<in> set (role_bits r). ids ! b = i)"
  proof
    assume h: "\<forall>b. b < 99 \<and> ids ! b \<in> set (Atoms act) \<longrightarrow> b \<in> set (role_bits r)"
    show "\<forall>i \<in> set (Atoms act). \<exists>b \<in> set (role_bits r). ids ! b = i"
      using h known by (metis in_set_conv_nth length_ids)
  next
    assume h: "\<forall>i \<in> set (Atoms act). \<exists>b \<in> set (role_bits r). ids ! b = i"
    show "\<forall>b. b < 99 \<and> ids ! b \<in> set (Atoms act) \<longrightarrow> b \<in> set (role_bits r)"
      using h role_bits_bound [OF r] distinct_ids by (metis length_ids nth_eq_iff_index_eq)
  qed
  finally show ?thesis using known allowV1_iff [OF r, of act] by (auto simp: ParseSet_eq Has_iff filter_empty_conv)
qed

lemma adapter_effective:
  assumes "legacy_ready e now (user, org)"
  shows "fst (effective (LegacyStore ts fresh ls wait) e (user, org) sc strict now) =
    (case ls_LoadOrgAccess ls org user of
       Inl err \<Rightarrow> Inl err
     | Inr oa \<Rightarrow> let s = compile user org (case oa of None \<Rightarrow> zero_AccessData | Some oa \<Rightarrow> legacy_data ts fresh user oa) now 1;
                    (st, own, hidden) = scopeSet s sc in Inr (access s sc st own hidden, st))"
  by (simp add: effective_def with_snapshot_eq legacy_snapshot [OF assms] Let_def case_prod_unfold split: sum.split)

text \<open>What the theorems ask of the legacy store: the explicit roles are a map, and a member has a role.\<close>

definition legacy_rows_ok :: "LStore \<Rightarrow> uuid \<Rightarrow> uuid \<Rightarrow> bool" where
  "legacy_rows_ok ls user org \<longleftrightarrow> (\<forall>oa. ls_LoadOrgAccess ls org user = Inr (Some oa) \<longrightarrow> gomap_wf (oa_Explicit oa) \<and> oa_OrgRole oa \<noteq> [])"

lemma adapter_Check_eq:
  assumes ready: "legacy_ready e now (user, org)" and rows: "legacy_rows_ok ls user org" and p: "project \<noteq> uuid_Nil"
  shows "fst (adapter_Check (sys_templates U) (LegacyStore (sys_templates U) fresh ls wait) now user org project act e) =
     checkV1 ls user org project act"
proof -
  have eff: "fst (adapter_Check (sys_templates U) (LegacyStore (sys_templates U) fresh ls wait) now user org project act e) =
    (case fst (effective (LegacyStore (sys_templates U) fresh ls wait) e (user, org) (ProjectScope project) (strictNeeded (Atoms act)) now) of
       Inl err \<Rightarrow> Inl err
     | Inr (acc, s) \<Rightarrow> (case legacyAccess (sys_templates U) acc s of Inl err \<Rightarrow> Inl err
         | Inr la \<Rightarrow> Inr \<lparr> oc_Access = la, oc_Allowed = acc_Member acc \<and> \<not> acc_Hidden acc \<and> length (Atoms act) > 0 \<and>
             length (snd (ParseSet (Atoms act))) = 0 \<and> ContainsAll s (fst (ParseSet (Atoms act))) \<rparr>))"
    using p by (simp add: adapter_Check_def Effective_def EffectiveStrict_def scopeOf_def case_prod_unfold Let_def split: sum.split)
  show ?thesis
  proof (cases "ls_LoadOrgAccess ls org user")
    case (Inl err)
    then show ?thesis by (simp add: eff adapter_effective [OF ready] checkV1_def accessV1_def)
  next
    case (Inr oa)
    show ?thesis
    proof (cases oa)
      case None
      then show ?thesis unfolding eff adapter_effective [OF ready] checkV1_def accessV1_def
        by (simp add: Inr zero_snapshot zero_access Let_def) (simp add: zero_LAccess_def)
    next
      case (Some oa')
      have wf: "gomap_wf (oa_Explicit oa')" and org: "oa_OrgRole oa' \<noteq> []" using rows Inr Some by (auto simp: legacy_rows_ok_def)
      define s where "s = compile user org (sys_data U fresh user oa') now 1"
      define A where "A = Resolve (oa_OrgRole oa') (oa_Mode oa') (gomap_at [] (oa_Explicit oa') project)"
      obtain st own hidden where sc: "scopeSet s (ProjectScope project) = (st, own, hidden)" by (metis prod.exhaust)
      have la: "legacyAccess (sys_templates U) (access s (ProjectScope project) st own hidden) st = Inr A"
        unfolding s_def A_def by (rule legacy_access_eq [OF wf org sc [unfolded s_def]])
      have bits: "\<forall>b. HasBit st b \<longleftrightarrow> b \<in> set (role_bits (la_Role A))" and hid: "hidden \<longleftrightarrow> la_Role A = []"
        using legacy_scope_bits [OF wf sc [unfolded s_def]] unfolding A_def by blast+
      have flags: "la_Member A" "la_Hidden A \<longleftrightarrow> la_Role A = []" using resolve_flags [OF org] unfolding A_def by blast+
      have "hidden \<or> (allowV1 (la_Role A) act \<longleftrightarrow> length (Atoms act) > 0 \<and> length (snd (ParseSet (Atoms act))) = 0 \<and>
          ContainsAll st (fst (ParseSet (Atoms act))))"
        using contains_atoms [OF bits] resolve_role_valid [of "oa_OrgRole oa'" "oa_Mode oa'"] hid unfolding A_def by blast
      then have allow: "(\<not> hidden \<and> length (Atoms act) > 0 \<and> length (snd (ParseSet (Atoms act))) = 0 \<and>
          ContainsAll st (fst (ParseSet (Atoms act)))) \<longleftrightarrow> \<not> la_Hidden A \<and> allowV1 (la_Role A) act"
        using hid flags by blast
      have "checkV1 ls user org project act = Inr \<lparr> oc_Access = A, oc_Allowed = \<not> la_Hidden A \<and> allowV1 (la_Role A) act \<rparr>"
        using flags by (simp add: checkV1_def accessV1_def Inr Some A_def)
      moreover have "fst (effective (LegacyStore (sys_templates U) fresh ls wait) e (user, org) (ProjectScope project) b now) =
          Inr (access s (ProjectScope project) st own hidden, st)" for b
        by (simp add: adapter_effective [OF ready] Inr Some s_def [symmetric] sc)
      moreover have "s_member s" by (simp add: s_def legacy_data_fields)
      ultimately show ?thesis by (simp add: eff la access_flags allow [symmetric])
    qed
  qed
qed

lemma no_role_template: "template_Org (sys_templates U) [] = None"
  using org_template_fields [of U "[]"] by simp

lemma adapter_Check_no_role:
  assumes ready: "legacy_ready e now (user, org)" and row: "ls_LoadOrgAccess ls org user = Inr (Some oa)" "oa_OrgRole oa = []"
    and p: "project \<noteq> uuid_Nil"
  shows "fst (adapter_Check (sys_templates U) (LegacyStore (sys_templates U) fresh ls wait) now user org project act e) =
     Inr \<lparr> oc_Access = zero_LAccess\<lparr> la_Member := True, la_Hidden := True \<rparr>, oc_Allowed = False \<rparr>"
    and "checkV1 ls user org project act = Inr \<lparr> oc_Access = zero_LAccess, oc_Allowed = False \<rparr>"
proof -
  define s where "s = compile user org (sys_data U fresh user oa) now 1"
  have c: "s_closed s" and m: "s_member s"
    by (simp_all add: s_def legacy_data_fields) (simp add: compile_closed_iff resolves_def legacy_data_fields row no_role_template)
  show "checkV1 ls user org project act = Inr \<lparr> oc_Access = zero_LAccess, oc_Allowed = False \<rparr>"
    by (simp add: checkV1_def accessV1_def row Resolve_def) (simp add: zero_LAccess_def)
  show "fst (adapter_Check (sys_templates U) (LegacyStore (sys_templates U) fresh ls wait) now user org project act e) =
     Inr \<lparr> oc_Access = zero_LAccess\<lparr> la_Member := True, la_Hidden := True \<rparr>, oc_Allowed = False \<rparr>"
proof -
    have bits: "\<forall>b. HasBit empty_set b \<longleftrightarrow> b \<in> set (role_bits [])" by (simp add: role_bits_simps pset_simps)
    have sc: "scopeSet s (ProjectScope project) = (empty_set, False, True)" using c m by (simp add: scopeSet_def ProjectScope_def)
    have eff: "fst (effective (LegacyStore (sys_templates U) fresh ls wait) e (user, org) (ProjectScope project) strict now) =
        Inr (access s (ProjectScope project) empty_set False True, empty_set)" for strict
      by (simp add: adapter_effective [OF ready] row s_def [symmetric] sc)
    have la: "legacyAccess (sys_templates U) (access s (ProjectScope project) empty_set False True) empty_set =
        Inr (zero_LAccess\<lparr> la_Member := True, la_Hidden := True \<rparr>)"
      using LegacyRole_bits [OF bits, of U] m by (simp add: legacyAccess_def access_flags zero_LAccess_def)
    show ?thesis using p
      by (simp add: adapter_Check_def Effective_def EffectiveStrict_def scopeOf_def case_prod_unfold Let_def eff la access_flags)
  qed
qed

lemma adapter_Access_eq:
  assumes ready: "legacy_ready e now (user, org)" and rows: "legacy_rows_ok ls user org" and p: "project \<noteq> uuid_Nil"
  shows "fst (adapter_Access (sys_templates U) (LegacyStore (sys_templates U) fresh ls wait) now user org project e) =
     accessV1 ls user org project"
proof -
  have eff: "fst (adapter_Access (sys_templates U) (LegacyStore (sys_templates U) fresh ls wait) now user org project e) =
    (case fst (effective (LegacyStore (sys_templates U) fresh ls wait) e (user, org) (ProjectScope project) False now) of
       Inl err \<Rightarrow> Inl err | Inr (acc, s) \<Rightarrow> legacyAccess (sys_templates U) acc s)"
    using p by (simp add: adapter_Access_def Effective_def scopeOf_def case_prod_unfold Let_def split: sum.split)
  show ?thesis
  proof (cases "ls_LoadOrgAccess ls org user")
    case (Inl err)
    then show ?thesis by (simp add: eff adapter_effective [OF ready] accessV1_def)
  next
    case (Inr oa)
    show ?thesis
    proof (cases oa)
      case None
      then show ?thesis unfolding eff adapter_effective [OF ready] accessV1_def
        by (simp add: Inr zero_snapshot zero_access Let_def)
    next
      case (Some oa')
      have wf: "gomap_wf (oa_Explicit oa')" and org: "oa_OrgRole oa' \<noteq> []" using rows Inr Some by (auto simp: legacy_rows_ok_def)
      obtain st own hidden where
        sc: "scopeSet (compile user org (sys_data U fresh user oa') now 1) (ProjectScope project) = (st, own, hidden)" by (metis prod.exhaust)
      show ?thesis using legacy_access_eq [OF wf org sc]
        by (simp add: eff adapter_effective [OF ready] Inr Some sc accessV1_def)
    qed
  qed
qed

lemma legacy_visible:
  assumes wf: "gomap_wf (oa_Explicit oa)"
  shows "visible (compile u g (sys_data U fresh user oa) now ttl) p \<longleftrightarrow>
     la_Role (Resolve (oa_OrgRole oa) (oa_Mode oa) (gomap_at [] (oa_Explicit oa) p)) \<noteq> []"
proof -
  let ?r = "la_Role (Resolve (oa_OrgRole oa) (oa_Mode oa) (gomap_at [] (oa_Explicit oa) p))"
  have "visible (compile u g (sys_data U fresh user oa) now ttl) p \<longleftrightarrow> bitView \<in> set (role_bits ?r)"
    by (simp only: visible_scopeSet compile_effective [OF legacy_data_wf [OF wf]] legacy_effective [OF wf])
  then show ?thesis
    using view_in_role [of ?r] resolve_role_valid [of "oa_OrgRole oa" "oa_Mode oa" "gomap_at [] (oa_Explicit oa) p"]
    by (auto simp: role_bits_simps)
qed

lemma zero_visible: "\<not> visible (compile u g zero_AccessData now ttl) p"
  by (simp add: visible_scopeSet snapshot_has_def zero_snapshot pset_simps)

lemma adapter_lists_eq:
  assumes ready: "legacy_ready e now (user, org)" and rows: "legacy_rows_ok ls user org"
  shows "fst (adapter_FilterProjects (LegacyStore (sys_templates U) fresh ls wait) now user org ps e) = filterProjectsV1 ls user org ps"
    and "fst (adapter_Visibility (LegacyStore (sys_templates U) fresh ls wait) now user org e) = visibilityV1 ls user org"
proof -
  have vis: "visible (compile user org (sys_data U fresh user oa) now 1) =
      (\<lambda>p. la_Role (Resolve (oa_OrgRole oa) (oa_Mode oa) (gomap_at [] (oa_Explicit oa) p)) \<noteq> [])"
    if "ls_LoadOrgAccess ls org user = Inr (Some oa)" for oa
    using that rows by (auto simp: legacy_rows_ok_def legacy_visible)
  show "fst (adapter_FilterProjects (LegacyStore (sys_templates U) fresh ls wait) now user org ps e) = filterProjectsV1 ls user org ps"
    by (simp add: adapter_FilterProjects_def FilterProjects_def with_snapshot_eq legacy_snapshot [OF ready] filterProjectsV1_def
        vis zero_visible split: sum.split option.split)
  show "fst (adapter_Visibility (LegacyStore (sys_templates U) fresh ls wait) now user org e) = visibilityV1 ls user org"
    by (simp add: adapter_Visibility_def Visibility_def with_snapshot_eq legacy_snapshot [OF ready] visibilityV1_def
        vis zero_visible fun_eq_iff split: sum.split option.split)
qed

section \<open>Properties\<close>

text \<open>
  C2 (equivalence). The migration property: once the embedded templates have loaded, a check by the new
  engine over the legacy store (the one-nanosecond engine, its clock past the last call and no load of
  this membership in flight), at a project other than the nil UUID (which the adapter reads as the
  organization scope), gives the outcome of the legacy decision when the membership row has a non-empty
  organization role, when there is no row and when the store fails: the same error, the same role label,
  source and flags, and the same answer for every action. A row with an empty role is where the two
  outcomes differ, and only in the flags: the legacy decision says not a member, the adapter says a
  member from whom the project is hidden. The answer, allowed or not, is the same in every case.
\<close>

theorem v2_check_equals_v1:
  assumes "uuid_ok U" and "load U = Some ts" and "legacy_ready e now (user, org)"
    and "\<forall>oa. ls_LoadOrgAccess ls org user = Inr (Some oa) \<longrightarrow> gomap_wf (oa_Explicit oa)" and "project \<noteq> uuid_Nil"
  shows "((\<forall>oa. ls_LoadOrgAccess ls org user = Inr (Some oa) \<longrightarrow> oa_OrgRole oa \<noteq> []) \<longrightarrow>
        fst (v2_Check (Adapter ts (LegacyStore ts fresh ls wait) now) user org project act e) = checkV1 ls user org project act) \<and>
     ((\<exists>oa. ls_LoadOrgAccess ls org user = Inr (Some oa) \<and> oa_OrgRole oa = []) \<longrightarrow>
        fst (v2_Check (Adapter ts (LegacyStore ts fresh ls wait) now) user org project act e) =
          Inr \<lparr> oc_Access = zero_LAccess\<lparr> la_Member := True, la_Hidden := True \<rparr>, oc_Allowed = False \<rparr> \<and>
        checkV1 ls user org project act = Inr \<lparr> oc_Access = zero_LAccess, oc_Allowed = False \<rparr>) \<and>
     map_sum id oc_Allowed (fst (v2_Check (Adapter ts (LegacyStore ts fresh ls wait) now) user org project act e)) =
        map_sum id oc_Allowed (checkV1 ls user org project act)"
proof -
  have ts: "ts = sys_templates U" using assms(1,2) by (simp add: load_def Parse_embedded)
  let ?c = "fst (v2_Check (Adapter ts (LegacyStore ts fresh ls wait) now) user org project act e)"
  have same: "?c = checkV1 ls user org project act" if "\<forall>oa. ls_LoadOrgAccess ls org user = Inr (Some oa) \<longrightarrow> oa_OrgRole oa \<noteq> []"
  proof -
    have "legacy_rows_ok ls user org" using that assms(4) by (simp add: legacy_rows_ok_def)
    then show ?thesis using adapter_Check_eq [OF assms(3) _ assms(5)] by (simp add: ts Adapter_def)
  qed
  have diff: "?c = Inr \<lparr> oc_Access = zero_LAccess\<lparr> la_Member := True, la_Hidden := True \<rparr>, oc_Allowed = False \<rparr> \<and>
      checkV1 ls user org project act = Inr \<lparr> oc_Access = zero_LAccess, oc_Allowed = False \<rparr>"
    if "ls_LoadOrgAccess ls org user = Inr (Some oa)" "oa_OrgRole oa = []" for oa
    using adapter_Check_no_role [OF assms(3) that assms(5)] by (simp add: ts Adapter_def)
  have "map_sum id oc_Allowed ?c = map_sum id oc_Allowed (checkV1 ls user org project act)"
  proof (cases "\<forall>oa. ls_LoadOrgAccess ls org user = Inr (Some oa) \<longrightarrow> oa_OrgRole oa \<noteq> []")
    case False
    then obtain oa where "ls_LoadOrgAccess ls org user = Inr (Some oa)" "oa_OrgRole oa = []" by blast
    from diff [OF this] show ?thesis by simp
  qed (simp add: same)
  then show ?thesis using same diff by blast
qed

lemma ex_lstore_rows: "legacy_rows_ok ex_lstore u g"
  by (simp add: legacy_rows_ok_def ex_lstore_def OrgOnlyStore_def)

lemma ex_uuid_load: "load ex_uuid = Some (sys_templates ex_uuid)"
  by (simp add: load_def Parse_embedded [OF ex_uuid_ok])

theorem v2_check_equals_v1_witness:
  "load ex_uuid = Some (sys_templates ex_uuid) \<and> legacy_ready NewLegacyEngine 50 (5, 1) \<and>
   fst (v2_Check (Adapter (sys_templates ex_uuid) (LegacyStore (sys_templates ex_uuid) id ex_lstore (\<lambda>k. Inl [])) 50) 5 1 6
          ''project.deploy'' NewLegacyEngine) = checkV1 ex_lstore 5 1 6 ''project.deploy''"
proof -
  have rows: "\<forall>oa. ls_LoadOrgAccess ex_lstore 1 5 = Inr (Some oa) \<longrightarrow> gomap_wf (oa_Explicit oa) \<and> oa_OrgRole oa \<noteq> []"
    using ex_lstore_rows [of 5 1] by (simp add: legacy_rows_ok_def)
  then show ?thesis
    using v2_check_equals_v1 [where user = 5 and org = 1 and project = 6 and now = 50 and fresh = id and wait = "\<lambda>k. Inl []"
        and act = "''project.deploy''" and ls = ex_lstore, OF ex_uuid_ok ex_uuid_load legacy_ready_new]
      ex_uuid_load legacy_ready_new by simp
qed

text \<open>
  The listings migrate too: over the legacy store the adapter's access summary, its
  filtered project list (order and repetitions included) and its visibility test are those of the legacy
  service.
\<close>

theorem v2_listings_equal_v1:
  assumes "uuid_ok U" and "load U = Some ts" and "legacy_ready e now (user, org)" and "legacy_rows_ok ls user org"
  shows "(project \<noteq> uuid_Nil \<longrightarrow>
        fst (v2_Access (Adapter ts (LegacyStore ts fresh ls wait) now) user org project e) = accessV1 ls user org project) \<and>
     fst (v2_FilterProjects (Adapter ts (LegacyStore ts fresh ls wait) now) user org ps e) = filterProjectsV1 ls user org ps \<and>
     fst (v2_Visibility (Adapter ts (LegacyStore ts fresh ls wait) now) user org e) = visibilityV1 ls user org"
proof -
  have "ts = sys_templates U" using assms(1,2) by (simp add: load_def Parse_embedded)
  then show ?thesis using adapter_Access_eq [OF assms(3,4)] adapter_lists_eq [OF assms(3,4)] by (simp add: Adapter_def)
qed

theorem v2_listings_equal_v1_witness:
  "load ex_uuid = Some (sys_templates ex_uuid) \<and> legacy_ready NewLegacyEngine 50 (5, 1) \<and> legacy_rows_ok ex_lstore 5 1 \<and>
   fst (v2_Access (Adapter (sys_templates ex_uuid) (LegacyStore (sys_templates ex_uuid) id ex_lstore (\<lambda>k. Inl [])) 50) 5 1 6
          NewLegacyEngine) = accessV1 ex_lstore 5 1 6 \<and>
   fst (v2_FilterProjects (Adapter (sys_templates ex_uuid) (LegacyStore (sys_templates ex_uuid) id ex_lstore (\<lambda>k. Inl [])) 50) 5 1
          [6, 7, 6] NewLegacyEngine) = filterProjectsV1 ex_lstore 5 1 [6, 7, 6]"
  using v2_listings_equal_v1 [where user = 5 and org = 1 and project = 6 and now = 50 and fresh = id and wait = "\<lambda>k. Inl []" and ps = "[6, 7, 6]",
      OF ex_uuid_ok ex_uuid_load legacy_ready_new ex_lstore_rows]
    ex_uuid_load legacy_ready_new ex_lstore_rows by simp

lemma strict_snapshot_member:
  assumes wf: "engine_wf e now" and co: "coherent st e k" and load: "st_LoadAccess st k = Inr od" and ep: "st_Epochs st k = Inr ep"
  shows "\<exists>s. fst (engine_snapshot st e k True now) = Inr s \<and> s_member s = d_Member (or_zero od) \<and> decides_on (or_zero od) e k now s"
proof (cases rule: engine_snapshot_cases [of e k now True st])
  case (hit s e1)
  have "s_data s = or_zero od" using co hit(1,3) load by (simp add: coherent_def)
  moreover have "s = compile (fst k) (snd k) (s_data s) (s_compiled s) (e_ttl e)"
    using wf sc.holdsD [OF _ hit(1), of "compiled_from (e_ttl e) now"] by (simp add: engine_wf_def compiled_from_def)
  then have "s_member s = d_Member (s_data s)" by (metis compile_common(4))
  ultimately show ?thesis using cached_decides(1) [OF wf hit(1,2)] hit(4) by simp
next
  case (strict_load e1)
  then show ?thesis using compileNow_fresh [OF load, of e1 now] by (simp add: decides_on_def)
qed (use ep in simp_all)

lemma DecideToken_load_error:
  assumes "coherent st e (user, org)" "st_LoadAccess st (user, org) = Inl err"
  shows "\<exists>err'. fst (DecideToken st e now ti user org project ps) = Inl err' \<and> (err' = err \<or> st_Epochs st (user, org) = Inl err')"
  using assms
  by (cases rule: engine_snapshot_cases [of e "(user, org)" now True st])
    (auto simp: DecideToken_def EffectiveStrict_def effective_def with_snapshot_eq case_prod_unfold compileNow_def Let_def coherent_def)

lemma DecideToken_epoch_error:
  assumes "st_Epochs st (user, org) = Inl err" "cache_lookup (e_cache e) (user, org) = Some s" "now < s_validUntil s"
  shows "fst (DecideToken st e now ti user org project ps) = Inl err"
  using assms
  by (simp add: DecideToken_def EffectiveStrict_def effective_def with_snapshot_eq case_prod_unfold engine_snapshot_def cache_get_lookup)

text \<open>The decision when the store answers: exactly the rule on the current data.\<close>

lemma DecideToken_answers:
  assumes "engine_wf e now" and "coherent st e (user, org)" and "data_wf (or_zero od)" and "st_Epochs st (user, org) = Inr ep"
    and "st_LoadAccess st (user, org) = Inr od"
  shows "fst (DecideToken st e now ti user org project ps) = Inr (ps \<noteq> [] \<and>
      (\<forall>p \<in> set ps. \<exists>b. Bit_of p = Some b \<and> b \<in> spec_effective (or_zero od) now (scopeOf project) \<and>
          (ti_Restricted ti \<longrightarrow> HasBit (ti_Set ti) b)) \<and>
      (ti_Restricted ti \<longrightarrow> ti_OrgID ti \<in> {None, Some org} \<and> ti_ProjectID ti \<in> {None, Some project}))"
proof -
  let ?E = "spec_effective (or_zero od) now (scopeOf project)"
  obtain s where s: "fst (engine_snapshot st e (user, org) True now) = Inr s" and mem: "s_member s = d_Member (or_zero od)"
    and d: "decides_on (or_zero od) e (user, org) now s"
    using strict_snapshot_member [OF assms(1,2,5,4)] by blast
  obtain p own hidden where sc: "scopeSet s (scopeOf project) = (p, own, hidden)" by (metis prod.exhaust)
  have bits: "HasBit p b \<longleftrightarrow> b \<in> ?E" for b
    using decides_on_has [OF d assms(3), of "scopeOf project" b] by (simp add: snapshot_has_def sc)
  have hid: "hidden \<Longrightarrow> ?E = {}"
    using compile_hidden [OF assms(3), of user org now "e_ttl e" "scopeOf project"] d sc by (simp add: decides_on_def)
  have nomem: "\<not> s_member s \<Longrightarrow> ?E = {}" unfolding mem by (rule spec_effective_closed) (simp add: resolves_def)
  have eff: "fst (EffectiveStrict st e (user, org) (scopeOf project) now) = Inr (access s (scopeOf project) p own hidden, p)"
    by (simp add: EffectiveStrict_def effective_def with_snapshot_eq s sc)
  show ?thesis
  proof (cases "s_member s \<and> \<not> hidden")
    case False
    then have "?E = {}" using hid nomem by blast
    then show ?thesis using False by (cases ps) (auto simp: DecideToken_def case_prod_unfold eff access_flags)
  next
    case True
    have want: "ContainsAll q (fst (ParseSet ps)) \<longleftrightarrow> (\<forall>b. b < 99 \<and> ids ! b \<in> set ps \<longrightarrow> HasBit q b)" for q
      by (simp add: ps.contains_has NewSet_def [symmetric] pset_simps)
    have unk: "snd (ParseSet ps) = [] \<longleftrightarrow> (\<forall>i \<in> set ps. \<exists>b. Bit_of i = Some b)"
      by (auto simp: ParseSet_eq filter_empty_conv Has_iff Bit_of_iff in_set_conv_nth)
    have all: "(\<forall>b. b < 99 \<and> ids ! b \<in> set ps \<longrightarrow> Q b) \<longleftrightarrow> (\<forall>i \<in> set ps. \<forall>b. Bit_of i = Some b \<longrightarrow> Q b)" for Q
      by (auto simp: Bit_of_iff)
    have rule: "snd (ParseSet ps) = [] \<and> ContainsAll p (fst (ParseSet ps)) \<and> (R \<longrightarrow> ContainsAll q (fst (ParseSet ps))) \<longleftrightarrow>
        (\<forall>i \<in> set ps. \<exists>b. Bit_of i = Some b \<and> b \<in> ?E \<and> (R \<longrightarrow> HasBit q b))" for R q
      unfolding want unk all bits by (cases R) (fastforce, fastforce)
    have "fst (DecideToken st e now ti user org project ps) = Inr (ps \<noteq> [] \<and> (snd (ParseSet ps) = [] \<and> ContainsAll p (fst (ParseSet ps)) \<and>
        (ti_Restricted ti \<longrightarrow> ContainsAll (ti_Set ti) (fst (ParseSet ps)))) \<and>
        (ti_Restricted ti \<longrightarrow> ti_OrgID ti \<in> {None, Some org} \<and> ti_ProjectID ti \<in> {None, Some project}))"
      using True by (simp add: DecideToken_def case_prod_unfold eff access_flags Let_def split: option.split) blast
    then show ?thesis unfolding rule .
  qed
qed

text \<open>
  C29 (safety). Token decisions, for a cache that is coherent with the store (a cached snapshot with the
  store's epochs holds the store's data): when the store answers, a token is allowed exactly when it asks for at
  least one permission, all of them known and all in what the current data give the user at the scope,
  and, when the token is restricted, in the token's own set, with the token's organization and project
  matching where they are set. A store error is never an allow: when the load fails the decision is that
  error or the error of the epoch query, and when the epoch query fails under a cached snapshot it is
  that error.
\<close>

theorem DecideToken_exact:
  assumes "engine_wf e now" and "coherent st e (user, org)"
  shows "(data_wf (or_zero od) \<and> st_Epochs st (user, org) = Inr ep \<and> st_LoadAccess st (user, org) = Inr od \<longrightarrow>
      fst (DecideToken st e now ti user org project ps) = Inr (ps \<noteq> [] \<and>
        (\<forall>p \<in> set ps. \<exists>b. Bit_of p = Some b \<and> b \<in> spec_effective (or_zero od) now (scopeOf project) \<and>
            (ti_Restricted ti \<longrightarrow> HasBit (ti_Set ti) b)) \<and>
        (ti_Restricted ti \<longrightarrow> ti_OrgID ti \<in> {None, Some org} \<and> ti_ProjectID ti \<in> {None, Some project}))) \<and>
    (st_LoadAccess st (user, org) = Inl err \<longrightarrow>
      (\<exists>err'. fst (DecideToken st e now ti user org project ps) = Inl err' \<and> (err' = err \<or> st_Epochs st (user, org) = Inl err'))) \<and>
    (st_Epochs st (user, org) = Inl err \<and> cache_lookup (e_cache e) (user, org) = Some s \<and> now < s_validUntil s \<longrightarrow>
      fst (DecideToken st e now ti user org project ps) = Inl err)"
  using DecideToken_answers [OF assms] DecideToken_load_error [OF assms(2)] DecideToken_epoch_error by blast

definition down_store :: Store where
  "down_store = \<lparr> st_LoadAccess = (\<lambda>k. Inl ''down''), st_Epochs = (\<lambda>k. Inl ''down''), st_wait = (\<lambda>k. Inl ''down'') \<rparr>"

theorem DecideToken_exact_witness:
  "engine_wf (New 300 0) 50 \<and> coherent ex_store (New 300 0) (5, 1) \<and>
   fst (DecideToken ex_store (New 300 0) 50 \<lparr> ti_TokenID = 9, ti_Restricted = True, ti_Set = empty_set, ti_OrgID = None, ti_ProjectID = None \<rparr>
      5 1 6 [''project:view'']) = Inr False \<and>
   fst (DecideToken down_store (New 300 0) 50 \<lparr> ti_TokenID = 9, ti_Restricted = False, ti_Set = empty_set, ti_OrgID = None, ti_ProjectID = None \<rparr>
      5 1 6 [''project:view'']) = Inl ''down''"
proof -
  have co: "coherent ex_store (New 300 0) (5, 1)" "coherent down_store (New 300 0) (5, 1)"
    by (simp_all add: coherent_def New_def newCache_def cache_lookup_def)
  have "fst (DecideToken down_store (New 300 0) 50 \<lparr> ti_TokenID = 9, ti_Restricted = False, ti_Set = empty_set, ti_OrgID = None, ti_ProjectID = None \<rparr>
      5 1 6 [''project:view'']) = Inl ''down''"
    using DecideToken_exact [OF New_wf co(2), where err = "''down''" and project = 6 and ps = "[''project:view'']"
      and ti = "\<lparr> ti_TokenID = 9, ti_Restricted = False, ti_Set = empty_set, ti_OrgID = None, ti_ProjectID = None \<rparr>"]
    by (auto simp: down_store_def)
  then show ?thesis
    using DecideToken_exact [OF New_wf co(1), where od = "Some ex_data" and ep = "d_Epochs ex_data" and project = 6 and ps = "[''project:view'']"
      and ti = "\<lparr> ti_TokenID = 9, ti_Restricted = True, ti_Set = empty_set, ti_OrgID = None, ti_ProjectID = None \<rparr>"] co
    by (simp add: ex_store_def or_zero_def ex_data_wf New_wf pset_simps)
qed

definition mode_of_policy :: "string \<Rightarrow> string" where
  "mode_of_policy s = (if s \<noteq> [] \<and> snd (ParseMode s) then fst (ParseMode s) else [])"

definition mode_entries_ok :: "(time \<Rightarrow> uuid \<Rightarrow> string res) \<Rightarrow> duration \<Rightarrow> time \<Rightarrow> (uuid, modeEntry) gomap \<Rightarrow> bool" where
  "mode_entries_ok src ttl now m \<longleftrightarrow> (\<forall>org en. gomap_get m org = Some en \<longrightarrow>
     (\<exists>t s. t \<le> now \<and> me_exp en = t + ttl \<and> src t org = Inr s \<and> me_mode en = mode_of_policy s))"

definition modes_inv :: "(time \<Rightarrow> uuid \<Rightarrow> string res) \<Rightarrow> OrgModes \<Rightarrow> time \<Rightarrow> bool" where
  "modes_inv src om now \<longleftrightarrow> 0 < om_ttl om \<and> length (om_m om) \<le> 4097 \<and> mode_entries_ok src (om_ttl om) now (om_m om)"

lemma mode_entries_sub:
  assumes "mode_entries_ok src ttl now m" and "\<And>k. gomap_get m' k = None \<or> gomap_get m' k = gomap_get m k"
  shows "mode_entries_ok src ttl now m'"
  unfolding mode_entries_ok_def using assms(1) [unfolded mode_entries_ok_def] assms(2) by (metis option.distinct(1))

lemma mode_entries_later: "mode_entries_ok src ttl t0 m \<Longrightarrow> t0 \<le> now \<Longrightarrow> mode_entries_ok src ttl now m"
  unfolding mode_entries_ok_def by (meson order_trans)

lemma mode_entries_set:
  "mode_entries_ok src ttl now m \<Longrightarrow> src now org = Inr s \<Longrightarrow>
   mode_entries_ok src ttl now (gomap_set org \<lparr> me_mode = mode_of_policy s, me_exp = now + ttl \<rparr> m)"
  by (auto simp: mode_entries_ok_def)

lemma length_gomap_set: "length (gomap_set k v m) \<le> Suc (length m)"
  by (induction m) auto

lemma modes_inv_new: "modes_inv src (NewOrgModes ttl) now"
  by (simp add: modes_inv_def mode_entries_ok_def NewOrgModes_def)

lemma modes_inv_invalidate:
  assumes "modes_inv src om now"
  shows "modes_inv src (OrgModes_Invalidate om org) now"
proof -
  have "mode_entries_ok src (om_ttl om) now (om_m (OrgModes_Invalidate om org))"
    by (rule mode_entries_sub [of src "om_ttl om" now "om_m om"]) (use assms in \<open>simp_all add: modes_inv_def OrgModes_Invalidate_def\<close>)
  then show ?thesis using assms order_trans [OF length_delete_le [of org "om_m om"]]
    by (simp add: modes_inv_def OrgModes_Invalidate_def)
qed

lemma modes_inv_load:
  assumes "modes_inv src om now"
  shows "modes_inv src (snd (OrgModes_load (src now) om org now)) now"
proof (cases "src now org")
  case (Inl err)
  then show ?thesis using assms by (simp add: OrgModes_load_def)
next
  case (Inr s)
  define m where "m = (if length (om_m om) > 4096 then [] else om_m om)"
  have "mode_entries_ok src (om_ttl om) now m"
    by (rule mode_entries_sub [of src "om_ttl om" now "om_m om"]) (use assms in \<open>simp_all add: modes_inv_def m_def\<close>)
  note ok = mode_entries_set [of src "om_ttl om" now m org s, OF this Inr]
  have "length (gomap_set org v m) \<le> 4097" for v using length_gomap_set [of org v m] by (simp add: m_def split: if_splits)
  moreover have "snd (OrgModes_load (src now) om org now) =
      om\<lparr> om_m := gomap_set org \<lparr> me_mode = mode_of_policy s, me_exp = now + om_ttl om \<rparr> m \<rparr>"
    by (simp add: OrgModes_load_def Inr m_def mode_of_policy_def Let_def)
  ultimately show ?thesis using assms ok by (simp add: modes_inv_def)
qed

text \<open>
  The cache of modes: whatever the sequence of calls, a served mode is what the policy
  source said at some instant of the last \<^verbatim>\<open>ttl\<close> (or the empty mode when the source fails now), the
  table never holds more than 4097 organizations, and failures are not stored.
\<close>

theorem OrgModes_bounded:
  assumes "modes_inv src om t0" and "t0 \<le> now"
  shows "modes_inv src (snd (OrgModes_Mode (src now) om org now)) now \<and>
     ((\<exists>err. src now org = Inl err) \<and> fst (OrgModes_Mode (src now) om org now) = [] \<and> snd (OrgModes_Mode (src now) om org now) = om \<or>
      (\<exists>t s. now - om_ttl om < t \<and> t \<le> now \<and> src t org = Inr s \<and> fst (OrgModes_Mode (src now) om org now) = mode_of_policy s))"
proof -
  have inv: "modes_inv src om now" using assms mode_entries_later [of src _ t0 _ now] by (simp add: modes_inv_def)
  have fresh: ?thesis if "OrgModes_Mode (src now) om org now = OrgModes_load (src now) om org now"
  proof (cases "src now org")
    case (Inl err)
    then show ?thesis using inv by (simp add: that OrgModes_load_def)
  next
    case (Inr s)
    have "fst (OrgModes_load (src now) om org now) = mode_of_policy s" by (simp add: OrgModes_load_def Inr mode_of_policy_def Let_def)
    moreover have "now - om_ttl om < now" using inv by (simp add: modes_inv_def)
    ultimately show ?thesis using modes_inv_load [OF inv] Inr unfolding that by blast
  qed
  show ?thesis
  proof (cases "gomap_get (om_m om) org")
    case None
    then show ?thesis using fresh by (simp add: OrgModes_Mode_def)
  next
    case (Some en)
    show ?thesis
    proof (cases "now < me_exp en")
      case False
      then show ?thesis using fresh Some by (simp add: OrgModes_Mode_def)
    next
      case True
      obtain t s where "t \<le> now" "me_exp en = t + om_ttl om" "src t org = Inr s" "me_mode en = mode_of_policy s"
        using inv Some unfolding modes_inv_def mode_entries_ok_def by blast
      then have "now - om_ttl om < t \<and> t \<le> now \<and> src t org = Inr s \<and> fst (OrgModes_Mode (src now) om org now) = mode_of_policy s"
        using True Some by (simp add: OrgModes_Mode_def)
      then show ?thesis using inv True Some by (auto simp: OrgModes_Mode_def)
    qed
  qed
qed

theorem OrgModes_bounded_witness:
  "modes_inv (\<lambda>t org. Inr ''shadow'') (NewOrgModes 0) 0 \<and>
   modes_inv (\<lambda>t org. Inr ''shadow'') (snd (OrgModes_Mode (\<lambda>org. Inr ''shadow'') (NewOrgModes 0) 7 5)) 5"
  using OrgModes_bounded [OF modes_inv_new, of 0 5 "\<lambda>t org. Inr ''shadow''" 0 7] modes_inv_new by simp

end
