(* ===== verification/Glob.thy ===== *)
theory Glob
  imports Prelude "HOL-Library.Product_Lexorder" "HOL-Library.Multiset"
begin

text \<open>
  Branch globs (\<^verbatim>\<open>internal/gitprotect/glob.go\<close>): the translation of a pattern into a regular expression,
  the match of a branch name, and the precedence of the rules that match (\<^verbatim>\<open>Rank\<close>). Environments use the
  same globs for the branches and tags that may deploy.

  The regular expression is kept as the list of the pieces the code writes into the buffer, and
  \<open>regexp_Compile\<close> reads that list the way the library's operator stack does; a match is membership of the
  whole name, since the expression is anchored at both ends. Patterns and names are byte strings; a rune is
  a code point. The theorem of this theory compares the compiled pattern with an abstract syntax of globs.
\<close>

section \<open>Runes (unicode/utf8)\<close>

type_synonym rune = nat

abbreviation RuneError :: rune where "RuneError \<equiv> 0xFFFD"

definition cont :: "nat \<Rightarrow> bool" where
  "cont b \<longleftrightarrow> 0x80 \<le> b \<and> b \<le> 0xBF"

definition second_ok :: "nat \<Rightarrow> nat \<Rightarrow> bool" where
  "second_ok b0 b1 \<longleftrightarrow>
     (if b0 = 0xE0 then 0xA0 \<le> b1 \<and> b1 \<le> 0xBF
      else if b0 = 0xED then 0x80 \<le> b1 \<and> b1 \<le> 0x9F
      else if b0 = 0xF0 then 0x90 \<le> b1 \<and> b1 \<le> 0xBF
      else if b0 = 0xF4 then 0x80 \<le> b1 \<and> b1 \<le> 0x8F
      else cont b1)"

text \<open>\<^verbatim>\<open>utf8.DecodeRune\<close>: the rune at the front of a non-empty byte sequence and its width; an invalid
  sequence is \<open>RuneError\<close> of width one.\<close>

definition DecodeRune :: "nat list \<Rightarrow> rune \<times> nat" where
  "DecodeRune bs =
     (case bs of
        [] \<Rightarrow> (RuneError, 0)
      | b0 # r \<Rightarrow>
          if b0 < 0x80 then (b0, 1)
          else if 0xC2 \<le> b0 \<and> b0 \<le> 0xDF then
            (case r of b1 # _ \<Rightarrow> if cont b1 then ((b0 - 0xC0) * 64 + (b1 - 0x80), 2) else (RuneError, 1) | _ \<Rightarrow> (RuneError, 1))
          else if 0xE0 \<le> b0 \<and> b0 \<le> 0xEF then
            (case r of b1 # b2 # _ \<Rightarrow>
               if second_ok b0 b1 \<and> cont b2 then ((b0 - 0xE0) * 4096 + (b1 - 0x80) * 64 + (b2 - 0x80), 3) else (RuneError, 1)
             | _ \<Rightarrow> (RuneError, 1))
          else if 0xF0 \<le> b0 \<and> b0 \<le> 0xF4 then
            (case r of b1 # b2 # b3 # _ \<Rightarrow>
               if second_ok b0 b1 \<and> cont b2 \<and> cont b3
               then ((b0 - 0xF0) * 262144 + (b1 - 0x80) * 4096 + (b2 - 0x80) * 64 + (b3 - 0x80), 4) else (RuneError, 1)
             | _ \<Rightarrow> (RuneError, 1))
          else (RuneError, 1))"

lemma DecodeRune_width: "bs \<noteq> [] \<Longrightarrow> 0 < snd (DecodeRune bs)"
  by (auto simp: DecodeRune_def split: list.splits)

function decode :: "nat list \<Rightarrow> (rune \<times> nat) list" where
  "decode bs = (if bs = [] then [] else DecodeRune bs # decode (drop (snd (DecodeRune bs)) bs))"
  by pat_completeness auto

termination decode
  by (relation "measure length") (use DecodeRune_width in \<open>auto simp: less_diff_conv\<close>)

declare decode.simps [simp del]

definition bytes_of :: "string \<Rightarrow> nat list" where
  "bytes_of s = map of_char s"

definition runes :: "string \<Rightarrow> rune list" where
  "runes s = map fst (decode (bytes_of s))"

definition utf8_ValidString :: "string \<Rightarrow> bool" where
  "utf8_ValidString s = list_all (\<lambda>(r, w). \<not> (r = RuneError \<and> w = 1)) (decode (bytes_of s))"

text \<open>An ASCII string decodes byte by byte.\<close>

lemma decode_ascii: "\<forall>b \<in> set bs. b < 0x80 \<Longrightarrow> decode bs = map (\<lambda>b. (b, 1)) bs"
  by (induction bs) (simp_all add: decode.simps DecodeRune_def)

lemma ascii_runes:
  assumes "\<forall>c \<in> set s. (of_char c :: nat) < 0x80"
  shows "runes s = bytes_of s" and "utf8_ValidString s"
  using assms by (auto simp: runes_def utf8_ValidString_def decode_ascii bytes_of_def list_all_iff)

section \<open>Compilation of a pattern\<close>

abbreviation maxPatternLen :: nat where "maxPatternLen \<equiv> 255"
abbreviation maxBraceDepth :: nat where "maxBraceDepth \<equiv> 6"

definition metas :: "rune list" where
  "metas = map of_char ''*?[]{}'' @ [92]"

definition IsPlain :: "string \<Rightarrow> bool" where
  "IsPlain pattern = list_all (\<lambda>r. r \<notin> set metas) (runes pattern)"

text \<open>The pieces of regular expression the code writes: a quoted rune, \<^verbatim>\<open>[^/]\<close>, a class (negated ones
  exclude the slash), \<^verbatim>\<open>[^/]*\<close>, \<^verbatim>\<open>.*\<close>, \<^verbatim>\<open>(?:\<close>, \<^verbatim>\<open>)\<close> and \<^verbatim>\<open>|\<close>.\<close>

datatype atom = ALit rune | ANotSlash | AClass bool "(rune \<times> rune) list"
datatype piece = PAtom atom | PSeg | PAny | POpen | PClose | PBar

datatype glob_error = EmptyPattern | TooLong | NotUTF8 | TrailingBackslash | UnclosedClass | InvalidRange
  | TooDeep | UnclosedBrace | InvalidPattern

text \<open>\<^verbatim>\<open>parseClass\<close>, on what follows the bracket. \<open>class_item\<close> is the body of its loop: an escaped rune, a
  range, or a rune; the loop returns the items and what follows the closing bracket.\<close>

definition class_item :: "rune \<Rightarrow> rune list \<Rightarrow> glob_error + ((rune \<times> rune) \<times> rune list)" where
  "class_item c rs =
     (if c = 92 then (case rs of [] \<Rightarrow> Inl UnclosedClass | d # rs' \<Rightarrow> Inr ((d, d), rs'))
      else
        (case rs of
           dash # hi # rs' \<Rightarrow>
             if dash = 45 \<and> hi \<noteq> 93 then (if c > hi then Inl InvalidRange else Inr ((c, hi), rs')) else Inr ((c, c), rs)
         | _ \<Rightarrow> Inr ((c, c), rs)))"

lemma class_item_shorter: "class_item c rs = Inr (it, rest) \<Longrightarrow> length rest \<le> length rs"
  by (auto simp: class_item_def split: if_splits list.splits)

function class_loop :: "nat \<Rightarrow> (rune \<times> rune) list \<Rightarrow> rune list \<Rightarrow> glob_error + ((rune \<times> rune) list \<times> rune list)" where
  "class_loop n items [] = Inl UnclosedClass"
| "class_loop n items (c # rs) =
     (if c = 93 \<and> n > 0 then Inr (items, rs)
      else case class_item c rs of
             Inl e \<Rightarrow> Inl e
           | Inr (it, rest) \<Rightarrow> class_loop (n + 1) (items @ [it]) rest)"
  by pat_completeness auto

termination class_loop
  by (relation "measure (\<lambda>(n, items, rs). length rs)") (auto dest: class_item_shorter)

lemma class_loop_shorter: "class_loop n items rs = Inr (items', rest) \<Longrightarrow> length rest < length rs"
proof (induction n items rs rule: class_loop.induct)
  case (2 n items c rs)
  then show ?case using class_item_shorter by (fastforce split: if_splits sum.splits prod.splits)
qed simp

definition parseClass :: "rune list \<Rightarrow> glob_error + (atom \<times> rune list)" where
  "parseClass rs =
     (let (neg, rs') = (case rs of c # r \<Rightarrow> if c = 33 \<or> c = 94 then (True, r) else (False, rs) | [] \<Rightarrow> (False, rs)) in
      case class_loop 0 [] rs' of Inl e \<Rightarrow> Inl e | Inr (items, rest) \<Rightarrow> Inr (AClass neg items, rest))"

lemma parseClass_shorter: "parseClass rs = Inr (a, rest) \<Longrightarrow> length rest < length rs"
  by (auto simp: parseClass_def Let_def split: if_splits list.splits sum.splits simp del: class_loop.simps dest!: class_loop_shorter)

definition emit :: "piece \<Rightarrow> glob_error + piece list \<Rightarrow> glob_error + piece list" where
  "emit p r = map_sum id ((#) p) r"

function glob_loop :: "nat \<Rightarrow> rune list \<Rightarrow> glob_error + piece list" where
  "glob_loop depth [] = (if depth \<noteq> 0 then Inl UnclosedBrace else Inr [])"
| "glob_loop depth (c # rs) =
     (if c = 92 then
        (case rs of [] \<Rightarrow> Inl TrailingBackslash | d # rs' \<Rightarrow> emit (PAtom (ALit d)) (glob_loop depth rs'))
      else if c = 42 then
        (if rs \<noteq> [] \<and> hd rs = 42 then emit PAny (glob_loop depth (dropWhile (\<lambda>x. x = 42) rs))
         else emit PSeg (glob_loop depth rs))
      else if c = 63 then emit (PAtom ANotSlash) (glob_loop depth rs)
      else if c = 91 then
        (case parseClass rs of Inl e \<Rightarrow> Inl e | Inr (a, rest) \<Rightarrow> emit (PAtom a) (glob_loop depth rest))
      else if c = 123 then
        (if depth + 1 > maxBraceDepth then Inl TooDeep else emit POpen (glob_loop (depth + 1) rs))
      else if c = 125 then
        (if depth = 0 then emit (PAtom (ALit 125)) (glob_loop depth rs) else emit PClose (glob_loop (depth - 1) rs))
      else if c = 44 then
        (if depth > 0 then emit PBar (glob_loop depth rs) else emit (PAtom (ALit 44)) (glob_loop depth rs))
      else emit (PAtom (ALit c)) (glob_loop depth rs))"
  by pat_completeness auto

termination glob_loop
  by (relation "measure (\<lambda>(depth, rs). length rs)")
    (auto dest: parseClass_shorter intro: le_imp_less_Suc length_dropWhile_le)

text \<open>\<^verbatim>\<open>regexp.Compile\<close> of the pieces, with the operator stack of the library: the sequence being read, the
  alternatives before it, and the same pair for every open group.\<close>

datatype rx = REps | RAtom atom | RSegs | RAnys | RSeq rx rx | RAlt rx rx

definition rx_join :: "rx option \<Rightarrow> rx \<Rightarrow> rx" where
  "rx_join alt cur = (case alt of None \<Rightarrow> cur | Some a \<Rightarrow> RAlt a cur)"

fun rx_run :: "piece list \<Rightarrow> rx \<Rightarrow> rx option \<Rightarrow> (rx \<times> rx option) list \<Rightarrow> rx option" where
  "rx_run [] cur alt st = (if st = [] then Some (rx_join alt cur) else None)"
| "rx_run (p # ps) cur alt st =
     (case p of
        PAtom a \<Rightarrow> rx_run ps (RSeq cur (RAtom a)) alt st
      | PSeg \<Rightarrow> rx_run ps (RSeq cur RSegs) alt st
      | PAny \<Rightarrow> rx_run ps (RSeq cur RAnys) alt st
      | PBar \<Rightarrow> rx_run ps REps (Some (rx_join alt cur)) st
      | POpen \<Rightarrow> rx_run ps REps None ((cur, alt) # st)
      | PClose \<Rightarrow> (case st of [] \<Rightarrow> None | (c, a) # st' \<Rightarrow> rx_run ps (RSeq c (rx_join alt cur)) a st'))"

definition regexp_Compile :: "piece list \<Rightarrow> rx option" where
  "regexp_Compile ps = rx_run ps REps None []"

record Glob =
  g_src :: string
  g_re :: rx

definition CompileGlob :: "string \<Rightarrow> glob_error + Glob" where
  "CompileGlob pattern =
     (if pattern = [] then Inl EmptyPattern
      else if length pattern > maxPatternLen then Inl TooLong
      else if \<not> utf8_ValidString pattern then Inl NotUTF8
      else case glob_loop 0 (runes pattern) of
             Inl e \<Rightarrow> Inl e
           | Inr ps \<Rightarrow> (case regexp_Compile ps of None \<Rightarrow> Inl InvalidPattern | Some r \<Rightarrow> Inr \<lparr> g_src = pattern, g_re = r \<rparr>))"

section \<open>Matching\<close>

definition atom_ok :: "atom \<Rightarrow> rune \<Rightarrow> bool" where
  "atom_ok a c =
     (case a of
        ALit d \<Rightarrow> c = d
      | ANotSlash \<Rightarrow> c \<noteq> 47
      | AClass neg items \<Rightarrow>
          if neg then c \<noteq> 47 \<and> \<not> list_ex (\<lambda>(lo, hi). lo \<le> c \<and> c \<le> hi) items
          else list_ex (\<lambda>(lo, hi). lo \<le> c \<and> c \<le> hi) items)"

fun suffixes :: "rune list \<Rightarrow> rune list list" where
  "suffixes [] = [[]]"
| "suffixes (c # w) = (c # w) # suffixes w"

fun seg_suffixes :: "rune list \<Rightarrow> rune list list" where
  "seg_suffixes [] = [[]]"
| "seg_suffixes (c # w) = (c # w) # (if c = 47 then [] else seg_suffixes w)"

text \<open>What can remain of a name after a match of a prefix.\<close>

fun rests :: "rx \<Rightarrow> rune list \<Rightarrow> rune list list" where
  "rests REps w = [w]"
| "rests (RAtom a) w = (case w of [] \<Rightarrow> [] | c # w' \<Rightarrow> if atom_ok a c then [w'] else [])"
| "rests RSegs w = seg_suffixes w"
| "rests RAnys w = suffixes w"
| "rests (RSeq r s) w = concat (map (rests s) (rests r w))"
| "rests (RAlt r s) w = rests r w @ rests s w"

definition MatchString :: "rx \<Rightarrow> rune list \<Rightarrow> bool" where
  "MatchString r w = list_ex (\<lambda>v. v = []) (rests r w)"

definition Glob_Match :: "Glob \<Rightarrow> string \<Rightarrow> bool" where
  "Glob_Match g name = MatchString (g_re g) (runes name)"

definition MatchAny :: "string list \<Rightarrow> string \<Rightarrow> bool" where
  "MatchAny pats name = list_ex (\<lambda>p. case CompileGlob p of Inl _ \<Rightarrow> False | Inr g \<Rightarrow> Glob_Match g name) pats"

section \<open>Precedence of rules\<close>

record Rule =
  r_ID :: uuid
  r_ProjectID :: uuid
  r_Pattern :: string
  r_RequirePullRequest :: bool
  r_RequiredApprovals :: int
  r_DismissStaleApprovals :: bool
  r_BlockOnRejectedReviews :: bool
  r_RequireCodeOwnerReview :: bool
  r_RequiredChecks :: "string list"
  r_RequireUpToDate :: bool
  r_RequireSignedCommits :: bool
  r_RequireLinearHistory :: bool
  r_BlockForcePush :: bool
  r_BlockDeletion :: bool
  r_PushAllowRoles :: "string list"
  r_MergeAllowRoles :: "string list"
  r_EnforceForAdmins :: bool
  r_BlockOnSecurityPolicy :: bool
  r_DeleteBranchOnMerge :: bool
  r_CreatedBy :: "uuid option"
  r_CreatedAt :: time
  r_UpdatedAt :: time

record Ranked =
  rk_Rule :: Rule
  rk_Plain :: bool

text \<open>The comparison of \<^verbatim>\<open>sort.SliceStable\<close>: plain patterns first, then creation time, then the identifier
  (the order of the printed identifiers is the order of the 128-bit values).\<close>

definition rank_key :: "Ranked \<Rightarrow> bool \<times> time \<times> uuid" where
  "rank_key x = (\<not> rk_Plain x, r_CreatedAt (rk_Rule x), r_ID (rk_Rule x))"

definition Rank :: "Rule list \<Rightarrow> string \<Rightarrow> Ranked list" where
  "Rank rules branch = sort_key rank_key
     (map (\<lambda>r. \<lparr> rk_Rule = r, rk_Plain = IsPlain (r_Pattern r) \<rparr>)
        (filter (\<lambda>r. case CompileGlob (r_Pattern r) of Inl _ \<Rightarrow> False | Inr g \<Rightarrow> Glob_Match g branch) rules))"

section \<open>Languages\<close>

definition conc :: "rune list set \<Rightarrow> rune list set \<Rightarrow> rune list set" where
  "conc A B = {u @ v | u v. u \<in> A \<and> v \<in> B}"

fun lang :: "rx \<Rightarrow> rune list set" where
  "lang REps = {[]}"
| "lang (RAtom a) = {[c] | c. atom_ok a c}"
| "lang RSegs = {w. 47 \<notin> set w}"
| "lang RAnys = UNIV"
| "lang (RSeq r s) = conc (lang r) (lang s)"
| "lang (RAlt r s) = lang r \<union> lang s"

lemma set_suffixes: "v \<in> set (suffixes w) \<longleftrightarrow> (\<exists>u. w = u @ v)"
  by (induction w) (auto simp: Cons_eq_append_conv)

lemma set_seg_suffixes: "v \<in> set (seg_suffixes w) \<longleftrightarrow> (\<exists>u. w = u @ v \<and> 47 \<notin> set u)"
  by (induction w) (auto simp: Cons_eq_append_conv)

lemma set_rests: "v \<in> set (rests r w) \<longleftrightarrow> (\<exists>u. w = u @ v \<and> u \<in> lang r)"
proof (induction r arbitrary: v w)
  case (RAtom a)
  then show ?case by (auto split: list.splits)
next
  case (RSeq r s)
  have "v \<in> set (rests (RSeq r s) w) \<longleftrightarrow> (\<exists>x. (\<exists>u. w = u @ x \<and> u \<in> lang r) \<and> (\<exists>u'. x = u' @ v \<and> u' \<in> lang s))"
    by (auto simp: RSeq.IH)
  also have "\<dots> \<longleftrightarrow> (\<exists>u u'. w = u @ u' @ v \<and> u \<in> lang r \<and> u' \<in> lang s)" by blast
  also have "\<dots> \<longleftrightarrow> (\<exists>u. w = u @ v \<and> u \<in> lang (RSeq r s))" by (simp add: conc_def) (metis append_assoc)
  finally show ?case .
qed (auto simp: set_suffixes set_seg_suffixes)

lemma MatchString_lang: "MatchString r w \<longleftrightarrow> w \<in> lang r"
  by (auto simp: MatchString_def list_ex_iff set_rests)

lemma conc_assoc: "conc (conc A B) C = conc A (conc B C)"
  by (auto simp: conc_def) (metis append_assoc)+

lemma conc_eps [simp]: "conc {[]} A = A" "conc A {[]} = A"
  by (auto simp: conc_def)

section \<open>Abstract globs\<close>

text \<open>The dialect the documentation of \<open>Glob\<close> describes: a rune, one rune that is no slash, any run without
  a slash, anything, a character class, and alternatives; with its meaning and its pattern. The meaning is
  stated on sets of names alone: a class stands for the runes of its ranges, a negated class for every
  other rune but the slash.\<close>

datatype gitem = GLit rune | GOne | GSegs | GAnys | GClass bool "(rune \<times> rune) list" | GAlt "gitem list list"

abbreviation concs :: "rune list set list \<Rightarrow> rune list set" where
  "concs As \<equiv> foldr conc As {[]}"

fun gsem :: "gitem \<Rightarrow> rune list set" where
  "gsem (GLit c) = {[c]}"
| "gsem GOne = {[c] | c. c \<noteq> 47}"
| "gsem GSegs = {w. 47 \<notin> set w}"
| "gsem GAnys = UNIV"
| "gsem (GClass False items) = (\<Union>(lo, hi) \<in> set items. {[c] | c. lo \<le> c \<and> c \<le> hi})"
| "gsem (GClass True items) = {[c] | c. c \<noteq> 47 \<and> (\<forall>(lo, hi) \<in> set items. c < lo \<or> hi < c)}"
| "gsem (GAlt gs) = (\<Union>g \<in> set gs. concs (map gsem g))"

definition gsems :: "gitem list \<Rightarrow> rune list set" where
  "gsems g = concs (map gsem g)"

fun joinw :: "'a \<Rightarrow> 'a list list \<Rightarrow> 'a list" where
  "joinw s [] = []"
| "joinw s [x] = x"
| "joinw s (x # y # r) = x @ s # joinw s (y # r)"

definition print_range :: "rune \<times> rune \<Rightarrow> rune list" where
  "print_range lh = (if fst lh = snd lh then [92, fst lh] else [fst lh, 45, snd lh])"

definition print_class :: "bool \<Rightarrow> (rune \<times> rune) list \<Rightarrow> rune list" where
  "print_class neg items = [91] @ (if neg then [33] else []) @ concat (map print_range items) @ [93]"

fun gprint :: "gitem \<Rightarrow> rune list" where
  "gprint (GLit c) = (if c \<in> {42, 63, 91, 93, 123, 125, 92, 44} then [92, c] else [c])"
| "gprint GOne = [63]"
| "gprint GSegs = [42]"
| "gprint GAnys = [42, 42]"
| "gprint (GClass neg items) = print_class neg items"
| "gprint (GAlt gs) = 123 # joinw 44 (map (\<lambda>g. concat (map gprint g)) gs) @ [125]"

definition gprints :: "gitem list \<Rightarrow> rune list" where
  "gprints g = concat (map gprint g)"

definition is_star :: "gitem \<Rightarrow> bool" where
  "is_star x \<longleftrightarrow> x = GSegs \<or> x = GAnys"

fun nostar :: "gitem list \<Rightarrow> bool" where
  "nostar (x # y # r) \<longleftrightarrow> \<not> (is_star x \<and> is_star y) \<and> nostar (y # r)"
| "nostar _ \<longleftrightarrow> True"

definition range_ok :: "rune \<times> rune \<Rightarrow> bool" where
  "range_ok lh \<longleftrightarrow> fst lh \<le> snd lh \<and> (fst lh \<noteq> snd lh \<longrightarrow> fst lh \<notin> {92, 93, 33, 94} \<and> snd lh \<noteq> 93)"

fun gok :: "nat \<Rightarrow> gitem \<Rightarrow> bool" where
  "gok d (GClass neg items) \<longleftrightarrow> items \<noteq> [] \<and> list_all range_ok items"
| "gok d (GAlt gs) \<longleftrightarrow> d < maxBraceDepth \<and> gs \<noteq> [] \<and> list_all (\<lambda>g. list_all (gok (d + 1)) g \<and> nostar g) gs"
| "gok d _ \<longleftrightarrow> True"

fun gpiece :: "gitem \<Rightarrow> piece list" where
  "gpiece (GLit c) = [PAtom (ALit c)]"
| "gpiece GOne = [PAtom ANotSlash]"
| "gpiece GSegs = [PSeg]"
| "gpiece GAnys = [PAny]"
| "gpiece (GClass neg items) = [PAtom (AClass neg items)]"
| "gpiece (GAlt gs) = POpen # joinw PBar (map (\<lambda>g. concat (map gpiece g)) gs) @ [PClose]"

definition prepend :: "piece list \<Rightarrow> glob_error + piece list \<Rightarrow> glob_error + piece list" where
  "prepend xs r = map_sum id ((@) xs) r"

lemma prepend_Inr: "prepend xs (Inr ys) = Inr (xs @ ys)"
  by (simp add: prepend_def)

lemma prepend_Nil: "prepend [] r = r"
  by (cases r) (simp_all add: prepend_def)

lemma prepend_append: "prepend xs (prepend ys r) = prepend (xs @ ys) r"
  by (cases r) (simp_all add: prepend_def)

lemma emit_prepend: "emit p r = prepend [p] r"
  by (cases r) (simp_all add: prepend_def emit_def)

lemma print_range_cases:
  assumes "range_ok lh"
  obtains c r where "print_range lh = c # r" "c \<notin> {93, 33, 94}"
  using assms that by (cases "fst lh = snd lh") (auto simp: print_range_def range_ok_def)

lemma class_item_range: "range_ok lh \<Longrightarrow> class_item (hd (print_range lh)) (tl (print_range lh) @ rest) = Inr (lh, rest)"
  by (cases lh) (auto simp: print_range_def range_ok_def class_item_def)

lemma class_loop_items:
  "list_all range_ok items \<Longrightarrow> n > 0 \<or> items \<noteq> [] \<Longrightarrow>
   class_loop n acc (concat (map print_range items) @ 93 # rest) = Inr (acc @ items, rest)"
proof (induction items arbitrary: n acc)
  case (Cons lh items)
  obtain c r where p: "print_range lh = c # r" "c \<notin> {93, 33, 94}" using Cons.prems print_range_cases [of lh] by auto
  have "class_item c (r @ concat (map print_range items) @ 93 # rest) = Inr (lh, concat (map print_range items) @ 93 # rest)"
    using class_item_range [of lh] Cons.prems p by simp
  then show ?case using Cons.IH [of "n + 1" "acc @ [lh]"] Cons.prems p(2) by (simp add: p(1))
qed simp

lemma parseClass_print:
  assumes "items \<noteq> []" and "list_all range_ok items"
  shows "parseClass (tl (print_class neg items) @ rest) = Inr (AClass neg items, rest)"
proof -
  obtain lh its where i: "items = lh # its" using assms(1) by (cases items) auto
  obtain c r where p: "print_range lh = c # r" "c \<notin> {93, 33, 94}" using assms(2) i print_range_cases [of lh] by auto
  show ?thesis
    using class_loop_items [OF assms(2), of 0 "[]" rest] assms(1) p
    by (simp add: parseClass_def print_class_def i del: class_loop.simps)
qed

lemma glob_loop_list:
  assumes "\<And>x d rest. x \<in> set g \<Longrightarrow> gok d x \<Longrightarrow> is_star x \<longrightarrow> rest = [] \<or> hd rest \<noteq> 42 \<Longrightarrow>
      glob_loop d (gprint x @ rest) = prepend (gpiece x) (glob_loop d rest)"
  shows "list_all (gok d) g \<Longrightarrow> nostar g \<Longrightarrow> g \<noteq> [] \<and> is_star (last g) \<longrightarrow> rest = [] \<or> hd rest \<noteq> 42 \<Longrightarrow>
      glob_loop d (concat (map gprint g) @ rest) = prepend (concat (map gpiece g)) (glob_loop d rest)"
  using assms
proof (induction g)
  case Nil
  then show ?case by (simp add: prepend_Nil)
next
  case (Cons x g)
  have hd42: "is_star x \<longrightarrow> concat (map gprint g) @ rest = [] \<or> hd (concat (map gprint g) @ rest) \<noteq> 42"
  proof (cases g)
    case Nil
    then show ?thesis using Cons.prems(3) by simp
  next
    case (Cons y g')
    then show ?thesis using Cons.prems(2)
      by (cases y) (auto simp: is_star_def print_class_def)
  qed
  have "list_all (gok d) g" "nostar g" using Cons.prems by (cases g; simp)+
  then have "glob_loop d (concat (map gprint g) @ rest) = prepend (concat (map gpiece g)) (glob_loop d rest)"
    using Cons.IH Cons.prems(3,4) by (cases g) auto
  moreover have "glob_loop d (gprint x @ concat (map gprint g) @ rest) = prepend (gpiece x) (glob_loop d (concat (map gprint g) @ rest))"
    using Cons.prems(1,4) hd42 by simp
  ultimately show ?case by (simp add: prepend_append)
qed

lemma glob_loop_alts:
  assumes step: "\<And>g d rest. g \<in> set gs \<Longrightarrow> list_all (gok d) g \<Longrightarrow> nostar g \<Longrightarrow> rest \<noteq> [] \<Longrightarrow> hd rest \<noteq> 42 \<Longrightarrow>
      glob_loop d (concat (map gprint g) @ rest) = prepend (concat (map gpiece g)) (glob_loop d rest)"
  shows "gs \<noteq> [] \<Longrightarrow> list_all (\<lambda>g. list_all (gok (Suc d)) g \<and> nostar g) gs \<Longrightarrow>
      glob_loop (Suc d) (joinw 44 (map (\<lambda>g. concat (map gprint g)) gs) @ 125 # rest) =
        prepend (joinw PBar (map (\<lambda>g. concat (map gpiece g)) gs) @ [PClose]) (glob_loop d rest)"
  using step
proof (induction gs)
  case (Cons g gs)
  show ?case
  proof (cases gs)
    case Nil
    have "glob_loop (Suc d) (125 # rest) = prepend [PClose] (glob_loop d rest)" by (simp add: emit_prepend)
    then show ?thesis using Cons.prems(2) Cons.prems(3) [of g "Suc d" "125 # rest"] by (simp add: Nil prepend_append)
  next
    case (Cons h hs)
    have "glob_loop (Suc d) (44 # w) = prepend [PBar] (glob_loop (Suc d) w)" for w by (simp add: emit_prepend)
    then show ?thesis
      using Cons.IH Cons.prems(2) Cons.prems(3) [of g "Suc d" "44 # _"] Cons.prems(3) by (simp add: Cons prepend_append emit_prepend)
  qed
qed simp

lemma glob_loop_item:
  "gok d x \<Longrightarrow> is_star x \<longrightarrow> rest = [] \<or> hd rest \<noteq> 42 \<Longrightarrow> glob_loop d (gprint x @ rest) = prepend (gpiece x) (glob_loop d rest)"
proof (induction x arbitrary: d rest)
  case (GLit c)
  then show ?case by (auto simp: emit_prepend)
next
  case GAnys
  then show ?case by (cases rest) (auto simp: emit_prepend is_star_def)
next
  case (GClass neg items)
  have "print_class neg items = 91 # tl (print_class neg items)" by (simp add: print_class_def)
  then have "glob_loop d (print_class neg items @ rest) = glob_loop d (91 # tl (print_class neg items) @ rest)"
    by (metis append_Cons)
  also have "\<dots> = emit (PAtom (AClass neg items)) (glob_loop d rest)" using parseClass_print [of items neg rest] GClass by simp
  finally show ?case by (simp add: emit_prepend)
next
  case (GAlt gs)
  have "glob_loop d' (concat (map gprint g) @ rest') = prepend (concat (map gpiece g)) (glob_loop d' rest')"
    if "g \<in> set gs" "list_all (gok d') g" "nostar g" "rest' \<noteq> []" "hd rest' \<noteq> 42" for g d' rest'
    by (rule glob_loop_list) (use that GAlt.IH in auto)
  note alts = glob_loop_alts [of gs d rest, OF this]
  have "glob_loop d (gprint (GAlt gs) @ rest) = emit POpen (glob_loop (Suc d) (joinw 44 (map (\<lambda>g. concat (map gprint g)) gs) @ 125 # rest))"
    using GAlt.prems(1) by simp
  also have "\<dots> = prepend (gpiece (GAlt gs)) (glob_loop d rest)"
    using alts GAlt.prems(1) by (simp add: emit_prepend prepend_append)
  finally show ?case .
qed (auto simp: emit_prepend is_star_def)

lemma glob_loop_gprints:
  assumes "list_all (gok 0) g" and "nostar g"
  shows "glob_loop 0 (gprints g) = Inr (concat (map gpiece g))"
  using glob_loop_list [of g 0 "[]", OF glob_loop_item] assms by (simp add: gprints_def prepend_Inr)

text \<open>What the operator stack makes of the pieces of a glob.\<close>

fun gx :: "gitem \<Rightarrow> rx" where
  "gx (GLit c) = RAtom (ALit c)"
| "gx GOne = RAtom ANotSlash"
| "gx GSegs = RSegs"
| "gx GAnys = RAnys"
| "gx (GClass neg items) = RAtom (AClass neg items)"
| "gx (GAlt gs) = (case map (\<lambda>g. foldl RSeq REps (map gx g)) gs of [] \<Rightarrow> REps | r # rs \<Rightarrow> foldl RAlt r rs)"

definition gxs :: "gitem list \<Rightarrow> rx" where
  "gxs g = foldl RSeq REps (map gx g)"

lemma lang_foldl_RSeq: "lang (foldl RSeq r rs) = conc (lang r) (concs (map lang rs))"
  by (induction rs arbitrary: r) (simp_all add: conc_assoc)

lemma lang_foldl_RAlt: "lang (foldl RAlt r rs) = lang r \<union> (\<Union>x \<in> set rs. lang x)"
  by (induction rs arbitrary: r) auto

lemma lang_gx: "gok d x \<Longrightarrow> lang (gx x) = gsem x"
proof (induction x arbitrary: d)
  case (GAlt gs)
  have "lang (foldl RSeq REps (map gx g)) = concs (map gsem g)" if "g \<in> set gs" for g
  proof -
    have "list_all (gok (Suc d)) g" using that GAlt.prems by (simp add: list_all_iff)
    then have eq: "map (lang \<circ> gx) g = map gsem g" using GAlt.IH [OF that, where d = "Suc d"] by (simp add: list_all_iff)
    show ?thesis unfolding lang_foldl_RSeq map_map eq by simp
  qed
  moreover obtain g hs where "gs = g # hs" using GAlt.prems by (cases gs) auto
  ultimately show ?case by (simp add: lang_foldl_RAlt)
next
  case (GClass neg items)
  show ?case by (cases neg) (force simp: atom_ok_def list_ex_iff not_le)+
qed (auto simp: atom_ok_def)

lemma rx_run_list:
  assumes "\<And>x cur alt st ps. x \<in> set g \<Longrightarrow> gok d x \<Longrightarrow> rx_run (gpiece x @ ps) cur alt st = rx_run ps (RSeq cur (gx x)) alt st"
  shows "list_all (gok d) g \<Longrightarrow> rx_run (concat (map gpiece g) @ ps) cur alt st = rx_run ps (foldl RSeq cur (map gx g)) alt st"
  using assms by (induction g arbitrary: cur) auto

lemma rx_run_alts:
  assumes "\<And>g cur alt st ps. g \<in> set gs \<Longrightarrow> rx_run (concat (map gpiece g) @ ps) cur alt st = rx_run ps (foldl RSeq cur (map gx g)) alt st"
  shows "gs \<noteq> [] \<Longrightarrow> rx_run (joinw PBar (map (\<lambda>g. concat (map gpiece g)) gs) @ PClose # ps) REps (Some r) ((c, a) # st) =
      rx_run ps (RSeq c (foldl RAlt r (map gxs gs))) a st"
  using assms
proof (induction gs arbitrary: r)
  case (Cons g gs)
  show ?case
  proof (cases gs)
    case Nil
    then show ?thesis using Cons.prems(2) [of g] by (simp add: rx_join_def gxs_def)
  next
    case (Cons h hs)
    then show ?thesis using Cons.prems(2) [of g] Cons.IH [of "RAlt r (gxs g)"] Cons.prems(2)
      by (simp add: rx_join_def gxs_def)
  qed
qed simp

lemma rx_run_item: "gok d x \<Longrightarrow> rx_run (gpiece x @ ps) cur alt st = rx_run ps (RSeq cur (gx x)) alt st"
proof (induction x arbitrary: d ps cur alt st)
  case (GAlt gs)
  have lst: "rx_run (concat (map gpiece g) @ ps') cur' alt' st' = rx_run ps' (foldl RSeq cur' (map gx g)) alt' st'"
    if "g \<in> set gs" for g cur' alt' st' ps'
    by (rule rx_run_list [where d = "Suc d"])
      (use that GAlt.prems GAlt.IH [OF that, where d = "Suc d"] in \<open>auto simp: list_all_iff\<close>)
  obtain g hs where gs: "gs = g # hs" using GAlt.prems by (cases gs) auto
  show ?case
  proof (cases hs)
    case Nil
    then show ?thesis using lst [of g] by (simp add: gs rx_join_def)
  next
    case (Cons h hs')
    have "rx_run (joinw PBar (map (\<lambda>g. concat (map gpiece g)) hs) @ PClose # ps) REps (Some (gxs g)) ((cur, alt) # st) =
        rx_run ps (RSeq cur (foldl RAlt (gxs g) (map gxs hs))) alt st"
      by (rule rx_run_alts) (use lst gs Cons in auto)
    moreover have "gx (GAlt gs) = foldl RAlt (gxs g) (map gxs hs)" by (simp add: gs gxs_def [abs_def])
    moreover have "rx_run (gpiece (GAlt gs) @ ps) cur alt st =
        rx_run (joinw PBar (map (\<lambda>g. concat (map gpiece g)) hs) @ PClose # ps) REps (Some (gxs g)) ((cur, alt) # st)"
      using lst [of g] by (simp add: gs Cons rx_join_def gxs_def)
    ultimately show ?thesis by (simp only:)
  qed
qed simp_all

lemma regexp_Compile_gprints:
  assumes "list_all (gok 0) g"
  shows "regexp_Compile (concat (map gpiece g)) = Some (gxs g)" and "lang (gxs g) = gsems g"
proof -
  show "regexp_Compile (concat (map gpiece g)) = Some (gxs g)"
    using rx_run_list [of g 0 "[]" REps None "[]", OF rx_run_item] assms by (simp add: regexp_Compile_def gxs_def rx_join_def)
  have eq: "map (lang \<circ> gx) g = map gsem g" using assms lang_gx by (auto simp: list_all_iff)
  show "lang (gxs g) = gsems g" unfolding gxs_def gsems_def lang_foldl_RSeq map_map eq by simp
qed

text \<open>An accepted pattern is balanced, so the expression it writes compiles.\<close>

lemma emit_Inr: "emit p r = Inr ps \<longleftrightarrow> (\<exists>qs. r = Inr qs \<and> ps = p # qs)"
  by (cases r) (auto simp: emit_def)

definition depth_step :: "nat \<Rightarrow> piece \<Rightarrow> nat \<Rightarrow> bool" where
  "depth_step d p d' \<longleftrightarrow> (if p = POpen then d' = d + 1 else if p = PClose then d = d' + 1 else d' = d)"

lemma glob_loop_step:
  assumes "glob_loop d (c # rs) = Inr ps"
  obtains p qs d' rest where "ps = p # qs" "glob_loop d' rest = Inr qs" "length rest \<le> length rs" "depth_step d p d'"
proof -
  have lit: thesis if "emit (PAtom a) (glob_loop d rest) = Inr ps" "length rest \<le> length rs" for a rest
    using that by (auto simp: emit_Inr depth_step_def intro!: \<open>\<And>p qs d' rest. ps = p # qs \<Longrightarrow> glob_loop d' rest = Inr qs \<Longrightarrow> length rest \<le> length rs \<Longrightarrow> depth_step d p d' \<Longrightarrow> thesis\<close>)
  note any = that
  show thesis
  proof (cases "c \<in> {92, 42, 91, 123, 125}")
    case False
    then show thesis using assms lit [of _ rs] any [of PBar _ d rs]
      by (cases "c = 63"; cases "c = 44"; cases "0 < d") (auto simp: emit_Inr depth_step_def)
  next
    case True
    then consider "c = 92" | "c = 42" | "c = 91" | "c = 123" | "c = 125" by auto
    then show thesis
    proof cases
      case 1
      then show thesis using assms lit by (cases rs) auto
    next
      case 2
      show thesis
      proof (cases "rs \<noteq> [] \<and> hd rs = 42")
        case t: True
        then show thesis using assms 2 any [of PAny _ d "dropWhile (\<lambda>x. x = 42) rs"]
          by (auto simp: emit_Inr depth_step_def length_dropWhile_le)
      next
        case f: False
        then show thesis using assms 2 any [of PSeg _ d rs] by (auto simp: emit_Inr depth_step_def)
      qed
    next
      case 3
      then obtain a rest where "parseClass rs = Inr (a, rest)" using assms by (auto split: sum.splits)
      then show thesis using assms 3 lit [of a rest] parseClass_shorter [of rs a rest] by simp
    next
      case 4
      then show thesis using assms any [of POpen _ "d + 1" rs] by (auto simp: emit_Inr depth_step_def split: if_splits)
    next
      case 5
      then show thesis using assms lit [of "ALit 125" rs] any [of PClose _ "d - 1" rs]
        by (cases d) (auto simp: emit_Inr depth_step_def)
    qed
  qed
qed

lemma rx_run_accepts: "glob_loop d rs = Inr ps \<Longrightarrow> length st = d \<Longrightarrow> \<exists>r. rx_run ps cur alt st = Some r"
proof (induction "length rs" arbitrary: d rs ps cur alt st rule: less_induct)
  case less
  show ?case
  proof (cases rs)
    case Nil
    then show ?thesis using less.prems by (auto split: if_splits)
  next
    case (Cons c rs')
    obtain p qs d' rest where p: "ps = p # qs" "glob_loop d' rest = Inr qs" "length rest < length rs" "depth_step d p d'"
      by (rule glob_loop_step [of d c rs' ps]) (use less.prems(1) Cons in auto)
    have IH: "length st' = d' \<Longrightarrow> \<exists>r. rx_run qs cur' alt' st' = Some r" for cur' alt' st'
      using less.hyps [OF p(3,2)] .
    show ?thesis
    proof (cases p)
      case PClose
      then obtain f st' where "st = f # st'" "length st' = d'" using p(4) less.prems(2) by (cases st) (auto simp: depth_step_def)
      then show ?thesis using IH PClose p(1) by (cases f) simp
    qed (use IH p(1,4) less.prems(2) in \<open>simp_all add: depth_step_def\<close>)
  qed
qed

section \<open>Properties\<close>

text \<open>
  C33 (functional). \<^verbatim>\<open>CompileGlob\<close> gives a pattern its documented meaning. Take a pattern of 1 to 255 bytes of
  valid UTF-8 that is written for an abstract glob in which classes are not empty and their ranges are in
  order (a proper range does not start with a backslash, a bracket, \<^verbatim>\<open>!\<close> or \<^verbatim>\<open>^\<close> nor end with a bracket),
  alternatives nest at most six deep and no two stars are adjacent: it compiles, and the compiled glob
  matches a branch name exactly when the runes of the name are in the meaning of the glob (a rune; one
  rune but the slash; a run without a slash; anything; a rune in one of the ranges, or for a negated class
  one outside all of them that is not the slash; one of the alternatives; and these in sequence).
\<close>

theorem CompileGlob_correct:
  assumes "runes pattern = gprints g" and "list_all (gok 0) g" and "nostar g"
    and "pattern \<noteq> []" and "length pattern \<le> maxPatternLen" and "utf8_ValidString pattern"
  shows "\<exists>G. CompileGlob pattern = Inr G \<and> (\<forall>name. Glob_Match G name \<longleftrightarrow> runes name \<in> gsems g)"
  using assms regexp_Compile_gprints [OF assms(2)] glob_loop_gprints [OF assms(2,3)]
  by (simp add: CompileGlob_def Glob_Match_def MatchString_lang)

definition ex_glob :: "gitem list" where
  "ex_glob = [GAlt [[GLit 97], [GLit 98]], GLit 47, GClass True [(97, 99)], GSegs]"

theorem CompileGlob_correct_witness:
  "runes ''{a,b}/[!a-c]*'' = gprints ex_glob \<and>
   (\<exists>G. CompileGlob ''{a,b}/[!a-c]*'' = Inr G \<and> (Glob_Match G ''b/x'' \<longleftrightarrow> runes ''b/x'' \<in> gsems ex_glob))"
proof -
  have r: "runes ''{a,b}/[!a-c]*'' = gprints ex_glob" by (simp add: ascii_runes bytes_of_def gprints_def ex_glob_def print_class_def print_range_def)
  have ok: "list_all (gok 0) ex_glob" and ns: "nostar ex_glob" by (simp_all add: ex_glob_def is_star_def range_ok_def)
  have "utf8_ValidString ''{a,b}/[!a-c]*''" by (rule ascii_runes(2)) simp
  then show ?thesis using CompileGlob_correct [OF r ok ns] r by (simp only: list.distinct) auto
qed

text \<open>
  A pattern is refused only for the reasons the code names: it is accepted exactly when it is
  not empty, has at most 255 bytes, is valid UTF-8 and its scan ends well (the expression a completed scan
  writes always compiles, so the last error of \<^verbatim>\<open>CompileGlob\<close> is unreachable).
\<close>

theorem CompileGlob_accepts_iff:
  "(\<exists>G. CompileGlob pattern = Inr G) \<longleftrightarrow>
     pattern \<noteq> [] \<and> length pattern \<le> maxPatternLen \<and> utf8_ValidString pattern \<and> (\<exists>ps. glob_loop 0 (runes pattern) = Inr ps)"
proof -
  have c: "\<exists>r. regexp_Compile ps = Some r" if "glob_loop 0 (runes pattern) = Inr ps" for ps
    using rx_run_accepts [OF that, of "[]"] by (simp add: regexp_Compile_def)
  show ?thesis
  proof (cases "glob_loop 0 (runes pattern)")
    case (Inl e)
    then show ?thesis by (simp add: CompileGlob_def)
  next
    case (Inr ps)
    then obtain r where "regexp_Compile ps = Some r" using c by blast
    then show ?thesis by (simp add: CompileGlob_def Inr not_less)
  qed
qed

text \<open>
  \<^verbatim>\<open>Rank\<close> lists exactly the rules whose pattern is valid and matches the branch, each as
  often as it is given, ordered by precedence: a rule without glob characters comes before one with them,
  and within each group the order is by creation time and identifier.
\<close>

theorem Rank_spec:
  "mset (map rk_Rule (Rank rules branch)) = filter_mset (\<lambda>r. MatchAny [r_Pattern r] branch) (mset rules) \<and>
   sorted_wrt (\<lambda>a b. rank_key a \<le> rank_key b) (Rank rules branch) \<and>
   (\<forall>x. x \<in> set (Rank rules branch) \<longrightarrow> rk_Plain x = IsPlain (r_Pattern (rk_Rule x)))"
proof (intro conjI allI impI)
  show "mset (map rk_Rule (Rank rules branch)) = filter_mset (\<lambda>r. MatchAny [r_Pattern r] branch) (mset rules)"
    by (simp add: Rank_def MatchAny_def multiset.map_comp comp_def flip: mset_filter)
  show "sorted_wrt (\<lambda>a b. rank_key a \<le> rank_key b) (Rank rules branch)"
    using sorted_sort_key [of rank_key] by (simp add: Rank_def sorted_map)
qed (auto simp: Rank_def)

definition ex_rule :: "uuid \<Rightarrow> string \<Rightarrow> time \<Rightarrow> Rule" where
  "ex_rule i p t = \<lparr> r_ID = i, r_ProjectID = 1, r_Pattern = p, r_RequirePullRequest = True, r_RequiredApprovals = 0,
     r_DismissStaleApprovals = True, r_BlockOnRejectedReviews = True, r_RequireCodeOwnerReview = False,
     r_RequiredChecks = [], r_RequireUpToDate = False, r_RequireSignedCommits = False, r_RequireLinearHistory = False,
     r_BlockForcePush = True, r_BlockDeletion = True, r_PushAllowRoles = [], r_MergeAllowRoles = [],
     r_EnforceForAdmins = True, r_BlockOnSecurityPolicy = False, r_DeleteBranchOnMerge = False, r_CreatedBy = None,
     r_CreatedAt = t, r_UpdatedAt = t \<rparr>"

theorem Rank_spec_witness:
  "sorted_wrt (\<lambda>a b. rank_key a \<le> rank_key b) (Rank [ex_rule 1 ''*'' 5, ex_rule 2 ''main'' 9] ''main'')"
  using Rank_spec [of "[ex_rule 1 ''*'' 5, ex_rule 2 ''main'' 9]" "''main''"] by simp

end
