(* ===== verification/Env_Window.thy ===== *)
theory Env_Window
  imports Prelude
begin

text \<open>
  Deployment windows (\<^verbatim>\<open>internal/environments/window.go\<close>): parsing, validation, the span of a window on a
  calendar day, whether a window is open, and the next opening.

  A \<open>time\<close> is the number of nanoseconds since the zero time of Go (Monday, January 1 of year 1, UTC). A
  zone is its first offset and its transitions, in seconds; \<open>time_Date\<close> is the algorithm of \<^verbatim>\<open>time.Date\<close>, on
  a calendar day given by its number. The zone database is the parameter \<open>tz\<close> and the zone of the process
  (used by \<^verbatim>\<open>AddDate\<close>) the parameter \<open>local\<close>. The theorem about the next opening is for zones without
  transitions; across a transition the code may skip an opening, which is not claimed either way.
\<close>

section \<open>Calendar and zones (package time)\<close>

record zone =
  z_first :: int
  z_trans :: "(int \<times> int) list"

fun zone_scan :: "int \<Rightarrow> int option \<Rightarrow> (int \<times> int) list \<Rightarrow> int \<Rightarrow> int \<times> int option \<times> int option" where
  "zone_scan off start [] t = (off, start, None)"
| "zone_scan off start ((s, off') # r) t = (if t < s then (off, start, Some s) else zone_scan off' (Some s) r t)"

definition zone_lookup :: "zone \<Rightarrow> int \<Rightarrow> int \<times> int option \<times> int option" where
  "zone_lookup z sec = zone_scan (z_first z) None (z_trans z) sec"

definition zone_offset :: "zone \<Rightarrow> int \<Rightarrow> int" where
  "zone_offset z sec = fst (zone_lookup z sec)"

definition time_sec :: "time \<Rightarrow> int" where
  "time_sec t = t div time_Second"

definition local_sec :: "zone \<Rightarrow> time \<Rightarrow> int" where
  "local_sec z t = time_sec t + zone_offset z (time_sec t)"

text \<open>The calendar day of an instant in a zone, the second of that day, and the weekday (Sunday is 0).\<close>

definition day_in :: "zone \<Rightarrow> time \<Rightarrow> int" where
  "day_in z t = local_sec z t div 86400"

definition clock_in :: "zone \<Rightarrow> time \<Rightarrow> int" where
  "clock_in z t = local_sec z t mod 86400"

definition Weekday :: "int \<Rightarrow> int" where
  "Weekday day = (day + 1) mod 7"

definition time_Date :: "zone \<Rightarrow> int \<Rightarrow> int \<Rightarrow> int \<Rightarrow> time" where
  "time_Date z day sec nsec =
     (let civil = day * 86400 + sec;
          (off, start, fin) = zone_lookup z civil;
          utc = civil - off;
          off' = (if off = 0 then 0
                  else if (case start of None \<Rightarrow> False | Some s \<Rightarrow> utc < s) \<or> (case fin of None \<Rightarrow> False | Some e \<Rightarrow> utc \<ge> e)
                       then zone_offset z utc else off)
      in (civil - off') * time_Second + nsec)"

definition AddDays :: "zone \<Rightarrow> time \<Rightarrow> int \<Rightarrow> time" where
  "AddDays local t n = time_Date local (day_in local t + n) (clock_in local t) (t mod time_Second)"

section \<open>Windows\<close>

record Window =
  w_Days :: "string list"
  w_From :: string
  w_To :: string
  w_TZ :: string

definition weekdayNames :: "(string, int) gomap" where
  "weekdayNames = [(''sun'', 0), (''mon'', 1), (''tue'', 2), (''wed'', 3), (''thu'', 4), (''fri'', 5), (''sat'', 6)]"

text \<open>\<^verbatim>\<open>fmt.Sscanf\<close> with \<^verbatim>\<open>%02d\<close>: leading blanks, then at most two characters: an optional sign and digits.\<close>

definition digit :: "char \<Rightarrow> bool" where
  "digit c \<longleftrightarrow> CHR ''0'' \<le> c \<and> c \<le> CHR ''9''"

definition dec_value :: "string \<Rightarrow> int" where
  "dec_value ds = foldl (\<lambda>n c. 10 * n + (of_char c - 48)) 0 ds"

definition scan_blank :: "char \<Rightarrow> bool" where
  "scan_blank c \<longleftrightarrow> ascii_space c \<and> c \<noteq> CHR 0x0A"

definition scan2d :: "string \<Rightarrow> (int \<times> string) option" where
  "scan2d s =
     (let s1 = dropWhile scan_blank s;
          (neg, wid, s2) = (case s1 of c # r \<Rightarrow> if c = CHR ''-'' then (True, 1, r) else if c = CHR ''+'' then (False, 1, r) else (False, 2, s1)
                            | [] \<Rightarrow> (False, 2, []));
          ds = takeWhile digit (take wid s2)
      in if ds = [] then None else Some ((if neg then - dec_value ds else dec_value ds), drop (length ds) s2))"

definition parseHM :: "string \<Rightarrow> (int \<times> int) option" where
  "parseHM s =
     (if length s \<noteq> 5 \<or> s ! 2 \<noteq> CHR '':'' then None
      else case scan2d s of
             Some (h, c # r) \<Rightarrow>
               (if c \<noteq> CHR '':'' then None
                else case scan2d r of
                       Some (m, _) \<Rightarrow> if h < 0 \<or> h > 23 \<or> m < 0 \<or> m > 59 then None else Some (h, m)
                     | None \<Rightarrow> None)
           | _ \<Rightarrow> None)"

text \<open>The scan ignores what follows the second number, so some strings that are not \<^verbatim>\<open>HH:MM\<close> are accepted.\<close>

lemma parseHM_trailing: "parseHM ''09:5x'' = Some (9, 5)"
  by code_simp

type_synonym tzdata = "string \<Rightarrow> zone option"

definition ValidateWindow :: "tzdata \<Rightarrow> Window \<Rightarrow> string" where
  "ValidateWindow tz w =
     (if tz (w_TZ w) = None \<or> w_TZ w = [] then ''tz must be an IANA zone such as America/Lima''
      else case parseHM (w_From w) of
             None \<Rightarrow> ''from: use HH:MM''
           | Some (fh, fm) \<Rightarrow>
               (case parseHM (w_To w) of
                  None \<Rightarrow> ''to: use HH:MM''
                | Some (th, tm) \<Rightarrow>
                    if fh = th \<and> fm = tm then ''from and to cannot be equal (omit the window for all day)''
                    else if list_ex (\<lambda>d. gomap_get weekdayNames (strings_ToLower d) = None) (w_Days w) then ''days must be mon..sun''
                    else []))"

text \<open>A failed parse leaves zeros, as the ignored results of the code do.\<close>

definition hm :: "string \<Rightarrow> int \<times> int" where
  "hm s = (case parseHM s of None \<Rightarrow> (0, 0) | Some p \<Rightarrow> p)"

definition day_matches :: "Window \<Rightarrow> int \<Rightarrow> bool" where
  "day_matches w day \<longleftrightarrow> w_Days w = [] \<or> list_ex (\<lambda>d. gomap_at 0 weekdayNames (strings_ToLower d) = Weekday day) (w_Days w)"

definition span :: "tzdata \<Rightarrow> Window \<Rightarrow> time \<Rightarrow> (time \<times> time) option" where
  "span tz w ref =
     (case tz (w_TZ w) of
        None \<Rightarrow> None
      | Some loc \<Rightarrow>
          let day = day_in loc ref in
          if \<not> day_matches w day then None
          else let (fh, fm) = hm (w_From w); (th, tm) = hm (w_To w);
                   endDay = (if th * 60 + tm \<le> fh * 60 + fm then day + 1 else day)
               in Some (time_Date loc day (fh * 3600 + fm * 60) 0, time_Date loc endDay (th * 3600 + tm * 60) 0))"

definition open_span :: "tzdata \<Rightarrow> zone \<Rightarrow> time \<Rightarrow> Window \<Rightarrow> int \<Rightarrow> time option" where
  "open_span tz local t w back =
     (case span tz w (AddDays local t (- back)) of
        None \<Rightarrow> None
      | Some (s, e) \<Rightarrow> if s \<le> t \<and> t < e then Some e else None)"

text \<open>The two nested loops: the first window, and today before yesterday, whose span contains the instant.\<close>

fun window_scan :: "tzdata \<Rightarrow> zone \<Rightarrow> time \<Rightarrow> Window list \<Rightarrow> time option" where
  "window_scan tz local t [] = None"
| "window_scan tz local t (w # ws) =
     (case open_span tz local t w 0 of
        Some e \<Rightarrow> Some e
      | None \<Rightarrow> (case open_span tz local t w 1 of Some e \<Rightarrow> Some e | None \<Rightarrow> window_scan tz local t ws))"

definition WindowOpen :: "tzdata \<Rightarrow> zone \<Rightarrow> Window list \<Rightarrow> time \<Rightarrow> bool \<times> time" where
  "WindowOpen tz local ws t =
     (if ws = [] then (True, 0)
      else case window_scan tz local t ws of Some e \<Rightarrow> (True, e) | None \<Rightarrow> (False, 0))"

text \<open>The inner loop over the next days of one window: it stops at the first start that improves.\<close>

fun next_start :: "tzdata \<Rightarrow> zone \<Rightarrow> time \<Rightarrow> Window \<Rightarrow> time \<Rightarrow> int list \<Rightarrow> time" where
  "next_start tz local t w best [] = best"
| "next_start tz local t w best (fwd # r) =
     (case span tz w (AddDays local t fwd) of
        Some (s, _) \<Rightarrow> if t < s \<and> (IsZero best \<or> s < best) then s else next_start tz local t w best r
      | None \<Rightarrow> next_start tz local t w best r)"

definition OpenAtOrAfter :: "tzdata \<Rightarrow> zone \<Rightarrow> Window list \<Rightarrow> time \<Rightarrow> time" where
  "OpenAtOrAfter tz local ws t =
     (if fst (WindowOpen tz local ws t) then t
      else let best = foldl (\<lambda>b w. next_start tz local t w b [0..8]) 0 ws
           in if IsZero best then t + 24 * time_Hour else best)"

section \<open>Zones with one offset\<close>

definition fixed_zone :: "zone \<Rightarrow> bool" where
  "fixed_zone z \<longleftrightarrow> z_trans z = []"

lemma fixed_offset: "fixed_zone z \<Longrightarrow> zone_offset z s = z_first z"
  by (simp add: fixed_zone_def zone_offset_def zone_lookup_def)

lemma fixed_Date: "fixed_zone z \<Longrightarrow> time_Date z day sec nsec = (day * 86400 + sec - z_first z) * time_Second + nsec"
  by (simp add: time_Date_def zone_lookup_def fixed_zone_def Let_def)

lemma fixed_AddDays:
  assumes "fixed_zone z"
  shows "AddDays z t n = t + n * 86400 * time_Second"
proof -
  have "(day_in z t + n) * 86400 + clock_in z t - z_first z = time_sec t + n * 86400"
    using div_mult_mod_eq [of "local_sec z t" 86400]
    by (simp add: day_in_def clock_in_def local_sec_def fixed_offset [OF assms] algebra_simps)
  then have "AddDays z t n = (time_sec t + n * 86400) * time_Second + t mod time_Second"
    by (simp add: AddDays_def fixed_Date [OF assms])
  also have "\<dots> = (t div time_Second * time_Second + t mod time_Second) + n * 86400 * time_Second"
    by (simp add: time_sec_def algebra_simps)
  finally show ?thesis by simp
qed

lemma fixed_day_shift:
  assumes "fixed_zone z"
  shows "day_in z (t + n * 86400 * time_Second) = day_in z t + n"
proof -
  have "time_sec (t + n * 86400 * time_Second) = time_sec t + n * 86400"
    unfolding time_sec_def by (simp add: div_mult_self3 mult.commute)
  then have "local_sec z (t + n * 86400 * time_Second) = local_sec z t + n * 86400"
    by (simp add: local_sec_def fixed_offset [OF assms])
  then show ?thesis by (simp add: day_in_def)
qed

text \<open>A day starts at or before every instant of it, and the next one after.\<close>

lemma fixed_day_bounds:
  assumes "fixed_zone z"
  shows "(day_in z t * 86400 - z_first z) * time_Second \<le> t" and "t < ((day_in z t + 1) * 86400 - z_first z) * time_Second"
proof -
  have sec: "time_sec t * time_Second \<le> t" "t < (time_sec t + 1) * time_Second" unfolding time_sec_def by simp_all
  have loc: "local_sec z t = time_sec t + z_first z" by (simp add: local_sec_def fixed_offset [OF assms])
  have "day_in z t * 86400 \<le> local_sec z t" "local_sec z t < (day_in z t + 1) * 86400" unfolding day_in_def by simp_all
  then have "day_in z t * 86400 - z_first z \<le> time_sec t" "time_sec t + 1 \<le> (day_in z t + 1) * 86400 - z_first z"
    using loc by simp_all
  then show "(day_in z t * 86400 - z_first z) * time_Second \<le> t" "t < ((day_in z t + 1) * 86400 - z_first z) * time_Second"
    using sec by (smt (verit) mult_right_mono)+
qed

text \<open>The openings of a window: one for every calendar day it runs.\<close>

definition from_sec :: "Window \<Rightarrow> int" where
  "from_sec w = fst (hm (w_From w)) * 3600 + snd (hm (w_From w)) * 60"

definition to_sec :: "Window \<Rightarrow> int" where
  "to_sec w = fst (hm (w_To w)) * 3600 + snd (hm (w_To w)) * 60"

definition opens_at :: "zone \<Rightarrow> Window \<Rightarrow> int \<Rightarrow> time" where
  "opens_at z w day = (day * 86400 + from_sec w - z_first z) * time_Second"

definition closes_at :: "zone \<Rightarrow> Window \<Rightarrow> int \<Rightarrow> time" where
  "closes_at z w day = ((if to_sec w \<le> from_sec w then day + 1 else day) * 86400 + to_sec w - z_first z) * time_Second"

definition window_open_spec :: "tzdata \<Rightarrow> Window list \<Rightarrow> time \<Rightarrow> bool" where
  "window_open_spec tz ws t \<longleftrightarrow> (\<exists>w \<in> set ws. \<exists>z day. tz (w_TZ w) = Some z \<and> day_matches w day \<and> opens_at z w day \<le> t \<and> t < closes_at z w day)"

lemma hm_bounds: "0 \<le> fst (hm s) \<and> fst (hm s) \<le> 23 \<and> 0 \<le> snd (hm s) \<and> snd (hm s) \<le> 59"
  by (auto simp: hm_def parseHM_def split: option.splits list.splits if_splits)

lemma from_to_bounds: "0 \<le> from_sec w" "from_sec w < 86400" "0 \<le> to_sec w" "to_sec w < 86400"
  using hm_bounds [of "w_From w"] hm_bounds [of "w_To w"] by (auto simp: from_sec_def to_sec_def)

lemma hm_order: "fst (hm b) * 60 + snd (hm b) \<le> fst (hm a) * 60 + snd (hm a) \<longleftrightarrow>
    fst (hm b) * 3600 + snd (hm b) * 60 \<le> fst (hm a) * 3600 + snd (hm a) * (60::int)"
  by linarith

lemma fixed_span:
  assumes "tz (w_TZ w) = Some z" and "fixed_zone z"
  shows "span tz w ref = (if day_matches w (day_in z ref) then Some (opens_at z w (day_in z ref), closes_at z w (day_in z ref)) else None)"
  using hm_order [of "w_To w" "w_From w"]
  by (simp add: span_def assms fixed_Date Let_def case_prod_unfold opens_at_def closes_at_def from_sec_def to_sec_def)

lemma opens_bounds:
  "((day * 86400 - z_first z) * time_Second \<le> opens_at z w day)" "opens_at z w day < ((day + 1) * 86400 - z_first z) * time_Second"
  "closes_at z w day < ((day + 2) * 86400 - z_first z) * time_Second"
  using from_to_bounds [of w] by (auto simp: opens_at_def closes_at_def)

lemma opens_mono: "day < day' \<Longrightarrow> opens_at z w day < opens_at z w day'"
  by (simp add: opens_at_def)

lemma opens_closes: "from_sec w \<noteq> to_sec w \<Longrightarrow> opens_at z w day < closes_at z w day"
  using from_to_bounds [of w] by (auto simp: opens_at_def closes_at_def)

section \<open>Openings\<close>

definition windows_fixed :: "tzdata \<Rightarrow> zone \<Rightarrow> Window list \<Rightarrow> bool" where
  "windows_fixed tz local ws \<longleftrightarrow> fixed_zone local \<and>
     (\<forall>w \<in> set ws. ValidateWindow tz w = [] \<and> (\<forall>z. tz (w_TZ w) = Some z \<longrightarrow> fixed_zone z))"

lemma minutes_inj: "0 \<le> m \<and> m \<le> 59 \<Longrightarrow> 0 \<le> n \<and> n \<le> 59 \<Longrightarrow> h * 3600 + m * 60 = k * 3600 + n * (60::int) \<Longrightarrow> h = k \<and> m = n"
proof -
  assume m: "0 \<le> m \<and> m \<le> 59" and n: "0 \<le> n \<and> n \<le> 59" and eq: "h * 3600 + m * 60 = k * 3600 + n * 60"
  have "h * 60 + m = k * 60 + n" using eq by linarith
  moreover have "(h * 60 + m) div 60 = h" "(k * 60 + n) div 60 = k" using m n by simp_all
  ultimately show ?thesis by (metis add_left_cancel)
qed

lemma valid_window:
  assumes "ValidateWindow tz w = []"
  shows "\<exists>z. tz (w_TZ w) = Some z" and "from_sec w \<noteq> to_sec w"
    and "\<forall>d \<in> set (w_Days w). gomap_get weekdayNames (strings_ToLower d) \<noteq> None"
proof -
  have 1: "tz (w_TZ w) \<noteq> None" using assms by (simp add: ValidateWindow_def split: if_splits)
  then show "\<exists>z. tz (w_TZ w) = Some z" by blast
  obtain fh fm where f: "parseHM (w_From w) = Some (fh, fm)"
    using assms by (cases "parseHM (w_From w)") (fastforce simp: ValidateWindow_def split: if_splits)+
  obtain th tm where t: "parseHM (w_To w) = Some (th, tm)"
    using assms f by (cases "parseHM (w_To w)") (fastforce simp: ValidateWindow_def split: if_splits)+
  have ne: "\<not> (fh = th \<and> fm = tm)" and days: "\<not> list_ex (\<lambda>d. gomap_get weekdayNames (strings_ToLower d) = None) (w_Days w)"
    using assms f t by (simp_all add: ValidateWindow_def split: if_splits)
  show "\<forall>d \<in> set (w_Days w). gomap_get weekdayNames (strings_ToLower d) \<noteq> None" using days by (simp add: list_ex_iff)
  show "from_sec w \<noteq> to_sec w"
    using ne minutes_inj [of fm tm fh th] hm_bounds [of "w_From w"] hm_bounds [of "w_To w"] f t
    by (auto simp: from_sec_def to_sec_def hm_def)
qed

lemma weekday_value: "gomap_get weekdayNames s = Some v \<Longrightarrow> 0 \<le> v \<and> v \<le> 6"
  by (auto simp: weekdayNames_def split: if_splits)

text \<open>A valid window runs at least once in every seven days.\<close>

lemma day_recurs:
  assumes "ValidateWindow tz w = []"
  shows "\<exists>k. 1 \<le> k \<and> k \<le> 7 \<and> day_matches w (day + k)"
proof (cases "w_Days w")
  case Nil
  then show ?thesis by (intro exI [of _ 1]) (simp add: day_matches_def)
next
  case (Cons d ds)
  then obtain v where v: "gomap_get weekdayNames (strings_ToLower d) = Some v" "0 \<le> v" "v \<le> 6"
    using valid_window(3) [OF assms] weekday_value by fastforce
  define k where "k = (v - day - 2) mod 7 + 1"
  have "Weekday (day + k) = (day + 2 + (v - day - 2) mod 7) mod 7" by (simp add: Weekday_def k_def algebra_simps)
  also have "\<dots> = (day + 2 + (v - day - 2)) mod 7" by (simp only: mod_add_right_eq)
  also have "\<dots> = v" using v by simp
  finally have "day_matches w (day + k)" using v Cons by (simp add: day_matches_def gomap_at_def)
  moreover have "1 \<le> k" "k \<le> 7" using pos_mod_bound [of 7 "v - day - 2"] by (simp_all add: k_def)
  ultimately show ?thesis by blast
qed

lemma span_days:
  assumes "tz (w_TZ w) = Some z" and "fixed_zone z" and "fixed_zone local"
  shows "span tz w (AddDays local t n) =
     (if day_matches w (day_in z t + n) then Some (opens_at z w (day_in z t + n), closes_at z w (day_in z t + n)) else None)"
  unfolding fixed_AddDays [OF assms(3)] fixed_span [of tz, OF assms(1,2)] fixed_day_shift [OF assms(2)] ..

lemma open_span_iff:
  assumes "tz (w_TZ w) = Some z" and "fixed_zone z" and "fixed_zone local"
  shows "open_span tz local t w back = (let day = day_in z t - back in
     if day_matches w day \<and> opens_at z w day \<le> t \<and> t < closes_at z w day then Some (closes_at z w day) else None)"
  unfolding open_span_def span_days [of tz, OF assms] by (simp add: Let_def)

lemma covering_day:
  assumes "fixed_zone z" and "opens_at z w day \<le> t" and "t < closes_at z w day"
  shows "day = day_in z t \<or> day = day_in z t - 1"
proof -
  have "(day * 86400 - z_first z) * time_Second < ((day_in z t + 1) * 86400 - z_first z) * time_Second"
    using opens_bounds(1) [of day z w] assms(2) fixed_day_bounds(2) [OF assms(1), of t] by linarith
  moreover have "(day_in z t * 86400 - z_first z) * time_Second < ((day + 2) * 86400 - z_first z) * time_Second"
    using opens_bounds(3) [of z w day] assms(3) fixed_day_bounds(1) [OF assms(1), of t] by linarith
  ultimately show ?thesis by simp linarith
qed

lemma window_scan_iff:
  assumes "windows_fixed tz local ws"
  shows "(\<exists>e. window_scan tz local t ws = Some e) \<longleftrightarrow> window_open_spec tz ws t"
  using assms
proof (induction ws)
  case Nil
  then show ?case by (simp add: window_open_spec_def)
next
  case (Cons w ws)
  obtain z where z: "tz (w_TZ w) = Some z" "fixed_zone z" and loc: "fixed_zone local"
    using Cons.prems valid_window(1) by (fastforce simp: windows_fixed_def)
  have here: "(open_span tz local t w 0 \<noteq> None \<or> open_span tz local t w 1 \<noteq> None) \<longleftrightarrow>
      (\<exists>day. day_matches w day \<and> opens_at z w day \<le> t \<and> t < closes_at z w day)"
    using covering_day [OF z(2), of w _ t] by (auto simp: open_span_iff [of tz, OF z loc] Let_def)
  have "(\<exists>e. window_scan tz local t ws = Some e) \<longleftrightarrow> window_open_spec tz ws t"
    using Cons by (simp add: windows_fixed_def)
  then show ?case using here z(1) by (auto simp: window_open_spec_def split: option.splits)
qed

lemma WindowOpen_iff:
  assumes "windows_fixed tz local ws"
  shows "fst (WindowOpen tz local ws t) \<longleftrightarrow> ws = [] \<or> window_open_spec tz ws t"
  using window_scan_iff [OF assms, of t] by (auto simp: WindowOpen_def split: option.split)

text \<open>The search for the next start of one window, when none is better: the earliest of the next week, or the one already known.\<close>

lemma next_start_cases:
  assumes "tz (w_TZ w) = Some z" and "fixed_zone z" and "fixed_zone local"
  shows "next_start tz local t w best fs = best \<or>
     (\<exists>k \<in> set fs. day_matches w (day_in z t + k) \<and> next_start tz local t w best fs = opens_at z w (day_in z t + k) \<and>
        t < next_start tz local t w best fs \<and> (IsZero best \<or> next_start tz local t w best fs < best))"
  by (induction fs) (auto simp: span_days [of tz, OF assms])

lemma next_start_le:
  assumes "tz (w_TZ w) = Some z" and "fixed_zone z" and "fixed_zone local" and "0 \<le> t" and "best = 0 \<or> t < best"
  shows "sorted fs \<Longrightarrow> k \<in> set fs \<Longrightarrow> day_matches w (day_in z t + k) \<Longrightarrow> t < opens_at z w (day_in z t + k) \<Longrightarrow>
     next_start tz local t w best fs \<noteq> 0 \<and> next_start tz local t w best fs \<le> opens_at z w (day_in z t + k)"
proof (induction fs)
  case (Cons f fs)
  note sp = span_days [of tz, OF assms(1-3), of t f]
  show ?case
  proof (cases "day_matches w (day_in z t + f) \<and> t < opens_at z w (day_in z t + f) \<and> (IsZero best \<or> opens_at z w (day_in z t + f) < best)")
    case True
    moreover have "opens_at z w (day_in z t + f) \<le> opens_at z w (day_in z t + k)"
      using Cons.prems(1,2) opens_mono [of "day_in z t + f" "day_in z t + k" z w] by (cases "f = k") (auto simp: less_le)
    ultimately show ?thesis using assms(4) by (simp add: sp)
  next
    case False
    then have eq: "next_start tz local t w best (f # fs) = next_start tz local t w best fs" by (auto simp: sp)
    show ?thesis
    proof (cases "k = f")
      case True
      then have "\<not> IsZero best \<and> best \<le> opens_at z w (day_in z t + k)" using False Cons.prems(3,4) by auto
      then show ?thesis
        using next_start_cases [of tz, OF assms(1-3), of t best fs] assms(4) unfolding eq by (auto simp: IsZero_def)
    next
      case False
      then show ?thesis using Cons eq by auto
    qed
  qed
qed simp

text \<open>The fold over the windows: the earliest start after \<open>t\<close>, once one window has one.\<close>

lemma later_start:
  assumes "tz (w_TZ w) = Some z" and "fixed_zone z" and "ValidateWindow tz w = []" and "day_matches w day" and "t < opens_at z w day"
  shows "\<exists>k \<in> set [0..8]. day_matches w (day_in z t + k) \<and> t < opens_at z w (day_in z t + k) \<and> opens_at z w (day_in z t + k) \<le> opens_at z w day"
proof (cases "day \<le> day_in z t + 8")
  case True
  have "(day_in z t * 86400 - z_first z) * time_Second < ((day + 1) * 86400 - z_first z) * time_Second"
    using fixed_day_bounds(1) [OF assms(2), of t] opens_bounds(2) [of z w day] assms(5) by linarith
  then have "day_in z t \<le> day" by simp
  then show ?thesis using True assms(4,5) by (intro bexI [of _ "day - day_in z t"]) auto
next
  case False
  obtain k where k: "1 \<le> k" "k \<le> 7" "day_matches w (day_in z t + k)" using day_recurs [OF assms(3)] by blast
  have "((day_in z t + 1) * 86400 - z_first z) * time_Second \<le> ((day_in z t + k) * 86400 - z_first z) * time_Second" using k(1) by simp
  then have "t < opens_at z w (day_in z t + k)"
    using fixed_day_bounds(2) [OF assms(2), of t] opens_bounds(1) [of "day_in z t + k" z w] by linarith
  then show ?thesis using k False opens_mono [of "day_in z t + k" day z w] by (intro bexI [of _ k]) auto
qed

definition best_ok :: "tzdata \<Rightarrow> time \<Rightarrow> Window list \<Rightarrow> time \<Rightarrow> bool" where
  "best_ok tz t ws r \<longleftrightarrow>
     (r = 0 \<or> (\<exists>w \<in> set ws. \<exists>z day. tz (w_TZ w) = Some z \<and> day_matches w day \<and> r = opens_at z w day \<and> t < r \<and> day \<le> day_in z t + 8)) \<and>
     (\<forall>w \<in> set ws. \<forall>z day. tz (w_TZ w) = Some z \<and> day_matches w day \<and> t < opens_at z w day \<longrightarrow> r \<noteq> 0 \<and> r \<le> opens_at z w day)"

lemma best_step:
  assumes "best_ok tz t ws best" and "windows_fixed tz local [w]" and "0 \<le> t"
  shows "best_ok tz t (ws @ [w]) (next_start tz local t w best [0..8])"
proof -
  obtain z where z: "tz (w_TZ w) = Some z" "fixed_zone z" and loc: "fixed_zone local" and v: "ValidateWindow tz w = []"
    using assms(2) valid_window(1) by (fastforce simp: windows_fixed_def)
  let ?r = "next_start tz local t w best [0..8]"
  have best: "best = 0 \<or> t < best" using assms(1) by (auto simp: best_ok_def)
  note c = next_start_cases [of tz, OF z loc, of t best "[0..8]"]
  have le: "?r \<noteq> 0 \<and> ?r \<le> opens_at z w day" if "day_matches w day" "t < opens_at z w day" for day
    using later_start [of tz, OF z v that] next_start_le [of tz, OF z loc assms(3) best, of "[0..8]"] by force
  have old: "best \<noteq> 0 \<longrightarrow> ?r \<noteq> 0 \<and> ?r \<le> best" using c assms(3) by (auto simp: IsZero_def)
  have "?r = 0 \<or> (\<exists>w' \<in> set (ws @ [w]). \<exists>z day. tz (w_TZ w') = Some z \<and> day_matches w' day \<and> ?r = opens_at z w' day \<and> t < ?r \<and> day \<le> day_in z t + 8)"
    using c
  proof
    assume "?r = best"
    then show ?thesis using assms(1) by (auto simp: best_ok_def)
  next
    assume "\<exists>k \<in> set [0..8]. day_matches w (day_in z t + k) \<and> ?r = opens_at z w (day_in z t + k) \<and> t < ?r \<and> (IsZero best \<or> ?r < best)"
    then show ?thesis using z(1) by auto
  qed
  moreover have "\<forall>w' \<in> set (ws @ [w]). \<forall>z' day. tz (w_TZ w') = Some z' \<and> day_matches w' day \<and> t < opens_at z' w' day \<longrightarrow> ?r \<noteq> 0 \<and> ?r \<le> opens_at z' w' day"
    using assms(1) old le z(1) by (fastforce simp: best_ok_def)
  ultimately show ?thesis unfolding best_ok_def by blast
qed

lemma best_fold:
  assumes "windows_fixed tz local ws" and "0 \<le> t"
  shows "best_ok tz t ws (foldl (\<lambda>b w. next_start tz local t w b [0..8]) 0 ws)"
  using assms
proof (induction ws rule: rev_induct)
  case Nil
  then show ?case by (simp add: best_ok_def)
next
  case (snoc w ws)
  then show ?case using best_step [of tz t ws _ local w] by (simp add: windows_fixed_def)
qed

section \<open>Property\<close>

text \<open>
  C31 (functional). \<^verbatim>\<open>OpenAtOrAfter\<close> finds the next opening: for valid windows in zones without transitions, the
  instant it returns is not before the one asked for, some window is open there, no window is open at any
  instant in between, and it is at most nine days away.
\<close>

theorem OpenAtOrAfter_earliest:
  assumes "windows_fixed tz local ws" and "0 \<le> t"
  shows "t \<le> OpenAtOrAfter tz local ws t \<and> fst (WindowOpen tz local ws (OpenAtOrAfter tz local ws t)) \<and>
     (\<forall>u. t \<le> u \<and> u < OpenAtOrAfter tz local ws t \<longrightarrow> \<not> fst (WindowOpen tz local ws u)) \<and>
     OpenAtOrAfter tz local ws t < t + 9 * 24 * time_Hour"
proof (cases "fst (WindowOpen tz local ws t)")
  case True
  then show ?thesis by (auto simp: OpenAtOrAfter_def)
next
  case False
  define r where "r = foldl (\<lambda>b w. next_start tz local t w b [0..8]) 0 ws"
  have ne: "ws \<noteq> []" and shut: "\<not> window_open_spec tz ws t" using False WindowOpen_iff [OF assms(1)] by auto
  have ok: "best_ok tz t ws r" unfolding r_def by (rule best_fold [OF assms])
  obtain w where w: "w \<in> set ws" using ne by (meson hd_in_set)
  then obtain z where z: "tz (w_TZ w) = Some z" "fixed_zone z" "ValidateWindow tz w = []"
    using assms(1) valid_window(1) by (fastforce simp: windows_fixed_def)
  obtain k where k: "1 \<le> k" "day_matches w (day_in z t + k)" using day_recurs [OF z(3)] by blast
  have "((day_in z t + 1) * 86400 - z_first z) * time_Second \<le> ((day_in z t + k) * 86400 - z_first z) * time_Second" using k(1) by simp
  then have "t < opens_at z w (day_in z t + k)"
    using fixed_day_bounds(2) [OF z(2), of t] opens_bounds(1) [of "day_in z t + k" z w] by linarith
  then have r0: "r \<noteq> 0" using ok w z(1) k(2) unfolding best_ok_def by blast
  then obtain w' z' day where b: "w' \<in> set ws" "tz (w_TZ w') = Some z'" "day_matches w' day" "r = opens_at z' w' day" "t < r"
    "day \<le> day_in z' t + 8" using ok unfolding best_ok_def by blast
  have eq: "OpenAtOrAfter tz local ws t = r" using False r0 by (simp add: OpenAtOrAfter_def IsZero_def r_def)
  have z': "fixed_zone z'" "ValidateWindow tz w' = []" using assms(1) b(1,2) by (auto simp: windows_fixed_def)
  have "window_open_spec tz ws r" unfolding window_open_spec_def using b opens_closes [OF valid_window(2) [OF z'(2)], of z' day] by fastforce
  moreover have "\<not> window_open_spec tz ws u" if u: "t \<le> u" "u < r" for u
  proof
    assume "window_open_spec tz ws u"
    then obtain v y d where v: "v \<in> set ws" "tz (w_TZ v) = Some y" "day_matches v d" "opens_at y v d \<le> u" "u < closes_at y v d"
      unfolding window_open_spec_def by blast
    have "opens_at y v d \<le> t" using ok v u(2) unfolding best_ok_def by force
    then show False using shut v u(1) unfolding window_open_spec_def by (meson le_less_trans)
  qed
  moreover have "r < t + 9 * 24 * time_Hour"
  proof -
    have "opens_at z' w' day < ((day + 1) * 86400 - z_first z') * time_Second" by (rule opens_bounds(2))
    also have "\<dots> \<le> ((day_in z' t + 9) * 86400 - z_first z') * time_Second" using b(6) by simp
    finally show ?thesis using b(4) fixed_day_bounds(1) [OF z'(1), of t] by (simp add: algebra_simps)
  qed
  ultimately show ?thesis using b(5) WindowOpen_iff [OF assms(1)] ne unfolding eq by auto
qed

definition ex_tz :: tzdata where
  "ex_tz s = (if s = ''America/Lima'' then Some \<lparr> z_first = - 18000, z_trans = [] \<rparr> else None)"

definition ex_utc :: zone where
  "ex_utc = \<lparr> z_first = 0, z_trans = [] \<rparr>"

definition ex_window :: Window where
  "ex_window = \<lparr> w_Days = [''mon'', ''fri''], w_From = ''22:00'', w_To = ''02:30'', w_TZ = ''America/Lima'' \<rparr>"

theorem OpenAtOrAfter_earliest_witness:
  "windows_fixed ex_tz ex_utc [ex_window] \<and> fst (WindowOpen ex_tz ex_utc [ex_window] (OpenAtOrAfter ex_tz ex_utc [ex_window] (5 * time_Hour)))"
proof -
  have "ValidateWindow ex_tz ex_window = []" by code_simp
  then have "windows_fixed ex_tz ex_utc [ex_window]"
    by (simp add: windows_fixed_def fixed_zone_def ex_utc_def ex_tz_def ex_window_def)
  then show ?thesis using OpenAtOrAfter_earliest [of ex_tz ex_utc "[ex_window]" "5 * time_Hour"] by simp
qed

end
