(* ===== verification/Env_Gate.thy ===== *)
theory Env_Gate
  imports Env_Window Legacy_Authz
begin

text \<open>
  The data of environments and promotions (\<^verbatim>\<open>internal/environments/types.go\<close>) and the pure gate
  (\<^verbatim>\<open>gate.go\<close>): which approvals count, where a promotion goes once its quorum is reached, and how a stored
  promotion advances with the clock. \<open>canDecide\<close> and \<open>isGate\<close> are from \<^verbatim>\<open>service.go\<close>.

  The states of a promotion are the strings the database constrains to nine values; they are a datatype
  here. Errors keep their code; the text of a message is kept where it is stored as a status reason.
\<close>

datatype PStatus = StatusPending | StatusWaiting | StatusApproved | StatusDeploying | StatusSuccess
  | StatusFailed | StatusRejected | StatusCancelled | StatusExpired

definition status_string :: "PStatus \<Rightarrow> string" where
  "status_string s = (case s of StatusPending \<Rightarrow> ''pending_approval'' | StatusWaiting \<Rightarrow> ''waiting'' | StatusApproved \<Rightarrow> ''approved''
     | StatusDeploying \<Rightarrow> ''deploying'' | StatusSuccess \<Rightarrow> ''success'' | StatusFailed \<Rightarrow> ''failed'' | StatusRejected \<Rightarrow> ''rejected''
     | StatusCancelled \<Rightarrow> ''cancelled'' | StatusExpired \<Rightarrow> ''expired'')"

definition ExpiryAfter :: duration where "ExpiryAfter = 72 * time_Hour"

definition CheckPrefix :: string where "CheckPrefix = ''capsule/env:''"

definition IsActive :: "PStatus \<Rightarrow> bool" where
  "IsActive s \<longleftrightarrow> s \<in> {StatusPending, StatusWaiting, StatusApproved, StatusDeploying}"

record Reviewer =
  rv_Type :: string
  rv_UserID :: "uuid option"
  rv_Role :: string

record Environment =
  env_ID :: uuid
  env_ProjectID :: uuid
  env_Name :: string
  env_Kind :: string
  env_TargetProjectID :: uuid
  env_BranchPatterns :: "string list"
  env_TagPatterns :: "string list"
  env_AutoDeploy :: bool
  env_Reviewers :: "Reviewer list"
  env_RequiredApprovals :: int
  env_AllowSelfApproval :: bool
  env_WaitMinutes :: int
  env_Windows :: "Window list"
  env_RequireChecksOnSHA :: bool
  env_RequireSourceEnvironment :: "string option"
  env_RequireSecurityPolicy :: bool
  env_RollbackRequiresApproval :: bool
  env_CreatedBy :: "uuid option"
  env_CreatedAt :: time
  env_UpdatedAt :: time

record Approval =
  ap_UserID :: "uuid option"
  ap_Decision :: string
  ap_Comment :: string
  ap_SelfApproval :: bool
  ap_Role :: string
  ap_At :: time

record Condition =
  cd_Name :: string
  cd_OK :: bool

record CheckItem =
  ci_Context :: string
  ci_State :: string
  ci_TargetURL :: string
  ci_Description :: string

record CheckSnapshot =
  cs_State :: string
  cs_Items :: "CheckItem list"

record Promotion =
  p_ID :: uuid
  p_ProjectID :: uuid
  p_EnvironmentID :: uuid
  p_Environment :: string
  p_SHA :: string
  p_Branch :: string
  p_FromEnvironment :: string
  p_Comment :: string
  p_Status :: PStatus
  p_StatusReason :: string
  p_RequestedBy :: "uuid option"
  p_RequiredApprovals :: int
  p_QuorumAt :: "time option"
  p_NotBefore :: "time option"
  p_ExpiresAt :: time
  p_IdempotencyKey :: string
  p_SourceDeploymentID :: "uuid option"
  p_DeploymentID :: "uuid option"
  p_Checks :: CheckSnapshot
  p_Conditions :: "Condition list"
  p_StartedAt :: "time option"
  p_FinishedAt :: "time option"
  p_CreatedAt :: time
  p_UpdatedAt :: time
  p_Approvals :: "Approval list"

definition EnvDeploymentStatus :: "PStatus \<Rightarrow> string" where
  "EnvDeploymentStatus promo = (if promo = StatusApproved then ''queued'' else status_string promo)"

record Artifact =
  art_DeploymentID :: uuid
  art_SourceKey :: string
  art_SHA :: string
  art_BuildStrategy :: string
  art_ContainerPort :: int

record ETarget =
  tg_ProjectID :: uuid
  tg_OrgID :: uuid
  tg_OrgSlug :: string
  tg_ProjectSlug :: string

record Actor =
  actor_UserID :: uuid
  actor_Role :: Role
  actor_IP :: string

record FieldError =
  fe_Field :: string
  fe_Message :: string

datatype env_error = ErrNotFound | ErrDuplicate | ErrInvalidState | ErrAlreadyDecided
  | ValidationError "FieldError list" | PolicyError string string | ConflictError string string
  | ForbiddenError string string | ExistingError string Promotion | InfraError string

section \<open>The gate\<close>

definition counts :: "Environment \<Rightarrow> Approval \<Rightarrow> bool" where
  "counts env a \<longleftrightarrow> ap_Decision a = ''approved'' \<and> \<not> (ap_SelfApproval a \<and> \<not> env_AllowSelfApproval env)"

fun count_loop :: "Environment \<Rightarrow> int \<Rightarrow> Approval list \<Rightarrow> int" where
  "count_loop env n [] = n"
| "count_loop env n (a # as) =
     (if ap_Decision a \<noteq> ''approved'' then count_loop env n as
      else if ap_SelfApproval a \<and> \<not> env_AllowSelfApproval env then count_loop env n as
      else count_loop env (n + 1) as)"

definition CountApprovals :: "Environment \<Rightarrow> Promotion \<Rightarrow> int" where
  "CountApprovals env p = count_loop env 0 (p_Approvals p)"

definition NextAfterQuorum :: "tzdata \<Rightarrow> zone \<Rightarrow> Environment \<Rightarrow> time \<Rightarrow> time \<Rightarrow> PStatus \<times> time option" where
  "NextAfterQuorum tz local env quorumAt now =
     (let t = quorumAt + env_WaitMinutes env * time_Minute in
      if t > now then (StatusWaiting, Some (OpenAtOrAfter tz local (env_Windows env) t))
      else if fst (WindowOpen tz local (env_Windows env) now) then (StatusApproved, None)
      else (StatusWaiting, Some (OpenAtOrAfter tz local (env_Windows env) now)))"

definition Advance :: "tzdata \<Rightarrow> zone \<Rightarrow> Environment \<Rightarrow> Promotion \<Rightarrow> time \<Rightarrow> PStatus \<times> time option \<times> time option \<times> bool" where
  "Advance tz local env p now =
     (if p_Status p = StatusPending then
        if CountApprovals env p < env_RequiredApprovals env then (p_Status p, p_NotBefore p, p_QuorumAt p, False)
        else let (st, nb) = NextAfterQuorum tz local env now now in (st, nb, Some now, True)
      else if p_Status p = StatusWaiting \<or> p_Status p = StatusApproved then
        let q = (case p_QuorumAt p of None \<Rightarrow> now | Some q \<Rightarrow> q);
            (st, nb) = NextAfterQuorum tz local env q now
        in (st, nb, Some q, \<not> (st = p_Status p \<and> nb = p_NotBefore p))
      else (p_Status p, p_NotBefore p, p_QuorumAt p, False))"

definition reviewer_is :: "uuid \<Rightarrow> string \<Rightarrow> Reviewer \<Rightarrow> bool" where
  "reviewer_is user role r =
     (if rv_Type r = ''user'' then rv_UserID r = Some user
      else if rv_Type r = ''role'' then role \<noteq> [] \<and> rv_Role r = role
      else False)"

definition IsApprover :: "Environment \<Rightarrow> uuid \<Rightarrow> string \<Rightarrow> bool" where
  "IsApprover env user role = list_ex (reviewer_is user role) (env_Reviewers env)"

definition DynamicConditions :: "tzdata \<Rightarrow> zone \<Rightarrow> Environment \<Rightarrow> Promotion \<Rightarrow> time \<Rightarrow> Condition list" where
  "DynamicConditions tz local env p now =
     [\<lparr> cd_Name = ''approvals'', cd_OK = CountApprovals env p \<ge> p_RequiredApprovals p \<rparr>] @
     (if env_WaitMinutes env > 0 then
        [\<lparr> cd_Name = ''wait'', cd_OK = (case p_QuorumAt p of None \<Rightarrow> False
             | Some q \<Rightarrow> \<not> q + env_WaitMinutes env * time_Minute > now) \<rparr>] else []) @
     (if length (env_Windows env) > 0 then
        [\<lparr> cd_Name = ''window'', cd_OK = fst (WindowOpen tz local (env_Windows env) now) \<rparr>] else [])"

text \<open>\<^verbatim>\<open>canDecide\<close>: \<open>None\<close> when the decision is allowed.\<close>

definition canDecide :: "Environment \<Rightarrow> Promotion \<Rightarrow> Actor \<Rightarrow> bool \<Rightarrow> env_error option" where
  "canDecide env p a approve =
     (if \<not> IsActive (p_Status p) \<or> p_Status p = StatusDeploying then Some ErrInvalidState
      else if approve \<and> p_Status p \<noteq> StatusPending then Some ErrInvalidState
      else if actor_Role a = [] \<or> \<not> IsApprover env (actor_UserID a) (actor_Role a) then
        Some (ForbiddenError ''NOT_AN_APPROVER'' ''you are not on the approver list of this environment'')
      else if env_Kind env = ''production'' \<and> actor_Role a \<noteq> RoleAdmin then
        Some (ForbiddenError ''NOT_AN_APPROVER'' ''production approvals require a project admin'')
      else if approve \<and> p_RequestedBy p = Some (actor_UserID a) \<and> \<not> env_AllowSelfApproval env then
        Some (ForbiddenError ''SELF_APPROVAL_FORBIDDEN'' ''the requester cannot approve their own promotion'')
      else if list_ex (\<lambda>x. ap_UserID x = Some (actor_UserID a)) (p_Approvals p) then Some ErrAlreadyDecided
      else None)"

definition isGate :: "env_error \<Rightarrow> bool" where
  "isGate e = (case e of PolicyError _ _ \<Rightarrow> True | ConflictError _ _ \<Rightarrow> True | _ \<Rightarrow> False)"

section \<open>Facts about the gate\<close>

lemma count_loop_eq: "count_loop env n as = n + int (length (filter (counts env) as))"
  by (induction as arbitrary: n) (auto simp: counts_def)

lemma CountApprovals_eq: "CountApprovals env p = int (length (filter (counts env) (p_Approvals p)))"
  by (simp add: CountApprovals_def count_loop_eq)

lemma OpenAtOrAfter_ge: "t \<le> OpenAtOrAfter tz local ws t"
proof -
  have "best = 0 \<or> t < best \<Longrightarrow> next_start tz local t w best fs = 0 \<or> t < next_start tz local t w best fs" for w best fs
    by (induction fs) (auto split: option.split)
  then have "foldl (\<lambda>b w. next_start tz local t w b [0..8]) b ws = 0 \<or> t < foldl (\<lambda>b w. next_start tz local t w b [0..8]) b ws"
    if "b = 0 \<or> t < b" for b using that by (induction ws arbitrary: b) auto
  then show ?thesis by (auto simp: OpenAtOrAfter_def Let_def IsZero_def dest: order.strict_implies_order)
qed

text \<open>Where a promotion goes after its quorum: it is approved exactly when the waiting time has passed and a
  window is open; otherwise it waits for an instant that is neither in the past nor before the waiting time.\<close>

lemma NextAfterQuorum_cases:
  "NextAfterQuorum tz local env q now = (StatusApproved, None) \<and> q + env_WaitMinutes env * time_Minute \<le> now \<and>
      fst (WindowOpen tz local (env_Windows env) now) \<or>
   (\<exists>nb. NextAfterQuorum tz local env q now = (StatusWaiting, Some nb) \<and> now \<le> nb \<and> q + env_WaitMinutes env * time_Minute \<le> nb \<and>
      \<not> (q + env_WaitMinutes env * time_Minute \<le> now \<and> fst (WindowOpen tz local (env_Windows env) now)))"
proof -
  note ge = OpenAtOrAfter_ge [of _ tz local "env_Windows env"]
  show ?thesis using ge [of "q + env_WaitMinutes env * time_Minute"] ge [of now] by (auto simp: NextAfterQuorum_def Let_def)
qed

end
