(* ===== verification/Env_Store.thy ===== *)
theory Env_Store
  imports Env_Gate "HOL-Library.Product_Lexorder"
begin

text \<open>
  The store of environments and promotions, as \<^verbatim>\<open>internal/repository/environment_repo.go\<close> implements it: every
  transaction is one function on the tables (\<^verbatim>\<open>ExpireOverdue\<close>, which is not one, is a sequence of them), with the unique indexes of the migrations as the conditions
  under which an insert or update fails. The tables are lists in order of insertion; the clock of the
  database and of the service are one, and the \<^verbatim>\<open>updated_at\<close> columns, which nothing reads, keep their first
  value. Approvals are kept inside their promotion, in the order the query returns them. Connection
  failures are not modelled: a query answers.
\<close>

section \<open>Tables\<close>

record EnvDeployment =
  ed_ID :: uuid
  ed_EnvironmentID :: uuid
  ed_SHA :: string
  ed_DeploymentID :: "uuid option"
  ed_Status :: string
  ed_PromotionID :: uuid
  ed_HealthStatus :: string
  ed_CreatedAt :: time
  ed_FinishedAt :: "time option"

record EAudit =
  au_UserID :: uuid
  au_Action :: string
  au_ResourceID :: uuid

text \<open>The columns of \<^verbatim>\<open>deployments\<close> that the store and the deployer read or write.\<close>

record DeployRow =
  dr_ID :: uuid
  dr_ProjectID :: uuid
  dr_Version :: string
  dr_GitSHA :: "string option"
  dr_Status :: string
  dr_BuildStrategy :: "string option"
  dr_ContainerPort :: "int option"
  dr_Trigger :: string
  dr_TriggeredBy :: "uuid option"
  dr_SourceKey :: "string option"
  dr_HealthStatus :: string
  dr_CreatedAt :: time

record EDB =
  db_targets :: "ETarget list"
  db_deploys :: "DeployRow list"
  db_envs :: "Environment list"
  db_promos :: "Promotion list"
  db_hist :: "EnvDeployment list"
  db_audit :: "EAudit list"

record Patch =
  pt_Reason :: string
  pt_NotBefore :: "time option"
  pt_QuorumAt :: "time option"
  pt_StartedAt :: "time option"
  pt_FinishedAt :: "time option"
  pt_Health :: string
  pt_Required :: "int option"

definition zero_Patch :: Patch where
  "zero_Patch = \<lparr> pt_Reason = [], pt_NotBefore = None, pt_QuorumAt = None, pt_StartedAt = None, pt_FinishedAt = None,
     pt_Health = [], pt_Required = None \<rparr>"

record EDecision =
  de_PromotionID :: uuid
  de_Approval :: Approval
  de_Required :: int
  de_AllowSelf :: bool
  de_QuorumStatus :: PStatus
  de_QuorumNotBefore :: "time option"
  de_QuorumAt :: time
  de_RejectReason :: string
  de_RejectedAt :: time

definition coalesce :: "'a option \<Rightarrow> 'a option \<Rightarrow> 'a option" where
  "coalesce a b = (case a of None \<Rightarrow> b | Some x \<Rightarrow> Some x)"

definition envInsertAudit :: "EAudit \<Rightarrow> EDB \<Rightarrow> EDB" where
  "envInsertAudit a db = db\<lparr> db_audit := db_audit db @ [a] \<rparr>"

section \<open>Environments\<close>

definition store_Target :: "EDB \<Rightarrow> uuid \<Rightarrow> env_error + ETarget" where
  "store_Target db pid = (case find (\<lambda>t. tg_ProjectID t = pid) (db_targets db) of None \<Rightarrow> Inl ErrNotFound | Some t \<Rightarrow> Inr t)"

definition store_ListEnvs :: "EDB \<Rightarrow> uuid \<Rightarrow> Environment list" where
  "store_ListEnvs db pid = sort_key (\<lambda>e. (env_CreatedAt e, env_Name e)) (filter (\<lambda>e. env_ProjectID e = pid) (db_envs db))"

definition store_GetEnv :: "EDB \<Rightarrow> uuid \<Rightarrow> string \<Rightarrow> env_error + Environment" where
  "store_GetEnv db pid name =
     (case find (\<lambda>e. env_ProjectID e = pid \<and> env_Name e = name) (db_envs db) of None \<Rightarrow> Inl ErrNotFound | Some e \<Rightarrow> Inr e)"

definition store_GetEnvByID :: "EDB \<Rightarrow> uuid \<Rightarrow> env_error + Environment" where
  "store_GetEnvByID db i = (case find (\<lambda>e. env_ID e = i) (db_envs db) of None \<Rightarrow> Inl ErrNotFound | Some e \<Rightarrow> Inr e)"

definition store_CreateEnv :: "Environment \<Rightarrow> EAudit \<Rightarrow> EDB \<Rightarrow> (env_error + unit) \<times> EDB" where
  "store_CreateEnv e a db =
     (if list_ex (\<lambda>x. env_ID x = env_ID e) (db_envs db) then (Inl (InfraError ''creating environment''), db)
      else if list_ex (\<lambda>x. env_ProjectID x = env_ProjectID e \<and> env_Name x = env_Name e) (db_envs db) then (Inl ErrDuplicate, db)
      else (Inr (), envInsertAudit a (db\<lparr> db_envs := db_envs db @ [e] \<rparr>)))"

text \<open>\<^verbatim>\<open>UpdateEnv\<close> writes the policy columns: not the identity, the name, the creator or the creation time.\<close>

definition policy_columns :: "Environment \<Rightarrow> Environment \<Rightarrow> Environment" where
  "policy_columns e x = e\<lparr> env_ID := env_ID x, env_ProjectID := env_ProjectID x, env_Name := env_Name x,
     env_CreatedBy := env_CreatedBy x, env_CreatedAt := env_CreatedAt x \<rparr>"

definition store_UpdateEnv :: "Environment \<Rightarrow> EAudit \<Rightarrow> EDB \<Rightarrow> (env_error + unit) \<times> EDB" where
  "store_UpdateEnv e a db =
     (if list_ex (\<lambda>x. env_ID x = env_ID e \<and> env_ProjectID x = env_ProjectID e) (db_envs db) then
        (Inr (), envInsertAudit a (db\<lparr> db_envs := map (\<lambda>x. if env_ID x = env_ID e \<and> env_ProjectID x = env_ProjectID e
             then policy_columns e x else x) (db_envs db) \<rparr>))
      else (Inl ErrNotFound, db))"

text \<open>Deleting an environment deletes its promotions and history (foreign keys with cascade).\<close>

definition store_DeleteEnv :: "uuid \<Rightarrow> uuid \<Rightarrow> EAudit \<Rightarrow> EDB \<Rightarrow> (env_error + unit) \<times> EDB" where
  "store_DeleteEnv pid i a db =
     (if list_ex (\<lambda>x. env_ID x = i \<and> env_ProjectID x = pid) (db_envs db) then
        (Inr (), envInsertAudit a (db\<lparr> db_envs := filter (\<lambda>x. \<not> (env_ID x = i \<and> env_ProjectID x = pid)) (db_envs db),
           db_promos := filter (\<lambda>p. p_EnvironmentID p \<noteq> i) (db_promos db),
           db_hist := filter (\<lambda>h. ed_EnvironmentID h \<noteq> i) (db_hist db) \<rparr>))
      else (Inl ErrNotFound, db))"

section \<open>Promotions\<close>

definition upd_promo :: "uuid \<Rightarrow> (Promotion \<Rightarrow> Promotion) \<Rightarrow> Promotion list \<Rightarrow> Promotion list" where
  "upd_promo i f ps = map (\<lambda>p. if p_ID p = i then f p else p) ps"

definition store_GetPromotion :: "EDB \<Rightarrow> uuid \<Rightarrow> env_error + Promotion" where
  "store_GetPromotion db i = (case find (\<lambda>p. p_ID p = i) (db_promos db) of None \<Rightarrow> Inl ErrNotFound | Some p \<Rightarrow> Inr p)"

definition by_creation :: "Promotion list \<Rightarrow> Promotion list" where
  "by_creation ps = sort_key (\<lambda>p. (p_CreatedAt p, p_ID p)) ps"

definition store_ListPromotions :: "EDB \<Rightarrow> uuid \<Rightarrow> bool \<Rightarrow> Promotion list" where
  "store_ListPromotions db envID activeOnly =
     by_creation (filter (\<lambda>p. p_EnvironmentID p = envID \<and> (activeOnly \<longrightarrow> IsActive (p_Status p))) (db_promos db))"

definition store_ListActive :: "EDB \<Rightarrow> nat \<Rightarrow> Promotion list" where
  "store_ListActive db limit = take limit (by_creation (filter (\<lambda>p. IsActive (p_Status p)) (db_promos db)))"

definition FindByIdempotency :: "EDB \<Rightarrow> uuid \<Rightarrow> uuid \<Rightarrow> string \<Rightarrow> Promotion option" where
  "FindByIdempotency db pid by key =
     find (\<lambda>p. p_ProjectID p = pid \<and> p_RequestedBy p = Some by \<and> p_IdempotencyKey p = key) (db_promos db)"

text \<open>The partial unique indexes \<^verbatim>\<open>uq_promotions_idempotency\<close>, \<^verbatim>\<open>uq_promotions_active_sha\<close> and \<^verbatim>\<open>uq_promotions_one_deploying\<close>.\<close>

definition same_key :: "Promotion \<Rightarrow> Promotion \<Rightarrow> bool" where
  "same_key p x \<longleftrightarrow> p_IdempotencyKey p \<noteq> [] \<and> p_RequestedBy p \<noteq> None \<and> p_ProjectID x = p_ProjectID p \<and>
     p_RequestedBy x = p_RequestedBy p \<and> p_IdempotencyKey x = p_IdempotencyKey p"

definition same_active :: "Promotion \<Rightarrow> Promotion \<Rightarrow> bool" where
  "same_active p x \<longleftrightarrow> IsActive (p_Status p) \<and> IsActive (p_Status x) \<and> p_EnvironmentID x = p_EnvironmentID p \<and> p_SHA x = p_SHA p"

definition busy_env :: "uuid \<Rightarrow> Promotion \<Rightarrow> bool" where
  "busy_env e x \<longleftrightarrow> p_EnvironmentID x = e \<and> p_Status x = StatusDeploying"

definition store_CreatePromotion :: "uuid \<Rightarrow> Promotion \<Rightarrow> EAudit \<Rightarrow> EDB \<Rightarrow> (env_error + unit) \<times> EDB" where
  "store_CreatePromotion hid p a db =
     (if list_ex (\<lambda>x. p_ID x = p_ID p) (db_promos db) then (Inl (InfraError ''creating promotion''), db)
      else case find (same_key p) (db_promos db) of
        Some old \<Rightarrow> (Inl (ExistingError ''idempotency'' old), db)
      | None \<Rightarrow>
          (case find (same_active p) (db_promos db) of
             Some old \<Rightarrow> (Inl (ExistingError ''active'' old), db)
           | None \<Rightarrow>
               if \<not> list_ex (\<lambda>e. env_ID e = p_EnvironmentID p) (db_envs db) then (Inl (InfraError ''creating promotion''), db)
               else (Inr (), envInsertAudit a (db\<lparr> db_promos := db_promos db @ [p],
                  db_hist := db_hist db @ [\<lparr> ed_ID = hid, ed_EnvironmentID = p_EnvironmentID p, ed_SHA = p_SHA p, ed_DeploymentID = None,
                     ed_Status = EnvDeploymentStatus (p_Status p), ed_PromotionID = p_ID p, ed_HealthStatus = [],
                     ed_CreatedAt = p_CreatedAt p, ed_FinishedAt = None \<rparr>] \<rparr>))))"

definition sync_row :: "PStatus \<Rightarrow> time option \<Rightarrow> string \<Rightarrow> uuid option \<Rightarrow> EnvDeployment \<Rightarrow> EnvDeployment" where
  "sync_row status finished health dep h = h\<lparr> ed_Status := EnvDeploymentStatus status, ed_FinishedAt := coalesce finished (ed_FinishedAt h),
     ed_HealthStatus := (if health \<noteq> [] then health else ed_HealthStatus h), ed_DeploymentID := coalesce (ed_DeploymentID h) dep \<rparr>"

definition syncHistory :: "uuid \<Rightarrow> PStatus \<Rightarrow> time option \<Rightarrow> string \<Rightarrow> EDB \<Rightarrow> EDB" where
  "syncHistory i status finished health db =
     (let dep = (case find (\<lambda>p. p_ID p = i) (db_promos db) of None \<Rightarrow> None | Some p \<Rightarrow> p_DeploymentID p) in
      db\<lparr> db_hist := map (\<lambda>h. if ed_PromotionID h = i then sync_row status finished health dep h else h) (db_hist db) \<rparr>)"

definition decision_ok :: "bool \<Rightarrow> PStatus \<Rightarrow> bool" where
  "decision_ok approve status \<longleftrightarrow> (if approve then status = StatusPending else status \<in> {StatusPending, StatusWaiting, StatusApproved})"

definition decided :: "EDecision \<Rightarrow> Promotion \<Rightarrow> (PStatus \<times> string \<times> time option \<times> time option) option" where
  "decided d p =
     (if ap_Decision (de_Approval d) \<noteq> ''approved'' then Some (StatusRejected, de_RejectReason d, None, Some (de_RejectedAt d))
      else if int (length (filter (\<lambda>a. ap_Decision a = ''approved'' \<and> (de_AllowSelf d \<or> \<not> ap_SelfApproval a)) (p_Approvals p))) \<ge> de_Required d
        then Some (de_QuorumStatus d, [], de_QuorumNotBefore d, None)
      else None)"

definition apply_decision :: "EDecision \<Rightarrow> PStatus \<Rightarrow> string \<Rightarrow> time option \<Rightarrow> time option \<Rightarrow> Promotion \<Rightarrow> Promotion" where
  "apply_decision d st reason nb fin p = p\<lparr> p_Status := st, p_StatusReason := reason, p_NotBefore := nb,
     p_QuorumAt := (if st = StatusWaiting \<or> st = StatusApproved then Some (de_QuorumAt d) else p_QuorumAt p),
     p_FinishedAt := coalesce fin (p_FinishedAt p), p_RequiredApprovals := de_Required d \<rparr>"

definition add_approval :: "Approval \<Rightarrow> Promotion \<Rightarrow> Promotion" where
  "add_approval a p = p\<lparr> p_Approvals := p_Approvals p @ [a] \<rparr>"

definition AddDecision :: "EDecision \<Rightarrow> EAudit \<Rightarrow> EDB \<Rightarrow> (env_error + Promotion) \<times> EDB" where
  "AddDecision d a db =
     (case find (\<lambda>p. p_ID p = de_PromotionID d) (db_promos db) of
        None \<Rightarrow> (Inl ErrNotFound, db)
      | Some p \<Rightarrow>
          if \<not> decision_ok (ap_Decision (de_Approval d) = ''approved'') (p_Status p) then (Inl ErrInvalidState, db)
          else if ap_UserID (de_Approval d) \<noteq> None \<and> list_ex (\<lambda>x. ap_UserID x = ap_UserID (de_Approval d)) (p_Approvals p) then
            (Inl ErrAlreadyDecided, db)
          else
            let p1 = add_approval (de_Approval d) p;
                (p2, db2) = (case decided d p1 of
                   None \<Rightarrow> (p1, db\<lparr> db_promos := upd_promo (de_PromotionID d) (add_approval (de_Approval d)) (db_promos db) \<rparr>)
                 | Some (st, reason, nb, fin) \<Rightarrow>
                     (apply_decision d st reason nb fin p1,
                      syncHistory (de_PromotionID d) st fin []
                        (db\<lparr> db_promos := upd_promo (de_PromotionID d) (apply_decision d st reason nb fin \<circ> add_approval (de_Approval d)) (db_promos db) \<rparr>)))
            in (Inr p2, envInsertAudit a db2))"

definition apply_patch :: "PStatus \<Rightarrow> Patch \<Rightarrow> Promotion \<Rightarrow> Promotion" where
  "apply_patch to pt p = p\<lparr> p_Status := to, p_StatusReason := pt_Reason pt, p_NotBefore := pt_NotBefore pt,
     p_QuorumAt := coalesce (pt_QuorumAt pt) (p_QuorumAt p), p_StartedAt := coalesce (pt_StartedAt pt) (p_StartedAt p),
     p_FinishedAt := coalesce (pt_FinishedAt pt) (p_FinishedAt p),
     p_RequiredApprovals := (case pt_Required pt of None \<Rightarrow> p_RequiredApprovals p | Some r \<Rightarrow> r) \<rparr>"

text \<open>\<^verbatim>\<open>Transition\<close>: nothing happens when the promotion is no longer in one of the given states, or when it would
  become the second one deploying in its environment.\<close>

definition Transition :: "uuid \<Rightarrow> PStatus list \<Rightarrow> PStatus \<Rightarrow> Patch \<Rightarrow> EAudit option \<Rightarrow> EDB \<Rightarrow> bool \<times> EDB" where
  "Transition i from to pt a db =
     (case find (\<lambda>p. p_ID p = i) (db_promos db) of
        None \<Rightarrow> (False, db)
      | Some p \<Rightarrow>
          if p_Status p \<notin> set from then (False, db)
          else if to = StatusDeploying \<and> list_ex (\<lambda>x. p_ID x \<noteq> i \<and> busy_env (p_EnvironmentID p) x) (db_promos db) then (False, db)
          else let db' = syncHistory i to (pt_FinishedAt pt) (pt_Health pt) (db\<lparr> db_promos := upd_promo i (apply_patch to pt) (db_promos db) \<rparr>)
               in (True, case a of None \<Rightarrow> db' | Some a \<Rightarrow> envInsertAudit a db'))"

definition SetDeployment :: "uuid \<Rightarrow> uuid \<Rightarrow> EDB \<Rightarrow> EDB" where
  "SetDeployment i dep db = db\<lparr> db_promos := upd_promo i (\<lambda>p. p\<lparr> p_DeploymentID := Some dep \<rparr>) (db_promos db),
     db_hist := map (\<lambda>h. if ed_PromotionID h = i then h\<lparr> ed_DeploymentID := Some dep \<rparr> else h) (db_hist db) \<rparr>"

definition overdue :: "time \<Rightarrow> Promotion \<Rightarrow> bool" where
  "overdue now p \<longleftrightarrow> p_Status p \<in> {StatusPending, StatusWaiting, StatusApproved} \<and> p_ExpiresAt p \<le> now"

definition expire :: "time \<Rightarrow> Promotion \<Rightarrow> Promotion" where
  "expire now p = p\<lparr> p_Status := StatusExpired, p_StatusReason := ''expired without a decision (72 h)'', p_FinishedAt := Some now \<rparr>"

definition expire_audit :: "uuid \<Rightarrow> EAudit" where
  "expire_audit i = \<lparr> au_UserID = uuid_Nil, au_Action = ''promotion.expire'', au_ResourceID = i \<rparr>"

text \<open>\<^verbatim>\<open>loadPromotion\<close> reads a promotion joined with its environment.\<close>

definition loadPromotion :: "EDB \<Rightarrow> uuid \<Rightarrow> env_error + Promotion" where
  "loadPromotion db i =
     (case find (\<lambda>p. p_ID p = i \<and> list_ex (\<lambda>e. env_ID e = p_EnvironmentID p) (db_envs db)) (db_promos db) of
        None \<Rightarrow> Inl ErrNotFound | Some p \<Rightarrow> Inr p)"

text \<open>
  \<^verbatim>\<open>ExpireOverdue\<close> is not a transaction: the update that returns the expired ids is committed first
  (\<open>expire_rows\<close>), then every id is loaded, its history row synced and an audit entry written, each statement on
  its own, and the first row that cannot be loaded ends the loop (\<open>expire_sync\<close>).
\<close>

definition expire_rows :: "time \<Rightarrow> EDB \<Rightarrow> uuid list \<times> EDB" where
  "expire_rows now db = (map p_ID (filter (overdue now) (db_promos db)),
     db\<lparr> db_promos := map (\<lambda>p. if overdue now p then expire now p else p) (db_promos db) \<rparr>)"

fun expire_sync :: "time \<Rightarrow> uuid list \<Rightarrow> EDB \<Rightarrow> (env_error + Promotion list) \<times> EDB" where
  "expire_sync now [] db = (Inr [], db)"
| "expire_sync now (i # is) db =
     (case loadPromotion db i of
        Inl e \<Rightarrow> (Inl e, db)
      | Inr p \<Rightarrow>
          (case expire_sync now is (envInsertAudit (expire_audit i) (syncHistory i StatusExpired (Some now) [] db)) of
             (Inl e, db') \<Rightarrow> (Inl e, db')
           | (Inr out, db') \<Rightarrow> (Inr (p # out), db')))"

definition ExpireOverdue :: "time \<Rightarrow> EDB \<Rightarrow> (env_error + Promotion list) \<times> EDB" where
  "ExpireOverdue now db = (let (ids, db1) = expire_rows now db in expire_sync now ids db1)"

section \<open>History and artifacts\<close>

text \<open>\<^verbatim>\<open>ORDER BY ... DESC LIMIT 1\<close>: the last row of the ascending order.\<close>

definition newest :: "('a \<Rightarrow> 'k::linorder) \<Rightarrow> 'a list \<Rightarrow> 'a option" where
  "newest k xs = (case sort_key k xs of [] \<Rightarrow> None | ys \<Rightarrow> Some (last ys))"

definition CurrentDeployment :: "EDB \<Rightarrow> uuid \<Rightarrow> EnvDeployment option" where
  "CurrentDeployment db envID =
     newest (\<lambda>h. ((case ed_FinishedAt h of None \<Rightarrow> ed_CreatedAt h | Some f \<Rightarrow> f), ed_ID h))
       (filter (\<lambda>h. ed_EnvironmentID h = envID \<and> ed_Status h = ''success'') (db_hist db))"

definition scanArtifact :: "DeployRow \<Rightarrow> Artifact" where
  "scanArtifact r = \<lparr> art_DeploymentID = dr_ID r, art_SourceKey = (case dr_SourceKey r of None \<Rightarrow> [] | Some k \<Rightarrow> k),
     art_SHA = (case dr_GitSHA r of None \<Rightarrow> [] | Some s \<Rightarrow> s), art_BuildStrategy = (case dr_BuildStrategy r of None \<Rightarrow> [] | Some s \<Rightarrow> s),
     art_ContainerPort = (case dr_ContainerPort r of None \<Rightarrow> 0 | Some n \<Rightarrow> n) \<rparr>"

definition has_source :: "DeployRow \<Rightarrow> bool" where
  "has_source r \<longleftrightarrow> dr_SourceKey r \<noteq> None \<and> dr_SourceKey r \<noteq> Some []"

definition ArtifactOf :: "EDB \<Rightarrow> uuid \<Rightarrow> Artifact option" where
  "ArtifactOf db i = map_option scanArtifact (find (\<lambda>r. dr_ID r = i \<and> has_source r) (db_deploys db))"

definition FindArtifact :: "EDB \<Rightarrow> uuid \<Rightarrow> string \<Rightarrow> Artifact option" where
  "FindArtifact db pid sha = map_option scanArtifact (newest dr_CreatedAt
     (filter (\<lambda>r. dr_ProjectID r = pid \<and> dr_GitSHA r = Some sha \<and> dr_Status r = ''success'' \<and> has_source r) (db_deploys db)))"

definition SuccessfulSHA :: "EDB \<Rightarrow> uuid \<Rightarrow> string \<Rightarrow> (EnvDeployment \<times> Artifact) option" where
  "SuccessfulSHA db envID sha =
     (case newest ed_CreatedAt (filter (\<lambda>h. ed_EnvironmentID h = envID \<and> ed_SHA h = sha \<and> ed_Status h = ''success'' \<and>
             ed_DeploymentID h \<noteq> None) (db_hist db)) of
        None \<Rightarrow> None
      | Some h \<Rightarrow> (case ArtifactOf db (the (ed_DeploymentID h)) of None \<Rightarrow> None | Some art \<Rightarrow> Some (h, art)))"

text \<open>A page of the history, newest first: at most \<open>limit\<close> rows after the cursor, and the key of the last row
  when there are more. The cursor is the decoded pair (time, id).\<close>

definition ListEnvDeployments :: "EDB \<Rightarrow> uuid \<Rightarrow> (time \<times> uuid) option \<Rightarrow> nat \<Rightarrow> EnvDeployment list \<times> (time \<times> uuid) option" where
  "ListEnvDeployments db envID cursor limit =
     (let key = (\<lambda>h. (ed_CreatedAt h, ed_ID h));
          rows = take (limit + 1) (rev (sort_key key (filter (\<lambda>h. ed_EnvironmentID h = envID \<and>
                   (case cursor of None \<Rightarrow> True | Some c \<Rightarrow> key h < c)) (db_hist db))))
      in if length rows > limit then (take limit rows, Some (key (rows ! (limit - 1)))) else (rows, None))"

definition PendingForOrg :: "EDB \<Rightarrow> uuid \<Rightarrow> (time \<times> uuid) option \<Rightarrow> nat \<Rightarrow> (Promotion \<times> Environment) list" where
  "PendingForOrg db orgID cursor limit =
     (let ids = map tg_ProjectID (filter (\<lambda>t. tg_OrgID t = orgID) (db_targets db));
          ps = take limit (by_creation (filter (\<lambda>p. p_Status p = StatusPending \<and> p_ProjectID p \<in> set ids \<and>
                 (case cursor of None \<Rightarrow> True | Some c \<Rightarrow> (p_CreatedAt p, p_ID p) > c) \<and>
                 list_ex (\<lambda>e. env_ID e = p_EnvironmentID p) (db_envs db)) (db_promos db)))
      in map (\<lambda>p. (p, the (find (\<lambda>e. env_ID e = p_EnvironmentID p) (db_envs db)))) ps)"

text \<open>\<^verbatim>\<open>DeploymentRepository.Create\<close> without overrides: a queued row. The id is the one the database generates.\<close>

definition deploy_Create :: "DeployRow \<Rightarrow> EDB \<Rightarrow> (env_error + unit) \<times> EDB" where
  "deploy_Create r db =
     (if list_ex (\<lambda>x. dr_ID x = dr_ID r) (db_deploys db) then (Inl (InfraError ''creating deployment''), db)
      else (Inr (), db\<lparr> db_deploys := db_deploys db @ [r\<lparr> dr_Status := ''queued'', dr_HealthStatus := [] \<rparr>] \<rparr>))"

end
