(* ===== verification/Env_Txn.thy ===== *)
theory Env_Txn
  imports Env_Store
begin

text \<open>
  What the clients of the store of environments may do, and what stays true whatever they do. \<open>txn\<close> is one
  database transaction of \<open>Env_Store\<close> with the arguments the service gives it. The expiry of promotions, which the
  code runs statement by statement outside a transaction, is split here into its statements, so that sequences
  of \<open>txn\<close> steps cover also the runs in which another request comes between them, or which end early.

  The locales \<open>store_invariant\<close> and \<open>store_evolution\<close> are the contract between the store and its clients: a
  predicate that every transaction keeps, and a relation that every transaction is in. A client proved to
  be a sequence of transactions inherits both. The interpretations are the well-formedness of the tables
  (\<open>store_wf\<close>: the unique indexes, the queue of one deployment per environment, the history that mirrors
  the promotions up to the expiries not yet copied), the policy invariant (\<open>policy_inv\<close>) and the finality of final states (\<open>final_kept\<close>).
\<close>

section \<open>What clients may do\<close>

text \<open>The moves of a promotion outside a decision or an expiry.\<close>

definition edge :: "PStatus \<Rightarrow> PStatus \<Rightarrow> bool" where
  "edge f t \<longleftrightarrow> f = StatusPending \<and> t \<in> {StatusPending, StatusWaiting, StatusApproved, StatusCancelled} \<or>
     f \<in> {StatusWaiting, StatusApproved} \<and> t \<in> {StatusWaiting, StatusApproved, StatusCancelled} \<or>
     f = StatusApproved \<and> t = StatusDeploying \<or>
     f = StatusDeploying \<and> t \<in> {StatusSuccess, StatusFailed}"

definition env_of :: "EDB \<Rightarrow> uuid \<Rightarrow> Environment option" where
  "env_of db i = find (\<lambda>e. env_ID e = i) (db_envs db)"

definition quorum :: "Environment \<Rightarrow> Promotion \<Rightarrow> bool" where
  "quorum e p \<longleftrightarrow> CountApprovals e p \<ge> env_RequiredApprovals e"

text \<open>A decision the policy of the environment admits: a listed approver with a role, an administrator in
  production, and the requester's own approval only where the policy allows it, marked as such.\<close>

definition approval_ok :: "Environment \<Rightarrow> Promotion \<Rightarrow> Approval \<Rightarrow> bool" where
  "approval_ok e p a \<longleftrightarrow>
     (case ap_UserID a of
        None \<Rightarrow> False
      | Some u \<Rightarrow> ap_Role a \<noteq> [] \<and> IsApprover e u (ap_Role a) \<and> (env_Kind e = ''production'' \<longrightarrow> ap_Role a = RoleAdmin) \<and>
          (ap_SelfApproval a \<longleftrightarrow> ap_Decision a = ''approved'' \<and> p_RequestedBy p = Some u) \<and>
          (ap_SelfApproval a \<longrightarrow> env_AllowSelfApproval e))"

definition decision_by_policy :: "EDB \<Rightarrow> EDecision \<Rightarrow> bool" where
  "decision_by_policy db d \<longleftrightarrow> ap_UserID (de_Approval d) \<noteq> None \<and> de_QuorumStatus d \<in> {StatusWaiting, StatusApproved} \<and>
     (\<forall>p \<in> set (db_promos db). p_ID p = de_PromotionID d \<longrightarrow>
        (\<exists>e. env_of db (p_EnvironmentID p) = Some e \<and> de_Required d = env_RequiredApprovals e \<and> de_AllowSelf d = env_AllowSelfApproval e \<and>
           approval_ok e p (de_Approval d)))"

definition quorum_before :: "EDB \<Rightarrow> uuid \<Rightarrow> PStatus \<Rightarrow> bool" where
  "quorum_before db i to \<longleftrightarrow> to \<in> {StatusWaiting, StatusApproved} \<longrightarrow>
     (\<forall>p \<in> set (db_promos db). p_ID p = i \<and> p_Status p = StatusPending \<longrightarrow>
        (\<exists>e. env_of db (p_EnvironmentID p) = Some e \<and> quorum e p))"

definition new_by_policy :: "EDB \<Rightarrow> Promotion \<Rightarrow> bool" where
  "new_by_policy db p \<longleftrightarrow> p_Approvals p = [] \<and> p_Status p \<in> {StatusPending, StatusWaiting, StatusApproved} \<and>
     (\<exists>e. env_of db (p_EnvironmentID p) = Some e \<and> (p_Status p \<noteq> StatusPending \<longrightarrow> quorum e p))"

text \<open>The ids a committed expiry returned: the history of such a promotion is synced later, one statement per id.\<close>

definition all_expired :: "uuid \<Rightarrow> EDB \<Rightarrow> bool" where
  "all_expired i db \<longleftrightarrow> (\<forall>p \<in> set (db_promos db). p_ID p = i \<longrightarrow> p_Status p = StatusExpired)"

text \<open>One transaction of a client. The flag says whether policies may be replaced. \<^verbatim>\<open>deployments\<close> and the
  projects are also written by the rest of the program, at any time (\<open>T_Outside\<close>).\<close>

inductive txn :: "bool \<Rightarrow> EDB \<Rightarrow> EDB \<Rightarrow> bool" for pc :: bool where
  T_CreateEnv: "txn pc db (snd (store_CreateEnv e a db))"
| T_UpdateEnv: "pc \<Longrightarrow> txn pc db (snd (store_UpdateEnv e a db))"
| T_DeleteEnv: "au_Action a = ''environment.delete'' \<Longrightarrow> au_ResourceID a = i \<Longrightarrow> txn pc db (snd (store_DeleteEnv pid i a db))"
| T_WriteAudit: "txn pc db (envInsertAudit a db)"
| T_CreatePromotion: "new_by_policy db p \<Longrightarrow> txn pc db (snd (store_CreatePromotion hid p a db))"
| T_AddDecision: "decision_by_policy db d \<Longrightarrow> txn pc db (snd (AddDecision d a db))"
| T_Transition: "(\<And>f. f \<in> set from \<Longrightarrow> edge f to) \<Longrightarrow> quorum_before db i to \<Longrightarrow> txn pc db (snd (Transition i from to pt oa db))"
| T_SetDeployment: "txn pc db (SetDeployment i dep db)"
| T_ExpireRows: "txn pc db (snd (expire_rows now db))"
| T_SyncExpired: "all_expired i db \<Longrightarrow> txn pc db (syncHistory i StatusExpired (Some now) [] db)"
| T_deploy_Create: "txn pc db (snd (deploy_Create r db))"
| T_Outside: "txn pc db (db\<lparr> db_targets := ts, db_deploys := ds \<rparr>)"

abbreviation txns :: "bool \<Rightarrow> EDB \<Rightarrow> EDB \<Rightarrow> bool" where "txns pc \<equiv> (txn pc)\<^sup>*\<^sup>*"

lemma txn_weaken: "txn pc db db' \<Longrightarrow> txn True db db'"
  by (induction rule: txn.induct) (rule txn.intros; simp)+

lemma txns_weaken: "txns pc db db' \<Longrightarrow> txns True db db'"
  by (rule mono_rtranclp [rule_format]) (rule txn_weaken)

text \<open>The contracts: a predicate every transaction keeps, and a relation every transaction is in.\<close>

locale store_invariant =
  fixes pc :: bool and I :: "EDB \<Rightarrow> bool"
  assumes step: "I db \<Longrightarrow> txn pc db db' \<Longrightarrow> I db'"
begin

lemma keeps: "txns pc db db' \<Longrightarrow> I db \<Longrightarrow> I db'"
  by (induction rule: rtranclp_induct) (auto intro: step)

end

locale store_evolution = store_invariant +
  fixes R :: "EDB \<Rightarrow> EDB \<Rightarrow> bool"
  assumes R_refl: "R db db"
    and R_trans: "R a b \<Longrightarrow> R b c \<Longrightarrow> R a c"
    and R_step: "I db \<Longrightarrow> txn pc db db' \<Longrightarrow> R db db'"
begin

lemma evolves: "txns pc db db' \<Longrightarrow> I db \<Longrightarrow> R db db'"
proof (induction rule: rtranclp_induct)
  case base show ?case by (rule R_refl)
next
  case (step b c) then show ?case using R_trans R_step keeps by blast
qed

end

section \<open>Well-formed tables\<close>

definition hkey :: "EnvDeployment \<Rightarrow> uuid \<times> uuid \<times> string \<times> string" where
  "hkey h = (ed_PromotionID h, ed_EnvironmentID h, ed_SHA h, ed_Status h)"

text \<open>The state of a promotion as its row of the history shows it. A promotion that was expired may still be shown
  in the state it had: the two tables are written by separate statements.\<close>

definition shown :: "uuid \<times> uuid \<times> string \<times> string \<Rightarrow> Promotion \<Rightarrow> bool" where
  "shown k p \<longleftrightarrow> (case k of (i, e, s, st) \<Rightarrow> i = p_ID p \<and> e = p_EnvironmentID p \<and> s = p_SHA p \<and>
     (st = EnvDeploymentStatus (p_Status p) \<or>
      p_Status p = StatusExpired \<and> st \<in> EnvDeploymentStatus ` {StatusPending, StatusWaiting, StatusApproved}))"

definition mirror :: "EDB \<Rightarrow> bool" where
  "mirror db \<longleftrightarrow> list_all2 shown (map hkey (db_hist db)) (db_promos db)"

definition same_queue :: "Promotion \<Rightarrow> Promotion \<Rightarrow> bool" where
  "same_queue p q \<longleftrightarrow> p_EnvironmentID p = p_EnvironmentID q \<and> p_Status p = StatusDeploying \<and> p_Status q = StatusDeploying"

definition one_of :: "(Promotion \<Rightarrow> Promotion \<Rightarrow> bool) \<Rightarrow> EDB \<Rightarrow> bool" where
  "one_of same db \<longleftrightarrow> (\<forall>p \<in> set (db_promos db). \<forall>q \<in> set (db_promos db). same p q \<longrightarrow> p_ID p = p_ID q)"

definition keys_ok :: "EDB \<Rightarrow> bool" where
  "keys_ok db \<longleftrightarrow> distinct (map p_ID (db_promos db)) \<and> distinct (map env_ID (db_envs db)) \<and>
     distinct (map (\<lambda>e. (env_ProjectID e, env_Name e)) (db_envs db)) \<and>
     p_EnvironmentID ` set (db_promos db) \<subseteq> env_ID ` set (db_envs db)"

definition voters_ok :: "EDB \<Rightarrow> bool" where
  "voters_ok db \<longleftrightarrow> (\<forall>p \<in> set (db_promos db). None \<notin> ap_UserID ` set (p_Approvals p) \<and> distinct (map ap_UserID (p_Approvals p)))"

definition store_wf :: "EDB \<Rightarrow> bool" where
  "store_wf db \<longleftrightarrow> keys_ok db \<and> one_of same_queue db \<and> one_of same_active db \<and> one_of same_key db \<and> mirror db \<and> voters_ok db"

text \<open>The transactions that change promotions in place: the columns that never change, and the mirrored row.\<close>

definition fixed_cols :: "Promotion \<Rightarrow> uuid \<times> uuid \<times> uuid \<times> string \<times> uuid option \<times> string \<times> time \<times> time" where
  "fixed_cols p = (p_ID p, p_ProjectID p, p_EnvironmentID p, p_SHA p, p_RequestedBy p, p_IdempotencyKey p, p_CreatedAt p, p_ExpiresAt p)"

definition rows :: "EDB \<Rightarrow> EDB \<Rightarrow> (Promotion \<Rightarrow> Promotion) \<Rightarrow> bool" where
  "rows db db' g \<longleftrightarrow> db_promos db' = map g (db_promos db) \<and> db_envs db' = db_envs db \<and>
     (\<forall>p \<in> set (db_promos db). fixed_cols (g p) = fixed_cols p) \<and> (mirror db \<longrightarrow> mirror db')"

lemma rows_id: "rows db db id"
  by (simp add: rows_def)

lemma find_by_id:
  assumes "distinct (map p_ID ps)" "find (\<lambda>p. p_ID p = i) ps = Some p"
  shows "p \<in> set ps" "p_ID p = i" "q \<in> set ps \<Longrightarrow> p_ID q = i \<longleftrightarrow> q = p"
proof -
  show *: "p \<in> set ps" "p_ID p = i" using assms(2) by (auto simp: find_Some_iff)
  show "p_ID q = i \<longleftrightarrow> q = p" if "q \<in> set ps" using that * assms(1) by (auto simp: distinct_map inj_on_def)
qed

lemma upd_promo_map: "upd_promo i f ps = map (\<lambda>p. if p_ID p = i then f p else p) ps"
  by (simp add: upd_promo_def)

lemma shown_cols: "shown (hkey h) p \<Longrightarrow> ed_PromotionID h = p_ID p \<and> ed_EnvironmentID h = p_EnvironmentID p \<and> ed_SHA h = p_SHA p"
  by (simp add: shown_def hkey_def)

lemma list_all2_update:
  "list_all2 P xs ys \<Longrightarrow> (\<And>x y. x \<in> set xs \<Longrightarrow> y \<in> set ys \<Longrightarrow> P x y \<Longrightarrow> Q (f x) (g y)) \<Longrightarrow> list_all2 Q (map f xs) (map g ys)"
  by (auto simp: list_all2_conv_all_nth)

lemma mirror_hist: "mirror db \<longleftrightarrow> list_all2 (\<lambda>h p. shown (hkey h) p) (db_hist db) (db_promos db)"
  by (simp add: mirror_def list_all2_map1)

lemma hkey_sync_row [simp]: "hkey (sync_row st fin health dep h) = (ed_PromotionID h, ed_EnvironmentID h, ed_SHA h, EnvDeploymentStatus st)"
  by (simp add: hkey_def sync_row_def)

lemma syncHistory_promos [simp]:
  "db_promos (syncHistory i st fin health db) = db_promos db" "db_envs (syncHistory i st fin health db) = db_envs db"
  by (simp_all add: syncHistory_def Let_def)

lemma envInsertAudit_tables [simp]:
  "db_promos (envInsertAudit a db) = db_promos db" "db_envs (envInsertAudit a db) = db_envs db" "db_hist (envInsertAudit a db) = db_hist db"
  by (simp_all add: envInsertAudit_def)

lemma rows_synced:
  assumes "\<And>p. p \<in> set (db_promos db) \<Longrightarrow> p_ID p = i \<Longrightarrow> fixed_cols (f p) = fixed_cols p \<and> p_Status (f p) = st"
  shows "rows db (syncHistory i st fin health (db\<lparr> db_promos := upd_promo i f (db_promos db) \<rparr>)) (\<lambda>p. if p_ID p = i then f p else p)"
proof -
  have "mirror (syncHistory i st fin health (db\<lparr> db_promos := upd_promo i f (db_promos db) \<rparr>))" if m: "mirror db"
  proof -
    have "list_all2 (\<lambda>h p. shown (hkey h) p) (map (\<lambda>h. if ed_PromotionID h = i then sync_row st fin health dep h else h) (db_hist db))
        (map (\<lambda>p. if p_ID p = i then f p else p) (db_promos db))" for dep
    proof (rule list_all2_update [OF m [unfolded mirror_hist]])
      fix h p assume "p \<in> set (db_promos db)" and s: "shown (hkey h) p"
      then show "shown (hkey (if ed_PromotionID h = i then sync_row st fin health dep h else h)) (if p_ID p = i then f p else p)"
        using assms [of p] shown_cols [OF s] by (auto simp: shown_def fixed_cols_def)
    qed
    then show ?thesis by (simp add: mirror_hist syncHistory_def Let_def upd_promo_map)
  qed
  then show ?thesis using assms by (simp add: rows_def upd_promo_map)
qed

lemma rows_cong: "rows db db' g \<Longrightarrow> (\<And>p. p \<in> set (db_promos db) \<Longrightarrow> g p = g' p) \<Longrightarrow> rows db db' g'"
  by (auto simp: rows_def)

lemma rows_audit: "rows db db' g \<Longrightarrow> rows db (envInsertAudit a db') g"
  by (auto simp: rows_def mirror_def)

abbreviation ids_ok :: "EDB \<Rightarrow> bool" where "ids_ok db \<equiv> distinct (map p_ID (db_promos db))"

lemma Transition_cases:
  assumes "ids_ok db"
  obtains "Transition i from to pt oa db = (False, db)"
  | p db' where "Transition i from to pt oa db = (True, db')" "p \<in> set (db_promos db)" "p_ID p = i" "p_Status p \<in> set from"
      "rows db db' (\<lambda>q. if q = p then apply_patch to pt p else q)"
      "to = StatusDeploying \<Longrightarrow> (\<And>q. q \<in> set (db_promos db) \<Longrightarrow> busy_env (p_EnvironmentID p) q \<Longrightarrow> q = p)"
proof (cases "fst (Transition i from to pt oa db)")
  case False
  then have "Transition i from to pt oa db = (False, db)" by (auto simp: Transition_def Let_def split: option.splits if_splits)
  then show ?thesis by (rule that(1))
next
  case True
  define dbt where "dbt = syncHistory i to (pt_FinishedAt pt) (pt_Health pt) (db\<lparr> db_promos := upd_promo i (apply_patch to pt) (db_promos db) \<rparr>)"
  obtain p where f: "find (\<lambda>p. p_ID p = i) (db_promos db) = Some p" and st: "p_Status p \<in> set from"
    and free: "to = StatusDeploying \<longrightarrow> \<not> list_ex (\<lambda>x. p_ID x \<noteq> i \<and> busy_env (p_EnvironmentID p) x) (db_promos db)"
    and eq: "Transition i from to pt oa db = (True, case oa of None \<Rightarrow> dbt | Some a \<Rightarrow> envInsertAudit a dbt)"
    using True by (auto simp: Transition_def Let_def dbt_def split: option.splits if_splits)
  note p = find_by_id [OF assms f]
  have r: "rows db dbt (\<lambda>q. if p_ID q = i then apply_patch to pt q else q)"
    unfolding dbt_def by (rule rows_synced) (simp add: apply_patch_def fixed_cols_def)
  then have "rows db dbt (\<lambda>q. if q = p then apply_patch to pt p else q)" by (rule rows_cong) (use p in auto)
  then have "rows db (case oa of None \<Rightarrow> dbt | Some a \<Rightarrow> envInsertAudit a dbt) (\<lambda>q. if q = p then apply_patch to pt p else q)"
    by (cases oa) (auto intro: rows_audit)
  then show ?thesis using that(2) [OF eq p(1,2) st] free p by (auto simp: list_ex_iff)
qed

text \<open>What a recorded decision does to its promotion.\<close>

definition after_decision :: "EDecision \<Rightarrow> Promotion \<Rightarrow> Promotion" where
  "after_decision d p = (let p1 = add_approval (de_Approval d) p in
     case decided d p1 of None \<Rightarrow> p1 | Some (st, reason, nb, fin) \<Rightarrow> apply_decision d st reason nb fin p1)"

lemma decided_add: "p_Approvals p = p_Approvals q \<Longrightarrow> decided d p = decided d q"
  by (simp add: decided_def)

lemma rows_kept_status:
  assumes "db_promos db' = map g (db_promos db)" "db_envs db' = db_envs db" "map hkey (db_hist db') = map hkey (db_hist db)"
    and "\<And>p. p \<in> set (db_promos db) \<Longrightarrow> fixed_cols (g p) = fixed_cols p \<and> p_Status (g p) = p_Status p"
  shows "rows db db' g"
proof -
  have "list_all2 shown (map hkey (db_hist db)) (map g (db_promos db))" if "list_all2 shown (map hkey (db_hist db)) (db_promos db)"
    using list_all2_update [OF that, of shown id g] assms(4) by (simp add: shown_def fixed_cols_def case_prod_unfold)
  then show ?thesis using assms by (simp add: rows_def mirror_def)
qed

lemma AddDecision_cases:
  assumes "ids_ok db"
  obtains e where "AddDecision d a db = (Inl e, db)"
  | p db' where "AddDecision d a db = (Inr (after_decision d p), db')" "p \<in> set (db_promos db)" "p_ID p = de_PromotionID d"
      "decision_ok (ap_Decision (de_Approval d) = ''approved'') (p_Status p)"
      "ap_UserID (de_Approval d) \<noteq> None \<Longrightarrow> ap_UserID (de_Approval d) \<notin> ap_UserID ` set (p_Approvals p)"
      "rows db db' (\<lambda>q. if q = p then after_decision d p else q)"
proof (cases "fst (AddDecision d a db)")
  case (Inl e)
  then have "AddDecision d a db = (Inl e, db)" by (auto simp: AddDecision_def Let_def split: option.splits if_splits prod.splits)
  then show ?thesis by (rule that(1))
next
  case (Inr p')
  define i where "i = de_PromotionID d"
  obtain p where f: "find (\<lambda>p. p_ID p = i) (db_promos db) = Some p"
    and ok: "decision_ok (ap_Decision (de_Approval d) = ''approved'') (p_Status p)"
    and new: "\<not> (ap_UserID (de_Approval d) \<noteq> None \<and> list_ex (\<lambda>x. ap_UserID x = ap_UserID (de_Approval d)) (p_Approvals p))"
    using Inr by (auto simp: AddDecision_def i_def Let_def split: option.splits if_splits)
  note p = find_by_id [OF assms f]
  let ?p1 = "add_approval (de_Approval d) p" and ?g = "\<lambda>q. if q = p then after_decision d p else q"
  show ?thesis
  proof (cases "decided d ?p1")
    case None
    let ?db = "db\<lparr> db_promos := upd_promo i (add_approval (de_Approval d)) (db_promos db) \<rparr>"
    have "rows db ?db ?g" by (rule rows_kept_status) (use p None in \<open>auto simp: upd_promo_map after_decision_def Let_def add_approval_def fixed_cols_def\<close>)
    moreover have "AddDecision d a db = (Inr (after_decision d p), envInsertAudit a ?db)"
      using f ok new None by (simp add: AddDecision_def Let_def after_decision_def i_def)
    ultimately show ?thesis using that(2) p(1,2) ok new rows_audit by (fastforce simp: list_ex_iff i_def)
  next
    case (Some r)
    obtain st reason nb fin where r: "r = (st, reason, nb, fin)" by (cases r)
    let ?f = "apply_decision d st reason nb fin \<circ> add_approval (de_Approval d)"
    let ?db = "syncHistory i st fin [] (db\<lparr> db_promos := upd_promo i ?f (db_promos db) \<rparr>)"
    have "rows db ?db (\<lambda>q. if p_ID q = i then ?f q else q)"
      by (rule rows_synced) (simp add: add_approval_def apply_decision_def fixed_cols_def)
    then have "rows db ?db ?g" by (rule rows_cong) (use p Some r in \<open>auto simp: after_decision_def Let_def\<close>)
    moreover have "AddDecision d a db = (Inr (after_decision d p), envInsertAudit a ?db)"
      using f ok new Some r by (simp add: AddDecision_def Let_def after_decision_def i_def)
    ultimately show ?thesis using that(2) p(1,2) ok new rows_audit by (fastforce simp: list_ex_iff i_def)
  qed
qed

lemma SetDeployment_rows:
  "rows db (SetDeployment i dep db) (\<lambda>p. if p_ID p = i then p\<lparr> p_DeploymentID := Some dep \<rparr> else p)"
  by (rule rows_kept_status) (auto simp: SetDeployment_def upd_promo_map fixed_cols_def hkey_def)

text \<open>The expiry. Its statements change the state of the overdue promotions and, later, the history.\<close>

lemma expire_rows_rows: "rows db (snd (expire_rows now db)) (\<lambda>p. if overdue now p then expire now p else p)"
proof -
  have s: "shown k (if overdue now p then expire now p else p)" if "shown k p" for k p
    using that by (auto simp: shown_def expire_def overdue_def)
  have "list_all2 shown (map hkey (db_hist db)) (map (\<lambda>p. if overdue now p then expire now p else p) (db_promos db))" if "mirror db"
    using list_all2_update [OF that [unfolded mirror_def], of shown id] s by simp
  then show ?thesis by (simp add: rows_def expire_rows_def mirror_def fixed_cols_def expire_def)
qed

lemma mirror_sync:
  assumes "mirror db" "all_expired i db"
  shows "mirror (syncHistory i StatusExpired fin health db)"
proof -
  have "list_all2 (\<lambda>h p. shown (hkey h) p) (map (\<lambda>h. if ed_PromotionID h = i then sync_row StatusExpired fin health dep h else h) (db_hist db))
      (map id (db_promos db))" for dep
  proof (rule list_all2_update [OF assms(1) [unfolded mirror_hist]])
    fix h p assume "p \<in> set (db_promos db)" and s: "shown (hkey h) p"
    then show "shown (hkey (if ed_PromotionID h = i then sync_row StatusExpired fin health dep h else h)) (id p)"
      using assms(2) shown_cols [OF s] by (auto simp: shown_def all_expired_def)
  qed
  then show ?thesis by (simp add: mirror_hist syncHistory_def Let_def)
qed

lemma syncHistory_rest [simp]:
  "db_targets (syncHistory i st fin health db) = db_targets db" "db_deploys (syncHistory i st fin health db) = db_deploys db"
  "db_audit (syncHistory i st fin health db) = db_audit db"
  by (simp_all add: syncHistory_def Let_def)

lemma envInsertAudit_rest [simp]:
  "db_targets (envInsertAudit a db) = db_targets db" "db_deploys (envInsertAudit a db) = db_deploys db"
  "db_audit (envInsertAudit a db) = db_audit db @ [a]"
  by (simp_all add: envInsertAudit_def)

lemma all_expired_same: "db_promos db' = db_promos db \<Longrightarrow> all_expired i db' = all_expired i db"
  by (simp add: all_expired_def)

lemma mirror_audit: "mirror (envInsertAudit a db) = mirror db"
  by (simp add: mirror_def)

lemma expire_sync_Cons:
  "snd (expire_sync now (i # is) db) =
     (case loadPromotion db i of Inl e \<Rightarrow> db
      | Inr p \<Rightarrow> snd (expire_sync now is (envInsertAudit (expire_audit i) (syncHistory i StatusExpired (Some now) [] db))))"
  by (auto split: sum.split prod.split)

lemma expire_sync_tables:
  "db_promos (snd (expire_sync now js db)) = db_promos db \<and> db_envs (snd (expire_sync now js db)) = db_envs db \<and>
   db_targets (snd (expire_sync now js db)) = db_targets db \<and> db_deploys (snd (expire_sync now js db)) = db_deploys db"
proof (induction js arbitrary: db)
  case (Cons i js) show ?case unfolding expire_sync_Cons by (simp add: Cons.IH split: sum.split)
qed simp

lemma expire_sync_txns:
  assumes "\<forall>i \<in> set js. all_expired i db"
  shows "txns pc db (snd (expire_sync now js db)) \<and> (mirror db \<longrightarrow> mirror (snd (expire_sync now js db)))"
  using assms
proof (induction js arbitrary: db)
  case (Cons i js)
  let ?db1 = "syncHistory i StatusExpired (Some now) [] db"
  let ?db2 = "envInsertAudit (expire_audit i) ?db1"
  have i: "all_expired i db" and rest: "\<forall>i \<in> set js. all_expired i ?db2" using Cons.prems by (simp_all add: all_expired_def)
  have IH: "txns pc ?db2 (snd (expire_sync now js ?db2))" "mirror ?db2 \<longrightarrow> mirror (snd (expire_sync now js ?db2))"
    using Cons.IH [OF rest] by auto
  have "txns pc db ?db2" using T_SyncExpired [OF i, of pc now] T_WriteAudit [of pc ?db1 "expire_audit i"] by auto
  then have "txns pc db (snd (expire_sync now js ?db2))" using IH(1) by (rule rtranclp_trans)
  moreover have "mirror db \<longrightarrow> mirror (snd (expire_sync now js ?db2))" using IH(2) i by (simp add: mirror_audit mirror_sync)
  ultimately show ?case unfolding expire_sync_Cons by (simp split: sum.split)
qed simp

lemma ExpireOverdue_eq: "ExpireOverdue now db = expire_sync now (fst (expire_rows now db)) (snd (expire_rows now db))"
  by (simp add: ExpireOverdue_def case_prod_unfold Let_def)

lemma expired_ids:
  assumes "ids_ok db"
  shows "\<forall>i \<in> set (fst (expire_rows now db)). all_expired i (snd (expire_rows now db))"
  using assms by (auto simp: expire_rows_def all_expired_def expire_def distinct_map inj_on_def)

lemma ExpireOverdue_rows:
  assumes "ids_ok db"
  shows "rows db (snd (ExpireOverdue now db)) (\<lambda>p. if overdue now p then expire now p else p)"
  using expire_rows_rows [of db now] expire_sync_tables [of now "fst (expire_rows now db)" "snd (expire_rows now db)"]
    expire_sync_txns [OF expired_ids [OF assms, of now], of True now]
  by (simp add: rows_def ExpireOverdue_eq)

lemma ExpireOverdue_rest: "db_targets (snd (ExpireOverdue now db)) = db_targets db" "db_deploys (snd (ExpireOverdue now db)) = db_deploys db"
  using expire_sync_tables [of now "fst (expire_rows now db)" "snd (expire_rows now db)"] by (simp_all add: ExpireOverdue_eq, simp_all add: expire_rows_def)

lemma ExpireOverdue_txns: "ids_ok db \<Longrightarrow> txns pc db (snd (ExpireOverdue now db))"
  unfolding ExpireOverdue_eq
  by (rule converse_rtranclp_into_rtranclp [OF T_ExpireRows conjunct1 [OF expire_sync_txns]]) (rule expired_ids)

text \<open>A change in place keeps the tables well formed when it revives no promotion, starts at most one in an
  environment where nothing is being deployed, and adds no second vote of a user.\<close>

lemma one_of_rows:
  assumes "one_of same db" "rows db db' g"
    and "\<And>p q. p \<in> set (db_promos db) \<Longrightarrow> q \<in> set (db_promos db) \<Longrightarrow> same (g p) (g q) \<Longrightarrow> same p q \<or> p_ID p = p_ID q"
  shows "one_of same db'"
proof -
  have "p_ID (g p) = p_ID p" if "p \<in> set (db_promos db)" for p using assms(2) that by (auto simp: rows_def fixed_cols_def)
  then show ?thesis using assms unfolding one_of_def by (auto simp: rows_def; metis)
qed

lemma store_wf_rows:
  assumes wf: "store_wf db" and r: "rows db db' g"
    and active: "\<And>p. p \<in> set (db_promos db) \<Longrightarrow> IsActive (p_Status (g p)) \<Longrightarrow> IsActive (p_Status p)"
    and queue: "\<And>p q. p \<in> set (db_promos db) \<Longrightarrow> q \<in> set (db_promos db) \<Longrightarrow> same_queue (g p) (g q) \<Longrightarrow> same_queue p q \<or> p_ID p = p_ID q"
    and voters: "\<And>p. p \<in> set (db_promos db) \<Longrightarrow> None \<notin> ap_UserID ` set (p_Approvals (g p)) \<and> distinct (map ap_UserID (p_Approvals (g p)))"
  shows "store_wf db'"
proof -
  have cols: "fixed_cols (g p) = fixed_cols p" if "p \<in> set (db_promos db)" for p using r that by (simp add: rows_def)
  then have eq: "p_ID (g p) = p_ID p" "p_EnvironmentID (g p) = p_EnvironmentID p" "p_SHA (g p) = p_SHA p" "p_ProjectID (g p) = p_ProjectID p"
     "p_RequestedBy (g p) = p_RequestedBy p" "p_IdempotencyKey (g p) = p_IdempotencyKey p" if "p \<in> set (db_promos db)" for p
    using that by (force simp: fixed_cols_def)+
  have "map p_ID (db_promos db') = map p_ID (db_promos db)" using r eq(1) by (simp add: rows_def)
  then have "ids_ok db'" unfolding \<open>map p_ID (db_promos db') = _\<close> using wf by (simp add: store_wf_def keys_ok_def)
  then have "keys_ok db'" using wf r eq(2) by (simp add: store_wf_def keys_ok_def rows_def image_subset_iff)
  moreover have "one_of same_queue db'" by (rule one_of_rows [OF _ r queue]) (use wf in \<open>auto simp: store_wf_def\<close>)
  moreover have "one_of same_active db'"
    by (rule one_of_rows [OF _ r]) (use wf active eq in \<open>auto simp: store_wf_def same_active_def\<close>)
  moreover have "one_of same_key db'"
    by (rule one_of_rows [OF _ r]) (use wf eq in \<open>auto simp: store_wf_def same_key_def\<close>)
  moreover have "mirror db'" "voters_ok db'" using wf r voters by (auto simp: store_wf_def rows_def voters_ok_def)
  ultimately show ?thesis by (simp add: store_wf_def)
qed

lemma store_wf_one_row:
  assumes wf: "store_wf db" and r: "rows db db' (\<lambda>q. if q = p then p' else q)" and p: "p \<in> set (db_promos db)"
    and active: "IsActive (p_Status p') \<Longrightarrow> IsActive (p_Status p)"
    and queue: "\<And>q. p_Status p' = StatusDeploying \<Longrightarrow> q \<in> set (db_promos db) \<Longrightarrow> busy_env (p_EnvironmentID p) q \<Longrightarrow> q = p"
    and voters: "None \<notin> ap_UserID ` set (p_Approvals p') \<and> distinct (map ap_UserID (p_Approvals p'))"
  shows "store_wf db'"
proof (rule store_wf_rows [OF wf r])
  fix q assume q: "q \<in> set (db_promos db)"
  show "IsActive (p_Status (if q = p then p' else q)) \<Longrightarrow> IsActive (p_Status q)" using active by (auto split: if_splits)
  show "None \<notin> ap_UserID ` set (p_Approvals (if q = p then p' else q)) \<and> distinct (map ap_UserID (p_Approvals (if q = p then p' else q)))"
    using voters wf q by (auto simp: store_wf_def voters_ok_def)
  fix x assume x: "x \<in> set (db_promos db)"
  have "p_EnvironmentID p' = p_EnvironmentID p" using r p by (auto simp: rows_def fixed_cols_def)
  then show "same_queue (if q = p then p' else q) (if x = p then p' else x) \<Longrightarrow> same_queue q x \<or> p_ID q = p_ID x"
    using queue [OF _ q] queue [OF _ x] by (auto simp: same_queue_def busy_env_def split: if_splits)
qed

lemma edge_active: "edge f t \<Longrightarrow> IsActive f"
  by (auto simp: edge_def IsActive_def)

lemma wf_ids: "store_wf db \<Longrightarrow> ids_ok db"
  by (simp add: store_wf_def keys_ok_def)

lemma wf_voters: "store_wf db \<Longrightarrow> p \<in> set (db_promos db) \<Longrightarrow> None \<notin> ap_UserID ` set (p_Approvals p) \<and> distinct (map ap_UserID (p_Approvals p))"
  by (simp add: store_wf_def voters_ok_def)

lemma store_wf_Transition:
  assumes "store_wf db" "\<And>f. f \<in> set from \<Longrightarrow> edge f to"
  shows "store_wf (snd (Transition i from to pt oa db))"
proof (cases rule: Transition_cases [OF wf_ids [OF assms(1)], of i "from" to pt oa])
  case (2 p db')
  have "store_wf db'"
    by (rule store_wf_one_row [OF assms(1) 2(5) 2(2)])
      (use 2 assms wf_voters [OF assms(1) 2(2)] in \<open>auto simp: apply_patch_def dest: edge_active\<close>)
  then show ?thesis using 2(1) by simp
qed (use assms in simp)

lemma after_decision_status:
  assumes "decision_ok (ap_Decision (de_Approval d) = ''approved'') (p_Status p)" "de_QuorumStatus d \<in> {StatusWaiting, StatusApproved}"
  shows "IsActive (p_Status p)" "p_Status (after_decision d p) \<noteq> StatusDeploying"
  using assms by (auto simp: decision_ok_def IsActive_def after_decision_def decided_def add_approval_def apply_decision_def Let_def split: if_splits)

lemma after_decision_approvals [simp]: "p_Approvals (after_decision d p) = p_Approvals p @ [de_Approval d]"
  by (simp add: after_decision_def Let_def add_approval_def apply_decision_def split: option.split)

lemma store_wf_AddDecision:
  assumes "store_wf db" "decision_by_policy db d"
  shows "store_wf (snd (AddDecision d a db))"
proof (cases rule: AddDecision_cases [OF wf_ids [OF assms(1)], of d a])
  case (2 p db')
  have some: "ap_UserID (de_Approval d) \<noteq> None" and q: "de_QuorumStatus d \<in> {StatusWaiting, StatusApproved}"
    using assms(2) by (auto simp: decision_by_policy_def)
  have "store_wf db'"
    by (rule store_wf_one_row [OF assms(1) 2(6) 2(2)])
      (use after_decision_status [OF 2(4) q] wf_voters [OF assms(1) 2(2)] 2(5) some in auto)
  then show ?thesis using 2(1) by simp
qed (use assms in simp)

lemma store_wf_CreatePromotion:
  assumes "store_wf db" "new_by_policy db p"
  shows "store_wf (snd (store_CreatePromotion hid p a db))"
proof (cases "fst (store_CreatePromotion hid p a db)")
  case (Inl e) then show ?thesis using assms(1) by (auto simp: store_CreatePromotion_def split: if_splits option.splits)
next
  case (Inr u)
  then have none: "\<not> list_ex (\<lambda>x. p_ID x = p_ID p) (db_promos db)" "find (same_key p) (db_promos db) = None"
      "find (same_active p) (db_promos db) = None" "list_ex (\<lambda>e. env_ID e = p_EnvironmentID p) (db_envs db)"
    by (auto simp: store_CreatePromotion_def split: if_splits option.splits)
  then have eq: "db_promos (snd (store_CreatePromotion hid p a db)) = db_promos db @ [p]" "db_envs (snd (store_CreatePromotion hid p a db)) = db_envs db"
      "map hkey (db_hist (snd (store_CreatePromotion hid p a db))) = map hkey (db_hist db) @ [(p_ID p, p_EnvironmentID p, p_SHA p, EnvDeploymentStatus (p_Status p))]"
    by (simp_all add: store_CreatePromotion_def hkey_def)
  have new: "\<forall>x \<in> set (db_promos db). p_ID x \<noteq> p_ID p \<and> \<not> same_key p x \<and> \<not> same_active p x"
    and env: "p_EnvironmentID p \<in> env_ID ` set (db_envs db)"
    using none by (force simp: list_ex_iff find_None_iff)+
  have pend: "p_Status p \<noteq> StatusDeploying" "p_Approvals p = []" using assms(2) by (auto simp: new_by_policy_def)
  then have "keys_ok (snd (store_CreatePromotion hid p a db))" "mirror (snd (store_CreatePromotion hid p a db))"
      "voters_ok (snd (store_CreatePromotion hid p a db))"
    using assms(1) new env by (auto simp: store_wf_def keys_ok_def mirror_def voters_ok_def eq shown_def intro!: list_all2_appendI)
  moreover have "one_of same (snd (store_CreatePromotion hid p a db))"
    if "one_of same db" "\<And>x. x \<in> set (db_promos db) \<Longrightarrow> \<not> same p x \<and> \<not> same x p" for same
    using that by (auto simp: one_of_def eq)
  moreover have "\<not> same_key x p" "\<not> same_active x p" if "x \<in> set (db_promos db)" for x
    using new that by (auto simp: same_key_def same_active_def)
  ultimately show ?thesis using assms(1) new pend(1) by (simp add: store_wf_def same_queue_def)
qed

lemma list_all2_filter:
  "list_all2 P xs ys \<Longrightarrow> (\<And>x y. P x y \<Longrightarrow> Q x = R y) \<Longrightarrow> list_all2 P (filter Q xs) (filter R ys)"
  by (induction rule: list_all2_induct) auto

lemma store_wf_DeleteEnv:
  assumes "store_wf db"
  shows "store_wf (snd (store_DeleteEnv pid i a db))"
proof -
  have "list_all2 (\<lambda>h p. shown (hkey h) p) (filter (\<lambda>h. ed_EnvironmentID h \<noteq> i) (db_hist db)) (filter (\<lambda>p. p_EnvironmentID p \<noteq> i) (db_promos db))"
    by (rule list_all2_filter) (use assms in \<open>auto simp: store_wf_def mirror_hist dest: shown_cols\<close>)
  then show ?thesis using assms unfolding store_DeleteEnv_def store_wf_def keys_ok_def one_of_def mirror_hist voters_ok_def
    by (auto simp: distinct_map_filter)
qed

lemma store_wf_SetDeployment: "store_wf db \<Longrightarrow> store_wf (SetDeployment i dep db)"
  by (rule store_wf_rows [OF _ SetDeployment_rows]) (auto simp: same_queue_def split: if_splits dest: wf_voters)

lemma store_wf_expire_rows: "store_wf db \<Longrightarrow> store_wf (snd (expire_rows now db))"
  by (rule store_wf_rows [OF _ expire_rows_rows])
     (auto simp: same_queue_def expire_def overdue_def IsActive_def split: if_splits dest: wf_voters)

lemma store_wf_sync: "store_wf db \<Longrightarrow> all_expired i db \<Longrightarrow> store_wf (syncHistory i StatusExpired fin health db)"
  by (simp add: store_wf_def keys_ok_def one_of_def voters_ok_def mirror_sync)

lemma store_wf_same:
  "store_wf db \<Longrightarrow> db_promos db' = db_promos db \<Longrightarrow> db_hist db' = db_hist db \<Longrightarrow>
     map (\<lambda>e. (env_ID e, env_ProjectID e, env_Name e)) (db_envs db') = map (\<lambda>e. (env_ID e, env_ProjectID e, env_Name e)) (db_envs db) \<Longrightarrow> store_wf db'"
proof -
  assume wf: "store_wf db" and same: "db_promos db' = db_promos db" "db_hist db' = db_hist db"
    and m: "map (\<lambda>e. (env_ID e, env_ProjectID e, env_Name e)) (db_envs db') = map (\<lambda>e. (env_ID e, env_ProjectID e, env_Name e)) (db_envs db)"
  have "map env_ID (db_envs db') = map env_ID (db_envs db)" using arg_cong [OF m, of "map fst"] by (simp add: comp_def)
  moreover have "map (\<lambda>e. (env_ProjectID e, env_Name e)) (db_envs db') = map (\<lambda>e. (env_ProjectID e, env_Name e)) (db_envs db)"
    using arg_cong [OF m, of "map snd"] by (simp add: comp_def)
  moreover have "env_ID ` set (db_envs db') = env_ID ` set (db_envs db)" using calculation(1) by (metis set_map)
  ultimately show "store_wf db'" using wf by (simp add: store_wf_def keys_ok_def one_of_def mirror_def voters_ok_def same)
qed

lemma store_wf_CreateEnv:
  assumes "store_wf db"
  shows "store_wf (snd (store_CreateEnv e a db))"
proof (cases "fst (store_CreateEnv e a db)")
  case (Inl x) then show ?thesis using assms by (auto simp: store_CreateEnv_def split: if_splits)
next
  case (Inr u)
  then have "\<forall>x \<in> set (db_envs db). env_ID x \<noteq> env_ID e \<and> (env_ProjectID x, env_Name x) \<noteq> (env_ProjectID e, env_Name e)"
    and "snd (store_CreateEnv e a db) = envInsertAudit a (db\<lparr> db_envs := db_envs db @ [e] \<rparr>)"
    by (auto simp: store_CreateEnv_def list_ex_iff split: if_splits)
  moreover have "keys_ok (envInsertAudit a (db\<lparr> db_envs := db_envs db @ [e] \<rparr>))"
    using assms calculation(1) by (auto simp: store_wf_def keys_ok_def)
  ultimately show ?thesis using assms by (simp add: store_wf_def one_of_def mirror_def voters_ok_def)
qed

lemma store_wf_UpdateEnv: "store_wf db \<Longrightarrow> store_wf (snd (store_UpdateEnv e a db))"
  by (auto simp: store_UpdateEnv_def policy_columns_def comp_def intro: store_wf_same)

lemma store_wf_step:
  assumes "store_wf db" "txn pc db db'"
  shows "store_wf db'"
  using assms(2)
  by (cases rule: txn.cases) (use assms(1) in \<open>auto simp: deploy_Create_def intro: store_wf_CreateEnv store_wf_UpdateEnv store_wf_DeleteEnv
      store_wf_CreatePromotion store_wf_AddDecision store_wf_Transition store_wf_SetDeployment store_wf_expire_rows store_wf_sync store_wf_same [OF assms(1)]\<close>)

interpretation tables: store_invariant pc store_wf for pc
  by unfold_locales (rule store_wf_step)

lemma store_wf_ExpireOverdue: "store_wf db \<Longrightarrow> store_wf (snd (ExpireOverdue now db))"
  using tables.keeps [OF ExpireOverdue_txns [OF wf_ids]] .

section \<open>The policy holds\<close>

definition holds_policy :: "Environment \<Rightarrow> Promotion \<Rightarrow> bool" where
  "holds_policy e p \<longleftrightarrow> (\<forall>a \<in> set (p_Approvals p). approval_ok e p a) \<and>
     (p_Status p \<in> {StatusWaiting, StatusApproved, StatusDeploying, StatusSuccess, StatusFailed} \<longrightarrow> quorum e p)"

definition policy_inv :: "EDB \<Rightarrow> bool" where
  "policy_inv db \<longleftrightarrow> (\<forall>p \<in> set (db_promos db). \<exists>e. env_of db (p_EnvironmentID p) = Some e \<and> holds_policy e p)"

lemma policy_rows:
  assumes "policy_inv db" "rows db db' g"
    and "\<And>e p. p \<in> set (db_promos db) \<Longrightarrow> env_of db (p_EnvironmentID p) = Some e \<Longrightarrow> holds_policy e p \<Longrightarrow> holds_policy e (g p)"
  shows "policy_inv db'"
proof -
  have "p_EnvironmentID (g p) = p_EnvironmentID p" if "p \<in> set (db_promos db)" for p using assms(2) that by (auto simp: rows_def fixed_cols_def)
  then show ?thesis using assms by (auto simp: policy_inv_def rows_def env_of_def; metis)
qed

lemma holds_policy_cong:
  "p_Approvals p' = p_Approvals p \<Longrightarrow> p_RequestedBy p' = p_RequestedBy p \<Longrightarrow> holds_policy e p \<Longrightarrow>
   (p_Status p' \<in> {StatusWaiting, StatusApproved, StatusDeploying, StatusSuccess, StatusFailed} \<Longrightarrow> quorum e p) \<Longrightarrow> holds_policy e p'"
  by (auto simp: holds_policy_def approval_ok_def quorum_def CountApprovals_def split: option.splits)

lemma policy_Transition:
  assumes wf: "store_wf db" and pol: "policy_inv db" and legal: "\<And>f. f \<in> set from \<Longrightarrow> edge f to" and q: "quorum_before db i to"
  shows "policy_inv (snd (Transition i from to pt oa db))"
proof (cases rule: Transition_cases [OF wf_ids [OF wf], of i "from" to pt oa])
  case (2 p db')
  have "policy_inv db'"
  proof (rule policy_rows [OF pol 2(5)])
    fix e x assume x: "x \<in> set (db_promos db)" "env_of db (p_EnvironmentID x) = Some e" "holds_policy e x"
    have "quorum e p" if "x = p" "to \<in> {StatusWaiting, StatusApproved, StatusDeploying, StatusSuccess, StatusFailed}"
    proof (cases "p_Status p = StatusPending")
      case True then show ?thesis using that q legal [OF 2(4)] x 2(2,3) by (auto simp: quorum_before_def edge_def)
    next
      case False then show ?thesis using that legal [OF 2(4)] x by (auto simp: holds_policy_def edge_def)
    qed
    then show "holds_policy e (if x = p then apply_patch to pt p else x)"
      using x(3) by (auto intro!: holds_policy_cong [of _ x] simp: apply_patch_def)
  qed
  then show ?thesis using 2(1) by simp
qed (use pol in simp)

lemma counted: "CountApprovals e p =
    int (length (filter (\<lambda>a. ap_Decision a = ''approved'' \<and> (env_AllowSelfApproval e \<or> \<not> ap_SelfApproval a)) (p_Approvals p)))"
proof -
  have "counts e = (\<lambda>a. ap_Decision a = ''approved'' \<and> (env_AllowSelfApproval e \<or> \<not> ap_SelfApproval a))" by (auto simp: counts_def)
  then show ?thesis by (simp add: CountApprovals_eq)
qed

lemma after_decision_quorum:
  assumes ok: "decision_ok (ap_Decision (de_Approval d) = ''approved'') (p_Status p)"
    and e: "de_Required d = env_RequiredApprovals e" "de_AllowSelf d = env_AllowSelfApproval e"
    and st: "p_Status (after_decision d p) \<in> {StatusWaiting, StatusApproved, StatusDeploying, StatusSuccess, StatusFailed}"
  shows "quorum e (after_decision d p)"
proof (cases "ap_Decision (de_Approval d) = ''approved''")
  case False
  then show ?thesis using st by (simp add: after_decision_def decided_def apply_decision_def Let_def)
next
  case True
  let ?n = "CountApprovals e (after_decision d p)"
  have n: "?n = int (length (filter (\<lambda>a. ap_Decision a = ''approved'' \<and> (de_AllowSelf d \<or> \<not> ap_SelfApproval a)) (p_Approvals (add_approval (de_Approval d) p))))"
    unfolding counted e(2) by (simp add: add_approval_def)
  have "p_Status p = StatusPending" using ok True by (simp add: decision_ok_def)
  then have "decided d (add_approval (de_Approval d) p) \<noteq> None" using st
    by (cases "decided d (add_approval (de_Approval d) p)") (auto simp: after_decision_def add_approval_def)
  then have "?n \<ge> de_Required d" unfolding n using True by (simp add: decided_def split: if_splits)
  then show ?thesis by (simp add: quorum_def e)
qed

lemma policy_AddDecision:
  assumes wf: "store_wf db" and pol: "policy_inv db" and d: "decision_by_policy db d"
  shows "policy_inv (snd (AddDecision d a db))"
proof (cases rule: AddDecision_cases [OF wf_ids [OF wf], of d a])
  case (2 p db')
  have "policy_inv db'"
  proof (rule policy_rows [OF pol 2(6)])
    fix e x assume x: "x \<in> set (db_promos db)" "env_of db (p_EnvironmentID x) = Some e" "holds_policy e x"
    have "holds_policy e (after_decision d p)" if "x = p"
    proof -
      have e: "de_Required d = env_RequiredApprovals e" "de_AllowSelf d = env_AllowSelfApproval e" "approval_ok e p (de_Approval d)"
        using d x(1,2) that 2(3) by (auto simp: decision_by_policy_def)
      have "p_RequestedBy (after_decision d p) = p_RequestedBy p"
        by (simp add: after_decision_def add_approval_def apply_decision_def Let_def split: option.split)
      then have "\<forall>a \<in> set (p_Approvals (after_decision d p)). approval_ok e (after_decision d p) a"
        using x(3) that e(3) by (auto simp: holds_policy_def approval_ok_def split: option.splits)
      moreover have "p_Status (after_decision d p) \<in> {StatusWaiting, StatusApproved, StatusDeploying, StatusSuccess, StatusFailed} \<Longrightarrow>
          quorum e (after_decision d p)"
        by (rule after_decision_quorum [OF 2(4) e(1,2)])
      ultimately show ?thesis by (simp add: holds_policy_def)
    qed
    then show "holds_policy e (if x = p then after_decision d p else x)" using x(3) by auto
  qed
  then show ?thesis using 2(1) by simp
qed (use pol in simp)

lemma find_appended: "find P xs = Some x \<Longrightarrow> find P (xs @ ys) = Some x"
  by (induction xs) auto

lemma find_filter: "(\<And>x. P x \<Longrightarrow> Q x) \<Longrightarrow> find P (filter Q xs) = find P xs"
  by (induction xs) auto

lemma policy_CreatePromotion:
  assumes "policy_inv db" "new_by_policy db p"
  shows "policy_inv (snd (store_CreatePromotion hid p a db))"
proof -
  have "holds_policy e p" if "p_Status p \<noteq> StatusPending \<longrightarrow> quorum e p" for e
    using assms(2) that by (auto simp: new_by_policy_def holds_policy_def)
  then show ?thesis using assms
    by (auto simp: store_CreatePromotion_def policy_inv_def env_of_def new_by_policy_def split: option.splits)
qed

lemma policy_DeleteEnv:
  assumes "policy_inv db"
  shows "policy_inv (snd (store_DeleteEnv pid i a db))"
proof -
  have "find (\<lambda>e. env_ID e = j) (filter (\<lambda>x. \<not> (env_ID x = i \<and> env_ProjectID x = pid)) (db_envs db)) = find (\<lambda>e. env_ID e = j) (db_envs db)"
    if "j \<noteq> i" for j using that by (intro find_filter) auto
  then show ?thesis using assms by (auto simp: store_DeleteEnv_def policy_inv_def env_of_def simp del: de_Morgan_conj)
qed

lemma policy_CreateEnv: "policy_inv db \<Longrightarrow> policy_inv (snd (store_CreateEnv e a db))"
  by (auto simp: store_CreateEnv_def policy_inv_def env_of_def dest!: bspec intro: find_appended)

lemma policy_same: "policy_inv db \<Longrightarrow> db_promos db' = db_promos db \<Longrightarrow> db_envs db' = db_envs db \<Longrightarrow> policy_inv db'"
  by (simp add: policy_inv_def env_of_def)

lemma holds_policy_deployment: "holds_policy e p \<Longrightarrow> holds_policy e (p\<lparr> p_DeploymentID := dep \<rparr>)"
  by (rule holds_policy_cong [of _ p]) (auto simp: holds_policy_def)

lemma policy_SetDeployment: "policy_inv db \<Longrightarrow> policy_inv (SetDeployment i dep db)"
  by (rule policy_rows [OF _ SetDeployment_rows]) (auto intro: holds_policy_deployment)

lemma policy_expire_rows: "policy_inv db \<Longrightarrow> policy_inv (snd (expire_rows now db))"
  by (rule policy_rows [OF _ expire_rows_rows]) (auto simp: expire_def intro: holds_policy_cong)

lemma policy_step:
  assumes "store_wf db" "policy_inv db" "txn False db db'"
  shows "policy_inv db'"
  using assms(3,1,2)
  by (cases rule: txn.cases) (auto simp: deploy_Create_def wf_ids intro: policy_CreateEnv policy_DeleteEnv policy_CreatePromotion policy_AddDecision
      policy_Transition policy_SetDeployment policy_expire_rows policy_same)

interpretation policy: store_invariant False "\<lambda>db. store_wf db \<and> policy_inv db"
  by unfold_locales (use store_wf_step policy_step in blast)

section \<open>Final states\<close>

text \<open>A promotion in a final state stays as it is, the id of its deployment apart, until its environment is
  deleted, which leaves an entry in the audit log.\<close>

definition settled :: "Promotion \<Rightarrow> Promotion" where
  "settled p = p\<lparr> p_DeploymentID := None \<rparr>"

definition deleted_since :: "EDB \<Rightarrow> EDB \<Rightarrow> uuid \<Rightarrow> bool" where
  "deleted_since db db' i = list_ex (\<lambda>a. au_Action a = ''environment.delete'' \<and> au_ResourceID a = i) (drop (length (db_audit db)) (db_audit db'))"

definition final_kept :: "EDB \<Rightarrow> EDB \<Rightarrow> bool" where
  "final_kept db db' \<longleftrightarrow> length (db_audit db) \<le> length (db_audit db') \<and> take (length (db_audit db)) (db_audit db') = db_audit db \<and>
     (\<forall>p \<in> set (db_promos db). \<not> IsActive (p_Status p) \<longrightarrow>
        settled p \<in> settled ` set (db_promos db') \<or> deleted_since db db' (p_EnvironmentID p))"

lemma final_kept_refl: "final_kept db db"
  by (simp add: final_kept_def)

lemma settled_status: "settled p = settled q \<Longrightarrow> p_Status p = p_Status q \<and> p_EnvironmentID p = p_EnvironmentID q"
  by (drule arg_cong [where f = "\<lambda>p. (p_Status p, p_EnvironmentID p)"]) (simp add: settled_def)

lemma final_kept_trans:
  assumes ab: "final_kept a b" and bc: "final_kept b c"
  shows "final_kept a c"
proof -
  have len: "length (db_audit a) \<le> length (db_audit b)" "length (db_audit b) \<le> length (db_audit c)" using ab bc by (auto simp: final_kept_def)
  obtain as bs where as: "db_audit b = db_audit a @ as" "db_audit c = db_audit b @ bs"
  proof -
    have "take (length (db_audit a)) (db_audit b) = db_audit a" "take (length (db_audit b)) (db_audit c) = db_audit b"
      using ab bc by (simp_all add: final_kept_def)
    then show thesis using that by (metis append_take_drop_id)
  qed
  have ta: "take (length (db_audit a)) (db_audit c) = db_audit a" by (simp add: as)
  have del: "deleted_since a c i" if "deleted_since a b i \<or> deleted_since b c i" for i
    using that by (auto simp: deleted_since_def as)
  have bc': "settled p \<in> settled ` set (db_promos c) \<or> deleted_since b c (p_EnvironmentID p)"
    if b: "settled p \<in> settled ` set (db_promos b)" and fin: "\<not> IsActive (p_Status p)" for p
  proof -
    obtain q where q: "q \<in> set (db_promos b)" "settled q = settled p" using b by (metis imageE)
    then have "\<not> IsActive (p_Status q)" using fin settled_status [of q p] by simp
    then have "settled q \<in> settled ` set (db_promos c) \<or> deleted_since b c (p_EnvironmentID q)"
      using bc q(1) unfolding final_kept_def by simp
    then show ?thesis using settled_status [OF q(2)] by (simp add: q(2))
  qed
  have "settled p \<in> settled ` set (db_promos c) \<or> deleted_since a c (p_EnvironmentID p)"
    if "p \<in> set (db_promos a)" "\<not> IsActive (p_Status p)" for p
  proof -
    have "settled p \<in> settled ` set (db_promos b) \<or> deleted_since a b (p_EnvironmentID p)"
      using ab that unfolding final_kept_def by simp
    then show ?thesis using bc' [OF _ that(2)] del by blast
  qed
  then show ?thesis using len ta by (simp add: final_kept_def)
qed

lemma final_kept_rows:
  assumes "rows db db' g" "\<exists>as. db_audit db' = db_audit db @ as"
    and "\<And>p. p \<in> set (db_promos db) \<Longrightarrow> \<not> IsActive (p_Status p) \<Longrightarrow> settled (g p) = settled p"
  shows "final_kept db db'"
  using assms by (auto simp: final_kept_def rows_def; metis image_eqI)

lemma audit_grows:
  "\<exists>as. db_audit (envInsertAudit a db) = db_audit db @ as" "db_audit (syncHistory i st fin h db) = db_audit db"
  by (simp_all add: envInsertAudit_def syncHistory_def Let_def)

lemma audit_Transition: "\<exists>as. db_audit (snd (Transition i from to pt oa db)) = db_audit db @ as"
  by (auto simp: Transition_def Let_def envInsertAudit_def syncHistory_def split: option.split)

lemma audit_AddDecision: "\<exists>as. db_audit (snd (AddDecision d a db)) = db_audit db @ as"
  by (auto simp: AddDecision_def Let_def envInsertAudit_def syncHistory_def split: option.split)

lemma final_Transition:
  assumes "ids_ok db" "\<And>f. f \<in> set from \<Longrightarrow> edge f to"
  shows "final_kept db (snd (Transition i from to pt oa db))"
proof (cases rule: Transition_cases [OF assms(1), of i "from" to pt oa])
  case (2 p db')
  have "IsActive (p_Status p)" using 2(4) assms(2) by (rule_tac edge_active)
  then show ?thesis using 2 audit_Transition [of i "from" to pt oa db] by (auto intro!: final_kept_rows [OF 2(5)])
qed (simp add: final_kept_refl)

lemma final_AddDecision:
  assumes "ids_ok db" "de_QuorumStatus d \<in> {StatusWaiting, StatusApproved}"
  shows "final_kept db (snd (AddDecision d a db))"
proof (cases rule: AddDecision_cases [OF assms(1), of d a])
  case (2 p db')
  then show ?thesis using audit_AddDecision [of d a db] after_decision_status [OF 2(4) assms(2)] by (auto intro!: final_kept_rows [OF 2(6)])
qed (simp add: final_kept_refl)

lemma final_expire_rows: "final_kept db (snd (expire_rows now db))"
  by (rule final_kept_rows [OF expire_rows_rows]) (auto simp: expire_rows_def overdue_def IsActive_def)

lemma final_same:
  "set (db_promos db) \<subseteq> set (db_promos db') \<Longrightarrow> \<exists>as. db_audit db' = db_audit db @ as \<Longrightarrow> final_kept db db'"
  by (auto simp: final_kept_def)

lemma final_SetDeployment: "final_kept db (SetDeployment i dep db)"
  by (rule final_kept_rows [OF SetDeployment_rows]) (auto simp: SetDeployment_def settled_def)

lemma final_DeleteEnv:
  "au_Action a = ''environment.delete'' \<Longrightarrow> au_ResourceID a = i \<Longrightarrow> final_kept db (snd (store_DeleteEnv pid i a db))"
  by (auto simp: store_DeleteEnv_def final_kept_def deleted_since_def envInsertAudit_def)

lemma final_step:
  assumes "store_wf db" "txn pc db db'"
  shows "final_kept db db'"
  using assms(2,1)
proof (cases rule: txn.cases)
  case (T_AddDecision d a)
  then show ?thesis using assms(1) by (auto simp: decision_by_policy_def wf_ids intro!: final_AddDecision)
qed (auto simp: store_CreateEnv_def store_UpdateEnv_def store_CreatePromotion_def deploy_Create_def wf_ids envInsertAudit_def split: option.splits
       intro: final_same final_DeleteEnv final_Transition final_SetDeployment final_expire_rows)

interpretation finality: store_evolution pc store_wf final_kept for pc
  by unfold_locales (use final_kept_refl final_kept_trans final_step in blast)+

end
