(* ===== verification/Env_Policy.thy ===== *)
theory Env_Policy
  imports Env_Gate Glob
begin

text \<open>
  Validation of an environment policy (\<^verbatim>\<open>internal/environments/validate.go\<close>): the defaults of each kind, the
  field errors in the order the code reports them, and what an accepted policy guarantees.

  A pointer field of the body is an option; for the list of reviewers the option distinguishes the absent
  list from the empty one, as the code does. The key that detects repeated reviewers is a datatype instead
  of the text \<^verbatim>\<open>u:<id>\<close> or \<^verbatim>\<open>r:<role>\<close>. The body arrives as decoded JSON.
\<close>

section \<open>Names\<close>


definition lower_letter :: "char \<Rightarrow> bool" where
  "lower_letter c \<longleftrightarrow> CHR ''a'' \<le> c \<and> c \<le> CHR ''z''"

text \<open>The expression \<^verbatim>\<open>^[a-z][a-z0-9-]{1,30}$\<close>.\<close>

definition envName_ok :: "string \<Rightarrow> bool" where
  "envName_ok s = (case s of [] \<Rightarrow> False
     | c # r \<Rightarrow> lower_letter c \<and> 1 \<le> length r \<and> length r \<le> 30 \<and> list_all (\<lambda>d. lower_letter d \<or> digit d \<or> d = CHR ''-'') r)"

section \<open>Normalize\<close>

record EInput =
  in_Name :: string
  in_Kind :: string
  in_TargetProjectID :: "uuid option"
  in_BranchPatterns :: "string list"
  in_TagPatterns :: "string list"
  in_AutoDeploy :: "bool option"
  in_Reviewers :: "Reviewer list option"
  in_RequiredApprovals :: "int option"
  in_AllowSelfApproval :: "bool option"
  in_WaitMinutes :: "int option"
  in_Windows :: "Window list"
  in_RequireChecksOnSHA :: "bool option"
  in_RequireSourceEnvironment :: "string option"
  in_RequireSecurityPolicy :: "bool option"
  in_RollbackRequiresApproval :: "bool option"

abbreviation bad :: "string \<Rightarrow> string \<Rightarrow> FieldError list" where
  "bad f m \<equiv> [\<lparr> fe_Field = f, fe_Message = m \<rparr>]"

definition opt_or :: "'a \<Rightarrow> 'a option \<Rightarrow> 'a" where
  "opt_or def p = (case p of None \<Rightarrow> def | Some v \<Rightarrow> v)"

definition quoted :: "string \<Rightarrow> string" where
  "quoted s = CHR 0x27 # s @ [CHR 0x27]"

definition glob_message :: "glob_error \<Rightarrow> string" where
  "glob_message e = (case e of EmptyPattern \<Rightarrow> ''empty pattern'' | TooLong \<Rightarrow> ''pattern too long'' | NotUTF8 \<Rightarrow> ''pattern is not valid UTF-8''
     | TrailingBackslash \<Rightarrow> ''trailing backslash'' | UnclosedClass \<Rightarrow> ''unclosed '' @ quoted ''['' | InvalidRange \<Rightarrow> ''invalid range in '' @ quoted ''[...]''
     | TooDeep \<Rightarrow> ''alternatives nested too deeply'' | UnclosedBrace \<Rightarrow> ''unclosed '' @ quoted ''{'' | InvalidPattern \<Rightarrow> ''invalid pattern'')"

fun patterns_loop :: "string \<Rightarrow> nat \<Rightarrow> string list \<Rightarrow> string list \<Rightarrow> string list \<times> FieldError list" where
  "patterns_loop field i out [] = (out, [])"
| "patterns_loop field i out (p # ps) =
     (case CompileGlob p of
        Inl e \<Rightarrow> let (r, es) = patterns_loop field (i + 1) out ps in (r, bad (indexed field i) (glob_message e) @ es)
      | Inr _ \<Rightarrow> patterns_loop field (i + 1) (if p \<in> set out then out else out @ [p]) ps)"

definition patterns :: "string list \<Rightarrow> string \<Rightarrow> string list \<times> FieldError list" where
  "patterns ins field =
     (let (out, es) = patterns_loop field 0 [] ins in
      (out, (if length ins > 20 then bad field ''at most 20 patterns'' else []) @ es))"

datatype rkey = KUser uuid | KRole string

definition reviewer_key :: "Reviewer \<Rightarrow> rkey option" where
  "reviewer_key r =
     (if rv_Type r = ''user'' then (case rv_UserID r of None \<Rightarrow> None | Some u \<Rightarrow> if u = uuid_Nil then None else Some (KUser u))
      else if rv_Type r = ''role'' then Some (KRole (rv_Role r))
      else None)"

definition reviewer_bad :: "bool \<Rightarrow> string \<Rightarrow> Reviewer \<Rightarrow> FieldError list" where
  "reviewer_bad pr f r =
     (if rv_Type r = ''user'' then
        (if rv_UserID r = None \<or> rv_UserID r = Some uuid_Nil then bad (f @ ''.user_id'') ''required for type user'' else [])
      else if rv_Type r = ''role'' then
        (if rv_Role r \<noteq> ''admin'' \<and> rv_Role r \<noteq> ''deployer'' then bad (f @ ''.role'') ''must be admin or deployer''
         else if pr \<and> rv_Role r \<noteq> ''admin'' then bad (f @ ''.role'') ''production approvers must be admins'' else [])
      else bad (f @ ''.type'') ''must be user or role'')"

fun reviewers_loop :: "bool \<Rightarrow> nat \<Rightarrow> rkey list \<Rightarrow> Reviewer list \<Rightarrow> FieldError list" where
  "reviewers_loop pr i seen [] = []"
| "reviewers_loop pr i seen (r # rs) =
     (let f = indexed ''reviewers'' i in
      reviewer_bad pr f r @
      (case reviewer_key r of
         None \<Rightarrow> reviewers_loop pr (i + 1) seen rs
       | Some k \<Rightarrow> (if k \<in> set seen then bad f ''duplicate approver'' else []) @ reviewers_loop pr (i + 1) (k # seen) rs))"

definition listed_users :: "Reviewer list \<Rightarrow> uuid list" where
  "listed_users rs = remdups (List.map_filter (\<lambda>r. case reviewer_key r of Some (KUser u) \<Rightarrow> Some u | _ \<Rightarrow> None) rs)"

definition only_users :: "Reviewer list \<Rightarrow> bool" where
  "only_users rs = list_all (\<lambda>r. rv_Type r \<noteq> ''role'') rs"

fun windows_bad :: "tzdata \<Rightarrow> nat \<Rightarrow> Window list \<Rightarrow> FieldError list" where
  "windows_bad tz i [] = []"
| "windows_bad tz i (w # ws) =
     (let m = ValidateWindow tz w in (if m \<noteq> [] then bad (indexed ''windows'' i) m else []) @ windows_bad tz (i + 1) ws)"

text \<open>The values the policy takes: the field, or the default of the kind.\<close>

abbreviation isProd :: "EInput \<Rightarrow> bool" where
  "isProd ins \<equiv> in_Kind ins = ''production''"

definition required_of :: "EInput \<Rightarrow> int" where
  "required_of ins = opt_or (if isProd ins then 1 else 0) (in_RequiredApprovals ins)"

definition reviewers_of :: "EInput \<Rightarrow> Reviewer list" where
  "reviewers_of ins = opt_or (if isProd ins then [\<lparr> rv_Type = ''role'', rv_UserID = None, rv_Role = ''admin'' \<rparr>] else []) (in_Reviewers ins)"

definition source_of :: "EInput \<Rightarrow> string option" where
  "source_of ins = (case in_RequireSourceEnvironment ins of Some s \<Rightarrow> if s \<noteq> [] then Some s else None | None \<Rightarrow> None)"

definition approval_errors :: "EInput \<Rightarrow> FieldError list" where
  "approval_errors ins =
     (if required_of ins < 0 \<or> required_of ins > 5 then bad ''required_approvals'' ''must be between 0 and 5'' else []) @
     (if isProd ins \<and> required_of ins < 1 then bad ''required_approvals'' ''production requires at least 1 approval'' else []) @
     (if opt_or 0 (in_WaitMinutes ins) < 0 \<or> opt_or 0 (in_WaitMinutes ins) > 43200 then bad ''wait_minutes'' ''must be between 0 and 43200'' else [])"

definition reviewer_errors :: "EInput \<Rightarrow> FieldError list" where
  "reviewer_errors ins =
     (let rs = reviewers_of ins in
      (if length rs > 20 then bad ''reviewers'' ''at most 20 entries'' else []) @
      reviewers_loop (isProd ins) 0 [] rs @
      (if required_of ins > 0 \<and> length rs = 0 then bad ''reviewers'' ''required when approvals are required'' else []) @
      (if required_of ins > 0 \<and> only_users rs \<and> length rs > 0 \<and> \<not> opt_or False (in_AllowSelfApproval ins) \<and>
          int (length (listed_users rs)) \<le> required_of ins
       then bad ''required_approvals'' ''needs more listed approvers than approvals (the requester cannot approve)'' else []))"

definition source_errors :: "EInput \<Rightarrow> FieldError list" where
  "source_errors ins =
     (case source_of ins of
        None \<Rightarrow> []
      | Some s \<Rightarrow> if \<not> envName_ok s then bad ''require_source_environment'' ''invalid environment name''
                  else if s = in_Name ins then bad ''require_source_environment'' ''cannot be the environment itself'' else [])"

definition field_errors :: "tzdata \<Rightarrow> EInput \<Rightarrow> FieldError list" where
  "field_errors tz ins =
     (if \<not> envName_ok (in_Name ins) then bad ''name'' ''must match ^[a-z][a-z0-9-]{1,30}$'' else []) @
     (if in_Kind ins \<in> {''staging'', ''production'', ''other''} then [] else bad ''kind'' ''must be staging, production or other'') @
     snd (patterns (in_BranchPatterns ins) ''branch_patterns'') @ snd (patterns (in_TagPatterns ins) ''tag_patterns'') @
     approval_errors ins @ reviewer_errors ins @
     (if length (in_Windows ins) > 14 then bad ''windows'' ''at most 14 windows'' else []) @ windows_bad tz 0 (in_Windows ins) @
     source_errors ins"

definition Normalize :: "tzdata \<Rightarrow> EInput \<Rightarrow> uuid \<Rightarrow> env_error + Environment" where
  "Normalize tz ins self =
     (if length (field_errors tz ins) > 0 then Inl (ValidationError (field_errors tz ins))
      else Inr \<lparr> env_ID = uuid_Nil, env_ProjectID = uuid_Nil, env_Name = in_Name ins, env_Kind = in_Kind ins,
             env_TargetProjectID = opt_or self (in_TargetProjectID ins),
             env_BranchPatterns = fst (patterns (in_BranchPatterns ins) ''branch_patterns''),
             env_TagPatterns = fst (patterns (in_TagPatterns ins) ''tag_patterns''),
             env_AutoDeploy = opt_or False (in_AutoDeploy ins), env_Reviewers = reviewers_of ins, env_RequiredApprovals = required_of ins,
             env_AllowSelfApproval = opt_or False (in_AllowSelfApproval ins), env_WaitMinutes = opt_or 0 (in_WaitMinutes ins),
             env_Windows = in_Windows ins,
             env_RequireChecksOnSHA = opt_or (isProd ins \<or> in_Kind ins = ''staging'') (in_RequireChecksOnSHA ins),
             env_RequireSourceEnvironment = source_of ins,
             env_RequireSecurityPolicy = opt_or (isProd ins) (in_RequireSecurityPolicy ins),
             env_RollbackRequiresApproval = opt_or False (in_RollbackRequiresApproval ins),
             env_CreatedBy = None, env_CreatedAt = 0, env_UpdatedAt = 0 \<rparr>)"

section \<open>What a policy guarantees\<close>

definition reviewer_ok :: "bool \<Rightarrow> Reviewer \<Rightarrow> bool" where
  "reviewer_ok pr r \<longleftrightarrow> (\<exists>u. rv_Type r = ''user'' \<and> rv_UserID r = Some u \<and> u \<noteq> uuid_Nil) \<or>
     (rv_Type r = ''role'' \<and> (rv_Role r = ''admin'' \<or> rv_Role r = ''deployer'' \<and> \<not> pr))"

definition policy_ok :: "tzdata \<Rightarrow> Environment \<Rightarrow> bool" where
  "policy_ok tz e \<longleftrightarrow>
     envName_ok (env_Name e) \<and> env_Kind e \<in> {''staging'', ''production'', ''other''} \<and>
     0 \<le> env_RequiredApprovals e \<and> env_RequiredApprovals e \<le> 5 \<and> (env_Kind e = ''production'' \<longrightarrow> 1 \<le> env_RequiredApprovals e) \<and>
     0 \<le> env_WaitMinutes e \<and> env_WaitMinutes e \<le> 43200 \<and>
     length (env_Reviewers e) \<le> 20 \<and> list_all (reviewer_ok (env_Kind e = ''production'')) (env_Reviewers e) \<and>
     distinct (map reviewer_key (env_Reviewers e)) \<and>
     (env_RequiredApprovals e > 0 \<longrightarrow> env_Reviewers e \<noteq> []) \<and>
     (env_RequiredApprovals e > 0 \<and> only_users (env_Reviewers e) \<and> \<not> env_AllowSelfApproval e \<longrightarrow>
        env_RequiredApprovals e < int (length (env_Reviewers e))) \<and>
     length (env_Windows e) \<le> 14 \<and> list_all (\<lambda>w. ValidateWindow tz w = []) (env_Windows e) \<and>
     list_all (\<lambda>p. \<exists>g. CompileGlob p = Inr g) (env_BranchPatterns e @ env_TagPatterns e) \<and>
     distinct (env_BranchPatterns e) \<and> distinct (env_TagPatterns e) \<and> length (env_BranchPatterns e) \<le> 20 \<and> length (env_TagPatterns e) \<le> 20 \<and>
     env_RequireSourceEnvironment e \<noteq> Some (env_Name e)"

lemma patterns_loop_ok:
  "patterns_loop field i out ps = (r, []) \<Longrightarrow> distinct out \<Longrightarrow> list_all (\<lambda>p. \<exists>g. CompileGlob p = Inr g) out \<Longrightarrow>
   distinct r \<and> list_all (\<lambda>p. \<exists>g. CompileGlob p = Inr g) r \<and> length r \<le> length out + length ps"
proof (induction ps arbitrary: i out)
  case (Cons p ps)
  obtain g where g: "CompileGlob p = Inr g"
    using Cons.prems(1) by (cases "CompileGlob p") (auto split: prod.splits)
  let ?out = "if p \<in> set out then out else out @ [p]"
  have "distinct ?out" "list_all (\<lambda>p. \<exists>g. CompileGlob p = Inr g) ?out" "length ?out \<le> length out + 1" using Cons.prems(2,3) g by auto
  then show ?case using Cons.IH [of "i + 1" ?out] Cons.prems(1) g by simp
qed simp

lemma patterns_ok:
  "patterns ps field = (r, []) \<Longrightarrow> distinct r \<and> list_all (\<lambda>p. \<exists>g. CompileGlob p = Inr g) r \<and> length r \<le> 20"
  using patterns_loop_ok [of field 0 "[]" ps r] by (auto simp: patterns_def split: prod.splits if_splits)

lemma reviewer_bad_ok: "reviewer_bad pr f r = [] \<longleftrightarrow> reviewer_ok pr r"
  by (auto simp: reviewer_bad_def reviewer_ok_def)

lemma reviewer_ok_key: "reviewer_ok pr r \<Longrightarrow> reviewer_key r \<noteq> None"
  by (auto simp: reviewer_ok_def reviewer_key_def)

lemma reviewers_loop_ok:
  "reviewers_loop pr i seen rs = [] \<Longrightarrow> list_all (reviewer_ok pr) rs \<and> distinct (map reviewer_key rs) \<and>
     (\<forall>r \<in> set rs. \<forall>k. reviewer_key r = Some k \<longrightarrow> k \<notin> set seen)"
proof (induction rs arbitrary: i seen)
  case (Cons r rs)
  have ok: "reviewer_ok pr r" using Cons.prems by (simp add: Let_def reviewer_bad_ok)
  then obtain k where k: "reviewer_key r = Some k" using reviewer_ok_key by blast
  have "reviewers_loop pr (i + 1) (k # seen) rs = []" "k \<notin> set seen" using Cons.prems k by (simp_all add: Let_def split: if_splits)
  then have "list_all (reviewer_ok pr) rs \<and> distinct (map reviewer_key rs) \<and>
      (\<forall>r \<in> set rs. \<forall>k'. reviewer_key r = Some k' \<longrightarrow> k' \<notin> set (k # seen))" using Cons.IH by blast
  then show ?case using ok k \<open>k \<notin> set seen\<close> by (auto simp: image_iff) (metis (mono_tags))
qed simp

lemma windows_bad_ok: "windows_bad tz i ws = [] \<longleftrightarrow> list_all (\<lambda>w. ValidateWindow tz w = []) ws"
  by (induction ws arbitrary: i) (auto simp: Let_def)

text \<open>When every reviewer is a listed user, there are as many listed users as reviewers.\<close>

lemma listed_users_length:
  assumes "list_all (reviewer_ok pr) rs" and "distinct (map reviewer_key rs)" and "only_users rs"
  shows "length (listed_users rs) = length rs"
proof -
  define us where "us = List.map_filter (\<lambda>r. case reviewer_key r of Some (KUser u) \<Rightarrow> Some u | _ \<Rightarrow> None) rs"
  have key: "\<exists>u. reviewer_key r = Some (KUser u)" if "r \<in> set rs" for r
    using that assms(1,3) by (fastforce simp: list_all_iff reviewer_ok_def reviewer_key_def only_users_def)
  then have "map reviewer_key rs = map (Some \<circ> KUser) us"
    unfolding us_def by (induction rs) (auto simp: map_filter_simps, fastforce+)
  then have "length us = length rs" "distinct us" using assms(2) by (metis length_map, metis distinct_map)
  then show ?thesis by (simp add: listed_users_def us_def [symmetric] distinct_remdups_id)
qed

section \<open>Property\<close>

text \<open>
  C32 (type). An accepted policy is well formed: names, counts, waiting time, windows and patterns are within
  their limits, reviewers are users or roles without repetition, production always requires an approval and
  names only admins among its roles, and when only users are listed and nobody may approve their own request
  there are more listed users than approvals, so the quorum stays reachable whoever asks.
\<close>

theorem Normalize_policy_ok:
  assumes "Normalize tz ins self = Inr e"
  shows "policy_ok tz e"
proof -
  have none: "field_errors tz ins = []" using assms by (simp add: Normalize_def split: if_splits)
  then have e: "env_Name e = in_Name ins" "env_Kind e = in_Kind ins" "env_RequiredApprovals e = required_of ins"
    "env_WaitMinutes e = opt_or 0 (in_WaitMinutes ins)" "env_Reviewers e = reviewers_of ins"
    "env_AllowSelfApproval e = opt_or False (in_AllowSelfApproval ins)" "env_Windows e = in_Windows ins"
    "env_BranchPatterns e = fst (patterns (in_BranchPatterns ins) ''branch_patterns'')"
    "env_TagPatterns e = fst (patterns (in_TagPatterns ins) ''tag_patterns'')" "env_RequireSourceEnvironment e = source_of ins"
    using assms by (auto simp: Normalize_def)
  have parts: "envName_ok (in_Name ins)" "in_Kind ins \<in> {''staging'', ''production'', ''other''}"
    "snd (patterns (in_BranchPatterns ins) ''branch_patterns'') = []" "snd (patterns (in_TagPatterns ins) ''tag_patterns'') = []"
    "approval_errors ins = []" "reviewer_errors ins = []" "length (in_Windows ins) \<le> 14" "windows_bad tz 0 (in_Windows ins) = []"
    "source_errors ins = []"
    using none by (auto simp: field_errors_def split: if_splits)
  have ap: "0 \<le> required_of ins" "required_of ins \<le> 5" "isProd ins \<longrightarrow> 1 \<le> required_of ins" "0 \<le> opt_or 0 (in_WaitMinutes ins)"
    "opt_or 0 (in_WaitMinutes ins) \<le> 43200"
    using parts(5) by (auto simp: approval_errors_def split: if_splits)
  have rv: "length (reviewers_of ins) \<le> 20" "reviewers_loop (isProd ins) 0 [] (reviewers_of ins) = []"
    "required_of ins > 0 \<longrightarrow> reviewers_of ins \<noteq> []"
    "required_of ins > 0 \<and> only_users (reviewers_of ins) \<and> reviewers_of ins \<noteq> [] \<and> \<not> opt_or False (in_AllowSelfApproval ins) \<longrightarrow>
       required_of ins < int (length (listed_users (reviewers_of ins)))"
    using parts(6) by (auto simp: reviewer_errors_def Let_def split: if_splits)
  note rok = reviewers_loop_ok [OF rv(2)]
  have "source_of ins \<noteq> Some (in_Name ins)" using parts(9) by (auto simp: source_errors_def split: if_splits)
  moreover have "patterns (in_BranchPatterns ins) ''branch_patterns'' = (env_BranchPatterns e, [])" "patterns (in_TagPatterns ins) ''tag_patterns'' = (env_TagPatterns e, [])"
    using parts(3,4) e(8,9) by (simp_all add: prod_eq_iff)
  note pats = patterns_ok [OF this(1)] patterns_ok [OF this(2)]
  ultimately show ?thesis
    using parts(1,2,7,8) ap rv(1,3,4) rok listed_users_length [of "isProd ins" "reviewers_of ins"] pats windows_bad_ok [of tz 0 "in_Windows ins"]
    unfolding policy_ok_def e by auto
qed

definition ex_input :: EInput where
  "ex_input = \<lparr> in_Name = ''prod'', in_Kind = ''production'', in_TargetProjectID = None, in_BranchPatterns = [], in_TagPatterns = [],
     in_AutoDeploy = None, in_Reviewers = None, in_RequiredApprovals = None, in_AllowSelfApproval = None, in_WaitMinutes = Some 30,
     in_Windows = [ex_window], in_RequireChecksOnSHA = None, in_RequireSourceEnvironment = None, in_RequireSecurityPolicy = None,
     in_RollbackRequiresApproval = None \<rparr>"

theorem Normalize_policy_ok_witness:
  "\<exists>e. Normalize ex_tz ex_input 7 = Inr e \<and> policy_ok ex_tz e"
proof -
  have "length (field_errors ex_tz ex_input) = 0" by code_simp
  then obtain e where "Normalize ex_tz ex_input 7 = Inr e" by (simp add: Normalize_def)
  then show ?thesis using Normalize_policy_ok by blast
qed

end
