(* ===== verification/Env_Promotions.thy ===== *)
theory Env_Promotions
  imports Env_Txn Env_Policy
begin

text \<open>
  The service of environments and promotions: the handlers of \<^verbatim>\<open>internal/environments/service.go\<close> and
  \<^verbatim>\<open>promotions.go\<close>. An operation takes what it sees of the outside (\<open>Ext\<close>: the git server, the security gate,
  the directory, the clock, the generated ids) and the tables, and returns its answer and the tables. Each
  operation reads one clock and, between its own transactions, nothing else writes; the interleavings of
  concurrent requests are the sequences of transactions of \<open>Env_Txn\<close>.

  Left out: the commit status and the events published after a change, and the log. A handler that answers
  with a view answers here with the stored promotion (\<open>view\<close> gives the response).
\<close>

section \<open>The outside\<close>

record Branch =
  br_Name :: string
  br_SHA :: string
  br_Default :: bool

record Tag =
  tag_Name :: string
  tag_SHA :: string

record Compare =
  cmp_AheadBy :: int
  cmp_Commits :: "string list"
  cmp_Truncated :: bool

record GitCheck =
  ck_Context :: string
  ck_State :: string
  ck_TargetURL :: string
  ck_Description :: string

record Person =
  per_UserID :: "uuid option"
  per_Name :: string
  per_Email :: string
  per_AvatarURL :: string

type_synonym RepoRef = "string \<times> string"

text \<open>\<open>x_Forge\<close> is false when there is no git integration; \<open>x_Blocked\<close> is \<open>None\<close> when there is no security gate.
  \<open>x_new e\<close> is the id generated while handling environment \<open>e\<close>, \<open>x_hist e\<close> that of the history row;
  \<open>x_Deploy i\<close> is the id of the deployment created for promotion \<open>i\<close>, or a failure.\<close>

record Ext =
  x_now :: time
  x_tz :: tzdata
  x_local :: zone
  x_Forge :: bool
  x_ListBranches :: "RepoRef \<Rightarrow> string \<Rightarrow> env_error + Branch list \<times> string"
  x_ListTags :: "RepoRef \<Rightarrow> string \<Rightarrow> env_error + Tag list \<times> string"
  x_Compare :: "RepoRef \<Rightarrow> string \<Rightarrow> string \<Rightarrow> env_error + Compare"
  x_GetCommit :: "RepoRef \<Rightarrow> string \<Rightarrow> env_error + string"
  x_ListChecks :: "RepoRef \<Rightarrow> string \<Rightarrow> env_error + GitCheck list"
  x_Blocked :: "(uuid \<Rightarrow> string \<Rightarrow> env_error + bool \<times> string) option"
  x_Role :: "uuid \<Rightarrow> uuid \<Rightarrow> uuid \<Rightarrow> env_error + Role"
  x_CountAdmins :: "uuid \<Rightarrow> uuid \<Rightarrow> env_error + int"
  x_Person :: "uuid \<Rightarrow> env_error + Person"
  x_new :: "uuid \<Rightarrow> uuid"
  x_hist :: "uuid \<Rightarrow> uuid"
  x_Deploy :: "uuid \<Rightarrow> env_error + uuid"
  x_DeployTimeout :: duration

definition CodeNotFound :: env_error where "CodeNotFound = InfraError ''NOT_FOUND''"

definition CodeNotReady :: env_error where "CodeNotReady = InfraError ''GIT_NOT_READY''"

text \<open>The \<^verbatim>\<open>if err != nil { return err }\<close> of the handlers.\<close>

definition ebind :: "'e + 'a \<Rightarrow> ('a \<Rightarrow> 'e + 'b) \<Rightarrow> 'e + 'b" where
  "ebind m f = (case m of Inl e \<Rightarrow> Inl e | Inr a \<Rightarrow> f a)"

lemma ebind_Inr: "ebind m f = Inr r \<longleftrightarrow> (\<exists>a. m = Inr a \<and> f a = Inr r)"
  by (simp add: ebind_def split: sum.split)

lemma ebind_simps [simp]: "ebind (Inl e) f = Inl e" "ebind (Inr a) f = f a"
  by (simp_all add: ebind_def)

definition repo_ref :: "ETarget \<Rightarrow> RepoRef" where
  "repo_ref t = (tg_OrgSlug t, tg_ProjectSlug t)"

section \<open>The conditions of a commit\<close>

definition shaRE :: "string \<Rightarrow> bool" where
  "shaRE s \<longleftrightarrow> 7 \<le> length s \<and> length s \<le> 64 \<and> list_all (\<lambda>c. digit c \<or> (CHR ''a'' \<le> c \<and> c \<le> CHR ''f'')) s"

record PromotionRequest =
  rq_Environment :: string
  rq_SHA :: string
  rq_FromEnvironment :: string
  rq_Comment :: string

record gateResult =
  gr_Branch :: string
  gr_Snapshot :: CheckSnapshot
  gr_Conds :: "Condition list"
  gr_Artifact :: Artifact

definition contained :: "Compare \<Rightarrow> bool" where
  "contained c \<longleftrightarrow> cmp_AheadBy c = 0 \<and> length (cmp_Commits c) = 0 \<and> \<not> cmp_Truncated c"

definition branch_allowed :: "Environment \<Rightarrow> Branch \<Rightarrow> bool" where
  "branch_allowed env b \<longleftrightarrow>
     (length (env_BranchPatterns env) = 0 \<and> length (env_TagPatterns env) = 0 \<and> br_Default b) \<or> MatchAny (env_BranchPatterns env) (br_Name b)"

text \<open>The branches of one page: at most ten comparisons over all pages. The answer is the branch found, or
  the number of comparisons made so far.\<close>

fun branch_scan :: "Ext \<Rightarrow> RepoRef \<Rightarrow> Environment \<Rightarrow> string \<Rightarrow> nat \<Rightarrow> Branch list \<Rightarrow> env_error + (string + nat)" where
  "branch_scan x r env sha n [] = Inr (Inr n)"
| "branch_scan x r env sha n (b # bs) =
     (if \<not> branch_allowed env b then branch_scan x r env sha n bs
      else if br_SHA b = sha then Inr (Inl (br_Name b))
      else if n \<ge> 10 then branch_scan x r env sha n bs
      else (case x_Compare x r (br_Name b) sha of
              Inl e \<Rightarrow> if e = CodeNotFound then branch_scan x r env sha (n + 1) bs else Inl e
            | Inr c \<Rightarrow> if contained c then Inr (Inl (br_Name b)) else branch_scan x r env sha (n + 1) bs))"

fun branch_pages :: "Ext \<Rightarrow> RepoRef \<Rightarrow> Environment \<Rightarrow> string \<Rightarrow> nat \<Rightarrow> string \<Rightarrow> nat \<Rightarrow> env_error + string option" where
  "branch_pages x r env sha n cursor 0 = Inr None"
| "branch_pages x r env sha n cursor (Suc pages) =
     ebind (x_ListBranches x r cursor) (\<lambda>(bs, next).
       ebind (branch_scan x r env sha n bs) (\<lambda>found.
         case found of
           Inl name \<Rightarrow> Inr (Some name)
         | Inr n' \<Rightarrow> if next = [] then Inr None else branch_pages x r env sha n' next pages))"

fun tag_pages :: "Ext \<Rightarrow> RepoRef \<Rightarrow> Environment \<Rightarrow> string \<Rightarrow> string \<Rightarrow> nat \<Rightarrow> env_error + string option" where
  "tag_pages x r env sha cursor 0 = Inr None"
| "tag_pages x r env sha cursor (Suc pages) =
     ebind (x_ListTags x r cursor) (\<lambda>(ts, next).
       case find (\<lambda>t. tag_SHA t = sha \<and> MatchAny (env_TagPatterns env) (tag_Name t)) ts of
         Some t \<Rightarrow> Inr (Some (''tag:'' @ tag_Name t))
       | None \<Rightarrow> if next = [] then Inr None else tag_pages x r env sha next pages)"

definition refOf :: "Ext \<Rightarrow> ETarget \<Rightarrow> Environment \<Rightarrow> string \<Rightarrow> env_error + string" where
  "refOf x t env sha =
     ebind (branch_pages x (repo_ref t) env sha 0 [] 5) (\<lambda>found.
       case found of
         Some name \<Rightarrow> Inr name
       | None \<Rightarrow>
           ebind (if length (env_TagPatterns env) > 0 then tag_pages x (repo_ref t) env sha [] 3 else Inr None) (\<lambda>found.
             case found of
               Some name \<Rightarrow> Inr name
             | None \<Rightarrow> Inl (ConflictError ''PROTECTED_BRANCH'' (''the commit is not on a branch or tag allowed to deploy to '' @ env_Name env))))"

definition check_failed :: "GitCheck \<Rightarrow> bool" where
  "check_failed c \<longleftrightarrow> ck_State c = ''failure'' \<or> ck_State c = ''error''"

definition check_passed :: "GitCheck \<Rightarrow> bool" where
  "check_passed c \<longleftrightarrow> ck_State c = ''success'' \<or> ck_State c = ''skipped''"

definition snapshotChecks :: "GitCheck list \<Rightarrow> CheckSnapshot" where
  "snapshotChecks cs =
     (let own = filter (\<lambda>c. \<not> strings_HasPrefix (ck_Context c) CheckPrefix) cs;
          items = map (\<lambda>c. \<lparr> ci_Context = ck_Context c, ci_State = ck_State c, ci_TargetURL = ck_TargetURL c, ci_Description = ck_Description c \<rparr>) own
      in \<lparr> cs_State = (if list_ex check_failed own then ''failure''
                       else if list_ex (\<lambda>c. \<not> check_failed c \<and> \<not> check_passed c) own then ''pending''
                       else if length items = 0 then ''pending'' else ''success''),
           cs_Items = items \<rparr>)"

definition cond_ok :: "string \<Rightarrow> Condition" where
  "cond_ok name = \<lparr> cd_Name = name, cd_OK = True \<rparr>"

definition checks_gate :: "Environment \<Rightarrow> CheckSnapshot \<Rightarrow> env_error + Condition list" where
  "checks_gate env snap =
     (if env_RequireChecksOnSHA env then
        if length (cs_Items snap) = 0 then Inl (ConflictError ''CHECKS_REQUIRED'' (''the commit has no checks and '' @ env_Name env @ '' requires them''))
        else if cs_State snap \<noteq> ''success'' then Inl (ConflictError ''CHECKS_REQUIRED'' (''the commit checks are '' @ cs_State snap))
        else Inr [cond_ok ''checks'']
      else Inr [])"

definition security_gate :: "Ext \<Rightarrow> Environment \<Rightarrow> string \<Rightarrow> env_error + Condition list" where
  "security_gate x env sha =
     (case x_Blocked x of
        None \<Rightarrow> Inr []
      | Some gate \<Rightarrow>
          if env_RequireSecurityPolicy env then
            ebind (gate (env_ProjectID env) sha) (\<lambda>(blocked, why).
              if blocked then Inl (PolicyError ''POLICY_BLOCKED'' (''the security policy blocks this commit: '' @ why))
              else Inr [cond_ok ''security''])
          else Inr [])"

definition source_name :: "Environment \<Rightarrow> string \<Rightarrow> env_error + string" where
  "source_name env from =
     (case env_RequireSourceEnvironment env of
        None \<Rightarrow> Inr from
      | Some s \<Rightarrow> if from \<noteq> [] \<and> from \<noteq> s
                  then Inl (PolicyError ''SOURCE_ENVIRONMENT_MISMATCH'' (env_Name env @ '' only accepts commits promoted from '' @ s))
                  else Inr s)"

definition source_artifact :: "Environment \<Rightarrow> string \<Rightarrow> string \<Rightarrow> EDB \<Rightarrow> env_error + Artifact option \<times> Condition list" where
  "source_artifact env sha src db =
     (if src \<noteq> [] then
        (case store_GetEnv db (env_ProjectID env) src of
           Inl e \<Rightarrow> Inl (if e = ErrNotFound then PolicyError ''SOURCE_ENVIRONMENT_REQUIRED'' (''environment '' @ src @ '' does not exist'') else e)
         | Inr se \<Rightarrow>
             (case SuccessfulSHA db (env_ID se) sha of
                None \<Rightarrow> Inl (PolicyError ''SOURCE_ENVIRONMENT_REQUIRED'' (''the commit has not been deployed successfully to '' @ src))
              | Some (_, art) \<Rightarrow> Inr (Some art, [cond_ok ''source_environment''])))
      else
        (case FindArtifact db (env_ProjectID env) sha of
           Some art \<Rightarrow> Inr (Some art, [])
         | None \<Rightarrow> Inr (FindArtifact db (env_TargetProjectID env) sha, [])))"

definition checkStatic :: "Ext \<Rightarrow> ETarget \<Rightarrow> Environment \<Rightarrow> string \<Rightarrow> string \<Rightarrow> EDB \<Rightarrow> env_error + gateResult" where
  "checkStatic x t env sha from db =
     ebind (refOf x t env sha) (\<lambda>branch.
     ebind (x_ListChecks x (repo_ref t) sha) (\<lambda>cs.
     ebind (checks_gate env (snapshotChecks cs)) (\<lambda>c1.
     ebind (security_gate x env sha) (\<lambda>c2.
     ebind (source_name env from) (\<lambda>src.
     ebind (source_artifact env sha src db) (\<lambda>(art, c3).
       case art of
         None \<Rightarrow> Inl (PolicyError ''ARTIFACT_NOT_FOUND'' ''no successful deployment of this commit exists to promote; deploy it first (for example to staging)'')
       | Some a \<Rightarrow> Inr \<lparr> gr_Branch = branch, gr_Snapshot = snapshotChecks cs, gr_Conds = cond_ok ''branch'' # c1 @ c2 @ c3, gr_Artifact = a \<rparr>))))))"

fun eligible_loop :: "Ext \<Rightarrow> ETarget \<Rightarrow> uuid option \<Rightarrow> Reviewer list \<Rightarrow> env_error + bool" where
  "eligible_loop x t requester [] = Inr False"
| "eligible_loop x t requester (r # rs) =
     (if rv_Type r = ''user'' \<and> rv_UserID r \<noteq> None then
        if rv_UserID r = requester then eligible_loop x t requester rs
        else ebind (x_Role x (the (rv_UserID r)) (tg_OrgID t) (tg_ProjectID t)) (\<lambda>role.
               if role \<noteq> [] then Inr True else eligible_loop x t requester rs)
      else if rv_Type r = ''role'' \<and> rv_Role r = ''admin'' then
        ebind (x_CountAdmins x (tg_OrgID t) (tg_ProjectID t)) (\<lambda>n.
          let n' = (case requester of None \<Rightarrow> n | Some u \<Rightarrow> if x_Role x u (tg_OrgID t) (tg_ProjectID t) = Inr RoleAdmin then n - 1 else n)
          in if n' > 0 then Inr True else eligible_loop x t requester rs)
      else if rv_Type r = ''role'' then Inr True
      else eligible_loop x t requester rs)"

definition hasEligibleApprover :: "Ext \<Rightarrow> ETarget \<Rightarrow> Environment \<Rightarrow> uuid option \<Rightarrow> env_error + bool" where
  "hasEligibleApprover x t env requester =
     (if env_RequiredApprovals env = 0 \<or> env_AllowSelfApproval env then Inr True else eligible_loop x t requester (env_Reviewers env))"

section \<open>Promotions\<close>

definition audit :: "uuid option \<Rightarrow> string \<Rightarrow> uuid \<Rightarrow> EAudit" where
  "audit user action resource = \<lparr> au_UserID = (case user of None \<Rightarrow> uuid_Nil | Some u \<Rightarrow> u), au_Action = action, au_ResourceID = resource \<rparr>"

definition new_Promotion :: "Ext \<Rightarrow> ETarget \<Rightarrow> Environment \<Rightarrow> uuid option \<Rightarrow> PromotionRequest \<Rightarrow> string \<Rightarrow> string \<Rightarrow> gateResult \<Rightarrow> Promotion" where
  "new_Promotion x t env who req key sha res =
     (let now = x_now x;
          (st, nb, q) = (if env_RequiredApprovals env = 0 then let (st, nb) = NextAfterQuorum (x_tz x) (x_local x) env now now in (st, nb, Some now)
                         else (StatusPending, None, None))
      in \<lparr> p_ID = x_new x (env_ID env), p_ProjectID = tg_ProjectID t, p_EnvironmentID = env_ID env, p_Environment = env_Name env, p_SHA = sha,
           p_Branch = gr_Branch res, p_FromEnvironment = rq_FromEnvironment req, p_Comment = rq_Comment req, p_Status = st, p_StatusReason = [],
           p_RequestedBy = who, p_RequiredApprovals = env_RequiredApprovals env, p_QuorumAt = q, p_NotBefore = nb,
           p_ExpiresAt = now + ExpiryAfter, p_IdempotencyKey = key, p_SourceDeploymentID = Some (art_DeploymentID (gr_Artifact res)),
           p_DeploymentID = None, p_Checks = gr_Snapshot res, p_Conditions = gr_Conds res, p_StartedAt = None, p_FinishedAt = None,
           p_CreatedAt = now, p_UpdatedAt = now, p_Approvals = [] \<rparr>)"

definition create :: "Ext \<Rightarrow> ETarget \<Rightarrow> Environment \<Rightarrow> uuid option \<Rightarrow> PromotionRequest \<Rightarrow> string \<Rightarrow> EDB \<Rightarrow> (env_error + Promotion) \<times> EDB" where
  "create x t env who req key db =
     (if \<not> x_Forge x then (Inl CodeNotReady, db)
      else
        (case ebind (x_GetCommit x (repo_ref t) (rq_SHA req)) (\<lambda>commit.
              let sha = strings_ToLower commit in
              ebind (checkStatic x t env sha (rq_FromEnvironment req) db) (\<lambda>res.
              ebind (hasEligibleApprover x t env who) (\<lambda>ok.
                if ok then Inr (new_Promotion x t env who req key sha res)
                else Inl (PolicyError ''NO_ELIGIBLE_APPROVER'' (''nobody else can approve in '' @ env_Name env @
                       '': name a second approver, or enable self-approval in the environment (it will be audited)''))))) of
           Inl e \<Rightarrow> (Inl e, db)
         | Inr p \<Rightarrow>
             (case store_CreatePromotion (x_hist x (env_ID env)) p (audit who ''promotion.request'' (p_ID p)) db of
                (Inl e, db') \<Rightarrow> (Inl e, db')
              | (Inr _, db') \<Rightarrow> (Inr p, db'))))"

definition replay :: "Promotion \<Rightarrow> Environment \<Rightarrow> PromotionRequest \<Rightarrow> env_error + Promotion \<times> bool" where
  "replay old env req =
     (if p_EnvironmentID old \<noteq> env_ID env \<or> \<not> strings_HasPrefix (p_SHA old) (rq_SHA req) \<or> p_FromEnvironment old \<noteq> rq_FromEnvironment req
      then Inl (ConflictError ''IDEMPOTENCY_CONFLICT'' ''that Idempotency-Key was used with a different request'')
      else Inr (old, False))"

definition request_errors :: "string \<Rightarrow> string \<Rightarrow> string \<Rightarrow> FieldError list" where
  "request_errors sha key comment =
     (if shaRE sha then [] else bad ''sha'' ''must be a hexadecimal commit id (7 to 64 characters)'') @
     (if length key > 128 then bad ''Idempotency-Key'' ''at most 128 characters'' else []) @
     (if length comment > 2000 then bad ''comment'' ''at most 2000 characters'' else [])"

definition creation_answer :: "Environment \<Rightarrow> PromotionRequest \<Rightarrow> env_error + Promotion \<Rightarrow> env_error + Promotion \<times> bool" where
  "creation_answer env req r =
     (case r of
        Inr p \<Rightarrow> Inr (p, True)
      | Inl (ExistingError kind old) \<Rightarrow>
          if kind = ''idempotency'' then replay old env req
          else Inl (ConflictError ''PROMOTION_ACTIVE'' (''this commit already has an active promotion to '' @ env_Name env))
      | Inl e \<Rightarrow> Inl e)"

text \<open>The answer carries whether a promotion was created; the text of the id in the message of
  \<^verbatim>\<open>PROMOTION_ACTIVE\<close> is left out.\<close>

definition CreatePromotion :: "Ext \<Rightarrow> ETarget \<Rightarrow> Actor \<Rightarrow> PromotionRequest \<Rightarrow> string \<Rightarrow> EDB \<Rightarrow> (env_error + Promotion \<times> bool) \<times> EDB" where
  "CreatePromotion x t a req0 key db =
     (let req = req0\<lparr> rq_SHA := strings_ToLower (strings_TrimSpace (rq_SHA req0)) \<rparr>;
          fe = request_errors (rq_SHA req) key (rq_Comment req)
      in if length fe > 0 then (Inl (ValidationError fe), db)
         else
           (case store_GetEnv db (tg_ProjectID t) (rq_Environment req) of
              Inl e \<Rightarrow> (Inl e, db)
            | Inr env \<Rightarrow>
                (case (if key \<noteq> [] then FindByIdempotency db (tg_ProjectID t) (actor_UserID a) key else None) of
                   Some old \<Rightarrow> (replay old env req, db)
                 | None \<Rightarrow>
                     let (r, db') = create x t env (Some (actor_UserID a)) req key db in (creation_answer env req r, db'))))"

definition load_promotion :: "ETarget \<Rightarrow> uuid \<Rightarrow> EDB \<Rightarrow> env_error + Promotion \<times> Environment" where
  "load_promotion t i db =
     ebind (store_GetPromotion db i) (\<lambda>p.
       if p_ProjectID p \<noteq> tg_ProjectID t then Inl ErrNotFound
       else ebind (store_GetEnvByID db (p_EnvironmentID p)) (\<lambda>env. Inr (p, env)))"

definition mapDecideErr :: "env_error \<Rightarrow> env_error" where
  "mapDecideErr e =
     (case e of
        ErrInvalidState \<Rightarrow> ConflictError ''INVALID_STATE'' ''the promotion is not waiting for a decision''
      | ErrAlreadyDecided \<Rightarrow> ConflictError ''ALREADY_DECIDED'' ''you already decided on this promotion''
      | _ \<Rightarrow> e)"

definition new_EDecision :: "Ext \<Rightarrow> Environment \<Rightarrow> Promotion \<Rightarrow> Actor \<Rightarrow> string \<Rightarrow> string \<Rightarrow> EDecision" where
  "new_EDecision x env p a comment decision =
     (let now = x_now x; self = (p_RequestedBy p = Some (actor_UserID a)); (st, nb) = NextAfterQuorum (x_tz x) (x_local x) env now now
      in \<lparr> de_PromotionID = p_ID p,
           de_Approval = \<lparr> ap_UserID = Some (actor_UserID a), ap_Decision = decision, ap_Comment = comment,
              ap_SelfApproval = (self \<and> decision = ''approved''), ap_Role = actor_Role a, ap_At = now \<rparr>,
           de_Required = env_RequiredApprovals env, de_AllowSelf = env_AllowSelfApproval env,
           de_QuorumStatus = st, de_QuorumNotBefore = nb, de_QuorumAt = now,
           de_RejectReason = ''rejected: '' @ comment, de_RejectedAt = now \<rparr>)"

definition decide :: "Ext \<Rightarrow> ETarget \<Rightarrow> Actor \<Rightarrow> uuid \<Rightarrow> string \<Rightarrow> string \<Rightarrow> EDB \<Rightarrow> (env_error + Promotion) \<times> EDB" where
  "decide x t a i comment decision db =
     (if length comment > 2000 then (Inl (ValidationError (bad ''comment'' ''at most 2000 characters'')), db)
      else
        (case load_promotion t i db of
           Inl e \<Rightarrow> (Inl e, db)
         | Inr (p, env) \<Rightarrow>
             (case canDecide env p a (decision = ''approved'') of
                Some e \<Rightarrow> (Inl (mapDecideErr e), db)
              | None \<Rightarrow>
                  let self = (p_RequestedBy p = Some (actor_UserID a));
                      action = (if self \<and> decision = ''approved'' then ''promotion.self_approve''
                                else ''promotion.'' @ (if decision = ''approved'' then ''approve'' else ''reject''))
                  in case AddDecision (new_EDecision x env p a comment decision) (audit (Some (actor_UserID a)) action i) db of
                       (Inl e, db') \<Rightarrow> (Inl (mapDecideErr e), db')
                     | (Inr np, db') \<Rightarrow> (Inr np, db'))))"

definition Approve :: "Ext \<Rightarrow> ETarget \<Rightarrow> Actor \<Rightarrow> uuid \<Rightarrow> string \<Rightarrow> EDB \<Rightarrow> (env_error + Promotion) \<times> EDB" where
  "Approve x t a i comment db = decide x t a i comment ''approved'' db"

definition Reject :: "Ext \<Rightarrow> ETarget \<Rightarrow> Actor \<Rightarrow> uuid \<Rightarrow> string \<Rightarrow> EDB \<Rightarrow> (env_error + Promotion) \<times> EDB" where
  "Reject x t a i comment db = decide x t a i comment ''rejected'' db"

definition Cancel :: "Ext \<Rightarrow> ETarget \<Rightarrow> Actor \<Rightarrow> uuid \<Rightarrow> EDB \<Rightarrow> (env_error + Promotion) \<times> EDB" where
  "Cancel x t a i db =
     (case load_promotion t i db of
        Inl e \<Rightarrow> (Inl e, db)
      | Inr (p, env) \<Rightarrow>
          if p_RequestedBy p \<noteq> Some (actor_UserID a) \<and> \<not> RoleAllows (actor_Role a) ''env.admin'' then
            (Inl (ForbiddenError ''FORBIDDEN'' ''only the requester or an environment admin can cancel''), db)
          else
            (case Transition i [StatusPending, StatusWaiting, StatusApproved] StatusCancelled
                    (zero_Patch\<lparr> pt_Reason := ''cancelled by the user'', pt_FinishedAt := Some (x_now x) \<rparr>)
                    (Some (audit (Some (actor_UserID a)) ''promotion.cancel'' i)) db of
               (False, db') \<Rightarrow> (Inl (ConflictError ''INVALID_STATE'' ''the promotion can no longer be cancelled''), db')
             | (True, db') \<Rightarrow> (store_GetPromotion db' i, db')))"

definition AutoPromote :: "Ext \<Rightarrow> ETarget \<Rightarrow> string \<Rightarrow> string \<Rightarrow> EDB \<Rightarrow> EDB" where
  "AutoPromote x t branch sha db =
     foldl (\<lambda>db e. if env_AutoDeploy e \<and> MatchAny (env_BranchPatterns e) branch
              then snd (create x t e None \<lparr> rq_Environment = env_Name e, rq_SHA = sha, rq_FromEnvironment = [], rq_Comment = ''auto_deploy'' \<rparr> [] db)
              else db)
       db (store_ListEnvs db (tg_ProjectID t))"

section \<open>Environments\<close>

fun reviewer_refs :: "Ext \<Rightarrow> ETarget \<Rightarrow> string \<Rightarrow> nat \<Rightarrow> Reviewer list \<Rightarrow> env_error + FieldError list" where
  "reviewer_refs x t kind i [] = Inr []"
| "reviewer_refs x t kind i (r # rs) =
     (if rv_Type r \<noteq> ''user'' then reviewer_refs x t kind (i + 1) rs
      else case rv_UserID r of
             None \<Rightarrow> reviewer_refs x t kind (i + 1) rs
           | Some u \<Rightarrow>
               ebind (x_Role x u (tg_OrgID t) (tg_ProjectID t)) (\<lambda>role.
               ebind (reviewer_refs x t kind (i + 1) rs) (\<lambda>fe.
                 Inr ((if role = [] then bad (indexed ''reviewers'' i @ ''.user_id'') ''that user has no access to the project''
                       else if kind = ''production'' \<and> role \<noteq> RoleAdmin
                            then bad (indexed ''reviewers'' i @ ''.user_id'') ''production approvers must be project admins''
                       else []) @ fe))))"

definition target_refs :: "ETarget \<Rightarrow> Environment \<Rightarrow> EDB \<Rightarrow> FieldError list" where
  "target_refs t e db =
     (if env_TargetProjectID e = tg_ProjectID t then []
      else case store_Target db (env_TargetProjectID e) of
             Inl _ \<Rightarrow> bad ''target_project_id'' ''must be a project of the same organization''
           | Inr tt \<Rightarrow> if tg_OrgID tt \<noteq> tg_OrgID t then bad ''target_project_id'' ''must be a project of the same organization'' else [])"

definition source_refs :: "ETarget \<Rightarrow> Environment \<Rightarrow> EDB \<Rightarrow> FieldError list" where
  "source_refs t e db =
     (case env_RequireSourceEnvironment e of
        None \<Rightarrow> []
      | Some s \<Rightarrow> (case store_GetEnv db (tg_ProjectID t) s of
                     Inl _ \<Rightarrow> bad ''require_source_environment'' ''that environment does not exist in this project'' | Inr _ \<Rightarrow> []))"

definition checkEnvRefs :: "Ext \<Rightarrow> ETarget \<Rightarrow> Environment \<Rightarrow> EDB \<Rightarrow> env_error option" where
  "checkEnvRefs x t e db =
     (case reviewer_refs x t (env_Kind e) 0 (env_Reviewers e) of
        Inl err \<Rightarrow> Some err
      | Inr fe3 \<Rightarrow> let fe = target_refs t e db @ source_refs t e db @ fe3 in if length fe > 0 then Some (ValidationError fe) else None)"

definition auditSelfApproval :: "Actor \<Rightarrow> Environment \<Rightarrow> bool \<Rightarrow> EDB \<Rightarrow> EDB" where
  "auditSelfApproval a e was db =
     (if \<not> env_AllowSelfApproval e \<or> was then db
      else envInsertAudit (audit (Some (actor_UserID a)) ''environment.self_approval_enabled'' (env_ID e)) db)"

definition CreateEnv :: "Ext \<Rightarrow> ETarget \<Rightarrow> Actor \<Rightarrow> EInput \<Rightarrow> EDB \<Rightarrow> (env_error + Environment) \<times> EDB" where
  "CreateEnv x t a ins db =
     (case Normalize (x_tz x) ins (tg_ProjectID t) of
        Inl e \<Rightarrow> (Inl e, db)
      | Inr e0 \<Rightarrow>
          (case checkEnvRefs x t e0 db of
             Some err \<Rightarrow> (Inl err, db)
           | None \<Rightarrow>
               let e = e0\<lparr> env_ID := x_new x uuid_Nil, env_ProjectID := tg_ProjectID t, env_CreatedBy := Some (actor_UserID a),
                           env_CreatedAt := x_now x, env_UpdatedAt := x_now x \<rparr>
               in case store_CreateEnv e (audit (Some (actor_UserID a)) ''environment.create'' (env_ID e)) db of
                    (Inl err, db') \<Rightarrow> (Inl err, db')
                  | (Inr _, db') \<Rightarrow> let db'' = auditSelfApproval a e False db' in (store_GetEnv db'' (tg_ProjectID t) (env_Name e), db'')))"

definition DeleteEnv :: "ETarget \<Rightarrow> Actor \<Rightarrow> string \<Rightarrow> EDB \<Rightarrow> (env_error + unit) \<times> EDB" where
  "DeleteEnv t a name db =
     (case store_GetEnv db (tg_ProjectID t) name of
        Inl e \<Rightarrow> (Inl e, db)
      | Inr e \<Rightarrow>
          if length (store_ListPromotions db (env_ID e) True) > 0 then
            (Inl (ConflictError ''ENV_HAS_ACTIVE_PROMOTIONS'' ''cancel or finish the active promotions before deleting the environment''), db)
          else store_DeleteEnv (tg_ProjectID t) (env_ID e) (audit (Some (actor_UserID a)) ''environment.delete'' (env_ID e)) db)"

section \<open>Every operation is a sequence of transactions\<close>

lemma env_of_member: "keys_ok db \<Longrightarrow> e \<in> set (db_envs db) \<Longrightarrow> env_of db (env_ID e) = Some e"
  unfolding env_of_def keys_ok_def
  by (cases "find (\<lambda>x. env_ID x = env_ID e) (db_envs db)")
     (auto simp: find_None_iff find_Some_iff distinct_map inj_on_def dest: nth_mem)

lemma GetEnv_member: "store_GetEnv db pid name = Inr e \<Longrightarrow> e \<in> set (db_envs db) \<and> env_ProjectID e = pid \<and> env_Name e = name"
  by (auto simp: store_GetEnv_def find_Some_iff split: option.splits)

lemma wf_keys: "store_wf db \<Longrightarrow> keys_ok db"
  by (simp add: store_wf_def)

lemma NextAfterQuorum_status: "fst (NextAfterQuorum tz local env q now) \<in> {StatusWaiting, StatusApproved}"
  by (metis NextAfterQuorum_cases fst_conv insertCI)

lemma new_Promotion_policy:
  assumes "env_of db (env_ID env) = Some env"
  shows "new_by_policy db (new_Promotion x t env who req key sha res)"
  using assms NextAfterQuorum_status [of "x_tz x" "x_local x" env "x_now x" "x_now x"]
  by (auto simp: new_by_policy_def new_Promotion_def quorum_def CountApprovals_def Let_def split: prod.splits if_splits)

lemma create_cases:
  obtains e where "create x t env who req key db = (Inl e, db)"
  | sha res where "x_GetCommit x (repo_ref t) (rq_SHA req) = Inr sha" "checkStatic x t env (strings_ToLower sha) (rq_FromEnvironment req) db = Inr res"
      "create x t env who req key db =
        (case store_CreatePromotion (x_hist x (env_ID env)) (new_Promotion x t env who req key (strings_ToLower sha) res)
                (audit who ''promotion.request'' (p_ID (new_Promotion x t env who req key (strings_ToLower sha) res))) db of
           (Inl e, db') \<Rightarrow> (Inl e, db') | (Inr _, db') \<Rightarrow> (Inr (new_Promotion x t env who req key (strings_ToLower sha) res), db'))"
proof -
  let ?m = "ebind (x_GetCommit x (repo_ref t) (rq_SHA req)) (\<lambda>commit.
              let sha = strings_ToLower commit in
              ebind (checkStatic x t env sha (rq_FromEnvironment req) db) (\<lambda>res.
              ebind (hasEligibleApprover x t env who) (\<lambda>ok.
                if ok then Inr (new_Promotion x t env who req key sha res)
                else Inl (PolicyError ''NO_ELIGIBLE_APPROVER'' (''nobody else can approve in '' @ env_Name env @
                       '': name a second approver, or enable self-approval in the environment (it will be audited)'')))))"
  show thesis
  proof (cases "x_Forge x")
    case True
    show thesis
    proof (cases ?m)
      case (Inl e) then show thesis using that(1) True by (simp add: create_def)
    next
      case (Inr p)
      then obtain sha res where "x_GetCommit x (repo_ref t) (rq_SHA req) = Inr sha"
        "checkStatic x t env (strings_ToLower sha) (rq_FromEnvironment req) db = Inr res" "p = new_Promotion x t env who req key (strings_ToLower sha) res"
        by (auto simp: ebind_Inr Let_def split: if_splits)
      then show thesis using that(2) [of sha res] True Inr by (simp add: create_def)
    qed
  qed (use that(1) in \<open>simp add: create_def\<close>)
qed

lemma create_txn:
  assumes "env_of db (env_ID env) = Some env"
  shows "txns pc db (snd (create x t env who req key db))" "db_envs (snd (create x t env who req key db)) = db_envs db"
proof -
  have envs: "db_envs (snd (store_CreatePromotion hid p a db)) = db_envs db" for hid p a
    by (auto simp: store_CreatePromotion_def split: option.split)
  show "txns pc db (snd (create x t env who req key db))"
  proof (cases rule: create_cases [of x t env who req key db])
    case (2 sha res)
    have "txn pc db (snd (store_CreatePromotion (x_hist x (env_ID env)) (new_Promotion x t env who req key (strings_ToLower sha) res)
        (audit who ''promotion.request'' (p_ID (new_Promotion x t env who req key (strings_ToLower sha) res))) db))"
      by (rule T_CreatePromotion) (rule new_Promotion_policy [OF assms])
    then show ?thesis by (auto simp: 2(3) split: prod.splits sum.splits)
  qed simp
  show "db_envs (snd (create x t env who req key db)) = db_envs db"
    using envs by (cases rule: create_cases [of x t env who req key db]) (auto split: prod.splits sum.splits; metis snd_conv)+
qed

lemma CreatePromotion_txns:
  assumes "store_wf db"
  shows "txns pc db (snd (CreatePromotion x t a req key db))"
proof -
  have "txns pc db (snd (create x t env who r k db))" if "store_GetEnv db pid name = Inr env" for env who r k pid name
    using that assms by (intro create_txn env_of_member) (auto dest: GetEnv_member wf_keys)
  then show ?thesis
    by (simp add: CreatePromotion_def Let_def case_prod_unfold split: sum.split option.split)
qed

lemma AutoPromote_txns:
  assumes "store_wf db"
  shows "txns pc db (AutoPromote x t branch sha db)"
proof -
  define step where "step = (\<lambda>db e. if env_AutoDeploy e \<and> MatchAny (env_BranchPatterns e) branch
              then snd (create x t e None \<lparr> rq_Environment = env_Name e, rq_SHA = sha, rq_FromEnvironment = [], rq_Comment = ''auto_deploy'' \<rparr> [] db)
              else db)"
  have "txns pc db (foldl step db es)" if "set es \<subseteq> set (db_envs db)" "store_wf db" for es db
    using that
  proof (induction es arbitrary: db)
    case (Cons e es)
    have e: "env_of db (env_ID e) = Some e" using Cons.prems by (intro env_of_member wf_keys) auto
    have s: "txns pc db (step db e)" "db_envs (step db e) = db_envs db" using create_txn [OF e] by (auto simp: step_def)
    have "store_wf (step db e)" using tables.keeps [OF s(1)] Cons.prems(2) .
    then have "txns pc (step db e) (foldl step (step db e) es)" using Cons s(2) by simp
    then show ?case using s(1) by simp
  qed simp
  then show ?thesis using assms unfolding AutoPromote_def step_def [symmetric] by (auto simp: store_ListEnvs_def)
qed

lemma load_promotion_found:
  assumes "load_promotion t i db = Inr (p, env)" "store_wf db"
  shows "p \<in> set (db_promos db) \<and> p_ID p = i \<and> p_ProjectID p = tg_ProjectID t \<and> env_of db (p_EnvironmentID p) = Some env \<and>
     (\<forall>q \<in> set (db_promos db). p_ID q = i \<longrightarrow> q = p)"
proof -
  have f: "find (\<lambda>p. p_ID p = i) (db_promos db) = Some p" and rest: "p_ProjectID p = tg_ProjectID t" "env_of db (p_EnvironmentID p) = Some env"
    using assms(1) by (auto simp: load_promotion_def ebind_Inr store_GetPromotion_def store_GetEnvByID_def env_of_def split: option.splits if_splits)
  show ?thesis using find_by_id [OF wf_ids [OF assms(2)] f] rest by simp
qed

lemma canDecide_policy:
  assumes "canDecide env p a (decision = ''approved'') = None"
  shows "approval_ok env p (de_Approval (new_EDecision x env p a comment decision))"
proof -
  have "actor_Role a \<noteq> [] \<and> IsApprover env (actor_UserID a) (actor_Role a)" "env_Kind env = ''production'' \<longrightarrow> actor_Role a = RoleAdmin"
      "decision = ''approved'' \<and> p_RequestedBy p = Some (actor_UserID a) \<longrightarrow> env_AllowSelfApproval env"
    using assms by (simp_all add: canDecide_def split: if_split_asm)
  then show ?thesis by (simp add: new_EDecision_def approval_ok_def Let_def case_prod_unfold) blast
qed

lemma new_EDecision_fields:
  "de_PromotionID (new_EDecision x env p a comment decision) = p_ID p" "de_Required (new_EDecision x env p a comment decision) = env_RequiredApprovals env"
  "de_AllowSelf (new_EDecision x env p a comment decision) = env_AllowSelfApproval env"
  "de_QuorumStatus (new_EDecision x env p a comment decision) \<in> {StatusWaiting, StatusApproved}"
  "ap_UserID (de_Approval (new_EDecision x env p a comment decision)) = Some (actor_UserID a)"
  "ap_Decision (de_Approval (new_EDecision x env p a comment decision)) = decision"
  using NextAfterQuorum_status [of "x_tz x" "x_local x" env "x_now x" "x_now x"] by (auto simp: new_EDecision_def Let_def split: prod.splits)

lemma decide_txns:
  assumes "store_wf db"
  shows "txns pc db (snd (decide x t a i comment decision db))"
proof -
  have "txns pc db (snd (AddDecision (new_EDecision x env p a comment decision) au db))"
    if "load_promotion t i db = Inr (p, env)" "canDecide env p a (decision = ''approved'') = None" for p env au
  proof -
    have "decision_by_policy db (new_EDecision x env p a comment decision)"
      using load_promotion_found [OF that(1) assms] canDecide_policy [OF that(2)] new_EDecision_fields(4) [of x env p a comment decision]
      by (auto simp: decision_by_policy_def new_EDecision_fields)
    then show ?thesis by (intro r_into_rtranclp T_AddDecision)
  qed
  then show ?thesis by (auto simp: decide_def Let_def split: sum.split option.split prod.split; metis snd_conv)
qed

lemma Cancel_txns: "txns pc db (snd (Cancel x t a i db))"
proof -
  have "txn pc db (snd (Transition i [StatusPending, StatusWaiting, StatusApproved] StatusCancelled pt oa db))" for pt oa
    by (rule T_Transition) (auto simp: edge_def quorum_before_def)
  then show ?thesis by (auto simp: Cancel_def split: sum.split prod.split bool.split; metis r_into_rtranclp snd_conv)
qed

lemma auditSelfApproval_txns: "txns pc db (auditSelfApproval a e was db)"
  by (auto simp: auditSelfApproval_def intro: T_WriteAudit)

lemma CreateEnv_txns: "txns pc db (snd (CreateEnv x t a ins db))"
proof -
  have "txns pc db (auditSelfApproval a e False (snd (store_CreateEnv e au db)))" for e au
    using T_CreateEnv auditSelfApproval_txns by (metis converse_rtranclp_into_rtranclp)
  moreover have "txns pc db (snd (store_CreateEnv e au db))" for e au by (intro r_into_rtranclp T_CreateEnv)
  ultimately show ?thesis by (auto simp: CreateEnv_def Let_def split: sum.split option.split prod.split; metis snd_conv)
qed

lemma DeleteEnv_txns: "txns pc db (snd (DeleteEnv t a name db))"
  by (auto simp: DeleteEnv_def audit_def split: sum.split intro!: r_into_rtranclp T_DeleteEnv)

end
