(* ===== verification/Env_Tick.thy ===== *)
theory Env_Tick
  imports Env_Promotions
begin

text \<open>
  The loop that moves promotions (\<^verbatim>\<open>internal/environments/tick.go\<close>), the deployer over the deployments table
  (\<^verbatim>\<open>wire.go\<close>) and \<^verbatim>\<open>PutEnv\<close>, which re-evaluates the promotions of the environment.

  The maps \<^verbatim>\<open>busy\<close> and \<^verbatim>\<open>ready\<close> and the list \<^verbatim>\<open>order\<close> of \<^verbatim>\<open>Tick\<close> are the fields of \<open>TickState\<close>. The cache of environments
  of one tick is transparent, because nothing writes environments meanwhile.
\<close>

definition err_text :: "env_error \<Rightarrow> string" where
  "err_text e = (case e of PolicyError c m \<Rightarrow> c @ '': '' @ m | ConflictError c m \<Rightarrow> c @ '': '' @ m | _ \<Rightarrow> [])"

definition advance :: "Ext \<Rightarrow> Environment \<Rightarrow> Promotion \<Rightarrow> EDB \<Rightarrow> Promotion \<times> EDB" where
  "advance x env p db =
     (let req = env_RequiredApprovals env; (st, nb, q, changed) = Advance (x_tz x) (x_local x) env p (x_now x) in
      if \<not> changed \<and> p_RequiredApprovals p = req then (p, db)
      else
        (case Transition (p_ID p) [p_Status p] st (zero_Patch\<lparr> pt_NotBefore := nb, pt_QuorumAt := q, pt_Required := Some req \<rparr>) None db of
           (False, db') \<Rightarrow> (p, db')
         | (True, db') \<Rightarrow> (p\<lparr> p_Status := st, p_NotBefore := nb, p_QuorumAt := q, p_RequiredApprovals := req \<rparr>, db')))"

definition reevaluate_one :: "Ext \<Rightarrow> ETarget \<Rightarrow> Environment \<Rightarrow> EDB \<Rightarrow> Promotion \<Rightarrow> EDB" where
  "reevaluate_one x t env db p =
     (if p_Status p = StatusDeploying then db
      else
        (case checkStatic x t env (p_SHA p) (p_FromEnvironment p) db of
           Inl e \<Rightarrow>
             if \<not> isGate e then db
             else snd (Transition (p_ID p) [p_Status p] StatusCancelled
                    (zero_Patch\<lparr> pt_Reason := ''policy_changed: '' @ err_text e, pt_FinishedAt := Some (x_now x) \<rparr>)
                    (Some (audit None ''promotion.cancel'' (p_ID p))) db)
         | Inr _ \<Rightarrow> snd (advance x env p db)))"

definition reevaluate :: "Ext \<Rightarrow> ETarget \<Rightarrow> Environment \<Rightarrow> EDB \<Rightarrow> EDB" where
  "reevaluate x t env db = foldl (reevaluate_one x t env) db (store_ListPromotions db (env_ID env) True)"

definition PutEnv :: "Ext \<Rightarrow> ETarget \<Rightarrow> Actor \<Rightarrow> string \<Rightarrow> EInput \<Rightarrow> EDB \<Rightarrow> (env_error + Environment) \<times> EDB" where
  "PutEnv x t a name in0 db =
     (case store_GetEnv db (tg_ProjectID t) name of
        Inl e \<Rightarrow> (Inl e, db)
      | Inr old \<Rightarrow>
          let ins = (if in_Name in0 = [] then in0\<lparr> in_Name := name \<rparr> else in0) in
          if in_Name ins \<noteq> name then (Inl (ValidationError (bad ''name'' ''an environment cannot be renamed'')), db)
          else
            (case Normalize (x_tz x) ins (tg_ProjectID t) of
               Inl e \<Rightarrow> (Inl e, db)
             | Inr e0 \<Rightarrow>
                 (case checkEnvRefs x t e0 db of
                    Some err \<Rightarrow> (Inl err, db)
                  | None \<Rightarrow>
                      let e = e0\<lparr> env_ID := env_ID old, env_ProjectID := env_ProjectID old, env_CreatedAt := env_CreatedAt old,
                                  env_CreatedBy := env_CreatedBy old, env_UpdatedAt := x_now x \<rparr>
                      in case store_UpdateEnv e (audit (Some (actor_UserID a)) ''environment.update'' (env_ID e)) db of
                           (Inl err, db') \<Rightarrow> (Inl err, db')
                         | (Inr _, db') \<Rightarrow>
                             let db'' = reevaluate x t e (auditSelfApproval a e (env_AllowSelfApproval old) db')
                             in (store_GetEnv db'' (tg_ProjectID t) (env_Name e), db''))))"

section \<open>Deployments\<close>

definition short_sha :: "string \<Rightarrow> string" where
  "short_sha s = (if length s > 7 then take 7 s else s)"

definition Deploy :: "Ext \<Rightarrow> uuid \<Rightarrow> uuid \<Rightarrow> Artifact \<Rightarrow> uuid option \<Rightarrow> EDB \<Rightarrow> (env_error + uuid) \<times> EDB" where
  "Deploy x i projectID a by db =
     (case x_Deploy x i of
        Inl e \<Rightarrow> (Inl e, db)
      | Inr dep \<Rightarrow>
          (case deploy_Create \<lparr> dr_ID = dep, dr_ProjectID = projectID, dr_Version = ''promotion-'' @ short_sha (art_SHA a), dr_GitSHA = Some (art_SHA a),
                  dr_Status = [], dr_BuildStrategy = Some (art_BuildStrategy a), dr_ContainerPort = Some (art_ContainerPort a), dr_Trigger = ''promotion'',
                  dr_TriggeredBy = by, dr_SourceKey = Some (art_SourceKey a), dr_HealthStatus = [], dr_CreatedAt = x_now x \<rparr> db of
             (Inl e, db') \<Rightarrow> (Inl e, db')
           | (Inr _, db') \<Rightarrow> (Inr dep, db')))"

definition DeployStatus :: "EDB \<Rightarrow> uuid \<Rightarrow> (string \<times> string) option" where
  "DeployStatus db dep = map_option (\<lambda>r. (dr_Status r, dr_HealthStatus r)) (find (\<lambda>r. dr_ID r = dep) (db_deploys db))"

definition finish :: "Ext \<Rightarrow> Promotion \<Rightarrow> PStatus \<Rightarrow> string \<Rightarrow> string \<Rightarrow> EDB \<Rightarrow> Promotion \<times> EDB" where
  "finish x p to reason health db =
     (case Transition (p_ID p) [StatusDeploying] to (zero_Patch\<lparr> pt_Reason := reason, pt_FinishedAt := Some (x_now x), pt_Health := health \<rparr>)
             (Some (audit None ''promotion.complete'' (p_ID p))) db of
        (False, db') \<Rightarrow> (p, db')
      | (True, db') \<Rightarrow> (p\<lparr> p_Status := to, p_StatusReason := reason \<rparr>, db'))"

definition launch_deployment :: "Ext \<Rightarrow> Environment \<Rightarrow> Promotion \<Rightarrow> Artifact \<Rightarrow> EDB \<Rightarrow> EDB" where
  "launch_deployment x env p art db =
     (case Deploy x (p_ID p) (env_TargetProjectID env) art (p_RequestedBy p) db of
        (Inl e, db') \<Rightarrow> snd (finish x p StatusFailed ''could not create the deployment'' [] db')
      | (Inr dep, db') \<Rightarrow> SetDeployment (p_ID p) dep db')"

definition poll :: "Ext \<Rightarrow> Environment \<Rightarrow> Promotion \<Rightarrow> EDB \<Rightarrow> Promotion \<times> EDB" where
  "poll x env p db =
     (case p_DeploymentID p of
        None \<Rightarrow>
          (case (p_StartedAt p, p_SourceDeploymentID p) of
             (Some s, Some src) \<Rightarrow>
               if x_now x - s > 2 * time_Minute then
                 (case ArtifactOf db src of
                    Some a \<Rightarrow> (p, launch_deployment x env p a db)
                  | None \<Rightarrow> finish x p StatusFailed ''the stored source is no longer available'' [] db)
               else (p, db)
           | _ \<Rightarrow> (p, db))
      | Some dep \<Rightarrow>
          (case DeployStatus db dep of
             None \<Rightarrow> (p, db)
           | Some (status, health) \<Rightarrow>
               if status = ''success'' then finish x p StatusSuccess [] health db
               else if status = ''failed'' \<or> status = ''cancelled'' then finish x p StatusFailed (''the deployment '' @ status) health db
               else (case p_StartedAt p of
                       Some s \<Rightarrow> if x_now x - s > x_DeployTimeout x then finish x p StatusFailed ''the deployment did not finish in time'' health db
                                 else (p, db)
                     | None \<Rightarrow> (p, db))))"

text \<open>\<^verbatim>\<open>start\<close>: whether the environment is busy now.\<close>

definition start_promotion :: "Ext \<Rightarrow> Environment \<Rightarrow> Promotion \<Rightarrow> EDB \<Rightarrow> bool \<times> EDB" where
  "start_promotion x env p db =
     (case store_Target db (env_ProjectID env) of
        Inl _ \<Rightarrow> (False, db)
      | Inr t \<Rightarrow>
          (case checkStatic x t env (p_SHA p) (p_FromEnvironment p) db of
             Inl e \<Rightarrow>
               if \<not> isGate e then (False, db)
               else (False, snd (Transition (p_ID p) [StatusApproved] StatusCancelled
                       (zero_Patch\<lparr> pt_Reason := ''conditions no longer met: '' @ err_text e, pt_FinishedAt := Some (x_now x) \<rparr>)
                       (Some (audit None ''promotion.cancel'' (p_ID p))) db))
           | Inr res \<Rightarrow>
               let art = (case p_SourceDeploymentID p of
                            None \<Rightarrow> gr_Artifact res
                          | Some src \<Rightarrow> (case ArtifactOf db src of None \<Rightarrow> gr_Artifact res | Some a \<Rightarrow> a))
               in case Transition (p_ID p) [StatusApproved] StatusDeploying (zero_Patch\<lparr> pt_StartedAt := Some (x_now x) \<rparr>)
                         (Some (audit None ''promotion.deploy'' (p_ID p))) db of
                    (False, db') \<Rightarrow> (True, db')
                  | (True, db') \<Rightarrow> (True, launch_deployment x env (p\<lparr> p_Status := StatusDeploying \<rparr>) art db')))"

section \<open>Tick\<close>

record TickState =
  ts_db :: EDB
  ts_busy :: "uuid list"
  ts_ready :: "(uuid, Promotion list) gomap"
  ts_order :: "uuid list"

definition tick_one :: "Ext \<Rightarrow> TickState \<Rightarrow> Promotion \<Rightarrow> TickState" where
  "tick_one x s p =
     (case store_GetEnvByID (ts_db s) (p_EnvironmentID p) of
        Inl _ \<Rightarrow> s
      | Inr env \<Rightarrow>
          if p_Status p = StatusDeploying then
            let (np, db) = poll x env p (ts_db s) in
            s\<lparr> ts_db := db, ts_busy := (if p_Status np = StatusDeploying then env_ID env # ts_busy s else ts_busy s) \<rparr>
          else
            let (np, db) = advance x env p (ts_db s); s' = s\<lparr> ts_db := db \<rparr> in
            if p_Status np = StatusApproved then
              s'\<lparr> ts_order := (if gomap_get (ts_ready s') (env_ID env) = None then ts_order s' @ [env_ID env] else ts_order s'),
                  ts_ready := gomap_set (env_ID env) (gomap_at [] (ts_ready s') (env_ID env) @ [np]) (ts_ready s') \<rparr>
            else s')"

fun start_first :: "Ext \<Rightarrow> Environment \<Rightarrow> Promotion list \<Rightarrow> EDB \<Rightarrow> EDB" where
  "start_first x env [] db = db"
| "start_first x env (p # ps) db = (let (claimed, db') = start_promotion x env p db in if claimed then db' else start_first x env ps db')"

definition start_env :: "Ext \<Rightarrow> TickState \<Rightarrow> EDB \<Rightarrow> uuid \<Rightarrow> EDB" where
  "start_env x s db i =
     (if i \<in> set (ts_busy s) then db
      else case store_GetEnvByID db i of Inl _ \<Rightarrow> db | Inr env \<Rightarrow> start_first x env (gomap_at [] (ts_ready s) i) db)"

definition tick_scan :: "Ext \<Rightarrow> EDB \<Rightarrow> TickState" where
  "tick_scan x db = (let db1 = snd (ExpireOverdue (x_now x) db) in
     foldl (tick_one x) \<lparr> ts_db = db1, ts_busy = [], ts_ready = [], ts_order = [] \<rparr> (store_ListActive db1 500))"

definition Tick :: "Ext \<Rightarrow> EDB \<Rightarrow> EDB" where
  "Tick x db = (let s = tick_scan x db in foldl (start_env x s) (ts_db s) (ts_order s))"

section \<open>The loop is a sequence of transactions\<close>

text \<open>What the loop never touches: the projects, the environments, and the approvals of every promotion; to the
  deployments it only adds queued ones (\<open>adds_queued\<close>). \<open>safe\<close> is a sequence of transactions that leaves them as
  they are; a promotion read at the start of the loop is \<open>listed\<close> in all later tables with the same approvals.\<close>

definition adds_queued :: "EDB \<Rightarrow> EDB \<Rightarrow> bool" where
  "adds_queued db db' \<longleftrightarrow> db_targets db' = db_targets db \<and> (\<exists>rs. db_deploys db' = db_deploys db @ rs \<and> (\<forall>r \<in> set rs. dr_Status r = ''queued''))"

lemma adds_queued_same: "db_targets db' = db_targets db \<Longrightarrow> db_deploys db' = db_deploys db \<Longrightarrow> adds_queued db db'"
  by (simp add: adds_queued_def)

lemma adds_queued_trans: "adds_queued a b \<Longrightarrow> adds_queued b c \<Longrightarrow> adds_queued a c"
  unfolding adds_queued_def by (metis Un_iff append.assoc set_append)

definition frame :: "EDB \<Rightarrow> Environment list \<times> (uuid \<times> uuid \<times> Approval list) list" where
  "frame db = (db_envs db, map (\<lambda>p. (p_ID p, p_EnvironmentID p, p_Approvals p)) (db_promos db))"

text \<open>How the loop may change one promotion: the fixed columns stay, the state moves along the edges, and a
  final state is final.\<close>

definition evolves :: "Promotion \<Rightarrow> Promotion \<Rightarrow> bool" where
  "evolves p p' \<longleftrightarrow> fixed_cols p' = fixed_cols p \<and> edge\<^sup>*\<^sup>* (p_Status p) (p_Status p') \<and> (\<not> IsActive (p_Status p) \<longrightarrow> settled p' = settled p)"

definition safe :: "bool \<Rightarrow> EDB \<Rightarrow> EDB \<Rightarrow> bool" where
  "safe pc db db' \<longleftrightarrow> txns pc db db' \<and> frame db' = frame db \<and> adds_queued db db' \<and> (store_wf db \<longrightarrow> list_all2 evolves (db_promos db) (db_promos db'))"

definition listed :: "EDB \<Rightarrow> Promotion \<Rightarrow> bool" where
  "listed db p \<longleftrightarrow> (p_ID p, p_EnvironmentID p, p_Approvals p) \<in> set (snd (frame db))"

lemma final_stays: "edge\<^sup>*\<^sup>* f t \<Longrightarrow> \<not> IsActive f \<Longrightarrow> t = f"
  by (induction rule: converse_rtranclp_induct) (auto dest: edge_active)

lemma evolves_refl: "evolves p p"
  by (simp add: evolves_def)

lemma evolves_trans:
  assumes "evolves p q" "evolves q r"
  shows "evolves p r"
proof -
  have "edge\<^sup>*\<^sup>* (p_Status p) (p_Status r)" using assms rtranclp_trans [of edge "p_Status p" "p_Status q"] by (simp add: evolves_def)
  moreover have "settled r = settled p" if "\<not> IsActive (p_Status p)"
    using assms that final_stays [of "p_Status p" "p_Status q"] by (simp add: evolves_def)
  ultimately show ?thesis using assms by (simp add: evolves_def)
qed

lemma evolves_rows: "rows db db' g \<Longrightarrow> (\<And>p. p \<in> set (db_promos db) \<Longrightarrow> evolves p (g p)) \<Longrightarrow> list_all2 evolves (db_promos db) (db_promos db')"
  by (auto simp: rows_def list_all2_conv_all_nth)

lemma safe_refl [simp, intro]: "safe pc db db"
  by (simp add: safe_def list_all2_refl evolves_refl adds_queued_same)

lemma safe_wf: "safe pc db db' \<Longrightarrow> store_wf db \<Longrightarrow> store_wf db'"
  by (auto simp: safe_def dest: tables.keeps)

lemma safe_trans:
  assumes "safe pc a b" "safe pc b c"
  shows "safe pc a c"
proof -
  have "list_all2 evolves (db_promos a) (db_promos c)" if "store_wf a"
  proof -
    have ab: "list_all2 evolves (db_promos a) (db_promos b)" and bc: "list_all2 evolves (db_promos b) (db_promos c)"
      using assms that safe_wf [OF assms(1) that] by (simp_all add: safe_def)
    show ?thesis by (rule list_all2_trans [OF _ ab bc]) (rule evolves_trans)
  qed
  moreover have "txns pc a c" using assms rtranclp_trans [of "txn pc" a b c] by (simp add: safe_def)
  moreover have "adds_queued a c" using assms adds_queued_trans [of a b c] by (simp add: safe_def)
  ultimately show ?thesis using assms by (simp add: safe_def)
qed

lemma safe_frame: "safe pc db db' \<Longrightarrow> frame db' = frame db"
  by (simp add: safe_def)

lemma listed_frame: "frame db' = frame db \<Longrightarrow> listed db' p \<longleftrightarrow> listed db p"
  by (simp add: listed_def)

lemma env_of_frame: "frame db' = frame db \<Longrightarrow> env_of db' i = env_of db i"
  by (simp add: frame_def env_of_def)

lemma listed_member: "p \<in> set (db_promos db) \<Longrightarrow> listed db p"
  by (force simp: listed_def frame_def)

lemma frame_upd:
  "(\<And>p. p_ID (f p) = p_ID p \<and> p_EnvironmentID (f p) = p_EnvironmentID p \<and> p_Approvals (f p) = p_Approvals p) \<Longrightarrow>
   map (\<lambda>p. (p_ID p, p_EnvironmentID p, p_Approvals p)) (upd_promo i f ps) = map (\<lambda>p. (p_ID p, p_EnvironmentID p, p_Approvals p)) ps"
  by (auto simp: upd_promo_def)

lemma frame_Transition: "frame (snd (Transition i from to pt oa db)) = frame db"
  by (auto simp: Transition_def frame_def Let_def frame_upd apply_patch_def split: option.split)

lemma evolves_Transition:
  assumes "store_wf db" "\<And>f. f \<in> set from \<Longrightarrow> edge f to"
  shows "list_all2 evolves (db_promos db) (db_promos (snd (Transition i from to pt oa db)))"
proof (cases rule: Transition_cases [OF wf_ids [OF assms(1)], of i "from" to pt oa])
  case (2 p db')
  have "evolves p (apply_patch to pt p)"
    using assms(2) [OF 2(4)] by (auto simp: evolves_def fixed_cols_def apply_patch_def dest: edge_active)
  then show ?thesis using 2 evolves_rows [OF 2(5)] by (simp add: evolves_refl)
qed (simp add: list_all2_refl evolves_refl)

lemma adds_queued_Transition: "adds_queued db (snd (Transition i from to pt oa db))"
  by (auto intro!: adds_queued_same simp: Transition_def Let_def split: option.split)

lemma safe_Transition: "(\<And>f. f \<in> set from \<Longrightarrow> edge f to) \<Longrightarrow> quorum_before db i to \<Longrightarrow> safe pc db (snd (Transition i from to pt oa db))"
  by (auto simp: safe_def frame_Transition adds_queued_Transition intro: T_Transition evolves_Transition)

lemma safe_SetDeployment: "safe pc db (SetDeployment i dep db)"
proof -
  have "list_all2 evolves (db_promos db) (db_promos (SetDeployment i dep db))"
    by (rule evolves_rows [OF SetDeployment_rows]) (auto simp: evolves_def fixed_cols_def settled_def)
  then show ?thesis using T_SetDeployment [of pc db i dep] by (auto simp: safe_def SetDeployment_def frame_def frame_upd adds_queued_def)
qed

lemma safe_deploy_Create: "safe pc db (snd (deploy_Create r db))"
  using T_deploy_Create [of pc db r] by (auto simp: safe_def deploy_Create_def frame_def list_all2_refl evolves_refl adds_queued_def)

lemma finish_safe: "to \<in> {StatusSuccess, StatusFailed} \<Longrightarrow> safe pc db (snd (finish x p to reason health db))"
  using safe_Transition [of "[StatusDeploying]" to db "p_ID p" pc]
  by (auto simp: finish_def edge_def quorum_before_def split: prod.split bool.split; metis snd_conv)

lemma Deploy_safe: "safe pc db (snd (Deploy x i pid a who db))"
  using safe_deploy_Create [of pc db] by (auto simp: Deploy_def split: sum.split prod.split; metis snd_conv)

lemma launch_safe: "safe pc db (launch_deployment x env p art db)"
proof (cases "Deploy x (p_ID p) (env_TargetProjectID env) art (p_RequestedBy p) db")
  case (Pair r db')
  have "safe pc db db'" using Deploy_safe [of pc db x] Pair by (metis snd_conv)
  then show ?thesis using finish_safe [of StatusFailed pc db'] safe_SetDeployment [of pc db']
    by (auto simp: launch_deployment_def Pair split: sum.split intro: safe_trans)
qed

lemma poll_safe: "safe pc db (snd (poll x env p db))"
  by (auto simp: poll_def split: option.split intro!: launch_safe finish_safe)

lemma start_safe: "safe pc db (snd (start_promotion x env p db))"
proof -
  have claim: "safe pc db (snd (Transition (p_ID p) [StatusApproved] StatusDeploying pt oa db))"
    and drop: "safe pc db (snd (Transition (p_ID p) [StatusApproved] StatusCancelled pt oa db))" for pt oa
    by (auto intro!: safe_Transition simp: edge_def quorum_before_def)
  have launched: "safe pc db (snd (case Transition (p_ID p) [StatusApproved] StatusDeploying pt oa db of
      (False, db') \<Rightarrow> (True, db') | (True, db') \<Rightarrow> (True, launch_deployment x env q art db')))" for pt oa q art
  proof (cases "Transition (p_ID p) [StatusApproved] StatusDeploying pt oa db")
    case (Pair ok db')
    then have "safe pc db db'" using claim [of pt oa] by simp
    then show ?thesis using launch_safe [of pc db' x env q art] by (cases ok) (auto simp: Pair intro: safe_trans)
  qed
  show ?thesis using drop launched by (simp add: start_promotion_def Let_def split: sum.split)
qed

lemma fst_Advance:
  "fst (Advance tz local env p now) =
     (if p_Status p = StatusPending then
        if CountApprovals env p < env_RequiredApprovals env then StatusPending else fst (NextAfterQuorum tz local env now now)
      else if p_Status p = StatusWaiting \<or> p_Status p = StatusApproved then
        fst (NextAfterQuorum tz local env (case p_QuorumAt p of None \<Rightarrow> now | Some q \<Rightarrow> q) now)
      else p_Status p)"
  by (simp add: Advance_def Let_def case_prod_unfold)

lemma Advance_edge:
  assumes st: "p_Status p \<in> {StatusPending, StatusWaiting, StatusApproved}" and A: "Advance tz local env p now = (st', nb, q, changed)"
  shows "edge (p_Status p) st'" "p_Status p = StatusPending \<Longrightarrow> st' \<in> {StatusWaiting, StatusApproved} \<Longrightarrow> quorum env p"
proof -
  obtain n1 where n1: "fst (NextAfterQuorum tz local env now now) = n1" "n1 = StatusWaiting \<or> n1 = StatusApproved"
    using NextAfterQuorum_status [of tz local env now now] by simp
  obtain n2 where n2: "fst (NextAfterQuorum tz local env (case p_QuorumAt p of None \<Rightarrow> now | Some q \<Rightarrow> q) now) = n2" "n2 = StatusWaiting \<or> n2 = StatusApproved"
    using NextAfterQuorum_status [of tz local env "case p_QuorumAt p of None \<Rightarrow> now | Some q \<Rightarrow> q" now] by simp
  have "fst (Advance tz local env p now) = st'" using A by simp
  then have f: "st' = (if p_Status p = StatusPending then if quorum env p then n1 else StatusPending else n2)"
    using st unfolding fst_Advance n1(1) n2(1) quorum_def by auto
  show "edge (p_Status p) st'" using st n1(2) n2(2) unfolding f edge_def by auto
  show "p_Status p = StatusPending \<Longrightarrow> st' \<in> {StatusWaiting, StatusApproved} \<Longrightarrow> quorum env p" unfolding f by (auto split: if_splits)
qed

lemma advance_safe:
  assumes wf: "store_wf db" and l: "listed db p" and e: "env_of db (p_EnvironmentID p) = Some env"
    and st: "p_Status p \<in> {StatusPending, StatusWaiting, StatusApproved}"
  shows "safe pc db (snd (advance x env p db))"
proof -
  obtain s nb q ch where A: "Advance (x_tz x) (x_local x) env p (x_now x) = (s, nb, q, ch)" by (cases "Advance (x_tz x) (x_local x) env p (x_now x)") auto
  note edge = Advance_edge [OF st A]
  obtain r where r: "r \<in> set (db_promos db)" "p_ID r = p_ID p" "p_EnvironmentID r = p_EnvironmentID p" "p_Approvals r = p_Approvals p"
    using l by (auto simp: listed_def frame_def)
  have uniq: "y = r" if "y \<in> set (db_promos db)" "p_ID y = p_ID p" for y
    using that r wf_ids [OF wf] by (auto simp: distinct_map inj_on_def)
  obtain y where y: "find (\<lambda>y. p_ID y = p_ID p) (db_promos db) = Some y"
    using r(1,2) by (cases "find (\<lambda>y. p_ID y = p_ID p) (db_promos db)") (auto simp: find_None_iff)
  have "y = r" by (rule uniq) (use find_by_id(1,2) [OF wf_ids [OF wf] y] in simp_all)
  have t: "safe pc db (snd (Transition (p_ID p) [p_Status p] s pt oa db))" for pt oa
  proof (cases "p_Status r = p_Status p")
    case False
    then have "Transition (p_ID p) [p_Status p] s pt oa db = (False, db)" using y \<open>y = r\<close> by (simp add: Transition_def)
    then show ?thesis by simp
  next
    case True
    have "quorum env r" if "p_Status r = StatusPending" "s \<in> {StatusWaiting, StatusApproved}"
      using edge(2) that True r(4) by (simp add: quorum_def CountApprovals_def)
    moreover have "env_of db (p_EnvironmentID r) = Some env" using e r(3) by simp
    ultimately have "quorum_before db (p_ID p) s" unfolding quorum_before_def using uniq by metis
    then show ?thesis using edge(1) by (intro safe_Transition) simp_all
  qed
  show ?thesis
  proof (cases "Transition (p_ID p) [p_Status p] s (zero_Patch\<lparr> pt_NotBefore := nb, pt_QuorumAt := q, pt_Required := Some (env_RequiredApprovals env) \<rparr>) None db")
    case (Pair ok db')
    then have "safe pc db db'" by (metis t snd_conv)
    then show ?thesis by (cases ok) (simp_all add: advance_def A Pair Let_def)
  qed
qed

lemma advance_same: "p_ID (fst (advance x env p db)) = p_ID p" "p_EnvironmentID (fst (advance x env p db)) = p_EnvironmentID p"
    "p_Approvals (fst (advance x env p db)) = p_Approvals p"
  by (simp_all add: advance_def Let_def case_prod_unfold split: bool.split)

lemma GetEnvByID_env_of: "store_GetEnvByID db i = Inr e \<longleftrightarrow> env_of db i = Some e"
  by (simp add: store_GetEnvByID_def env_of_def split: option.split)

lemma tick_one_safe:
  assumes "store_wf (ts_db s)" "listed (ts_db s) p" "IsActive (p_Status p)"
  shows "safe pc (ts_db s) (ts_db (tick_one x s p))"
proof (cases "store_GetEnvByID (ts_db s) (p_EnvironmentID p)")
  case (Inr env)
  have "safe pc (ts_db s) (snd (advance x env p (ts_db s)))" if "p_Status p \<noteq> StatusDeploying"
    using assms that Inr by (intro advance_safe) (auto simp: IsActive_def GetEnvByID_env_of)
  then show ?thesis using poll_safe [of pc "ts_db s" x env p]
    by (simp add: tick_one_def Inr Let_def case_prod_unfold)
qed (simp add: tick_one_def)

lemma tick_fold_safe:
  assumes "store_wf (ts_db s)" "\<forall>p \<in> set ps. listed (ts_db s) p \<and> IsActive (p_Status p)"
  shows "safe pc (ts_db s) (ts_db (foldl (tick_one x) s ps))"
  using assms
proof (induction ps arbitrary: s)
  case (Cons p ps)
  have s: "safe pc (ts_db s) (ts_db (tick_one x s p))" by (rule tick_one_safe) (use Cons.prems in auto)
  have "safe pc (ts_db (tick_one x s p)) (ts_db (foldl (tick_one x) (tick_one x s p) ps))"
    by (rule Cons.IH) (use Cons.prems safe_wf [OF s] listed_frame [OF safe_frame [OF s]] in auto)
  then show ?case using s by (auto intro: safe_trans)
qed simp

lemma start_first_safe: "safe pc db (start_first x env ps db)"
proof (induction ps arbitrary: db)
  case (Cons p ps)
  then show ?case using start_safe [of pc db x env p] by (auto simp: Let_def case_prod_unfold intro: safe_trans)
qed simp

lemma start_env_safe: "safe pc db (start_env x s db i)"
  by (simp add: start_env_def start_first_safe split: sum.split)

lemma foldl_safe: "(\<And>db y. safe pc db (f db y)) \<Longrightarrow> safe pc db (foldl f db ys)"
  by (induction ys arbitrary: db) (auto intro: safe_trans)

lemma ListActive_listed: "p \<in> set (store_ListActive db n) \<Longrightarrow> listed db p \<and> IsActive (p_Status p)"
  unfolding store_ListActive_def by (drule in_set_takeD) (simp add: by_creation_def listed_member)

lemma Tick_safe:
  assumes "store_wf db"
  shows "safe pc (snd (ExpireOverdue (x_now x) db)) (Tick x db)"
proof -
  have wf: "store_wf (snd (ExpireOverdue (x_now x) db))" using assms by (rule store_wf_ExpireOverdue)
  have "safe pc (snd (ExpireOverdue (x_now x) db)) (ts_db (tick_scan x db))"
    unfolding tick_scan_def Let_def by (rule tick_fold_safe [of "\<lparr> ts_db = _, ts_busy = _, ts_ready = _, ts_order = _ \<rparr>", simplified])
      (use wf ListActive_listed in auto)
  then show ?thesis unfolding Tick_def Let_def by (rule safe_trans) (rule foldl_safe, rule start_env_safe)
qed

lemma Tick_txns: "store_wf db \<Longrightarrow> txns pc db (Tick x db)"
  using Tick_safe [of db pc x] ExpireOverdue_txns [OF wf_ids, of db pc "x_now x"] by (auto simp: safe_def)

lemma reevaluate_one_safe:
  assumes "store_wf db" "listed db p" "IsActive (p_Status p)" "env_of db (p_EnvironmentID p) = Some env"
  shows "safe pc db (reevaluate_one x t env db p)"
proof (cases "p_Status p = StatusDeploying")
  case False
  then have "safe pc db (snd (advance x env p db))" using assms by (intro advance_safe) (auto simp: IsActive_def)
  moreover have "safe pc db (snd (Transition (p_ID p) [p_Status p] StatusCancelled pt oa db))" for pt oa
    using False assms(3) by (intro safe_Transition) (auto simp: edge_def IsActive_def quorum_before_def)
  ultimately show ?thesis by (simp add: reevaluate_one_def split: sum.split)
qed (simp add: reevaluate_one_def)

lemma reevaluate_safe:
  assumes "store_wf db" "env_of db (env_ID env) = Some env"
  shows "safe pc db (reevaluate x t env db)"
proof -
  have "safe pc db (foldl (reevaluate_one x t env) db ps)"
    if "store_wf db" "env_of db (env_ID env) = Some env" "\<forall>p \<in> set ps. listed db p \<and> IsActive (p_Status p) \<and> p_EnvironmentID p = env_ID env" for ps db
    using that
  proof (induction ps arbitrary: db)
    case (Cons p ps)
    have s: "safe pc db (reevaluate_one x t env db p)" by (rule reevaluate_one_safe) (use Cons.prems in auto)
    have "safe pc (reevaluate_one x t env db p) (foldl (reevaluate_one x t env) (reevaluate_one x t env db p) ps)"
      by (rule Cons.IH) (use Cons.prems safe_wf [OF s] listed_frame [OF safe_frame [OF s]] env_of_frame [OF safe_frame [OF s]] in simp_all)
    then show ?case using s by (auto intro: safe_trans)
  qed simp
  moreover have "\<forall>p \<in> set (store_ListPromotions db (env_ID env) True). listed db p \<and> IsActive (p_Status p) \<and> p_EnvironmentID p = env_ID env"
    by (simp add: store_ListPromotions_def by_creation_def listed_member)
  ultimately show ?thesis using assms unfolding reevaluate_def by blast
qed

lemma UpdateEnv_env_of:
  assumes "keys_ok db" "env_of db (env_ID e) = Some old" "env_ProjectID e = env_ProjectID old" "env_Name e = env_Name old"
    "env_CreatedBy e = env_CreatedBy old" "env_CreatedAt e = env_CreatedAt old"
  shows "fst (store_UpdateEnv e a db) = Inr ()" "env_of (snd (store_UpdateEnv e a db)) (env_ID e) = Some e"
proof -
  have old: "old \<in> set (db_envs db)" "env_ID old = env_ID e" using assms(2) by (auto simp: env_of_def find_Some_iff)
  then have ex: "list_ex (\<lambda>x. env_ID x = env_ID e \<and> env_ProjectID x = env_ProjectID e) (db_envs db)" using assms(3) by (auto simp: list_ex_iff)
  then show "fst (store_UpdateEnv e a db) = Inr ()" by (simp add: store_UpdateEnv_def)
  let ?f = "\<lambda>x. if env_ID x = env_ID e \<and> env_ProjectID x = env_ProjectID e then policy_columns e x else x"
  have "policy_columns e old = e" using assms(3-6) old(2) by (simp add: policy_columns_def)
  moreover have "find (\<lambda>x. env_ID x = env_ID e) (map ?f es) = map_option ?f (find (\<lambda>x. env_ID x = env_ID e) es)" for es
    by (induction es) (simp_all add: policy_columns_def)
  ultimately show "env_of (snd (store_UpdateEnv e a db)) (env_ID e) = Some e"
    using ex assms(2,3) old(2) by (simp add: store_UpdateEnv_def env_of_def)
qed

lemma Normalize_name: "Normalize tz ins self = Inr e \<Longrightarrow> env_Name e = in_Name ins"
  by (auto simp: Normalize_def split: if_splits)

lemma PutEnv_txns:
  assumes wf: "store_wf db"
  shows "txns True db (snd (PutEnv x t a name in0 db))"
proof (cases "snd (PutEnv x t a name in0 db) = db")
  case False
  define ins where "ins = (if in_Name in0 = [] then in0\<lparr> in_Name := name \<rparr> else in0)"
  obtain old e0 where old: "store_GetEnv db (tg_ProjectID t) name = Inr old" and name: "in_Name ins = name"
    and e0: "Normalize (x_tz x) ins (tg_ProjectID t) = Inr e0" and refs: "checkEnvRefs x t e0 db = None"
    using False by (auto simp: PutEnv_def ins_def [symmetric] Let_def split: sum.splits if_splits option.splits)
  define e where "e = e0\<lparr> env_ID := env_ID old, env_ProjectID := env_ProjectID old, env_CreatedAt := env_CreatedAt old,
       env_CreatedBy := env_CreatedBy old, env_UpdatedAt := x_now x \<rparr>"
  define au where "au = audit (Some (actor_UserID a)) ''environment.update'' (env_ID e)"
  let ?db1 = "snd (store_UpdateEnv e au db)"
  let ?db2 = "auditSelfApproval a e (env_AllowSelfApproval old) ?db1"
  have m: "old \<in> set (db_envs db)" "env_Name old = name" using GetEnv_member [OF old] by auto
  have "env_Name e = env_Name old" using Normalize_name [OF e0] name m(2) by (simp add: e_def)
  then have u: "fst (store_UpdateEnv e au db) = Inr ()" "env_of ?db1 (env_ID e) = Some e"
    using UpdateEnv_env_of [OF wf_keys [OF wf], of e old au] env_of_member [OF wf_keys [OF wf] m(1)] by (auto simp: e_def)
  have "snd (PutEnv x t a name in0 db) = reevaluate x t e ?db2"
    using old name e0 refs u(1) by (cases "store_UpdateEnv e au db") (simp add: PutEnv_def ins_def [symmetric] Let_def e_def [symmetric] au_def [symmetric])
  moreover have t1: "txn True db ?db1" by (rule T_UpdateEnv) simp
  moreover have t2: "txns True ?db1 ?db2" by (rule auditSelfApproval_txns)
  moreover have "txns True ?db2 (reevaluate x t e ?db2)"
  proof -
    have "store_wf ?db2" using tables.keeps [OF t2 store_wf_step [OF wf t1]] .
    moreover have "env_of ?db2 (env_ID e) = Some e" using u(2) by (simp add: env_of_def auditSelfApproval_def)
    ultimately show ?thesis using reevaluate_safe [of ?db2 e True x t] by (simp add: safe_def)
  qed
  ultimately show ?thesis by (metis converse_rtranclp_into_rtranclp rtranclp_trans)
qed simp

end
