(* ===== verification/Env_Service.thy ===== *)
theory Env_Service
  imports Env_Tick
begin

text \<open>
  The service of environments as a whole: \<open>serve\<close> is one request or one tick, with any view of the outside,
  and the theorems hold in every state reached from empty tables. The flag of \<open>serve\<close> says whether
  policies may be replaced meanwhile (\<^verbatim>\<open>PutEnv\<close>). The statements of \<^verbatim>\<open>ExpireOverdue\<close>, which are not in one
  transaction, are also steps of their own (\<open>S_ExpireRows\<close>, \<open>S_SyncExpired\<close>, \<open>S_ExpireAudit\<close>): requests served between
  them, and an expiry that ends early, are among the runs.
\<close>

inductive serve :: "bool \<Rightarrow> EDB \<Rightarrow> EDB \<Rightarrow> bool" for pc :: bool where
  S_CreateEnv: "serve pc db (snd (CreateEnv x t a ins db))"
| S_PutEnv: "pc \<Longrightarrow> serve pc db (snd (PutEnv x t a name ins db))"
| S_DeleteEnv: "serve pc db (snd (DeleteEnv t a name db))"
| S_CreatePromotion: "serve pc db (snd (CreatePromotion x t a req key db))"
| S_AutoPromote: "serve pc db (AutoPromote x t branch sha db)"
| S_Approve: "serve pc db (snd (Approve x t a i comment db))"
| S_Reject: "serve pc db (snd (Reject x t a i comment db))"
| S_Cancel: "serve pc db (snd (Cancel x t a i db))"
| S_Tick: "serve pc db (Tick x db)"
| S_ExpireRows: "serve pc db (snd (expire_rows now db))"
| S_SyncExpired: "all_expired i db \<Longrightarrow> serve pc db (syncHistory i StatusExpired (Some now) [] db)"
| S_ExpireAudit: "serve pc db (envInsertAudit (expire_audit i) db)"
| S_Outside: "serve pc db (db\<lparr> db_targets := ts, db_deploys := ds \<rparr>)"

definition empty_db :: EDB where
  "empty_db = \<lparr> db_targets = [], db_deploys = [], db_envs = [], db_promos = [], db_hist = [], db_audit = [] \<rparr>"

definition reached :: "bool \<Rightarrow> EDB \<Rightarrow> bool" where
  "reached pc db \<longleftrightarrow> (serve pc)\<^sup>*\<^sup>* empty_db db"

lemma serve_txns:
  assumes "store_wf db" "serve pc db db'"
  shows "txns pc db db'"
  using assms(2)
proof (cases rule: serve.cases)
  case (S_PutEnv x t a name ins) then show ?thesis using PutEnv_txns [OF assms(1)] by simp
next
  case (S_Outside ts ds) then show ?thesis by (auto intro: T_Outside)
next
  case (S_ExpireRows now) then show ?thesis by (auto intro: T_ExpireRows)
next
  case (S_SyncExpired i now) then show ?thesis by (auto intro: T_SyncExpired)
next
  case (S_ExpireAudit i) then show ?thesis by (auto intro: T_WriteAudit)
qed (use assms(1) in \<open>simp_all add: CreateEnv_txns DeleteEnv_txns CreatePromotion_txns AutoPromote_txns Approve_def Reject_def decide_txns Cancel_txns Tick_txns\<close>)

lemma serves_txns: "(serve pc)\<^sup>*\<^sup>* db db' \<Longrightarrow> store_wf db \<Longrightarrow> txns pc db db'"
proof (induction rule: rtranclp_induct)
  case (step b c)
  then have "txns pc db b" "store_wf b" using tables.keeps by blast+
  then show ?case using serve_txns [OF _ step(2)] by (meson rtranclp_trans)
qed simp

lemma empty_wf: "store_wf empty_db" "policy_inv empty_db"
  by (simp_all add: empty_db_def store_wf_def keys_ok_def one_of_def mirror_def voters_ok_def policy_inv_def)

lemma reached_txns: "reached pc db \<Longrightarrow> txns pc empty_db db"
  using serves_txns empty_wf(1) by (simp add: reached_def)

lemma reached_wf: "reached pc db \<Longrightarrow> store_wf db"
  using tables.keeps [OF reached_txns] empty_wf(1) by blast

lemma reached_policy: "reached False db \<Longrightarrow> policy_inv db"
  using policy.keeps [OF reached_txns] empty_wf by blast

section \<open>An example run\<close>

text \<open>A production environment with its defaults, a request, an approval by another administrator, and ticks.\<close>

definition ex_sha :: string where "ex_sha = ''abcdef1''"

definition ex_ext :: "time \<Rightarrow> Ext" where
  "ex_ext now = \<lparr> x_now = now, x_tz = ex_tz, x_local = ex_utc, x_Forge = True,
     x_ListBranches = (\<lambda>_ _. Inr ([\<lparr> br_Name = ''main'', br_SHA = ex_sha, br_Default = True \<rparr>], [])),
     x_ListTags = (\<lambda>_ _. Inr ([], [])), x_Compare = (\<lambda>_ _ _. Inl CodeNotFound), x_GetCommit = (\<lambda>_ s. Inr s),
     x_ListChecks = (\<lambda>_ _. Inr [\<lparr> ck_Context = ''ci'', ck_State = ''success'', ck_TargetURL = [], ck_Description = [] \<rparr>]),
     x_Blocked = None, x_Role = (\<lambda>_ _ _. Inr RoleAdmin), x_CountAdmins = (\<lambda>_ _. Inr 2), x_Person = (\<lambda>_. Inl ErrNotFound),
     x_new = (\<lambda>e. if e = 0 then 1 else 2), x_hist = (\<lambda>_. 3), x_Deploy = (\<lambda>_. Inr 4), x_DeployTimeout = 60 * time_Minute \<rparr>"

definition ex_target :: ETarget where
  "ex_target = \<lparr> tg_ProjectID = 10, tg_OrgID = 11, tg_OrgSlug = ''o'', tg_ProjectSlug = ''p'' \<rparr>"

definition ex_row :: "uuid \<Rightarrow> string \<Rightarrow> DeployRow" where
  "ex_row i st = \<lparr> dr_ID = i, dr_ProjectID = 10, dr_Version = [], dr_GitSHA = Some ex_sha, dr_Status = st, dr_BuildStrategy = None,
     dr_ContainerPort = None, dr_Trigger = [], dr_TriggeredBy = None, dr_SourceKey = Some ''key'', dr_HealthStatus = [], dr_CreatedAt = 1 \<rparr>"

definition ex_actor :: "uuid \<Rightarrow> Actor" where
  "ex_actor u = \<lparr> actor_UserID = u, actor_Role = RoleAdmin, actor_IP = [] \<rparr>"

definition ex_prod :: EInput where
  "ex_prod = \<lparr> in_Name = ''prod'', in_Kind = ''production'', in_TargetProjectID = None, in_BranchPatterns = [], in_TagPatterns = [],
     in_AutoDeploy = None, in_Reviewers = None, in_RequiredApprovals = None, in_AllowSelfApproval = None, in_WaitMinutes = None,
     in_Windows = [], in_RequireChecksOnSHA = None, in_RequireSourceEnvironment = None, in_RequireSecurityPolicy = None,
     in_RollbackRequiresApproval = None \<rparr>"

definition ex_request :: PromotionRequest where
  "ex_request = \<lparr> rq_Environment = ''prod'', rq_SHA = ex_sha, rq_FromEnvironment = [], rq_Comment = [] \<rparr>"

definition ex_db1 :: EDB where
  "ex_db1 = snd (CreateEnv (ex_ext 1) ex_target (ex_actor 21) ex_prod
     (empty_db\<lparr> db_targets := [ex_target], db_deploys := [ex_row 5 ''success''] \<rparr>))"

definition ex_db2 :: EDB where
  "ex_db2 = snd (CreatePromotion (ex_ext 2) ex_target (ex_actor 21) ex_request ''k'' ex_db1)"

definition ex_db3 :: EDB where "ex_db3 = snd (Approve (ex_ext 3) ex_target (ex_actor 22) 2 [] ex_db2)"

definition ex_db4 :: EDB where "ex_db4 = Tick (ex_ext 4) ex_db3"

definition ex_db5 :: EDB where
  "ex_db5 = Tick (ex_ext 5) (ex_db4\<lparr> db_targets := [ex_target], db_deploys := [ex_row 5 ''success'', ex_row 4 ''success''] \<rparr>)"

lemma reached_step: "reached pc db \<Longrightarrow> serve pc db db' \<Longrightarrow> reached pc db'"
  unfolding reached_def by (rule rtranclp.rtrancl_into_rtrancl)

lemma ex_reached: "reached pc ex_db1" "reached pc ex_db2" "reached pc ex_db3" "reached pc ex_db4" "reached pc ex_db5"
proof -
  have "reached pc empty_db" by (simp add: reached_def)
  then show 1: "reached pc ex_db1" unfolding ex_db1_def by (rule reached_step [OF reached_step [OF _ S_Outside] S_CreateEnv])
  then show 2: "reached pc ex_db2" unfolding ex_db2_def by (rule reached_step) (rule S_CreatePromotion)
  then show 3: "reached pc ex_db3" unfolding ex_db3_def by (rule reached_step) (rule S_Approve)
  then show 4: "reached pc ex_db4" unfolding ex_db4_def by (rule reached_step) (rule S_Tick)
  then show "reached pc ex_db5" unfolding ex_db5_def by (rule reached_step [OF reached_step [OF _ S_Outside] S_Tick])
qed

lemma ex_statuses:
  "map p_Status (db_promos ex_db2) = [StatusPending]" "map p_Status (db_promos ex_db4) = [StatusDeploying]"
  "map p_Status (db_promos ex_db5) = [StatusSuccess]"
  by code_simp+

lemma ex_promo: "map p_Status (db_promos db) = [s] \<Longrightarrow> hd (db_promos db) \<in> set (db_promos db) \<and> p_Status (hd (db_promos db)) = s"
  by (cases "db_promos db") auto

section \<open>The tables\<close>

text \<open>
  C13 (invariant). Whatever requests and ticks are served, with policies replaced or not, and whatever is served
  between the statements of an expiry: an environment has at most one promotion being deployed and at most one
  active promotion per commit; an idempotency key names one promotion of its requester; no user decides twice on
  a promotion; every promotion belongs to an existing environment; and the history has one row per promotion,
  in the same order, with its environment, its commit and its state. The state is exact except that the row of an
  expired promotion may still show it as undecided, waiting or queued.
\<close>

theorem tables_consistent:
  assumes "reached pc db" "p \<in> set (db_promos db)" "q \<in> set (db_promos db)"
  shows "(p_EnvironmentID p = p_EnvironmentID q \<and> p_Status p = StatusDeploying \<and> p_Status q = StatusDeploying \<longrightarrow> p = q) \<and>
    (p_EnvironmentID p = p_EnvironmentID q \<and> p_SHA p = p_SHA q \<and> IsActive (p_Status p) \<and> IsActive (p_Status q) \<longrightarrow> p = q) \<and>
    (p_ProjectID p = p_ProjectID q \<and> p_RequestedBy p = p_RequestedBy q \<and> p_IdempotencyKey p = p_IdempotencyKey q \<and>
       p_RequestedBy p \<noteq> None \<and> p_IdempotencyKey p \<noteq> [] \<longrightarrow> p = q) \<and>
    distinct (map ap_UserID (p_Approvals p)) \<and>
    (\<exists>e. env_of db (p_EnvironmentID p) = Some e) \<and>
    list_all2 (\<lambda>h r. ed_PromotionID h = p_ID r \<and> ed_EnvironmentID h = p_EnvironmentID r \<and> ed_SHA h = p_SHA r \<and>
        (ed_Status h = EnvDeploymentStatus (p_Status r) \<or>
         p_Status r = StatusExpired \<and> ed_Status h \<in> {''pending_approval'', ''waiting'', ''queued''}))
      (db_hist db) (db_promos db)"
proof -
  have wf: "store_wf db" using assms(1) by (rule reached_wf)
  have eq: "p = q" if "p_ID p = p_ID q" using that assms(2,3) wf_ids [OF wf] by (auto simp: distinct_map inj_on_def)
  have one: "one_of same_queue db" "one_of same_active db" "one_of same_key db" using wf by (simp_all add: store_wf_def)
  obtain e where "e \<in> set (db_envs db)" "env_ID e = p_EnvironmentID p" using wf assms(2) by (auto simp: store_wf_def keys_ok_def)
  then have env: "env_of db (p_EnvironmentID p) = Some e" using env_of_member [OF wf_keys [OF wf]] by metis
  have "list_all2 (\<lambda>h r. shown (hkey h) r) (db_hist db) (db_promos db)" using wf by (simp add: store_wf_def mirror_hist)
  then have hist: "list_all2 (\<lambda>h r. ed_PromotionID h = p_ID r \<and> ed_EnvironmentID h = p_EnvironmentID r \<and> ed_SHA h = p_SHA r \<and>
        (ed_Status h = EnvDeploymentStatus (p_Status r) \<or>
         p_Status r = StatusExpired \<and> ed_Status h \<in> {''pending_approval'', ''waiting'', ''queued''})) (db_hist db) (db_promos db)"
    by (rule list_all2_mono) (auto simp: shown_def hkey_def EnvDeploymentStatus_def status_string_def)
  have uniq: "same_queue p q \<or> same_active p q \<or> same_key p q \<longrightarrow> p = q" using one eq assms(2,3) unfolding one_of_def by metis
  have "(p_EnvironmentID p = p_EnvironmentID q \<and> p_Status p = StatusDeploying \<and> p_Status q = StatusDeploying \<longrightarrow> p = q) \<and>
    (p_EnvironmentID p = p_EnvironmentID q \<and> p_SHA p = p_SHA q \<and> IsActive (p_Status p) \<and> IsActive (p_Status q) \<longrightarrow> p = q) \<and>
    (p_ProjectID p = p_ProjectID q \<and> p_RequestedBy p = p_RequestedBy q \<and> p_IdempotencyKey p = p_IdempotencyKey q \<and>
       p_RequestedBy p \<noteq> None \<and> p_IdempotencyKey p \<noteq> [] \<longrightarrow> p = q)"
    using uniq unfolding same_queue_def same_active_def same_key_def by metis
  then show ?thesis using env hist wf_voters [OF wf assms(2)] by blast
qed

theorem tables_consistent_witness:
  "reached True ex_db4 \<and> map p_Status (db_promos ex_db4) = [StatusDeploying] \<and>
   list_all2 (\<lambda>h r. ed_PromotionID h = p_ID r \<and> ed_EnvironmentID h = p_EnvironmentID r \<and> ed_SHA h = p_SHA r \<and>
        (ed_Status h = EnvDeploymentStatus (p_Status r) \<or>
         p_Status r = StatusExpired \<and> ed_Status h \<in> {''pending_approval'', ''waiting'', ''queued''})) (db_hist ex_db4) (db_promos ex_db4)"
  using tables_consistent [OF ex_reached(4) conjunct1 conjunct1, OF ex_promo ex_promo, OF ex_statuses(2) ex_statuses(2)] ex_reached(4) ex_statuses(2)
  by blast

text \<open>The exception is real. When the loop is stopped between the two statements, the promotion is expired and its
  row of the history keeps the old state; later ticks do not repair it, since they expire nothing twice.\<close>

definition ex_lag :: EDB where "ex_lag = snd (expire_rows (2 + ExpiryAfter) ex_db2)"

theorem expiry_lags:
  "reached True ex_lag \<and> map p_Status (db_promos ex_lag) = [StatusExpired] \<and> map ed_Status (db_hist ex_lag) = [''pending_approval''] \<and>
   map ed_Status (db_hist (Tick (ex_ext (3 + ExpiryAfter)) ex_lag)) = [''pending_approval'']"
proof (intro conjI)
  show "reached True ex_lag" unfolding ex_lag_def by (rule reached_step [OF ex_reached(2) S_ExpireRows])
qed code_simp+

section \<open>Approvals\<close>

lemma card_counted:
  assumes "store_wf db" "p \<in> set (db_promos db)"
  shows "CountApprovals e p = int (card (ap_UserID ` set (filter (counts e) (p_Approvals p))))"
proof -
  have "distinct (map ap_UserID (filter (counts e) (p_Approvals p)))" using wf_voters [OF assms] by (simp add: distinct_map_filter)
  then have "card (set (map ap_UserID (filter (counts e) (p_Approvals p)))) = length (map ap_UserID (filter (counts e) (p_Approvals p)))"
    by (rule distinct_card)
  then show ?thesis by (simp add: CountApprovals_eq)
qed

text \<open>
  C5 (safety). While policies are not replaced, a promotion that waits, is approved, is being deployed or
  was deployed has the approvals its environment requires: at least that many different people approved,
  each of them a listed approver with a role in the project, an administrator where the environment is
  production, and not the requester unless the environment allows self-approval.
\<close>

theorem quorum_safety:
  assumes "reached False db" "p \<in> set (db_promos db)"
    and "p_Status p \<in> {StatusWaiting, StatusApproved, StatusDeploying, StatusSuccess, StatusFailed}"
  shows "\<exists>e. env_of db (p_EnvironmentID p) = Some e \<and>
    env_RequiredApprovals e \<le> int (card (ap_UserID ` set (filter (counts e) (p_Approvals p)))) \<and>
    (\<forall>a \<in> set (filter (counts e) (p_Approvals p)). \<exists>u. ap_UserID a = Some u \<and> ap_Decision a = ''approved'' \<and>
       ap_Role a \<noteq> [] \<and> IsApprover e u (ap_Role a) \<and> (env_Kind e = ''production'' \<longrightarrow> ap_Role a = RoleAdmin) \<and>
       (p_RequestedBy p = Some u \<longrightarrow> env_AllowSelfApproval e))"
proof -
  have wf: "store_wf db" using assms(1) by (rule reached_wf)
  obtain e where e: "env_of db (p_EnvironmentID p) = Some e" and h: "holds_policy e p"
    using reached_policy [OF assms(1)] assms(2) by (auto simp: policy_inv_def)
  have "quorum e p" using h assms(3) unfolding holds_policy_def by blast
  moreover have "\<exists>u. ap_UserID a = Some u \<and> ap_Decision a = ''approved'' \<and> ap_Role a \<noteq> [] \<and> IsApprover e u (ap_Role a) \<and>
       (env_Kind e = ''production'' \<longrightarrow> ap_Role a = RoleAdmin) \<and> (p_RequestedBy p = Some u \<longrightarrow> env_AllowSelfApproval e)"
    if "a \<in> set (p_Approvals p)" "counts e a" for a
  proof -
    have "approval_ok e p a" using h that(1) by (simp add: holds_policy_def)
    then show ?thesis using that(2) by (simp add: approval_ok_def counts_def split: option.splits)
  qed
  ultimately show ?thesis using e card_counted [OF wf assms(2)] by (auto simp: quorum_def)
qed

theorem quorum_safety_witness:
  "\<exists>e. env_of ex_db4 (p_EnvironmentID (hd (db_promos ex_db4))) = Some e \<and>
     env_RequiredApprovals e \<le> int (card (ap_UserID ` set (filter (counts e) (p_Approvals (hd (db_promos ex_db4))))))"
  using quorum_safety [OF ex_reached(4), of "hd (db_promos ex_db4)"] ex_promo [OF ex_statuses(2)] by blast

section \<open>Final states\<close>

text \<open>
  C14 (safety). A promotion that succeeded, failed, was rejected, cancelled or expired never changes again,
  whatever is served later: the same row is still there (the id of its deployment apart), or its
  environment has been deleted meanwhile, which the audit log records.
\<close>

theorem final_is_final:
  assumes "reached pc db" "(serve pc)\<^sup>*\<^sup>* db db'" "p \<in> set (db_promos db)" "\<not> IsActive (p_Status p)"
  shows "(\<exists>p' \<in> set (db_promos db'). p'\<lparr> p_DeploymentID := None \<rparr> = p\<lparr> p_DeploymentID := None \<rparr>) \<or>
    (\<exists>a \<in> set (drop (length (db_audit db)) (db_audit db')). au_Action a = ''environment.delete'' \<and> au_ResourceID a = p_EnvironmentID p)"
proof -
  have "final_kept db db'" using finality.evolves [OF serves_txns [OF assms(2)]] reached_wf [OF assms(1)] by blast
  then have "settled p \<in> settled ` set (db_promos db') \<or> deleted_since db db' (p_EnvironmentID p)"
    using assms(3,4) by (simp add: final_kept_def)
  then show ?thesis
  proof
    assume "settled p \<in> settled ` set (db_promos db')"
    then obtain p' where "p' \<in> set (db_promos db')" "settled p' = settled p" by (metis imageE)
    then show ?thesis unfolding settled_def by blast
  next
    assume "deleted_since db db' (p_EnvironmentID p)"
    then show ?thesis unfolding deleted_since_def list_ex_iff by blast
  qed
qed

theorem final_is_final_witness:
  "reached True ex_db5 \<and> (\<exists>p' \<in> set (db_promos (Tick (ex_ext 6) ex_db5)). p'\<lparr> p_DeploymentID := None \<rparr> = (hd (db_promos ex_db5))\<lparr> p_DeploymentID := None \<rparr>)"
proof -
  have "(serve True)\<^sup>*\<^sup>* ex_db5 (Tick (ex_ext 6) ex_db5)" by (intro r_into_rtranclp S_Tick)
  moreover have "\<not> IsActive (p_Status (hd (db_promos ex_db5)))" using ex_promo [OF ex_statuses(3)] by (simp add: IsActive_def)
  moreover have "db_audit (Tick (ex_ext 6) ex_db5) = db_audit ex_db5" by code_simp
  ultimately show ?thesis
    using final_is_final [OF ex_reached(5), of True "Tick (ex_ext 6) ex_db5" "hd (db_promos ex_db5)"] ex_promo [OF ex_statuses(3)] ex_reached(5)
    by simp
qed

section \<open>Expiry\<close>

lemma list_all2_left: "list_all2 P xs ys \<Longrightarrow> x \<in> set xs \<Longrightarrow> \<exists>y \<in> set ys. P x y"
  by (metis in_set_conv_nth list_all2_conv_all_nth)

lemma list_all2_right: "list_all2 P xs ys \<Longrightarrow> y \<in> set ys \<Longrightarrow> \<exists>x \<in> set xs. P x y"
  by (metis in_set_conv_nth list_all2_conv_all_nth)

lemma edge_open: "edge\<^sup>*\<^sup>* f t \<Longrightarrow> t \<in> {StatusPending, StatusWaiting, StatusApproved} \<Longrightarrow> f \<in> {StatusPending, StatusWaiting, StatusApproved}"
  by (induction rule: converse_rtranclp_induct) (auto simp: edge_def)

text \<open>
  C15 (liveness). One tick settles every promotion whose 72 hours are over: it ends expired, with the time of
  the tick as its end, whatever its other conditions are, and after the tick no undecided, waiting or
  approved promotion is overdue.
\<close>

theorem Tick_expires:
  assumes "reached pc db"
  shows "(\<forall>p \<in> set (db_promos db). p_Status p \<in> {StatusPending, StatusWaiting, StatusApproved} \<and> p_ExpiresAt p \<le> x_now x \<longrightarrow>
       (\<exists>p' \<in> set (db_promos (Tick x db)). p_ID p' = p_ID p \<and> p_Status p' = StatusExpired \<and> p_FinishedAt p' = Some (x_now x))) \<and>
    (\<forall>p' \<in> set (db_promos (Tick x db)). p_Status p' \<in> {StatusPending, StatusWaiting, StatusApproved} \<longrightarrow> x_now x < p_ExpiresAt p')"
proof -
  let ?db1 = "snd (ExpireOverdue (x_now x) db)"
  have wf: "store_wf db" using assms by (rule reached_wf)
  have promos: "db_promos ?db1 = map (\<lambda>p. if overdue (x_now x) p then expire (x_now x) p else p) (db_promos db)"
    using ExpireOverdue_rows [OF wf_ids [OF wf]] by (simp add: rows_def)
  have ev: "list_all2 evolves (db_promos ?db1) (db_promos (Tick x db))"
    using Tick_safe [OF wf, of True x] store_wf_ExpireOverdue [OF wf] by (simp add: safe_def)
  have "\<exists>p' \<in> set (db_promos (Tick x db)). p_ID p' = p_ID p \<and> p_Status p' = StatusExpired \<and> p_FinishedAt p' = Some (x_now x)"
    if "p \<in> set (db_promos db)" "overdue (x_now x) p" for p
  proof -
    have "expire (x_now x) p \<in> set (db_promos ?db1)" using that by (force simp: promos)
    then obtain p' where p': "p' \<in> set (db_promos (Tick x db))" "evolves (expire (x_now x) p) p'" using list_all2_left [OF ev] by blast
    have "settled p' = settled (expire (x_now x) p)" using p'(2) by (simp add: evolves_def expire_def IsActive_def)
    then have "p_ID p' = p_ID p \<and> p_Status p' = StatusExpired \<and> p_FinishedAt p' = Some (x_now x)"
      by (drule_tac arg_cong [where f = "\<lambda>p. (p_ID p, p_Status p, p_FinishedAt p)"]) (simp add: settled_def expire_def)
    then show ?thesis using p'(1) by blast
  qed
  moreover have "x_now x < p_ExpiresAt p'"
    if p': "p' \<in> set (db_promos (Tick x db))" and st: "p_Status p' \<in> {StatusPending, StatusWaiting, StatusApproved}" for p'
  proof -
    obtain q where q: "q \<in> set (db_promos ?db1)" "evolves q p'" using list_all2_right [OF ev p'] by blast
    have "p_Status q \<in> {StatusPending, StatusWaiting, StatusApproved}" "p_ExpiresAt p' = p_ExpiresAt q"
      using q(2) st edge_open [of "p_Status q" "p_Status p'"] by (simp_all add: evolves_def fixed_cols_def)
    then show ?thesis using q(1) by (auto simp: promos overdue_def expire_def split: if_splits)
  qed
  ultimately show ?thesis by (simp add: overdue_def)
qed

theorem Tick_expires_witness:
  "map p_Status (db_promos ex_db2) = [StatusPending] \<and>
   (\<exists>p' \<in> set (db_promos (Tick (ex_ext (2 + ExpiryAfter)) ex_db2)). p_ID p' = 2 \<and> p_Status p' = StatusExpired)"
proof -
  have "p_ID (hd (db_promos ex_db2)) = 2" "p_ExpiresAt (hd (db_promos ex_db2)) = 2 + ExpiryAfter" by code_simp+
  moreover have "x_now (ex_ext (2 + ExpiryAfter)) = 2 + ExpiryAfter" by (simp add: ex_ext_def)
  ultimately show ?thesis
    using Tick_expires [OF ex_reached(2), of "ex_ext (2 + ExpiryAfter)"] ex_promo [OF ex_statuses(1)] ex_statuses(1) by force
qed

end
