(* ===== verification/Env_Queue.thy ===== *)
theory Env_Queue
  imports Env_Service
begin

text \<open>
  What one tick starts and what it finishes. \<open>only i\<close> says that a change touches the promotion \<open>i\<close> and no other
  row; \<open>no_start\<close> says that nothing new is being deployed and that only what was being deployed succeeds; \<open>no_success\<close>
  that nothing succeeds. With them the scan of a tick is followed row by row:
  each listed promotion is still the stored one when its turn comes.
\<close>

definition only :: "uuid \<Rightarrow> EDB \<Rightarrow> EDB \<Rightarrow> bool" where
  "only i db db' \<longleftrightarrow> (\<forall>q. p_ID q \<noteq> i \<longrightarrow> (q \<in> set (db_promos db') \<longleftrightarrow> q \<in> set (db_promos db))) \<and> db_envs db' = db_envs db"

definition no_start :: "EDB \<Rightarrow> EDB \<Rightarrow> bool" where
  "no_start db db' \<longleftrightarrow> (\<forall>q' \<in> set (db_promos db').
     (p_Status q' = StatusDeploying \<longrightarrow> (\<exists>q \<in> set (db_promos db). p_ID q = p_ID q' \<and> p_Status q = StatusDeploying)) \<and>
     (p_Status q' = StatusSuccess \<longrightarrow> (\<exists>q \<in> set (db_promos db). p_ID q = p_ID q' \<and> p_Status q \<in> {StatusSuccess, StatusDeploying})))"

definition no_success :: "EDB \<Rightarrow> EDB \<Rightarrow> bool" where
  "no_success db db' \<longleftrightarrow> (\<forall>q' \<in> set (db_promos db'). p_Status q' = StatusSuccess \<longrightarrow>
     (\<exists>q \<in> set (db_promos db). p_ID q = p_ID q' \<and> p_Status q = StatusSuccess))"

lemma only_refl [simp, intro]: "only i db db"
  by (simp add: only_def)

lemma only_trans: "only i a b \<Longrightarrow> only i b c \<Longrightarrow> only i a c"
  by (simp add: only_def)

lemma no_start_refl [simp, intro]: "no_start db db"
  by (auto simp: no_start_def)

lemma no_start_trans:
  assumes ab: "no_start a b" and bc: "no_start b c"
  shows "no_start a c"
  unfolding no_start_def
proof (intro ballI conjI impI)
  fix q assume q: "q \<in> set (db_promos c)"
  have dep: "\<exists>r \<in> set (db_promos a). p_ID r = p_ID q \<and> p_Status r = StatusDeploying"
    if "r \<in> set (db_promos b)" "p_ID r = p_ID q" "p_Status r = StatusDeploying" for r using ab that unfolding no_start_def by metis
  show "\<exists>r \<in> set (db_promos a). p_ID r = p_ID q \<and> p_Status r = StatusDeploying" if "p_Status q = StatusDeploying"
    using bc q that dep unfolding no_start_def by metis
  assume "p_Status q = StatusSuccess"
  then obtain r where r: "r \<in> set (db_promos b)" "p_ID r = p_ID q" "p_Status r \<in> {StatusSuccess, StatusDeploying}"
    using bc q unfolding no_start_def by metis
  show "\<exists>r \<in> set (db_promos a). p_ID r = p_ID q \<and> p_Status r \<in> {StatusSuccess, StatusDeploying}"
  proof (cases "p_Status r = StatusDeploying")
    case True then show ?thesis using dep [OF r(1,2)] by auto
  next
    case False then show ?thesis using ab r unfolding no_start_def by (metis insertE singletonD)
  qed
qed

lemma no_success_refl [simp, intro]: "no_success db db"
  by (auto simp: no_success_def)

lemma no_success_trans: "no_success a b \<Longrightarrow> no_success b c \<Longrightarrow> no_success a c"
  unfolding no_success_def by metis

lemma only_upd: "(\<And>p. p_ID (f p) = p_ID p) \<Longrightarrow> p_ID q \<noteq> i \<Longrightarrow> q \<in> set (upd_promo i f ps) \<longleftrightarrow> q \<in> set ps"
  by (auto simp: upd_promo_def image_iff split: if_splits)

lemma only_Transition: "only i db (snd (Transition i from to pt oa db))"
  by (auto simp: Transition_def Let_def only_def only_upd apply_patch_def split: option.split)

lemma only_SetDeployment: "only i db (SetDeployment i dep db)"
  by (simp add: only_def SetDeployment_def only_upd)

lemma only_deploy_Create: "only i db (snd (deploy_Create r db))"
  by (simp add: only_def deploy_Create_def)

lemma no_start_rows:
  "rows db db' g \<Longrightarrow> (\<And>p. p \<in> set (db_promos db) \<Longrightarrow> p_Status (g p) = StatusDeploying \<Longrightarrow> p_Status p = StatusDeploying) \<Longrightarrow>
   (\<And>p. p \<in> set (db_promos db) \<Longrightarrow> p_Status (g p) = StatusSuccess \<Longrightarrow> p_Status p \<in> {StatusSuccess, StatusDeploying}) \<Longrightarrow> no_start db db'"
  by (auto simp: no_start_def rows_def fixed_cols_def)

lemma no_success_rows:
  "rows db db' g \<Longrightarrow> (\<And>p. p \<in> set (db_promos db) \<Longrightarrow> p_Status (g p) = StatusSuccess \<Longrightarrow> p_Status p = StatusSuccess) \<Longrightarrow> no_success db db'"
  by (auto simp: no_success_def rows_def fixed_cols_def)

lemma no_start_Transition:
  assumes "store_wf db" "to \<noteq> StatusDeploying" "to = StatusSuccess \<longrightarrow> set from \<subseteq> {StatusDeploying}"
  shows "no_start db (snd (Transition i from to pt oa db))"
proof (cases rule: Transition_cases [OF wf_ids [OF assms(1)], of i "from" to pt oa])
  case (2 p db')
  have "no_start db db'" by (rule no_start_rows [OF 2(5)]) (use assms(2,3) 2(4) in \<open>auto simp: apply_patch_def split: if_splits\<close>)
  then show ?thesis using 2(1) by simp
qed simp

lemma no_success_Transition:
  assumes "store_wf db" "to \<noteq> StatusSuccess"
  shows "no_success db (snd (Transition i from to pt oa db))"
proof (cases rule: Transition_cases [OF wf_ids [OF assms(1)], of i "from" to pt oa])
  case (2 p db')
  have "no_success db db'" by (rule no_success_rows [OF 2(5)]) (use assms(2) in \<open>auto simp: apply_patch_def split: if_splits\<close>)
  then show ?thesis using 2(1) by simp
qed simp

lemma no_start_SetDeployment: "no_start db (SetDeployment i dep db)"
  by (rule no_start_rows [OF SetDeployment_rows]) (auto split: if_splits)

lemma no_success_SetDeployment: "no_success db (SetDeployment i dep db)"
  by (rule no_success_rows [OF SetDeployment_rows]) (auto split: if_splits)

lemma deploy_Create_promos: "db_promos (snd (deploy_Create r db)) = db_promos db"
  by (simp add: deploy_Create_def)

lemma no_start_deploy_Create: "no_start db (snd (deploy_Create r db))"
  by (auto simp: no_start_def deploy_Create_promos)

lemma Deploy_promos: "db_promos (snd (Deploy x i pid a who db)) = db_promos db"
  by (simp add: Deploy_def case_prod_unfold deploy_Create_promos split: sum.split)

lemma no_success_launch:
  assumes "store_wf db"
  shows "no_success db (launch_deployment x env p art db)"
proof (cases "Deploy x (p_ID p) (env_TargetProjectID env) art (p_RequestedBy p) db")
  case (Pair r db')
  have d: "no_success db db'" using Deploy_promos [of x "p_ID p" "env_TargetProjectID env" art "p_RequestedBy p" db] Pair by (auto simp: no_success_def)
  have "store_wf db'" using safe_wf [OF Deploy_safe assms] Pair by (metis snd_conv)
  then have "no_success db' (snd (finish x p StatusFailed reason [] db'))" for reason
    using no_success_Transition [of db' StatusFailed] by (simp add: finish_def split: prod.split bool.split) (metis snd_conv)
  then show ?thesis using no_success_trans [OF d] no_success_SetDeployment by (auto simp: launch_deployment_def Pair split: sum.split)
qed

text \<open>A change by the loop to promotion \<open>i\<close> that starts nothing.\<close>

definition minor :: "uuid \<Rightarrow> EDB \<Rightarrow> EDB \<Rightarrow> bool" where
  "minor i db db' \<longleftrightarrow> only i db db' \<and> (store_wf db \<longrightarrow> no_start db db') \<and> safe True db db'"

lemma minor_refl [simp, intro]: "minor i db db"
  by (simp add: minor_def)

lemma minor_trans: "minor i a b \<Longrightarrow> minor i b c \<Longrightarrow> minor i a c"
  unfolding minor_def by (metis no_start_trans only_trans safe_trans safe_wf)

lemma minor_finish:
  assumes "to \<in> {StatusSuccess, StatusFailed}"
  shows "minor (p_ID p) db (snd (finish x p to reason health db))"
proof -
  let ?T = "Transition (p_ID p) [StatusDeploying] to (zero_Patch\<lparr> pt_Reason := reason, pt_FinishedAt := Some (x_now x), pt_Health := health \<rparr>)
      (Some (audit None ''promotion.complete'' (p_ID p))) db"
  have "snd (finish x p to reason health db) = snd ?T" by (simp add: finish_def split: prod.split bool.split)
  moreover have "no_start db (snd ?T)" if "store_wf db" by (rule no_start_Transition [OF that]) (use assms in auto)
  ultimately show ?thesis using only_Transition finish_safe [OF assms, of True db] unfolding minor_def by metis
qed

lemma minor_launch: "minor (p_ID p) db (launch_deployment x env p art db)"
proof (cases "Deploy x (p_ID p) (env_TargetProjectID env) art (p_RequestedBy p) db")
  case (Pair r db')
  have "minor (p_ID p) db (snd (deploy_Create row db))" for row
    by (simp add: minor_def only_deploy_Create no_start_deploy_Create safe_deploy_Create)
  then have "minor (p_ID p) db (snd (Deploy x (p_ID p) (env_TargetProjectID env) art (p_RequestedBy p) db))"
    by (simp add: Deploy_def case_prod_unfold split: sum.split)
  then have d: "minor (p_ID p) db db'" using Pair by simp
  moreover have "minor (p_ID p) db' (SetDeployment (p_ID p) dep db')" for dep
    by (simp add: minor_def only_SetDeployment no_start_SetDeployment safe_SetDeployment)
  ultimately show ?thesis using minor_finish [of StatusFailed p db'] by (auto simp: launch_deployment_def Pair split: sum.split intro: minor_trans)
qed

lemma minor_poll: "minor (p_ID p) db (snd (poll x env p db))"
  by (auto simp: poll_def split: option.split intro!: minor_launch minor_finish)

text \<open>\<^verbatim>\<open>advance\<close> on a stored promotion: the move of \<^verbatim>\<open>Advance\<close> is made, never lost.\<close>

lemma fst_Advance_not_deploying:
  "p_Status p \<in> {StatusPending, StatusWaiting, StatusApproved} \<Longrightarrow> fst (Advance tz local env p now) \<noteq> StatusDeploying"
  using NextAfterQuorum_status [of tz local env now now]
    NextAfterQuorum_status [of tz local env "case p_QuorumAt p of None \<Rightarrow> now | Some q \<Rightarrow> q" now]
  unfolding fst_Advance by (elim insertE emptyE) simp_all

lemma Transition_stored:
  assumes "store_wf db" "p \<in> set (db_promos db)" "to \<noteq> StatusDeploying"
  shows "fst (Transition (p_ID p) [p_Status p] to pt oa db)"
proof -
  obtain y where y: "find (\<lambda>y. p_ID y = p_ID p) (db_promos db) = Some y"
    using assms(2) by (cases "find (\<lambda>y. p_ID y = p_ID p) (db_promos db)") (auto simp: find_None_iff)
  have "y = p" using find_by_id [OF wf_ids [OF assms(1)] y] assms(2) by blast
  then show ?thesis using y assms(3) by (simp add: Transition_def Let_def)
qed

lemma unchanged_Advance: "Advance tz local env p now = (st, nb, q, False) \<Longrightarrow> st = p_Status p"
  by (auto simp: Advance_def Let_def case_prod_unfold split: if_splits)

lemma advance_stored:
  assumes wf: "store_wf db" and p: "p \<in> set (db_promos db)" and st: "p_Status p \<in> {StatusPending, StatusWaiting, StatusApproved}"
    and e: "env_of db (p_EnvironmentID p) = Some env"
  shows "p_Status (fst (advance x env p db)) = fst (Advance (x_tz x) (x_local x) env p (x_now x))"
    and "minor (p_ID p) db (snd (advance x env p db))"
proof -
  obtain s nb q ch where A: "Advance (x_tz x) (x_local x) env p (x_now x) = (s, nb, q, ch)" by (cases "Advance (x_tz x) (x_local x) env p (x_now x)") auto
  let ?T = "Transition (p_ID p) [p_Status p] s (zero_Patch\<lparr> pt_NotBefore := nb, pt_QuorumAt := q, pt_Required := Some (env_RequiredApprovals env) \<rparr>) None db"
  have s: "s \<noteq> StatusDeploying" using fst_Advance_not_deploying [OF st, of "x_tz x" "x_local x" env "x_now x"] A by simp
  have s': "s = StatusSuccess \<longrightarrow> set [p_Status p] \<subseteq> {StatusDeploying}" using Advance_edge(1) [OF st A] st by (auto simp: edge_def)
  obtain db' where T: "?T = (True, db')" using Transition_stored [OF wf p s] by (metis eq_fst_iff)
  have adv: "advance x env p db = (if \<not> ch \<and> p_RequiredApprovals p = env_RequiredApprovals env then (p, db)
      else (p\<lparr> p_Status := s, p_NotBefore := nb, p_QuorumAt := q, p_RequiredApprovals := env_RequiredApprovals env \<rparr>, db'))"
    by (simp add: advance_def A Let_def T)
  show "p_Status (fst (advance x env p db)) = fst (Advance (x_tz x) (x_local x) env p (x_now x))"
    using unchanged_Advance [of "x_tz x" "x_local x" env p "x_now x" s nb q] A by (simp add: adv)
  have "only (p_ID p) db db'" "no_start db db'" using only_Transition no_start_Transition [OF wf s s'] T by (metis snd_conv)+
  then show "minor (p_ID p) db (snd (advance x env p db))"
    using advance_safe [OF wf listed_member [OF p] e st, of True x] by (auto simp: minor_def adv)
qed

section \<open>The scan\<close>

definition may_start :: "Ext \<Rightarrow> EDB \<Rightarrow> Environment \<Rightarrow> Promotion \<Rightarrow> bool" where
  "may_start x db env np \<longleftrightarrow> (\<exists>p \<in> set (db_promos db). p_ID p = p_ID np \<and> p_SHA p = p_SHA np \<and> p_FromEnvironment p = p_FromEnvironment np \<and>
     p_EnvironmentID p = env_ID env \<and> env_of db (env_ID env) = Some env \<and>
     p_Status p \<in> {StatusPending, StatusWaiting, StatusApproved} \<and> fst (Advance (x_tz x) (x_local x) env p (x_now x)) = StatusApproved)"

definition scanned :: "Ext \<Rightarrow> EDB \<Rightarrow> TickState \<Rightarrow> Promotion list \<Rightarrow> bool" where
  "scanned x db s todo \<longleftrightarrow> safe True db (ts_db s) \<and> no_start db (ts_db s) \<and> set todo \<subseteq> set (db_promos (ts_db s)) \<and>
     (\<forall>i env. env_of db i = Some env \<longrightarrow> (\<forall>np \<in> set (gomap_at [] (ts_ready s) i). may_start x db env np))"

lemma env_of_ID: "env_of db i = Some e \<Longrightarrow> env_ID e = i"
  by (auto simp: env_of_def find_Some_iff)

lemma advance_cols: "p_SHA (fst (advance x env p db)) = p_SHA p" "p_FromEnvironment (fst (advance x env p db)) = p_FromEnvironment p"
  by (simp_all add: advance_def Let_def case_prod_unfold split: bool.split)

lemma scan_step:
  assumes wf: "store_wf db" and sc: "scanned x db s (p # todo)" and p: "p \<in> set (db_promos db)" "IsActive (p_Status p)"
    and d: "distinct (map p_ID (p # todo))"
  shows "scanned x db (tick_one x s p) todo"
proof -
  have safe: "safe True db (ts_db s)" and ns: "no_start db (ts_db s)" and todo: "set (p # todo) \<subseteq> set (db_promos (ts_db s))"
    and ready: "\<And>i env np. env_of db i = Some env \<Longrightarrow> np \<in> set (gomap_at [] (ts_ready s) i) \<Longrightarrow> may_start x db env np"
    using sc by (auto simp: scanned_def)
  have wf': "store_wf (ts_db s)" using safe_wf [OF safe wf] .
  have step: "scanned x db s' todo"
    if "minor (p_ID p) (ts_db s) (ts_db s')" "\<And>i env np. env_of db i = Some env \<Longrightarrow> np \<in> set (gomap_at [] (ts_ready s') i) \<Longrightarrow> may_start x db env np" for s'
  proof -
    have "q \<in> set (db_promos (ts_db s'))" if "q \<in> set todo" for q
    proof -
      have "p_ID q \<noteq> p_ID p" using that d by (metis distinct.simps(2) image_eqI list.simps(9) set_map)
      then show ?thesis using that todo \<open>minor (p_ID p) (ts_db s) (ts_db s')\<close> by (simp add: minor_def only_def subset_iff)
    qed
    moreover have "safe True db (ts_db s')" "no_start db (ts_db s')"
      using that(1) safe ns wf' safe_trans no_start_trans by (auto simp: minor_def)
    ultimately show ?thesis using that(2) by (auto simp: scanned_def)
  qed
  show ?thesis
  proof (cases "store_GetEnvByID (ts_db s) (p_EnvironmentID p)")
    case (Inl e) then show ?thesis using step [of s] ready by (simp add: tick_one_def)
  next
    case (Inr env)
    then have e': "env_of (ts_db s) (p_EnvironmentID p) = Some env" by (simp add: GetEnvByID_env_of)
    then have e: "env_of db (p_EnvironmentID p) = Some env" using env_of_frame [OF safe_frame [OF safe]] by simp
    show ?thesis
    proof (cases "p_Status p = StatusDeploying")
      case True
      then show ?thesis using step [of "tick_one x s p"] minor_poll [of p "ts_db s" x env] ready Inr by (simp add: tick_one_def Let_def case_prod_unfold)
    next
      case False
      then have st: "p_Status p \<in> {StatusPending, StatusWaiting, StatusApproved}" using p(2) by (auto simp: IsActive_def)
      note adv = advance_stored [OF wf' _ st e', of x]
      let ?np = "fst (advance x env p (ts_db s))"
      have "may_start x db env ?np" if "p_Status ?np = StatusApproved"
        using that adv(1) todo p(1) st e env_of_ID [OF e] by (auto simp: may_start_def advance_same advance_cols)
      then have "may_start x db env' np" if "np \<in> set (gomap_at [] (ts_ready (tick_one x s p)) i)" "env_of db i = Some env'" for i env' np
        using that ready [OF that(2)] e env_of_ID [OF e] False Inr by (auto simp: tick_one_def Let_def case_prod_unfold split: if_splits)
      then show ?thesis using step [of "tick_one x s p"] adv(2) todo False Inr by (simp add: tick_one_def Let_def case_prod_unfold)
    qed
  qed
qed

lemma scan_fold:
  assumes "store_wf db" "scanned x db s (ps @ qs)" "set ps \<subseteq> set (db_promos db)" "\<forall>p \<in> set ps. IsActive (p_Status p)" "distinct (map p_ID (ps @ qs))"
  shows "scanned x db (foldl (tick_one x) s ps) qs"
  using assms(2-5)
proof (induction ps arbitrary: s)
  case (Cons p ps)
  have "scanned x db (tick_one x s p) (ps @ qs)" using scan_step [OF assms(1), of x s p "ps @ qs"] Cons.prems by auto
  then show ?case using Cons by simp
qed simp

lemma ListActive_distinct: "store_wf db \<Longrightarrow> distinct (map p_ID (store_ListActive db n))"
  using wf_ids [of db] unfolding store_ListActive_def by_creation_def distinct_map
  by (auto intro!: distinct_take elim!: inj_on_subset dest!: in_set_takeD)

lemma ListActive_stored: "set (store_ListActive db n) \<subseteq> set (db_promos db)" "\<forall>p \<in> set (store_ListActive db n). IsActive (p_Status p)"
  by (auto simp: store_ListActive_def by_creation_def dest!: in_set_takeD)

lemma scan_prefix:
  assumes "store_wf db" "store_ListActive db n = ps @ qs"
  shows "scanned x db (foldl (tick_one x) \<lparr> ts_db = db, ts_busy = [], ts_ready = [], ts_order = [] \<rparr> ps) qs"
proof (rule scan_fold [OF assms(1)])
  show "scanned x db \<lparr> ts_db = db, ts_busy = [], ts_ready = [], ts_order = [] \<rparr> (ps @ qs)"
    using ListActive_stored(1) [of db n] by (simp add: scanned_def assms(2))
qed (use ListActive_stored [of db n] ListActive_distinct [OF assms(1), of n] in \<open>auto simp: assms(2)\<close>)

lemma tick_scanned:
  assumes "store_wf db"
  shows "scanned x (snd (ExpireOverdue (x_now x) db)) (tick_scan x db) []"
  using scan_prefix [OF store_wf_ExpireOverdue [OF assms], where n = 500 and qs = "[]"] by (simp add: tick_scan_def Let_def)

section \<open>The start\<close>

text \<open>What a promotion that succeeds in a tick was before it.\<close>

definition succeeds_only :: "EDB \<Rightarrow> EDB \<Rightarrow> bool" where
  "succeeds_only db db' \<longleftrightarrow> (\<forall>q' \<in> set (db_promos db'). p_Status q' = StatusSuccess \<longrightarrow>
     (\<exists>q \<in> set (db_promos db). p_ID q = p_ID q' \<and> p_Status q \<in> {StatusSuccess, StatusDeploying}))"

lemma succeeds_only_no_success: "succeeds_only a b \<Longrightarrow> no_success b c \<Longrightarrow> succeeds_only a c"
  unfolding succeeds_only_def no_success_def by metis

text \<open>The history of what succeeded is not rewritten by a start.\<close>

definition keeps_successes :: "EDB \<Rightarrow> EDB \<Rightarrow> bool" where
  "keeps_successes db db' \<longleftrightarrow> (\<forall>h \<in> set (db_hist db). ed_Status h = ''success'' \<longrightarrow> h \<in> set (db_hist db'))"

lemma keeps_successes_refl [simp, intro]: "keeps_successes db db"
  by (simp add: keeps_successes_def)

lemma keeps_successes_trans: "keeps_successes a b \<Longrightarrow> keeps_successes b c \<Longrightarrow> keeps_successes a c"
  by (simp add: keeps_successes_def)

lemma success_row:
  assumes "store_wf db" "h \<in> set (db_hist db)" "ed_Status h = ''success''"
  shows "\<exists>p \<in> set (db_promos db). p_ID p = ed_PromotionID h \<and> p_EnvironmentID p = ed_EnvironmentID h \<and> p_SHA p = ed_SHA h \<and> p_Status p = StatusSuccess"
proof -
  have "list_all2 (\<lambda>h p. shown (hkey h) p) (db_hist db) (db_promos db)" using assms(1) by (simp add: store_wf_def mirror_hist)
  then obtain p where p: "p \<in> set (db_promos db)" "shown (hkey h) p" using list_all2_left assms(2) by metis
  have "EnvDeploymentStatus st = ''success'' \<Longrightarrow> st = StatusSuccess" for st by (cases st) (simp_all add: EnvDeploymentStatus_def status_string_def)
  then show ?thesis using p assms(3) by (auto simp: shown_def hkey_def EnvDeploymentStatus_def status_string_def)
qed

lemma success_row_other:
  assumes "store_wf db" "h \<in> set (db_hist db)" "ed_Status h = ''success''" "p \<in> set (db_promos db)" "p_Status p \<noteq> StatusSuccess"
  shows "ed_PromotionID h \<noteq> p_ID p"
  using success_row [OF assms(1-3)] assms(4,5) wf_ids [OF assms(1)] by (auto simp: distinct_map inj_on_def)

lemma keeps_successes_Transition:
  assumes wf: "store_wf db" and "StatusSuccess \<notin> set from"
  shows "keeps_successes db (snd (Transition i from to pt oa db))"
proof (cases "fst (Transition i from to pt oa db)")
  case True
  then obtain p where f: "find (\<lambda>p. p_ID p = i) (db_promos db) = Some p" and st: "p_Status p \<in> set from"
    by (auto simp: Transition_def Let_def split: option.splits if_splits)
  note p = find_by_id [OF wf_ids [OF wf] f]
  have "ed_PromotionID h \<noteq> i" if "h \<in> set (db_hist db)" "ed_Status h = ''success''" for h
    using success_row_other [OF wf that p(1)] st assms(2) p(2) by metis
  then show ?thesis using True
    by (auto simp: Transition_def Let_def keeps_successes_def syncHistory_def envInsertAudit_def image_iff split: option.splits if_splits)
qed (auto simp: Transition_def Let_def split: option.splits if_splits)

lemma keeps_successes_SetDeployment:
  assumes "store_wf db" "p \<in> set (db_promos db)" "p_ID p = i" "p_Status p \<noteq> StatusSuccess"
  shows "keeps_successes db (SetDeployment i dep db)"
proof -
  have "ed_PromotionID h \<noteq> i" if "h \<in> set (db_hist db)" "ed_Status h = ''success''" for h
    using success_row_other [OF assms(1) that assms(2,4)] assms(3) by simp
  then show ?thesis by (auto simp: keeps_successes_def SetDeployment_def image_iff)
qed

lemma keeps_successes_launch:
  assumes wf: "store_wf db" and q: "q \<in> set (db_promos db)" "p_ID q = p_ID p" "p_Status q \<noteq> StatusSuccess"
  shows "keeps_successes db (launch_deployment x env p art db)"
proof (cases "Deploy x (p_ID p) (env_TargetProjectID env) art (p_RequestedBy p) db")
  case (Pair r db')
  have "db_hist db' = db_hist db" "db_promos db' = db_promos db"
    using Pair by (auto simp: Deploy_def deploy_Create_def split: sum.splits if_splits prod.splits)
  moreover have wf': "store_wf db'" using safe_wf [OF Deploy_safe wf] Pair by (metis snd_conv)
  moreover have "keeps_successes db' (snd (finish x p StatusFailed reason [] db'))" for reason
    using keeps_successes_Transition [OF wf', of "[StatusDeploying]"] by (simp add: finish_def split: prod.split bool.split) (metis snd_conv)
  ultimately show ?thesis using keeps_successes_SetDeployment [OF wf', of q "p_ID p"] q
    by (auto simp: launch_deployment_def Pair keeps_successes_def split: sum.split)
qed

text \<open>\<open>seen\<close> are the tables a start looks at in the middle of the tick that leads from \<open>db\<close> to \<open>db'\<close>.\<close>

definition seen :: "EDB \<Rightarrow> EDB \<Rightarrow> EDB \<Rightarrow> bool" where
  "seen db dbx db' \<longleftrightarrow> safe True db dbx \<and> succeeds_only db dbx \<and> safe True dbx db' \<and> keeps_successes dbx db'"

definition started :: "Ext \<Rightarrow> EDB \<Rightarrow> EDB \<Rightarrow> bool" where
  "started x db db' \<longleftrightarrow> (\<forall>q' \<in> set (db_promos db'). p_Status q' = StatusDeploying \<longrightarrow>
     (\<exists>q \<in> set (db_promos db). p_ID q = p_ID q' \<and> p_Status q = StatusDeploying) \<or>
     (\<exists>env np t res dbx. p_ID np = p_ID q' \<and> may_start x db env np \<and> seen db dbx db' \<and>
        store_Target dbx (env_ProjectID env) = Inr t \<and> checkStatic x t env (p_SHA np) (p_FromEnvironment np) dbx = Inr res))"

lemma seen_safe: "seen db dbx a \<Longrightarrow> safe True a b \<Longrightarrow> keeps_successes a b \<Longrightarrow> seen db dbx b"
  unfolding seen_def using safe_trans keeps_successes_trans by blast

lemma started_no_start:
  assumes s: "started x db a" and n: "no_start a b" and ab: "safe True a b" "keeps_successes a b"
  shows "started x db b"
  unfolding started_def
proof (intro ballI impI)
  fix q' assume "q' \<in> set (db_promos b)" "p_Status q' = StatusDeploying"
  then obtain q where "q \<in> set (db_promos a)" "p_ID q = p_ID q'" "p_Status q = StatusDeploying" using n unfolding no_start_def by metis
  then show "(\<exists>q \<in> set (db_promos db). p_ID q = p_ID q' \<and> p_Status q = StatusDeploying) \<or>
     (\<exists>env np t res dbx. p_ID np = p_ID q' \<and> may_start x db env np \<and> seen db dbx b \<and>
        store_Target dbx (env_ProjectID env) = Inr t \<and> checkStatic x t env (p_SHA np) (p_FromEnvironment np) dbx = Inr res)"
    using s seen_safe [OF _ ab] unfolding started_def by metis
qed

text \<open>The invariant of the starts.\<close>

definition starting :: "Ext \<Rightarrow> EDB \<Rightarrow> EDB \<Rightarrow> bool" where
  "starting x db a \<longleftrightarrow> store_wf a \<and> safe True db a \<and> succeeds_only db a \<and> started x db a"

lemma only_start: "only (p_ID np) a (snd (start_promotion x env np a))"
proof -
  have T: "only (p_ID np) a (snd (Transition (p_ID np) from to pt oa a))" for "from" to pt oa by (rule only_Transition)
  have "only (p_ID np) a (snd (case Transition (p_ID np) from to pt oa a of (False, db') \<Rightarrow> (True, db')
      | (True, db') \<Rightarrow> (True, launch_deployment x env (np\<lparr> p_Status := StatusDeploying \<rparr>) art db')))" for "from" to pt oa art
  proof (cases "Transition (p_ID np) from to pt oa a")
    case (Pair ok b)
    have "only (p_ID np) a b" using T Pair by (metis snd_conv)
    moreover have "only (p_ID np) b (launch_deployment x env (np\<lparr> p_Status := StatusDeploying \<rparr>) art b)"
      using minor_launch [of "np\<lparr> p_Status := StatusDeploying \<rparr>" b x env art] by (simp add: minor_def)
    ultimately show ?thesis by (cases ok) (auto simp: Pair intro: only_trans)
  qed
  then show ?thesis using T by (simp add: start_promotion_def Let_def split: sum.split)
qed

lemma no_success_start:
  assumes "store_wf a"
  shows "no_success a (snd (start_promotion x env np a))"
proof -
  have "no_success a (snd (case Transition (p_ID np) [StatusApproved] StatusDeploying pt oa a of (False, db') \<Rightarrow> (True, db')
      | (True, db') \<Rightarrow> (True, launch_deployment x env (np\<lparr> p_Status := StatusDeploying \<rparr>) art db')))" for pt oa art
  proof (cases "Transition (p_ID np) [StatusApproved] StatusDeploying pt oa a")
    case (Pair ok b)
    have T: "safe True a (snd (Transition (p_ID np) [StatusApproved] StatusDeploying pt oa a))"
      by (rule safe_Transition) (auto simp: edge_def quorum_before_def)
    have "no_success a b" "store_wf b"
      using no_success_Transition [OF assms, of StatusDeploying "p_ID np" "[StatusApproved]" pt oa] safe_wf [OF T assms] Pair by simp_all
    then show ?thesis using no_success_launch [of b] by (cases ok) (auto simp: Pair intro: no_success_trans)
  qed
  then show ?thesis using no_success_Transition [OF assms] by (simp add: start_promotion_def Let_def split: sum.split)
qed

lemma keeps_successes_start:
  assumes "store_wf a"
  shows "keeps_successes a (snd (start_promotion x env np a))"
proof -
  have "keeps_successes a (snd (case Transition (p_ID np) [StatusApproved] StatusDeploying pt oa a of (False, db') \<Rightarrow> (True, db')
      | (True, db') \<Rightarrow> (True, launch_deployment x env (np\<lparr> p_Status := StatusDeploying \<rparr>) art db')))" for pt oa art
  proof (cases rule: Transition_cases [OF wf_ids [OF assms], of "p_ID np" "[StatusApproved]" StatusDeploying pt oa])
    case (2 p b)
    have T: "safe True a (snd (Transition (p_ID np) [StatusApproved] StatusDeploying pt oa a))"
      by (rule safe_Transition) (auto simp: edge_def quorum_before_def)
    have ab: "keeps_successes a b" "store_wf b"
      using keeps_successes_Transition [OF assms, of "[StatusApproved]" "p_ID np" StatusDeploying pt oa] safe_wf [OF T assms] 2(1) by simp_all
    have "apply_patch StatusDeploying pt p \<in> set (db_promos b)" using 2(2,5) by (force simp: rows_def)
    then have "keeps_successes b (launch_deployment x env (np\<lparr> p_Status := StatusDeploying \<rparr>) art b)"
      by (rule keeps_successes_launch [OF ab(2)]) (simp_all add: apply_patch_def 2(3))
    then show ?thesis using ab(1) by (auto simp: 2(1) intro: keeps_successes_trans)
  qed simp
  then show ?thesis using keeps_successes_Transition [OF assms, of "[StatusApproved]"] by (simp add: start_promotion_def Let_def split: sum.split)
qed

lemma starting_start:
  assumes a: "starting x db a" and m: "may_start x db env np"
  shows "starting x db (snd (start_promotion x env np a))"
proof -
  let ?b = "snd (start_promotion x env np a)"
  have wf: "store_wf a" and safe: "safe True db a" and suc: "succeeds_only db a" and s: "started x db a" using a by (simp_all add: starting_def)
  have ab: "safe True a ?b" "keeps_successes a ?b" by (rule start_safe) (rule keeps_successes_start [OF wf])
  have "started x db ?b"
  proof (cases "\<exists>t res. store_Target a (env_ProjectID env) = Inr t \<and> checkStatic x t env (p_SHA np) (p_FromEnvironment np) a = Inr res")
    case True
    have "seen db a ?b" using safe suc ab by (simp add: seen_def)
    moreover have "q \<in> set (db_promos a)" if "q \<in> set (db_promos ?b)" "p_ID q \<noteq> p_ID np" for q
      using only_start [of np a x env] that by (simp add: only_def)
    ultimately show ?thesis using s m True seen_safe [OF _ ab] unfolding started_def by metis
  next
    case False
    have "no_start a (snd (Transition (p_ID np) [StatusApproved] StatusCancelled pt oa a))" for pt oa by (rule no_start_Transition [OF wf]) simp_all
    then have "no_start a ?b" using False by (auto simp: start_promotion_def split: sum.split)
    then show ?thesis using started_no_start [OF s _ ab] by blast
  qed
  then show ?thesis
    using safe_wf [OF ab(1) wf] safe_trans [OF safe ab(1)] succeeds_only_no_success [OF suc no_success_start [OF wf]] by (simp add: starting_def)
qed

lemma starting_first: "starting x db a \<Longrightarrow> \<forall>np \<in> set ps. may_start x db env np \<Longrightarrow> starting x db (start_first x env ps a)"
proof (induction ps arbitrary: a)
  case (Cons np ps)
  then have "starting x db (snd (start_promotion x env np a))" by (intro starting_start) auto
  then show ?case using Cons by (simp add: Let_def case_prod_unfold)
qed simp

lemma starting_envs:
  assumes "scanned x db s []" "starting x db a"
  shows "starting x db (foldl (start_env x s) a js)"
  using assms(2)
proof (induction js arbitrary: a)
  case (Cons i js)
  have "starting x db (start_first x env (gomap_at [] (ts_ready s) i) a)" if "store_GetEnvByID a i = Inr env" for env
  proof (rule starting_first [OF Cons.prems])
    have "safe True db a" using Cons.prems by (simp add: starting_def)
    then have "env_of db i = Some env" using that env_of_frame [OF safe_frame] by (simp add: GetEnvByID_env_of)
    then show "\<forall>np \<in> set (gomap_at [] (ts_ready s) i). may_start x db env np" using assms(1) by (simp add: scanned_def)
  qed
  then have "starting x db (start_env x s a i)" using Cons.prems by (simp add: start_env_def split: sum.split)
  then show ?case using Cons.IH by simp
qed simp

lemma Tick_started:
  assumes "store_wf db"
  shows "started x (snd (ExpireOverdue (x_now x) db)) (Tick x db)"
proof -
  let ?db1 = "snd (ExpireOverdue (x_now x) db)" and ?s = "tick_scan x db"
  have sc: "scanned x ?db1 ?s []" and wf: "store_wf ?db1" using tick_scanned [OF assms] store_wf_ExpireOverdue [OF assms] by auto
  have safe: "safe True ?db1 (ts_db ?s)" and ns: "no_start ?db1 (ts_db ?s)" using sc by (simp_all add: scanned_def)
  have "started x ?db1 (ts_db ?s)" using ns unfolding started_def no_start_def by blast
  then have "starting x ?db1 (ts_db ?s)"
    using safe safe_wf [OF safe wf] ns by (simp add: starting_def succeeds_only_def no_start_def)
  then show ?thesis unfolding Tick_def Let_def using starting_envs [OF sc] by (simp add: starting_def)
qed

text \<open>When a promotion counts as having its quorum, seen from a tick: at once if it is still undecided.\<close>

definition quorum_time :: "time \<Rightarrow> Promotion \<Rightarrow> time" where
  "quorum_time now p = (if p_Status p = StatusPending then now else case p_QuorumAt p of None \<Rightarrow> now | Some q \<Rightarrow> q)"

lemma NextAfterQuorum_approved:
  "fst (NextAfterQuorum tz local env q now) = StatusApproved \<longleftrightarrow> q + env_WaitMinutes env * time_Minute \<le> now \<and> fst (WindowOpen tz local (env_Windows env) now)"
  by (simp add: NextAfterQuorum_def Let_def not_less)

lemma Advance_approved:
  assumes "fst (Advance tz local env p now) = StatusApproved" "p_Status p \<in> {StatusPending, StatusWaiting, StatusApproved}"
  shows "quorum_time now p + env_WaitMinutes env * time_Minute \<le> now" "fst (WindowOpen tz local (env_Windows env) now)"
    "p_Status p = StatusPending \<longrightarrow> quorum env p"
proof -
  have n: "fst (NextAfterQuorum tz local env (quorum_time now p) now) = StatusApproved" and q: "p_Status p = StatusPending \<longrightarrow> quorum env p"
    using assms unfolding fst_Advance quorum_time_def quorum_def by (auto split: if_splits)
  show "quorum_time now p + env_WaitMinutes env * time_Minute \<le> now" "fst (WindowOpen tz local (env_Windows env) now)"
    using n by (simp_all add: NextAfterQuorum_approved)
  show "p_Status p = StatusPending \<longrightarrow> quorum env p" by (rule q)
qed

text \<open>What a start demands of a commit, read off the data. \<open>commit_ok\<close> are the conditions of the repository at the time of
  the tick; \<open>source_ok\<close> is the deployment that is promoted: \<open>db\<close> are the tables before the tick and \<open>db'\<close> after it.\<close>

definition commit_ok :: "Ext \<Rightarrow> EDB \<Rightarrow> Environment \<Rightarrow> string \<Rightarrow> bool" where
  "commit_ok x db env sha \<longleftrightarrow> (\<exists>t branch cs. store_Target db (env_ProjectID env) = Inr t \<and> refOf x t env sha = Inr branch \<and>
     x_ListChecks x (repo_ref t) sha = Inr cs \<and>
     (env_RequireChecksOnSHA env \<longrightarrow> cs_Items (snapshotChecks cs) \<noteq> [] \<and> cs_State (snapshotChecks cs) = ''success'')) \<and>
   (env_RequireSecurityPolicy env \<longrightarrow> (\<forall>gate. x_Blocked x = Some gate \<longrightarrow> (\<exists>why. gate (env_ProjectID env) sha = Inr (False, why))))"

definition source_ok :: "EDB \<Rightarrow> EDB \<Rightarrow> Environment \<Rightarrow> string \<Rightarrow> string \<Rightarrow> bool" where
  "source_ok db db' env sha src \<longleftrightarrow>
     (if src = [] then \<exists>r \<in> set (db_deploys db). dr_ProjectID r \<in> {env_ProjectID env, env_TargetProjectID env} \<and> dr_GitSHA r = Some sha \<and>
          dr_Status r = ''success'' \<and> has_source r
      else \<exists>se. store_GetEnv db (env_ProjectID env) src = Inr se \<and>
          (\<exists>q \<in> set (db_promos db). \<exists>h \<in> set (db_hist db'). \<exists>r \<in> set (db_deploys db').
             p_EnvironmentID q = env_ID se \<and> p_SHA q = sha \<and> p_Status q \<in> {StatusSuccess, StatusDeploying} \<and>
             ed_PromotionID h = p_ID q \<and> ed_Status h = ''success'' \<and> ed_DeploymentID h = Some (dr_ID r) \<and> has_source r))"

lemma newest_member:
  assumes "newest k xs = Some y"
  shows "y \<in> set xs"
proof (cases "sort_key k xs = []")
  case False
  then have "y = last (sort_key k xs)" using assms by (cases "sort_key k xs") (auto simp: newest_def)
  then have "y \<in> set (sort_key k xs)" using last_in_set [OF False] by (simp del: set_sort)
  then show ?thesis by simp
qed (use assms in \<open>simp add: newest_def\<close>)

lemma FindArtifact_row:
  assumes "adds_queued db dbx" "FindArtifact dbx pid sha = Some a"
  shows "\<exists>r \<in> set (db_deploys db). dr_ProjectID r = pid \<and> dr_GitSHA r = Some sha \<and> dr_Status r = ''success'' \<and> has_source r"
proof -
  obtain rs where rs: "db_deploys dbx = db_deploys db @ rs" "\<forall>r \<in> set rs. dr_Status r = ''queued''" using assms(1) by (auto simp: adds_queued_def)
  obtain r where "newest dr_CreatedAt (filter (\<lambda>r. dr_ProjectID r = pid \<and> dr_GitSHA r = Some sha \<and> dr_Status r = ''success'' \<and> has_source r) (db_deploys dbx)) = Some r"
    using assms(2) by (auto simp: FindArtifact_def)
  from newest_member [OF this] rs show ?thesis by auto
qed

lemma SuccessfulSHA_rows:
  assumes "SuccessfulSHA dbx e sha = Some (h, a)"
  shows "h \<in> set (db_hist dbx)" "ed_EnvironmentID h = e" "ed_SHA h = sha" "ed_Status h = ''success''"
    "\<exists>r \<in> set (db_deploys dbx). ed_DeploymentID h = Some (dr_ID r) \<and> has_source r"
proof -
  obtain h' where n: "newest ed_CreatedAt (filter (\<lambda>h. ed_EnvironmentID h = e \<and> ed_SHA h = sha \<and> ed_Status h = ''success'' \<and>
             ed_DeploymentID h \<noteq> None) (db_hist dbx)) = Some h'" and h: "h' = h" and a: "ArtifactOf dbx (the (ed_DeploymentID h)) = Some a"
    using assms by (auto simp: SuccessfulSHA_def split: option.splits)
  note m = newest_member [OF n, unfolded h]
  show "h \<in> set (db_hist dbx)" "ed_EnvironmentID h = e" "ed_SHA h = sha" "ed_Status h = ''success''" using m by auto
  obtain r where "find (\<lambda>r. dr_ID r = the (ed_DeploymentID h) \<and> has_source r) (db_deploys dbx) = Some r" using a by (auto simp: ArtifactOf_def)
  then have "r \<in> set (db_deploys dbx) \<and> dr_ID r = the (ed_DeploymentID h) \<and> has_source r" by (auto simp: find_Some_iff)
  then show "\<exists>r \<in> set (db_deploys dbx). ed_DeploymentID h = Some (dr_ID r) \<and> has_source r" using m by auto
qed

lemma adds_queued_rows: "adds_queued db db' \<Longrightarrow> set (db_deploys db) \<subseteq> set (db_deploys db')"
  by (auto simp: adds_queued_def)

lemma checkStatic_commit:
  assumes "checkStatic x t env sha from dbx = Inr res" "store_Target dbx (env_ProjectID env) = Inr t"
  shows "commit_ok x dbx env sha"
  using assms unfolding commit_ok_def checkStatic_def ebind_Inr
  by (auto simp: checks_gate_def security_gate_def ebind_Inr split: if_splits option.splits)

lemma checkStatic_source:
  assumes wf: "store_wf db" and s: "seen db dbx db'" and c: "checkStatic x t env sha from dbx = Inr res"
  shows "source_ok db db' env sha (case env_RequireSourceEnvironment env of None \<Rightarrow> from | Some s \<Rightarrow> s)"
proof -
  let ?src = "case env_RequireSourceEnvironment env of None \<Rightarrow> from | Some s \<Rightarrow> s"
  have safe: "safe True db dbx" "safe True dbx db'" and suc: "succeeds_only db dbx" "keeps_successes dbx db'" using s by (simp_all add: seen_def)
  have q: "adds_queued db dbx" "adds_queued dbx db'" and envs: "db_envs dbx = db_envs db" using safe by (simp_all add: safe_def frame_def)
  have wfx: "store_wf dbx" using safe_wf [OF safe(1) wf] .
  obtain src a cs where src: "source_name env from = Inr src" and art: "source_artifact env sha src dbx = Inr (Some a, cs)"
    using c by (auto simp: checkStatic_def ebind_Inr split: option.splits)
  have [simp]: "?src = src" using src by (auto simp: source_name_def split: option.splits if_splits)
  show ?thesis
  proof (cases "src = []")
    case True
    then have "FindArtifact dbx (env_ProjectID env) sha = Some a \<or> FindArtifact dbx (env_TargetProjectID env) sha = Some a"
      using art by (auto simp: source_artifact_def split: option.splits)
    then obtain r where "r \<in> set (db_deploys db)" "dr_ProjectID r \<in> {env_ProjectID env, env_TargetProjectID env}"
        "dr_GitSHA r = Some sha" "dr_Status r = ''success''" "has_source r"
      using FindArtifact_row [OF q(1), of "env_ProjectID env" sha a] FindArtifact_row [OF q(1), of "env_TargetProjectID env" sha a] by auto
    then show ?thesis using True by (auto simp: source_ok_def)
  next
    case False
    then obtain se h where se: "store_GetEnv dbx (env_ProjectID env) src = Inr se" and h: "SuccessfulSHA dbx (env_ID se) sha = Some (h, a)"
      using art by (auto simp: source_artifact_def split: sum.splits option.splits)
    note hr = SuccessfulSHA_rows [OF h]
    obtain p where p: "p \<in> set (db_promos dbx)" "p_ID p = ed_PromotionID h" "p_EnvironmentID p = env_ID se" "p_SHA p = sha" "p_Status p = StatusSuccess"
      using success_row [OF wfx hr(1,4)] hr(2,3) by auto
    obtain r where r: "r \<in> set (db_promos db)" "p_ID r = p_ID p" "p_Status r \<in> {StatusSuccess, StatusDeploying}"
      using suc(1) p(1,5) unfolding succeeds_only_def by metis
    obtain r' where r': "r' \<in> set (db_promos db)" "evolves r' p" using list_all2_right [of evolves] p(1) safe(1) wf by (metis safe_def)
    have "r' = r" using r' r(1,2) wf_ids [OF wf] by (auto simp: evolves_def fixed_cols_def distinct_map inj_on_def)
    then have "p_EnvironmentID r = env_ID se" "p_SHA r = sha" using r'(2) p(3,4) by (auto simp: evolves_def fixed_cols_def)
    moreover have "store_GetEnv db (env_ProjectID env) src = Inr se" using se envs by (simp add: store_GetEnv_def)
    moreover have "h \<in> set (db_hist db')" using suc(2) hr(1,4) by (simp add: keeps_successes_def)
    moreover have "\<exists>row \<in> set (db_deploys db'). ed_DeploymentID h = Some (dr_ID row) \<and> has_source row"
      using hr(5) adds_queued_rows [OF q(2)] by blast
    ultimately show ?thesis using False r p(2) hr(4) unfolding source_ok_def \<open>?src = src\<close> by metis
  qed
qed

lemma source_ok_expiry:
  assumes "db_promos db1 = map (\<lambda>p. if overdue now p then expire now p else p) (db_promos db)" "db_envs db1 = db_envs db" "db_deploys db1 = db_deploys db"
    and "source_ok db1 db' env sha src"
  shows "source_ok db db' env sha src"
proof -
  have "q \<in> set (db_promos db)" if "q \<in> set (db_promos db1)" "p_Status q \<in> {StatusSuccess, StatusDeploying}" for q
    using that by (auto simp: assms(1) expire_def split: if_splits)
  then show ?thesis using assms(2-4) unfolding source_ok_def store_GetEnv_def by (auto split: if_splits)
qed

text \<open>
  C16 (safety). A tick starts the deployment of a promotion only when it may: a deployment window of its
  environment is open at that time, the waiting time since its quorum has passed, it has the required
  approvals if it was still undecided, it is not overdue, and its commit passes the conditions of the
  environment. In the repository of the project as stored, at the time of the tick, the commit is on an allowed
  branch or tag, its checks passed where they are required, and the security policy does not block it
  (\<open>commit_ok\<close>). There is something to promote (\<open>source_ok\<close>): without a source environment, a successful
  deployment of the commit with its stored source, in the project or the target project, before the tick; with
  one, a promotion of the commit to that environment that had succeeded before the tick or was being deployed then
  and has succeeded in it, whose row of the history names a deployment with its stored source.
\<close>

theorem Tick_starts_only_allowed:
  assumes "reached pc db" "p' \<in> set (db_promos (Tick x db))" "p_Status p' = StatusDeploying"
    and "p \<in> set (db_promos db)" "p_ID p = p_ID p'" "p_Status p \<noteq> StatusDeploying"
  shows "\<exists>env. env_of db (p_EnvironmentID p) = Some env \<and>
    fst (WindowOpen (x_tz x) (x_local x) (env_Windows env) (x_now x)) \<and>
    quorum_time (x_now x) p + env_WaitMinutes env * time_Minute \<le> x_now x \<and>
    p_Status p \<in> {StatusPending, StatusWaiting, StatusApproved} \<and>
    (p_Status p = StatusPending \<longrightarrow> quorum env p) \<and> x_now x < p_ExpiresAt p \<and>
    commit_ok x db env (p_SHA p) \<and>
    source_ok db (Tick x db) env (p_SHA p) (case env_RequireSourceEnvironment env of None \<Rightarrow> p_FromEnvironment p | Some s \<Rightarrow> s)"
proof -
  let ?db1 = "snd (ExpireOverdue (x_now x) db)"
  have wf: "store_wf db" using assms(1) by (rule reached_wf)
  have wf1: "store_wf ?db1" using wf by (rule store_wf_ExpireOverdue)
  have promos: "db_promos ?db1 = map (\<lambda>p. if overdue (x_now x) p then expire (x_now x) p else p) (db_promos db)" and envs: "db_envs ?db1 = db_envs db"
    using ExpireOverdue_rows [OF wf_ids [OF wf]] by (simp_all add: rows_def)
  have same: "q = p \<and> \<not> overdue (x_now x) p" if "q \<in> set (db_promos ?db1)" "p_ID q = p_ID p" "IsActive (p_Status q)" for q
    using that assms(4) wf_ids [OF wf] by (auto simp: promos expire_def IsActive_def distinct_map inj_on_def split: if_splits)
  have "\<not> (\<exists>q \<in> set (db_promos ?db1). p_ID q = p_ID p' \<and> p_Status q = StatusDeploying)"
    using same assms(5,6) by (auto simp: IsActive_def)
  then obtain env np t res dbx where np: "p_ID np = p_ID p'" "may_start x ?db1 env np"
      "seen ?db1 dbx (Tick x db)" "store_Target dbx (env_ProjectID env) = Inr t" "checkStatic x t env (p_SHA np) (p_FromEnvironment np) dbx = Inr res"
    using Tick_started [OF wf, of x] assms(2,3) unfolding started_def by blast
  then obtain q where q: "q \<in> set (db_promos ?db1)" "p_ID q = p_ID np" "p_SHA q = p_SHA np" "p_FromEnvironment q = p_FromEnvironment np"
      "p_EnvironmentID q = env_ID env" "env_of ?db1 (env_ID env) = Some env" "p_Status q \<in> {StatusPending, StatusWaiting, StatusApproved}"
      "fst (Advance (x_tz x) (x_local x) env q (x_now x)) = StatusApproved"
    unfolding may_start_def by blast
  have qp: "q = p" and late: "\<not> overdue (x_now x) p" using same [OF q(1)] q(2,7) np(1) assms(5) by (auto simp: IsActive_def)
  have "db_targets dbx = db_targets db" using np(3) ExpireOverdue_rest(1) by (simp add: seen_def safe_def adds_queued_def)
  then have "commit_ok x db env (p_SHA p)"
    using checkStatic_commit [OF np(5,4)] q(3) qp by (simp add: commit_ok_def store_Target_def)
  moreover have "source_ok db (Tick x db) env (p_SHA p) (case env_RequireSourceEnvironment env of None \<Rightarrow> p_FromEnvironment p | Some s \<Rightarrow> s)"
    by (rule source_ok_expiry [OF promos envs ExpireOverdue_rest(2)]) (use checkStatic_source [OF wf1 np(3,5)] q(3,4) qp in \<open>simp cong: option.case_cong\<close>)
  moreover have "env_of db (env_ID env) = Some env" using q(6) envs by (simp add: env_of_def)
  moreover have "x_now x < p_ExpiresAt p" using late q(7) qp by (auto simp: overdue_def not_le)
  ultimately show ?thesis using Advance_approved [OF q(8,7)] q(5,7) qp by metis
qed

theorem Tick_starts_only_allowed_witness:
  "map p_Status (db_promos ex_db3) = [StatusApproved] \<and> map p_Status (db_promos (Tick (ex_ext 4) ex_db3)) = [StatusDeploying] \<and>
   (\<exists>env. env_of ex_db3 (p_EnvironmentID (hd (db_promos ex_db3))) = Some env \<and> fst (WindowOpen ex_tz ex_utc (env_Windows env) 4) \<and>
     quorum_time 4 (hd (db_promos ex_db3)) + env_WaitMinutes env * time_Minute \<le> 4 \<and>
     commit_ok (ex_ext 4) ex_db3 env (p_SHA (hd (db_promos ex_db3))))"
proof -
  have s: "map p_Status (db_promos ex_db3) = [StatusApproved]" "p_ID (hd (db_promos ex_db3)) = p_ID (hd (db_promos ex_db4))" by code_simp+
  have e: "x_tz (ex_ext 4) = ex_tz" "x_local (ex_ext 4) = ex_utc" "x_now (ex_ext 4) = 4" by (simp_all add: ex_ext_def)
  show ?thesis
    using Tick_starts_only_allowed [OF ex_reached(3), of "hd (db_promos ex_db4)" "ex_ext 4" "hd (db_promos ex_db3)"]
      ex_promo [OF s(1)] ex_promo [OF ex_statuses(2)] s ex_statuses(2) unfolding ex_db4_def e by auto
qed

section \<open>The end of a deployment\<close>

text \<open>The loop adds deployments and changes none, so what the worker reported of one stays readable.\<close>

lemma DeployStatus_kept: "adds_queued db db' \<Longrightarrow> DeployStatus db dep = Some r \<Longrightarrow> DeployStatus db' dep = Some r"
  by (auto simp: adds_queued_def DeployStatus_def find_appended)

text \<open>The stored promotion leaves \<^verbatim>\<open>deploying\<close> when it is polled: \<open>outcome\<close> is the state a reported status of its
  deployment leads to, if any.\<close>

definition outcome :: "Ext \<Rightarrow> Promotion \<Rightarrow> string \<Rightarrow> PStatus option" where
  "outcome x p status =
     (if status = ''success'' then Some StatusSuccess
      else if status \<in> {''failed'', ''cancelled''} \<or> (\<exists>s \<in> set_option (p_StartedAt p). x_now x - s > x_DeployTimeout x) then Some StatusFailed
      else None)"

lemma outcome_final: "outcome x p status = Some to \<Longrightarrow> to \<in> {StatusSuccess, StatusFailed}"
  by (auto simp: outcome_def split: if_splits)

lemma finish_final:
  assumes "store_wf db" "p \<in> set (db_promos db)" "p_Status p = StatusDeploying" "to \<in> {StatusSuccess, StatusFailed}"
  shows "\<exists>p' \<in> set (db_promos (snd (finish x p to reason health db))). p_ID p' = p_ID p \<and> p_Status p' = to \<and> p_FinishedAt p' = Some (x_now x)"
proof -
  let ?pt = "zero_Patch\<lparr> pt_Reason := reason, pt_FinishedAt := Some (x_now x), pt_Health := health \<rparr>"
  let ?T = "Transition (p_ID p) [StatusDeploying] to ?pt (Some (audit None ''promotion.complete'' (p_ID p))) db"
  have "fst ?T" using Transition_stored [OF assms(1,2), of to] assms(3,4) by auto
  then obtain q db' where T: "?T = (True, db')" "q \<in> set (db_promos db)" "p_ID q = p_ID p" "rows db db' (\<lambda>r. if r = q then apply_patch to ?pt q else r)"
    by (cases rule: Transition_cases [OF wf_ids [OF assms(1)], of "p_ID p" "[StatusDeploying]" to ?pt "Some (audit None ''promotion.complete'' (p_ID p))"]) auto
  have "apply_patch to ?pt q \<in> set (db_promos db')" using T(2,4) by (force simp: rows_def)
  moreover have "p_ID (apply_patch to ?pt q) = p_ID p \<and> p_Status (apply_patch to ?pt q) = to \<and> p_FinishedAt (apply_patch to ?pt q) = Some (x_now x)"
    using T(3) by (simp add: apply_patch_def coalesce_def)
  ultimately show ?thesis using T(1) by (auto simp: finish_def)
qed

lemma poll_outcome:
  assumes "p_DeploymentID p = Some dep" "DeployStatus db dep = Some (status, health)" "outcome x p status = Some to"
  shows "\<exists>reason. poll x env p db = finish x p to reason health db"
  using assms by (auto simp: poll_def outcome_def split: if_splits option.splits)

lemma tick_one_outcome:
  assumes "store_wf (ts_db s)" "p \<in> set (db_promos (ts_db s))" "p_Status p = StatusDeploying" "p_DeploymentID p = Some dep"
    and "DeployStatus (ts_db s) dep = Some (status, health)" "outcome x p status = Some to"
  shows "\<exists>p' \<in> set (db_promos (ts_db (tick_one x s p))). p_ID p' = p_ID p \<and> p_Status p' = to \<and> p_FinishedAt p' = Some (x_now x)"
proof -
  have "p_EnvironmentID p \<in> env_ID ` set (db_envs (ts_db s))" using assms(1,2) unfolding store_wf_def keys_ok_def by blast
  then have "env_of (ts_db s) (p_EnvironmentID p) \<noteq> None" by (auto simp: env_of_def find_None_iff)
  then obtain env where "store_GetEnvByID (ts_db s) (p_EnvironmentID p) = Inr env" by (auto simp: GetEnvByID_env_of)
  moreover obtain reason where "poll x env p (ts_db s) = finish x p to reason health (ts_db s)" using poll_outcome [OF assms(4-6)] by blast
  ultimately show ?thesis using finish_final [OF assms(1-3) outcome_final [OF assms(6)], of x reason health] assms(3)
    by (simp add: tick_one_def case_prod_unfold Let_def)
qed

lemma evolves_final:
  assumes "list_all2 evolves ps ps'" "p \<in> set ps" "\<not> IsActive (p_Status p)"
  shows "\<exists>p' \<in> set ps'. p_ID p' = p_ID p \<and> p_Status p' = p_Status p \<and> p_FinishedAt p' = p_FinishedAt p"
proof -
  obtain p' where "p' \<in> set ps'" "evolves p p'" using list_all2_left [OF assms(1,2)] by blast
  then show ?thesis using assms(3) by (auto simp: evolves_def settled_def dest!: arg_cong [where f = "\<lambda>p. (p_ID p, p_Status p, p_FinishedAt p)"])
qed

lemma ListActive_all: "length (filter (\<lambda>p. IsActive (p_Status p)) (db_promos db)) \<le> n \<Longrightarrow> p \<in> set (db_promos db) \<Longrightarrow> IsActive (p_Status p) \<Longrightarrow> p \<in> set (store_ListActive db n)"
  by (simp add: store_ListActive_def by_creation_def)

lemma active_after_expiry: "length (filter (\<lambda>p. IsActive (p_Status p)) (map (\<lambda>p. if overdue now p then expire now p else p) ps)) \<le> length (filter (\<lambda>p. IsActive (p_Status p)) ps)"
  by (induction ps) (auto simp: expire_def IsActive_def overdue_def)

lemma Tick_rest_safe:
  assumes "store_wf db" "store_ListActive (snd (ExpireOverdue (x_now x) db)) 500 = ps @ qs"
  shows "safe True (ts_db (foldl (tick_one x) \<lparr> ts_db = snd (ExpireOverdue (x_now x) db), ts_busy = [], ts_ready = [], ts_order = [] \<rparr> ps)) (Tick x db)"
proof -
  let ?db1 = "snd (ExpireOverdue (x_now x) db)"
  let ?s = "foldl (tick_one x) \<lparr> ts_db = ?db1, ts_busy = [], ts_ready = [], ts_order = [] \<rparr> ps"
  have wf: "store_wf ?db1" using assms(1) by (rule store_wf_ExpireOverdue)
  have sc: "scanned x ?db1 ?s qs" by (rule scan_prefix [OF wf assms(2)])
  have "safe True (ts_db ?s) (ts_db (foldl (tick_one x) ?s qs))"
  proof (rule tick_fold_safe)
    show "store_wf (ts_db ?s)" using sc safe_wf [OF _ wf] by (auto simp: scanned_def)
    show "\<forall>p \<in> set qs. listed (ts_db ?s) p \<and> IsActive (p_Status p)"
      using sc ListActive_stored(2) [of ?db1 500] unfolding assms(2) by (auto simp: scanned_def intro: listed_member)
  qed
  moreover have "tick_scan x db = foldl (tick_one x) ?s qs" by (simp add: tick_scan_def Let_def assms(2))
  ultimately show ?thesis unfolding Tick_def Let_def by (metis safe_trans foldl_safe start_env_safe)
qed

text \<open>
  C17 (liveness). A deployment that ended ends its promotion: when the tables hold at most the 500 active
  promotions one tick reads, then for every promotion being deployed whose deployment succeeded, failed, was
  cancelled or ran longer than the time limit, the tick leaves the promotion succeeded or failed accordingly,
  with the time of the tick as its end, whatever the other promotions of the same tick do.
\<close>

theorem Tick_completes:
  assumes "reached pc db" "length (filter (\<lambda>p. IsActive (p_Status p)) (db_promos db)) \<le> 500"
    and "p \<in> set (db_promos db)" "p_Status p = StatusDeploying" "p_DeploymentID p = Some dep"
    and "DeployStatus db dep = Some (status, health)" "outcome x p status = Some to"
  shows "\<exists>p' \<in> set (db_promos (Tick x db)). p_ID p' = p_ID p \<and> p_Status p' = to \<and> p_FinishedAt p' = Some (x_now x)"
proof -
  let ?db1 = "snd (ExpireOverdue (x_now x) db)" and ?init = "\<lambda>db. \<lparr> ts_db = db, ts_busy = [], ts_ready = [], ts_order = [] \<rparr>"
  have wf: "store_wf db" using assms(1) by (rule reached_wf)
  have wf1: "store_wf ?db1" using wf by (rule store_wf_ExpireOverdue)
  have promos: "db_promos ?db1 = map (\<lambda>p. if overdue (x_now x) p then expire (x_now x) p else p) (db_promos db)"
    using ExpireOverdue_rows [OF wf_ids [OF wf]] by (simp add: rows_def)
  have "p \<in> set (store_ListActive ?db1 500)"
  proof (rule ListActive_all)
    show "length (filter (\<lambda>p. IsActive (p_Status p)) (db_promos ?db1)) \<le> 500"
      unfolding promos by (rule order_trans [OF active_after_expiry assms(2)])
    show "p \<in> set (db_promos ?db1)" using assms(3,4) by (force simp: promos overdue_def)
  qed (use assms(4) in \<open>simp add: IsActive_def\<close>)
  then obtain before later where split: "store_ListActive ?db1 500 = before @ p # later" by (meson split_list)
  let ?s = "foldl (tick_one x) (?init ?db1) before"
  have sc: "scanned x ?db1 ?s (p # later)" by (rule scan_prefix [OF wf1 split])
  have wfs: "store_wf (ts_db ?s)" and ps: "p \<in> set (db_promos (ts_db ?s))" using sc safe_wf [OF _ wf1] by (auto simp: scanned_def)
  have "DeployStatus (ts_db ?s) dep = Some (status, health)"
  proof (rule DeployStatus_kept)
    show "adds_queued ?db1 (ts_db ?s)" using sc by (simp add: scanned_def safe_def)
    show "DeployStatus ?db1 dep = Some (status, health)" using assms(6) by (simp add: DeployStatus_def ExpireOverdue_rest)
  qed
  then obtain q where q: "q \<in> set (db_promos (ts_db (tick_one x ?s p)))" "p_ID q = p_ID p" "p_Status q = to" "p_FinishedAt q = Some (x_now x)"
    using tick_one_outcome [OF wfs ps assms(4,5) _ assms(7)] by blast
  have sc': "scanned x ?db1 (tick_one x ?s p) later"
    using scan_prefix [OF wf1, of 500 "before @ [p]" later x] by (simp add: split)
  then have wft: "store_wf (ts_db (tick_one x ?s p))" using safe_wf [OF _ wf1] by (auto simp: scanned_def)
  have "safe True (ts_db (tick_one x ?s p)) (Tick x db)" using Tick_rest_safe [OF wf, of x "before @ [p]" later] by (simp add: split)
  then have "list_all2 evolves (db_promos (ts_db (tick_one x ?s p))) (db_promos (Tick x db))" using wft by (simp add: safe_def)
  from evolves_final [OF this q(1)] show ?thesis using q outcome_final [OF assms(7)] by (force simp: IsActive_def)
qed

theorem Tick_completes_witness:
  "map p_Status (db_promos ex_db4) = [StatusDeploying] \<and>
   (\<exists>p' \<in> set (db_promos (Tick (ex_ext (5 + 60 * time_Minute)) ex_db4)). p_ID p' = 2 \<and> p_Status p' = StatusFailed)"
proof -
  let ?p = "hd (db_promos ex_db4)" and ?x = "ex_ext (5 + 60 * time_Minute)"
  have "p_ID ?p = 2" "p_DeploymentID ?p = Some 4" "DeployStatus ex_db4 4 = Some (''queued'', [])" "p_StartedAt ?p = Some 4"
    "length (filter (\<lambda>p. IsActive (p_Status p)) (db_promos ex_db4)) \<le> 500" by code_simp+
  moreover have "outcome ?x ?p ''queued'' = Some StatusFailed" using calculation(4) by (simp add: outcome_def ex_ext_def)
  ultimately show ?thesis
    using Tick_completes [OF ex_reached(4), of ?p 4 "''queued''" "[]" ?x StatusFailed] ex_promo [OF ex_statuses(2)] ex_statuses(2) by auto
qed

section \<open>Replaced policies\<close>

text \<open>The example run with another policy put in place between the approval and the tick: two approvals are now
  required.\<close>

definition ex_two :: EInput where "ex_two = ex_prod\<lparr> in_RequiredApprovals := Some 2 \<rparr>"

definition ex_raised :: EDB where "ex_raised = snd (PutEnv (ex_ext 4) ex_target (ex_actor 21) ''prod'' ex_two ex_db3)"

text \<open>
  C18 (safety). Why \<^verbatim>\<open>PutEnv\<close> is excluded from the quorum property: approvals are counted only while a promotion
  is pending. A promotion that was approved under the old policy is deployed although the new policy, accepted
  before the deployment started and re-evaluated at once, requires more approvals than it has; the row even
  records the new number.
\<close>

theorem raised_quorum_not_applied:
  "\<exists>db p env. reached True db \<and> p \<in> set (db_promos db) \<and> env_of db (p_EnvironmentID p) = Some env \<and> p_Status p = StatusApproved \<and>
     CountApprovals env p < env_RequiredApprovals env \<and> p_RequiredApprovals p = env_RequiredApprovals env \<and>
     (\<exists>p' \<in> set (db_promos (Tick (ex_ext 5) db)). p_ID p' = p_ID p \<and> p_Status p' = StatusDeploying)"
proof -
  let ?p = "hd (db_promos ex_raised)" and ?e = "hd (db_envs ex_raised)" and ?q = "hd (db_promos (Tick (ex_ext 5) ex_raised))"
  have "reached True ex_raised" unfolding ex_raised_def by (rule reached_step [OF ex_reached(3)]) (rule S_PutEnv, rule TrueI)
  moreover have "map p_Status (db_promos ex_raised) = [StatusApproved]" "map p_Status (db_promos (Tick (ex_ext 5) ex_raised)) = [StatusDeploying]"
    by code_simp+
  moreover have "env_of ex_raised (p_EnvironmentID ?p) = Some ?e" "CountApprovals ?e ?p = 1" "env_RequiredApprovals ?e = 2" "p_RequiredApprovals ?p = 2"
    "p_ID ?q = p_ID ?p" by code_simp+
  ultimately show ?thesis using ex_promo [of ex_raised] ex_promo [of "Tick (ex_ext 5) ex_raised"] by (metis one_less_numeral_iff semiring_norm(76))
qed

end
