(* ===== verification/Access_Store.thy ===== *)
theory Access_Store
  imports Sys_Templates
begin

text \<open>
  The tables behind the permission engine, as \<^verbatim>\<open>internal/repository/access_store.go\<close> reads and writes them, and the
  store the engine loads from (\<^verbatim>\<open>access_engine.go\<close>). A query is a function on the tables, in table order where the
  query gives none; a transaction is a function that returns the new tables or an error, after which nothing has
  changed. Connection failures are not modelled: a query answers. The binary decoding of rows and the legacy table
  \<^verbatim>\<open>project_members\<close>, which triggers keep in step and the engine never reads, are left out.
\<close>

section \<open>Tables\<close>

record AOrg =
  ao_ID :: uuid
  ao_Deleted :: bool
  ao_Mode :: string
  ao_Epoch :: int
  ao_MaxDays :: "int option"
  ao_CustomRoles :: "bool option"

record AUser =
  us_ID :: uuid
  us_Email :: string
  us_Name :: string
  us_Status :: string
  us_Epoch :: int

record OrgMember =
  om_Org :: uuid
  om_User :: uuid
  om_Role :: string
  om_Status :: string
  om_JoinedAt :: time
  om_Template :: "uuid option"
  om_Version :: "int option"

record TemplateRow =
  rt_ID :: uuid
  rt_Org :: "uuid option"
  rt_Kind :: string
  rt_Slug :: string
  rt_Name :: string
  rt_Description :: string
  rt_ClonedFrom :: "uuid option"
  rt_System :: bool
  rt_Current :: int
  rt_Archived :: "time option"

record VersionRow =
  rv_Template :: uuid
  rv_Version :: int
  rv_Permissions :: "string list"
  rv_Ceiling :: "string list option"
  rv_CeilingProject :: "string list option"
  rv_Floor :: "uuid option"
  rv_Base :: "uuid option"
  rv_Note :: string

record GroupRow =
  gr_ID :: uuid
  gr_Org :: uuid
  gr_Slug :: string
  gr_Name :: string
  gr_Description :: string
  gr_Archived :: "time option"

record GroupMember =
  gm_Group :: uuid
  gm_User :: uuid
  gm_Expires :: "time option"
  gm_AddedAt :: time

record ProjectRow =
  pj_ID :: uuid
  pj_Org :: uuid
  pj_Deleted :: bool
  pj_Override :: "string option"

record EnvRow =
  ev_ID :: uuid
  ev_Project :: uuid

record AssignRow =
  as_ID :: uuid
  as_Org :: uuid
  as_SubjectType :: string
  as_SubjectID :: uuid
  as_ScopeType :: string
  as_ScopeID :: uuid
  as_Template :: uuid
  as_Pinned :: "int option"
  as_Source :: string
  as_Reason :: string
  as_Expires :: "time option"
  as_CreatedBy :: "uuid option"
  as_CreatedAt :: time
  as_Revoked :: "time option"
  as_RevokedBy :: "uuid option"

record AAudit =
  ad_Org :: uuid
  ad_User :: uuid
  ad_Action :: string
  ad_Type :: string
  ad_Resource :: uuid
  ad_Project :: "uuid option"
  ad_Impact :: int

text \<open>The stored response of an idempotent request: the encoding of the value that was returned.\<close>

record AssignmentDTO =
  dto_Row :: AssignRow
  dto_TemplateSlug :: string
  dto_TemplateKind :: string
  dto_TemplateVersion :: int
  dto_Status :: string

record GroupDTO =
  gd_Row :: GroupRow
  gd_Members :: int

record Usage =
  ug_Users :: int
  ug_Groups :: int
  ug_Projects :: int

record TemplateDTO =
  td_Head :: TemplateRow
  td_Ver :: VersionRow
  td_FloorTemplate :: "string option"
  td_BaseTemplate :: "string option"
  td_Unknown :: "string list"
  td_Usage :: Usage

record Impact =
  im_Gains :: "string list"
  im_Loses :: "string list"
  im_CeilingChanged :: bool
  im_Users :: int
  im_Groups :: int
  im_Projects :: int

record PublishResult =
  pr_Published :: bool
  pr_Template :: TemplateDTO
  pr_Impact :: Impact

record UserRef =
  ur_ID :: uuid
  ur_Email :: string
  ur_Name :: string

record OverrideResult =
  ov_Mode :: "string option"
  ov_EffectiveMode :: string

record OrgMemberTplDTO =
  mt_Slug :: string
  mt_Version :: int
  mt_System :: bool

record OrgMemberDTO =
  md_User :: UserRef
  md_Role :: string
  md_Template :: "OrgMemberTplDTO option"
  md_Status :: string
  md_Groups :: "string list"
  md_JoinedAt :: time

datatype json = JUnit | JAssignment AssignmentDTO | JGroup GroupDTO | JMembers "GroupMember list" | JTemplate TemplateDTO | JPublish PublishResult
  | JOverride OverrideResult | JOrgMember OrgMemberDTO

record IdemRow =
  ik_Org :: uuid
  ik_User :: uuid
  ik_Key :: string
  ik_Hash :: string
  ik_Status :: int
  ik_Response :: json
  ik_CreatedAt :: time

record ADB =
  db_orgs :: "AOrg list"
  db_users :: "AUser list"
  db_members :: "OrgMember list"
  db_templates :: "TemplateRow list"
  db_versions :: "VersionRow list"
  db_groups :: "GroupRow list"
  db_group_members :: "GroupMember list"
  db_projects :: "ProjectRow list"
  db_environments :: "EnvRow list"
  db_assignments :: "AssignRow list"
  db_invitations :: "uuid option list"
  db_idempotency :: "IdemRow list"
  db_audit_logs :: "AAudit list"

definition MaxTemplatesPerOrg :: int where "MaxTemplatesPerOrg = 200"
definition MaxPermsPerTemplate :: int where "MaxPermsPerTemplate = 200"
definition MaxGroupsPerOrg :: int where "MaxGroupsPerOrg = 500"
definition MaxGroupMembers :: int where "MaxGroupMembers = 5000"
definition MaxAssignmentsPerOrg :: int where "MaxAssignmentsPerOrg = 100000"

section \<open>Read side\<close>

abbreviation org_live :: "ADB \<Rightarrow> uuid \<Rightarrow> AOrg option" where
  "org_live db g \<equiv> find (\<lambda>r. ao_ID r = g \<and> \<not> ao_Deleted r) (db_orgs db)"

record AccessMembership =
  mb_Status :: string
  mb_Template :: "uuid option"
  mb_Version :: "int option"
  mb_UserStatus :: string

definition LoadMembership :: "ADB \<Rightarrow> uuid \<Rightarrow> uuid \<Rightarrow> AccessMembership option" where
  "LoadMembership db g u =
     (case (find (\<lambda>m. om_Org m = g \<and> om_User m = u) (db_members db), org_live db g, find (\<lambda>x. us_ID x = u) (db_users db)) of
        (Some m, Some _, Some x) \<Rightarrow> Some \<lparr> mb_Status = om_Status m, mb_Template = om_Template m, mb_Version = om_Version m, mb_UserStatus = us_Status x \<rparr>
      | _ \<Rightarrow> None)"

definition LoadOrgPolicy :: "ADB \<Rightarrow> uuid \<Rightarrow> string res" where
  "LoadOrgPolicy db g = (case org_live db g of None \<Rightarrow> Inl ''not found'' | Some r \<Rightarrow> Inr (ao_Mode r))"

definition LoadProjectOverrides :: "ADB \<Rightarrow> uuid \<Rightarrow> (uuid, string) gomap" where
  "LoadProjectOverrides db g = List.map_filter (\<lambda>p. map_option (Pair (pj_ID p)) (pj_Override p))
     (filter (\<lambda>p. pj_Org p = g \<and> \<not> pj_Deleted p) (db_projects db))"

text \<open>A live assignment row with the expiry of the membership it comes through, if it comes through a group.\<close>

definition live_rows :: "ADB \<Rightarrow> uuid \<Rightarrow> string \<Rightarrow> uuid \<Rightarrow> AssignRow list" where
  "live_rows db g typ sid = filter (\<lambda>r. as_Org r = g \<and> as_Revoked r = None \<and> as_SubjectType r = typ \<and> as_SubjectID r = sid) (db_assignments db)"

definition group_rows :: "ADB \<Rightarrow> uuid \<Rightarrow> GroupMember \<Rightarrow> (AssignRow \<times> time option) list" where
  "group_rows db g m = concat (map (\<lambda>gr. map (\<lambda>r. (r, gm_Expires m)) (live_rows db g ''group'' (gr_ID gr)))
     (filter (\<lambda>gr. gr_ID gr = gm_Group m \<and> gr_Org gr = g \<and> gr_Archived gr = None) (db_groups db)))"

definition LoadUserAssignments :: "ADB \<Rightarrow> uuid \<Rightarrow> uuid \<Rightarrow> (AssignRow \<times> time option) list" where
  "LoadUserAssignments db g u = map (\<lambda>r. (r, None)) (live_rows db g ''user'' u) @
     concat (map (group_rows db g) (filter (\<lambda>m. gm_User m = u) (db_group_members db)))"

type_synonym TemplateRef = "uuid \<times> int"

definition template_version :: "ADB \<Rightarrow> TemplateRef \<Rightarrow> (TemplateRow \<times> VersionRow) option" where
  "template_version db r =
     (case find (\<lambda>t. rt_ID t = fst r) (db_templates db) of
        None \<Rightarrow> None
      | Some t \<Rightarrow> map_option (Pair t) (find (\<lambda>v. rv_Template v = fst r \<and> rv_Version v = (if snd r = 0 then rt_Current t else snd r)) (db_versions db)))"

definition LoadTemplateVersions :: "ADB \<Rightarrow> TemplateRef list \<Rightarrow> (TemplateRef, TemplateRow \<times> VersionRow) gomap" where
  "LoadTemplateVersions db refs = List.map_filter (\<lambda>r. map_option (Pair r) (template_version db r)) refs"

definition EnvProjects :: "ADB \<Rightarrow> uuid list \<Rightarrow> (uuid, uuid) gomap" where
  "EnvProjects db js = map (\<lambda>e. (ev_ID e, ev_Project e)) (filter (\<lambda>e. ev_ID e \<in> set js) (db_environments db))"

definition src_Epochs :: "ADB \<Rightarrow> uuid \<Rightarrow> uuid \<Rightarrow> Epochs res" where
  "src_Epochs db g u =
     (case (find (\<lambda>r. ao_ID r = g) (db_orgs db), find (\<lambda>x. us_ID x = u) (db_users db)) of
        (Some r, Some x) \<Rightarrow> Inr \<lparr> ep_Org = ao_Epoch r, ep_User = us_Epoch x \<rparr>
      | _ \<Rightarrow> Inl ''loading epochs'')"

section \<open>The store of the engine (access\_engine.go)\<close>

definition pin_of :: "int option \<Rightarrow> int" where
  "pin_of v = (case v of None \<Rightarrow> 0 | Some n \<Rightarrow> n)"

definition row_ref :: "AssignRow \<times> time option \<Rightarrow> TemplateRef" where
  "row_ref a = (as_Template (fst a), pin_of (as_Pinned (fst a)))"

definition org_template :: "ADB \<Rightarrow> TemplateRow \<Rightarrow> VersionRow \<Rightarrow> OrgTemplate" where
  "org_template db t v =
     (let fbv = LoadTemplateVersions db (map (\<lambda>i. (i, 0)) ((case rv_Floor v of None \<Rightarrow> [] | Some i \<Rightarrow> [i]) @ (case rv_Base v of None \<Rightarrow> [] | Some i \<Rightarrow> [i])));
          part = (\<lambda>i. case i of None \<Rightarrow> empty_set | Some i \<Rightarrow> (case gomap_get fbv (i, 0) of None \<Rightarrow> empty_set | Some tv \<Rightarrow> NewSet (rv_Permissions (snd tv))));
          ceil = (case rv_Ceiling v of None \<Rightarrow> empty_set | Some c \<Rightarrow> NewSet c)
      in \<lparr> tpl_ID = rt_ID t, tpl_Slug = rt_Slug t, tpl_Version = rv_Version v, tpl_Permissions = NewSet (rv_Permissions v),
           tpl_FloorID = (case rv_Floor v of None \<Rightarrow> uuid_Nil | Some i \<Rightarrow> i), tpl_BaseID = (case rv_Base v of None \<Rightarrow> uuid_Nil | Some i \<Rightarrow> i),
           tpl_Floor = part (rv_Floor v), tpl_Base = part (rv_Base v), tpl_HasCeiling = rv_Ceiling v \<noteq> None, tpl_Ceiling = ceil,
           tpl_CeilingProject = (if rv_Ceiling v = None then empty_set else case rv_CeilingProject v of None \<Rightarrow> ceil | Some c \<Rightarrow> NewSet c) \<rparr>)"

definition row_scope :: "AssignRow \<Rightarrow> (ScopeType \<times> uuid \<times> uuid) option" where
  "row_scope r =
     (if as_ScopeType r = ''org'' then Some (StOrg, uuid_Nil, uuid_Nil)
      else if as_ScopeType r = ''project'' then Some (StProject, as_ScopeID r, as_ScopeID r)
      else if as_ScopeType r = ''repo'' then Some (StRepo, as_ScopeID r, as_ScopeID r)
      else if as_ScopeType r = ''env'' then Some (StEnv, as_ScopeID r, uuid_Nil)
      else None)"

definition row_expiry :: "AssignRow \<times> time option \<Rightarrow> time" where
  "row_expiry a = (let e = as_Expires (fst a) in
     case (case snd a of None \<Rightarrow> e | Some g \<Rightarrow> (case e of None \<Rightarrow> Some g | Some t \<Rightarrow> if g < t then Some g else Some t)) of
       None \<Rightarrow> 0 | Some t \<Rightarrow> t)"

definition row_assignment :: "(TemplateRef, TemplateRow \<times> VersionRow) gomap \<Rightarrow> AssignRow \<times> time option \<Rightarrow> Assignment option" where
  "row_assignment vers a =
     (case gomap_get vers (row_ref a) of
        None \<Rightarrow> None
      | Some (t, v) \<Rightarrow>
          (case row_scope (fst a) of
             None \<Rightarrow> None
           | Some (sc, sid, pid) \<Rightarrow>
               Some \<lparr> a_ID = as_ID (fst a), a_SubjectKind = (if as_SubjectType (fst a) = ''user'' then SubjectUser else SubjectGroup),
                      a_SubjectID = as_SubjectID (fst a), a_Scope = sc, a_ScopeID = sid, a_ProjectID = pid,
                      a_TemplateID = as_Template (fst a), a_TemplateSlug = rt_Slug t, a_TemplateVersion = rv_Version v,
                      a_Permissions = NewSet (rv_Permissions v), a_Source = as_Source (fst a), a_ExpiresAt = row_expiry a \<rparr>))"

definition place_env :: "(uuid, uuid) gomap \<Rightarrow> Assignment \<Rightarrow> Assignment option" where
  "place_env ep a = (if a_Scope a = StEnv then map_option (\<lambda>p. a\<lparr> a_ProjectID := p \<rparr>) (gomap_get ep (a_ScopeID a)) else Some a)"

definition load_template :: "ADB \<Rightarrow> (TemplateRef, TemplateRow \<times> VersionRow) gomap \<Rightarrow> TemplateRef option \<Rightarrow> OrgTemplate option" where
  "load_template db vers orgRef =
     (case orgRef of
        None \<Rightarrow> None
      | Some r \<Rightarrow> (case gomap_get vers r of
                      Some (t, v) \<Rightarrow> if rt_Archived t = None \<and> rt_Kind t = ''org'' then Some (org_template db t v) else None
                    | None \<Rightarrow> None))"

definition load_assignments :: "ADB \<Rightarrow> (TemplateRef, TemplateRow \<times> VersionRow) gomap \<Rightarrow> (AssignRow \<times> time option) list \<Rightarrow> Assignment list" where
  "load_assignments db vers rows =
     (let as = List.map_filter (row_assignment vers) rows; envs = map a_ScopeID (filter (\<lambda>a. a_Scope a = StEnv) as)
      in if envs = [] then as else List.map_filter (place_env (EnvProjects db envs)) as)"

definition engine_LoadAccess :: "ADB \<Rightarrow> uuid \<Rightarrow> uuid \<Rightarrow> AccessData res" where
  "engine_LoadAccess db u g =
     (case src_Epochs db g u of
        Inl err \<Rightarrow> Inl err
      | Inr ep \<Rightarrow>
          (case LoadMembership db g u of
             None \<Rightarrow> Inr (zero_AccessData\<lparr> d_Epochs := ep \<rparr>)
           | Some m \<Rightarrow>
               (case LoadOrgPolicy db g of
                  Inl err \<Rightarrow> Inl err
                | Inr mode \<Rightarrow>
                    let rows = LoadUserAssignments db g u;
                        orgRef = map_option (\<lambda>i. (i, pin_of (mb_Version m))) (mb_Template m);
                        vers = LoadTemplateVersions db (remdups ((case orgRef of None \<Rightarrow> [] | Some r \<Rightarrow> [r]) @ map row_ref rows))
                    in Inr \<lparr> d_Member = True, d_UserActive = mb_UserStatus m = ''active'', d_MemberActive = mb_Status m = ''active'',
                             d_Template = load_template db vers orgRef, d_Policy = mode, d_ProjectOverrides = LoadProjectOverrides db g,
                             d_Assignments = load_assignments db vers rows, d_Epochs = ep \<rparr>)))"

text \<open>\<open>wait\<close> is what a caller that joins a load in flight sees; only other goroutines determine it.\<close>

definition engine_store :: "(cacheKey \<Rightarrow> snapshot res) \<Rightarrow> ADB \<Rightarrow> Store" where
  "engine_store wait db = \<lparr> st_LoadAccess = (\<lambda>k. map_sum id Some (engine_LoadAccess db (fst k) (snd k))),
     st_Epochs = (\<lambda>k. src_Epochs db (snd k) (fst k)), st_wait = wait \<rparr>"

section \<open>Transactions\<close>

datatype repo_error = ErrSystemTemplate | ErrTemplateArchived | ErrTemplateInUse | ErrReservedSlug | ErrAccessLimit | ErrAccessConflict | ErrAccessInvalid

datatype detail = DText string | DList "string list" | DFields "(string \<times> string) list" | DRefs "UserRef list" | DInt int

text \<open>\<open>InTx\<close> takes the error for a missing organization as an argument.
  \<^verbatim>\<open>Error\<close> of \<^verbatim>\<open>internal/access/errors.go\<close> (status, code, message, details), the errors of the repository, and the rest.\<close>

datatype aerr = AError int string string "(string \<times> detail) list" | ADomainNotFound | ARepo repo_error string | AInternal string

definition bump_org :: "uuid \<Rightarrow> ADB \<Rightarrow> ADB" where
  "bump_org g db = db\<lparr> db_orgs := map (\<lambda>r. if ao_ID r = g then r\<lparr> ao_Epoch := ao_Epoch r + 1 \<rparr> else r) (db_orgs db) \<rparr>"

definition InTx :: "uuid \<Rightarrow> 'e \<Rightarrow> (ADB \<Rightarrow> 'e + 'a \<times> ADB) \<Rightarrow> ADB \<Rightarrow> ('e + 'a) \<times> ADB" where
  "InTx g missing fn db =
     (case org_live db g of
        None \<Rightarrow> (Inl missing, db)
      | Some _ \<Rightarrow> (case fn db of Inl e \<Rightarrow> (Inl e, db) | Inr (v, db') \<Rightarrow> (Inr v, bump_org g db')))"

section \<open>What the store loads\<close>

text \<open>\<open>row_grant\<close> is the assignment a row stands for, read off the tables directly: with the template version it
  names and, for an environment, the project the environment belongs to.\<close>

definition row_place :: "ADB \<Rightarrow> AssignRow \<Rightarrow> (ScopeType \<times> uuid \<times> uuid) option" where
  "row_place db r = (case row_scope r of
       Some (StEnv, sid, pid) \<Rightarrow> map_option (\<lambda>p. (StEnv, sid, p)) (map_of (map (\<lambda>e. (ev_ID e, ev_Project e)) (db_environments db)) sid)
     | p \<Rightarrow> p)"

definition row_grant :: "ADB \<Rightarrow> AssignRow \<times> time option \<Rightarrow> Assignment option" where
  "row_grant db a =
     (case template_version db (row_ref a) of
        None \<Rightarrow> None
      | Some (t, v) \<Rightarrow>
          (case row_place db (fst a) of
             None \<Rightarrow> None
           | Some (sc, sid, pid) \<Rightarrow>
               Some \<lparr> a_ID = as_ID (fst a), a_SubjectKind = (if as_SubjectType (fst a) = ''user'' then SubjectUser else SubjectGroup),
                      a_SubjectID = as_SubjectID (fst a), a_Scope = sc, a_ScopeID = sid, a_ProjectID = pid,
                      a_TemplateID = as_Template (fst a), a_TemplateSlug = rt_Slug t, a_TemplateVersion = rv_Version v,
                      a_Permissions = NewSet (rv_Permissions v), a_Source = as_Source (fst a), a_ExpiresAt = row_expiry a \<rparr>))"

definition member_template :: "ADB \<Rightarrow> AccessMembership \<Rightarrow> OrgTemplate option" where
  "member_template db m =
     (case mb_Template m of
        None \<Rightarrow> None
      | Some i \<Rightarrow> (case template_version db (i, pin_of (mb_Version m)) of
                      Some (t, v) \<Rightarrow> if rt_Archived t = None \<and> rt_Kind t = ''org'' then Some (org_template db t v) else None
                    | None \<Rightarrow> None))"

lemma map_of_map_filter:
  "map_of (List.map_filter (\<lambda>r. map_option (Pair r) (f r)) rs) r = (if r \<in> set rs then f r else None)"
  by (induction rs) (auto simp: map_filter_simps split: option.split)

lemma get_LoadTemplateVersions [simp]:
  "gomap_get (LoadTemplateVersions db refs) r = (if r \<in> set refs then template_version db r else None)"
  by (simp add: LoadTemplateVersions_def map_of_map_filter)

lemma get_EnvProjects:
  "i \<in> set js \<Longrightarrow> gomap_get (EnvProjects db js) i = map_of (map (\<lambda>e. (ev_ID e, ev_Project e)) (db_environments db)) i"
proof -
  have "i \<in> set js \<Longrightarrow> map_of (map (\<lambda>e. (ev_ID e, ev_Project e)) (filter (\<lambda>e. ev_ID e \<in> set js) es)) i =
      map_of (map (\<lambda>e. (ev_ID e, ev_Project e)) es) i" for es
    by (induction es) auto
  then show "i \<in> set js \<Longrightarrow> ?thesis" by (simp add: EnvProjects_def)
qed

lemma map_filter_bind: "List.map_filter g (List.map_filter f xs) = List.map_filter (\<lambda>x. Option.bind (f x) g) xs"
  by (induction xs) (auto simp: map_filter_simps split: option.split)

lemma map_filter_cong: "(\<And>x. x \<in> set xs \<Longrightarrow> f x = g x) \<Longrightarrow> List.map_filter f xs = List.map_filter g xs"
  by (induction xs) (auto simp: map_filter_simps split: option.split)

lemma set_map_filter: "set (List.map_filter f xs) = {y. \<exists>x \<in> set xs. f x = Some y}"
  by (induction xs) (auto simp: map_filter_simps split: option.split)

lemma map_filter_Some: "List.map_filter Some xs = xs"
  by (induction xs) (auto simp: map_filter_simps)

lemma place_row:
  assumes "gomap_get vers (row_ref a) = template_version db (row_ref a)"
    and "\<And>b. row_assignment vers a = Some b \<Longrightarrow> a_Scope b = StEnv \<Longrightarrow> gomap_get ep (a_ScopeID b) =
          map_of (map (\<lambda>e. (ev_ID e, ev_Project e)) (db_environments db)) (a_ScopeID b)"
  shows "Option.bind (row_assignment vers a) (place_env ep) = row_grant db a"
  using assms
  by (auto simp: row_assignment_def row_grant_def row_place_def row_scope_def place_env_def split: option.splits if_splits)

lemma load_assignments_grants:
  assumes "\<And>a. a \<in> set rows \<Longrightarrow> gomap_get vers (row_ref a) = template_version db (row_ref a)"
  shows "load_assignments db vers rows = List.map_filter (row_grant db) rows"
proof -
  let ?as = "List.map_filter (row_assignment vers) rows"
  let ?envs = "map a_ScopeID (filter (\<lambda>a. a_Scope a = StEnv) ?as)"
  have "List.map_filter (place_env (EnvProjects db ?envs)) ?as = List.map_filter (row_grant db) rows"
    unfolding map_filter_bind
  proof (rule map_filter_cong, rule place_row)
    fix a b assume "a \<in> set rows" "row_assignment vers a = Some b" "a_Scope b = StEnv"
    then show "gomap_get (EnvProjects db ?envs) (a_ScopeID b) = map_of (map (\<lambda>e. (ev_ID e, ev_Project e)) (db_environments db)) (a_ScopeID b)"
      by (intro get_EnvProjects) (auto simp: set_map_filter)
  qed (use assms in auto)
  moreover have "List.map_filter (place_env (EnvProjects db ?envs)) ?as = ?as" if "?envs = []"
    using that map_filter_cong [of ?as "place_env (EnvProjects db ?envs)" Some] by (auto simp: place_env_def filter_empty_conv map_filter_Some)
  ultimately show ?thesis by (auto simp: load_assignments_def Let_def)
qed

lemma load_template_member:
  "load_template db (LoadTemplateVersions db (remdups ((case orgRef of None \<Rightarrow> [] | Some r \<Rightarrow> [r]) @ refs))) orgRef =
     (case orgRef of None \<Rightarrow> None | Some r \<Rightarrow> (case template_version db r of
        Some (t, v) \<Rightarrow> if rt_Archived t = None \<and> rt_Kind t = ''org'' then Some (org_template db t v) else None | None \<Rightarrow> None))"
  by (simp add: load_template_def split: option.split)

text \<open>What the store loads, without the batches of the code.\<close>

lemma LoadAccess_eq:
  "engine_LoadAccess db u g =
     (case src_Epochs db g u of
        Inl err \<Rightarrow> Inl err
      | Inr ep \<Rightarrow>
          (case LoadMembership db g u of
             None \<Rightarrow> Inr (zero_AccessData\<lparr> d_Epochs := ep \<rparr>)
           | Some m \<Rightarrow> map_sum id (\<lambda>mode. \<lparr> d_Member = True, d_UserActive = mb_UserStatus m = ''active'', d_MemberActive = mb_Status m = ''active'',
                 d_Template = member_template db m, d_Policy = mode, d_ProjectOverrides = LoadProjectOverrides db g,
                 d_Assignments = List.map_filter (row_grant db) (LoadUserAssignments db g u), d_Epochs = ep \<rparr>) (LoadOrgPolicy db g)))"
proof -
  have "load_assignments db (LoadTemplateVersions db (remdups (l @ map row_ref rows))) rows = List.map_filter (row_grant db) rows" for l rows
    by (rule load_assignments_grants) simp
  moreover have "load_template db (LoadTemplateVersions db (remdups ((case orgRef of None \<Rightarrow> [] | Some r \<Rightarrow> [r]) @ refs))) orgRef = member_template db m"
    if "orgRef = map_option (\<lambda>i. (i, pin_of (mb_Version m))) (mb_Template m)" for orgRef refs m
    unfolding load_template_member by (simp add: that member_template_def split: option.split)
  ultimately show ?thesis by (simp add: engine_LoadAccess_def Let_def split: sum.split option.split)
qed

section \<open>Invariant of the tables\<close>

text \<open>Primary keys, the unique index over live assignments, and instants after the zero time.\<close>

definition same_live :: "AssignRow \<Rightarrow> AssignRow \<Rightarrow> bool" where
  "same_live a b \<longleftrightarrow> as_Revoked a = None \<and> as_Revoked b = None \<and>
     (as_SubjectType a, as_SubjectID a, as_ScopeType a, as_ScopeID a, as_Template a) = (as_SubjectType b, as_SubjectID b, as_ScopeType b, as_ScopeID b, as_Template b)"

definition adb_wf :: "ADB \<Rightarrow> bool" where
  "adb_wf db \<longleftrightarrow> distinct (map ao_ID (db_orgs db)) \<and> distinct (map us_ID (db_users db)) \<and> distinct (map (\<lambda>m. (om_Org m, om_User m)) (db_members db)) \<and> distinct (map pj_ID (db_projects db)) \<and>
     distinct (map ev_ID (db_environments db)) \<and> distinct (map gr_ID (db_groups db)) \<and>
     distinct (map (\<lambda>m. (gm_Group m, gm_User m)) (db_group_members db)) \<and>
     distinct (map as_ID (db_assignments db)) \<and>
     (\<forall>a \<in> set (db_assignments db). \<forall>b \<in> set (db_assignments db). same_live a b \<longrightarrow> a = b) \<and>
     (\<forall>a \<in> set (db_assignments db). \<forall>t. as_Expires a = Some t \<longrightarrow> 0 < t) \<and>
     (\<forall>m \<in> set (db_group_members db). \<forall>t. gm_Expires m = Some t \<longrightarrow> 0 < t)"

lemma row_grant_place:
  "row_grant db r = Some a \<Longrightarrow> row_place db (fst r) = Some (a_Scope a, a_ScopeID a, a_ProjectID a)"
  by (auto simp: row_grant_def split: option.splits)

lemma placed_once:
  assumes "row_place db r = Some (sc, sid, p)" "row_place db r' = Some (sc, sid, p')" "sc \<in> {StRepo, StEnv}"
  shows "p = p'"
  using assms by (auto simp: row_place_def row_scope_def split: if_splits option.splits)

lemma overrides_wf:
  assumes "distinct (map pj_ID (db_projects db))"
  shows "gomap_wf (LoadProjectOverrides db g)"
proof -
  have "map fst (List.map_filter (\<lambda>p. map_option (Pair (pj_ID p)) (pj_Override p)) ps) = map pj_ID (filter (\<lambda>p. pj_Override p \<noteq> None) ps)" for ps
    by (induction ps) (auto simp: map_filter_simps split: option.split)
  then have "map fst (LoadProjectOverrides db g) = map pj_ID (filter (\<lambda>p. pj_Override p \<noteq> None) (filter (\<lambda>p. pj_Org p = g \<and> \<not> pj_Deleted p) (db_projects db)))"
    unfolding LoadProjectOverrides_def .
  then show ?thesis using distinct_map_filter [OF distinct_map_filter [OF assms]] by presburger
qed

definition loaded :: "ADB \<Rightarrow> uuid \<Rightarrow> uuid \<Rightarrow> AccessMembership \<Rightarrow> AOrg \<Rightarrow> Epochs \<Rightarrow> AccessData" where
  "loaded db u g m r ep = \<lparr> d_Member = True, d_UserActive = mb_UserStatus m = ''active'', d_MemberActive = mb_Status m = ''active'',
     d_Template = member_template db m, d_Policy = ao_Mode r, d_ProjectOverrides = LoadProjectOverrides db g,
     d_Assignments = List.map_filter (row_grant db) (LoadUserAssignments db g u), d_Epochs = ep \<rparr>"

lemma LoadAccess_cases:
  assumes "engine_LoadAccess db u g = Inr d"
  obtains (outsider) ep where "LoadMembership db g u = None" "src_Epochs db g u = Inr ep" "d = zero_AccessData\<lparr> d_Epochs := ep \<rparr>"
  | (member) m r ep where "LoadMembership db g u = Some m" "org_live db g = Some r" "src_Epochs db g u = Inr ep" "d = loaded db u g m r ep"
proof (cases "LoadMembership db g u")
  case None then show ?thesis using assms outsider by (auto simp: LoadAccess_eq split: sum.splits)
next
  case (Some m)
  then obtain r where r: "org_live db g = Some r" by (auto simp: LoadMembership_def split: option.splits)
  show ?thesis using assms Some r member by (auto simp: LoadAccess_eq LoadOrgPolicy_def loaded_def split: sum.splits)
qed

lemma LoadAccess_wf:
  assumes "adb_wf db" "engine_LoadAccess db u g = Inr d"
  shows "data_wf d"
proof -
  have "gomap_wf (LoadProjectOverrides db g)" using assms(1) by (intro overrides_wf) (simp add: adb_wf_def)
  moreover have "a_ProjectID a = a_ProjectID a'"
    if a: "row_grant db r = Some a" "row_grant db r' = Some a'" and "a_Scope a = a_Scope a' \<and> a_Scope a \<in> {StRepo, StEnv} \<and> a_ScopeID a = a_ScopeID a'" for r r' a a'
    using placed_once [OF row_grant_place [OF a(1)], of "fst r'" "a_ProjectID a'"] row_grant_place [OF a(2)] that(3) by metis
  ultimately have wf: "data_wf (loaded db u g m r ep)" for m r ep
    unfolding data_wf_def loaded_def by (simp only: set_map_filter AccessData.select_convs mem_Collect_eq Ball_def) blast
  have zero: "data_wf (zero_AccessData\<lparr> d_Epochs := ep \<rparr>)" for ep by (simp add: data_wf_def zero_AccessData_def)
  show ?thesis by (rule LoadAccess_cases [OF assms(2)]) (simp_all only: wf zero)
qed

section \<open>The contract with the engine\<close>

text \<open>What the engine relies on: the store answers with well-formed data that carries its epochs. \<open>current\<close> says that
  the cache holds nothing stale for the pair and no load of it is in flight; a strict read establishes it, and
  every read keeps it, so all the reads of one request see the same data.\<close>

locale access_source =
  fixes store :: "'d \<Rightarrow> Store" and ok :: "'d \<Rightarrow> bool"
  assumes load_wf: "ok d \<Longrightarrow> st_LoadAccess (store d) k = Inr od \<Longrightarrow> data_wf (or_zero od)"
    and load_epochs: "st_LoadAccess (store d) k = Inr od \<Longrightarrow> st_Epochs (store d) k = Inr (d_Epochs (or_zero od))"
begin

definition current :: "'d \<Rightarrow> Engine \<Rightarrow> cacheKey \<Rightarrow> bool" where
  "current d e k \<longleftrightarrow> gomap_get (e_inflight e) k = None \<and>
     (\<forall>s od. cache_lookup (e_cache e) k = Some s \<longrightarrow> st_LoadAccess (store d) k = Inr od \<longrightarrow> s_data s = or_zero od)"

lemma current_compile:
  assumes "engine_wf e now" "gomap_get (e_inflight e) k = None" "st_LoadAccess (store d) k = Inr od"
  shows "current d (snd (compileNow (store d) e k now)) k"
  using assms sc.lookup_put_same [of "e_cache e" k] by (simp add: compileNow_def Let_def current_def engine_wf_def)

lemma current_touch:
  "engine_wf e now \<Longrightarrow> current d e k \<Longrightarrow> e_cache e1 = cache_touch (e_cache e) k t \<Longrightarrow> e_inflight e1 = e_inflight e \<Longrightarrow> current d e1 k"
  by (simp add: current_def engine_wf_def sc.lookup_touch)

lemma current_shared:
  assumes "engine_wf e now" "gomap_get (e_inflight e) k = None" "st_LoadAccess (store d) k = Inr od"
  shows "current d (snd (loadShared (store d) e k now)) k"
proof -
  let ?e = "e\<lparr> e_inflight := gomap_set k 0 (e_inflight e) \<rparr>"
  have "cache_lookup (e_cache (snd (compileNow (store d) ?e k now))) k = Some (compile (fst k) (snd k) (or_zero od) now (e_ttl e))"
    using assms(1,3) sc.lookup_put_same [of "e_cache e" k] by (simp add: compileNow_def Let_def engine_wf_def)
  then show ?thesis using assms(2,3) by (simp add: loadShared_def case_prod_unfold Let_def current_def)
qed

text \<open>The strict read of a coherent cache, and any read of a current one.\<close>

lemma strict_current:
  assumes wf: "engine_wf e now" and co: "coherent (store d) e k" and fl: "gomap_get (e_inflight e) k = None"
    and load: "st_LoadAccess (store d) k = Inr od"
  shows "current d (snd (engine_snapshot (store d) e k True now)) k"
proof (cases rule: engine_snapshot_cases [of e k now True "store d"])
  case (hit s e1)
  have "s_data s = or_zero od" using co hit(1,3) load by (simp add: coherent_def)
  then have "current d e k" using hit(1) load fl by (simp add: current_def)
  then show ?thesis using current_touch [OF wf _ hit(5,7)] hit(4) by simp
next
  case (strict_load e1)
  have "engine_wf e1 now" "gomap_get (e_inflight e1) k = None" using engine_wf_touch [OF wf strict_load(3,4)] fl strict_load(5) by simp_all
  then show ?thesis using current_compile [OF _ _ load] strict_load(2) by simp
qed (use load_epochs [OF load] in simp_all)

lemma read_current:
  assumes wf: "engine_wf e now" and cur: "current d e k" and load: "st_LoadAccess (store d) k = Inr od"
  shows "current d (snd (engine_snapshot (store d) e k strict now)) k"
    and "\<exists>s. fst (engine_snapshot (store d) e k strict now) = Inr s \<and> decides_on (or_zero od) e k now s"
proof -
  have fl: "gomap_get (e_inflight e) k = None" using cur by (simp add: current_def)
  have "current d (snd (engine_snapshot (store d) e k strict now)) k \<and>
      (\<exists>s. fst (engine_snapshot (store d) e k strict now) = Inr s \<and> decides_on (or_zero od) e k now s)"
  proof (cases rule: engine_snapshot_cases [of e k now strict "store d"])
    case (hit s e1)
    have "s_data s = or_zero od" using cur hit(1) load by (simp add: current_def)
    then show ?thesis using cached_decides(1) [OF wf hit(1,2)] current_touch [OF wf cur hit(5,7)] hit(4) by simp
  next
    case (strict_load e1)
    have "engine_wf e1 now" "gomap_get (e_inflight e1) k = None" using engine_wf_touch [OF wf strict_load(3,4)] fl strict_load(5) by simp_all
    then show ?thesis using current_compile [OF _ _ load] compileNow_fresh [OF load, of e1 now] strict_load(2,4) by (simp add: decides_on_def)
  next
    case (shared_load e1)
    have "engine_wf e1 now" "gomap_get (e_inflight e1) k = None" using engine_wf_touch [OF wf shared_load(3,4)] fl shared_load(5) by simp_all
    then show ?thesis using current_shared [OF _ _ load] loadShared_fresh [OF load, of e1 now] shared_load(2,4) by (simp add: decides_on_def)
  qed (use load_epochs [OF load] in simp_all)
  then show "current d (snd (engine_snapshot (store d) e k strict now)) k"
    and "\<exists>s. fst (engine_snapshot (store d) e k strict now) = Inr s \<and> decides_on (or_zero od) e k now s" by simp_all
qed

text \<open>A read of one pair leaves the cache current for the others.\<close>

lemma current_other:
  assumes wf: "engine_wf e now" and cur: "current d e k'" and k: "k' \<noteq> k"
  shows "current d (snd (engine_snapshot st e k strict now)) k'"
proof -
  have compile: "current d (snd (compileNow st e1 k now)) k'" if "engine_wf e1 now" "current d e1 k'" for e1
    using that k sc.lookup_put_other [of "e_cache e1" k' k] by (auto simp: compileNow_def Let_def current_def engine_wf_def split: sum.split)
  have shared: "current d (snd (loadShared st e1 k now)) k'" if e1: "engine_wf e1 now" "current d e1 k'" for e1
  proof -
    let ?e = "e1\<lparr> e_inflight := gomap_set k 0 (e_inflight e1) \<rparr>"
    have "current d (snd (compileNow st ?e k now)) k'" by (rule compile) (use e1 k in \<open>simp_all add: engine_wf_def current_def\<close>)
    then show ?thesis using e1(2) k by (auto simp: loadShared_def case_prod_unfold Let_def current_def split: option.split)
  qed
  have touch: "current d e1 k'" if "e_cache e1 = cache_touch (e_cache e) k now" "e_inflight e1 = e_inflight e" for e1
    using that cur wf by (simp add: current_def engine_wf_def sc.lookup_touch)
  show ?thesis
  proof (cases rule: engine_snapshot_cases [of e k now strict st])
    case (hit s e1) then show ?thesis using touch by simp
  next
    case (epoch_error x e1) then show ?thesis using touch by simp
  next
    case (strict_load e1) then show ?thesis using compile [OF engine_wf_touch [OF wf strict_load(3,4)] touch] by simp
  next
    case (shared_load e1) then show ?thesis using shared [OF engine_wf_touch [OF wf shared_load(3,4)] touch] by simp
  qed
qed

text \<open>A read that answers at once for the data the store holds, and leaves the cache current.\<close>

definition reads :: "'d \<Rightarrow> cacheKey \<Rightarrow> AccessData \<Rightarrow> EScope \<Rightarrow> time \<Rightarrow> (Access \<times> pset) res \<times> Engine \<Rightarrow> bool" where
  "reads d k a sc now r \<longleftrightarrow> (\<exists>acc st. fst r = Inr (acc, st) \<and> {b. HasBit st b} = spec_effective a now sc) \<and>
     engine_wf (snd r) now \<and> current d (snd r) k"

lemma snapshot_reads:
  assumes "ok d" "st_LoadAccess (store d) k = Inr od" "engine_wf e now"
    and "current d (snd (engine_snapshot (store d) e k strict now)) k"
    and "fst (engine_snapshot (store d) e k strict now) = Inr s" "decides_on (or_zero od) e k now s"
  shows "reads d k (or_zero od) sc now (effective (store d) e k sc strict now)"
proof -
  have "snapshot_has s sc b \<longleftrightarrow> b \<in> spec_effective (or_zero od) now sc" for b
    using decides_on_has [OF assms(6) load_wf [OF assms(1,2)]] .
  then have "{b. HasBit (fst (scopeSet s sc)) b} = spec_effective (or_zero od) now sc" by (auto simp: snapshot_has_def)
  moreover have "snd (effective (store d) e k sc strict now) = snd (engine_snapshot (store d) e k strict now)"
    by (simp add: effective_def with_snapshot_def case_prod_unfold Let_def)
  ultimately show ?thesis using engine_snapshot_wf [OF assms(3)] assms(4,5)
    by (auto simp: reads_def effective_def with_snapshot_eq case_prod_unfold Let_def)
qed

lemma effective_current:
  assumes "ok d" "st_LoadAccess (store d) k = Inr od" "engine_wf e now" "current d e k"
  shows "reads d k (or_zero od) sc now (effective (store d) e k sc strict now)"
  using read_current [OF assms(3,4,2), of strict] snapshot_reads [OF assms(1-3), of strict] by blast

lemma effective_strict:
  assumes "ok d" "st_LoadAccess (store d) k = Inr od" "engine_wf e now" "coherent (store d) e k" "gomap_get (e_inflight e) k = None"
  shows "reads d k (or_zero od) sc now (effective (store d) e k sc True now)"
  using strict_current [OF assms(3-5,2)] strict_snapshot_current [OF assms(3,4,2) load_epochs [OF assms(2)]] snapshot_reads [OF assms(1-3), of True] by blast

end

lemma LoadAccess_epochs: "engine_LoadAccess db u g = Inr d \<Longrightarrow> src_Epochs db g u = Inr (d_Epochs d)"
  by (erule LoadAccess_cases) (simp_all add: loaded_def)

interpretation src: access_source "engine_store wait" adb_wf for wait
proof
  fix d k od assume "adb_wf d" "st_LoadAccess (engine_store wait d) k = Inr od"
  then show "data_wf (or_zero od)" using LoadAccess_wf [of d "fst k" "snd k"]
    by (cases "engine_LoadAccess d (fst k) (snd k)") (auto simp: engine_store_def or_zero_def)
next
  fix d k od assume "st_LoadAccess (engine_store wait d) k = Inr od"
  then show "st_Epochs (engine_store wait d) k = Inr (d_Epochs (or_zero od))" using LoadAccess_epochs [of d "fst k" "snd k"]
    by (cases "engine_LoadAccess d (fst k) (snd k)") (auto simp: engine_store_def or_zero_def)
qed

end
