(* ===== verification/Access_Admin.thy ===== *)
theory Access_Admin
  imports Access_Store
begin

text \<open>
  The administration of access (\<^verbatim>\<open>internal/access\<close>): the errors, the validation of permission lists (\<^verbatim>\<open>perms.go\<close>), the
  authorization of a request and the idempotent write (\<^verbatim>\<open>service.go\<close>), and the operations on assignments
  (\<^verbatim>\<open>assignments.go\<close>).

  A request reads one clock, the tables as they are when it arrives, and the engine, whose cache it may change; its
  write is one transaction. The operations return the answer, the tables and the engine. Of the audit row the
  encoded old and new values are left out, and so are the numbers inside messages, the cache of \<^verbatim>\<open>/me/permissions\<close> and the labels of a response.
\<close>

section \<open>Errors (errors.go)\<close>

definition notFound :: "string \<Rightarrow> aerr" where "notFound msg = AError 404 ''NOT_FOUND'' msg []"

definition forbidden :: "string \<Rightarrow> aerr" where "forbidden msg = AError 403 ''FORBIDDEN'' msg []"

definition reason_details :: "string list \<Rightarrow> string \<Rightarrow> (string \<times> detail) list" where
  "reason_details missing reason = (if missing \<noteq> [] then [(''missing'', DList missing)] else []) @ (if reason \<noteq> [] then [(''reason'', DText reason)] else [])"

definition denied :: "string \<Rightarrow> string list \<Rightarrow> string \<Rightarrow> aerr" where
  "denied perm missing reason = AError 403 ''FORBIDDEN'' ''your role does not allow this action''
     ([(''code'', DText ''PERMISSION_DENIED''), (''permission'', DText perm)] @ reason_details missing reason)"

definition escalation :: "string \<Rightarrow> string list \<Rightarrow> string \<Rightarrow> aerr" where
  "escalation msg missing reason = AError 403 ''FORBIDDEN'' msg ((''code'', DText ''ESCALATION'') # reason_details missing reason)"

definition validation :: "(string \<times> string) list \<Rightarrow> aerr" where
  "validation fs = AError 422 ''VALIDATION_ERROR'' ''validation failed'' [(''fields'', DFields fs)]"

definition validationField :: "string \<Rightarrow> string \<Rightarrow> aerr" where "validationField field msg = validation [(field, msg)]"

definition validationDetails :: "string \<Rightarrow> (string \<times> detail) list \<Rightarrow> aerr" where
  "validationDetails msg details = AError 422 ''VALIDATION_ERROR'' msg details"

definition conflict :: "string \<Rightarrow> string \<Rightarrow> aerr" where
  "conflict code msg = AError 409 ''CONFLICT'' msg [(''code'', DText code)]"

definition limitErr :: "string \<Rightarrow> aerr" where
  "limitErr msg = AError 422 ''VALIDATION_ERROR'' msg [(''code'', DText ''LIMIT_EXCEEDED'')]"

definition asError :: "aerr \<Rightarrow> aerr option" where
  "asError e = (case e of
       AError _ _ _ _ \<Rightarrow> Some e
     | ADomainNotFound \<Rightarrow> Some (notFound ''resource not found'')
     | ARepo ErrSystemTemplate m \<Rightarrow> Some (conflict ''SYSTEM_TEMPLATE'' ''system templates are immutable; clone it instead'')
     | ARepo ErrTemplateArchived m \<Rightarrow> Some (conflict ''TEMPLATE_ARCHIVED'' ''template is archived'')
     | ARepo ErrTemplateInUse m \<Rightarrow> Some (conflict ''TEMPLATE_IN_USE'' ''template is in use'')
     | ARepo ErrReservedSlug m \<Rightarrow> Some (validationField ''slug'' ''slug is reserved by a system template'')
     | ARepo ErrAccessLimit m \<Rightarrow> Some (limitErr m)
     | ARepo ErrAccessConflict m \<Rightarrow> Some (conflict ''DUPLICATE'' ''a record with that identity already exists'')
     | ARepo ErrAccessInvalid m \<Rightarrow> Some (validationDetails m [(''code'', DText ''INVALID'')])
     | AInternal _ \<Rightarrow> None)"

definition access_Normalize :: "aerr \<Rightarrow> aerr" where
  "access_Normalize e = (case asError e of None \<Rightarrow> e | Some x \<Rightarrow> x)"

definition isDomain :: "aerr \<Rightarrow> bool" where
  "isDomain e = (case e of AError _ _ _ _ \<Rightarrow> True | _ \<Rightarrow> False)"

definition err_Status :: "aerr \<Rightarrow> int" where
  "err_Status e = (case e of AError s _ _ _ \<Rightarrow> s | _ \<Rightarrow> 0)"

definition is_outsider :: "aerr \<Rightarrow> bool" where
  "is_outsider e = (case e of AError s _ m _ \<Rightarrow> s = 403 \<and> m = ''not a member'' | _ \<Rightarrow> False)"

section \<open>Permission lists (perms.go)\<close>

definition lower :: "char \<Rightarrow> bool" where "lower c \<longleftrightarrow> CHR ''a'' \<le> c \<and> c \<le> CHR ''z''"

definition slug_char :: "char \<Rightarrow> bool" where
  "slug_char c \<longleftrightarrow> lower c \<or> (CHR ''0'' \<le> c \<and> c \<le> CHR ''9'') \<or> c = CHR ''-''"

text \<open>\<^verbatim>\<open>permFormatRE\<close> is \<^verbatim>\<open>^[a-z][a-z0-9-]*:[a-z][a-z0-9-]*$\<close>: two words with a colon between them, which no word contains.\<close>

definition perm_word :: "string \<Rightarrow> bool" where
  "perm_word w = (case w of [] \<Rightarrow> False | c # cs \<Rightarrow> lower c \<and> list_all slug_char cs)"

definition permFormatRE :: "string \<Rightarrow> bool" where
  "permFormatRE s \<longleftrightarrow> CHR '':'' \<in> set s \<and> perm_word (takeWhile (\<lambda>c. c \<noteq> CHR '':'') s) \<and> perm_word (tl (dropWhile (\<lambda>c. c \<noteq> CHR '':'') s))"

definition slugRE :: "string \<Rightarrow> bool" where
  "slugRE s = (case s of [] \<Rightarrow> False | c # cs \<Rightarrow> slug_char c \<and> c \<noteq> CHR ''-'' \<and> list_all slug_char cs \<and> length cs \<le> 39)"

definition permScope :: "string \<Rightarrow> Scope" where
  "permScope k = (if k = ''org'' then ScopeOrg else if k = ''repo'' then ScopeRepo else if k = ''env'' then ScopeEnv else ScopeProject)"

definition missingDependencies :: "pset \<Rightarrow> string list" where
  "missingDependencies st = sort (remdups (concat (map (\<lambda>i. case Get i of None \<Rightarrow> [] | Some c \<Rightarrow> filter (\<lambda>r. \<not> Set_Has st r) (Requires c)) (IDs st))))"

record vp_state =
  vp_fields :: "(string, string) gomap"
  vp_unknown :: "string list"
  vp_outOf :: "string list"
  vp_set :: pset

definition vp_step :: "string \<Rightarrow> Scope \<Rightarrow> vp_state \<Rightarrow> string \<Rightarrow> vp_state" where
  "vp_step field want s p =
     (if CHR ''*'' \<in> set p then s\<lparr> vp_fields := gomap_set field ''wildcards are only allowed in system templates'' (vp_fields s) \<rparr>
      else if \<not> permFormatRE p then
        s\<lparr> vp_fields := gomap_set field ''permission ids look like resource:action'' (vp_fields s), vp_unknown := vp_unknown s @ [p] \<rparr>
      else case Get p of
             None \<Rightarrow> s\<lparr> vp_unknown := vp_unknown s @ [p] \<rparr>
           | Some c \<Rightarrow> if \<not> Perm_HasScope c want then s\<lparr> vp_outOf := vp_outOf s @ [p] \<rparr> else s\<lparr> vp_set := Add (vp_set s) p \<rparr>)"

text \<open>The map \<^verbatim>\<open>seen\<close> skips repetitions; what the loop collects depends only on the first occurrence of each id.\<close>

fun dedup :: "'a list \<Rightarrow> 'a list \<Rightarrow> 'a list" where
  "dedup seen [] = []"
| "dedup seen (p # ps) = (if p \<in> set seen then dedup seen ps else p # dedup (p # seen) ps)"

definition note_field :: "string \<Rightarrow> string \<Rightarrow> string list \<Rightarrow> (string, string) gomap \<Rightarrow> (string, string) gomap" where
  "note_field field msg list fs = (if list \<noteq> [] \<and> gomap_get fs field = None then gomap_set field msg fs else fs)"

definition ValidatePermissions :: "string \<Rightarrow> string \<Rightarrow> string list \<Rightarrow> aerr + pset \<times> string list" where
  "ValidatePermissions field kind ps =
     (let s = foldl (vp_step field (permScope kind)) \<lparr> vp_fields = [], vp_unknown = [], vp_outOf = [], vp_set = empty_set \<rparr> (dedup [] ps);
          missing = missingDependencies (vp_set s) in
      if vp_fields s = [] \<and> vp_unknown s = [] \<and> vp_outOf s = [] \<and> missing = [] then Inr (vp_set s, IDs (vp_set s))
      else
        let fs = note_field field ''dependencies are missing'' missing
              (note_field field ''permissions not allowed at this scope'' (vp_outOf s) (note_field field ''unknown permissions'' (vp_unknown s) (vp_fields s)))
        in Inl (validationDetails ''invalid permissions''
             ((if fs \<noteq> [] then [(''fields'', DFields fs)] else []) @
              (if vp_unknown s \<noteq> [] then [(''unknown_permissions'', DList (sort (vp_unknown s)))] else []) @
              (if vp_outOf s \<noteq> [] then [(''out_of_scope'', DList (sort (vp_outOf s)))] else []) @
              (if missing \<noteq> [] then [(''missing_dependencies'', DList missing)] else []))))"

definition setDiff :: "pset \<Rightarrow> pset \<Rightarrow> string list" where "setDiff a b = IDs (Minus a b)"

section \<open>Authorization of a request (service.go)\<close>

record Ctx =
  cx_now :: time
  cx_uuid :: uuid_lib
  cx_wait :: "cacheKey \<Rightarrow> snapshot res"
  cx_new :: uuid

abbreviation cx_store :: "Ctx \<Rightarrow> ADB \<Rightarrow> Store" where "cx_store cx db \<equiv> engine_store (cx_wait cx) db"

text \<open>A step that reads the engine: it may fail, and it leaves the engine with another cache.\<close>

type_synonym 'a astep = "Engine \<Rightarrow> (aerr + 'a) \<times> Engine"

definition andThen :: "'a astep \<Rightarrow> ('a \<Rightarrow> 'b astep) \<Rightarrow> 'b astep" where
  "andThen m f e = (case m e of (Inl x, e') \<Rightarrow> (Inl x, e') | (Inr a, e') \<Rightarrow> f a e')"

definition fail :: "aerr \<Rightarrow> 'a astep" where "fail x e = (Inl x, e)"

definition pure :: "'a \<Rightarrow> 'a astep" where "pure a e = (Inr a, e)"

definition needStrict :: "string list \<Rightarrow> bool" where
  "needStrict ps \<longleftrightarrow> list_ex (\<lambda>p. case Get p of Some c \<Rightarrow> Sensitive c | None \<Rightarrow> False) ps"

definition svc_effective :: "Ctx \<Rightarrow> ADB \<Rightarrow> uuid \<Rightarrow> uuid \<Rightarrow> EScope \<Rightarrow> bool \<Rightarrow> (Access \<times> pset) astep" where
  "svc_effective cx db user g sc strict e =
     (let (r, e') = (if strict then EffectiveStrict (cx_store cx db) e (user, g) sc (cx_now cx) else Effective (cx_store cx db) e (user, g) sc (cx_now cx))
      in (map_sum AInternal id r, e'))"

definition denial :: "Ctx \<Rightarrow> ADB \<Rightarrow> uuid \<Rightarrow> uuid \<Rightarrow> EScope \<Rightarrow> string list \<Rightarrow> string list \<Rightarrow> Access \<Rightarrow> 'a astep" where
  "denial cx db actor g sc ps missing acc e =
     (if acc_Reason acc = ReasonSuspended then (Inl (denied (hd ps) missing ''suspended''), e)
      else let (r, e') = Explain (cx_store cx db) e (actor, g) sc (hd missing) (cx_now cx);
               reason = (case r of Inr d \<Rightarrow> if dc_Cause d = CauseCeiling then ''ceiling'' else ''no_grant'' | Inl _ \<Rightarrow> ''no_grant'')
           in (Inl (denied (hd ps) missing reason), e'))"

definition require :: "Ctx \<Rightarrow> ADB \<Rightarrow> uuid \<Rightarrow> uuid \<Rightarrow> EScope \<Rightarrow> string list \<Rightarrow> pset astep" where
  "require cx db actor g sc ps =
     andThen (svc_effective cx db actor g sc (needStrict ps))
       (\<lambda>(acc, st).
          if \<not> acc_Member acc then fail (forbidden ''not a member'')
          else if acc_Hidden acc then fail (notFound ''project not found'')
          else let missing = filter (\<lambda>p. \<not> Set_Has st p) ps in
               if missing = [] then pure st else denial cx db actor g sc ps missing acc)"

definition isOwner :: "Ctx \<Rightarrow> ADB \<Rightarrow> uuid \<Rightarrow> uuid \<Rightarrow> bool" where
  "isOwner cx db g user = list_ex (\<lambda>m. om_Org m = g \<and> om_User m = user \<and> om_Status m = ''active'' \<and>
     om_Template m = Some (template_ID (cx_uuid cx) KindOrg ''owner'') \<and>
     list_ex (\<lambda>u. us_ID u = user \<and> us_Status u = ''active'') (db_users db)) (db_members db)"

definition projectIDs :: "ADB \<Rightarrow> uuid \<Rightarrow> uuid list" where
  "projectIDs db g = sort (map pj_ID (filter (\<lambda>p. pj_Org p = g \<and> \<not> pj_Deleted p) (db_projects db)))"

fun caps_loop :: "Ctx \<Rightarrow> ADB \<Rightarrow> uuid \<Rightarrow> uuid \<Rightarrow> pset \<Rightarrow> uuid list \<Rightarrow> pset astep" where
  "caps_loop cx db user g caps [] = pure caps"
| "caps_loop cx db user g caps (p # ps) =
     andThen (svc_effective cx db user g (ProjectScope p) False)
       (\<lambda>(acc, st). let caps' = Intersect caps st in if IsEmpty caps' then pure caps' else caps_loop cx db user g caps' ps)"

definition projectCaps :: "Ctx \<Rightarrow> ADB \<Rightarrow> uuid \<Rightarrow> uuid \<Rightarrow> pset astep" where
  "projectCaps cx db user g =
     (if projectIDs db g = [] then andThen (svc_effective cx db user g OrgScope False) (\<lambda>(acc, st). pure st)
      else caps_loop cx db user g Full (projectIDs db g))"

definition resolveScope :: "ADB \<Rightarrow> uuid \<Rightarrow> string \<Rightarrow> uuid \<Rightarrow> aerr + EScope \<times> uuid" where
  "resolveScope db g typ i =
     (if typ = ''org'' then if i \<noteq> uuid_Nil \<and> i \<noteq> g then Inl (notFound ''project not found'') else Inr (OrgScope, g)
      else if typ = ''project'' \<or> typ = ''repo'' then
        if \<not> list_ex (\<lambda>p. pj_ID p = i \<and> pj_Org p = g \<and> \<not> pj_Deleted p) (db_projects db) then Inl (notFound ''project not found'')
        else if typ = ''repo'' then Inr (RepoScope i i, i) else Inr (ProjectScope i, i)
      else if typ = ''env'' then
        (case find (\<lambda>e. ev_ID e = i \<and> list_ex (\<lambda>p. pj_ID p = ev_Project e \<and> pj_Org p = g \<and> \<not> pj_Deleted p) (db_projects db)) (db_environments db) of
           None \<Rightarrow> Inl (notFound ''project not found'')
         | Some e \<Rightarrow> Inr (EnvScope (ev_Project e) i, ev_Project e))
      else Inl (validationField ''scope.type'' ''must be org, project, repo or env''))"

definition requireAt :: "Ctx \<Rightarrow> ADB \<Rightarrow> uuid \<Rightarrow> uuid \<Rightarrow> string \<Rightarrow> uuid \<Rightarrow> string list \<Rightarrow> (EScope \<times> uuid \<times> pset) astep" where
  "requireAt cx db actor g typ i ps e =
     (case resolveScope db g typ i of
        Inl rerr \<Rightarrow>
          if err_Status rerr = 422 then (Inl rerr, e)
          else (case require cx db actor g (ProjectScope i) ps e of
                  (Inl err, e') \<Rightarrow> (Inl (if is_outsider err \<or> \<not> isDomain err then err else notFound ''project not found''), e')
                | (Inr _, e') \<Rightarrow> (Inl (notFound ''project not found''), e'))
      | Inr (sc, project) \<Rightarrow> andThen (require cx db actor g sc ps) (\<lambda>st. pure (sc, project, st)) e)"

definition containmentMissing :: "Ctx \<Rightarrow> ADB \<Rightarrow> uuid \<Rightarrow> uuid \<Rightarrow> string \<Rightarrow> uuid \<Rightarrow> pset \<Rightarrow> pset astep" where
  "containmentMissing cx db actor g scopeType scopeID ps =
     (if scopeType = ''org'' then andThen (projectCaps cx db actor g) (\<lambda>caps. pure (Minus ps caps))
      else andThen (requireAt cx db actor g scopeType scopeID []) (\<lambda>(_, _, st). pure (Minus ps st)))"

record orgSettings =
  set_TempAccessMaxDays :: int
  set_CustomRoles :: bool

text \<open>The settings are stored as JSON; the table holds the two fields as they decode, if present.\<close>

definition load_orgSettings :: "ADB \<Rightarrow> uuid \<Rightarrow> aerr + orgSettings" where
  "load_orgSettings db g =
     (case find (\<lambda>r. ao_ID r = g) (db_orgs db) of
        None \<Rightarrow> Inl (AInternal ''no rows in result set'')
      | Some r \<Rightarrow>
          let d = (case ao_MaxDays r of None \<Rightarrow> 90 | Some n \<Rightarrow> n)
          in Inr \<lparr> set_TempAccessMaxDays = (if d < 1 \<or> d > 365 then 90 else d), set_CustomRoles = (ao_CustomRoles r = Some True) \<rparr>)"

definition time_Day :: duration where "time_Day = 24 * 3600 * 1000000000"

definition checkExpiry :: "Ctx \<Rightarrow> ADB \<Rightarrow> uuid \<Rightarrow> string \<Rightarrow> time option \<Rightarrow> aerr option" where
  "checkExpiry cx db g field at =
     (case at of
        None \<Rightarrow> None
      | Some t \<Rightarrow>
          if \<not> t > cx_now cx then Some (validationField field ''must be in the future'')
          else
            (case load_orgSettings db g of
               Inl err \<Rightarrow> Some err
             | Inr s \<Rightarrow> if t > cx_now cx + set_TempAccessMaxDays s * time_Day then Some (validationField field ''exceeds the organization maximum'') else None))"

section \<open>Writes\<close>

record Idem =
  idem_Key :: string
  idem_Hash :: string

record 'a Reply =
  rp_Value :: 'a
  rp_Status :: int
  rp_Replayed :: bool

definition drop_old_key :: "Ctx \<Rightarrow> uuid \<Rightarrow> uuid \<Rightarrow> Idem \<Rightarrow> ADB \<Rightarrow> ADB" where
  "drop_old_key cx g actor k db = db\<lparr> db_idempotency :=
     filter (\<lambda>r. \<not> (ik_Org r = g \<and> ik_User r = actor \<and> ik_Key r = idem_Key k \<and> ik_CreatedAt r \<le> cx_now cx - time_Day)) (db_idempotency db) \<rparr>"

definition stored_key :: "uuid \<Rightarrow> uuid \<Rightarrow> Idem \<Rightarrow> ADB \<Rightarrow> IdemRow option" where
  "stored_key g actor k db = find (\<lambda>r. ik_Org r = g \<and> ik_User r = actor \<and> ik_Key r = idem_Key k) (db_idempotency db)"

text \<open>The body of the transaction; \<open>Inl (Inr r)\<close> is the replay, which is rolled back like an error.\<close>

definition write_tx :: "Ctx \<Rightarrow> uuid \<Rightarrow> uuid \<Rightarrow> Idem option \<Rightarrow> int \<Rightarrow> ('a \<Rightarrow> json) \<Rightarrow> (ADB \<Rightarrow> aerr + 'a \<times> ADB) \<Rightarrow> ADB \<Rightarrow> (aerr + json \<times> int) + 'a \<times> ADB" where
  "write_tx cx g actor idem status enc fn db =
     (case idem of
        None \<Rightarrow> map_sum Inl id (fn db)
      | Some k \<Rightarrow>
          let db1 = drop_old_key cx g actor k db in
          (case stored_key g actor k db1 of
             Some r \<Rightarrow>
               if strings_TrimSpace (ik_Hash r) \<noteq> idem_Hash k then
                 Inl (Inl (AError 409 ''IDEMPOTENCY_CONFLICT'' ''that Idempotency-Key was used with a different request'' []))
               else Inl (Inr (ik_Response r, ik_Status r))
           | None \<Rightarrow>
               (case fn db1 of
                  Inl x \<Rightarrow> Inl (Inl x)
                | Inr (v, db2) \<Rightarrow> Inr (v, db2\<lparr> db_idempotency := db_idempotency db2 @
                    [\<lparr> ik_Org = g, ik_User = actor, ik_Key = idem_Key k, ik_Hash = idem_Hash k, ik_Status = status, ik_Response = enc v, ik_CreatedAt = cx_now cx \<rparr>] \<rparr>))))"

definition doWrite :: "Ctx \<Rightarrow> uuid \<Rightarrow> uuid \<Rightarrow> Idem option \<Rightarrow> int \<Rightarrow> ('a \<Rightarrow> json) \<Rightarrow> (json \<Rightarrow> 'a option) \<Rightarrow> (ADB \<Rightarrow> aerr + 'a \<times> ADB)
    \<Rightarrow> ADB \<Rightarrow> Engine \<Rightarrow> (aerr + 'a Reply) \<times> ADB \<times> Engine" where
  "doWrite cx g actor idem status enc dec fn db e =
     (if (case idem of None \<Rightarrow> False | Some k \<Rightarrow> idem_Key k = [] \<or> length (idem_Key k) > 128)
      then (Inl (validationField ''Idempotency-Key'' ''must be 1 to 128 characters''), db, e)
      else
        (case InTx g (Inl ADomainNotFound) (write_tx cx g actor idem status enc fn) db of
           (Inl (Inr (resp, st)), db') \<Rightarrow>
             (case dec resp of
                None \<Rightarrow> (Inl (AInternal ''decoding stored response''), db', e)
              | Some v \<Rightarrow> (Inr \<lparr> rp_Value = v, rp_Status = st, rp_Replayed = True \<rparr>, db', e))
         | (Inl (Inl x), db') \<Rightarrow> (Inl (access_Normalize x), db', e)
         | (Inr v, db') \<Rightarrow> (Inr \<lparr> rp_Value = v, rp_Status = status, rp_Replayed = False \<rparr>, db', Invalidate \<lparr> tg_Org = g, tg_User = uuid_Nil \<rparr> e)))"

definition access_audit :: "uuid \<Rightarrow> uuid \<Rightarrow> string \<Rightarrow> string \<Rightarrow> uuid \<Rightarrow> uuid option \<Rightarrow> int \<Rightarrow> ADB \<Rightarrow> ADB" where
  "access_audit g actor action typ i project impact db = db\<lparr> db_audit_logs := db_audit_logs db @
     [\<lparr> ad_Org = g, ad_User = actor, ad_Action = action, ad_Type = typ, ad_Resource = i, ad_Project = project, ad_Impact = impact \<rparr>] \<rparr>"

section \<open>Assignments (assignments.go)\<close>

record AssignmentInput =
  ai_SubjectType :: string
  ai_SubjectID :: uuid
  ai_ScopeType :: string
  ai_ScopeID :: uuid
  ai_TemplateID :: uuid
  ai_Pinned :: "int option"
  ai_Expires :: "time option"
  ai_Reason :: string

text \<open>In a patch, a field that is present is \<open>Some\<close>; \<^verbatim>\<open>null\<close> clears expiry and pin.\<close>

record PatchAssignmentInput =
  pa_Expires :: "time option option"
  pa_Reason :: "string option"
  pa_Pinned :: "int option option"

definition loadHead :: "ADB \<Rightarrow> uuid \<Rightarrow> uuid \<Rightarrow> aerr + TemplateRow" where
  "loadHead db g i = (case find (\<lambda>t. rt_ID t = i \<and> (rt_Org t = Some g \<or> rt_System t)) (db_templates db) of None \<Rightarrow> Inl ADomainNotFound | Some t \<Rightarrow> Inr t)"

definition loadVer :: "ADB \<Rightarrow> uuid \<Rightarrow> int \<Rightarrow> aerr + VersionRow" where
  "loadVer db i v = (case template_version db (i, v) of None \<Rightarrow> Inl ADomainNotFound | Some (t, w) \<Rightarrow> Inr w)"

definition outOfScope :: "pset \<Rightarrow> string \<Rightarrow> string list" where
  "outOfScope st scopeType =
     (let want = permScope (if scopeType = ''org'' then ''project'' else scopeType)
      in filter (\<lambda>i. case Get i of Some c \<Rightarrow> \<not> Perm_HasScope c want | None \<Rightarrow> False) (IDs st))"

definition kindFitsScope :: "string \<Rightarrow> string \<Rightarrow> bool" where
  "kindFitsScope kind scopeType = (if scopeType = ''repo'' then kind = ''repo'' \<or> kind = ''project'' else kind = ''project'')"

definition selfSubject :: "Ctx \<Rightarrow> ADB \<Rightarrow> uuid \<Rightarrow> string \<Rightarrow> uuid \<Rightarrow> bool" where
  "selfSubject cx db actor typ subject =
     (if typ = ''user'' then subject = actor
      else list_ex (\<lambda>m. gm_Group m = subject \<and> gm_User m = actor \<and> (case gm_Expires m of None \<Rightarrow> True | Some t \<Rightarrow> t > cx_now cx)) (db_group_members db))"

definition checkSubject :: "ADB \<Rightarrow> uuid \<Rightarrow> string \<Rightarrow> uuid \<Rightarrow> aerr option" where
  "checkSubject db g typ i =
     (if typ = ''user'' then if list_ex (\<lambda>m. om_Org m = g \<and> om_User m = i) (db_members db) then None else Some (validationField ''subject_id'' ''not a member of the organization'')
      else if list_ex (\<lambda>r. gr_Org r = g \<and> gr_ID r = i \<and> gr_Archived r = None) (db_groups db) then None else Some (validationField ''subject_id'' ''no such group''))"

definition scopeIDOf :: "string \<Rightarrow> uuid \<Rightarrow> uuid \<Rightarrow> uuid" where
  "scopeIDOf typ i g = (if typ = ''org'' \<and> i = uuid_Nil then g else i)"

definition sourceFor :: "time option \<Rightarrow> string" where
  "sourceFor expires = (if expires \<noteq> None then ''temporary'' else ''manual'')"

definition input_fields :: "AssignmentInput \<Rightarrow> (string \<times> string) list" where
  "input_fields ai =
     (if ai_SubjectType ai \<noteq> ''user'' \<and> ai_SubjectType ai \<noteq> ''group'' then [(''subject_type'', ''must be user or group'')] else []) @
     (if ai_SubjectID ai = uuid_Nil then [(''subject_id'', ''required'')] else []) @
     (if ai_TemplateID ai = uuid_Nil then [(''template_id'', ''required'')] else []) @
     (if ai_ScopeType ai \<notin> {''org'', ''project'', ''repo'', ''env''} then [(''scope.type'', ''must be org, project, repo or env'')] else []) @
     (if length (ai_Reason ai) > 500 then [(''reason'', ''at most 500 characters'')] else [])"

definition assignment_status :: "Ctx \<Rightarrow> AssignRow \<Rightarrow> string" where
  "assignment_status cx r =
     (if as_Revoked r \<noteq> None then ''revoked''
      else case as_Expires r of Some t \<Rightarrow> if \<not> t > cx_now cx then ''expired'' else ''active'' | None \<Rightarrow> ''active'')"

definition loadAssignmentTx :: "Ctx \<Rightarrow> ADB \<Rightarrow> uuid \<Rightarrow> uuid \<Rightarrow> aerr + AssignmentDTO" where
  "loadAssignmentTx cx db g i =
     (case find (\<lambda>r. as_Org r = g \<and> as_ID r = i) (db_assignments db) of
        None \<Rightarrow> Inl ADomainNotFound
      | Some r \<Rightarrow>
          (case find (\<lambda>t. rt_ID t = as_Template r) (db_templates db) of
             None \<Rightarrow> Inl ADomainNotFound
           | Some t \<Rightarrow> Inr \<lparr> dto_Row = r, dto_TemplateSlug = rt_Slug t, dto_TemplateKind = rt_Kind t,
               dto_TemplateVersion = (case as_Pinned r of None \<Rightarrow> rt_Current t | Some v \<Rightarrow> v), dto_Status = assignment_status cx r \<rparr>))"

text \<open>The trigger \<^verbatim>\<open>access_trg_assignment_check\<close> of the migration.\<close>

definition assignment_check :: "ADB \<Rightarrow> AssignRow \<Rightarrow> bool" where
  "assignment_check db r \<longleftrightarrow>
     (if as_ScopeType r \<in> {''project'', ''repo''} then list_ex (\<lambda>p. pj_ID p = as_ScopeID r \<and> pj_Org p = as_Org r) (db_projects db)
      else if as_ScopeType r = ''env'' then list_ex (\<lambda>e. ev_ID e = as_ScopeID r \<and> list_ex (\<lambda>p. pj_ID p = ev_Project e \<and> pj_Org p = as_Org r) (db_projects db)) (db_environments db)
      else as_ScopeID r = as_Org r) \<and>
     (as_SubjectType r = ''group'' \<longrightarrow> list_ex (\<lambda>g. gr_ID g = as_SubjectID r \<and> gr_Org g = as_Org r) (db_groups db)) \<and>
     (case find (\<lambda>t. rt_ID t = as_Template r) (db_templates db) of
        None \<Rightarrow> False
      | Some t \<Rightarrow> (rt_Org t = None \<or> rt_Org t = Some (as_Org r)) \<and> kindFitsScope (rt_Kind t) (as_ScopeType r))"

definition upsert_assignment :: "AssignRow \<Rightarrow> ADB \<Rightarrow> aerr + (uuid \<times> bool) \<times> ADB" where
  "upsert_assignment r db =
     (if \<not> assignment_check db r then Inl (ARepo ErrAccessInvalid ''check_violation'')
      else
        (case find (same_live r) (db_assignments db) of
           Some old \<Rightarrow> Inr ((as_ID old, False), db\<lparr> db_assignments := map (\<lambda>x. if as_ID x = as_ID old
               then x\<lparr> as_Pinned := as_Pinned r, as_Expires := as_Expires r, as_Reason := as_Reason r \<rparr> else x) (db_assignments db) \<rparr>)
         | None \<Rightarrow>
             if list_ex (\<lambda>x. as_ID x = as_ID r) (db_assignments db) then Inl (ARepo ErrAccessConflict ''access_assignments_pkey'')
             else Inr ((as_ID r, True), db\<lparr> db_assignments := db_assignments db @ [r] \<rparr>)))"

text \<open>The guards of \<^verbatim>\<open>CreateAssignment\<close>, in order; they end with the template, its version and the project of the scope.\<close>

definition may_grant :: "Ctx \<Rightarrow> ADB \<Rightarrow> uuid \<Rightarrow> uuid \<Rightarrow> AssignmentInput \<Rightarrow> pset \<Rightarrow> unit astep" where
  "may_grant cx db actor g ai ps =
     (if isOwner cx db g actor then pure ()
      else if selfSubject cx db actor (ai_SubjectType ai) (ai_SubjectID ai) then
        fail (escalation ''you cannot grant or widen your own access'' [] ''self_grant'')
      else andThen (containmentMissing cx db actor g (ai_ScopeType ai) (scopeIDOf (ai_ScopeType ai) (ai_ScopeID ai) g) ps)
        (\<lambda>missing. if IsEmpty missing then pure ()
                   else fail (escalation ''the template carries permissions you do not hold at this scope'' (IDs missing) [])))"

definition checked_version :: "ADB \<Rightarrow> uuid \<Rightarrow> AssignmentInput \<Rightarrow> aerr + TemplateRow \<times> VersionRow" where
  "checked_version db g ai =
     (case loadHead db g (ai_TemplateID ai) of
        Inl _ \<Rightarrow> Inl (validationField ''template_id'' ''no such template'')
      | Inr head \<Rightarrow>
          if rt_Archived head \<noteq> None then Inl (conflict ''TEMPLATE_ARCHIVED'' ''template is archived'')
          else if \<not> kindFitsScope (rt_Kind head) (ai_ScopeType ai) then
            Inl (validationField ''template_id'' (''a '' @ rt_Kind head @ '' template cannot be assigned at '' @ ai_ScopeType ai @ '' scope''))
          else if (case ai_Pinned ai of None \<Rightarrow> False | Some p \<Rightarrow> p < 1 \<or> p > rt_Current head) then
            Inl (validationField ''pinned_version'' ''that version does not exist'')
          else
            (case loadVer db (rt_ID head) (pin_of (ai_Pinned ai)) of
               Inl _ \<Rightarrow> Inl (validationField ''pinned_version'' ''that version does not exist'')
             | Inr ver \<Rightarrow>
                 let oos = outOfScope (NewSet (rv_Permissions ver)) (ai_ScopeType ai) in
                 if oos \<noteq> [] then Inl (validationDetails ''the template carries permissions that cannot be granted at this scope''
                   [(''fields'', DFields [(''template_id'', ''permissions outside the scope'')]), (''out_of_scope'', DList oos)])
                 else Inr (head, ver)))"

definition create_guard :: "Ctx \<Rightarrow> ADB \<Rightarrow> uuid \<Rightarrow> uuid \<Rightarrow> AssignmentInput \<Rightarrow> (TemplateRow \<times> VersionRow \<times> uuid) astep" where
  "create_guard cx db actor g ai =
     andThen (require cx db actor g OrgScope [])
       (\<lambda>_. if input_fields ai \<noteq> [] then fail (validation (input_fields ai))
            else andThen (requireAt cx db actor g (ai_ScopeType ai) (scopeIDOf (ai_ScopeType ai) (ai_ScopeID ai) g) [''assignment:grant''])
              (\<lambda>(_, project, _).
                 case checked_version db g ai of
                   Inl x \<Rightarrow> fail x
                 | Inr (head, ver) \<Rightarrow>
                     (case checkSubject db g (ai_SubjectType ai) (ai_SubjectID ai) of
                        Some x \<Rightarrow> fail x
                      | None \<Rightarrow>
                          (case checkExpiry cx db g ''expires_at'' (ai_Expires ai) of
                             Some x \<Rightarrow> fail x
                           | None \<Rightarrow> andThen (may_grant cx db actor g ai (NewSet (rv_Permissions ver))) (\<lambda>_. pure (head, ver, project))))))"

definition project_of :: "string \<Rightarrow> uuid \<Rightarrow> uuid option" where
  "project_of scopeType project = (if scopeType \<noteq> ''org'' then Some project else None)"

definition input_row :: "Ctx \<Rightarrow> uuid \<Rightarrow> uuid \<Rightarrow> AssignmentInput \<Rightarrow> AssignRow" where
  "input_row cx g actor ai = \<lparr> as_ID = cx_new cx, as_Org = g, as_SubjectType = ai_SubjectType ai, as_SubjectID = ai_SubjectID ai,
     as_ScopeType = ai_ScopeType ai, as_ScopeID = scopeIDOf (ai_ScopeType ai) (ai_ScopeID ai) g, as_Template = ai_TemplateID ai,
     as_Pinned = ai_Pinned ai, as_Source = sourceFor (ai_Expires ai), as_Reason = ai_Reason ai, as_Expires = ai_Expires ai,
     as_CreatedBy = Some actor, as_CreatedAt = cx_now cx, as_Revoked = None, as_RevokedBy = None \<rparr>"

definition create_tx :: "Ctx \<Rightarrow> uuid \<Rightarrow> uuid \<Rightarrow> AssignmentInput \<Rightarrow> uuid \<Rightarrow> ADB \<Rightarrow> aerr + AssignmentDTO \<times> ADB" where
  "create_tx cx actor g ai project db =
     (if int (length (filter (\<lambda>r. as_Org r = g \<and> as_Revoked r = None) (db_assignments db))) \<ge> MaxAssignmentsPerOrg
      then Inl (limitErr ''an organization has at most 100000 assignments'')
      else
        (case upsert_assignment (input_row cx g actor ai) db of
           Inl x \<Rightarrow> Inl x
         | Inr ((i, created), db1) \<Rightarrow>
             let impact = (if ai_SubjectType ai = ''group'' then int (length (filter (\<lambda>m. gm_Group m = ai_SubjectID ai) (db_group_members db))) else 1);
                 db2 = access_audit g actor (if created then ''access.assignment.granted'' else ''access.assignment.changed'') ''assignment'' i
                         (project_of (ai_ScopeType ai) project) impact db1
             in map_sum id (\<lambda>dto. (dto, db2)) (loadAssignmentTx cx db2 g i)))"

definition dec_assignment :: "json \<Rightarrow> AssignmentDTO option" where
  "dec_assignment j = (case j of JAssignment d \<Rightarrow> Some d | _ \<Rightarrow> None)"

definition CreateAssignment :: "Ctx \<Rightarrow> uuid \<Rightarrow> uuid \<Rightarrow> AssignmentInput \<Rightarrow> Idem option \<Rightarrow> ADB \<Rightarrow> Engine \<Rightarrow> (aerr + AssignmentDTO Reply) \<times> ADB \<times> Engine" where
  "CreateAssignment cx actor g ai idem db e =
     (case create_guard cx db actor g ai e of
        (Inl x, e') \<Rightarrow> (Inl x, db, e')
      | (Inr (head, ver, project), e') \<Rightarrow> doWrite cx g actor idem 201 JAssignment dec_assignment (create_tx cx actor g ai project) db e')"

definition loadLive :: "ADB \<Rightarrow> uuid \<Rightarrow> uuid \<Rightarrow> aerr + AssignRow" where
  "loadLive db g i = (case find (\<lambda>r. as_ID r = i \<and> as_Org r = g \<and> as_Revoked r = None) (db_assignments db) of None \<Rightarrow> Inl ADomainNotFound | Some r \<Rightarrow> Inr r)"

definition authorizeExisting :: "Ctx \<Rightarrow> ADB \<Rightarrow> uuid \<Rightarrow> uuid \<Rightarrow> uuid \<Rightarrow> (AssignRow \<times> uuid) astep" where
  "authorizeExisting cx db actor g i e =
     (case loadLive db g i of
        Inl _ \<Rightarrow>
          (case require cx db actor g OrgScope [''assignment:grant''] e of
             (Inl x, e') \<Rightarrow> (Inl (if is_outsider x then x else notFound ''assignment not found''), e')
           | (Inr _, e') \<Rightarrow> (Inl (notFound ''assignment not found''), e'))
      | Inr cur \<Rightarrow>
          (case requireAt cx db actor g (as_ScopeType cur) (as_ScopeID cur) [''assignment:grant''] e of
             (Inl x, e') \<Rightarrow> (Inl (if err_Status x = 404 then notFound ''assignment not found'' else x), e')
           | (Inr (_, project, _), e') \<Rightarrow> (Inr (cur, project), e')))"

text \<open>\<^verbatim>\<open>PatchAssignment\<close>: the new values, the version they name, and whether the actor may make the change.\<close>

definition patched :: "AssignRow \<Rightarrow> PatchAssignmentInput \<Rightarrow> AssignRow" where
  "patched cur pa = cur\<lparr> as_Expires := (case pa_Expires pa of None \<Rightarrow> as_Expires cur | Some t \<Rightarrow> t),
     as_Pinned := (case pa_Pinned pa of None \<Rightarrow> as_Pinned cur | Some v \<Rightarrow> v), as_Reason := (case pa_Reason pa of None \<Rightarrow> as_Reason cur | Some r \<Rightarrow> r) \<rparr>"

definition patch_expiry :: "Ctx \<Rightarrow> ADB \<Rightarrow> uuid \<Rightarrow> AssignRow \<Rightarrow> PatchAssignmentInput \<Rightarrow> aerr option" where
  "patch_expiry cx db g cur pa =
     (case pa_Expires pa of
        Some (Some t) \<Rightarrow> if as_Expires cur = Some t then None else checkExpiry cx db g ''expires_at'' (Some t)
      | _ \<Rightarrow> None)"

definition patch_versions :: "ADB \<Rightarrow> uuid \<Rightarrow> AssignRow \<Rightarrow> AssignRow \<Rightarrow> aerr + pset \<times> pset" where
  "patch_versions db g cur new =
     (case loadHead db g (as_Template cur) of
        Inl x \<Rightarrow> Inl (access_Normalize x)
      | Inr head \<Rightarrow>
          if (case as_Pinned new of None \<Rightarrow> False | Some p \<Rightarrow> p < 1 \<or> p > rt_Current head) then
            Inl (validationField ''pinned_version'' ''that version does not exist'')
          else
            (case loadVer db (rt_ID head) (pin_of (as_Pinned new)) of
               Inl _ \<Rightarrow> Inl (validationField ''pinned_version'' ''that version does not exist'')
             | Inr newVer \<Rightarrow>
                 (case loadVer db (rt_ID head) (pin_of (as_Pinned cur)) of
                    Inl x \<Rightarrow> Inl (access_Normalize x)
                  | Inr oldVer \<Rightarrow>
                      let oos = outOfScope (NewSet (rv_Permissions newVer)) (as_ScopeType cur) in
                      if oos \<noteq> [] then Inl (validationDetails ''the version carries permissions that cannot be granted at this scope''
                        [(''fields'', DFields [(''pinned_version'', ''permissions outside the scope'')]), (''out_of_scope'', DList oos)])
                      else Inr (NewSet (rv_Permissions newVer), NewSet (rv_Permissions oldVer)))))"

definition widerExpiry :: "AssignRow \<Rightarrow> AssignRow \<Rightarrow> bool" where
  "widerExpiry cur new = (case as_Expires cur of None \<Rightarrow> False | Some t \<Rightarrow> (case as_Expires new of None \<Rightarrow> True | Some t' \<Rightarrow> t' > t))"

definition may_widen :: "Ctx \<Rightarrow> ADB \<Rightarrow> uuid \<Rightarrow> uuid \<Rightarrow> AssignRow \<Rightarrow> AssignRow \<Rightarrow> pset \<Rightarrow> pset \<Rightarrow> unit astep" where
  "may_widen cx db actor g cur new newPerms oldPerms =
     (let widerPerms = \<not> ContainsAll oldPerms newPerms in
      if isOwner cx db g actor then pure ()
      else if (widerExpiry cur new \<or> widerPerms) \<and> selfSubject cx db actor (as_SubjectType cur) (as_SubjectID cur) then
        fail (escalation ''you cannot widen your own access'' [] ''self_grant'')
      else if widerPerms then
        andThen (containmentMissing cx db actor g (as_ScopeType cur) (as_ScopeID cur) (Minus newPerms oldPerms))
          (\<lambda>missing. if IsEmpty missing then pure ()
                     else fail (escalation ''the version carries permissions you do not hold at this scope'' (IDs missing) []))
      else pure ())"

definition patch_guard :: "Ctx \<Rightarrow> ADB \<Rightarrow> uuid \<Rightarrow> uuid \<Rightarrow> uuid \<Rightarrow> PatchAssignmentInput \<Rightarrow> (AssignRow \<times> uuid) astep" where
  "patch_guard cx db actor g i pa =
     andThen (authorizeExisting cx db actor g i)
       (\<lambda>(cur, project).
          if (case pa_Reason pa of None \<Rightarrow> False | Some r \<Rightarrow> length r > 500) then fail (validationField ''reason'' ''at most 500 characters'')
          else
            (case patch_expiry cx db g cur pa of
               Some x \<Rightarrow> fail x
             | None \<Rightarrow>
                 (case patch_versions db g cur (patched cur pa) of
                    Inl x \<Rightarrow> fail x
                  | Inr (newPerms, oldPerms) \<Rightarrow>
                      andThen (may_widen cx db actor g cur (patched cur pa) newPerms oldPerms) (\<lambda>_. pure (patched cur pa, project)))))"

definition patch_source :: "AssignRow \<Rightarrow> string \<Rightarrow> string" where
  "patch_source new old = (if old \<in> {''manual'', ''temporary''} then sourceFor (as_Expires new) else old)"

definition patch_tx :: "Ctx \<Rightarrow> uuid \<Rightarrow> uuid \<Rightarrow> uuid \<Rightarrow> AssignRow \<Rightarrow> uuid \<Rightarrow> ADB \<Rightarrow> aerr + AssignmentDTO \<times> ADB" where
  "patch_tx cx actor g i new project db =
     (case loadLive db g i of
        Inl x \<Rightarrow> Inl x
      | Inr lc \<Rightarrow>
          let db1 = db\<lparr> db_assignments := map (\<lambda>x. if as_ID x = i \<and> as_Org x = g then x\<lparr> as_Expires := as_Expires new, as_Reason := as_Reason new,
                as_Pinned := as_Pinned new, as_Source := patch_source new (as_Source x) \<rparr> else x) (db_assignments db) \<rparr>;
              db2 = access_audit g actor ''access.assignment.changed'' ''assignment'' i (project_of (as_ScopeType new) project) 1 db1
          in map_sum id (\<lambda>dto. (dto, db2)) (loadAssignmentTx cx db2 g i))"

definition PatchAssignment :: "Ctx \<Rightarrow> uuid \<Rightarrow> uuid \<Rightarrow> uuid \<Rightarrow> PatchAssignmentInput \<Rightarrow> Idem option \<Rightarrow> ADB \<Rightarrow> Engine \<Rightarrow> (aerr + AssignmentDTO Reply) \<times> ADB \<times> Engine" where
  "PatchAssignment cx actor g i pa idem db e =
     (case patch_guard cx db actor g i pa e of
        (Inl x, e') \<Rightarrow> (Inl x, db, e')
      | (Inr (new, project), e') \<Rightarrow> doWrite cx g actor idem 200 JAssignment dec_assignment (patch_tx cx actor g i new project) db e')"

definition revoke_tx :: "Ctx \<Rightarrow> uuid \<Rightarrow> uuid \<Rightarrow> uuid \<Rightarrow> uuid option \<Rightarrow> ADB \<Rightarrow> aerr + unit \<times> ADB" where
  "revoke_tx cx actor g i project db =
     (case loadLive db g i of
        Inl x \<Rightarrow> Inl x
      | Inr lc \<Rightarrow> Inr ((), access_audit g actor ''access.assignment.revoked'' ''assignment'' i project 1
          (db\<lparr> db_assignments := map (\<lambda>x. if as_ID x = i \<and> as_Org x = g \<and> as_Revoked x = None
             then x\<lparr> as_Revoked := Some (cx_now cx), as_RevokedBy := Some actor \<rparr> else x) (db_assignments db) \<rparr>)))"

definition dec_unit :: "json \<Rightarrow> unit option" where "dec_unit j = Some ()"

definition RevokeAssignment :: "Ctx \<Rightarrow> uuid \<Rightarrow> uuid \<Rightarrow> uuid \<Rightarrow> Idem option \<Rightarrow> ADB \<Rightarrow> Engine \<Rightarrow> (aerr + unit Reply) \<times> ADB \<times> Engine" where
  "RevokeAssignment cx actor g i idem db e =
     (case authorizeExisting cx db actor g i e of
        (Inl x, e') \<Rightarrow> (Inl x, db, e')
      | (Inr (cur, project), e') \<Rightarrow> doWrite cx g actor idem 204 (\<lambda>_. JUnit) dec_unit (revoke_tx cx actor g i (project_of (as_ScopeType cur) project)) db e')"

end
