(* ===== verification/Access_Grants.thy ===== *)
theory Access_Grants
  imports Access_Admin
begin

text \<open>
  What the operations on assignments can give away. The proofs follow a change of the tables through the store of the
  engine to the resolution rule: which rows a user's data comes from, what a changed row adds to it, and that the
  actor held what was added.
\<close>

section \<open>What added assignments can grant\<close>

text \<open>\<open>granted\<close> is the effective set before the visibility of the project is asked for.\<close>

definition granted :: "AccessData \<Rightarrow> time \<Rightarrow> EScope \<Rightarrow> nat set" where
  "granted d now sc = {b. \<exists>t. resolves d t \<and>
     (if sc_Type sc = StOrg then HasBit (tpl_Permissions t) b \<and> (tpl_HasCeiling t \<longrightarrow> HasBit (tpl_Ceiling t) b) else spec_bounded d t now sc b)}"

lemma effective_granted: "spec_effective d now sc \<subseteq> granted d now sc"
  by (auto simp: spec_effective_def granted_def split: if_splits)

definition place :: "Assignment \<Rightarrow> ScopeType \<times> uuid \<times> uuid" where
  "place a = (a_Scope a, a_ScopeID a, a_ProjectID a)"

definition covers :: "ScopeType \<times> uuid \<times> uuid \<Rightarrow> EScope \<Rightarrow> bool" where
  "covers pl sc \<longleftrightarrow> sc_Type sc \<noteq> StOrg \<and> (case pl of (k, sid, pid) \<Rightarrow>
     (case k of StOrg \<Rightarrow> True | StProject \<Rightarrow> sc_ProjectID sc = sid | _ \<Rightarrow> sc_Type sc = k \<and> sc_ID sc = sid \<and> sc_ProjectID sc = pid))"

text \<open>Data that differ at most in assignments and epochs.\<close>

definition same_base :: "AccessData \<Rightarrow> AccessData \<Rightarrow> bool" where
  "same_base d d' \<longleftrightarrow> d_Member d' = d_Member d \<and> d_UserActive d' = d_UserActive d \<and> d_MemberActive d' = d_MemberActive d \<and>
     d_Template d' = d_Template d \<and> d_Policy d' = d_Policy d \<and> d_ProjectOverrides d' = d_ProjectOverrides d"

text \<open>\<open>grown now R d d'\<close>: at the instant, every assignment of \<open>d'\<close> gives what some assignment of \<open>d\<close> at the same place gave, or
  what \<open>R\<close> allows at its place; the organization template stays, and its floor and base grow by what \<open>R\<close> allows for the whole organization; no project loses its
  last own assignment.\<close>

type_synonym growth = "ScopeType \<times> uuid \<times> uuid \<Rightarrow> nat \<Rightarrow> bool"

abbreviation everywhere :: "ScopeType \<times> uuid \<times> uuid" where "everywhere \<equiv> (StOrg, uuid_Nil, uuid_Nil)"

definition template_grown :: "growth \<Rightarrow> OrgTemplate \<Rightarrow> OrgTemplate \<Rightarrow> bool" where
  "template_grown R t t' \<longleftrightarrow> tpl_Permissions t' = tpl_Permissions t \<and> tpl_HasCeiling t' = tpl_HasCeiling t \<and> tpl_Ceiling t' = tpl_Ceiling t \<and>
     tpl_CeilingProject t' = tpl_CeilingProject t \<and> (\<forall>b. HasBit (tpl_Floor t') b \<longrightarrow> HasBit (tpl_Floor t) b \<or> R everywhere b) \<and>
     (\<forall>b. HasBit (tpl_Base t') b \<longrightarrow> HasBit (tpl_Base t) b \<or> R everywhere b)"

definition base_grown :: "growth \<Rightarrow> AccessData \<Rightarrow> AccessData \<Rightarrow> bool" where
  "base_grown R d d' \<longleftrightarrow> d_Member d' = d_Member d \<and> d_UserActive d' = d_UserActive d \<and> d_MemberActive d' = d_MemberActive d \<and>
     d_Policy d' = d_Policy d \<and> d_ProjectOverrides d' = d_ProjectOverrides d \<and>
     rel_option (template_grown R) (d_Template d) (d_Template d')"

definition grown :: "time \<Rightarrow> growth \<Rightarrow> AccessData \<Rightarrow> AccessData \<Rightarrow> bool" where
  "grown now R d d' \<longleftrightarrow> base_grown R d d' \<and>
     (\<forall>a' \<in> set (live d' now). \<forall>b. HasBit (a_Permissions a') b \<longrightarrow>
        (\<exists>a \<in> set (live d now). place a = place a' \<and> HasBit (a_Permissions a) b) \<or> R (place a') b) \<and>
     (\<forall>a \<in> set (live d now). a_Scope a = StProject \<longrightarrow> (\<exists>a' \<in> set (live d' now). place a' = place a))"

lemma same_base_grown: "same_base d d' \<Longrightarrow> base_grown R d d'"
  by (auto simp: same_base_def base_grown_def template_grown_def intro!: option.rel_refl)

lemma base_grown_opens: "base_grown R d d' \<Longrightarrow> opens d' p = opens d p"
  by (auto simp: base_grown_def opens_def split: option.split)

lemma base_grown_resolves: "base_grown R d d' \<Longrightarrow> resolves d' t' \<Longrightarrow> \<exists>t. resolves d t \<and> template_grown R t t'"
  by (auto simp: base_grown_def resolves_def elim: option.rel_cases)

lemma base_grown_resolved: "base_grown R d d' \<Longrightarrow> resolves d t \<Longrightarrow> \<exists>t'. resolves d' t' \<and> template_grown R t t'"
  by (auto simp: base_grown_def resolves_def elim: option.rel_cases)

text \<open>Nothing changes at the organization scope.\<close>

lemma grown_org_scope:
  assumes g: "grown now R d d'" and sc: "sc_Type sc = StOrg"
  shows "spec_effective d' now sc = spec_effective d now sc"
proof -
  have b: "base_grown R d d'" using g by (simp add: grown_def)
  have "b \<in> spec_effective d' now sc \<longleftrightarrow> b \<in> spec_effective d now sc" for b
    using base_grown_resolves [OF b] base_grown_resolved [OF b] sc by (fastforce simp: spec_effective_def template_grown_def)
  then show ?thesis by blast
qed

lemma grants_live_at: "grants (filter P (live_at d now k)) b \<longleftrightarrow> (\<exists>a \<in> set (live d now). a_Scope a = k \<and> P a \<and> HasBit (a_Permissions a) b)"
  by (auto simp: grants_def live_at_def)

lemma own_of_Nil: "own_of d now p \<noteq> [] \<longleftrightarrow> (\<exists>a \<in> set (live d now). a_Scope a = StProject \<and> a_ScopeID a = p)"
  by (auto simp: own_of_def live_at_def filter_empty_conv)

text \<open>\<open>allows\<close>: what \<open>R\<close> lets grow at a scope.\<close>

definition allows :: "growth \<Rightarrow> EScope \<Rightarrow> nat \<Rightarrow> bool" where
  "allows R sc b \<longleftrightarrow> (\<exists>pl. R pl b \<and> covers pl sc)"

lemma grown_grants:
  assumes "grown now R d d'" "grants (filter Q (live_at d' now k)) b" "\<And>a a'. place a = place a' \<Longrightarrow> Q a = Q a'"
  shows "grants (filter Q (live_at d now k)) b \<or> (\<exists>a'. R (place a') b \<and> a_Scope a' = k \<and> Q a')"
proof -
  obtain a' where a': "a' \<in> set (live d' now)" "a_Scope a' = k" "Q a'" "HasBit (a_Permissions a') b" using assms(2) by (auto simp: grants_live_at)
  then consider a where "a \<in> set (live d now)" "place a = place a'" "HasBit (a_Permissions a) b" | "R (place a') b"
    using assms(1) unfolding grown_def by blast
  then show ?thesis
  proof cases
    case 1
    have "a_Scope a = k" "Q a" using 1(2) a'(2,3) assms(3) [OF 1(2)] by (simp_all add: place_def)
    then show ?thesis using 1(1,3) unfolding grants_live_at by blast
  next
    case 2 then show ?thesis using a'(2,3) by blast
  qed
qed

lemma covers_place:
  assumes "R (place a) b" "sc_Type sc \<noteq> StOrg"
  shows "a_Scope a = StOrg \<Longrightarrow> allows R sc b" "a_Scope a = StProject \<Longrightarrow> a_ScopeID a = sc_ProjectID sc \<Longrightarrow> allows R sc b"
    "a_Scope a = sc_Type sc \<Longrightarrow> a_ScopeID a = sc_ID sc \<and> a_ProjectID a = sc_ProjectID sc \<Longrightarrow> sc_Type sc \<in> {StRepo, StEnv} \<Longrightarrow> allows R sc b"
proof -
  have "covers (place a) sc \<Longrightarrow> allows R sc b" using assms(1) unfolding allows_def by blast
  then show "a_Scope a = StOrg \<Longrightarrow> allows R sc b" "a_Scope a = StProject \<Longrightarrow> a_ScopeID a = sc_ProjectID sc \<Longrightarrow> allows R sc b"
    "a_Scope a = sc_Type sc \<Longrightarrow> a_ScopeID a = sc_ID sc \<and> a_ProjectID a = sc_ProjectID sc \<Longrightarrow> sc_Type sc \<in> {StRepo, StEnv} \<Longrightarrow> allows R sc b"
    using assms(2) by (auto simp: covers_def place_def)
qed

lemma everywhere_allows: "R everywhere b \<Longrightarrow> sc_Type sc \<noteq> StOrg \<Longrightarrow> allows R sc b"
  unfolding allows_def by (rule exI [of _ everywhere]) (simp add: covers_def)

lemma grown_own:
  assumes "grown now R d d'" "sc_Type sc \<noteq> StOrg" "grants (own_of d' now (sc_ProjectID sc)) b"
  shows "grants (own_of d now (sc_ProjectID sc)) b \<or> allows R sc b"
proof -
  have "grants (filter (\<lambda>a. a_ScopeID a = sc_ProjectID sc) (live_at d now StProject)) b \<or>
      (\<exists>a'. R (place a') b \<and> a_Scope a' = StProject \<and> a_ScopeID a' = sc_ProjectID sc)"
    by (rule grown_grants [OF assms(1) assms(3) [unfolded own_of_def]]) (simp add: place_def)
  then show ?thesis using covers_place(2) [OF _ assms(2)] unfolding own_of_def by blast
qed

lemma grown_org:
  assumes "grown now R d d'" "sc_Type sc \<noteq> StOrg" "grants (live_at d' now StOrg) b"
  shows "grants (live_at d now StOrg) b \<or> allows R sc b"
  using grown_grants [OF assms(1), of "\<lambda>_. True" StOrg b] covers_place(1) [OF _ assms(2)] assms(3) by auto

lemma grown_nested:
  assumes "grown now R d d'" "sc_Type sc \<noteq> StOrg" "grants (nested_of d' now sc) b"
  shows "grants (nested_of d now sc) b \<or> allows R sc b"
proof (cases "sc_Type sc \<in> {StRepo, StEnv}")
  case True
  then have "grants (filter (\<lambda>a. a_ScopeID a = sc_ID sc \<and> a_ProjectID a = sc_ProjectID sc) (live_at d' now (sc_Type sc))) b"
    using assms(3) by (simp add: nested_of_def)
  then have "grants (filter (\<lambda>a. a_ScopeID a = sc_ID sc \<and> a_ProjectID a = sc_ProjectID sc) (live_at d now (sc_Type sc))) b \<or>
      (\<exists>a'. R (place a') b \<and> a_Scope a' = sc_Type sc \<and> a_ScopeID a' = sc_ID sc \<and> a_ProjectID a' = sc_ProjectID sc)"
    by (rule grown_grants [OF assms(1)]) (simp add: place_def)
  then show ?thesis using covers_place(3) [OF _ assms(2)] True by (auto simp: nested_of_def)
next
  case False then show ?thesis using assms(3) by (simp add: nested_of_def grants_def)
qed

lemma grown_bounded:
  assumes g: "grown now R d d'" and b: "spec_bounded d' t' now sc b" and sc: "sc_Type sc \<noteq> StOrg" and t: "template_grown R t t'"
  shows "spec_bounded d t now sc b \<or> allows R sc b"
proof (rule ccontr)
  let ?p = "sc_ProjectID sc"
  assume no: "\<not> ?thesis"
  then have new: "\<not> allows R sc b" and old: "\<not> spec_bounded d t now sc b" by simp_all
  have tpl: "HasBit (tpl_Floor t') b \<Longrightarrow> HasBit (tpl_Floor t) b" "HasBit (tpl_Base t') b \<Longrightarrow> HasBit (tpl_Base t) b"
    "tpl_HasCeiling t' = tpl_HasCeiling t" "tpl_CeilingProject t' = tpl_CeilingProject t"
    using t everywhere_allows [OF _ sc] new unfolding template_grown_def by blast+
  have own: "own_of d' now ?p \<noteq> []" if ne: "own_of d now ?p \<noteq> []"
  proof -
    obtain a where a: "a \<in> set (live d now)" "a_Scope a = StProject" "a_ScopeID a = ?p" using ne unfolding own_of_Nil by blast
    then obtain a' where "a' \<in> set (live d' now)" "place a' = place a" using g unfolding grown_def by blast
    then show ?thesis using a(2,3) unfolding own_of_Nil place_def by auto
  qed
  have "opens d' ?p = opens d ?p" using g base_grown_opens unfolding grown_def by blast
  note same = this tpl(1,2)
  have "spec_project d t now ?p b" if "spec_project d' t' now ?p b"
  proof (cases "own_of d' now ?p = []")
    case True
    then show ?thesis using that own grown_org [OF g sc] new same by (auto simp: spec_project_def)
  next
    case False
    then have "grants (own_of d now ?p) b" if "\<not> HasBit (tpl_Floor t) b"
      using \<open>spec_project d' t' now ?p b\<close> that grown_own [OF g sc] new tpl(1) by (auto simp: spec_project_def)
    moreover have "own_of d now ?p \<noteq> []" if "grants (own_of d now ?p) b" using that by (auto simp: grants_def)
    ultimately show ?thesis by (auto simp: spec_project_def)
  qed
  then show False using b old grown_nested [OF g sc] new tpl(3,4) by (auto simp: spec_bounded_def)
qed

lemma grown_effective:
  assumes g: "grown now R d d'" and P: "\<And>b. allows R sc b \<Longrightarrow> b \<in> A"
  shows "spec_effective d' now sc \<subseteq> granted d now sc \<union> A"
proof
  fix b assume "b \<in> spec_effective d' now sc"
  then obtain t' where t': "resolves d' t'" and b: "if sc_Type sc = StOrg then HasBit (tpl_Permissions t') b \<and> (tpl_HasCeiling t' \<longrightarrow> HasBit (tpl_Ceiling t') b)
      else spec_bounded d' t' now sc b" by (auto simp: spec_effective_def split: if_splits)
  obtain t where t: "resolves d t" "template_grown R t t'" using base_grown_resolves [OF _ t'] g unfolding grown_def by blast
  show "b \<in> granted d now sc \<union> A"
  proof (cases "sc_Type sc = StOrg")
    case True then show ?thesis using b t by (auto simp: granted_def template_grown_def)
  next
    case False
    then have "spec_bounded d t now sc b \<or> allows R sc b" using grown_bounded [OF g _ False t(2)] b by simp
    then show ?thesis using P t(1) False by (auto simp: granted_def)
  qed
qed

lemma project_covers:
  assumes "b \<in> spec_effective d now (ProjectScope p)" "sc_Type sc \<noteq> StOrg" "sc_ProjectID sc = p"
  shows "b \<in> spec_effective d now sc"
  using assms by (auto simp: spec_effective_def ProjectScope_def spec_bounded_def nested_of_def grants_def)

section \<open>From rows to data\<close>

text \<open>The rows that reach a user: her own, and those of the groups she is in, with the expiry of the membership.\<close>

definition reaches :: "ADB \<Rightarrow> uuid \<Rightarrow> uuid \<Rightarrow> string \<Rightarrow> uuid \<Rightarrow> time option \<Rightarrow> bool" where
  "reaches db g u typ sid x \<longleftrightarrow> (typ = ''user'' \<and> sid = u \<and> x = None) \<or>
     (typ = ''group'' \<and> (\<exists>m \<in> set (db_group_members db). \<exists>gr \<in> set (db_groups db). gm_User m = u \<and> gm_Group m = sid \<and> gm_Expires m = x \<and>
        gr_ID gr = sid \<and> gr_Org gr = g \<and> gr_Archived gr = None))"

lemma set_LoadUserAssignments:
  "(r, x) \<in> set (LoadUserAssignments db g u) \<longleftrightarrow> r \<in> set (db_assignments db) \<and> as_Org r = g \<and> as_Revoked r = None \<and> reaches db g u (as_SubjectType r) (as_SubjectID r) x"
proof -
  have "(r, x) \<in> set (group_rows db g m) \<longleftrightarrow> r \<in> set (db_assignments db) \<and> as_Org r = g \<and> as_Revoked r = None \<and> as_SubjectType r = ''group'' \<and> x = gm_Expires m \<and>
      gm_Group m = as_SubjectID r \<and> (\<exists>gr \<in> set (db_groups db). gr_ID gr = as_SubjectID r \<and> gr_Org gr = g \<and> gr_Archived gr = None)" for m
    by (force simp: group_rows_def live_rows_def)
  moreover have "(r, x) \<in> set (map (\<lambda>r. (r, None)) (live_rows db g ''user'' u)) \<longleftrightarrow> r \<in> set (db_assignments db) \<and> as_Org r = g \<and> as_Revoked r = None \<and>
      as_SubjectType r = ''user'' \<and> as_SubjectID r = u \<and> x = None"
    by (auto simp: live_rows_def)
  ultimately show ?thesis unfolding LoadUserAssignments_def reaches_def set_append set_concat set_map Un_iff UN_iff set_filter by auto
qed

text \<open>\<open>kept_people\<close>: organizations (but for epochs), users, members and projects are the same; \<open>kept_core\<close>: so are the templates and
  environments, that is, the tables differ at most in groups, assignments, idempotency keys, the audit log and epochs;
  \<open>same_tables\<close>: the groups are the same too.\<close>

definition kept_people :: "ADB \<Rightarrow> ADB \<Rightarrow> bool" where
  "kept_people db db' \<longleftrightarrow> map (\<lambda>r. r\<lparr> ao_Epoch := 0 \<rparr>) (db_orgs db') = map (\<lambda>r. r\<lparr> ao_Epoch := 0 \<rparr>) (db_orgs db) \<and>
     db_users db' = db_users db \<and> db_members db' = db_members db \<and> db_projects db' = db_projects db"

definition kept_core :: "ADB \<Rightarrow> ADB \<Rightarrow> bool" where
  "kept_core db db' \<longleftrightarrow> kept_people db db' \<and> db_templates db' = db_templates db \<and> db_versions db' = db_versions db \<and> db_environments db' = db_environments db"

definition same_tables :: "ADB \<Rightarrow> ADB \<Rightarrow> bool" where
  "same_tables db db' \<longleftrightarrow> kept_core db db' \<and> db_groups db' = db_groups db \<and> db_group_members db' = db_group_members db"

lemmas core_defs = kept_core_def kept_people_def

lemmas same_defs = same_tables_def core_defs

lemma find_map_inv: "(\<And>x. P (f x) = P x) \<Longrightarrow> find P (map f xs) = map_option f (find P xs)"
  by (induction xs) simp_all

lemma kept_people_org:
  assumes "kept_people db db'" "\<And>r. P (r\<lparr> ao_Epoch := 0 \<rparr>) = P r"
  shows "map_option (\<lambda>r. r\<lparr> ao_Epoch := 0 \<rparr>) (find P (db_orgs db')) = map_option (\<lambda>r. r\<lparr> ao_Epoch := 0 \<rparr>) (find P (db_orgs db))"
proof -
  let ?f = "\<lambda>r. r\<lparr> ao_Epoch := 0 \<rparr>"
  have "find P (map ?f (db_orgs db')) = find P (map ?f (db_orgs db))" using assms(1) by (simp add: kept_people_def)
  then show ?thesis by (simp only: find_map_inv [of P ?f, OF assms(2)])
qed

lemma live_epoch: "(ao_ID (r\<lparr> ao_Epoch := 0 \<rparr>) = g \<and> \<not> ao_Deleted (r\<lparr> ao_Epoch := 0 \<rparr>)) = (ao_ID r = g \<and> \<not> ao_Deleted r)"
  by simp

lemma kept_people_live:
  assumes "kept_people db db'" "org_live db g = Some r"
  obtains r' where "org_live db' g = Some r'" "ao_Mode r' = ao_Mode r"
proof -
  note eq = kept_people_org [OF assms(1), of "\<lambda>r. ao_ID r = g \<and> \<not> ao_Deleted r", OF live_epoch]
  show thesis
  proof (cases "org_live db' g")
    case None then show thesis using eq assms(2) by simp
  next
    case (Some r')
    then have "r'\<lparr> ao_Epoch := 0 \<rparr> = r\<lparr> ao_Epoch := 0 \<rparr>" using eq assms(2) by simp
    then have "ao_Mode r' = ao_Mode r" by (drule_tac arg_cong [where f = ao_Mode]) simp
    then show thesis by (rule that [OF Some])
  qed
qed

lemma kept_core_reads:
  assumes "kept_core db db'"
  shows "template_version db' ref = template_version db ref" "row_place db' r = row_place db r" "row_grant db' y = row_grant db y"
    "LoadProjectOverrides db' g = LoadProjectOverrides db g" "member_template db' m = member_template db m"
proof -
  have eqs: "db_templates db' = db_templates db" "db_versions db' = db_versions db" "db_environments db' = db_environments db" using assms by (simp_all add: kept_core_def)
  show tv: "template_version db' ref = template_version db ref" for ref unfolding template_version_def eqs ..
  show rp: "row_place db' r = row_place db r" for r unfolding row_place_def eqs ..
  show "row_grant db' y = row_grant db y" unfolding row_grant_def tv rp ..
  show "LoadProjectOverrides db' g = LoadProjectOverrides db g" using assms by (simp add: core_defs LoadProjectOverrides_def)
  have "LoadTemplateVersions db' refs = LoadTemplateVersions db refs" for refs unfolding LoadTemplateVersions_def tv ..
  then have ot: "org_template db' t v = org_template db t v" for t v by (simp add: org_template_def)
  show "member_template db' m = member_template db m" unfolding member_template_def tv ot ..
qed

lemma same_tables_reads:
  assumes "same_tables db db'"
  shows "template_version db' ref = template_version db ref" "row_place db' r = row_place db r" "row_grant db' y = row_grant db y" "reaches db' g u typ sid x = reaches db g u typ sid x"
  using assms kept_core_reads [of db db'] by (simp_all add: same_tables_def reaches_def)

lemma kept_people_member:
  assumes "kept_people db db'"
  shows "LoadMembership db' g u = LoadMembership db g u" and "\<exists>ep. src_Epochs db g u = Inr ep \<Longrightarrow> \<exists>ep. src_Epochs db' g u = Inr ep"
proof -
  have none: "(find P (db_orgs db') = None) = (find P (db_orgs db) = None)" if "\<And>r. P (r\<lparr> ao_Epoch := 0 \<rparr>) = P r" for P
    using arg_cong [OF kept_people_org [OF assms, of P, OF that], of "\<lambda>z. z = None"] by simp
  have eqs: "db_members db' = db_members db" "db_users db' = db_users db" using assms by (simp_all add: kept_people_def)
  have "(org_live db' g = None) = (org_live db g = None)" by (rule none) simp
  then show "LoadMembership db' g u = LoadMembership db g u" unfolding LoadMembership_def eqs by (cases "org_live db' g"; cases "org_live db g") (simp_all split: option.split)
  have "(find (\<lambda>r. ao_ID r = g) (db_orgs db') = None) = (find (\<lambda>r. ao_ID r = g) (db_orgs db) = None)" by (rule none) simp
  then show "\<exists>ep. src_Epochs db g u = Inr ep \<Longrightarrow> \<exists>ep. src_Epochs db' g u = Inr ep"
    unfolding src_Epochs_def eqs by (auto split: option.splits)
qed

text \<open>The rows behind the data of a user, and what changes with them.\<close>

definition sources :: "ADB \<Rightarrow> uuid \<Rightarrow> uuid \<Rightarrow> AssignRow \<Rightarrow> time option \<Rightarrow> bool" where
  "sources db g u r x \<longleftrightarrow> r \<in> set (db_assignments db) \<and> as_Org r = g \<and> as_Revoked r = None \<and> reaches db g u (as_SubjectType r) (as_SubjectID r) x"

lemma loaded_mem:
  assumes "engine_LoadAccess db u g = Inr d"
  shows "a \<in> set (d_Assignments d) \<longleftrightarrow> d_Member d \<and> (\<exists>r x. sources db g u r x \<and> row_grant db (r, x) = Some a)"
proof -
  have "a \<in> set (List.map_filter (row_grant db) (LoadUserAssignments db g u)) \<longleftrightarrow> (\<exists>r x. sources db g u r x \<and> row_grant db (r, x) = Some a)"
    by (simp add: set_map_filter Bex_def split_paired_Ex set_LoadUserAssignments sources_def)
  then show ?thesis by - (rule LoadAccess_cases [OF assms], simp_all add: loaded_def zero_AccessData_def)
qed

lemma kept_people_load:
  assumes st: "kept_people db db'" and d: "engine_LoadAccess db u g = Inr d"
  obtains d' where "engine_LoadAccess db' u g = Inr d'" "d_Member d' = d_Member d" "d_UserActive d' = d_UserActive d" "d_MemberActive d' = d_MemberActive d"
    "d_Policy d' = d_Policy d" "d_ProjectOverrides d' = d_ProjectOverrides d"
    "d_Template d' = d_Template d \<or> (\<exists>m. LoadMembership db g u = Some m \<and> d_Template d = member_template db m \<and> d_Template d' = member_template db' m)"
proof -
  obtain ep' where ep': "src_Epochs db' g u = Inr ep'" using kept_people_member(2) [OF st] LoadAccess_epochs [OF d] by blast
  show thesis
  proof (rule LoadAccess_cases [OF d])
    fix ep assume o: "LoadMembership db g u = None" "d = zero_AccessData\<lparr> d_Epochs := ep \<rparr>"
    have "engine_LoadAccess db' u g = Inr (zero_AccessData\<lparr> d_Epochs := ep' \<rparr>)"
      by (simp add: LoadAccess_eq ep' kept_people_member(1) [OF st] o(1))
    then show thesis by (rule that) (simp_all add: o(2) zero_AccessData_def)
  next
    fix m r ep assume o: "LoadMembership db g u = Some m" "org_live db g = Some r" "d = loaded db u g m r ep"
    obtain r' where r': "org_live db' g = Some r'" "ao_Mode r' = ao_Mode r" by (rule kept_people_live [OF st o(2)])
    have ov: "LoadProjectOverrides db' g = LoadProjectOverrides db g" using st by (simp add: kept_people_def LoadProjectOverrides_def)
    have "engine_LoadAccess db' u g = Inr (loaded db' u g m r' ep')"
      by (simp add: LoadAccess_eq ep' kept_people_member(1) [OF st] o(1) LoadOrgPolicy_def r'(1) loaded_def)
    then show thesis by (rule that) (simp_all add: o(1,3) loaded_def r'(2) ov)
  qed
qed

lemma kept_core_load:
  assumes st: "kept_core db db'" and d: "engine_LoadAccess db u g = Inr d"
  obtains d' where "engine_LoadAccess db' u g = Inr d'" "same_base d d'"
proof -
  have "kept_people db db'" using st by (simp add: kept_core_def)
  then show thesis by (rule kept_people_load [OF _ d]) (rule that, assumption, auto simp: same_base_def kept_core_reads [OF st])
qed

lemma kept_core_base: "kept_core db db' \<Longrightarrow> engine_LoadAccess db u g = Inr d \<Longrightarrow> engine_LoadAccess db' u g = Inr d' \<Longrightarrow> same_base d d'"
  by (erule (1) kept_core_load) simp

lemmas same_tables_load = kept_core_load [OF conjunct1 [OF iffD1 [OF same_tables_def]]]

lemma same_tables_base: "same_tables db db' \<Longrightarrow> engine_LoadAccess db u g = Inr d \<Longrightarrow> engine_LoadAccess db' u g = Inr d' \<Longrightarrow> same_base d d'"
  unfolding same_tables_def by (blast intro: kept_core_base)

section \<open>One row is written\<close>

text \<open>\<open>one_row\<close>: the live rows are the old ones, except that \<open>r'\<close> is new or takes the place of the live row of the same
  subject, scope and template.\<close>

definition one_row :: "ADB \<Rightarrow> ADB \<Rightarrow> AssignRow \<Rightarrow> bool" where
  "one_row db db' r' \<longleftrightarrow> same_tables db db' \<and>
     (\<forall>r \<in> set (db_assignments db'). as_Revoked r = None \<longrightarrow> r \<in> set (db_assignments db) \<or> r = r') \<and>
     (\<forall>r \<in> set (db_assignments db). as_Revoked r = None \<longrightarrow> r \<in> set (db_assignments db') \<or> (r' \<in> set (db_assignments db') \<and> same_live r r' \<and> as_Org r' = as_Org r))"

lemma same_live_place: "same_live r r' \<Longrightarrow> row_place db r = row_place db r'"
  by (simp add: same_live_def row_place_def row_scope_def)

lemma row_grant_Some:
  assumes "template_version db (row_ref (r, x)) = Some (t, v)" "row_place db r = Some pl"
  obtains a where "row_grant db (r, x) = Some a" "place a = pl" "a_Permissions a = NewSet (rv_Permissions v)" "a_ExpiresAt a = row_expiry (r, x)"
  using assms that by (cases pl) (auto simp: row_grant_def place_def)

lemma row_grant_facts:
  assumes "row_grant db (r, x) = Some a"
  shows "row_place db r = Some (place a)" "\<exists>t v. template_version db (row_ref (r, x)) = Some (t, v) \<and> a_Permissions a = NewSet (rv_Permissions v)"
    "a_ExpiresAt a = row_expiry (r, x)"
  using assms by (auto simp: row_grant_def place_def split: option.splits)

lemma mem_live: "a \<in> set (live d now) \<longleftrightarrow> a \<in> set (d_Assignments d) \<and> \<not> expired a now"
  by (auto simp: live_def)

text \<open>What \<open>r'\<close> gives at the instant \<open>R\<close> allows, or it was given by the row it replaces, and if that row was in force so is \<open>r'\<close>.\<close>

definition gives :: "time \<Rightarrow> growth \<Rightarrow> ADB \<Rightarrow> AssignRow \<Rightarrow> bool" where
  "gives now R db r' \<longleftrightarrow> (\<forall>x a' b. row_grant db (r', x) = Some a' \<longrightarrow> \<not> expired a' now \<longrightarrow> HasBit (a_Permissions a') b \<longrightarrow>
     R (place a') b \<or>
     (\<exists>r a. r \<in> set (db_assignments db) \<and> as_Org r = as_Org r' \<and> same_live r r' \<and> row_grant db (r, x) = Some a \<and> \<not> expired a now \<and> HasBit (a_Permissions a) b))"

definition stays :: "time \<Rightarrow> ADB \<Rightarrow> AssignRow \<Rightarrow> bool" where
  "stays now db r' \<longleftrightarrow> (\<forall>r g u x a. sources db g u r x \<longrightarrow> same_live r r' \<longrightarrow> row_grant db (r, x) = Some a \<longrightarrow> \<not> expired a now \<longrightarrow>
     (\<exists>a'. row_grant db (r', x) = Some a' \<and> \<not> expired a' now))"

lemma same_live_source:
  assumes "same_live r r'" "sources db g u r x" "r' \<in> set (db_assignments db')" "as_Org r' = as_Org r" "same_tables db db'"
  shows "sources db' g u r' x"
  using assms same_tables_reads(4) [OF assms(5)] by (auto simp: same_live_def sources_def)

lemma same_live_grant:
  assumes "same_live r r'" "row_grant db (r, x) = Some a" "row_grant db (r', x') = Some a'"
  shows "place a = place a'"
  using same_live_place [OF assms(1), of db] row_grant_facts(1) [OF assms(2)] row_grant_facts(1) [OF assms(3)] by simp

lemma one_row_gives:
  assumes rw: "one_row db db' r'" and d: "engine_LoadAccess db u g = Inr d" and d': "engine_LoadAccess db' u g = Inr d'" and new: "gives now R db r'"
    and a': "a' \<in> set (live d' now)" and b: "HasBit (a_Permissions a') b"
  shows "(\<exists>a \<in> set (live d now). place a = place a' \<and> HasBit (a_Permissions a) b) \<or> R (place a') b"
proof -
  have st: "same_tables db db'" using rw by (simp add: one_row_def)
  obtain r x where r: "sources db' g u r x" "row_grant db (r, x) = Some a'" and ne: "\<not> expired a' now" and m: "d_Member d"
    using a' same_tables_base [OF st d d'] unfolding mem_live loaded_mem [OF d'] same_tables_reads(3) [OF st] same_base_def by blast
  have old: ?thesis if "sources db g u q x" "row_grant db (q, x) = Some a" "\<not> expired a now" "place a = place a'" "HasBit (a_Permissions a) b" for q a
    using that m unfolding mem_live Bex_def loaded_mem [OF d] by blast
  show ?thesis
  proof (cases "r \<in> set (db_assignments db)")
    case True
    then have "sources db g u r x" using r(1) same_tables_reads(4) [OF st] by (simp add: sources_def)
    then show ?thesis using old [of r a'] r(2) ne b by simp
  next
    case False
    then have eq: "r = r'" using rw r(1) unfolding one_row_def sources_def by blast
    consider "R (place a') b" | q a where "q \<in> set (db_assignments db)" "as_Org q = as_Org r'" "same_live q r'" "row_grant db (q, x) = Some a"
        "\<not> expired a now" "HasBit (a_Permissions a) b" using new ne b r(2) unfolding gives_def eq by blast
    then show ?thesis
    proof cases
      case 2
      have "sources db g u q x" using r(1) 2(1-3) same_tables_reads(4) [OF st] by (auto simp: sources_def same_live_def eq)
      then show ?thesis using old [of q a] 2 same_live_grant [OF 2(3,4), of x a'] r(2) by (simp add: eq)
    qed simp
  qed
qed

lemma one_row_stays:
  assumes rw: "one_row db db' r'" and d: "engine_LoadAccess db u g = Inr d" and d': "engine_LoadAccess db' u g = Inr d'" and keep: "stays now db r'"
    and a: "a \<in> set (live d now)"
  shows "\<exists>a' \<in> set (live d' now). place a' = place a"
proof -
  have st: "same_tables db db'" using rw by (simp add: one_row_def)
  obtain r x where r: "sources db g u r x" "row_grant db (r, x) = Some a" and ne: "\<not> expired a now" and m: "d_Member d'"
    using a same_tables_base [OF st d d'] unfolding mem_live loaded_mem [OF d] same_base_def by blast
  have new: ?thesis if "sources db' g u q x" "row_grant db (q, x) = Some a'" "\<not> expired a' now" "place a' = place a" for q a'
    using that m unfolding mem_live Bex_def loaded_mem [OF d'] same_tables_reads(3) [OF st] by blast
  show ?thesis
  proof (cases "r \<in> set (db_assignments db')")
    case True
    then have "sources db' g u r x" using r(1) same_tables_reads(4) [OF st] by (simp add: sources_def)
    then show ?thesis using new [of r a] r(2) ne by simp
  next
    case False
    then have q: "r' \<in> set (db_assignments db')" "same_live r r'" "as_Org r' = as_Org r" using rw r(1) unfolding one_row_def sources_def by blast+
    obtain a' where a': "row_grant db (r', x) = Some a'" "\<not> expired a' now" using keep r ne q(2) unfolding stays_def by blast
    show ?thesis using new [OF same_live_source [OF q(2) r(1) q(1,3) st] a'] same_live_grant [OF q(2) r(2) a'(1)] by simp
  qed
qed

lemma one_row_grown:
  assumes "one_row db db' r'" "engine_LoadAccess db u g = Inr d" "engine_LoadAccess db' u g = Inr d'" "gives now R db r'" "stays now db r'"
  shows "grown now R d d'"
  using one_row_gives [OF assms(1-4)] one_row_stays [OF assms(1-3,5)] same_base_grown [OF same_tables_base [OF _ assms(2,3)]] assms(1) unfolding grown_def one_row_def by blast

end
