(* ===== verification/Access_Run.thy ===== *)
theory Access_Run
  imports Access_Admin
begin

text \<open>
  A small organization on which the operations of the access administration are run: an administrator who is not an
  owner (user 5), a developer (user 6), one project (10), and the templates they use. The catalog is computed from its
  tables, so that the runs evaluate.
\<close>

section \<open>Evaluation of the catalog\<close>

declare ids_eval [code]
declare index_eq [code]
declare bitView_eq [code]

lemma needStrict_code [code]:
  "needStrict ps = list_ex (\<lambda>p. case gomap_get index p of Some b \<Rightarrow> strings_Contains (raw_flags (table ! b)) ''s'' | None \<Rightarrow> False) ps"
proof -
  have "(case Get p of Some c \<Rightarrow> Sensitive c | None \<Rightarrow> False) = (case gomap_get index p of Some b \<Rightarrow> strings_Contains (raw_flags (table ! b)) ''s'' | None \<Rightarrow> False)" for p
    by (auto simp: Get_def index_get_iff perms_nth Sensitive_init_perm split: option.splits)
  then show ?thesis by (simp only: needStrict_def)
qed

fun one_bits :: "nat \<Rightarrow> int \<Rightarrow> nat \<Rightarrow> nat list" where
  "one_bits b w 0 = []"
| "one_bits b w (Suc n) = (if odd w then b # one_bits (Suc b) (w div 2) n else one_bits (Suc b) (w div 2) n)"

lemma one_bits_eq: "one_bits b w n = filter (\<lambda>i. bit w (i - b)) [b..<b + n]"
proof (induction n arbitrary: b w)
  case (Suc n)
  have "filter (\<lambda>i. bit (w div 2) (i - Suc b)) [Suc b..<Suc b + n] = filter (\<lambda>i. bit w (i - b)) [Suc b..<b + Suc n]"
    by (rule filter_cong) (auto simp: Suc_diff_Suc simp flip: bit_Suc)
  moreover have "[b..<b + Suc n] = b # [Suc b..<b + Suc n]" by (simp add: upt_conv_Cons)
  ultimately show ?case using Suc.IH [of "Suc b" "w div 2"] by (simp add: bit_0)
qed simp

definition set_bits_of :: "pset \<Rightarrow> nat list" where
  "set_bits_of s = filter (HasBit s) [0..<99]"

lemma HasBit_code [code]: "HasBit (PSet a c) b = (if b < 64 then bit (uint a) b else b < 128 \<and> bit (uint c) (b - 64))"
  by (auto simp: HasBit_bit bit_uint_iff)

lemma set_bits_of_code [code]: "set_bits_of (PSet a c) = one_bits 0 (uint a) 64 @ one_bits 64 (uint c) 35"
proof -
  have "[0..<99] = [0..<64] @ [64..<99::nat]" using upt_add_eq_append [of 0 64 35] by simp
  moreover have "filter (HasBit (PSet a c)) [0..<64] = filter (\<lambda>i. bit (uint a) i) [0..<64]"
    by (rule filter_cong) (simp_all only: HasBit_code set_upt atLeastLessThan_iff if_True)
  moreover have "filter (HasBit (PSet a c)) [64..<99] = filter (\<lambda>i. bit (uint c) (i - 64)) [64..<99]"
    by (rule filter_cong) (simp_all only: HasBit_code set_upt atLeastLessThan_iff not_less [symmetric] if_False, auto)
  ultimately show ?thesis by (simp only: set_bits_of_def one_bits_eq filter_append) simp
qed

lemma IDs_code [code]: "IDs s = map ((!) ids) (set_bits_of s)"
  by (simp add: IDs_eq set_bits_of_def)

lemma outOfScope_code [code]:
  "outOfScope st typ = map ((!) ids) (filter (\<lambda>b. scopeRank (permScope (if typ = ''org'' then ''project'' else typ)) \<notin> set (scope_ranks ! b)) (set_bits_of st))"
  by (auto simp: outOfScope_def IDs_eq filter_map comp_def HasScope_nth Let_def set_bits_of_def conj_commute intro!: arg_cong [of _ _ "map ((!) ids)"] filter_cong)

lemma sensitives_code [code]: "sensitives b = (b < 99 \<and> strings_Contains (raw_flags (table ! b)) ''s'')"
  by (simp add: sensitives_def perms_nth Sensitive_init_perm)

lemma Full_code [code]: "Full = PSet 18446744073709551615 34359738367"
proof (rule pset_eqI)
  fix b
  have m: "(18446744073709551615 :: 64 word) = mask 64" "(34359738367 :: 64 word) = mask 35" by (simp_all add: mask_eq_exp_minus_1)
  have "HasBit (PSet (mask 64) (mask 35)) b \<longleftrightarrow> b < 99" by (auto simp: HasBit_bit bit_mask_iff)
  then show "HasBit Full b = HasBit (PSet 18446744073709551615 34359738367) b" unfolding m HasBit_Full by (simp only:)
qed

section \<open>The organization\<close>

definition ex_cx :: Ctx where
  "ex_cx = \<lparr> cx_now = 1000, cx_uuid = ex_uuid, cx_wait = (\<lambda>_. Inl []), cx_new = 77 \<rparr>"

definition ex_member :: "uuid \<Rightarrow> OrgMember" where
  "ex_member u = \<lparr> om_Org = 1, om_User = u, om_Role = ''readonly'', om_Status = ''active'', om_JoinedAt = 1, om_Template = Some 100, om_Version = None \<rparr>"

definition ex_template :: "uuid \<Rightarrow> string \<Rightarrow> TemplateRow" where
  "ex_template i kind = \<lparr> rt_ID = i, rt_Org = Some 1, rt_Kind = kind, rt_Slug = ''custom'', rt_Name = ''Custom'', rt_Description = [], rt_ClonedFrom = None, rt_System = False, rt_Current = 1, rt_Archived = None \<rparr>"

definition ex_version :: "uuid \<Rightarrow> string list \<Rightarrow> VersionRow" where
  "ex_version i ps = \<lparr> rv_Template = i, rv_Version = 1, rv_Permissions = ps, rv_Ceiling = None, rv_CeilingProject = None, rv_Floor = None, rv_Base = None, rv_Note = [] \<rparr>"

definition ex_arow :: "uuid \<Rightarrow> uuid \<Rightarrow> uuid \<Rightarrow> time option \<Rightarrow> AssignRow" where
  "ex_arow i user template expires = \<lparr> as_ID = i, as_Org = 1, as_SubjectType = ''user'', as_SubjectID = user, as_ScopeType = ''project'', as_ScopeID = 10,
     as_Template = template, as_Pinned = None, as_Source = ''manual'', as_Reason = [], as_Expires = expires, as_CreatedBy = None, as_CreatedAt = 1,
     as_Revoked = None, as_RevokedBy = None \<rparr>"

text \<open>User 5 may grant in project 10 and holds little else; user 6 was given \<^verbatim>\<open>database:query\<close> there, which has run out.\<close>

definition ex_adb :: ADB where
  "ex_adb = \<lparr> db_orgs = [\<lparr> ao_ID = 1, ao_Deleted = False, ao_Mode = ''restricted'', ao_Epoch = 1, ao_MaxDays = None, ao_CustomRoles = None \<rparr>],
     db_users = [\<lparr> us_ID = 5, us_Email = ''a@x.io'', us_Name = ''A'', us_Status = ''active'', us_Epoch = 1 \<rparr>, \<lparr> us_ID = 6, us_Email = ''b@x.io'', us_Name = ''B'', us_Status = ''active'', us_Epoch = 1 \<rparr>],
     db_members = [ex_member 5, ex_member 6],
     db_templates = [ex_template 100 ''org'', ex_template 200 ''project'', ex_template 201 ''project'', ex_template 202 ''project''],
     db_versions = [ex_version 100 [], ex_version 200 [''project:view'', ''assignment:read'', ''assignment:grant''],
       ex_version 201 [''project:view'', ''assignment:read''], ex_version 202 [''project:view'', ''database:read'', ''database:query'']],
     db_groups = [], db_group_members = [],
     db_projects = [\<lparr> pj_ID = 10, pj_Org = 1, pj_Deleted = False, pj_Override = None \<rparr>], db_environments = [],
     db_assignments = [ex_arow 50 5 200 None, ex_arow 51 6 202 (Some 900)], db_invitations = [], db_idempotency = [], db_audit_logs = [] \<rparr>"

definition ex_ainput :: AssignmentInput where
  "ex_ainput = \<lparr> ai_SubjectType = ''user'', ai_SubjectID = 6, ai_ScopeType = ''project'', ai_ScopeID = 10, ai_TemplateID = 201,
     ai_Pinned = None, ai_Expires = None, ai_Reason = [] \<rparr>"

definition ex_patch :: PatchAssignmentInput where
  "ex_patch = \<lparr> pa_Expires = Some None, pa_Reason = None, pa_Pinned = None \<rparr>"

abbreviation ex_eng :: Engine where "ex_eng \<equiv> New 300 0"

lemma ex_adb_wf: "adb_wf ex_adb"
  by (simp add: adb_wf_def ex_adb_def ex_arow_def same_live_def ex_member_def)

section \<open>Runs\<close>

definition ok_result :: "aerr + 'a \<Rightarrow> bool" where
  "ok_result r = (case r of Inl _ \<Rightarrow> False | Inr _ \<Rightarrow> True)"

lemma ok_resultE: "ok_result (fst r) \<Longrightarrow> \<exists>v. r = (Inr v, fst (snd r), snd (snd r))"
  by (cases r) (auto simp: ok_result_def split: sum.splits)

lemma ex_not_owner: "\<not> isOwner ex_cx ex_adb 1 5"
  by code_simp

lemma ex_loads: "ok_result (map_sum AInternal id (engine_LoadAccess ex_adb 6 1))"
  by code_simp

lemma ex_create_ok: "ok_result (fst (CreateAssignment ex_cx 5 1 ex_ainput None ex_adb ex_eng))"
  by code_simp

lemma ex_patch_ok: "ok_result (fst (PatchAssignment ex_cx 5 1 51 ex_patch None ex_adb ex_eng))"
  by code_simp

lemma ex_coherent: "coherent st ex_eng k" "gomap_get (e_inflight ex_eng) k = None"
  by (simp_all add: coherent_def New_def newCache_def cache_lookup_def)

text \<open>The tables after the patch: the assignment without its expiry, the epoch of the organization raised, the audit row.\<close>

definition ex_patched :: ADB where
  "ex_patched = bump_org 1 (access_audit 1 5 ''access.assignment.changed'' ''assignment'' 51 (Some 10) 1
     (ex_adb\<lparr> db_assignments := [ex_arow 50 5 200 None, ex_arow 51 6 202 None] \<rparr>))"

lemma ex_patch_run: "fst (snd (PatchAssignment ex_cx 5 1 51 ex_patch None ex_adb ex_eng)) = ex_patched"
  by code_simp


end
