(* ===== verification/Access_Escalation.thy ===== *)
theory Access_Escalation
  imports Access_Grants Access_Run
begin

text \<open>
  No escalation: what the guards of the operations on assignments establish about the actor, the writes as changes of one
  row, and the theorems about \<^verbatim>\<open>CreateAssignment\<close>, \<^verbatim>\<open>PatchAssignment\<close>, \<^verbatim>\<open>RevokeAssignment\<close> and the idempotent write.
\<close>

section \<open>The reads of a request\<close>

text \<open>Before the strict read of a request the cache is coherent (\<open>coh\<close>); after it, it is current (\<open>cur\<close>).\<close>

definition coh :: "Ctx \<Rightarrow> ADB \<Rightarrow> cacheKey \<Rightarrow> Engine \<Rightarrow> bool" where
  "coh cx db k e \<longleftrightarrow> engine_wf e (cx_now cx) \<and> coherent (cx_store cx db) e k \<and> gomap_get (e_inflight e) k = None"

definition cur :: "Ctx \<Rightarrow> ADB \<Rightarrow> cacheKey \<Rightarrow> Engine \<Rightarrow> bool" where
  "cur cx db k e \<longleftrightarrow> engine_wf e (cx_now cx) \<and> src.current (cx_wait cx) db e k"

lemma coherent_put:
  assumes "engine_wf e now" "st_LoadAccess st k = Inr od"
  shows "coherent st (snd (compileNow st e k now)) k"
  using assms sc.lookup_put_same [of "e_cache e" k] by (simp add: compileNow_def Let_def coherent_def engine_wf_def)

lemma coherent_touch: "engine_wf e now \<Longrightarrow> e_cache e1 = cache_touch (e_cache e) k t \<Longrightarrow> coherent st e1 k = coherent st e k"
  by (simp add: coherent_def engine_wf_def sc.lookup_touch)

lemma loadShared_coherent:
  assumes "engine_wf e now" "coherent st e k" "gomap_get (e_inflight e) k = None"
  shows "coherent st (snd (loadShared st e k now)) k" "gomap_get (e_inflight (snd (loadShared st e k now))) k = None"
proof -
  let ?e = "e\<lparr> e_inflight := gomap_set k 0 (e_inflight e) \<rparr>"
  have eq: "snd (loadShared st e k now) = (snd (compileNow st ?e k now))\<lparr> e_inflight := gomap_del k (e_inflight (snd (compileNow st ?e k now))) \<rparr>"
    using assms(3) by (simp add: loadShared_def case_prod_unfold Let_def)
  have "coherent st (snd (compileNow st ?e k now)) k"
  proof (cases "st_LoadAccess st k")
    case (Inl x) then show ?thesis using assms(2) by (simp add: compileNow_def coherent_def)
  next
    case (Inr od) then show ?thesis using coherent_put [of ?e now st k od] assms(1) by (simp add: engine_wf_def)
  qed
  then show "coherent st (snd (loadShared st e k now)) k" by (simp add: eq coherent_def)
  show "gomap_get (e_inflight (snd (loadShared st e k now))) k = None" by (simp add: eq)
qed

lemma read_coherent:
  assumes wf: "engine_wf e now" and co: "coherent st e k" "gomap_get (e_inflight e) k = None"
  shows "coherent st (snd (engine_snapshot st e k False now)) k \<and> gomap_get (e_inflight (snd (engine_snapshot st e k False now))) k = None"
proof (cases rule: engine_snapshot_cases [of e k now False st])
  case (hit s e1)
  then show ?thesis using co coherent_touch [OF wf hit(5), of st] by simp
next
  case (shared_load e1)
  then show ?thesis using loadShared_coherent [OF engine_wf_touch [OF wf shared_load(3,4)], of st k] co coherent_touch [OF wf shared_load(3), of st] by simp
qed simp_all

lemma svc_effective_eq:
  "svc_effective cx db u g sc strict e = (map_sum AInternal id (fst (effective (cx_store cx db) e (u, g) sc strict (cx_now cx))), snd (effective (cx_store cx db) e (u, g) sc strict (cx_now cx)))"
  by (simp add: svc_effective_def EffectiveStrict_def Effective_def case_prod_unfold Let_def)

lemma snd_effective: "snd (effective st e k sc strict now) = snd (engine_snapshot st e k strict now)"
  by (simp add: effective_def with_snapshot_def case_prod_unfold Let_def)

lemma lenient_coh: "coh cx db (u, g) e \<Longrightarrow> coh cx db (u, g) (snd (svc_effective cx db u g sc False e))"
  using read_coherent engine_snapshot_wf by (simp add: coh_def svc_effective_eq snd_effective)

lemma load_total: "src_Epochs db g u = Inr ep \<Longrightarrow> \<exists>d. engine_LoadAccess db u g = Inr d"
  by (auto simp: LoadAccess_eq LoadMembership_def LoadOrgPolicy_def split: option.splits)

lemma strict_load_ok:
  assumes "fst (svc_effective cx db u g sc True e) = Inr r"
  shows "\<exists>d. engine_LoadAccess db u g = Inr d"
proof -
  let ?st = "cx_store cx db"
  obtain s where s: "fst (engine_snapshot ?st e (u, g) True (cx_now cx)) = Inr s"
    using assms by (cases "fst (engine_snapshot ?st e (u, g) True (cx_now cx))") (auto simp: svc_effective_eq effective_def with_snapshot_eq)
  show ?thesis
  proof (cases rule: engine_snapshot_cases [of e "(u, g)" "cx_now cx" True ?st])
    case (hit t e1) then show ?thesis using load_total by (auto simp: engine_store_def)
  next
    case (strict_load e1)
    then show ?thesis using s by (cases "engine_LoadAccess db u g") (auto simp: compileNow_def engine_store_def)
  qed (use s in simp_all)
qed

lemma load_store: "engine_LoadAccess db u g = Inr d \<Longrightarrow> st_LoadAccess (cx_store cx db) (u, g) = Inr (Some d)"
  by (simp add: engine_store_def)

lemma strict_cur:
  assumes "adb_wf db" "coh cx db (u, g) e" "svc_effective cx db u g sc True e = (Inr (acc, st), e')"
  obtains d where "engine_LoadAccess db u g = Inr d" "{b. HasBit st b} = spec_effective d (cx_now cx) sc" "cur cx db (u, g) e'"
proof -
  obtain d where d: "engine_LoadAccess db u g = Inr d" using strict_load_ok [of cx db u g sc e] assms(3) by auto
  have "src.reads (cx_wait cx) db (u, g) d sc (cx_now cx) (effective (cx_store cx db) e (u, g) sc True (cx_now cx))"
    using src.effective_strict [OF assms(1) load_store [OF d, of cx]] assms(2) by (simp add: coh_def or_zero_def)
  then show thesis using assms(3) that [OF d] by (auto simp: svc_effective_eq src.reads_def cur_def)
qed

lemma read_cur:
  assumes "adb_wf db" "cur cx db (u, g) e" "engine_LoadAccess db u g = Inr d" "svc_effective cx db u g sc strict e = (r, e')"
  shows "\<exists>acc st. r = Inr (acc, st) \<and> {b. HasBit st b} = spec_effective d (cx_now cx) sc" "cur cx db (u, g) e'"
proof -
  have "src.reads (cx_wait cx) db (u, g) d sc (cx_now cx) (effective (cx_store cx db) e (u, g) sc strict (cx_now cx))"
    using src.effective_current [OF assms(1) load_store [OF assms(3), of cx]] assms(2) by (simp add: cur_def or_zero_def)
  then show "\<exists>acc st. r = Inr (acc, st) \<and> {b. HasBit st b} = spec_effective d (cx_now cx) sc" "cur cx db (u, g) e'"
    using assms(4) by (auto simp: svc_effective_eq src.reads_def cur_def)
qed

section \<open>What the guards establish\<close>

lemma andThen_Inr: "andThen m f e = (Inr b, e'') \<longleftrightarrow> (\<exists>a e'. m e = (Inr a, e') \<and> f a e' = (Inr b, e''))"
  by (auto simp: andThen_def split: prod.splits sum.splits)

lemma fail_Inr [simp]: "fail x e \<noteq> (Inr b, e')" "fail x e = (r, e') \<longleftrightarrow> r = Inl x \<and> e' = e"
  by (auto simp: fail_def)

lemma pure_eq [simp]: "pure a e = (r, e') \<longleftrightarrow> r = Inr a \<and> e' = e"
  by (auto simp: pure_def)

lemma denial_Inr [simp]: "denial cx db actor g sc ps missing acc e \<noteq> (Inr b, e')"
  by (auto simp: denial_def case_prod_unfold Let_def)

lemma require_Inr:
  assumes "require cx db actor g sc ps e = (Inr st, e')"
  shows "\<exists>acc. svc_effective cx db actor g sc (needStrict ps) e = (Inr (acc, st), e') \<and> acc_Member acc \<and> \<not> acc_Hidden acc \<and> list_all (Set_Has st) ps"
  using assms by (auto simp: require_def andThen_Inr Let_def filter_empty_conv list_all_iff split: if_splits)

lemma requireAt_Inr:
  assumes "requireAt cx db actor g typ i ps e = (Inr (sc, project, st), e')"
  shows "resolveScope db g typ i = Inr (sc, project)" "require cx db actor g sc ps e = (Inr st, e')"
  using assms by (auto simp: requireAt_def andThen_Inr split: sum.splits if_splits prod.splits)

lemma grant_bit: "gomap_get index ''assignment:grant'' = Some 91"
  by (simp add: index_get_iff ids_eval)

lemma grant_is_strict: "needStrict [''assignment:grant'']"
proof -
  have "raw_flags (table ! 91) = ''s''" by (simp add: table_def)
  then show ?thesis by (simp add: needStrict_def Get_def grant_bit perms_nth Sensitive_init_perm strings_HasPrefix_def)
qed

lemma find_SomeD: "find P xs = Some x \<Longrightarrow> x \<in> set xs \<and> P x"
  by (induction xs) (auto split: if_splits)

lemma lenient_require: "coh cx db (u, g) e \<Longrightarrow> require cx db u g sc [] e = (Inr st, e') \<Longrightarrow> coh cx db (u, g) e'"
  using lenient_coh [of cx db u g e sc] by (auto dest!: require_Inr simp: needStrict_def)

text \<open>The actor was authorized by a strict read.\<close>

lemma grant_required:
  assumes "adb_wf db" "coh cx db (u, g) e" "requireAt cx db u g typ i [''assignment:grant''] e = (Inr (sc, project, st), e')"
  obtains d where "engine_LoadAccess db u g = Inr d" "cur cx db (u, g) e'" "resolveScope db g typ i = Inr (sc, project)"
    "{b. HasBit st b} = spec_effective d (cx_now cx) sc" "Set_Has st ''assignment:grant''"
proof -
  note r = requireAt_Inr [OF assms(3)]
  obtain acc where acc: "svc_effective cx db u g sc True e = (Inr (acc, st), e')" "Set_Has st ''assignment:grant''"
    using require_Inr [OF r(2)] grant_is_strict by (auto simp: list_all_iff)
  show thesis by (rule strict_cur [OF assms(1,2) acc(1)]) (rule that; use r(1) acc(2) in simp)
qed

lemma caps_loop_cur:
  assumes "adb_wf db" "engine_LoadAccess db u g = Inr d"
  shows "caps_loop cx db u g caps ps e = (Inr st, e') \<Longrightarrow> cur cx db (u, g) e \<Longrightarrow>
    HasBit st b \<Longrightarrow> HasBit caps b \<and> (\<forall>p \<in> set ps. b \<in> spec_effective d (cx_now cx) (ProjectScope p))"
proof (induction ps arbitrary: caps e)
  case (Cons p ps)
  obtain acc st1 e1 where s: "svc_effective cx db u g (ProjectScope p) False e = (Inr (acc, st1), e1)"
    and rest: "(let caps' = Intersect caps st1 in if IsEmpty caps' then pure caps' else caps_loop cx db u g caps' ps) e1 = (Inr st, e')"
    using Cons.prems(1) by (auto simp: andThen_Inr)
  have eff: "{b. HasBit st1 b} = spec_effective d (cx_now cx) (ProjectScope p)" and c1: "cur cx db (u, g) e1"
    using read_cur [OF assms(1) Cons.prems(2) assms(2) s] by auto
  show ?case
  proof (cases "IsEmpty (Intersect caps st1)")
    case True
    then have "\<not> HasBit st b" using rest by (simp add: Let_def ps.is_empty_has)
    then show ?thesis using Cons.prems(3) by simp
  next
    case False
    then have "caps_loop cx db u g (Intersect caps st1) ps e1 = (Inr st, e')" using rest by (simp add: Let_def)
    then have "HasBit (Intersect caps st1) b \<and> (\<forall>p \<in> set ps. b \<in> spec_effective d (cx_now cx) (ProjectScope p))" using Cons.IH [OF _ c1 Cons.prems(3)] by blast
    moreover have "HasBit st1 b \<Longrightarrow> b \<in> spec_effective d (cx_now cx) (ProjectScope p)" using eff by blast
    ultimately show ?thesis by (simp add: HasBit_Intersect)
  qed
qed simp

text \<open>What an empty answer of \<^verbatim>\<open>containmentMissing\<close> means: the actor holds the permissions wherever the place reaches.\<close>

definition held :: "ADB \<Rightarrow> uuid \<Rightarrow> AccessData \<Rightarrow> time \<Rightarrow> pset \<Rightarrow> ScopeType \<times> uuid \<times> uuid \<Rightarrow> bool" where
  "held db g d now P pl \<longleftrightarrow> (\<forall>b sc. HasBit P b \<longrightarrow> covers pl sc \<longrightarrow> sc_ProjectID sc \<in> set (projectIDs db g) \<longrightarrow> b \<in> spec_effective d now sc)"

lemma resolve_project_scope:
  assumes "resolveScope db g ''project'' i = Inr (sc, project)"
  shows "sc = ProjectScope i"
  using assms by (auto simp: resolveScope_def split: if_splits)

lemma resolve_repo:
  assumes "resolveScope db g ''repo'' i = Inr (sc, project)"
  shows "sc = RepoScope i i"
  using assms by (auto simp: resolveScope_def split: if_splits)

lemma resolve_env:
  assumes "resolveScope db g ''env'' i = Inr (sc, project)"
  obtains ev where "ev \<in> set (db_environments db)" "ev_ID ev = i" "sc = EnvScope (ev_Project ev) i"
proof -
  let ?P = "\<lambda>e. ev_ID e = i \<and> list_ex (\<lambda>p. pj_ID p = ev_Project e \<and> pj_Org p = g \<and> \<not> pj_Deleted p) (db_projects db)"
  show thesis
  proof (cases "find ?P (db_environments db)")
    case None then show thesis using assms by (simp add: resolveScope_def)
  next
    case (Some ev) then show thesis using assms that [of ev] find_SomeD [OF Some] by (auto simp: resolveScope_def)
  qed
qed

lemma resolve_type:
  "resolveScope db g typ i = Inr r \<Longrightarrow> typ \<noteq> ''org'' \<Longrightarrow> typ = ''project'' \<or> typ = ''repo'' \<or> typ = ''env''"
  unfolding resolveScope_def by (metis Inl_Inr_False)

lemma resolve_place:
  assumes wf: "adb_wf db" and rs: "resolveScope db g (as_ScopeType r) (as_ScopeID r) = Inr (sc, project)" and pl: "row_place db r = Some pl" and no: "as_ScopeType r \<noteq> ''org''"
    and b: "b \<in> spec_effective d now sc" and c: "covers pl sc'"
  shows "b \<in> spec_effective d now sc'"
  using resolve_type [OF rs no]
proof (elim disjE)
  assume t: "as_ScopeType r = ''project''"
  then have "sc = ProjectScope (as_ScopeID r)" "pl = (StProject, as_ScopeID r, as_ScopeID r)"
    using resolve_project_scope rs pl by (auto simp: row_place_def row_scope_def)
  then show ?thesis using project_covers [of b d now "as_ScopeID r" sc'] b c by (simp add: covers_def)
next
  assume t: "as_ScopeType r = ''repo''"
  then have "sc = RepoScope (as_ScopeID r) (as_ScopeID r)" "pl = (StRepo, as_ScopeID r, as_ScopeID r)"
    using resolve_repo rs pl by (auto simp: row_place_def row_scope_def)
  then have "sc' = sc" using c by (cases sc') (simp add: covers_def RepoScope_def)
  then show ?thesis using b by simp
next
  assume t: "as_ScopeType r = ''env''"
  then obtain ev where ev: "ev \<in> set (db_environments db)" "ev_ID ev = as_ScopeID r" "sc = EnvScope (ev_Project ev) (as_ScopeID r)"
    using resolve_env [of db g "as_ScopeID r" sc project] rs by auto
  have "(as_ScopeID r, ev_Project ev) \<in> set (map (\<lambda>e. (ev_ID e, ev_Project e)) (db_environments db))" using ev(1,2) by force
  moreover have "distinct (map fst (map (\<lambda>e. (ev_ID e, ev_Project e)) (db_environments db)))" using wf by (simp add: adb_wf_def comp_def)
  ultimately have "map_of (map (\<lambda>e. (ev_ID e, ev_Project e)) (db_environments db)) (as_ScopeID r) = Some (ev_Project ev)" by simp
  then have "pl = (StEnv, as_ScopeID r, ev_Project ev)" using pl t by (simp add: row_place_def row_scope_def)
  then have "sc' = sc" using c ev(3) by (cases sc') (simp add: covers_def EnvScope_def)
  then show ?thesis using b by simp
qed

lemma containment_held:
  assumes wf: "adb_wf db" and c: "cur cx db (u, g) e" and d: "engine_LoadAccess db u g = Inr d"
    and m: "containmentMissing cx db u g (as_ScopeType r) (as_ScopeID r) P e = (Inr missing, e')" "IsEmpty missing" and pl: "row_place db r = Some pl"
  shows "held db g d (cx_now cx) P pl"
proof (cases "as_ScopeType r = ''org''")
  case True
  obtain caps e1 where caps: "projectCaps cx db u g e = (Inr caps, e1)" "missing = Minus P caps" using m(1) True by (auto simp: containmentMissing_def andThen_Inr)
  have in_caps: "HasBit caps b" if "HasBit P b" for b using m(2) that unfolding caps(2) ps.is_empty_has by (auto simp: HasBit_Minus)
  have "b \<in> spec_effective d (cx_now cx) (ProjectScope p)" if "HasBit P b" "p \<in> set (projectIDs db g)" for b p
  proof -
    have "caps_loop cx db u g Full (projectIDs db g) e = (Inr caps, e1)" using caps(1) that(2) by (cases "projectIDs db g = []") (simp_all add: projectCaps_def)
    then show ?thesis using caps_loop_cur [OF wf d _ c in_caps [OF that(1)]] that(2) by blast
  qed
  then have "b \<in> spec_effective d (cx_now cx) sc" if "HasBit P b" "covers pl sc" "sc_ProjectID sc \<in> set (projectIDs db g)" for b sc
    using project_covers [of b d "cx_now cx" "sc_ProjectID sc" sc] that by (simp add: covers_def)
  then show ?thesis unfolding held_def by blast
next
  case False
  obtain sc project st e1 where r: "requireAt cx db u g (as_ScopeType r) (as_ScopeID r) [] e = (Inr (sc, project, st), e1)" "missing = Minus P st"
    using m(1) False by (auto simp: containmentMissing_def andThen_Inr)
  obtain acc where "svc_effective cx db u g sc (needStrict []) e = (Inr (acc, st), e1)" using require_Inr [OF requireAt_Inr(2) [OF r(1)]] by blast
  then have "{b. HasBit st b} = spec_effective d (cx_now cx) sc" using read_cur(1) [OF wf c d] by blast
  then have "HasBit P b \<Longrightarrow> b \<in> spec_effective d (cx_now cx) sc" for b using m(2) unfolding r(2) ps.is_empty_has by (auto simp: HasBit_Minus)
  then show ?thesis unfolding held_def using resolve_place [OF wf requireAt_Inr(1) [OF r(1)] pl False] by blast
qed

section \<open>The writes\<close>

lemma same_tables_trans: "same_tables a b \<Longrightarrow> same_tables b c \<Longrightarrow> same_tables a c"
  by (simp add: same_defs)

lemma same_tables_upd [simp]:
  "same_tables db db" "same_tables db (db\<lparr> db_assignments := as \<rparr>)" "same_tables db (db\<lparr> db_idempotency := js \<rparr>)"
  "same_tables db (access_audit g actor action typ i project impact db)" "same_tables db (bump_org g db)" "same_tables db (drop_old_key cx g actor k db)"
  by (simp_all add: same_defs access_audit_def bump_org_def drop_old_key_def comp_def if_distrib cong: map_cong)

lemma assignments_upd [simp]:
  "db_assignments (access_audit g actor action typ i project impact db) = db_assignments db" "db_assignments (bump_org g db) = db_assignments db"
  "db_assignments (drop_old_key cx g actor k db) = db_assignments db"
  by (simp_all add: access_audit_def bump_org_def drop_old_key_def)

text \<open>A write that succeeds is a replay, which changes nothing, or one run of the transaction on tables with the same
  rows, after which the organization's cached snapshots are gone; a write that fails changes nothing.\<close>

lemma doWrite_cases:
  assumes "doWrite cx g actor idem status enc dec fn db e = (r, db', e')"
  obtains (failed) x where "r = Inl x" "db' = db" "e' = e"
  | (replayed) v st where "r = Inr \<lparr> rp_Value = v, rp_Status = st, rp_Replayed = True \<rparr>" "db' = db" "e' = e"
  | (written) v db0 db1 js where "r = Inr \<lparr> rp_Value = v, rp_Status = status, rp_Replayed = False \<rparr>" "fn db0 = Inr (v, db1)"
      "db0 = db \<or> (\<exists>k. db0 = drop_old_key cx g actor k db)" "db' = bump_org g (db1\<lparr> db_idempotency := js \<rparr>)" "e' = Invalidate \<lparr> tg_Org = g, tg_User = uuid_Nil \<rparr> e"
proof (cases "case idem of None \<Rightarrow> False | Some k \<Rightarrow> idem_Key k = [] \<or> length (idem_Key k) > 128")
  case True then show thesis using assms failed by (auto simp: doWrite_def)
next
  case ok: False
  let ?tx = "write_tx cx g actor idem status enc fn"
  show thesis
  proof (cases "org_live db g")
    case None then show thesis using assms failed ok by (auto simp: doWrite_def InTx_def)
  next
    case org: (Some o)
    show thesis
    proof (cases "?tx db")
      case (Inl x)
      then show thesis using assms failed replayed ok org
        by (cases x) (auto simp: doWrite_def InTx_def split: option.splits)
    next
      case (Inr y)
      obtain v db2 where y: "y = (v, db2)" by (cases y)
      obtain db0 db1 js where w: "fn db0 = Inr (v, db1)" "db2 = db1\<lparr> db_idempotency := js \<rparr>" "db0 = db \<or> (\<exists>k. db0 = drop_old_key cx g actor k db)"
      proof (cases idem)
        case None
        then have "fn db = Inr (v, db2)" using Inr y by (cases "fn db") (auto simp: write_tx_def)
        then show thesis using that [of db db2 "db_idempotency db2"] by simp
      next
        case (Some k)
        then obtain db1 js where "fn (drop_old_key cx g actor k db) = Inr (v, db1)" "db2 = db1\<lparr> db_idempotency := js \<rparr>"
          using Inr y by (auto simp: write_tx_def Let_def split: option.splits if_splits sum.splits)
        then show thesis using that by blast
      qed
      then show thesis using written [of v db0 db1 js] assms ok org Inr y by (auto simp: doWrite_def InTx_def)
    qed
  qed
qed

lemma upsert_row:
  assumes "upsert_assignment r db = Inr ((i, created), db1)" "distinct (map as_ID (db_assignments db))" "as_Revoked r = None"
  obtains r' where "r' \<in> set (db_assignments db1)" "as_ID r' = i" "same_live r r'" "as_Pinned r' = as_Pinned r" "as_Expires r' = as_Expires r"
    "same_tables db db1" "distinct (map as_ID (db_assignments db1))"
    "\<forall>q \<in> set (db_assignments db1). q \<in> set (db_assignments db) \<or> q = r'"
    "\<forall>q \<in> set (db_assignments db). q \<in> set (db_assignments db1) \<or> (same_live q r \<and> as_Org r' = as_Org q)"
proof (cases "find (same_live r) (db_assignments db)")
  case None
  then have new: "i = as_ID r" "db1 = db\<lparr> db_assignments := db_assignments db @ [r] \<rparr>" "as_ID r \<notin> as_ID ` set (db_assignments db)"
    using assms(1) by (auto simp: upsert_assignment_def list_ex_iff split: if_splits)
  show thesis by (rule that [of r]) (use new assms(2,3) in \<open>auto simp: same_live_def\<close>)
next
  case (Some old)
  let ?f = "\<lambda>x. x\<lparr> as_Pinned := as_Pinned r, as_Expires := as_Expires r, as_Reason := as_Reason r \<rparr>"
  have old: "old \<in> set (db_assignments db)" "same_live r old" using find_SomeD [OF Some] by simp_all
  have new: "i = as_ID old" "db1 = db\<lparr> db_assignments := map (\<lambda>x. if as_ID x = as_ID old then ?f x else x) (db_assignments db) \<rparr>"
    using assms(1) Some by (auto simp: upsert_assignment_def split: if_splits)
  have only: "x = old" if "x \<in> set (db_assignments db)" "as_ID x = as_ID old" for x using that old(1) assms(2) by (auto simp: distinct_map inj_on_def)
  show thesis
  proof (rule that [of "?f old"])
    show "?f old \<in> set (db_assignments db1)" using old(1) by (force simp: new(2))
    have "map as_ID (db_assignments db1) = map as_ID (db_assignments db)" by (auto simp: new(2))
    then show "distinct (map as_ID (db_assignments db1))" using assms(2) by (simp only:)
    show "\<forall>q \<in> set (db_assignments db1). q \<in> set (db_assignments db) \<or> q = ?f old" using only by (auto simp: new(2) split: if_splits)
    have "q \<in> set (db_assignments db1) \<or> (same_live q r \<and> as_Org (?f old) = as_Org q)" if "q \<in> set (db_assignments db)" for q
    proof (cases "as_ID q = as_ID old")
      case True then show ?thesis using only [OF that] old(2) by (simp add: same_live_def)
    next
      case False then show ?thesis using that by (force simp: new(2))
    qed
    then show "\<forall>q \<in> set (db_assignments db). q \<in> set (db_assignments db1) \<or> (same_live q r \<and> as_Org (?f old) = as_Org q)" by blast
  qed (use old(2) new in \<open>auto simp: same_live_def\<close>)
qed

lemma same_live_trans: "same_live a b \<Longrightarrow> same_live b c \<Longrightarrow> same_live a c"
  by (simp add: same_live_def)

lemma loadAssignmentTx_org:
  assumes "loadAssignmentTx cx db g i = Inr dto" "r \<in> set (db_assignments db)" "as_ID r = i" "distinct (map as_ID (db_assignments db))"
  shows "as_Org r = g"
proof -
  obtain q where q: "find (\<lambda>r. as_Org r = g \<and> as_ID r = i) (db_assignments db) = Some q" using assms(1) by (auto simp: loadAssignmentTx_def split: option.splits)
  have "q = r" using find_SomeD [OF q] assms(2-4) by (auto simp: distinct_map inj_on_def)
  then show ?thesis using find_SomeD [OF q] by simp
qed

lemma create_tx_row:
  assumes "create_tx cx actor g ai project db = Inr (dto, db2)" "distinct (map as_ID (db_assignments db))"
  obtains r' where "one_row db db2 r'" "same_live (input_row cx g actor ai) r'" "as_Pinned r' = ai_Pinned ai" "as_Expires r' = ai_Expires ai" "as_Org r' = g"
proof -
  let ?r = "input_row cx g actor ai"
  obtain i created db1 where up: "upsert_assignment ?r db = Inr ((i, created), db1)"
    using assms(1) by (auto simp: create_tx_def split: if_splits sum.splits)
  obtain action impact where tx: "map_sum id (\<lambda>dto. (dto, access_audit g actor action ''assignment'' i (project_of (ai_ScopeType ai) project) impact db1))
      (loadAssignmentTx cx (access_audit g actor action ''assignment'' i (project_of (ai_ScopeType ai) project) impact db1) g i) = Inr (dto, db2)"
    using assms(1) up unfolding create_tx_def by (simp add: Let_def split: if_splits)
  then have db2: "db2 = access_audit g actor action ''assignment'' i (project_of (ai_ScopeType ai) project) impact db1" and dto: "loadAssignmentTx cx db2 g i = Inr dto"
    by (cases "loadAssignmentTx cx (access_audit g actor action ''assignment'' i (project_of (ai_ScopeType ai) project) impact db1) g i"; simp)+
  have db2: "db_assignments db2 = db_assignments db1" "same_tables db1 db2" by (simp_all add: db2)
  obtain r' where r': "r' \<in> set (db_assignments db1)" "as_ID r' = i" "same_live ?r r'" "as_Pinned r' = as_Pinned ?r" "as_Expires r' = as_Expires ?r"
    "same_tables db db1" "distinct (map as_ID (db_assignments db1))"
    "\<forall>q \<in> set (db_assignments db1). q \<in> set (db_assignments db) \<or> q = r'"
    "\<forall>q \<in> set (db_assignments db). q \<in> set (db_assignments db1) \<or> (same_live q ?r \<and> as_Org r' = as_Org q)"
    using upsert_row [OF up assms(2)] by (auto simp: input_row_def)
  have "one_row db db2 r'"
    unfolding one_row_def db2(1) using same_tables_trans [OF r'(6) db2(2)] r'(1,8) r'(9) same_live_trans [OF _ r'(3)] by blast
  moreover have "as_Org r' = g" by (rule loadAssignmentTx_org [OF dto]) (use r'(1,2,7) in \<open>simp_all add: db2(1)\<close>)
  ultimately show thesis using that r'(3-5) by (simp add: input_row_def)
qed

lemma one_row_cong:
  assumes "one_row db0 db1 r'" "db_assignments db0 = db_assignments db" "same_tables db db0" "db_assignments db' = db_assignments db1" "same_tables db1 db'"
  shows "one_row db db' r'"
  using assms same_tables_trans [OF same_tables_trans [OF assms(3)] assms(5)] by (auto simp: one_row_def)

lemma create_guard_Inr:
  assumes "create_guard cx db actor g ai e = (Inr (head, ver, project), e')"
  obtains e1 e2 st0 sc st where "require cx db actor g OrgScope [] e = (Inr st0, e1)"
    "requireAt cx db actor g (ai_ScopeType ai) (scopeIDOf (ai_ScopeType ai) (ai_ScopeID ai) g) [''assignment:grant''] e1 = (Inr (sc, project, st), e2)"
    "checked_version db g ai = Inr (head, ver)" "checkExpiry cx db g ''expires_at'' (ai_Expires ai) = None"
    "may_grant cx db actor g ai (NewSet (rv_Permissions ver)) e2 = (Inr (), e')"
proof -
  let ?i = "scopeIDOf (ai_ScopeType ai) (ai_ScopeID ai) g"
  obtain st0 e1 where 1: "require cx db actor g OrgScope [] e = (Inr st0, e1)"
    and 2: "(if input_fields ai \<noteq> [] then fail (validation (input_fields ai)) else andThen (requireAt cx db actor g (ai_ScopeType ai) ?i [''assignment:grant''])
      (\<lambda>(_, project, _). case checked_version db g ai of Inl x \<Rightarrow> fail x | Inr (head, ver) \<Rightarrow>
         (case checkSubject db g (ai_SubjectType ai) (ai_SubjectID ai) of Some x \<Rightarrow> fail x | None \<Rightarrow>
            (case checkExpiry cx db g ''expires_at'' (ai_Expires ai) of Some x \<Rightarrow> fail x
             | None \<Rightarrow> andThen (may_grant cx db actor g ai (NewSet (rv_Permissions ver))) (\<lambda>_. pure (head, ver, project)))))) e1 = (Inr (head, ver, project), e')"
    using assms unfolding create_guard_def andThen_Inr by blast
  then have "input_fields ai = []" by (cases "input_fields ai = []") simp_all
  then obtain sc p st e2 where 3: "requireAt cx db actor g (ai_ScopeType ai) ?i [''assignment:grant''] e1 = (Inr (sc, p, st), e2)"
    and 4: "(case checked_version db g ai of Inl x \<Rightarrow> fail x | Inr (head, ver) \<Rightarrow>
         (case checkSubject db g (ai_SubjectType ai) (ai_SubjectID ai) of Some x \<Rightarrow> fail x | None \<Rightarrow>
            (case checkExpiry cx db g ''expires_at'' (ai_Expires ai) of Some x \<Rightarrow> fail x
             | None \<Rightarrow> andThen (may_grant cx db actor g ai (NewSet (rv_Permissions ver))) (\<lambda>_. pure (head, ver, p))))) e2 = (Inr (head, ver, project), e')"
    using 2 by (auto simp: andThen_Inr)
  have "checked_version db g ai = Inr (head, ver) \<and> p = project \<and> checkExpiry cx db g ''expires_at'' (ai_Expires ai) = None \<and>
      may_grant cx db actor g ai (NewSet (rv_Permissions ver)) e2 = (Inr (), e')"
    using 4 by (cases "checked_version db g ai"; cases "checkSubject db g (ai_SubjectType ai) (ai_SubjectID ai)"; cases "checkExpiry cx db g ''expires_at'' (ai_Expires ai)")
      (auto simp: andThen_Inr)
  then show thesis using that 1 3 by blast
qed

lemma checked_version_Inr:
  assumes "checked_version db g ai = Inr (head, ver)"
  shows "\<exists>t. template_version db (ai_TemplateID ai, pin_of (ai_Pinned ai)) = Some (t, ver)"
proof -
  have h: "loadHead db g (ai_TemplateID ai) = Inr head" and v: "loadVer db (rt_ID head) (pin_of (ai_Pinned ai)) = Inr ver"
    using assms by (auto simp: checked_version_def Let_def split: sum.splits if_splits)
  have "rt_ID head = ai_TemplateID ai" using h by (auto simp: loadHead_def split: option.splits dest!: find_SomeD)
  then show ?thesis using v by (auto simp: loadVer_def split: option.splits)
qed

text \<open>An expiry in the future keeps alive what was alive.\<close>

lemma expiry_stays:
  assumes "adb_wf db" "sources db g u r x" "as_Expires r' = None \<or> (\<exists>t. as_Expires r' = Some t \<and> now < t)" "row_expiry (r, x) = 0 \<or> now < row_expiry (r, x)"
  shows "row_expiry (r', x) = 0 \<or> now < row_expiry (r', x)"
proof (cases x)
  case None then show ?thesis using assms(3) by (auto simp: row_expiry_def)
next
  case (Some s)
  then obtain m where "m \<in> set (db_group_members db)" "gm_Expires m = Some s" using assms(2) by (auto simp: sources_def reaches_def)
  then have "0 < s" "\<And>t. as_Expires r = Some t \<Longrightarrow> 0 < t" using assms(1,2) by (auto simp: adb_wf_def sources_def)
  then have "now < s" using assms(4) Some by (cases "as_Expires r") (auto simp: row_expiry_def split: if_splits)
  then show ?thesis using assms(3) Some by (auto simp: row_expiry_def)
qed

text \<open>What a row with these permissions may add: them, at its place.\<close>

definition row_growth :: "ADB \<Rightarrow> AssignRow \<Rightarrow> pset \<Rightarrow> growth" where
  "row_growth db r P = (\<lambda>pl b. row_place db r = Some pl \<and> HasBit P b)"

lemma created_gives:
  assumes "same_live r r'" "template_version db (as_Template r, pin_of (as_Pinned r')) = Some (t, v)"
  shows "gives now (row_growth db r' (NewSet (rv_Permissions v))) db r'"
proof -
  have "a_Permissions a = NewSet (rv_Permissions v) \<and> row_place db r' = Some (place a)" if "row_grant db (r', x) = Some a" for x a
  proof -
    have "template_version db (row_ref (r', x)) = Some (t, v)" using assms by (simp add: row_ref_def same_live_def)
    then show ?thesis using row_grant_facts(1,2) [OF that] same_live_place [OF assms(1), of db] by simp
  qed
  then show ?thesis by (simp add: gives_def row_growth_def)
qed

lemma created_stays:
  assumes "adb_wf db" "same_live r r'" "template_version db (as_Template r, pin_of (as_Pinned r')) = Some (t, v)"
    and "as_Expires r' = None \<or> (\<exists>t. as_Expires r' = Some t \<and> now < t)"
  shows "stays now db r'"
  unfolding stays_def
proof (intro allI impI)
  fix q g u x a assume q: "sources db g u q x" "same_live q r'" "row_grant db (q, x) = Some a" "\<not> expired a now"
  have "row_place db r' = Some (place a)" using same_live_place [OF q(2), of db] row_grant_facts(1) [OF q(3)] by simp
  moreover have "template_version db (row_ref (r', x)) = Some (t, v)" using assms(2,3) by (simp add: row_ref_def same_live_def)
  ultimately obtain a' where a': "row_grant db (r', x) = Some a'" "a_ExpiresAt a' = row_expiry (r', x)" by (meson row_grant_Some)
  have "\<not> expired a' now" using expiry_stays [OF assms(1) q(1) assms(4)] q(4) a'(2) row_grant_facts(3) [OF q(3)] by (auto simp: expired_def IsZero_def)
  then show "\<exists>a'. row_grant db (r', x) = Some a' \<and> \<not> expired a' now" using a'(1) by blast
qed

section \<open>Creating an assignment\<close>

lemma checkExpiry_future: "checkExpiry cx db g field at = None \<Longrightarrow> at = None \<or> (\<exists>t. at = Some t \<and> cx_now cx < t)"
  by (cases at) (auto simp: checkExpiry_def split: if_splits)

lemma may_grant_held:
  assumes "adb_wf db" "cur cx db (actor, g) e" "engine_LoadAccess db actor g = Inr dA" "may_grant cx db actor g ai P e = (Inr (), e')" "\<not> isOwner cx db g actor"
    and "row_place db (input_row cx g actor ai) = Some pl"
  shows "held db g dA (cx_now cx) P pl"
proof -
  let ?r = "input_row cx g actor ai"
  obtain missing e1 where "containmentMissing cx db actor g (as_ScopeType ?r) (as_ScopeID ?r) P e = (Inr missing, e1)" "IsEmpty missing"
    using assms(4,5) by (auto simp: may_grant_def andThen_Inr input_row_def split: if_splits)
  then show ?thesis by (rule containment_held [OF assms(1-3) _ _ assms(6)])
qed

text \<open>What the guards leave: the actor's data, the version that is granted, and that the actor holds it.\<close>

lemma create_guard_held:
  assumes wf: "adb_wf db" and co: "coh cx db (actor, g) e" and g: "create_guard cx db actor g ai e = (Inr (head, ver, project), e')" and no: "\<not> isOwner cx db g actor"
  obtains dA t where "engine_LoadAccess db actor g = Inr dA" "template_version db (ai_TemplateID ai, pin_of (ai_Pinned ai)) = Some (t, ver)"
    "ai_Expires ai = None \<or> (\<exists>t. ai_Expires ai = Some t \<and> cx_now cx < t)"
    "\<forall>pl. row_place db (input_row cx g actor ai) = Some pl \<longrightarrow> held db g dA (cx_now cx) (NewSet (rv_Permissions ver)) pl"
proof -
  obtain e1 e2 st0 sc st where 1: "require cx db actor g OrgScope [] e = (Inr st0, e1)"
    and 2: "requireAt cx db actor g (ai_ScopeType ai) (scopeIDOf (ai_ScopeType ai) (ai_ScopeID ai) g) [''assignment:grant''] e1 = (Inr (sc, project, st), e2)"
    and 3: "checked_version db g ai = Inr (head, ver)" "checkExpiry cx db g ''expires_at'' (ai_Expires ai) = None"
    and 4: "may_grant cx db actor g ai (NewSet (rv_Permissions ver)) e2 = (Inr (), e')" by (rule create_guard_Inr [OF g])
  obtain dA where dA: "engine_LoadAccess db actor g = Inr dA" "cur cx db (actor, g) e2"
    by (rule grant_required [OF wf lenient_require [OF co 1] 2])
  obtain t where t: "template_version db (ai_TemplateID ai, pin_of (ai_Pinned ai)) = Some (t, ver)" using checked_version_Inr [OF 3(1)] by blast
  have "\<forall>pl. row_place db (input_row cx g actor ai) = Some pl \<longrightarrow> held db g dA (cx_now cx) (NewSet (rv_Permissions ver)) pl"
    using may_grant_held [OF wf dA(2,1) 4 no] by blast
  then show thesis by (rule that [OF dA(1) t checkExpiry_future [OF 3(2)]])
qed

lemma written_row:
  assumes "doWrite cx g actor idem status enc dec (create_tx cx actor g ai project) db e = (Inr rep, db', e')" "adb_wf db" "\<not> rp_Replayed rep"
  obtains r' where "one_row db db' r'" "same_live (input_row cx g actor ai) r'" "as_Pinned r' = ai_Pinned ai" "as_Expires r' = ai_Expires ai" "as_Org r' = g"
proof (rule doWrite_cases [OF assms(1)])
  fix v db0 db1 js assume w: "create_tx cx actor g ai project db0 = Inr (v, db1)" "db0 = db \<or> (\<exists>k. db0 = drop_old_key cx g actor k db)"
    "db' = bump_org g (db1\<lparr> db_idempotency := js \<rparr>)"
  have d0: "db_assignments db0 = db_assignments db" "same_tables db db0" using w(2) by auto
  obtain r' where r': "one_row db0 db1 r'" "same_live (input_row cx g actor ai) r'" "as_Pinned r' = ai_Pinned ai" "as_Expires r' = ai_Expires ai" "as_Org r' = g"
    by (rule create_tx_row [OF w(1)]) (use assms(2) d0(1) in \<open>simp_all add: adb_wf_def\<close>)
  have "one_row db db' r'"
    by (rule one_row_cong [OF r'(1) d0]) (simp_all add: w(3) same_tables_trans [OF same_tables_upd(3) same_tables_upd(5)])
  then show thesis by (rule that [OF _ r'(2-5)])
qed (use assms(3) in auto)

text \<open>A row whose permissions the actor holds at its place adds nothing the actor does not hold.\<close>

lemma held_grown:
  assumes r': "one_row db db' r'" and d: "engine_LoadAccess db u g = Inr d" and d': "engine_LoadAccess db' u g = Inr d'"
    and gv: "gives now (row_growth db r' P) db r'" and st: "stays now db r'"
    and h: "\<forall>pl. row_place db r' = Some pl \<longrightarrow> held db g dA now P pl" and sc: "sc_Type sc = StOrg \<or> sc_ProjectID sc \<in> set (projectIDs db g)"
  shows "spec_effective d' now sc \<subseteq> granted d now sc \<union> spec_effective dA now sc \<and>
    (sc_Type sc = StOrg \<longrightarrow> spec_effective d' now sc = spec_effective d now sc)"
proof (intro conjI impI grown_org_scope [OF one_row_grown [OF r' d d' gv st]] grown_effective [OF one_row_grown [OF r' d d' gv st]])
  fix b assume "allows (row_growth db r' P) sc b"
  then obtain pl where pl: "row_place db r' = Some pl" "HasBit P b" "covers pl sc" unfolding allows_def row_growth_def by blast
  then have "sc_ProjectID sc \<in> set (projectIDs db g)" using sc by (simp add: covers_def)
  then show "b \<in> spec_effective dA now sc" using h pl unfolding held_def by blast
qed

text \<open>
  C6 (safety). No escalation: when someone who is not an owner of the organization grants a template, nobody, at no scope
  of a project of the organization, gets a permission that they were not already granted and that the actor does
  not hold at that scope; at the organization scope everybody has exactly what they had. The actor is read through the
  engine's cache, which is taken to be coherent (a cached snapshot with the current epochs holds the current data) with no
  load of the actor in flight.
\<close>

theorem CreateAssignment_no_escalation:
  assumes "adb_wf db" "engine_wf e (cx_now cx)" "coherent (cx_store cx db) e (actor, g)" "gomap_get (e_inflight e) (actor, g) = None"
    and "CreateAssignment cx actor g ai idem db e = (Inr rep, db', e')" "\<not> isOwner cx db g actor"
    and "engine_LoadAccess db u g = Inr d" "sc_Type sc = StOrg \<or> sc_ProjectID sc \<in> set (projectIDs db g)"
  shows "\<exists>dA d'. engine_LoadAccess db actor g = Inr dA \<and> engine_LoadAccess db' u g = Inr d' \<and>
    spec_effective d' (cx_now cx) sc \<subseteq> granted d (cx_now cx) sc \<union> spec_effective dA (cx_now cx) sc \<and>
    (sc_Type sc = StOrg \<longrightarrow> spec_effective d' (cx_now cx) sc = spec_effective d (cx_now cx) sc)"
proof -
  have co: "coh cx db (actor, g) e" using assms(2-4) by (simp add: coh_def)
  obtain head ver project e1 where guard: "create_guard cx db actor g ai e = (Inr (head, ver, project), e1)"
    and wr: "doWrite cx g actor idem 201 JAssignment dec_assignment (create_tx cx actor g ai project) db e1 = (Inr rep, db', e')"
    using assms(5) by (auto simp: CreateAssignment_def split: prod.splits sum.splits)
  obtain dA t where dA: "engine_LoadAccess db actor g = Inr dA" and t: "template_version db (ai_TemplateID ai, pin_of (ai_Pinned ai)) = Some (t, ver)"
    and ex: "ai_Expires ai = None \<or> (\<exists>t. ai_Expires ai = Some t \<and> cx_now cx < t)"
    and h: "\<forall>pl. row_place db (input_row cx g actor ai) = Some pl \<longrightarrow> held db g dA (cx_now cx) (NewSet (rv_Permissions ver)) pl"
    by (rule create_guard_held [OF assms(1) co guard assms(6)])
  show ?thesis
  proof (cases "rp_Replayed rep")
    case True
    then have "db' = db" by (rule_tac doWrite_cases [OF wr]) auto
    then show ?thesis using dA assms(7) effective_granted by blast
  next
    case False
    let ?r = "input_row cx g actor ai" and ?P = "NewSet (rv_Permissions ver)"
    obtain r' where r': "one_row db db' r'" "same_live ?r r'" "as_Pinned r' = ai_Pinned ai" "as_Expires r' = ai_Expires ai" "as_Org r' = g"
      by (rule written_row [OF wr assms(1) False])
    have tv: "template_version db (as_Template ?r, pin_of (as_Pinned r')) = Some (t, ver)" using t r'(3) by (simp add: input_row_def)
    obtain d' where d': "engine_LoadAccess db' u g = Inr d'" using same_tables_load [OF _ assms(7)] r'(1) unfolding one_row_def by blast
    have "spec_effective d' (cx_now cx) sc \<subseteq> granted d (cx_now cx) sc \<union> spec_effective dA (cx_now cx) sc \<and>
    (sc_Type sc = StOrg \<longrightarrow> spec_effective d' (cx_now cx) sc = spec_effective d (cx_now cx) sc)"
      by (rule held_grown [OF r'(1) assms(7) d' _ created_stays [OF assms(1) r'(2) tv] _ assms(8)])
        (use ex r'(4) created_gives [OF r'(2) tv] h same_live_place [OF r'(2), of db] in auto)
    then show ?thesis using dA d' by blast
  qed
qed

theorem CreateAssignment_no_escalation_witness:
  "\<exists>dA d d'. engine_LoadAccess ex_adb 5 1 = Inr dA \<and> engine_LoadAccess ex_adb 6 1 = Inr d \<and>
    engine_LoadAccess (fst (snd (CreateAssignment ex_cx 5 1 ex_ainput None ex_adb ex_eng))) 6 1 = Inr d' \<and>
    spec_effective d' 1000 (ProjectScope 10) \<subseteq> granted d 1000 (ProjectScope 10) \<union> spec_effective dA 1000 (ProjectScope 10)"
proof -
  obtain rep where run: "CreateAssignment ex_cx 5 1 ex_ainput None ex_adb ex_eng =
      (Inr rep, fst (snd (CreateAssignment ex_cx 5 1 ex_ainput None ex_adb ex_eng)), snd (snd (CreateAssignment ex_cx 5 1 ex_ainput None ex_adb ex_eng)))"
    using ok_resultE [OF ex_create_ok] by blast
  obtain d where d: "engine_LoadAccess ex_adb 6 1 = Inr d" using ex_loads by (cases "engine_LoadAccess ex_adb 6 1") (auto simp: ok_result_def)
  have "sc_ProjectID (ProjectScope 10) \<in> set (projectIDs ex_adb 1)" by code_simp
  then show ?thesis
    using CreateAssignment_no_escalation [OF ex_adb_wf New_wf ex_coherent run ex_not_owner d, of "ProjectScope 10"] d by (auto simp: ex_cx_def)
qed

end
