(* ===== verification/Access_Change.thy ===== *)
theory Access_Change
  imports Access_Escalation
begin

text \<open>
  Changing and revoking assignments, and what every write keeps: \<^verbatim>\<open>PatchAssignment\<close> and \<^verbatim>\<open>RevokeAssignment\<close> of
  \<^verbatim>\<open>assignments.go\<close>, the constraints of the table, and the idempotency keys of \<^verbatim>\<open>doWrite\<close>.
\<close>

lemma adb_wfD:
  assumes "adb_wf db"
  shows "inj_on as_ID (set (db_assignments db))" "a \<in> set (db_assignments db) \<Longrightarrow> b \<in> set (db_assignments db) \<Longrightarrow> same_live a b \<Longrightarrow> a = b"
    "a \<in> set (db_assignments db) \<Longrightarrow> as_Expires a = Some t \<Longrightarrow> 0 < t"
  using assms unfolding adb_wf_def distinct_map by blast+

section \<open>The guards of a patch\<close>

lemma loadLive_Inr: "loadLive db g i = Inr c \<Longrightarrow> c \<in> set (db_assignments db) \<and> as_ID c = i \<and> as_Org c = g \<and> as_Revoked c = None"
  by (auto simp: loadLive_def dest: find_SomeD split: option.splits)

lemma authorizeExisting_Inr:
  assumes "authorizeExisting cx db actor g i e = (Inr (c, project), e')"
  obtains sc st where "loadLive db g i = Inr c" "requireAt cx db actor g (as_ScopeType c) (as_ScopeID c) [''assignment:grant''] e = (Inr (sc, project, st), e')"
  using assms by (auto simp: authorizeExisting_def split: sum.splits prod.splits if_splits)

lemma patch_versions_Inr:
  assumes "patch_versions db g c new = Inr (newPerms, oldPerms)"
  obtains t v w where "template_version db (as_Template c, pin_of (as_Pinned new)) = Some (t, v)" "template_version db (as_Template c, pin_of (as_Pinned c)) = Some (t, w)"
    "newPerms = NewSet (rv_Permissions v)" "oldPerms = NewSet (rv_Permissions w)"
proof -
  obtain head where h: "loadHead db g (as_Template c) = Inr head" using assms by (auto simp: patch_versions_def split: sum.splits)
  have i: "rt_ID head = as_Template c" using h by (auto simp: loadHead_def dest: find_SomeD split: option.splits)
  obtain v w where "loadVer db (rt_ID head) (pin_of (as_Pinned new)) = Inr v" "loadVer db (rt_ID head) (pin_of (as_Pinned c)) = Inr w"
      "newPerms = NewSet (rv_Permissions v)" "oldPerms = NewSet (rv_Permissions w)"
    using assms h by (auto simp: patch_versions_def Let_def split: sum.splits if_splits option.splits)
  then show thesis using that unfolding i by (auto simp: loadVer_def template_version_def split: option.splits)
qed

lemma patch_guard_Inr:
  assumes "patch_guard cx db actor g i pa e = (Inr (new, project), e')"
  obtains c e1 newPerms oldPerms where "authorizeExisting cx db actor g i e = (Inr (c, project), e1)" "new = patched c pa"
    "patch_expiry cx db g c pa = None" "patch_versions db g c new = Inr (newPerms, oldPerms)" "may_widen cx db actor g c new newPerms oldPerms e1 = (Inr (), e')"
  using assms by (auto simp: patch_guard_def andThen_Inr fail_Inr pure_eq split: prod.splits if_splits option.splits sum.splits)

text \<open>Of what a patch adds to the permissions, the actor holds all.\<close>

lemma may_widen_held:
  assumes "adb_wf db" "cur cx db (actor, g) e" "engine_LoadAccess db actor g = Inr dA" "may_widen cx db actor g c new newPerms oldPerms e = (Inr (), e')"
    and "\<not> isOwner cx db g actor" "row_place db c = Some pl"
  shows "held db g dA (cx_now cx) (Minus newPerms oldPerms) pl"
proof (cases "ContainsAll oldPerms newPerms")
  case True
  then show ?thesis by (simp add: held_def ContainsAll_def ps.is_empty_has)
next
  case False
  obtain missing e1 where "containmentMissing cx db actor g (as_ScopeType c) (as_ScopeID c) (Minus newPerms oldPerms) e = (Inr missing, e1)" "IsEmpty missing"
    using assms(4,5) False by (auto simp: may_widen_def Let_def andThen_Inr fail_Inr split: if_splits)
  then show ?thesis by (rule containment_held [OF assms(1-3) _ _ assms(6)])
qed

section \<open>The patched row\<close>

text \<open>The row the patch writes.\<close>

definition patch_row :: "AssignRow \<Rightarrow> AssignRow \<Rightarrow> AssignRow" where
  "patch_row new x = x\<lparr> as_Expires := as_Expires new, as_Reason := as_Reason new, as_Pinned := as_Pinned new, as_Source := patch_source new (as_Source x) \<rparr>"

lemma patch_row_live: "as_Revoked c = None \<Longrightarrow> same_live c (patch_row new c)" "as_Org (patch_row new c) = as_Org c"
  "as_Pinned (patch_row new c) = as_Pinned new" "as_Expires (patch_row new c) = as_Expires new" "as_Template (patch_row new c) = as_Template c"
  by (simp_all add: same_live_def patch_row_def)

lemma patch_tx_Inr:
  assumes "patch_tx cx actor g i new project db = Inr (dto, db2)"
  obtains lc where "loadLive db g i = Inr lc" "same_tables db db2"
    "db_assignments db2 = map (\<lambda>x. if as_ID x = i \<and> as_Org x = g then patch_row new x else x) (db_assignments db)"
proof -
  obtain lc where lc: "loadLive db g i = Inr lc" using assms by (auto simp: patch_tx_def split: sum.splits)
  let ?db1 = "db\<lparr> db_assignments := map (\<lambda>x. if as_ID x = i \<and> as_Org x = g then patch_row new x else x) (db_assignments db) \<rparr>"
  let ?db2 = "access_audit g actor ''access.assignment.changed'' ''assignment'' i (project_of (as_ScopeType new) project) 1 ?db1"
  have "map_sum id (\<lambda>dto. (dto, ?db2)) (loadAssignmentTx cx ?db2 g i) = Inr (dto, db2)"
    using assms lc unfolding patch_tx_def patch_row_def by (simp only: sum.case Let_def)
  then have "db2 = ?db2" by (cases "loadAssignmentTx cx ?db2 g i") simp_all
  then show thesis using that [OF lc] same_tables_trans [OF same_tables_upd(2) same_tables_upd(4)] by simp
qed

lemma patched_row:
  assumes "doWrite cx g actor idem status enc dec (patch_tx cx actor g i new project) db e = (Inr rep, db', e')" "adb_wf db" "\<not> rp_Replayed rep" "loadLive db g i = Inr c"
  shows "one_row db db' (patch_row new c)"
proof (rule doWrite_cases [OF assms(1)])
  fix v db0 db1 js assume w: "patch_tx cx actor g i new project db0 = Inr (v, db1)" "db0 = db \<or> (\<exists>k. db0 = drop_old_key cx g actor k db)"
    "db' = bump_org g (db1\<lparr> db_idempotency := js \<rparr>)"
  have d0: "db_assignments db0 = db_assignments db" "same_tables db db0" using w(2) by auto
  have rows: "db_assignments db1 = map (\<lambda>x. if as_ID x = i \<and> as_Org x = g then patch_row new x else x) (db_assignments db)" "same_tables db0 db1"
    using patch_tx_Inr [OF w(1)] d0(1) by auto
  have c: "c \<in> set (db_assignments db)" "as_ID c = i" "as_Org c = g" "as_Revoked c = None" using loadLive_Inr [OF assms(4)] by blast+
  have only: "x = c" if "x \<in> set (db_assignments db)" "as_ID x = i" for x using that c(1,2) adb_wfD(1) [OF assms(2)] by (simp add: inj_on_def)
  have upd: "(if as_ID x = i \<and> as_Org x = g then patch_row new x else x) = (if x = c then patch_row new c else x)" if "x \<in> set (db_assignments db)" for x
  proof (cases "x = c")
    case False then have "as_ID x \<noteq> i" using only [OF that] by blast
    with False show ?thesis by (simp only: if_False simp_thms)
  qed (simp only: c(2,3) if_True simp_thms)
  have set1: "set (db_assignments db1) = (\<lambda>x. if x = c then patch_row new c else x) ` set (db_assignments db)"
    unfolding rows(1) set_map by (rule image_cong) (simp_all add: upd)
  have "one_row db0 db1 (patch_row new c)"
    unfolding one_row_def set1 d0(1) using rows(2) patch_row_live(1) [of c new] patch_row_live(2) [of new c] c(1,4) by auto
  then show ?thesis
    by (rule one_row_cong [OF _ d0]) (simp_all add: w(3) same_tables_trans [OF same_tables_upd(3) same_tables_upd(5)])
qed (use assms(3) in auto)

text \<open>An expiry that is not widened: if the new row is in force then the old one was.\<close>

lemma narrower_live:
  assumes "\<not> widerExpiry c r'" "\<forall>t. as_Expires r' = Some t \<longrightarrow> 0 < t" "row_expiry (r', x) = 0 \<or> now < row_expiry (r', x)"
  shows "row_expiry (c, x) = 0 \<or> now < row_expiry (c, x)"
  using assms by (cases "as_Expires c"; cases "as_Expires r'"; cases x) (auto simp: row_expiry_def widerExpiry_def split: if_splits)

lemma patched_gives:
  assumes c: "c \<in> set (db_assignments db)"
    and new: "template_version db (as_Template c, pin_of (as_Pinned r')) = Some (t, v)" and old: "template_version db (as_Template c, pin_of (as_Pinned c)) = Some (t, w)"
    and r': "same_live c r'" "as_Org r' = as_Org c" "\<not> widerExpiry c r'" "\<forall>t. as_Expires r' = Some t \<longrightarrow> 0 < t"
  shows "gives now (row_growth db r' (Minus (NewSet (rv_Permissions v)) (NewSet (rv_Permissions w)))) db r'"
  unfolding gives_def
proof (intro allI impI)
  fix x a' b assume a': "row_grant db (r', x) = Some a'" "\<not> expired a' now" "HasBit (a_Permissions a') b"
  have pl: "row_place db r' = Some (place a')" "row_place db c = Some (place a')" using row_grant_facts(1) [OF a'(1)] same_live_place [OF r'(1), of db] by simp_all
  have "template_version db (row_ref (r', x)) = Some (t, v)" "template_version db (row_ref (c, x)) = Some (t, w)"
    using new old r'(1) by (simp_all add: row_ref_def same_live_def)
  note tv = this
  have b: "HasBit (NewSet (rv_Permissions v)) b" using row_grant_facts(2) [OF a'(1)] tv(1) a'(3) by simp
  obtain a where a: "row_grant db (c, x) = Some a" "a_Permissions a = NewSet (rv_Permissions w)" "a_ExpiresAt a = row_expiry (c, x)"
    using row_grant_Some [OF tv(2) pl(2)] by blast
  have "row_expiry (r', x) = 0 \<or> now < row_expiry (r', x)" using a'(2) row_grant_facts(3) [OF a'(1)] by (auto simp: expired_def IsZero_def)
  then have ne: "\<not> expired a now" using narrower_live [OF r'(3,4)] a(3) by (auto simp: expired_def IsZero_def)
  show "row_growth db r' (Minus (NewSet (rv_Permissions v)) (NewSet (rv_Permissions w))) (place a') b \<or>
      (\<exists>r a. r \<in> set (db_assignments db) \<and> as_Org r = as_Org r' \<and> same_live r r' \<and> row_grant db (r, x) = Some a \<and> \<not> expired a now \<and> HasBit (a_Permissions a) b)"
  proof (cases "HasBit (NewSet (rv_Permissions w)) b")
    case True then show ?thesis using c r'(1,2) a ne by auto
  next
    case False then show ?thesis using b pl(1) by (simp add: row_growth_def HasBit_Minus)
  qed
qed

text \<open>The new expiry is the old one, or it is not in the past.\<close>

lemma patched_expiry:
  assumes "patch_expiry cx db g c pa = None"
  shows "as_Expires (patched c pa) = as_Expires c \<or> as_Expires (patched c pa) = None \<or> (\<exists>t. as_Expires (patched c pa) = Some t \<and> cx_now cx < t)"
  using assms by (auto simp: patch_expiry_def patched_def dest: checkExpiry_future split: option.splits if_splits)

lemma patched_stays:
  assumes wf: "adb_wf db" and c: "c \<in> set (db_assignments db)" "as_Revoked c = None"
    and new: "template_version db (as_Template c, pin_of (as_Pinned r')) = Some (t, v)" and r': "same_live c r'"
    and ex: "as_Expires r' = as_Expires c \<or> as_Expires r' = None \<or> (\<exists>t. as_Expires r' = Some t \<and> now < t)"
  shows "stays now db r'"
proof (cases "as_Expires r' = as_Expires c")
  case False then show ?thesis using created_stays [OF wf r' new] ex by blast
next
  case True
  show ?thesis unfolding stays_def
  proof (intro allI impI)
    fix q g u x a assume q: "sources db g u q x" "same_live q r'" "row_grant db (q, x) = Some a" "\<not> expired a now"
    have "same_live q c" using q(2) r' by (simp add: same_live_def)
    then have qc: "q = c" using adb_wfD(2) [OF wf] c(1) q(1) unfolding sources_def by blast
    have "row_place db r' = Some (place a)" using same_live_place [OF q(2), of db] row_grant_facts(1) [OF q(3)] by simp
    moreover have "template_version db (row_ref (r', x)) = Some (t, v)" using r' new by (simp add: row_ref_def same_live_def)
    ultimately obtain a' where a': "row_grant db (r', x) = Some a'" "a_ExpiresAt a' = row_expiry (r', x)" by (meson row_grant_Some)
    have "row_expiry (r', x) = row_expiry (q, x)" using True qc by (simp add: row_expiry_def)
    then have "\<not> expired a' now" using q(4) a'(2) row_grant_facts(3) [OF q(3)] by (simp add: expired_def)
    then show "\<exists>a'. row_grant db (r', x) = Some a' \<and> \<not> expired a' now" using a'(1) by blast
  qed
qed

text \<open>What the guards of a patch leave: the actor's data, the versions, and that the actor holds what is added.\<close>

lemma patch_guard_held:
  assumes wf: "adb_wf db" and co: "coh cx db (actor, g) e" and gd: "patch_guard cx db actor g i pa e = (Inr (new, project), e')" and no: "\<not> isOwner cx db g actor"
  obtains c dA t v w where "loadLive db g i = Inr c" "new = patched c pa" "engine_LoadAccess db actor g = Inr dA" "patch_expiry cx db g c pa = None"
    "template_version db (as_Template c, pin_of (as_Pinned new)) = Some (t, v)" "template_version db (as_Template c, pin_of (as_Pinned c)) = Some (t, w)"
    "\<forall>pl. row_place db c = Some pl \<longrightarrow> held db g dA (cx_now cx) (Minus (NewSet (rv_Permissions v)) (NewSet (rv_Permissions w))) pl"
proof -
  obtain c e1 newPerms oldPerms where 1: "authorizeExisting cx db actor g i e = (Inr (c, project), e1)" and 2: "new = patched c pa" "patch_expiry cx db g c pa = None"
    and 3: "patch_versions db g c new = Inr (newPerms, oldPerms)" and 4: "may_widen cx db actor g c new newPerms oldPerms e1 = (Inr (), e')"
    by (rule patch_guard_Inr [OF gd])
  obtain sc st where c: "loadLive db g i = Inr c" "requireAt cx db actor g (as_ScopeType c) (as_ScopeID c) [''assignment:grant''] e = (Inr (sc, project, st), e1)"
    by (rule authorizeExisting_Inr [OF 1])
  obtain dA where dA: "engine_LoadAccess db actor g = Inr dA" "cur cx db (actor, g) e1" by (rule grant_required [OF wf co c(2)])
  obtain t v w where tv: "template_version db (as_Template c, pin_of (as_Pinned new)) = Some (t, v)" "template_version db (as_Template c, pin_of (as_Pinned c)) = Some (t, w)"
    "newPerms = NewSet (rv_Permissions v)" "oldPerms = NewSet (rv_Permissions w)" by (rule patch_versions_Inr [OF 3])
  have "\<forall>pl. row_place db c = Some pl \<longrightarrow> held db g dA (cx_now cx) (Minus newPerms oldPerms) pl" using may_widen_held [OF wf dA(2,1) 4 no] by blast
  then show thesis using that [OF c(1) 2(1) dA(1) 2(2) tv(1,2)] tv(3,4) by simp
qed

text \<open>
  C20 (safety). No escalation by a patch that does not widen the expiry: when someone who is not an owner changes reason,
  expiry or pinned version of an assignment, nobody, at no scope of a project of the organization, gets a permission
  that they were not already granted and that the actor does not hold there; at the organization scope everybody has exactly
  what they had. The engine's cache is taken to be coherent for the actor, with no load of the actor in flight.
\<close>

theorem PatchAssignment_no_escalation:
  assumes "adb_wf db" "engine_wf e (cx_now cx)" "coherent (cx_store cx db) e (actor, g)" "gomap_get (e_inflight e) (actor, g) = None" "0 \<le> cx_now cx"
    and "PatchAssignment cx actor g i pa idem db e = (Inr rep, db', e')" "\<not> isOwner cx db g actor"
    and "\<forall>c. loadLive db g i = Inr c \<longrightarrow> \<not> widerExpiry c (patched c pa)"
    and "engine_LoadAccess db u g = Inr d" "sc_Type sc = StOrg \<or> sc_ProjectID sc \<in> set (projectIDs db g)"
  shows "\<exists>dA d'. engine_LoadAccess db actor g = Inr dA \<and> engine_LoadAccess db' u g = Inr d' \<and>
    spec_effective d' (cx_now cx) sc \<subseteq> granted d (cx_now cx) sc \<union> spec_effective dA (cx_now cx) sc \<and>
    (sc_Type sc = StOrg \<longrightarrow> spec_effective d' (cx_now cx) sc = spec_effective d (cx_now cx) sc)"
proof -
  have co: "coh cx db (actor, g) e" using assms(2-4) by (simp add: coh_def)
  obtain new project e1 where gd: "patch_guard cx db actor g i pa e = (Inr (new, project), e1)"
    and wr: "doWrite cx g actor idem 200 JAssignment dec_assignment (patch_tx cx actor g i new project) db e1 = (Inr rep, db', e')"
    using assms(6) by (auto simp: PatchAssignment_def split: prod.splits sum.splits)
  obtain c dA t v w where c: "loadLive db g i = Inr c" and new: "new = patched c pa" and dA: "engine_LoadAccess db actor g = Inr dA" and ex: "patch_expiry cx db g c pa = None"
    and tv: "template_version db (as_Template c, pin_of (as_Pinned new)) = Some (t, v)" "template_version db (as_Template c, pin_of (as_Pinned c)) = Some (t, w)"
    and h: "\<forall>pl. row_place db c = Some pl \<longrightarrow> held db g dA (cx_now cx) (Minus (NewSet (rv_Permissions v)) (NewSet (rv_Permissions w))) pl"
    by (rule patch_guard_held [OF assms(1) co gd assms(7)])
  note cm = loadLive_Inr [OF c]
  show ?thesis
  proof (cases "rp_Replayed rep")
    case True
    then have "db' = db" by (rule_tac doWrite_cases [OF wr]) auto
    then show ?thesis using dA assms(9) effective_granted by blast
  next
    case False
    let ?r = "patch_row new c"
    note row = patched_row [OF wr assms(1) False c]
    have sl: "same_live c ?r" by (rule patch_row_live(1)) (use cm in simp)
    have exp: "as_Expires ?r = as_Expires c \<or> as_Expires ?r = None \<or> (\<exists>t. as_Expires ?r = Some t \<and> cx_now cx < t)"
      using patched_expiry [OF ex] by (simp add: new patch_row_live(4))
    moreover have "\<forall>t. as_Expires c = Some t \<longrightarrow> 0 < t" using adb_wfD(3) [OF assms(1)] cm by blast
    ultimately have pos: "\<forall>t. as_Expires ?r = Some t \<longrightarrow> 0 < t" using assms(5) by fastforce
    have nw: "\<not> widerExpiry c ?r" using assms(8) c unfolding widerExpiry_def patch_row_live(4) new by blast
    have tr: "template_version db (as_Template c, pin_of (as_Pinned ?r)) = Some (t, v)" using tv(1) by (simp add: patch_row_live(3))
    obtain d' where d': "engine_LoadAccess db' u g = Inr d'" using same_tables_load [OF _ assms(9)] row unfolding one_row_def by blast
    have "spec_effective d' (cx_now cx) sc \<subseteq> granted d (cx_now cx) sc \<union> spec_effective dA (cx_now cx) sc \<and>
    (sc_Type sc = StOrg \<longrightarrow> spec_effective d' (cx_now cx) sc = spec_effective d (cx_now cx) sc)"
    proof (rule held_grown [OF row assms(9) d' _ _ _ assms(10)])
      show "gives (cx_now cx) (row_growth db ?r (Minus (NewSet (rv_Permissions v)) (NewSet (rv_Permissions w)))) db ?r"
        by (rule patched_gives [OF _ tr tv(2) sl patch_row_live(2) nw pos]) (use cm in simp)
      show "stays (cx_now cx) db ?r" by (rule patched_stays [OF assms(1) _ _ tr sl exp]) (use cm in simp_all)
      show "\<forall>pl. row_place db ?r = Some pl \<longrightarrow> held db g dA (cx_now cx) (Minus (NewSet (rv_Permissions v)) (NewSet (rv_Permissions w))) pl"
        using h same_live_place [OF sl, of db] by simp
    qed
    then show ?thesis using dA d' by blast
  qed
qed

definition ex_repin :: PatchAssignmentInput where
  "ex_repin = \<lparr> pa_Expires = None, pa_Reason = Some ''quarterly review'', pa_Pinned = Some (Some 1) \<rparr>"

lemma ex_repin_ok: "ok_result (fst (PatchAssignment ex_cx 5 1 51 ex_repin None ex_adb ex_eng))"
  by code_simp

theorem PatchAssignment_no_escalation_witness:
  "\<exists>dA d d'. engine_LoadAccess ex_adb 5 1 = Inr dA \<and> engine_LoadAccess ex_adb 6 1 = Inr d \<and>
    engine_LoadAccess (fst (snd (PatchAssignment ex_cx 5 1 51 ex_repin None ex_adb ex_eng))) 6 1 = Inr d' \<and>
    spec_effective d' 1000 (ProjectScope 10) \<subseteq> granted d 1000 (ProjectScope 10) \<union> spec_effective dA 1000 (ProjectScope 10)"
proof -
  obtain rep where run: "PatchAssignment ex_cx 5 1 51 ex_repin None ex_adb ex_eng =
      (Inr rep, fst (snd (PatchAssignment ex_cx 5 1 51 ex_repin None ex_adb ex_eng)), snd (snd (PatchAssignment ex_cx 5 1 51 ex_repin None ex_adb ex_eng)))"
    using ok_resultE [OF ex_repin_ok] by blast
  obtain d where d: "engine_LoadAccess ex_adb 6 1 = Inr d" using ex_loads by (cases "engine_LoadAccess ex_adb 6 1") (auto simp: ok_result_def)
  have "sc_ProjectID (ProjectScope 10) \<in> set (projectIDs ex_adb 1)" by code_simp
  moreover have "\<forall>c. loadLive ex_adb 1 51 = Inr c \<longrightarrow> \<not> widerExpiry c (patched c ex_repin)"
    by (simp add: widerExpiry_def patched_def ex_repin_def split: option.splits)
  ultimately show ?thesis
    using PatchAssignment_no_escalation [OF ex_adb_wf New_wf ex_coherent _ run ex_not_owner _ d, of "ProjectScope 10"] d by (auto simp: ex_cx_def)
qed

section \<open>The constraints of the tables\<close>

lemma adb_wf_tables:
  assumes "same_tables db db'" "db_assignments db' = db_assignments db"
  shows "adb_wf db' = adb_wf db"
proof -
  have "map ao_ID (map (\<lambda>r. r\<lparr> ao_Epoch := 0 \<rparr>) (db_orgs db')) = map ao_ID (map (\<lambda>r. r\<lparr> ao_Epoch := 0 \<rparr>) (db_orgs db))"
    using assms(1) unfolding same_defs by simp
  then have "map ao_ID (db_orgs db') = map ao_ID (db_orgs db)" by (simp add: comp_def)
  then show ?thesis using assms unfolding adb_wf_def same_defs by simp
qed

lemma adb_wf_rows:
  assumes "adb_wf db" "distinct (map as_ID rs)" "\<And>a b. a \<in> set rs \<Longrightarrow> b \<in> set rs \<Longrightarrow> same_live a b \<Longrightarrow> a = b" "\<And>a t. a \<in> set rs \<Longrightarrow> as_Expires a = Some t \<Longrightarrow> 0 < t"
  shows "adb_wf (db\<lparr> db_assignments := rs \<rparr>)"
  using assms unfolding adb_wf_def by simp

lemma adb_wf_map:
  assumes wf: "adb_wf db" and f: "\<And>x. as_ID (f x) = as_ID x" "\<And>x y. same_live (f x) (f y) \<Longrightarrow> same_live x y"
    and ex: "\<And>x t. x \<in> set (db_assignments db) \<Longrightarrow> as_Expires (f x) = Some t \<Longrightarrow> 0 < t"
  shows "adb_wf (db\<lparr> db_assignments := map f (db_assignments db) \<rparr>)"
proof (rule adb_wf_rows [OF wf])
  have "map as_ID (map f (db_assignments db)) = map as_ID (db_assignments db)" by (simp add: f(1))
  then show "distinct (map as_ID (map f (db_assignments db)))" using wf unfolding adb_wf_def by metis
  show "a = b" if "a \<in> set (map f (db_assignments db))" "b \<in> set (map f (db_assignments db))" "same_live a b" for a b
  proof -
    obtain x y where xy: "x \<in> set (db_assignments db)" "y \<in> set (db_assignments db)" "a = f x" "b = f y" using \<open>a \<in> _\<close> \<open>b \<in> _\<close> by (auto simp: image_iff)
    then have "x = y" using adb_wfD(2) [OF wf] f(2) that(3) by blast
    then show ?thesis using xy by simp
  qed
  show "0 < t" if "a \<in> set (map f (db_assignments db))" "as_Expires a = Some t" for a t using that ex by auto
qed

lemma upsert_wf:
  assumes wf: "adb_wf db" and up: "upsert_assignment r db = Inr ((i, created), db1)" and r: "as_Revoked r = None" "\<And>t. as_Expires r = Some t \<Longrightarrow> 0 < t"
  shows "adb_wf db1"
proof (cases "find (same_live r) (db_assignments db)")
  case None
  have new: "db1 = db\<lparr> db_assignments := db_assignments db @ [r] \<rparr>" "as_ID r \<notin> as_ID ` set (db_assignments db)"
    using up None by (auto simp: upsert_assignment_def list_ex_iff split: if_splits)
  have sym: "same_live x y = same_live y x" for x y :: AssignRow unfolding same_live_def by metis
  have no: "\<not> same_live r x" "\<not> same_live x r" if "x \<in> set (db_assignments db)" for x
    using None that unfolding find_None_iff sym [of x r] by blast+
  show ?thesis unfolding new(1)
    by (rule adb_wf_rows [OF wf]) (use wf new(2) no r(2) adb_wfD(2,3) [OF wf] in \<open>auto simp: adb_wf_def\<close>)
next
  case (Some old)
  have "db1 = db\<lparr> db_assignments := map (\<lambda>x. if as_ID x = as_ID old
      then x\<lparr> as_Pinned := as_Pinned r, as_Expires := as_Expires r, as_Reason := as_Reason r \<rparr> else x) (db_assignments db) \<rparr>"
    using up Some unfolding upsert_assignment_def by (simp split: if_splits) blast
  then show ?thesis
    by (simp only:) (rule adb_wf_map [OF wf], use r(2) adb_wfD(3) [OF wf] in \<open>auto simp: same_live_def split: if_splits\<close>)
qed

text \<open>A write keeps the constraints if its transaction does; this is the invariant behind every operation of the service.\<close>

lemma doWrite_wf:
  assumes "adb_wf db" "\<And>db0 v db1. adb_wf db0 \<Longrightarrow> same_tables db db0 \<Longrightarrow> db_assignments db0 = db_assignments db \<Longrightarrow> fn db0 = Inr (v, db1) \<Longrightarrow> adb_wf db1"
  shows "adb_wf (fst (snd (doWrite cx g actor idem status enc dec fn db e)))"
proof (rule doWrite_cases [of cx g actor idem status enc dec fn db e "fst (doWrite cx g actor idem status enc dec fn db e)"
      "fst (snd (doWrite cx g actor idem status enc dec fn db e))" "snd (snd (doWrite cx g actor idem status enc dec fn db e))"])
  fix v db0 db1 js assume w: "fn db0 = Inr (v, db1)" "db0 = db \<or> (\<exists>k. db0 = drop_old_key cx g actor k db)"
    "fst (snd (doWrite cx g actor idem status enc dec fn db e)) = bump_org g (db1\<lparr> db_idempotency := js \<rparr>)"
  have d0: "db_assignments db0 = db_assignments db" "same_tables db db0" using w(2) by auto
  have "adb_wf db1" using assms(2) [OF _ d0(2,1) w(1)] adb_wf_tables [OF d0(2,1)] assms(1) by blast
  then have "adb_wf (bump_org g (db1\<lparr> db_idempotency := js \<rparr>))"
    using adb_wf_tables [OF same_tables_trans [OF same_tables_upd(3) same_tables_upd(5)]] by simp
  then show ?thesis by (simp only: w(3))
qed (use assms(1) in simp_all)

lemma create_tx_Inr:
  assumes "create_tx cx actor g ai project db = Inr (dto, db1)"
  obtains i created action impact db0 where "upsert_assignment (input_row cx g actor ai) db = Inr ((i, created), db0)"
    "db1 = access_audit g actor action ''assignment'' i (project_of (ai_ScopeType ai) project) impact db0"
proof -
  obtain i created db0 where up: "upsert_assignment (input_row cx g actor ai) db = Inr ((i, created), db0)" using assms by (auto simp: create_tx_def split: if_splits sum.splits)
  let ?a = "\<lambda>action impact. access_audit g actor action ''assignment'' i (project_of (ai_ScopeType ai) project) impact db0"
  obtain action impact where "map_sum id (\<lambda>dto. (dto, ?a action impact)) (loadAssignmentTx cx (?a action impact) g i) = Inr (dto, db1)"
    using assms up unfolding create_tx_def by (simp add: Let_def split: if_splits)
  then have "db1 = ?a action impact" by (cases "loadAssignmentTx cx (?a action impact) g i") simp_all
  then show thesis by (rule that [OF up])
qed

lemma create_tx_wf:
  assumes "adb_wf db" "create_tx cx actor g ai project db = Inr (dto, db1)" "\<And>t. ai_Expires ai = Some t \<Longrightarrow> 0 < t"
  shows "adb_wf db1"
proof -
  obtain i created action impact db0 where up: "upsert_assignment (input_row cx g actor ai) db = Inr ((i, created), db0)"
    and db1: "db1 = access_audit g actor action ''assignment'' i (project_of (ai_ScopeType ai) project) impact db0" by (rule create_tx_Inr [OF assms(2)])
  have "adb_wf db0" by (rule upsert_wf [OF assms(1) up]) (use assms(3) in \<open>simp_all add: input_row_def\<close>)
  then show ?thesis using adb_wf_tables [OF same_tables_upd(4)] by (simp add: db1)
qed

lemma patch_tx_wf:
  assumes "adb_wf db" "patch_tx cx actor g i new project db = Inr (dto, db1)" "\<And>t. as_Expires new = Some t \<Longrightarrow> 0 < t"
  shows "adb_wf db1"
proof -
  let ?f = "\<lambda>x. if as_ID x = i \<and> as_Org x = g then patch_row new x else x"
  obtain lc where tx: "same_tables db db1" "db_assignments db1 = map ?f (db_assignments db)" by (rule patch_tx_Inr [OF assms(2)])
  have "adb_wf (db\<lparr> db_assignments := map ?f (db_assignments db) \<rparr>)"
    by (rule adb_wf_map [OF assms(1)]) (use assms(3) adb_wfD(3) [OF assms(1)] in \<open>auto simp: same_live_def patch_row_def split: if_splits\<close>)
  moreover have "same_tables (db\<lparr> db_assignments := map ?f (db_assignments db) \<rparr>) db1" using tx(1) by (simp add: same_defs)
  ultimately show ?thesis using adb_wf_tables tx(2) by fastforce
qed

lemma revoke_tx_Inr:
  assumes "revoke_tx cx actor g i project db = Inr (v, db1)"
  obtains lc where "loadLive db g i = Inr lc" "same_tables db db1"
    "db_assignments db1 = map (\<lambda>x. if as_ID x = i \<and> as_Org x = g \<and> as_Revoked x = None then x\<lparr> as_Revoked := Some (cx_now cx), as_RevokedBy := Some actor \<rparr> else x) (db_assignments db)"
proof -
  obtain lc where lc: "loadLive db g i = Inr lc" using assms by (auto simp: revoke_tx_def split: sum.splits)
  let ?db0 = "db\<lparr> db_assignments := map (\<lambda>x. if as_ID x = i \<and> as_Org x = g \<and> as_Revoked x = None
      then x\<lparr> as_Revoked := Some (cx_now cx), as_RevokedBy := Some actor \<rparr> else x) (db_assignments db) \<rparr>"
  have db1: "db1 = access_audit g actor ''access.assignment.revoked'' ''assignment'' i project 1 ?db0"
    using assms lc unfolding revoke_tx_def by (simp only: sum.case sum.inject prod.inject)
  show thesis by (rule that [OF lc]) (simp_all add: db1 same_tables_trans [OF same_tables_upd(2) same_tables_upd(4)])
qed

lemma revoke_tx_wf:
  assumes "adb_wf db" "revoke_tx cx actor g i project db = Inr (v, db1)"
  shows "adb_wf db1"
proof -
  let ?f = "\<lambda>x. if as_ID x = i \<and> as_Org x = g \<and> as_Revoked x = None then x\<lparr> as_Revoked := Some (cx_now cx), as_RevokedBy := Some actor \<rparr> else x"
  obtain lc where tx: "same_tables db db1" "db_assignments db1 = map ?f (db_assignments db)" by (rule revoke_tx_Inr [OF assms(2)])
  have "adb_wf (db\<lparr> db_assignments := map ?f (db_assignments db) \<rparr>)"
    by (rule adb_wf_map [OF assms(1)]) (use adb_wfD(3) [OF assms(1)] in \<open>auto simp: same_live_def split: if_splits\<close>)
  moreover have "same_tables (db\<lparr> db_assignments := map ?f (db_assignments db) \<rparr>) db1" using tx(1) by (simp add: same_defs)
  ultimately show ?thesis using adb_wf_tables tx(2) by fastforce
qed

lemma CreateAssignment_wf:
  assumes "adb_wf db" "0 \<le> cx_now cx"
  shows "adb_wf (fst (snd (CreateAssignment cx actor g ai idem db e)))"
proof (cases "create_guard cx db actor g ai e")
  case (Pair r e1)
  show ?thesis
  proof (cases r)
    case (Inr x)
    obtain head ver project where x: "x = (head, ver, project)" by (cases x)
    have ce: "checkExpiry cx db g ''expires_at'' (ai_Expires ai) = None" using create_guard_Inr Pair Inr x by blast
    have pos: "0 < t" if "ai_Expires ai = Some t" for t using checkExpiry_future [OF ce] that assms(2) by auto
    have "adb_wf (fst (snd (doWrite cx g actor idem 201 JAssignment dec_assignment (create_tx cx actor g ai project) db e1)))"
      by (rule doWrite_wf [OF assms(1)]) (use create_tx_wf pos in blast)
    then show ?thesis using Pair Inr x by (simp add: CreateAssignment_def)
  qed (use Pair assms(1) in \<open>simp add: CreateAssignment_def\<close>)
qed

lemma PatchAssignment_wf:
  assumes "adb_wf db" "0 \<le> cx_now cx"
  shows "adb_wf (fst (snd (PatchAssignment cx actor g i pa idem db e)))"
proof (cases "patch_guard cx db actor g i pa e")
  case (Pair r e1)
  show ?thesis
  proof (cases r)
    case (Inr x)
    obtain new project where x: "x = (new, project)" by (cases x)
    obtain c where c: "loadLive db g i = Inr c" "new = patched c pa" "patch_expiry cx db g c pa = None"
      using patch_guard_Inr Pair Inr x authorizeExisting_Inr by metis
    have pos: "0 < t" if "as_Expires new = Some t" for t
      using patched_expiry [OF c(3)] that adb_wfD(3) [OF assms(1), of c t] loadLive_Inr [OF c(1)] assms(2) unfolding c(2) by auto
    have "adb_wf (fst (snd (doWrite cx g actor idem 200 JAssignment dec_assignment (patch_tx cx actor g i new project) db e1)))"
      by (rule doWrite_wf [OF assms(1)]) (use patch_tx_wf pos in blast)
    then show ?thesis using Pair Inr x by (simp add: PatchAssignment_def)
  qed (use Pair assms(1) in \<open>simp add: PatchAssignment_def\<close>)
qed

lemma RevokeAssignment_wf:
  assumes "adb_wf db"
  shows "adb_wf (fst (snd (RevokeAssignment cx actor g i idem db e)))"
proof (cases "authorizeExisting cx db actor g i e")
  case (Pair r e1)
  show ?thesis
  proof (cases r)
    case (Inr x)
    obtain c project where x: "x = (c, project)" by (cases x)
    have "adb_wf (fst (snd (doWrite cx g actor idem 204 (\<lambda>_. JUnit) dec_unit (revoke_tx cx actor g i (project_of (as_ScopeType c) project)) db e1)))"
      by (rule doWrite_wf [OF assms]) (use revoke_tx_wf in blast)
    then show ?thesis using Pair Inr x by (simp add: RevokeAssignment_def)
  qed (use Pair assms in \<open>simp add: RevokeAssignment_def\<close>)
qed

section \<open>Idempotency keys\<close>

lemma find_kept: "find P xs = Some r \<Longrightarrow> \<not> Q r \<Longrightarrow> find P (filter (\<lambda>x. \<not> (P x \<and> Q x)) xs) = Some r"
  by (induction xs) (auto split: if_splits)

lemma find_snoc: "find P xs = None \<Longrightarrow> P r \<Longrightarrow> find P (xs @ [r]) = Some r"
  by (induction xs) (auto split: if_splits)

lemma stored_kept:
  assumes "stored_key g actor k db = Some r" "cx_now cx - time_Day < ik_CreatedAt r"
  shows "stored_key g actor k (drop_old_key cx g actor k db) = Some r"
  using find_kept [OF assms(1) [unfolded stored_key_def], of "\<lambda>r. ik_CreatedAt r \<le> cx_now cx - time_Day"] assms(2)
  unfolding stored_key_def drop_old_key_def by (simp add: conj_assoc)

lemma doWrite_stores:
  assumes w: "doWrite cx g actor (Some k) status enc dec fn db e = (Inr rep, db', e')" and new: "\<not> rp_Replayed rep"
    and fn: "\<forall>db0 v db1. fn db0 = Inr (v, db1) \<longrightarrow> db_idempotency db1 = db_idempotency db0"
  shows "rp_Status rep = status \<and> (\<exists>r. stored_key g actor k db' = Some r \<and> ik_Hash r = idem_Hash k \<and> ik_Status r = status \<and> ik_Response r = enc (rp_Value rep) \<and> ik_CreatedAt r = cx_now cx)"
proof -
  let ?db0 = "drop_old_key cx g actor k db"
  obtain o' where ok: "\<not> (idem_Key k = [] \<or> length (idem_Key k) > 128)" "org_live db g = Some o'"
    using w by (auto simp: doWrite_def InTx_def split: if_splits option.splits)
  have none: "stored_key g actor k ?db0 = None"
    using w new ok by (auto simp: doWrite_def InTx_def write_tx_def Let_def split: option.splits if_splits)
  obtain v db1 where fn1: "fn ?db0 = Inr (v, db1)"
    using w new ok none by (auto simp: doWrite_def InTx_def write_tx_def Let_def split: sum.splits)
  let ?row = "\<lparr> ik_Org = g, ik_User = actor, ik_Key = idem_Key k, ik_Hash = idem_Hash k, ik_Status = status, ik_Response = enc v, ik_CreatedAt = cx_now cx \<rparr>"
  have r: "rep = \<lparr> rp_Value = v, rp_Status = status, rp_Replayed = False \<rparr>" "db' = bump_org g (db1\<lparr> db_idempotency := db_idempotency db1 @ [?row] \<rparr>)"
    using w ok none fn1 by (simp_all add: doWrite_def InTx_def write_tx_def Let_def)
  have "stored_key g actor k db' = Some ?row"
    using find_snoc [OF none [unfolded stored_key_def], of ?row] fn fn1 by (simp add: stored_key_def r(2) bump_org_def)
  then show ?thesis by (simp add: r(1))
qed

lemma doWrite_again:
  assumes w: "doWrite cx g actor (Some k) status enc dec fn db e = (r, db', e')"
    and st: "stored_key g actor k db = Some row" "cx_now cx - time_Day < ik_CreatedAt row"
  shows "db' = db \<and> (\<forall>rep. r = Inr rep \<longrightarrow> strings_TrimSpace (ik_Hash row) = idem_Hash k \<and> dec (ik_Response row) = Some (rp_Value rep) \<and>
    rp_Status rep = ik_Status row \<and> rp_Replayed rep)"
  using w stored_kept [OF st] by (auto simp: doWrite_def InTx_def write_tx_def Let_def split: if_splits option.splits)

lemma create_tx_keys:
  assumes "create_tx cx actor g ai project db = Inr (dto, db1)"
  shows "db_idempotency db1 = db_idempotency db"
proof -
  obtain i created action impact db0 where up: "upsert_assignment (input_row cx g actor ai) db = Inr ((i, created), db0)"
    and db1: "db1 = access_audit g actor action ''assignment'' i (project_of (ai_ScopeType ai) project) impact db0" by (rule create_tx_Inr [OF assms])
  have "db_idempotency db0 = db_idempotency db" using up by (auto simp: upsert_assignment_def split: if_splits option.splits)
  then show ?thesis by (simp add: db1 access_audit_def)
qed

end
