(* ===== verification/Access_Groups.thy ===== *)
theory Access_Groups
  imports Access_Change
begin

text \<open>
  Groups (\<^verbatim>\<open>internal/access/groups.go\<close>): creating, renaming and archiving a group, adding and removing members. Membership is
  a grant, so adding members runs the no-escalation rule over everything the group is assigned. Of the list of members
  that is returned, the labels and the cursor of the next page are left out.
\<close>

section \<open>Operations\<close>

record GroupInput =
  gi_Slug :: string
  gi_Name :: "string option"
  gi_Description :: "string option"

record AddMembersInput =
  am_UserIDs :: "uuid list"
  am_Expires :: "time option"

definition loadGroup :: "ADB \<Rightarrow> uuid \<Rightarrow> uuid \<Rightarrow> aerr + GroupDTO" where
  "loadGroup db g i =
     (case find (\<lambda>r. gr_ID r = i \<and> gr_Org r = g) (db_groups db) of
        None \<Rightarrow> Inl ADomainNotFound
      | Some r \<Rightarrow> Inr \<lparr> gd_Row = r, gd_Members = int (length (filter (\<lambda>m. gm_Group m = i) (db_group_members db))) \<rparr>)"

definition dec_group :: "json \<Rightarrow> GroupDTO option" where
  "dec_group j = (case j of JGroup d \<Rightarrow> Some d | _ \<Rightarrow> None)"

definition dec_members :: "json \<Rightarrow> GroupMember list option" where
  "dec_members j = (case j of JMembers ms \<Rightarrow> Some ms | _ \<Rightarrow> None)"

definition bad_name :: "string \<Rightarrow> (string \<times> string) list" where
  "bad_name name = (if name = [] \<or> length name > 80 then [(''name'', ''required, at most 80 characters'')] else [])"

definition bad_description :: "string \<Rightarrow> (string \<times> string) list" where
  "bad_description desc = (if length desc > 500 then [(''description'', ''at most 500 characters'')] else [])"

definition text_or :: "string \<Rightarrow> string option \<Rightarrow> string" where
  "text_or def x = (case x of None \<Rightarrow> def | Some s \<Rightarrow> s)"

definition group_fields :: "GroupInput \<Rightarrow> (string \<times> string) list" where
  "group_fields gi =
     (if \<not> slugRE (gi_Slug gi) then [(''slug'', ''lowercase letters, digits and hyphens, 1 to 40 characters'')] else []) @
     bad_name (strings_TrimSpace (text_or [] (gi_Name gi))) @ bad_description (text_or [] (gi_Description gi))"

definition create_group_tx :: "Ctx \<Rightarrow> uuid \<Rightarrow> uuid \<Rightarrow> GroupInput \<Rightarrow> ADB \<Rightarrow> aerr + GroupDTO \<times> ADB" where
  "create_group_tx cx actor g gi db =
     (if int (length (filter (\<lambda>r. gr_Org r = g) (db_groups db))) \<ge> MaxGroupsPerOrg then Inl (limitErr ''an organization has at most 500 groups'')
      else if list_ex (\<lambda>r. gr_ID r = cx_new cx \<or> (gr_Org r = g \<and> gr_Slug r = gi_Slug gi)) (db_groups db)
      then Inl (conflict ''DUPLICATE'' ''a group with that slug already exists'')
      else
        let db1 = db\<lparr> db_groups := db_groups db @ [\<lparr> gr_ID = cx_new cx, gr_Org = g, gr_Slug = gi_Slug gi, gr_Name = strings_TrimSpace (text_or [] (gi_Name gi)),
              gr_Description = text_or [] (gi_Description gi), gr_Archived = None \<rparr>] \<rparr>;
            db2 = access_audit g actor ''access.group.created'' ''group'' (cx_new cx) None 0 db1
        in map_sum id (\<lambda>d. (d, db2)) (loadGroup db2 g (cx_new cx)))"

definition CreateGroup :: "Ctx \<Rightarrow> uuid \<Rightarrow> uuid \<Rightarrow> GroupInput \<Rightarrow> Idem option \<Rightarrow> ADB \<Rightarrow> Engine \<Rightarrow> (aerr + GroupDTO Reply) \<times> ADB \<times> Engine" where
  "CreateGroup cx actor g gi idem db e =
     (case require cx db actor g OrgScope [''group:manage''] e of
        (Inl x, e') \<Rightarrow> (Inl x, db, e')
      | (Inr _, e') \<Rightarrow>
          if group_fields gi \<noteq> [] then (Inl (validation (group_fields gi)), db, e')
          else doWrite cx g actor idem 201 JGroup dec_group (create_group_tx cx actor g gi) db e')"

definition update_fields :: "GroupRow \<Rightarrow> GroupInput \<Rightarrow> (string \<times> string) list" where
  "update_fields r gi =
     (if gi_Slug gi \<noteq> [] \<and> gi_Slug gi \<noteq> gr_Slug r then [(''slug'', ''the slug of a group cannot change'')] else []) @
     (case gi_Name gi of None \<Rightarrow> [] | Some n \<Rightarrow> bad_name (strings_TrimSpace n)) @
     (case gi_Description gi of None \<Rightarrow> [] | Some d \<Rightarrow> bad_description d)"

definition update_group_tx :: "uuid \<Rightarrow> uuid \<Rightarrow> uuid \<Rightarrow> GroupRow \<Rightarrow> string \<Rightarrow> string \<Rightarrow> ADB \<Rightarrow> aerr + GroupDTO \<times> ADB" where
  "update_group_tx actor g i r name desc db =
     (if \<not> list_ex (\<lambda>x. gr_ID x = i \<and> gr_Org x = g) (db_groups db) then Inl ADomainNotFound
      else
        let db1 = db\<lparr> db_groups := map (\<lambda>x. if gr_ID x = i \<and> gr_Org x = g then x\<lparr> gr_Name := name, gr_Description := desc \<rparr> else x) (db_groups db) \<rparr>;
            db2 = (if name \<noteq> gr_Name r \<or> desc \<noteq> gr_Description r then access_audit g actor ''access.group.updated'' ''group'' i None 0 db1 else db1)
        in map_sum id (\<lambda>d. (d, db2)) (loadGroup db2 g i))"

definition UpdateGroup :: "Ctx \<Rightarrow> uuid \<Rightarrow> uuid \<Rightarrow> uuid \<Rightarrow> GroupInput \<Rightarrow> Idem option \<Rightarrow> ADB \<Rightarrow> Engine \<Rightarrow> (aerr + GroupDTO Reply) \<times> ADB \<times> Engine" where
  "UpdateGroup cx actor g i gi idem db e =
     (case require cx db actor g OrgScope [''group:manage''] e of
        (Inl x, e') \<Rightarrow> (Inl x, db, e')
      | (Inr _, e') \<Rightarrow>
          (case loadGroup db g i of
             Inl x \<Rightarrow> (Inl (access_Normalize x), db, e')
           | Inr d \<Rightarrow>
               let r = gd_Row d;
                   name = (case gi_Name gi of None \<Rightarrow> gr_Name r | Some n \<Rightarrow> strings_TrimSpace n);
                   desc = text_or (gr_Description r) (gi_Description gi) in
               if update_fields r gi \<noteq> [] then (Inl (validation (update_fields r gi)), db, e')
               else doWrite cx g actor idem 200 JGroup dec_group (update_group_tx actor g i r name desc) db e'))"

definition archive_group_tx :: "Ctx \<Rightarrow> uuid \<Rightarrow> uuid \<Rightarrow> uuid \<Rightarrow> GroupDTO \<Rightarrow> ADB \<Rightarrow> aerr + unit \<times> ADB" where
  "archive_group_tx cx actor g i d db =
     (if \<not> list_ex (\<lambda>x. gr_ID x = i \<and> gr_Org x = g \<and> gr_Archived x = None) (db_groups db) then Inr ((), db)
      else Inr ((), access_audit g actor ''access.group.archived'' ''group'' i None (gd_Members d)
        (db\<lparr> db_groups := map (\<lambda>x. if gr_ID x = i \<and> gr_Org x = g \<and> gr_Archived x = None then x\<lparr> gr_Archived := Some (cx_now cx) \<rparr> else x) (db_groups db) \<rparr>)))"

definition ArchiveGroup :: "Ctx \<Rightarrow> uuid \<Rightarrow> uuid \<Rightarrow> uuid \<Rightarrow> Idem option \<Rightarrow> ADB \<Rightarrow> Engine \<Rightarrow> (aerr + unit Reply) \<times> ADB \<times> Engine" where
  "ArchiveGroup cx actor g i idem db e =
     (case require cx db actor g OrgScope [''group:manage''] e of
        (Inl x, e') \<Rightarrow> (Inl x, db, e')
      | (Inr _, e') \<Rightarrow>
          (case loadGroup db g i of
             Inl x \<Rightarrow> (Inl (access_Normalize x), db, e')
           | Inr d \<Rightarrow> doWrite cx g actor idem 204 (\<lambda>_. JUnit) dec_unit (archive_group_tx cx actor g i d) db e'))"

text \<open>The first page of the members, by the instant they were added and then by id.\<close>

definition listGroupMembers :: "ADB \<Rightarrow> uuid \<Rightarrow> uuid \<Rightarrow> GroupMember list" where
  "listGroupMembers db g i = take 200 (sort_key gm_AddedAt (sort_key gm_User (filter (\<lambda>m. gm_Group m = i \<and>
     list_ex (\<lambda>r. gr_ID r = i \<and> gr_Org r = g) (db_groups db) \<and> list_ex (\<lambda>u. us_ID u = gm_User m) (db_users db)) (db_group_members db))))"

definition liveGroupAssignments :: "Ctx \<Rightarrow> ADB \<Rightarrow> uuid \<Rightarrow> uuid \<Rightarrow> (string \<times> uuid \<times> pset) list" where
  "liveGroupAssignments cx db g i =
     List.map_filter (\<lambda>r. map_option (\<lambda>(t, v). (as_ScopeType r, as_ScopeID r, NewSet (rv_Permissions v))) (template_version db (as_Template r, pin_of (as_Pinned r))))
       (filter (\<lambda>r. as_Org r = g \<and> as_SubjectType r = ''group'' \<and> as_SubjectID r = i \<and> as_Revoked r = None \<and>
          (case as_Expires r of None \<Rightarrow> True | Some t \<Rightarrow> t > cx_now cx)) (db_assignments db))"

fun missing_loop :: "Ctx \<Rightarrow> ADB \<Rightarrow> uuid \<Rightarrow> uuid \<Rightarrow> pset \<Rightarrow> (string \<times> uuid \<times> pset) list \<Rightarrow> pset astep" where
  "missing_loop cx db actor g missing [] = pure missing"
| "missing_loop cx db actor g missing ((typ, sid, ps) # as) =
     andThen (containmentMissing cx db actor g typ sid ps) (\<lambda>m. missing_loop cx db actor g (Union missing m) as)"

definition outsiders :: "ADB \<Rightarrow> uuid \<Rightarrow> uuid list \<Rightarrow> (string \<times> string) list" where
  "outsiders db g us = List.map_filter (\<lambda>(n, u). if list_ex (\<lambda>m. om_Org m = g \<and> om_User m = u) (db_members db) then None
     else Some (indexed ''user_ids'' n, ''not a member of the organization'')) (zip [0..<length us] us)"

definition may_add :: "Ctx \<Rightarrow> ADB \<Rightarrow> uuid \<Rightarrow> uuid \<Rightarrow> uuid \<Rightarrow> uuid list \<Rightarrow> unit astep" where
  "may_add cx db actor g i us =
     (let asg = liveGroupAssignments cx db g i in
      if isOwner cx db g actor \<or> asg = [] then pure ()
      else if actor \<in> set us then fail (escalation ''you cannot add yourself to a group that grants access'' [] ''self_grant'')
      else andThen (missing_loop cx db actor g empty_set asg)
        (\<lambda>missing. if IsEmpty missing then pure ()
                   else fail (escalation ''adding members to this group grants permissions you do not hold'' (IDs missing) [])))"

definition add_guard :: "Ctx \<Rightarrow> ADB \<Rightarrow> uuid \<Rightarrow> uuid \<Rightarrow> uuid \<Rightarrow> AddMembersInput \<Rightarrow> unit astep" where
  "add_guard cx db actor g i am =
     andThen (require cx db actor g OrgScope [''group:manage''])
       (\<lambda>_. case loadGroup db g i of
              Inl x \<Rightarrow> fail (access_Normalize x)
            | Inr d \<Rightarrow>
                if am_UserIDs am = [] \<or> length (am_UserIDs am) > 100 then fail (validationField ''user_ids'' ''between 1 and 100 users'')
                else if gr_Archived (gd_Row d) \<noteq> None then fail (conflict ''GROUP_ARCHIVED'' ''group is archived'')
                else
                  (case checkExpiry cx db g ''expires_at'' (am_Expires am) of
                     Some x \<Rightarrow> fail x
                   | None \<Rightarrow> if outsiders db g (am_UserIDs am) \<noteq> [] then fail (validation (outsiders db g (am_UserIDs am)))
                             else may_add cx db actor g i (am_UserIDs am)))"

text \<open>\<^verbatim>\<open>ON CONFLICT\<close> on the key of group and user: a membership that exists keeps its date and takes the new expiry.\<close>

definition upsert_member :: "Ctx \<Rightarrow> uuid \<Rightarrow> time option \<Rightarrow> uuid \<Rightarrow> ADB \<Rightarrow> ADB" where
  "upsert_member cx i expires u db = db\<lparr> db_group_members :=
     (if list_ex (\<lambda>m. gm_Group m = i \<and> gm_User m = u) (db_group_members db)
      then map (\<lambda>m. if gm_Group m = i \<and> gm_User m = u then m\<lparr> gm_Expires := expires \<rparr> else m) (db_group_members db)
      else db_group_members db @ [\<lparr> gm_Group = i, gm_User = u, gm_Expires = expires, gm_AddedAt = cx_now cx \<rparr>]) \<rparr>"

fun add_members :: "Ctx \<Rightarrow> uuid \<Rightarrow> uuid \<Rightarrow> uuid \<Rightarrow> time option \<Rightarrow> uuid list \<Rightarrow> ADB \<Rightarrow> aerr + ADB" where
  "add_members cx actor g i expires [] db = Inr db"
| "add_members cx actor g i expires (u # us) db =
     (if \<not> list_ex (\<lambda>x. us_ID x = u) (db_users db) then Inl (ARepo ErrAccessInvalid ''group_members_user_id_fkey'')
      else add_members cx actor g i expires us (access_audit g actor ''access.group_member.added'' ''group_member'' i None 1 (upsert_member cx i expires u db)))"

definition add_members_tx :: "Ctx \<Rightarrow> uuid \<Rightarrow> uuid \<Rightarrow> uuid \<Rightarrow> AddMembersInput \<Rightarrow> ADB \<Rightarrow> aerr + GroupMember list \<times> ADB" where
  "add_members_tx cx actor g i am db =
     (case find (\<lambda>r. gr_ID r = i \<and> gr_Org r = g) (db_groups db) of
        None \<Rightarrow> Inl ADomainNotFound
      | Some r \<Rightarrow>
          let us = dedup [] (am_UserIDs am) in
          if gr_Archived r \<noteq> None then Inl (conflict ''GROUP_ARCHIVED'' ''group is archived'')
          else if int (length (filter (\<lambda>m. gm_Group m = i \<and> gm_User m \<notin> set us) (db_group_members db))) + int (length us) > MaxGroupMembers
          then Inl (limitErr ''a group has at most 5000 members'')
          else map_sum id (\<lambda>db'. (listGroupMembers db' g i, db')) (add_members cx actor g i (am_Expires am) us db))"

definition AddGroupMembers :: "Ctx \<Rightarrow> uuid \<Rightarrow> uuid \<Rightarrow> uuid \<Rightarrow> AddMembersInput \<Rightarrow> Idem option \<Rightarrow> ADB \<Rightarrow> Engine \<Rightarrow> (aerr + GroupMember list Reply) \<times> ADB \<times> Engine" where
  "AddGroupMembers cx actor g i am idem db e =
     (case add_guard cx db actor g i am e of
        (Inl x, e') \<Rightarrow> (Inl x, db, e')
      | (Inr _, e') \<Rightarrow> doWrite cx g actor idem 200 JMembers dec_members (add_members_tx cx actor g i am) db e')"

definition remove_member_tx :: "uuid \<Rightarrow> uuid \<Rightarrow> uuid \<Rightarrow> uuid \<Rightarrow> ADB \<Rightarrow> aerr + unit \<times> ADB" where
  "remove_member_tx actor g i user db =
     (if \<not> (list_ex (\<lambda>r. gr_ID r = i \<and> gr_Org r = g) (db_groups db) \<and> list_ex (\<lambda>m. gm_Group m = i \<and> gm_User m = user) (db_group_members db))
      then Inl (notFound ''membership not found'')
      else Inr ((), access_audit g actor ''access.group_member.removed'' ''group_member'' i None 1
        (db\<lparr> db_group_members := filter (\<lambda>m. \<not> (gm_Group m = i \<and> gm_User m = user)) (db_group_members db) \<rparr>)))"

definition RemoveGroupMember :: "Ctx \<Rightarrow> uuid \<Rightarrow> uuid \<Rightarrow> uuid \<Rightarrow> uuid \<Rightarrow> Idem option \<Rightarrow> ADB \<Rightarrow> Engine \<Rightarrow> (aerr + unit Reply) \<times> ADB \<times> Engine" where
  "RemoveGroupMember cx actor g i user idem db e =
     (case require cx db actor g OrgScope [''group:manage''] e of
        (Inl x, e') \<Rightarrow> (Inl x, db, e')
      | (Inr _, e') \<Rightarrow>
          (case loadGroup db g i of
             Inl x \<Rightarrow> (Inl (access_Normalize x), db, e')
           | Inr _ \<Rightarrow> doWrite cx g actor idem 204 (\<lambda>_. JUnit) dec_unit (remove_member_tx actor g i user) db e'))"

section \<open>What the guards establish\<close>

lemma manage_is_strict: "needStrict [''group:manage'']" "needStrict [''template:manage'']"
proof -
  have "gomap_get index ''group:manage'' = Some 12" "gomap_get index ''template:manage'' = Some 14" by (simp_all add: index_get_iff ids_eval)
  moreover have "raw_flags (table ! 12) = ''s''" "raw_flags (table ! 14) = ''s''" by (simp_all add: table_def)
  ultimately show "needStrict [''group:manage'']" "needStrict [''template:manage'']"
    by (simp_all add: needStrict_def Get_def perms_nth Sensitive_init_perm strings_HasPrefix_def)
qed

lemma manage_required:
  assumes "adb_wf db" "coh cx db (u, g) e" "require cx db u g OrgScope ps e = (Inr st, e')" "needStrict ps"
  obtains d where "engine_LoadAccess db u g = Inr d" "cur cx db (u, g) e'" "{b. HasBit st b} = spec_effective d (cx_now cx) OrgScope"
proof -
  obtain acc where "svc_effective cx db u g OrgScope True e = (Inr (acc, st), e')" using require_Inr [OF assms(3)] assms(4) by auto
  then show thesis by (rule strict_cur [OF assms(1,2)]) (rule that)
qed

lemma caps_loop_keeps:
  assumes "adb_wf db" "engine_LoadAccess db u g = Inr d"
  shows "caps_loop cx db u g caps ps e = (Inr st, e') \<Longrightarrow> cur cx db (u, g) e \<Longrightarrow> cur cx db (u, g) e'"
proof (induction ps arbitrary: caps e)
  case (Cons p ps)
  obtain acc st1 e1 where s: "svc_effective cx db u g (ProjectScope p) False e = (Inr (acc, st1), e1)"
    and rest: "(let caps' = Intersect caps st1 in if IsEmpty caps' then pure caps' else caps_loop cx db u g caps' ps) e1 = (Inr st, e')"
    using Cons.prems(1) by (auto simp: andThen_Inr)
  have "cur cx db (u, g) e1" using read_cur(2) [OF assms(1) Cons.prems(2) assms(2) s] .
  then show ?case using rest Cons.IH by (auto simp: Let_def split: if_splits)
qed simp

lemma containment_keeps:
  assumes wf: "adb_wf db" and c: "cur cx db (u, g) e" and d: "engine_LoadAccess db u g = Inr d"
    and m: "containmentMissing cx db u g typ sid P e = (Inr missing, e')"
  shows "cur cx db (u, g) e'"
proof (cases "typ = ''org''")
  case True
  obtain caps where caps: "projectCaps cx db u g e = (Inr caps, e')" using m True by (auto simp: containmentMissing_def andThen_Inr)
  then show ?thesis using caps_loop_keeps [OF wf d] c read_cur(2) [OF wf c d] by (auto simp: projectCaps_def andThen_Inr split: if_splits)
next
  case False
  obtain sc project st where r: "requireAt cx db u g typ sid [] e = (Inr (sc, project, st), e')" using m False by (auto simp: containmentMissing_def andThen_Inr)
  then show ?thesis using require_Inr [OF requireAt_Inr(2) [OF r]] read_cur(2) [OF wf c d] by blast
qed

text \<open>An empty union of what is missing: everything is held, at the place of its row.\<close>

lemma missing_loop_mono: "missing_loop cx db u g missing rows e = (Inr m, e') \<Longrightarrow> HasBit missing b \<Longrightarrow> HasBit m b"
proof (induction rows arbitrary: missing e)
  case (Cons x rows)
  obtain kind sid ps where x: "x = (kind, sid, ps)" by (cases x)
  obtain m1 e1 where "missing_loop cx db u g (Union missing m1) rows e1 = (Inr m, e')" using Cons.prems(1) by (auto simp: x andThen_Inr)
  then show ?case using Cons.IH Cons.prems(2) by (simp add: HasBit_Union)
qed simp

lemma missing_loop_held:
  assumes wf: "adb_wf db" and d: "engine_LoadAccess db u g = Inr d"
  shows "missing_loop cx db u g missing rows e = (Inr m, e') \<Longrightarrow> IsEmpty m \<Longrightarrow> cur cx db (u, g) e \<Longrightarrow>
    (as_ScopeType r, as_ScopeID r, P) \<in> set rows \<Longrightarrow> row_place db r = Some pl \<Longrightarrow> held db g d (cx_now cx) P pl"
proof (induction rows arbitrary: missing e)
  case (Cons x rows)
  obtain kind sid ps where x: "x = (kind, sid, ps)" by (cases x)
  obtain m1 e1 where 1: "containmentMissing cx db u g kind sid ps e = (Inr m1, e1)" and 2: "missing_loop cx db u g (Union missing m1) rows e1 = (Inr m, e')"
    using Cons.prems(1) by (auto simp: x andThen_Inr)
  have "IsEmpty m1" using missing_loop_mono [OF 2] Cons.prems(2) unfolding ps.is_empty_has by (auto simp: HasBit_Union)
  show ?case
  proof (cases "(as_ScopeType r, as_ScopeID r, P) = x")
    case True
    then show ?thesis using containment_held [OF wf Cons.prems(3) d, of r P m1 e1 pl] 1 \<open>IsEmpty m1\<close> Cons.prems(5) by (simp add: x)
  next
    case False
    then show ?thesis using Cons.IH [OF 2 Cons.prems(2) containment_keeps [OF wf Cons.prems(3) d 1] _ Cons.prems(5)] Cons.prems(4) by simp
  qed
qed simp

text \<open>What the group's assignments give.\<close>

definition group_growth :: "Ctx \<Rightarrow> ADB \<Rightarrow> uuid \<Rightarrow> uuid \<Rightarrow> growth" where
  "group_growth cx db g i = (\<lambda>pl b. \<exists>r P. (as_ScopeType r, as_ScopeID r, P) \<in> set (liveGroupAssignments cx db g i) \<and> row_place db r = Some pl \<and> HasBit P b)"

lemma may_add_held:
  assumes wf: "adb_wf db" and c: "cur cx db (actor, g) e" and d: "engine_LoadAccess db actor g = Inr dA"
    and m: "may_add cx db actor g i us e = (Inr (), e')" and no: "\<not> isOwner cx db g actor" and R: "group_growth cx db g i pl b"
  shows "\<exists>P. HasBit P b \<and> held db g dA (cx_now cx) P pl"
proof -
  obtain r P where r: "(as_ScopeType r, as_ScopeID r, P) \<in> set (liveGroupAssignments cx db g i)" "row_place db r = Some pl" "HasBit P b"
    using R unfolding group_growth_def by blast
  obtain missing e1 where "missing_loop cx db actor g empty_set (liveGroupAssignments cx db g i) e = (Inr missing, e1)" "IsEmpty missing"
    using m no r(1) by (auto simp: may_add_def Let_def andThen_Inr split: if_splits)
  then have "held db g dA (cx_now cx) P pl" using missing_loop_held [OF wf d _ _ c r(1,2)] by blast
  then show ?thesis using r(3) by blast
qed

lemma add_guard_Inr:
  assumes "add_guard cx db actor g i am e = (Inr (), e')"
  obtains st e1 where "require cx db actor g OrgScope [''group:manage''] e = (Inr st, e1)" "checkExpiry cx db g ''expires_at'' (am_Expires am) = None"
    "may_add cx db actor g i (am_UserIDs am) e1 = (Inr (), e')"
  using assms by (auto simp: add_guard_def andThen_Inr split: sum.splits if_splits option.splits)

lemma add_guard_held:
  assumes wf: "adb_wf db" and co: "coh cx db (actor, g) e" and gd: "add_guard cx db actor g i am e = (Inr (), e')" and no: "\<not> isOwner cx db g actor"
  obtains dA where "engine_LoadAccess db actor g = Inr dA" "am_Expires am = None \<or> (\<exists>t. am_Expires am = Some t \<and> cx_now cx < t)"
    "\<forall>pl b. group_growth cx db g i pl b \<longrightarrow> (\<exists>P. HasBit P b \<and> held db g dA (cx_now cx) P pl)"
proof -
  obtain st e1 where 1: "require cx db actor g OrgScope [''group:manage''] e = (Inr st, e1)" and 2: "checkExpiry cx db g ''expires_at'' (am_Expires am) = None"
    and 3: "may_add cx db actor g i (am_UserIDs am) e1 = (Inr (), e')" by (rule add_guard_Inr [OF gd])
  obtain dA where dA: "engine_LoadAccess db actor g = Inr dA" "cur cx db (actor, g) e1" by (rule manage_required [OF wf co 1 manage_is_strict(1)])
  show thesis by (rule that [OF dA(1) checkExpiry_future [OF 2]]) (use may_add_held [OF wf dA(2,1) 3 no] in blast)
qed

section \<open>What adding members changes\<close>

text \<open>\<open>joined\<close>: the same tables but for memberships of the group, and these are the old ones or new ones with the expiry;
  whoever was in a group still is, with the old expiry or the new one.\<close>

definition joined :: "uuid \<Rightarrow> time option \<Rightarrow> ADB \<Rightarrow> ADB \<Rightarrow> bool" where
  "joined i x db db' \<longleftrightarrow> kept_core db db' \<and> db_groups db' = db_groups db \<and> db_assignments db' = db_assignments db \<and>
     (\<forall>m' \<in> set (db_group_members db'). m' \<in> set (db_group_members db) \<or> (gm_Group m' = i \<and> gm_Expires m' = x)) \<and>
     (\<forall>m \<in> set (db_group_members db). \<exists>m' \<in> set (db_group_members db'). gm_Group m' = gm_Group m \<and> gm_User m' = gm_User m \<and> gm_Expires m' \<in> {gm_Expires m, x})"

lemma joined_trans: "joined i x a b \<Longrightarrow> joined i x b c \<Longrightarrow> joined i x a c"
  unfolding joined_def core_defs by (intro conjI; (metis insertE insertI1 insert_commute singletonD)?)

lemma joined_same: "same_tables db db' \<Longrightarrow> db_assignments db' = db_assignments db \<Longrightarrow> joined i x db db'"
  unfolding joined_def same_tables_def by auto

lemma joined_upsert: "joined i x db (upsert_member cx i x u db)"
proof -
  let ?f = "\<lambda>m. if gm_Group m = i \<and> gm_User m = u then m\<lparr> gm_Expires := x \<rparr> else m"
  have f: "gm_Group (?f m) = gm_Group m \<and> gm_User (?f m) = gm_User m \<and> gm_Expires (?f m) \<in> {gm_Expires m, x}" for m by simp
  have "\<exists>m' \<in> ?f ` set (db_group_members db). gm_Group m' = gm_Group m \<and> gm_User m' = gm_User m \<and> gm_Expires m' \<in> {gm_Expires m, x}"
    if "m \<in> set (db_group_members db)" for m by (rule bexI [of _ "?f m"]) (rule f, rule imageI [OF that])
  then show ?thesis unfolding joined_def upsert_member_def core_defs set_map by (auto simp: set_map split: if_splits)
qed

lemma joined_members: "add_members cx actor g i x us db = Inr db' \<Longrightarrow> joined i x db db'"
proof (induction us arbitrary: db)
  case Nil then show ?case by (simp add: joined_same)
next
  case (Cons u us)
  let ?db1 = "access_audit g actor ''access.group_member.added'' ''group_member'' i None 1 (upsert_member cx i x u db)"
  have "joined i x ?db1 db'" using Cons by (simp split: if_splits)
  moreover have "joined i x (upsert_member cx i x u db) ?db1" by (rule joined_same) simp_all
  ultimately show ?case using joined_trans joined_upsert by blast
qed

lemma joined_reaches:
  assumes "joined i x db db'" "reaches db' g u typ sid y"
  shows "reaches db g u typ sid y \<or> (typ = ''group'' \<and> sid = i \<and> y = x)"
  using assms unfolding joined_def reaches_def by (metis (no_types, lifting))

lemma joined_keeps:
  assumes "joined i x db db'" "reaches db g u typ sid y"
  obtains y' where "reaches db' g u typ sid y'" "y' = y \<or> (y' = x \<and> y \<noteq> None \<or> y' = x \<and> typ = ''group'')"
proof (cases "typ = ''user'' \<and> sid = u \<and> y = None")
  case True then show thesis using that [of y] by (simp add: reaches_def)
next
  case False
  then obtain m gr where m: "typ = ''group''" "m \<in> set (db_group_members db)" "gr \<in> set (db_groups db)" "gm_User m = u" "gm_Group m = sid" "gm_Expires m = y"
      "gr_ID gr = sid" "gr_Org gr = g" "gr_Archived gr = None" using assms(2) unfolding reaches_def by blast
  obtain m' where "m' \<in> set (db_group_members db')" "gm_Group m' = gm_Group m" "gm_User m' = gm_User m" "gm_Expires m' \<in> {gm_Expires m, x}"
    using assms(1) m(2) unfolding joined_def by blast
  then show thesis using that [of "gm_Expires m'"] m assms(1) unfolding joined_def reaches_def by auto
qed

text \<open>An assignment that is in force through a membership is among the group's live ones.\<close>

lemma live_group_row:
  assumes "r \<in> set (db_assignments db)" "as_Org r = g" "as_Revoked r = None" "as_SubjectType r = ''group''" "as_SubjectID r = i"
    and a: "row_grant db (r, x) = Some a" "\<not> expired a (cx_now cx)" and pos: "\<And>t. as_Expires r = Some t \<Longrightarrow> 0 < t" "\<And>t. x = Some t \<Longrightarrow> 0 < t"
    and b: "HasBit (a_Permissions a) b"
  shows "group_growth cx db g i (place a) b"
proof -
  obtain t v where tv: "template_version db (as_Template r, pin_of (as_Pinned r)) = Some (t, v)" "a_Permissions a = NewSet (rv_Permissions v)"
    using row_grant_facts(2) [OF a(1)] by (auto simp: row_ref_def)
  have "row_expiry (r, x) = 0 \<or> cx_now cx < row_expiry (r, x)" using a(2) row_grant_facts(3) [OF a(1)] by (auto simp: expired_def IsZero_def)
  then have "case as_Expires r of None \<Rightarrow> True | Some t \<Rightarrow> t > cx_now cx"
    using pos by (cases "as_Expires r"; cases x) (auto simp: row_expiry_def split: if_splits)
  then have "(as_ScopeType r, as_ScopeID r, a_Permissions a) \<in> set (liveGroupAssignments cx db g i)"
    using assms(1-5) tv by (force simp: liveGroupAssignments_def set_map_filter)
  then show ?thesis using row_grant_facts(1) [OF a(1)] b unfolding group_growth_def by blast
qed

lemma membership_stays:
  assumes "adb_wf db" "sources db g u r y" "row_expiry (r, y) = 0 \<or> now < row_expiry (r, y)" "y' = y \<or> (y' = x \<and> (x = None \<or> (\<exists>t. x = Some t \<and> now < t)))"
  shows "row_expiry (r, y') = 0 \<or> now < row_expiry (r, y')"
proof -
  have pos: "\<And>t. as_Expires r = Some t \<Longrightarrow> 0 < t" using adb_wfD(3) [OF assms(1)] assms(2) unfolding sources_def by blast
  have "\<And>t. y = Some t \<Longrightarrow> 0 < t" using assms(1,2) unfolding adb_wf_def sources_def reaches_def by blast
  then show ?thesis using assms(3,4) pos by (cases "as_Expires r"; cases y; cases x) (auto simp: row_expiry_def split: if_splits)
qed

lemma joined_grown:
  assumes wf: "adb_wf db" and j: "joined i x db db'" and d: "engine_LoadAccess db u g = Inr d" and d': "engine_LoadAccess db' u g = Inr d'"
    and x: "x = None \<or> (\<exists>t. x = Some t \<and> cx_now cx < t)" and now: "0 \<le> cx_now cx"
  shows "grown (cx_now cx) (group_growth cx db g i) d d'"
proof -
  have kc: "kept_core db db'" and rows: "db_assignments db' = db_assignments db" using j unfolding joined_def by blast+
  have sb: "same_base d d'" by (rule kept_core_base [OF kc d d'])
  have new: "(\<exists>a \<in> set (live d (cx_now cx)). place a = place a' \<and> HasBit (a_Permissions a) b) \<or> group_growth cx db g i (place a') b"
    if a': "a' \<in> set (live d' (cx_now cx))" "HasBit (a_Permissions a') b" for a' b
  proof -
    obtain r y where r: "sources db' g u r y" "row_grant db (r, y) = Some a'" and ne: "\<not> expired a' (cx_now cx)" and m: "d_Member d"
      using a'(1) sb unfolding mem_live loaded_mem [OF d'] kept_core_reads(3) [OF kc] same_base_def by blast
    note s = r(1) [unfolded sources_def rows]
    consider "sources db g u r y" | "as_SubjectType r = ''group''" "as_SubjectID r = i" "y = x" using joined_reaches [OF j] s unfolding sources_def by blast
    then show ?thesis
    proof cases
      case 1 then show ?thesis using r(2) ne m a'(2) unfolding mem_live Bex_def loaded_mem [OF d] by blast
    next
      case 2
      have "group_growth cx db g i (place a') b"
        by (rule live_group_row [OF _ _ _ 2(1,2) r(2) ne _ _ a'(2)]) (use s x now 2(3) adb_wfD(3) [OF wf] in auto)
      then show ?thesis ..
    qed
  qed
  have old: "\<exists>a' \<in> set (live d' (cx_now cx)). place a' = place a" if a: "a \<in> set (live d (cx_now cx))" for a
  proof -
    obtain r y where r: "sources db g u r y" "row_grant db (r, y) = Some a" and ne: "\<not> expired a (cx_now cx)" and m: "d_Member d'"
      using a sb unfolding mem_live loaded_mem [OF d] same_base_def by blast
    obtain y' where y': "reaches db' g u (as_SubjectType r) (as_SubjectID r) y'" "y' = y \<or> y' = x"
      using joined_keeps [OF j] r(1) unfolding sources_def by metis
    obtain t v where "template_version db (row_ref (r, y')) = Some (t, v)" using row_grant_facts(2) [OF r(2)] by (auto simp: row_ref_def)
    then obtain a' where a': "row_grant db (r, y') = Some a'" "place a' = place a" "a_ExpiresAt a' = row_expiry (r, y')"
      using row_grant_facts(1) [OF r(2)] by (meson row_grant_Some)
    have "row_expiry (r, y) = 0 \<or> cx_now cx < row_expiry (r, y)" using ne row_grant_facts(3) [OF r(2)] by (auto simp: expired_def IsZero_def)
    then have "row_expiry (r, y') = 0 \<or> cx_now cx < row_expiry (r, y')" using membership_stays [OF wf r(1)] y'(2) x by blast
    then have "\<not> expired a' (cx_now cx)" using a'(3) by (auto simp: expired_def IsZero_def)
    moreover have "sources db' g u r y'" using r(1) y'(1) unfolding sources_def rows by blast
    ultimately show ?thesis using a'(1,2) m unfolding mem_live Bex_def loaded_mem [OF d'] kept_core_reads(3) [OF kc] by blast
  qed
  show ?thesis unfolding grown_def using same_base_grown [OF sb] new old by blast
qed

section \<open>No escalation\<close>

lemma added_members:
  assumes "doWrite cx g actor idem status enc dec (add_members_tx cx actor g i am) db e = (Inr rep, db', e')"
  shows "joined i (am_Expires am) db db'"
proof (rule doWrite_cases [OF assms])
  fix v db0 db1 js assume w: "add_members_tx cx actor g i am db0 = Inr (v, db1)" "db0 = db \<or> (\<exists>k. db0 = drop_old_key cx g actor k db)"
    "db' = bump_org g (db1\<lparr> db_idempotency := js \<rparr>)"
  have "joined i (am_Expires am) db db0" by (rule joined_same) (use w(2) in auto)
  moreover have "joined i (am_Expires am) db0 db1"
  proof (rule joined_members)
    show "add_members cx actor g i (am_Expires am) (dedup [] (am_UserIDs am)) db0 = Inr db1"
      using w(1) by (cases "add_members cx actor g i (am_Expires am) (dedup [] (am_UserIDs am)) db0") (auto simp: add_members_tx_def Let_def split: option.splits if_splits)
  qed
  moreover have "joined i (am_Expires am) db1 db'"
    by (rule joined_same) (simp_all add: w(3) same_tables_trans [OF same_tables_upd(3) same_tables_upd(5)])
  ultimately show ?thesis using joined_trans by blast
qed (simp_all add: joined_same)

text \<open>
  C7 (safety). No escalation by membership: when someone who is not an owner adds people to a group, nobody, at no scope of
  a project of the organization, gets a permission that they were not already granted and that the actor does not
  hold there; at the organization scope everybody has exactly what they had. The engine's cache is taken to be coherent for
  the actor, with no load of the actor in flight.
\<close>

theorem AddGroupMembers_no_escalation:
  assumes "adb_wf db" "engine_wf e (cx_now cx)" "coherent (cx_store cx db) e (actor, g)" "gomap_get (e_inflight e) (actor, g) = None" "0 \<le> cx_now cx"
    and "AddGroupMembers cx actor g i am idem db e = (Inr rep, db', e')" "\<not> isOwner cx db g actor"
    and "engine_LoadAccess db u g = Inr d" "sc_Type sc = StOrg \<or> sc_ProjectID sc \<in> set (projectIDs db g)"
  shows "\<exists>dA d'. engine_LoadAccess db actor g = Inr dA \<and> engine_LoadAccess db' u g = Inr d' \<and>
    spec_effective d' (cx_now cx) sc \<subseteq> granted d (cx_now cx) sc \<union> spec_effective dA (cx_now cx) sc \<and>
    (sc_Type sc = StOrg \<longrightarrow> spec_effective d' (cx_now cx) sc = spec_effective d (cx_now cx) sc)"
proof -
  have co: "coh cx db (actor, g) e" using assms(2-4) by (simp add: coh_def)
  obtain e1 where gd: "add_guard cx db actor g i am e = (Inr (), e1)"
    and wr: "doWrite cx g actor idem 200 JMembers dec_members (add_members_tx cx actor g i am) db e1 = (Inr rep, db', e')"
    using assms(6) by (auto simp: AddGroupMembers_def split: prod.splits sum.splits)
  obtain dA where dA: "engine_LoadAccess db actor g = Inr dA" and x: "am_Expires am = None \<or> (\<exists>t. am_Expires am = Some t \<and> cx_now cx < t)"
    and h: "\<forall>pl b. group_growth cx db g i pl b \<longrightarrow> (\<exists>P. HasBit P b \<and> held db g dA (cx_now cx) P pl)" by (rule add_guard_held [OF assms(1) co gd assms(7)])
  note j = added_members [OF wr]
  obtain d' where d': "engine_LoadAccess db' u g = Inr d'" using kept_core_load [OF _ assms(8)] j unfolding joined_def by blast
  have "spec_effective d' (cx_now cx) sc \<subseteq> granted d (cx_now cx) sc \<union> spec_effective dA (cx_now cx) sc \<and>
    (sc_Type sc = StOrg \<longrightarrow> spec_effective d' (cx_now cx) sc = spec_effective d (cx_now cx) sc)"
  proof (intro conjI impI grown_org_scope [OF joined_grown [OF assms(1) j assms(8) d' x assms(5)]] grown_effective [OF joined_grown [OF assms(1) j assms(8) d' x assms(5)]])
    fix b assume "allows (group_growth cx db g i) sc b"
    then obtain pl where pl: "group_growth cx db g i pl b" "covers pl sc" unfolding allows_def by blast
    then have "sc_ProjectID sc \<in> set (projectIDs db g)" using assms(9) by (simp add: covers_def)
    then show "b \<in> spec_effective dA (cx_now cx) sc" using h pl unfolding held_def by blast
  qed
  then show ?thesis using dA d' by blast
qed

text \<open>The organization with a group (30) that has template 201 in project 10; user 5 may manage groups.\<close>

definition ex_gdb :: ADB where
  "ex_gdb = ex_adb\<lparr> db_members := [(ex_member 5)\<lparr> om_Template := Some 101 \<rparr>, ex_member 6],
     db_templates := db_templates ex_adb @ [ex_template 101 ''org''], db_versions := db_versions ex_adb @ [ex_version 101 [''group:manage'']],
     db_groups := [\<lparr> gr_ID = 30, gr_Org = 1, gr_Slug = ''ops'', gr_Name = ''Ops'', gr_Description = [], gr_Archived = None \<rparr>],
     db_assignments := db_assignments ex_adb @ [(ex_arow 52 30 201 None)\<lparr> as_SubjectType := ''group'' \<rparr>] \<rparr>"

definition ex_add :: AddMembersInput where
  "ex_add = \<lparr> am_UserIDs = [6, 6], am_Expires = Some 5000 \<rparr>"

lemma ex_gdb_wf: "adb_wf ex_gdb"
  by (simp add: adb_wf_def ex_gdb_def ex_adb_def ex_arow_def ex_member_def same_live_def)

lemma ex_add_ok: "ok_result (fst (AddGroupMembers ex_cx 5 1 30 ex_add None ex_gdb ex_eng))"
  by code_simp

lemma ex_gdb_facts: "\<not> isOwner ex_cx ex_gdb 1 5" "ok_result (map_sum AInternal id (engine_LoadAccess ex_gdb 6 1))" "10 \<in> set (projectIDs ex_gdb 1)"
  by code_simp+

theorem AddGroupMembers_no_escalation_witness:
  "\<exists>dA d d'. engine_LoadAccess ex_gdb 5 1 = Inr dA \<and> engine_LoadAccess ex_gdb 6 1 = Inr d \<and>
    engine_LoadAccess (fst (snd (AddGroupMembers ex_cx 5 1 30 ex_add None ex_gdb ex_eng))) 6 1 = Inr d' \<and>
    spec_effective d' 1000 (ProjectScope 10) \<subseteq> granted d 1000 (ProjectScope 10) \<union> spec_effective dA 1000 (ProjectScope 10)"
proof -
  obtain rep where run: "AddGroupMembers ex_cx 5 1 30 ex_add None ex_gdb ex_eng =
      (Inr rep, fst (snd (AddGroupMembers ex_cx 5 1 30 ex_add None ex_gdb ex_eng)), snd (snd (AddGroupMembers ex_cx 5 1 30 ex_add None ex_gdb ex_eng)))"
    using ok_resultE [OF ex_add_ok] by blast
  obtain d where d: "engine_LoadAccess ex_gdb 6 1 = Inr d" using ex_gdb_facts(2) by (cases "engine_LoadAccess ex_gdb 6 1") (auto simp: ok_result_def)
  have "sc_ProjectID (ProjectScope 10) \<in> set (projectIDs ex_gdb 1)" using ex_gdb_facts(3) by (simp add: ProjectScope_def)
  then show ?thesis
    using AddGroupMembers_no_escalation [OF ex_gdb_wf New_wf ex_coherent _ run ex_gdb_facts(1) d, of "ProjectScope 10"] d by (auto simp: ex_cx_def)
qed

section \<open>The constraints of the tables\<close>

lemma adb_wf_groups:
  assumes "adb_wf db" "distinct (map gr_ID gs)" "distinct (map (\<lambda>m. (gm_Group m, gm_User m)) ms)" "\<And>m t. m \<in> set ms \<Longrightarrow> gm_Expires m = Some t \<Longrightarrow> 0 < t"
  shows "adb_wf (db\<lparr> db_groups := gs, db_group_members := ms \<rparr>)"
  using assms unfolding adb_wf_def by simp

lemma adb_wf_groupsD:
  assumes "adb_wf db"
  shows "distinct (map gr_ID (db_groups db))" "distinct (map (\<lambda>m. (gm_Group m, gm_User m)) (db_group_members db))" "m \<in> set (db_group_members db) \<Longrightarrow> gm_Expires m = Some t \<Longrightarrow> 0 < t"
  using assms unfolding adb_wf_def by blast+

lemma audit_wf [simp]: "adb_wf (access_audit g actor action typ i project impact db) = adb_wf db"
  by (rule adb_wf_tables) simp_all

lemma wf_groups_only: "adb_wf db \<Longrightarrow> distinct (map gr_ID gs) \<Longrightarrow> adb_wf (db\<lparr> db_groups := gs \<rparr>)"
  using adb_wf_groups [of db gs "db_group_members db"] adb_wf_groupsD by fastforce

lemma wf_members_only: "adb_wf db \<Longrightarrow> distinct (map (\<lambda>m. (gm_Group m, gm_User m)) ms) \<Longrightarrow> (\<And>m t. m \<in> set ms \<Longrightarrow> gm_Expires m = Some t \<Longrightarrow> 0 < t) \<Longrightarrow>
    adb_wf (db\<lparr> db_group_members := ms \<rparr>)"
  using adb_wf_groups [of db "db_groups db" ms] adb_wf_groupsD(1) by fastforce

lemma map_sum_Inr: "map_sum id (\<lambda>d. (d, x)) r = Inr (v, y) \<Longrightarrow> y = x"
  by (cases r) simp_all

lemma create_group_wf:
  assumes "adb_wf db" "create_group_tx cx actor g gi db = Inr (v, db1)"
  shows "adb_wf db1"
proof -
  let ?r = "\<lparr> gr_ID = cx_new cx, gr_Org = g, gr_Slug = gi_Slug gi, gr_Name = strings_TrimSpace (text_or [] (gi_Name gi)),
    gr_Description = text_or [] (gi_Description gi), gr_Archived = None \<rparr>"
  have new: "cx_new cx \<notin> gr_ID ` set (db_groups db)" using assms(2) by (auto simp: create_group_tx_def list_ex_iff split: if_splits)
  have "db1 = access_audit g actor ''access.group.created'' ''group'' (cx_new cx) None 0 (db\<lparr> db_groups := db_groups db @ [?r] \<rparr>)"
    using assms(2) by (auto simp: create_group_tx_def Let_def dest: map_sum_Inr split: if_splits)
  moreover have "adb_wf (db\<lparr> db_groups := db_groups db @ [?r] \<rparr>)" by (rule wf_groups_only [OF assms(1)]) (use new adb_wf_groupsD(1) [OF assms(1)] in simp)
  ultimately show ?thesis by simp
qed

lemma groups_map_wf: "adb_wf db \<Longrightarrow> (\<And>x. gr_ID (f x) = gr_ID x) \<Longrightarrow> adb_wf (db\<lparr> db_groups := map f (db_groups db) \<rparr>)"
  by (rule wf_groups_only) (simp_all add: comp_def adb_wf_groupsD(1))

lemma update_group_wf:
  assumes "adb_wf db" "update_group_tx actor g i r name desc db = Inr (v, db1)"
  shows "adb_wf db1"
proof -
  let ?db1 = "db\<lparr> db_groups := map (\<lambda>x. if gr_ID x = i \<and> gr_Org x = g then x\<lparr> gr_Name := name, gr_Description := desc \<rparr> else x) (db_groups db) \<rparr>"
  have "adb_wf ?db1" by (rule groups_map_wf [OF assms(1)]) simp
  moreover have "db1 = ?db1 \<or> (\<exists>action. db1 = access_audit g actor action ''group'' i None 0 ?db1)"
    using assms(2) unfolding update_group_tx_def Let_def by (auto dest: map_sum_Inr split: if_splits)
  ultimately show ?thesis by auto
qed

lemma archive_group_wf:
  assumes "adb_wf db" "archive_group_tx cx actor g i d db = Inr (v, db1)"
  shows "adb_wf db1"
proof -
  have "adb_wf (db\<lparr> db_groups := map (\<lambda>x. if gr_ID x = i \<and> gr_Org x = g \<and> gr_Archived x = None then x\<lparr> gr_Archived := Some (cx_now cx) \<rparr> else x) (db_groups db) \<rparr>)"
    by (rule groups_map_wf [OF assms(1)]) simp
  then show ?thesis using assms unfolding archive_group_tx_def by (auto split: if_splits)
qed

lemma upsert_member_wf:
  assumes "adb_wf db" "\<And>t. x = Some t \<Longrightarrow> 0 < t"
  shows "adb_wf (upsert_member cx i x u db)"
proof -
  let ?f = "\<lambda>m. if gm_Group m = i \<and> gm_User m = u then m\<lparr> gm_Expires := x \<rparr> else m"
  have keys: "map (\<lambda>m. (gm_Group m, gm_User m)) (map ?f (db_group_members db)) = map (\<lambda>m. (gm_Group m, gm_User m)) (db_group_members db)" by simp
  have 1: "adb_wf (db\<lparr> db_group_members := map ?f (db_group_members db) \<rparr>)"
  proof (rule wf_members_only [OF assms(1)])
    show "distinct (map (\<lambda>m. (gm_Group m, gm_User m)) (map ?f (db_group_members db)))" unfolding keys by (rule adb_wf_groupsD(2) [OF assms(1)])
  qed (use adb_wf_groupsD(3) [OF assms(1)] assms(2) in \<open>auto split: if_splits\<close>)
  have 2: "adb_wf (db\<lparr> db_group_members := db_group_members db @ [\<lparr> gm_Group = i, gm_User = u, gm_Expires = x, gm_AddedAt = cx_now cx \<rparr>] \<rparr>)"
    if "\<not> list_ex (\<lambda>m. gm_Group m = i \<and> gm_User m = u) (db_group_members db)"
    by (intro wf_members_only [OF assms(1)]) (use that adb_wf_groupsD [OF assms(1)] assms(2) in \<open>auto simp: list_ex_iff\<close>)
  show ?thesis unfolding upsert_member_def using 1 2 by (simp split: if_splits)
qed

lemma add_members_wf: "adb_wf db \<Longrightarrow> (\<And>t. x = Some t \<Longrightarrow> 0 < t) \<Longrightarrow> add_members cx actor g i x us db = Inr db1 \<Longrightarrow> adb_wf db1"
proof (induction us arbitrary: db)
  case (Cons u us)
  let ?db1 = "access_audit g actor ''access.group_member.added'' ''group_member'' i None 1 (upsert_member cx i x u db)"
  have "adb_wf ?db1" using upsert_member_wf [OF Cons.prems(1,2)] by simp
  then show ?case using Cons.IH [of ?db1] Cons.prems(2,3) by (auto split: if_splits)
qed simp

lemma add_members_tx_wf:
  assumes "adb_wf db" "add_members_tx cx actor g i am db = Inr (v, db1)" "\<And>t. am_Expires am = Some t \<Longrightarrow> 0 < t"
  shows "adb_wf db1"
proof -
  have "add_members cx actor g i (am_Expires am) (dedup [] (am_UserIDs am)) db = Inr db1"
    using assms(2) by (cases "add_members cx actor g i (am_Expires am) (dedup [] (am_UserIDs am)) db") (auto simp: add_members_tx_def Let_def split: option.splits if_splits)
  then show ?thesis using add_members_wf [OF assms(1,3)] by blast
qed

lemma remove_member_wf:
  assumes "adb_wf db" "remove_member_tx actor g i user db = Inr (v, db1)"
  shows "adb_wf db1"
proof -
  have "adb_wf (db\<lparr> db_group_members := filter (\<lambda>m. \<not> (gm_Group m = i \<and> gm_User m = user)) (db_group_members db) \<rparr>)"
    by (rule wf_members_only [OF assms(1)]) (use adb_wf_groupsD [OF assms(1)] distinct_map_filter in auto)
  then show ?thesis using assms(2) unfolding remove_member_tx_def by (auto split: if_splits)
qed

end
