(* ===== verification/Access_Perms.thy ===== *)
theory Access_Perms
  imports Access_Admin
begin

text \<open>
  The validation of permission lists (\<^verbatim>\<open>internal/access/perms.go\<close>): which lists \<^verbatim>\<open>ValidatePermissions\<close> accepts and what it
  returns for them.
\<close>

section \<open>The loop\<close>

lemma gomap_set_not_Nil: "gomap_set k v m \<noteq> []"
  using gomap_get_set [of k v m k] by auto

lemma ids_format: "list_all (\<lambda>p. CHR ''*'' \<notin> set p \<and> permFormatRE p) ids"
  unfolding ids_eval by (simp add: permFormatRE_def perm_word_def lower_def slug_char_def less_eq_char_def)

lemma Get_format: "Get p = Some c \<Longrightarrow> CHR ''*'' \<notin> set p \<and> permFormatRE p"
  using ids_format by (auto simp: Get_iff list_all_length)

definition in_scope :: "Scope \<Rightarrow> string \<Rightarrow> bool" where
  "in_scope want p = (case Get p of None \<Rightarrow> False | Some c \<Rightarrow> Perm_HasScope c want)"

definition clean :: "vp_state \<Rightarrow> bool" where
  "clean s \<longleftrightarrow> vp_fields s = [] \<and> vp_unknown s = [] \<and> vp_outOf s = []"

lemma vp_step_clean: "clean (vp_step field want s p) \<longleftrightarrow> clean s \<and> in_scope want p"
  using Get_format [of p] by (auto simp: vp_step_def clean_def in_scope_def gomap_set_not_Nil split: option.splits)

lemma vp_step_set: "in_scope want p \<Longrightarrow> vp_set (vp_step field want s p) = Add (vp_set s) p"
  using Get_format [of p] by (auto simp: vp_step_def in_scope_def split: option.splits)

lemma vp_fold:
  "clean (foldl (vp_step field want) s qs) \<longleftrightarrow> clean s \<and> list_all (in_scope want) qs"
  "list_all (in_scope want) qs \<Longrightarrow> vp_set (foldl (vp_step field want) s qs) = foldl Add (vp_set s) qs"
  by (induction qs arbitrary: s) (auto simp: vp_step_clean vp_step_set)

lemma HasBit_foldl_Add: "HasBit (foldl Add s qs) b \<longleftrightarrow> HasBit s b \<or> HasBit (NewSet qs) b"
  by (induction qs arbitrary: s) (auto simp: Add_NewSet pset_simps)

lemma foldl_Add: "foldl Add empty_set qs = NewSet qs"
  by (rule pset_eqI) (simp add: HasBit_foldl_Add HasBit_empty)

lemma set_dedup: "set (dedup seen ps) = set ps - set seen"
  by (induction seen ps rule: dedup.induct) auto

lemma missing_closed:
  assumes "list_all (in_scope want) ps"
  shows "missingDependencies (NewSet ps) = [] \<longleftrightarrow> list_all (\<lambda>p. case Get p of None \<Rightarrow> False | Some c \<Rightarrow> set (Requires c) \<subseteq> set ps) ps"
proof -
  have known: "\<exists>b < 99. ids ! b = p" if "p \<in> set ps" for p
    using assms that by (auto simp: list_all_iff in_scope_def Get_iff split: option.splits)
  have has: "Set_Has (NewSet ps) r \<longleftrightarrow> r \<in> set ps" if "\<exists>b < 99. ids ! b = r" for r
    using that by (auto simp: Set_Has_iff HasBit_NewSet)
  have req: "\<exists>b' < 99. ids ! b' = r" if b: "b < 99" and r: "r \<in> set (Requires (perms ! b))" for b r
  proof -
    obtain b' where b': "b' \<in> set (require_bits ! b)" "ids ! b' = r" using r Requires_nth [OF b] by auto
    moreover have "require_bits ! b \<in> set require_bits" by (rule nth_mem) (simp add: b)
    ultimately show ?thesis using require_bits_bound by blast
  qed
  have ids: "set (IDs (NewSet ps)) = set ps" using known by (auto simp: set_IDs HasBit_NewSet)
  have "missingDependencies (NewSet ps) = [] \<longleftrightarrow> (\<forall>p \<in> set ps. case Get p of None \<Rightarrow> True | Some c \<Rightarrow> \<forall>r \<in> set (Requires c). Set_Has (NewSet ps) r)"
  proof -
    have "sort xs = [] \<longleftrightarrow> xs = []" for xs :: "string list" by (metis length_0_conv length_sort)
    then show ?thesis by (auto simp: missingDependencies_def ids filter_empty_conv split: option.splits)
  qed
  also have "\<dots> \<longleftrightarrow> (\<forall>p \<in> set ps. case Get p of None \<Rightarrow> False | Some c \<Rightarrow> set (Requires c) \<subseteq> set ps)"
  proof (rule ball_cong [OF HOL.refl])
    fix p assume "p \<in> set ps"
    then obtain b where b: "b < 99" "ids ! b = p" using known by blast
    then show "(case Get p of None \<Rightarrow> True | Some c \<Rightarrow> \<forall>r \<in> set (Requires c). Set_Has (NewSet ps) r) \<longleftrightarrow> (case Get p of None \<Rightarrow> False | Some c \<Rightarrow> set (Requires c) \<subseteq> set ps)"
      using req [OF b(1)] has Get_nth [OF b(1)] by (auto simp: b(2))
  qed
  finally show ?thesis by (simp add: list_all_iff)
qed

text \<open>
  C34 (functional). \<^verbatim>\<open>ValidatePermissions\<close> accepts a list exactly when every entry is a permission of the catalog that may be
  granted at the scope and the list has every permission its entries depend on; it then returns the set of the list and
  its ids in the order of the catalog, whatever the order and the repetitions of the list.
\<close>

theorem ValidatePermissions_exact:
  "ValidatePermissions field kind ps = Inr (st, is) \<longleftrightarrow>
     list_all (\<lambda>p. case Get p of None \<Rightarrow> False | Some c \<Rightarrow> Perm_HasScope c (permScope kind) \<and> set (Requires c) \<subseteq> set ps) ps \<and>
     st = NewSet ps \<and> is = IDs (NewSet ps)"
proof -
  let ?init = "\<lparr> vp_fields = [], vp_unknown = [], vp_outOf = [], vp_set = empty_set \<rparr>"
  let ?s = "foldl (vp_step field (permScope kind)) ?init (dedup [] ps)"
  have dd: "set (dedup [] ps) = set ps" by (simp add: set_dedup)
  then have all: "list_all P (dedup [] ps) = list_all P ps" for P by (simp add: list_all_iff)
  have cl: "clean ?s \<longleftrightarrow> list_all (in_scope (permScope kind)) ps" by (simp add: vp_fold(1) all) (simp add: clean_def)
  have st: "vp_set ?s = NewSet ps" if "list_all (in_scope (permScope kind)) ps"
    using vp_fold(2) [where s = ?init and qs = "dedup [] ps" and field = field and want = "permScope kind"] that NewSet_cong [OF dd] by (simp add: all foldl_Add)
  have "ValidatePermissions field kind ps = Inr (st, is) \<longleftrightarrow> clean ?s \<and> missingDependencies (vp_set ?s) = [] \<and> st = vp_set ?s \<and> is = IDs (vp_set ?s)"
    by (auto simp: ValidatePermissions_def clean_def Let_def)
  also have "\<dots> \<longleftrightarrow> list_all (in_scope (permScope kind)) ps \<and> missingDependencies (NewSet ps) = [] \<and> st = NewSet ps \<and> is = IDs (NewSet ps)"
    using cl st by auto
  also have "\<dots> \<longleftrightarrow> list_all (\<lambda>p. case Get p of None \<Rightarrow> False | Some c \<Rightarrow> Perm_HasScope c (permScope kind) \<and> set (Requires c) \<subseteq> set ps) ps \<and> st = NewSet ps \<and> is = IDs (NewSet ps)"
  proof -
    have "list_all (\<lambda>p. case Get p of None \<Rightarrow> False | Some c \<Rightarrow> Perm_HasScope c (permScope kind) \<and> set (Requires c) \<subseteq> set ps) ps \<longleftrightarrow>
        list_all (in_scope (permScope kind)) ps \<and> list_all (\<lambda>p. case Get p of None \<Rightarrow> False | Some c \<Rightarrow> set (Requires c) \<subseteq> set ps) ps"
      by (simp add: list_all_iff in_scope_def ball_conj_distrib [symmetric]) (auto split: option.splits)
    then show ?thesis using missing_closed [of "permScope kind" ps] by blast
  qed
  finally show ?thesis .
qed

end
