(* ===== verification/Access_Templates.thy ===== *)
theory Access_Templates
  imports Access_Groups Access_Perms
begin

text \<open>
  Role templates (\<^verbatim>\<open>internal/access/templates.go\<close>): reading them, creating or cloning one, publishing a version and deleting
  one. Of the answers, the references to users and the sample of affected users are left out, and so is the instant a version
  was created.
\<close>

section \<open>Reading\<close>

record TemplateInput =
  ti_Kind :: string
  ti_Slug :: string
  ti_Name :: string
  ti_Description :: string
  ti_Permissions :: "string list"
  ti_Ceiling :: "string list option"
  ti_FloorTemplate :: "string option"
  ti_BaseTemplate :: "string option"
  ti_ClonedFrom :: "uuid option"
  ti_Note :: string

definition templateSlugs :: "ADB \<Rightarrow> uuid option list \<Rightarrow> (uuid, string) gomap" where
  "templateSlugs db is = List.map_filter (\<lambda>t. if Some (rt_ID t) \<in> set is then Some (rt_ID t, rt_Slug t) else None) (db_templates db)"

definition templateUsage :: "ADB \<Rightarrow> uuid \<Rightarrow> uuid \<Rightarrow> Usage" where
  "templateUsage db g i =
     (let rows = filter (\<lambda>r. as_Org r = g \<and> as_Template r = i \<and> as_Revoked r = None) (db_assignments db) in
      \<lparr> ug_Users = int (length (remdups (map as_SubjectID (filter (\<lambda>r. as_SubjectType r = ''user'') rows)))) +
            int (length (filter (\<lambda>m. om_Org m = g \<and> om_Template m = Some i) (db_members db))),
        ug_Groups = int (length (remdups (map as_SubjectID (filter (\<lambda>r. as_SubjectType r = ''group'') rows)))),
        ug_Projects = int (length (remdups (map as_ScopeID (filter (\<lambda>r. as_ScopeType r \<in> {''project'', ''repo''}) rows)))) \<rparr>)"

definition templateDTO :: "TemplateRow \<Rightarrow> VersionRow \<Rightarrow> Usage \<Rightarrow> (uuid, string) gomap \<Rightarrow> TemplateDTO" where
  "templateDTO h v usage slugs = \<lparr> td_Head = h, td_Ver = v,
     td_FloorTemplate = (case rv_Floor v of None \<Rightarrow> None | Some i \<Rightarrow> gomap_get slugs i),
     td_BaseTemplate = (case rv_Base v of None \<Rightarrow> None | Some i \<Rightarrow> gomap_get slugs i),
     td_Unknown = snd (ParseSet (rv_Permissions v)), td_Usage = usage \<rparr>"

definition buildDTO :: "ADB \<Rightarrow> uuid \<Rightarrow> TemplateRow \<Rightarrow> VersionRow \<Rightarrow> TemplateDTO" where
  "buildDTO db g h v = templateDTO h v (templateUsage db g (rt_ID h)) (templateSlugs db [rv_Floor v, rv_Base v])"

definition ListTemplates :: "Ctx \<Rightarrow> ADB \<Rightarrow> uuid \<Rightarrow> uuid \<Rightarrow> string \<Rightarrow> bool \<Rightarrow> TemplateDTO list astep" where
  "ListTemplates cx db actor g kind includeArchived =
     andThen (require cx db actor g OrgScope [''template:read''])
       (\<lambda>_. if kind \<noteq> [] \<and> kind \<noteq> ''org'' \<and> kind \<noteq> ''project'' \<and> kind \<noteq> ''repo'' then fail (validationField ''kind'' ''must be org, project or repo'')
             else
               let heads = sort_key (\<lambda>t. if rt_System t then 0 else (1::nat)) (sort_key rt_Kind (sort_key rt_Slug
                     (filter (\<lambda>t. (rt_Org t = Some g \<or> rt_System t) \<and> (kind = [] \<or> rt_Kind t = kind) \<and> (includeArchived \<or> rt_Archived t = None)) (db_templates db))));
                   rows = List.map_filter (\<lambda>t. map_option (Pair t) (find (\<lambda>v. rv_Template v = rt_ID t \<and> rv_Version v = rt_Current t) (db_versions db))) heads;
                   slugs = templateSlugs db (concat (map (\<lambda>(h, v). [rv_Floor v, rv_Base v]) rows))
               in pure (map (\<lambda>(h, v). templateDTO h v (templateUsage db g (rt_ID h)) slugs) rows))"

definition GetTemplate :: "Ctx \<Rightarrow> ADB \<Rightarrow> uuid \<Rightarrow> uuid \<Rightarrow> uuid \<Rightarrow> TemplateDTO astep" where
  "GetTemplate cx db actor g i =
     andThen (require cx db actor g OrgScope [''template:read''])
       (\<lambda>_. case loadHead db g i of
              Inl x \<Rightarrow> fail (access_Normalize x)
            | Inr h \<Rightarrow> (case loadVer db i 0 of Inl x \<Rightarrow> fail (access_Normalize x) | Inr v \<Rightarrow> pure (buildDTO db g h v)))"

definition ListTemplateVersions :: "Ctx \<Rightarrow> ADB \<Rightarrow> uuid \<Rightarrow> uuid \<Rightarrow> uuid \<Rightarrow> VersionRow list astep" where
  "ListTemplateVersions cx db actor g i =
     andThen (require cx db actor g OrgScope [''template:read''])
       (\<lambda>_. case loadHead db g i of
              Inl x \<Rightarrow> fail (access_Normalize x)
            | Inr _ \<Rightarrow> pure (rev (sort_key rv_Version (filter (\<lambda>v. rv_Template v = i) (db_versions db)))))"

record TemplateDiff =
  df_Added :: "string list"
  df_Removed :: "string list"

definition DiffTemplateVersions :: "Ctx \<Rightarrow> ADB \<Rightarrow> uuid \<Rightarrow> uuid \<Rightarrow> uuid \<Rightarrow> int \<Rightarrow> int \<Rightarrow> TemplateDiff astep" where
  "DiffTemplateVersions cx db actor g i from_v to_v =
     andThen (require cx db actor g OrgScope [''template:read''])
       (\<lambda>_. case loadHead db g i of
              Inl x \<Rightarrow> fail (access_Normalize x)
            | Inr _ \<Rightarrow>
                if from_v < 1 \<or> to_v < 1 then fail (notFound ''version not found'')
                else
                  (case (loadVer db i from_v, loadVer db i to_v) of
                     (Inr a, Inr b) \<Rightarrow>
                       let sa = NewSet (rv_Permissions a); sb = NewSet (rv_Permissions b)
                       in pure \<lparr> df_Added = setDiff sb sa, df_Removed = setDiff sa sb \<rparr>
                   | _ \<Rightarrow> fail (notFound ''version not found'')))"

section \<open>Validation shared by create and publish\<close>

record preparedTemplate =
  pt_Perms :: pset
  pt_PermIDs :: "string list"
  pt_Ceiling :: "string list option"
  pt_FloorID :: "uuid option"
  pt_BaseID :: "uuid option"
  pt_FloorSet :: pset
  pt_BaseSet :: pset
  pt_Name :: string
  pt_Description :: string
  pt_Note :: string
  pt_baselinePerms :: pset
  pt_baselineFloor :: pset
  pt_baselineBase :: pset
  pt_baselineFloorI :: "uuid option"
  pt_baselineBaseI :: "uuid option"

fun ceiling_loop :: "pset \<Rightarrow> string list \<Rightarrow> string list \<Rightarrow> aerr + pset \<times> string list" where
  "ceiling_loop st unknown [] = Inr (st, unknown)"
| "ceiling_loop st unknown (p # ps) =
     (if CHR ''*'' \<in> set p then Inl (validationField ''ceiling'' ''wildcards are only allowed in system templates'')
      else if \<not> Has p then ceiling_loop st (unknown @ [p]) ps
      else ceiling_loop (Add st p) unknown ps)"

definition validateCeiling :: "string list \<Rightarrow> aerr + string list" where
  "validateCeiling list =
     (case ceiling_loop empty_set [] list of
        Inl x \<Rightarrow> Inl x
      | Inr (st, unknown) \<Rightarrow>
          if unknown \<noteq> [] then Inl (validationDetails ''invalid ceiling''
            [(''fields'', DFields [(''ceiling'', ''unknown permissions'')]), (''unknown_permissions'', DList (sort unknown))])
          else Inr (IDs st))"

text \<open>Floor and base are project templates; an organization's own template shadows a system one of the same slug.\<close>

definition resolve_part :: "ADB \<Rightarrow> uuid \<Rightarrow> string \<Rightarrow> string \<Rightarrow> string option \<Rightarrow> aerr + uuid option \<times> pset" where
  "resolve_part db g kind field slug =
     (if slug = None \<or> slug = Some [] then Inr (None, empty_set)
      else if kind \<noteq> ''org'' then Inl (validationField field ''only organization templates have a floor and a base'')
      else
        (case find (\<lambda>t. rt_Kind t = ''project'' \<and> Some (rt_Slug t) = slug \<and> (rt_Org t = Some g \<or> rt_System t))
            (filter (\<lambda>t. \<not> rt_System t) (db_templates db) @ filter rt_System (db_templates db)) of
           None \<Rightarrow> Inl (validationField field ''no such project template'')
         | Some t \<Rightarrow>
             if rt_Archived t \<noteq> None then Inl (validationField field ''no such project template'')
             else (case loadVer db (rt_ID t) 0 of Inl x \<Rightarrow> Inl x | Inr v \<Rightarrow> Inr (Some (rt_ID t), NewSet (rv_Permissions v)))))"

definition baseline_part :: "ADB \<Rightarrow> uuid option \<Rightarrow> pset" where
  "baseline_part db i = (case i of None \<Rightarrow> empty_set | Some i \<Rightarrow> (case loadVer db i 0 of Inl _ \<Rightarrow> empty_set | Inr v \<Rightarrow> NewSet (rv_Permissions v)))"

definition template_fields :: "TemplateInput \<Rightarrow> (string \<times> string) list" where
  "template_fields ti = bad_name (strings_TrimSpace (ti_Name ti)) @ bad_description (ti_Description ti) @
     (if length (ti_Note ti) > 300 then [(''note'', ''at most 300 characters'')] else [])"

definition prepare_ceiling :: "string \<Rightarrow> TemplateInput \<Rightarrow> aerr + string list option" where
  "prepare_ceiling kind ti =
     (case ti_Ceiling ti of
        None \<Rightarrow> Inr None
      | Some c \<Rightarrow> if kind \<noteq> ''org'' then Inl (validationField ''ceiling'' ''only organization templates have a ceiling'') else map_sum id Some (validateCeiling c))"

definition prepareTemplate :: "ADB \<Rightarrow> uuid \<Rightarrow> string \<Rightarrow> TemplateInput \<Rightarrow> VersionRow option \<Rightarrow> aerr + preparedTemplate" where
  "prepareTemplate db g kind ti base =
     (if int (length (ti_Permissions ti)) > MaxPermsPerTemplate then Inl (limitErr ''a template has at most 200 permissions'')
      else if template_fields ti \<noteq> [] then Inl (validation (template_fields ti))
      else if ti_Permissions ti = [] \<and> base = None then Inl (validationField ''permissions'' ''at least one permission is required'')
      else
        let ps = (if ti_Permissions ti = [] then (case base of None \<Rightarrow> [] | Some v \<Rightarrow> rv_Permissions v) else ti_Permissions ti) in
        (case ValidatePermissions ''permissions'' kind ps of
           Inl x \<Rightarrow> Inl x
         | Inr (st, is) \<Rightarrow>
             (case prepare_ceiling kind ti of
                Inl x \<Rightarrow> Inl x
              | Inr ceil \<Rightarrow>
                  (case resolve_part db g kind ''floor_template'' (ti_FloorTemplate ti) of
                     Inl x \<Rightarrow> Inl x
                   | Inr (fid, fset) \<Rightarrow>
                       (case resolve_part db g kind ''base_template'' (ti_BaseTemplate ti) of
                          Inl x \<Rightarrow> Inl x
                        | Inr (bid, bset) \<Rightarrow>
                            let old = (\<lambda>f. case base of None \<Rightarrow> None | Some v \<Rightarrow> f v) in
                            Inr \<lparr> pt_Perms = st, pt_PermIDs = is, pt_Ceiling = ceil, pt_FloorID = fid, pt_BaseID = bid, pt_FloorSet = fset, pt_BaseSet = bset,
                                  pt_Name = strings_TrimSpace (ti_Name ti), pt_Description = ti_Description ti, pt_Note = ti_Note ti,
                                  pt_baselinePerms = (case base of None \<Rightarrow> empty_set | Some v \<Rightarrow> NewSet (rv_Permissions v)),
                                  pt_baselineFloor = baseline_part db (old rv_Floor), pt_baselineBase = baseline_part db (old rv_Base),
                                  pt_baselineFloorI = old rv_Floor, pt_baselineBaseI = old rv_Base \<rparr>)))))"

text \<open>What a save adds for the projects through a floor or a base that is another template than before.\<close>

definition part_added :: "uuid option \<Rightarrow> uuid option \<Rightarrow> pset \<Rightarrow> pset \<Rightarrow> pset" where
  "part_added i old now_set old_set = (if i \<noteq> None \<and> old \<noteq> i then Minus now_set old_set else empty_set)"

definition checkNoEscalation :: "Ctx \<Rightarrow> ADB \<Rightarrow> uuid \<Rightarrow> uuid \<Rightarrow> string \<Rightarrow> pset \<Rightarrow> preparedTemplate \<Rightarrow> unit astep" where
  "checkNoEscalation cx db actor g kind orgSet p =
     (if isOwner cx db g actor then pure ()
      else
        let added = Minus (pt_Perms p) (pt_baselinePerms p);
            parts = Union (part_added (pt_FloorID p) (pt_baselineFloorI p) (pt_FloorSet p) (pt_baselineFloor p))
              (part_added (pt_BaseID p) (pt_baselineBaseI p) (pt_BaseSet p) (pt_baselineBase p));
            missing = (if kind = ''org'' then Minus added orgSet else empty_set);
            projAdded = (if kind = ''org'' then parts else Union parts added)
        in andThen (if IsEmpty projAdded then pure missing
                    else andThen (projectCaps cx db actor g) (\<lambda>caps. pure (Union missing (Minus projAdded caps))))
             (\<lambda>missing. if IsEmpty missing then pure ()
                        else fail (escalation ''a template save can only add permissions you hold yourself'' (IDs missing) [])))"

section \<open>Create and clone\<close>

definition dec_template :: "json \<Rightarrow> TemplateDTO option" where
  "dec_template j = (case j of JTemplate d \<Rightarrow> Some d | _ \<Rightarrow> None)"

definition new_fields :: "TemplateInput \<Rightarrow> (string \<times> string) list" where
  "new_fields ti =
     (if ti_Kind ti \<noteq> ''org'' \<and> ti_Kind ti \<noteq> ''project'' \<and> ti_Kind ti \<noteq> ''repo'' then [(''kind'', ''must be org, project or repo'')] else []) @
     (if \<not> slugRE (ti_Slug ti) then [(''slug'', ''lowercase letters, digits and hyphens, 1 to 40 characters'')] else [])"

definition inherited_slug :: "ADB \<Rightarrow> string option \<Rightarrow> uuid option \<Rightarrow> string option" where
  "inherited_slug db given i =
     (case (given, i) of (None, Some j) \<Rightarrow> Some (case gomap_get (templateSlugs db [i]) j of None \<Rightarrow> [] | Some s \<Rightarrow> s) | _ \<Rightarrow> given)"

definition cloned_input :: "ADB \<Rightarrow> uuid \<Rightarrow> TemplateInput \<Rightarrow> aerr + TemplateInput \<times> VersionRow option" where
  "cloned_input db g ti =
     (case ti_ClonedFrom ti of
        None \<Rightarrow> Inr (ti, None)
      | Some src \<Rightarrow>
          (case loadHead db g src of
             Inl _ \<Rightarrow> Inl (validationField ''cloned_from'' ''no such template'')
           | Inr sh \<Rightarrow>
               if rt_Kind sh \<noteq> ti_Kind ti then Inl (validationField ''kind'' (''a clone has the kind of its source ('' @ rt_Kind sh @ '')''))
               else
                 (case loadVer db (rt_ID sh) 0 of
                    Inl _ \<Rightarrow> Inl (validationField ''cloned_from'' ''no such template'')
                  | Inr v \<Rightarrow> Inr (ti\<lparr> ti_FloorTemplate := inherited_slug db (ti_FloorTemplate ti) (rv_Floor v),
                      ti_BaseTemplate := inherited_slug db (ti_BaseTemplate ti) (rv_Base v),
                      ti_Ceiling := (if ti_Ceiling ti = None then rv_Ceiling v else ti_Ceiling ti) \<rparr>, Some v))))"

definition prepared_version :: "uuid \<Rightarrow> int \<Rightarrow> preparedTemplate \<Rightarrow> VersionRow" where
  "prepared_version i n p = \<lparr> rv_Template = i, rv_Version = n, rv_Permissions = pt_PermIDs p, rv_Ceiling = pt_Ceiling p, rv_CeilingProject = None,
     rv_Floor = pt_FloorID p, rv_Base = pt_BaseID p, rv_Note = pt_Note p \<rparr>"

definition create_template_tx :: "Ctx \<Rightarrow> uuid \<Rightarrow> uuid \<Rightarrow> TemplateInput \<Rightarrow> preparedTemplate \<Rightarrow> ADB \<Rightarrow> aerr + TemplateDTO \<times> ADB" where
  "create_template_tx cx actor g ti p db =
     (if int (length (filter (\<lambda>t. rt_Org t = Some g) (db_templates db))) \<ge> MaxTemplatesPerOrg then Inl (limitErr ''an organization has at most 200 templates'')
      else if list_ex (\<lambda>t. rt_System t \<and> rt_Kind t = ti_Kind ti \<and> rt_Slug t = ti_Slug ti) (db_templates db)
      then Inl (validationField ''slug'' ''slug is reserved by a system template'')
      else if list_ex (\<lambda>t. rt_ID t = cx_new cx \<or> (rt_Org t = Some g \<and> rt_Kind t = ti_Kind ti \<and> rt_Slug t = ti_Slug ti)) (db_templates db)
      then Inl (conflict ''DUPLICATE'' ''a template with that slug already exists'')
      else
        let h = \<lparr> rt_ID = cx_new cx, rt_Org = Some g, rt_Kind = ti_Kind ti, rt_Slug = ti_Slug ti, rt_Name = pt_Name p, rt_Description = pt_Description p,
                  rt_ClonedFrom = ti_ClonedFrom ti, rt_System = False, rt_Current = 1, rt_Archived = None \<rparr>;
            db1 = db\<lparr> db_templates := db_templates db @ [h], db_versions := db_versions db @ [prepared_version (rt_ID h) 1 p] \<rparr>;
            db2 = access_audit g actor (if ti_ClonedFrom ti = None then ''access.template.created'' else ''access.template.cloned'') ''template'' (rt_ID h) None 0 db1
        in (case loadVer db2 (rt_ID h) 0 of Inl x \<Rightarrow> Inl x | Inr v \<Rightarrow> Inr (buildDTO db2 g h v, db2)))"

definition create_template_guard :: "Ctx \<Rightarrow> ADB \<Rightarrow> uuid \<Rightarrow> uuid \<Rightarrow> TemplateInput \<Rightarrow> (TemplateInput \<times> preparedTemplate) astep" where
  "create_template_guard cx db actor g ti =
     andThen (require cx db actor g OrgScope [''template:manage''])
       (\<lambda>orgSet. if new_fields ti \<noteq> [] then fail (validation (new_fields ti))
          else case cloned_input db g ti of
                 Inl x \<Rightarrow> fail x
               | Inr (ti', base) \<Rightarrow>
                   (case prepareTemplate db g (ti_Kind ti') ti' base of
                      Inl x \<Rightarrow> fail x
                    | Inr p \<Rightarrow> andThen (checkNoEscalation cx db actor g (ti_Kind ti') orgSet p) (\<lambda>_. pure (ti', p))))"

definition CreateTemplate :: "Ctx \<Rightarrow> uuid \<Rightarrow> uuid \<Rightarrow> TemplateInput \<Rightarrow> Idem option \<Rightarrow> ADB \<Rightarrow> Engine \<Rightarrow> (aerr + TemplateDTO Reply) \<times> ADB \<times> Engine" where
  "CreateTemplate cx actor g ti idem db e =
     (case create_template_guard cx db actor g ti e of
        (Inl x, e') \<Rightarrow> (Inl x, db, e')
      | (Inr (ti', p), e') \<Rightarrow> doWrite cx g actor idem 201 JTemplate dec_template (create_template_tx cx actor g ti' p) db e')"

section \<open>Impact\<close>

definition unexpired :: "Ctx \<Rightarrow> time option \<Rightarrow> bool" where
  "unexpired cx x = (case x of None \<Rightarrow> True | Some t \<Rightarrow> t > cx_now cx)"

definition active_member :: "ADB \<Rightarrow> uuid \<Rightarrow> uuid \<Rightarrow> bool" where
  "active_member db g u = list_ex (\<lambda>m. om_Org m = g \<and> om_User m = u \<and> om_Status m = ''active'') (db_members db)"

definition following :: "Ctx \<Rightarrow> ADB \<Rightarrow> uuid \<Rightarrow> uuid \<Rightarrow> AssignRow list" where
  "following cx db g i = filter (\<lambda>r. as_Org r = g \<and> as_Template r = i \<and> as_Revoked r = None \<and> as_Pinned r = None \<and> unexpired cx (as_Expires r)) (db_assignments db)"

definition followerIDs :: "Ctx \<Rightarrow> ADB \<Rightarrow> uuid \<Rightarrow> uuid \<Rightarrow> uuid list" where
  "followerIDs cx db g i = remdups
     (filter (active_member db g) (map as_SubjectID (filter (\<lambda>r. as_SubjectType r = ''user'') (following cx db g i))) @
      concat (map (\<lambda>r. if as_SubjectType r = ''group'' \<and> list_ex (\<lambda>x. gr_ID x = as_SubjectID r \<and> gr_Archived x = None) (db_groups db)
        then filter (active_member db g) (map gm_User (filter (\<lambda>m. gm_Group m = as_SubjectID r \<and> unexpired cx (gm_Expires m)) (db_group_members db)))
        else []) (following cx db g i)) @
      map om_User (filter (\<lambda>m. om_Org m = g \<and> om_Template m = Some i \<and> om_Version m = None \<and> om_Status m = ''active'') (db_members db)))"

definition affected_groups :: "Ctx \<Rightarrow> ADB \<Rightarrow> uuid \<Rightarrow> uuid \<Rightarrow> uuid list" where
  "affected_groups cx db g i = remdups (map as_SubjectID (filter (\<lambda>r. as_SubjectType r = ''group'' \<and>
     list_ex (\<lambda>x. gr_ID x = as_SubjectID r \<and> gr_Archived x = None) (db_groups db)) (following cx db g i)))"

definition affected_projects :: "Ctx \<Rightarrow> ADB \<Rightarrow> uuid \<Rightarrow> uuid \<Rightarrow> uuid list" where
  "affected_projects cx db g i =
     (let rows = following cx db g i in
      remdups (map as_ScopeID (filter (\<lambda>r. as_ScopeType r \<in> {''project'', ''repo''}) rows) @
        concat (map (\<lambda>r. map ev_Project (filter (\<lambda>e. ev_ID e = as_ScopeID r) (db_environments db))) (filter (\<lambda>r. as_ScopeType r = ''env'') rows)) @
        (if list_ex (\<lambda>r. as_ScopeType r = ''org'') rows then map pj_ID (filter (\<lambda>p. pj_Org p = g \<and> \<not> pj_Deleted p) (db_projects db)) else [])))"

definition sameStrings :: "string list \<Rightarrow> string list \<Rightarrow> bool" where
  "sameStrings a b \<longleftrightarrow> length a = length b \<and> list_all2 (=) (sort a) (sort b)"

definition same_ceiling :: "string list option \<Rightarrow> string list option \<Rightarrow> bool" where
  "same_ceiling a b \<longleftrightarrow> sameStrings (case a of None \<Rightarrow> [] | Some l \<Rightarrow> l) (case b of None \<Rightarrow> [] | Some l \<Rightarrow> l) \<and> (a = None) = (b = None)"

definition zero_Impact :: Impact where
  "zero_Impact = \<lparr> im_Gains = [], im_Loses = [], im_CeilingChanged = False, im_Users = 0, im_Groups = 0, im_Projects = 0 \<rparr>"

definition impactOf :: "Ctx \<Rightarrow> ADB \<Rightarrow> uuid \<Rightarrow> TemplateRow \<Rightarrow> VersionRow \<Rightarrow> preparedTemplate \<Rightarrow> Impact" where
  "impactOf cx db g h v p =
     (let oldAll = Union (Union (NewSet (rv_Permissions v)) (baseline_part db (rv_Floor v))) (baseline_part db (rv_Base v));
          newAll = Union (Union (pt_Perms p) (pt_FloorSet p)) (pt_BaseSet p);
          users = followerIDs cx db g (rt_ID h)
      in \<lparr> im_Gains = setDiff newAll oldAll, im_Loses = setDiff oldAll newAll, im_CeilingChanged = (\<not> same_ceiling (rv_Ceiling v) (pt_Ceiling p)),
           im_Users = int (length users), im_Groups = int (length (affected_groups cx db g (rt_ID h))),
           im_Projects =
             (if rt_Kind h = ''org'' then
                if users \<noteq> [] then int (length (filter (\<lambda>p. pj_Org p = g \<and> \<not> pj_Deleted p) (db_projects db))) else 0
              else int (length (affected_projects cx db g (rt_ID h)))) \<rparr>)"

section \<open>Publish\<close>

definition dec_publish :: "json \<Rightarrow> PublishResult option" where
  "dec_publish j = (case j of JPublish r \<Rightarrow> Some r | _ \<Rightarrow> None)"

definition same_content :: "VersionRow \<Rightarrow> preparedTemplate \<Rightarrow> bool" where
  "same_content c p \<longleftrightarrow> NewSet (rv_Permissions c) = pt_Perms p \<and> same_ceiling (rv_Ceiling c) (pt_Ceiling p) \<and> rv_Floor c = pt_FloorID p \<and> rv_Base c = pt_BaseID p"

definition checkLastGranter :: "ADB \<Rightarrow> uuid \<Rightarrow> TemplateRow \<Rightarrow> preparedTemplate \<Rightarrow> aerr option" where
  "checkLastGranter db g h p =
     (if rt_Kind h \<noteq> ''org'' \<or> Set_Has (pt_Perms p) ''assignment:grant'' then None
      else if list_ex (\<lambda>m. om_Org m = g \<and> om_Status m = ''active'' \<and> list_ex (\<lambda>u. us_ID u = om_User m \<and> us_Status u = ''active'') (db_users db) \<and>
          (case om_Template m of
             None \<Rightarrow> False
           | Some t \<Rightarrow> t \<noteq> rt_ID h \<and>
               (case template_version db (t, pin_of (om_Version m)) of None \<Rightarrow> False | Some (_, v) \<Rightarrow> ''assignment:grant'' \<in> set (rv_Permissions v)))) (db_members db)
      then None
      else Some (conflict ''LAST_GRANTER'' ''this change would leave the organization without anyone able to grant access''))"

definition publish_guard :: "Ctx \<Rightarrow> ADB \<Rightarrow> uuid \<Rightarrow> uuid \<Rightarrow> uuid \<Rightarrow> TemplateInput \<Rightarrow> (TemplateRow \<times> VersionRow \<times> preparedTemplate) astep" where
  "publish_guard cx db actor g i ti =
     andThen (require cx db actor g OrgScope [''template:manage''])
       (\<lambda>orgSet. case loadHead db g i of
            Inl x \<Rightarrow> fail (access_Normalize x)
          | Inr h \<Rightarrow>
              if rt_System h then fail (conflict ''SYSTEM_TEMPLATE'' ''system templates are immutable; clone it instead'')
              else if rt_Archived h \<noteq> None then fail (conflict ''TEMPLATE_ARCHIVED'' ''template is archived'')
              else if ti_Kind ti \<noteq> [] \<and> ti_Kind ti \<noteq> rt_Kind h then fail (validationField ''kind'' ''the kind of a template cannot change'')
              else if ti_Slug ti \<noteq> [] \<and> ti_Slug ti \<noteq> rt_Slug h then fail (validationField ''slug'' ''the slug of a template cannot change'')
              else
                (case loadVer db i 0 of
                   Inl x \<Rightarrow> fail (access_Normalize x)
                 | Inr v \<Rightarrow>
                     (case prepareTemplate db g (rt_Kind h) (if ti_Name ti = [] then ti\<lparr> ti_Name := rt_Name h \<rparr> else ti) (Some v) of
                        Inl x \<Rightarrow> fail x
                      | Inr p \<Rightarrow> andThen (checkNoEscalation cx db actor g (rt_Kind h) orgSet p) (\<lambda>_. pure (h, v, p)))))"

text \<open>The two ways a save ends: the content is the same and at most name and description change, or a version is added.\<close>

definition rename_tx :: "uuid \<Rightarrow> uuid \<Rightarrow> uuid \<Rightarrow> TemplateRow \<Rightarrow> VersionRow \<Rightarrow> preparedTemplate \<Rightarrow> ADB \<Rightarrow> PublishResult \<times> ADB" where
  "rename_tx actor g i hh cc p db =
     (if pt_Name p = rt_Name hh \<and> pt_Description p = rt_Description hh
      then (\<lparr> pr_Published = False, pr_Template = buildDTO db g hh cc, pr_Impact = zero_Impact \<rparr>, db)
      else
        let db1 = db\<lparr> db_templates := map (\<lambda>t. if rt_ID t = i then t\<lparr> rt_Name := pt_Name p, rt_Description := pt_Description p \<rparr> else t) (db_templates db) \<rparr>;
            db2 = access_audit g actor ''access.template.updated'' ''template'' i None 0 db1
        in (\<lparr> pr_Published = False, pr_Template = buildDTO db2 g (hh\<lparr> rt_Name := pt_Name p, rt_Description := pt_Description p \<rparr>) cc, pr_Impact = zero_Impact \<rparr>, db2))"

definition new_version_tx :: "uuid \<Rightarrow> uuid \<Rightarrow> uuid \<Rightarrow> TemplateRow \<Rightarrow> VersionRow \<Rightarrow> preparedTemplate \<Rightarrow> Impact \<Rightarrow> ADB \<Rightarrow> aerr + PublishResult \<times> ADB" where
  "new_version_tx actor g i hh cc p imp db =
     (let n = rv_Version cc + 1 in
      if list_ex (\<lambda>v. rv_Template v = i \<and> rv_Version v = n) (db_versions db) then Inl (ARepo ErrAccessConflict ''role_template_versions_pkey'')
      else
        let db1 = db\<lparr> db_versions := db_versions db @ [prepared_version i n p],
              db_templates := map (\<lambda>t. if rt_ID t = i then t\<lparr> rt_Current := n, rt_Name := pt_Name p, rt_Description := pt_Description p \<rparr> else t) (db_templates db) \<rparr>;
            db2 = access_audit g actor ''access.template.published'' ''template'' i None (im_Users imp) db1;
            h' = hh\<lparr> rt_Name := pt_Name p, rt_Description := pt_Description p, rt_Current := n \<rparr>
        in (case loadVer db2 i 0 of Inl x \<Rightarrow> Inl x | Inr nv \<Rightarrow> Inr (\<lparr> pr_Published = True, pr_Template = buildDTO db2 g h' nv, pr_Impact = imp \<rparr>, db2)))"

definition publish_tx :: "Ctx \<Rightarrow> uuid \<Rightarrow> uuid \<Rightarrow> uuid \<Rightarrow> VersionRow \<Rightarrow> preparedTemplate \<Rightarrow> ADB \<Rightarrow> aerr + PublishResult \<times> ADB" where
  "publish_tx cx actor g i v p db =
     (case loadHead db g i of
        Inl x \<Rightarrow> Inl x
      | Inr hh \<Rightarrow>
          if rt_Archived hh \<noteq> None then Inl (conflict ''TEMPLATE_ARCHIVED'' ''template is archived'')
          else
            (case loadVer db i 0 of
               Inl x \<Rightarrow> Inl x
             | Inr cc \<Rightarrow>
                 if rv_Version cc \<noteq> rv_Version v then Inl (conflict ''STALE_VERSION'' ''the template changed; reload it and retry'')
                 else
                   (case checkLastGranter db g hh p of
                      Some x \<Rightarrow> Inl x
                    | None \<Rightarrow> if same_content cc p then Inr (rename_tx actor g i hh cc p db) else new_version_tx actor g i hh cc p (impactOf cx db g hh cc p) db)))"

definition proposed :: "TemplateRow \<Rightarrow> VersionRow \<Rightarrow> preparedTemplate \<Rightarrow> TemplateDTO" where
  "proposed h v p = \<lparr> td_Head = h\<lparr> rt_Name := pt_Name p, rt_Description := pt_Description p \<rparr>,
     td_Ver = (prepared_version (rt_ID h) (if same_content v p then rv_Version v else rv_Version v + 1) p)\<lparr> rv_Floor := None, rv_Base := None, rv_Note := [] \<rparr>,
     td_FloorTemplate = None, td_BaseTemplate = None, td_Unknown = [], td_Usage = \<lparr> ug_Users = 0, ug_Groups = 0, ug_Projects = 0 \<rparr> \<rparr>"

definition PublishTemplate :: "Ctx \<Rightarrow> uuid \<Rightarrow> uuid \<Rightarrow> uuid \<Rightarrow> TemplateInput \<Rightarrow> bool \<Rightarrow> Idem option \<Rightarrow> ADB \<Rightarrow> Engine
    \<Rightarrow> (aerr + PublishResult Reply) \<times> ADB \<times> Engine" where
  "PublishTemplate cx actor g i ti dryRun idem db e =
     (case publish_guard cx db actor g i ti e of
        (Inl x, e') \<Rightarrow> (Inl x, db, e')
      | (Inr (h, v, p), e') \<Rightarrow>
          if dryRun then
            (case checkLastGranter db g h p of
               Some x \<Rightarrow> (Inl x, db, e')
             | None \<Rightarrow> (Inr \<lparr> rp_Value = \<lparr> pr_Published = False, pr_Template = proposed h v p, pr_Impact = impactOf cx db g h v p \<rparr>,
                           rp_Status = 200, rp_Replayed = False \<rparr>, db, e'))
          else doWrite cx g actor idem 200 JPublish dec_publish (publish_tx cx actor g i v p) db e')"

section \<open>Archive and delete\<close>

definition template_used :: "ADB \<Rightarrow> uuid \<Rightarrow> bool" where
  "template_used db i \<longleftrightarrow> list_ex (\<lambda>r. as_Template r = i) (db_assignments db) \<or> list_ex (\<lambda>m. om_Template m = Some i) (db_members db) \<or>
     Some i \<in> set (db_invitations db) \<or> list_ex (\<lambda>v. (rv_Floor v = Some i \<or> rv_Base v = Some i) \<and> rv_Template v \<noteq> i) (db_versions db)"

text \<open>Deleting a template cascades to its versions and clears the reference of its clones.\<close>

definition drop_template :: "uuid \<Rightarrow> ADB \<Rightarrow> ADB" where
  "drop_template i db = db\<lparr> db_templates := map (\<lambda>t. if rt_ClonedFrom t = Some i then t\<lparr> rt_ClonedFrom := None \<rparr> else t) (filter (\<lambda>t. rt_ID t \<noteq> i) (db_templates db)),
     db_versions := filter (\<lambda>v. rv_Template v \<noteq> i) (db_versions db) \<rparr>"

definition delete_template_tx :: "Ctx \<Rightarrow> uuid \<Rightarrow> uuid \<Rightarrow> uuid \<Rightarrow> ADB \<Rightarrow> aerr + unit \<times> ADB" where
  "delete_template_tx cx actor g i db =
     (case loadHead db g i of
        Inl x \<Rightarrow> Inl x
      | Inr hh \<Rightarrow>
          if template_used db i then
            if rt_Archived hh = None then
              Inr ((), access_audit g actor ''access.template.archived'' ''template'' i None 0
                (db\<lparr> db_templates := map (\<lambda>t. if rt_ID t = i then t\<lparr> rt_Archived := Some (cx_now cx) \<rparr> else t) (db_templates db) \<rparr>))
            else Inr ((), db)
          else Inr ((), access_audit g actor ''access.template.deleted'' ''template'' i None 0 (drop_template i db)))"

definition DeleteTemplate :: "Ctx \<Rightarrow> uuid \<Rightarrow> uuid \<Rightarrow> uuid \<Rightarrow> Idem option \<Rightarrow> ADB \<Rightarrow> Engine \<Rightarrow> (aerr + unit Reply) \<times> ADB \<times> Engine" where
  "DeleteTemplate cx actor g i idem db e =
     (case require cx db actor g OrgScope [''template:manage''] e of
        (Inl x, e') \<Rightarrow> (Inl x, db, e')
      | (Inr _, e') \<Rightarrow>
          (case loadHead db g i of
             Inl x \<Rightarrow> (Inl (access_Normalize x), db, e')
           | Inr h \<Rightarrow>
               if rt_System h then (Inl (conflict ''SYSTEM_TEMPLATE'' ''system templates are immutable''), db, e')
               else doWrite cx g actor idem 204 (\<lambda>_. JUnit) dec_unit (delete_template_tx cx actor g i) db e'))"

end
