(* ===== verification/Access_Publish.thy ===== *)
theory Access_Publish
  imports Access_Templates
begin

text \<open>
  What a save of a template can give away: the changes of \<^verbatim>\<open>PublishTemplate\<close> followed through the store of the engine to the
  resolution rule.
\<close>

section \<open>Template versions that changed\<close>

text \<open>\<open>tv_like S db db' ref\<close>: the reference resolves in both states or in none, to a template with the same id and slug, and the
  versions are related by \<open>S\<close>.\<close>

definition tv_like :: "(VersionRow \<Rightarrow> VersionRow \<Rightarrow> bool) \<Rightarrow> ADB \<Rightarrow> ADB \<Rightarrow> TemplateRef \<Rightarrow> bool" where
  "tv_like S db db' ref \<longleftrightarrow> rel_option (\<lambda>(t, v) (t', v'). rt_ID t' = rt_ID t \<and> rt_Slug t' = rt_Slug t \<and> S v v') (template_version db ref) (template_version db' ref)"

lemma tv_like_same: "template_version db' ref = template_version db ref \<Longrightarrow> (\<And>v. S v v) \<Longrightarrow> tv_like S db db' ref"
  by (auto simp: tv_like_def intro!: option.rel_refl)

lemma tv_likeE:
  assumes "tv_like S db db' ref"
  obtains "template_version db ref = None" "template_version db' ref = None"
  | t v t' v' where "template_version db ref = Some (t, v)" "template_version db' ref = Some (t', v')" "rt_ID t' = rt_ID t" "rt_Slug t' = rt_Slug t" "S v v'"
  using assms unfolding tv_like_def by (cases rule: option.rel_cases) auto

text \<open>A version that gives at most what the old one gave and \<open>Q\<close>.\<close>

definition adds :: "pset \<Rightarrow> VersionRow \<Rightarrow> VersionRow \<Rightarrow> bool" where
  "adds Q v v' \<longleftrightarrow> (\<forall>b. HasBit (NewSet (rv_Permissions v')) b \<longrightarrow> HasBit (NewSet (rv_Permissions v)) b \<or> HasBit Q b)"

lemma adds_refl: "adds Q v v"
  by (simp add: adds_def)

text \<open>\<open>revised\<close>: only the template \<open>i\<close> changed, what follows its latest version gives at most \<open>Q\<close> more, and no assignment names the
  version \<open>n\<close> that is new.\<close>

definition revised :: "uuid \<Rightarrow> int \<Rightarrow> pset \<Rightarrow> ADB \<Rightarrow> ADB \<Rightarrow> bool" where
  "revised i n Q db db' \<longleftrightarrow> kept_people db db' \<and> db_environments db' = db_environments db \<and> db_groups db' = db_groups db \<and>
     db_group_members db' = db_group_members db \<and> db_assignments db' = db_assignments db \<and> n \<noteq> 0 \<and>
     (\<forall>ref. fst ref \<noteq> i \<longrightarrow> template_version db' ref = template_version db ref) \<and> (\<forall>ref. ref \<noteq> (i, n) \<longrightarrow> tv_like (adds Q) db db' ref)"

definition gain :: "pset \<Rightarrow> growth" where
  "gain Q = (\<lambda>pl b. HasBit Q b)"

lemma revised_grant:
  assumes rv: "revised i n Q db db'" and pin: "as_Template r = i \<longrightarrow> as_Pinned r \<noteq> Some n"
  shows "rel_option (\<lambda>a a'. place a' = place a \<and> a_ExpiresAt a' = a_ExpiresAt a \<and> (\<forall>b. HasBit (a_Permissions a') b \<longrightarrow> HasBit (a_Permissions a) b \<or> HasBit Q b))
    (row_grant db (r, x)) (row_grant db' (r, x))"
proof -
  have "row_ref (r, x) \<noteq> (i, n)" using rv pin by (auto simp: row_ref_def pin_of_def revised_def split: option.splits)
  then have tv: "tv_like (adds Q) db db' (row_ref (r, x))" using rv unfolding revised_def by blast
  have env: "db_environments db' = db_environments db" using rv by (simp add: revised_def)
  have pl: "row_place db' r = row_place db r" unfolding row_place_def env ..
  show ?thesis
  proof (cases rule: tv_likeE [OF tv])
    case 1 then show ?thesis by (simp add: row_grant_def)
  next
    case (2 t v t' v')
    then show ?thesis by (cases "row_place db r") (auto simp: row_grant_def pl place_def adds_def)
  qed
qed

lemma part_grown:
  assumes "revised i n Q db db'"
  shows "HasBit (case f of None \<Rightarrow> empty_set | Some j \<Rightarrow> (case template_version db' (j, 0) of None \<Rightarrow> empty_set | Some tv \<Rightarrow> NewSet (rv_Permissions (snd tv)))) b \<Longrightarrow>
    HasBit (case f of None \<Rightarrow> empty_set | Some j \<Rightarrow> (case template_version db (j, 0) of None \<Rightarrow> empty_set | Some tv \<Rightarrow> NewSet (rv_Permissions (snd tv)))) b \<or> HasBit Q b"
proof (cases f)
  case (Some j)
  have "tv_like (adds Q) db db' (j, 0)" using assms unfolding revised_def by (metis snd_conv)
  moreover assume "HasBit (case f of None \<Rightarrow> empty_set | Some j \<Rightarrow> (case template_version db' (j, 0) of None \<Rightarrow> empty_set | Some tv \<Rightarrow> NewSet (rv_Permissions (snd tv)))) b"
  ultimately show ?thesis by (cases rule: tv_likeE) (auto simp: Some adds_def)
qed simp

lemma org_template_parts:
  "tpl_Floor (org_template db t v) = (case rv_Floor v of None \<Rightarrow> empty_set | Some j \<Rightarrow> (case template_version db (j, 0) of None \<Rightarrow> empty_set | Some tv \<Rightarrow> NewSet (rv_Permissions (snd tv))))"
  "tpl_Base (org_template db t v) = (case rv_Base v of None \<Rightarrow> empty_set | Some j \<Rightarrow> (case template_version db (j, 0) of None \<Rightarrow> empty_set | Some tv \<Rightarrow> NewSet (rv_Permissions (snd tv))))"
  by (auto simp: org_template_def Let_def split: option.splits)

lemma member_template_grown:
  assumes rv: "revised i n Q db db'" and m: "mb_Template m \<noteq> Some i"
  shows "rel_option (template_grown (gain Q)) (member_template db m) (member_template db' m)"
proof -
  have eq: "template_version db' (j, k) = template_version db (j, k)" if "mb_Template m = Some j" for j k
    using rv that m unfolding revised_def by (metis fst_conv)
  have tg: "template_grown (gain Q) (org_template db t v) (org_template db' t v)" for t v
  proof -
    have "HasBit (tpl_Floor (org_template db' t v)) b \<Longrightarrow> HasBit (tpl_Floor (org_template db t v)) b \<or> HasBit Q b"
      "HasBit (tpl_Base (org_template db' t v)) b \<Longrightarrow> HasBit (tpl_Base (org_template db t v)) b \<or> HasBit Q b" for b
      unfolding org_template_parts by (rule part_grown [OF rv], assumption)+
    then show ?thesis unfolding template_grown_def gain_def by (simp add: org_template_def Let_def)
  qed
  show ?thesis using tg by (cases "mb_Template m") (auto simp: member_template_def eq split: option.split)
qed

lemma revised_grown:
  assumes rv: "revised i n Q db db'" and d: "engine_LoadAccess db u g = Inr d"
    and pins: "\<forall>r \<in> set (db_assignments db). as_Template r = i \<longrightarrow> as_Pinned r \<noteq> Some n" and mem: "\<forall>m \<in> set (db_members db). om_Template m \<noteq> Some i"
  obtains d' where "engine_LoadAccess db' u g = Inr d'" "grown now (gain Q) d d'"
proof -
  have kp: "kept_people db db'" using rv by (simp add: revised_def)
  obtain d' where d': "engine_LoadAccess db' u g = Inr d'" and eqs: "d_Member d' = d_Member d" "d_UserActive d' = d_UserActive d" "d_MemberActive d' = d_MemberActive d"
    "d_Policy d' = d_Policy d" "d_ProjectOverrides d' = d_ProjectOverrides d"
    and tp: "d_Template d' = d_Template d \<or> (\<exists>m. LoadMembership db g u = Some m \<and> d_Template d = member_template db m \<and> d_Template d' = member_template db' m)"
    by (rule kept_people_load [OF kp d])
  have nm: "mb_Template m \<noteq> Some i" if "LoadMembership db g u = Some m" for m
    using that mem by (auto simp: LoadMembership_def dest: find_SomeD split: option.splits)
  have tg: "rel_option (template_grown (gain Q)) (d_Template d) (d_Template d')"
    using tp
  proof (elim disjE exE conjE)
    assume "d_Template d' = d_Template d" then show ?thesis by (simp add: template_grown_def option.rel_refl)
  next
    fix m assume "LoadMembership db g u = Some m" "d_Template d = member_template db m" "d_Template d' = member_template db' m"
    then show ?thesis using member_template_grown [OF rv nm] by simp
  qed
  have base: "base_grown (gain Q) d d'" unfolding base_grown_def using eqs tg by blast
  have src: "sources db' g u r x = sources db g u r x" for r x using rv by (simp add: sources_def reaches_def revised_def)
  have rel: "rel_option (\<lambda>a a'. place a' = place a \<and> a_ExpiresAt a' = a_ExpiresAt a \<and> (\<forall>b. HasBit (a_Permissions a') b \<longrightarrow> HasBit (a_Permissions a) b \<or> HasBit Q b))
      (row_grant db (r, x)) (row_grant db' (r, x))" if "sources db g u r x" for r x
    using revised_grant [OF rv] pins that unfolding sources_def by blast
  have new: "(\<exists>a \<in> set (live d now). place a = place a' \<and> HasBit (a_Permissions a) b) \<or> gain Q (place a') b"
    if a': "a' \<in> set (live d' now)" "HasBit (a_Permissions a') b" for a' b
  proof -
    obtain r x where r: "sources db g u r x" "row_grant db' (r, x) = Some a'" "\<not> expired a' now" "d_Member d"
      using a'(1) unfolding mem_live loaded_mem [OF d'] src eqs(1) by blast
    obtain a where a: "row_grant db (r, x) = Some a" "place a' = place a" "a_ExpiresAt a' = a_ExpiresAt a" "HasBit (a_Permissions a) b \<or> HasBit Q b"
      using rel [OF r(1)] r(2) a'(2) by (auto elim: option.rel_cases)
    have "\<not> expired a now" using r(3) a(3) by (simp add: expired_def)
    then have "a \<in> set (live d now)" using a(1) r(1,4) unfolding mem_live loaded_mem [OF d] by blast
    then show ?thesis using a(2,4) by (auto simp: gain_def)
  qed
  have old: "\<exists>a' \<in> set (live d' now). place a' = place a" if a: "a \<in> set (live d now)" for a
  proof -
    obtain r x where r: "sources db g u r x" "row_grant db (r, x) = Some a" "\<not> expired a now" "d_Member d"
      using a unfolding mem_live loaded_mem [OF d] by blast
    obtain a' where a': "row_grant db' (r, x) = Some a'" "place a' = place a" "a_ExpiresAt a' = a_ExpiresAt a" using rel [OF r(1)] r(2) by (auto elim: option.rel_cases)
    have "\<not> expired a' now" using r(3) a'(3) by (simp add: expired_def)
    then show ?thesis using a'(1,2) r(1,4) unfolding mem_live Bex_def loaded_mem [OF d'] src eqs(1) by blast
  qed
  show thesis by (rule that [OF d']) (unfold grown_def, use base new old in blast)
qed

section \<open>The constraints of the template tables\<close>

text \<open>Primary keys, positive version numbers, every version belongs to a template, the current version of a template and the versions that assignments name exist, and
  members have organization templates (the foreign keys and the trigger of \<^verbatim>\<open>org_members\<close>).\<close>

definition templates_wf :: "ADB \<Rightarrow> bool" where
  "templates_wf db \<longleftrightarrow> distinct (map rt_ID (db_templates db)) \<and> distinct (map (\<lambda>v. (rv_Template v, rv_Version v)) (db_versions db)) \<and>
     (\<forall>v \<in> set (db_versions db). 0 < rv_Version v \<and> (\<exists>t \<in> set (db_templates db). rt_ID t = rv_Template v)) \<and>
     (\<forall>t \<in> set (db_templates db). \<exists>v \<in> set (db_versions db). rv_Template v = rt_ID t \<and> rv_Version v = rt_Current t) \<and>
     (\<forall>r \<in> set (db_assignments db). (\<exists>t \<in> set (db_templates db). rt_ID t = as_Template r) \<and>
        (\<forall>n. as_Pinned r = Some n \<longrightarrow> (\<exists>v \<in> set (db_versions db). rv_Template v = as_Template r \<and> rv_Version v = n))) \<and>
     (\<forall>m \<in> set (db_members db). \<forall>j. om_Template m = Some j \<longrightarrow> (\<exists>t \<in> set (db_templates db). rt_ID t = j \<and> rt_Kind t = ''org''))"

lemma templates_wfD:
  assumes "templates_wf db"
  shows "t \<in> set (db_templates db) \<Longrightarrow> t' \<in> set (db_templates db) \<Longrightarrow> rt_ID t = rt_ID t' \<Longrightarrow> t = t'" "v \<in> set (db_versions db) \<Longrightarrow> 0 < rv_Version v"
    "r \<in> set (db_assignments db) \<Longrightarrow> as_Pinned r = Some n \<Longrightarrow> \<exists>v \<in> set (db_versions db). rv_Template v = as_Template r \<and> rv_Version v = n"
    "m \<in> set (db_members db) \<Longrightarrow> om_Template m = Some j \<Longrightarrow> \<exists>t \<in> set (db_templates db). rt_ID t = j \<and> rt_Kind t = ''org''"
  using assms unfolding templates_wf_def distinct_map inj_on_def by blast+

section \<open>Publishing\<close>

lemma find_append: "find P (xs @ ys) = (case find P xs of None \<Rightarrow> find P ys | Some x \<Rightarrow> Some x)"
  by (induction xs) auto

text \<open>The tables after a save, with or without a new version.\<close>

lemma tv_updated:
  assumes "db_templates db' = map f (db_templates db)" "\<And>t. rt_ID (f t) = rt_ID t" "\<And>t. rt_ID t \<noteq> i \<Longrightarrow> f t = t"
    and "db_versions db' = db_versions db @ ws" "\<And>w. w \<in> set ws \<Longrightarrow> rv_Template w = i"
  shows "fst ref \<noteq> i \<Longrightarrow> template_version db' ref = template_version db ref"
proof -
  assume ref: "fst ref \<noteq> i"
  have f: "find (\<lambda>t. rt_ID t = fst ref) (db_templates db') = map_option f (find (\<lambda>t. rt_ID t = fst ref) (db_templates db))"
    unfolding assms(1) by (rule find_map_inv) (simp add: assms(2))
  have none: "find (\<lambda>v. rv_Template v = fst ref \<and> rv_Version v = k) ws = None" for k using assms(5) ref by (auto simp: find_None_iff)
  show ?thesis
  proof (cases "find (\<lambda>t. rt_ID t = fst ref) (db_templates db)")
    case None then show ?thesis unfolding template_version_def f by simp
  next
    case (Some t)
    then have "f t = t" using ref assms(3) by (auto dest: find_SomeD)
    then show ?thesis unfolding template_version_def f Some assms(4) find_append none by (simp split: option.split)
  qed
qed

lemma tv_renamed:
  assumes "db_templates db' = map f (db_templates db)" "\<And>t. rt_ID (f t) = rt_ID t \<and> rt_Slug (f t) = rt_Slug t \<and> rt_Current (f t) = rt_Current t" "db_versions db' = db_versions db"
  shows "tv_like (adds Q) db db' ref"
proof -
  have f: "find (\<lambda>t. rt_ID t = fst ref) (db_templates db') = map_option f (find (\<lambda>t. rt_ID t = fst ref) (db_templates db))"
    unfolding assms(1) by (rule find_map_inv) (simp add: assms(2))
  show ?thesis unfolding tv_like_def template_version_def f assms(3)
    by (auto simp: assms(2) adds_refl option.rel_map intro!: option.rel_refl split: option.split)
qed

lemma tv_published:
  assumes tv: "template_version db (i, 0) = Some (t0, v)" and ts: "db_templates db' = map f (db_templates db)"
    and f: "\<And>t. f t = (if rt_ID t = i then t\<lparr> rt_Current := n, rt_Name := nm, rt_Description := ds \<rparr> else t)"
    and vs: "db_versions db' = db_versions db @ [w]" "rv_Template w = i" "rv_Version w = n" and new: "\<forall>x \<in> set (db_versions db). \<not> (rv_Template x = i \<and> rv_Version x = n)"
    and n: "n \<noteq> 0" and w: "adds Q v w" and ref: "ref \<noteq> (i, n)"
  shows "tv_like (adds Q) db db' ref"
proof (cases "fst ref = i")
  case False
  have "template_version db' ref = template_version db ref" by (rule tv_updated [OF ts _ _ vs(1)]) (use f vs(2) False in auto)
  then show ?thesis by (rule tv_like_same) (rule adds_refl)
next
  case True
  obtain k where k: "ref = (i, k)" "k \<noteq> n" using True ref by (cases ref) auto
  have t0: "find (\<lambda>t. rt_ID t = i) (db_templates db) = Some t0" and v: "find (\<lambda>v. rv_Template v = i \<and> rv_Version v = rt_Current t0) (db_versions db) = Some v"
    using tv by (auto simp: template_version_def split: option.splits)
  have i0: "rt_ID t0 = i" using find_SomeD [OF t0] by simp
  have ft: "find (\<lambda>t. rt_ID t = i) (db_templates db') = Some (f t0)" unfolding ts by (subst find_map_inv) (simp_all add: f t0)
  have none: "find (\<lambda>v. rv_Template v = i \<and> rv_Version v = n) (db_versions db) = None" using new by (auto simp: find_None_iff)
  have cur: "rt_Current (f t0) = n" "rt_ID (f t0) = rt_ID t0" "rt_Slug (f t0) = rt_Slug t0" using i0 by (simp_all add: f)
  show ?thesis
  proof (cases "k = 0")
    case True
    have "template_version db' ref = Some (f t0, w)" unfolding template_version_def k True by (simp add: ft cur vs find_append none n)
    then show ?thesis using tv w cur unfolding k True tv_like_def by simp
  next
    case False
    have "find (\<lambda>v. rv_Template v = i \<and> rv_Version v = k) (db_versions db') = find (\<lambda>v. rv_Template v = i \<and> rv_Version v = k) (db_versions db)"
      unfolding vs(1) find_append using vs(3) k(2) by (simp split: option.split)
    then show ?thesis using False cur unfolding k tv_like_def template_version_def
      by (auto simp: ft t0 adds_refl option.rel_map intro!: option.rel_refl)
  qed
qed

lemma revised_cong:
  assumes "revised i n Q a b" "same_tables db a" "db_assignments a = db_assignments db" "same_tables b db'" "db_assignments db' = db_assignments b"
  shows "revised i n Q db db'"
proof -
  have "template_version a ref = template_version db ref" "template_version db' ref = template_version b ref" for ref
    using assms(2,4) kept_core_reads(1) unfolding same_tables_def by blast+
  then show ?thesis using assms unfolding revised_def tv_like_def same_defs by simp
qed

text \<open>What the guards leave.\<close>

lemma prepare_facts:
  assumes "prepareTemplate db g kind ti (Some v) = Inr p"
  shows "pt_PermIDs p = IDs (pt_Perms p)" "pt_baselinePerms p = NewSet (rv_Permissions v)"
proof -
  obtain st js ps where vp: "ValidatePermissions ''permissions'' kind ps = Inr (st, js)" and p: "pt_Perms p = st" "pt_PermIDs p = js" "pt_baselinePerms p = NewSet (rv_Permissions v)"
    using assms by (auto simp: prepareTemplate_def Let_def split: if_splits sum.splits prod.splits)
  have "js = IDs st" using vp by (auto simp: ValidatePermissions_def Let_def split: if_splits)
  then show "pt_PermIDs p = IDs (pt_Perms p)" "pt_baselinePerms p = NewSet (rv_Permissions v)" using p by simp_all
qed

lemma publish_guard_Inr:
  assumes "publish_guard cx db actor g i ti e = (Inr (h, v, p), e')"
  obtains orgSet e1 where "require cx db actor g OrgScope [''template:manage''] e = (Inr orgSet, e1)" "loadHead db g i = Inr h" "loadVer db i 0 = Inr v"
    "pt_PermIDs p = IDs (pt_Perms p)" "pt_baselinePerms p = NewSet (rv_Permissions v)" "checkNoEscalation cx db actor g (rt_Kind h) orgSet p e1 = (Inr (), e')"
proof -
  obtain orgSet e1 where rq: "require cx db actor g OrgScope [''template:manage''] e = (Inr orgSet, e1)" using assms by (auto simp: publish_guard_def andThen_Inr)
  show thesis
  proof (cases "loadHead db g i")
    case (Inl x) then show thesis using assms rq by (simp add: publish_guard_def andThen_Inr)
  next
    case hh: (Inr h')
    let ?ti = "if ti_Name ti = [] then ti\<lparr> ti_Name := rt_Name h' \<rparr> else ti"
    have ok: "\<not> rt_System h'" "rt_Archived h' = None" "\<not> (ti_Kind ti \<noteq> [] \<and> ti_Kind ti \<noteq> rt_Kind h')" "\<not> (ti_Slug ti \<noteq> [] \<and> ti_Slug ti \<noteq> rt_Slug h')"
      using assms rq hh by (auto simp: publish_guard_def andThen_Inr simp del: not_None_eq split: if_splits)
    obtain v' p' where v': "loadVer db i 0 = Inr v'" "prepareTemplate db g (rt_Kind h') ?ti (Some v') = Inr p'"
      using assms rq hh ok by (cases "loadVer db i 0"; cases "prepareTemplate db g (rt_Kind h') ?ti (Some (projr (loadVer db i 0)))") (simp_all add: publish_guard_def andThen_Inr)
    have "h = h'" "v = v'" "p = p'" "checkNoEscalation cx db actor g (rt_Kind h') orgSet p' e1 = (Inr (), e')"
      using assms rq hh ok v' by (simp_all add: publish_guard_def andThen_Inr)
    then show thesis using that [OF rq] hh v'(1) prepare_facts [OF v'(2)] by simp
  qed
qed

lemma caps_held:
  assumes "adb_wf db" "cur cx db (u, g) e" "engine_LoadAccess db u g = Inr d" "projectCaps cx db u g e = (Inr caps, e')" "IsEmpty (Minus P caps)"
  shows "held db g d (cx_now cx) P everywhere"
proof (rule containment_held [OF assms(1-3)])
  let ?r = "undefined\<lparr> as_ScopeType := ''org'' \<rparr> :: AssignRow"
  show "containmentMissing cx db u g (as_ScopeType ?r) (as_ScopeID ?r) P e = (Inr (Minus P caps), e')" using assms(4) by (simp add: containmentMissing_def andThen_Inr)
  show "row_place db ?r = Some everywhere" by (simp add: row_place_def row_scope_def)
qed (rule assms(5))

lemma save_held:
  assumes "adb_wf db" "cur cx db (actor, g) e" "engine_LoadAccess db actor g = Inr dA" "checkNoEscalation cx db actor g kind orgSet p e = (Inr (), e')"
    and "\<not> isOwner cx db g actor" "kind \<noteq> ''org''"
  shows "held db g dA (cx_now cx) (Minus (pt_Perms p) (pt_baselinePerms p)) everywhere"
proof -
  let ?Q = "Minus (pt_Perms p) (pt_baselinePerms p)"
  let ?parts = "Union (part_added (pt_FloorID p) (pt_baselineFloorI p) (pt_FloorSet p) (pt_baselineFloor p)) (part_added (pt_BaseID p) (pt_baselineBaseI p) (pt_BaseSet p) (pt_baselineBase p))"
  show ?thesis
  proof (cases "IsEmpty (Union ?parts ?Q)")
    case True
    then show ?thesis unfolding held_def ps.is_empty_has by (auto simp: HasBit_Union)
  next
    case False
    then obtain caps e1 where caps: "projectCaps cx db actor g e = (Inr caps, e1)" "IsEmpty (Union empty_set (Minus (Union ?parts ?Q) caps))"
      using assms(4-6) by (auto simp: checkNoEscalation_def Let_def andThen_Inr split: if_splits)
    have "IsEmpty (Minus ?Q caps)" using caps(2) unfolding ps.is_empty_has by (auto simp: HasBit_Union HasBit_Minus)
    then show ?thesis by (rule caps_held [OF assms(1-3) caps(1)])
  qed
qed

lemma loadVer_tv: "loadVer db i 0 = Inr v \<Longrightarrow> \<exists>t. template_version db (i, 0) = Some (t, v)"
  by (auto simp: loadVer_def split: option.splits)

lemma prepared_adds:
  assumes "pt_PermIDs p = IDs (pt_Perms p)"
  shows "adds (Minus (pt_Perms p) (NewSet (rv_Permissions v))) v (prepared_version i n p)"
proof -
  have "HasBit (NewSet (IDs P)) b \<Longrightarrow> HasBit P b" for P b by (auto simp: HasBit_NewSet IDs_nth_iff)
  then show ?thesis using assms by (auto simp: adds_def prepared_version_def HasBit_Minus)
qed

lemma publish_tx_revised:
  assumes wf: "templates_wf db" and tx: "publish_tx cx actor g i v p db = Inr (res, db1)" and v: "loadVer db i 0 = Inr v" and p: "pt_PermIDs p = IDs (pt_Perms p)"
  obtains n where "revised i n (Minus (pt_Perms p) (NewSet (rv_Permissions v))) db db1" "\<forall>x \<in> set (db_versions db). \<not> (rv_Template x = i \<and> rv_Version x = n)"
proof -
  let ?Q = "Minus (pt_Perms p) (NewSet (rv_Permissions v))"
  obtain t0 where tv: "template_version db (i, 0) = Some (t0, v)" using loadVer_tv [OF v] by blast
  have "v \<in> set (db_versions db)" using tv by (auto simp: template_version_def dest: find_SomeD split: option.splits)
  then have pos: "0 < rv_Version v" by (rule templates_wfD(2) [OF wf])
  obtain hh where hh: "loadHead db g i = Inr hh" using tx by (auto simp: publish_tx_def split: sum.splits)
  consider "same_content v p" "rename_tx actor g i hh v p db = (res, db1)"
    | imp where "new_version_tx actor g i hh v p imp db = Inr (res, db1)"
    using tx by (auto simp: publish_tx_def hh v split: if_splits option.splits)
  then show thesis
  proof cases
    case 1
    let ?f = "\<lambda>t. if rt_ID t = i then t\<lparr> rt_Name := pt_Name p, rt_Description := pt_Description p \<rparr> else t"
    have "db1 = db \<or> db1 = access_audit g actor ''access.template.updated'' ''template'' i None 0 (db\<lparr> db_templates := map ?f (db_templates db) \<rparr>)"
      using 1(2) by (auto simp: rename_tx_def Let_def split: if_splits)
    then obtain f where f: "db_templates db1 = map f (db_templates db)" "\<And>t. rt_ID (f t) = rt_ID t \<and> rt_Slug (f t) = rt_Slug t \<and> rt_Current (f t) = rt_Current t"
        "\<And>t. rt_ID t \<noteq> i \<Longrightarrow> f t = t" and rest: "db_versions db1 = db_versions db" "kept_people db db1" "db_environments db1 = db_environments db" "db_groups db1 = db_groups db"
        "db_group_members db1 = db_group_members db" "db_assignments db1 = db_assignments db"
    proof (elim disjE)
      assume "db1 = db" then show thesis by (intro that [of id]) (simp_all add: kept_people_def)
    next
      assume "db1 = access_audit g actor ''access.template.updated'' ''template'' i None 0 (db\<lparr> db_templates := map ?f (db_templates db) \<rparr>)"
      then show thesis by (intro that [of ?f]) (simp_all add: kept_people_def access_audit_def)
    qed
    have "template_version db1 ref = template_version db ref" if "fst ref \<noteq> i" for ref
      by (rule tv_updated [OF f(1) _ f(3), where ws = "[]"]) (use f(2) rest(1) that in auto)
    then have "revised i (-1) ?Q db db1" unfolding revised_def using rest tv_renamed [OF f(1,2) rest(1)] by auto
    moreover have "\<forall>x \<in> set (db_versions db). \<not> (rv_Template x = i \<and> rv_Version x = -1)" using templates_wfD(2) [OF wf] by force
    ultimately show thesis by (rule that)
  next
    case 2
    let ?n = "rv_Version v + 1"
    let ?f = "\<lambda>t. if rt_ID t = i then t\<lparr> rt_Current := ?n, rt_Name := pt_Name p, rt_Description := pt_Description p \<rparr> else t"
    have new: "\<forall>x \<in> set (db_versions db). \<not> (rv_Template x = i \<and> rv_Version x = ?n)" using 2 by (auto simp: new_version_tx_def Let_def list_ex_iff split: if_splits)
    have db1: "db1 = access_audit g actor ''access.template.published'' ''template'' i None (im_Users imp)
        (db\<lparr> db_versions := db_versions db @ [prepared_version i ?n p], db_templates := map ?f (db_templates db) \<rparr>)"
      using 2 unfolding new_version_tx_def Let_def by (auto split: if_splits sum.splits)
    have ts: "db_templates db1 = map ?f (db_templates db)" "db_versions db1 = db_versions db @ [prepared_version i ?n p]" by (simp_all add: db1 access_audit_def)
    have w: "rv_Template (prepared_version i ?n p) = i" "rv_Version (prepared_version i ?n p) = ?n" by (simp_all add: prepared_version_def)
    have "tv_like (adds ?Q) db db1 ref" if "ref \<noteq> (i, ?n)" for ref
      by (rule tv_published [OF tv ts(1) _ ts(2) w new _ prepared_adds [OF p] that]) (use pos in auto)
    moreover have "template_version db1 ref = template_version db ref" if "fst ref \<noteq> i" for ref
      by (rule tv_updated [OF ts(1) _ _ ts(2)]) (use w(1) that in auto)
    ultimately have "revised i ?n ?Q db db1" unfolding revised_def using pos by (simp add: db1 access_audit_def kept_people_def)
    then show thesis by (rule that [OF _ new])
  qed
qed

lemma published_revised:
  assumes "doWrite cx g actor idem status enc dec (publish_tx cx actor g i v p) db e = (Inr rep, db', e')" "templates_wf db" "loadVer db i 0 = Inr v"
    "pt_PermIDs p = IDs (pt_Perms p)" "\<not> rp_Replayed rep"
  obtains n where "revised i n (Minus (pt_Perms p) (NewSet (rv_Permissions v))) db db'" "\<forall>x \<in> set (db_versions db). \<not> (rv_Template x = i \<and> rv_Version x = n)"
proof (rule doWrite_cases [OF assms(1)])
  fix res db0 db1 js assume w: "publish_tx cx actor g i v p db0 = Inr (res, db1)" "db0 = db \<or> (\<exists>k. db0 = drop_old_key cx g actor k db)"
    "db' = bump_org g (db1\<lparr> db_idempotency := js \<rparr>)"
  have d0: "same_tables db db0" "db_assignments db0 = db_assignments db" using w(2) by auto
  have t0: "templates_wf db0" using assms(2) d0 unfolding templates_wf_def same_defs by simp
  have v0: "loadVer db0 i 0 = Inr v" using assms(3) kept_core_reads(1) [of db db0] d0(1) unfolding same_tables_def loadVer_def by simp
  obtain n where n: "revised i n (Minus (pt_Perms p) (NewSet (rv_Permissions v))) db0 db1" "\<forall>x \<in> set (db_versions db0). \<not> (rv_Template x = i \<and> rv_Version x = n)"
    by (rule publish_tx_revised [OF t0 w(1) v0 assms(4)])
  have "revised i n (Minus (pt_Perms p) (NewSet (rv_Permissions v))) db db'"
    by (rule revised_cong [OF n(1) d0]) (simp_all add: w(3) same_tables_trans [OF same_tables_upd(3) same_tables_upd(5)])
  moreover have "db_versions db0 = db_versions db" using d0(1) unfolding same_defs by blast
  ultimately show thesis using that n(2) by metis
qed (use assms(5) in auto)

lemma not_of_members:
  assumes "templates_wf db" "loadHead db g i = Inr h" "rt_Kind h \<noteq> ''org''"
  shows "\<forall>m \<in> set (db_members db). om_Template m \<noteq> Some i"
proof (intro ballI notI)
  fix m assume m: "m \<in> set (db_members db)" "om_Template m = Some i"
  obtain t where t: "t \<in> set (db_templates db)" "rt_ID t = i" "rt_Kind t = ''org''" using templates_wfD(4) [OF assms(1) m] by blast
  have "h \<in> set (db_templates db)" "rt_ID h = i" using assms(2) by (auto simp: loadHead_def dest: find_SomeD split: option.splits)
  then show False using templates_wfD(1) [OF assms(1) t(1)] t(2,3) assms(3) by metis
qed

text \<open>
  C8 (safety). No escalation by a save: when someone who is not an owner publishes a project or repository template, nobody,
  at no scope of a project of the organization, gets a permission that they were not already granted and that the actor
  does not hold there, whether they have the template by an assignment or as the floor or base of their organization
  template; at the organization scope everybody has exactly what they had. The engine's cache is taken to be coherent for
  the actor, with no load of the actor in flight.
\<close>

theorem PublishTemplate_no_escalation:
  assumes "adb_wf db" "templates_wf db" "engine_wf e (cx_now cx)" "coherent (cx_store cx db) e (actor, g)" "gomap_get (e_inflight e) (actor, g) = None"
    and "PublishTemplate cx actor g i ti dryRun idem db e = (Inr rep, db', e')" "\<not> isOwner cx db g actor" "loadHead db g i = Inr h" "rt_Kind h \<noteq> ''org''"
    and "engine_LoadAccess db u g = Inr d" "sc_Type sc = StOrg \<or> sc_ProjectID sc \<in> set (projectIDs db g)"
  shows "\<exists>dA d'. engine_LoadAccess db actor g = Inr dA \<and> engine_LoadAccess db' u g = Inr d' \<and>
    spec_effective d' (cx_now cx) sc \<subseteq> granted d (cx_now cx) sc \<union> spec_effective dA (cx_now cx) sc \<and>
    (sc_Type sc = StOrg \<longrightarrow> spec_effective d' (cx_now cx) sc = spec_effective d (cx_now cx) sc)"
proof -
  have co: "coh cx db (actor, g) e" using assms(3-5) by (simp add: coh_def)
  obtain h' v p e1 where gd: "publish_guard cx db actor g i ti e = (Inr (h', v, p), e1)" using assms(6) by (auto simp: PublishTemplate_def split: prod.splits sum.splits)
  obtain orgSet e2 where rq: "require cx db actor g OrgScope [''template:manage''] e = (Inr orgSet, e2)" and h: "loadHead db g i = Inr h'" and v: "loadVer db i 0 = Inr v"
    and p: "pt_PermIDs p = IDs (pt_Perms p)" "pt_baselinePerms p = NewSet (rv_Permissions v)" and ck: "checkNoEscalation cx db actor g (rt_Kind h') orgSet p e2 = (Inr (), e1)"
    by (rule publish_guard_Inr [OF gd])
  obtain dA where dA: "engine_LoadAccess db actor g = Inr dA" "cur cx db (actor, g) e2" by (rule manage_required [OF assms(1) co rq manage_is_strict(2)])
  let ?Q = "Minus (pt_Perms p) (NewSet (rv_Permissions v))"
  have hd: "held db g dA (cx_now cx) ?Q everywhere" using save_held [OF assms(1) dA(2,1) ck assms(7)] assms(8,9) h unfolding p(2) by simp
  have done_nothing: ?thesis if "db' = db" using that dA(1) assms(10) effective_granted by blast
  show ?thesis
  proof (cases "dryRun \<or> rp_Replayed rep")
    case True
    then have "db' = db" using assms(6) gd by (auto simp: PublishTemplate_def split: if_splits option.splits elim: doWrite_cases)
    then show ?thesis by (rule done_nothing)
  next
    case False
    then have wr: "doWrite cx g actor idem 200 JPublish dec_publish (publish_tx cx actor g i v p) db e1 = (Inr rep, db', e')" using assms(6) gd by (simp add: PublishTemplate_def)
    obtain n where rv: "revised i n ?Q db db'" and new: "\<forall>x \<in> set (db_versions db). \<not> (rv_Template x = i \<and> rv_Version x = n)"
      using False by (rule_tac published_revised [OF wr assms(2) v p(1)]) auto
    have pins: "\<forall>r \<in> set (db_assignments db). as_Template r = i \<longrightarrow> as_Pinned r \<noteq> Some n" using templates_wfD(3) [OF assms(2)] new by blast
    have mem: "\<forall>m \<in> set (db_members db). om_Template m \<noteq> Some i" by (rule not_of_members [OF assms(2,8,9)])
    obtain d' where d': "engine_LoadAccess db' u g = Inr d'" "grown (cx_now cx) (gain ?Q) d d'" by (rule revised_grown [OF rv assms(10) pins mem])
    have "spec_effective d' (cx_now cx) sc \<subseteq> granted d (cx_now cx) sc \<union> spec_effective dA (cx_now cx) sc \<and>
    (sc_Type sc = StOrg \<longrightarrow> spec_effective d' (cx_now cx) sc = spec_effective d (cx_now cx) sc)"
    proof (intro conjI impI grown_org_scope [OF d'(2)] grown_effective [OF d'(2)])
      fix b assume "allows (gain ?Q) sc b"
      then have "HasBit ?Q b" "sc_Type sc \<noteq> StOrg" by (auto simp: allows_def gain_def covers_def)
      then show "b \<in> spec_effective dA (cx_now cx) sc" using hd assms(11) unfolding held_def by (auto simp: covers_def)
    qed
    then show ?thesis using dA(1) d'(1) by blast
  qed
qed

section \<open>Runs\<close>

text \<open>The validation of a permission list, computed from the tables of the catalog.\<close>

lemma vp_step_code [code]:
  "vp_step field want s p =
     (if CHR ''*'' \<in> set p then s\<lparr> vp_fields := gomap_set field ''wildcards are only allowed in system templates'' (vp_fields s) \<rparr>
      else if \<not> permFormatRE p then
        s\<lparr> vp_fields := gomap_set field ''permission ids look like resource:action'' (vp_fields s), vp_unknown := vp_unknown s @ [p] \<rparr>
      else case gomap_get index p of
             None \<Rightarrow> s\<lparr> vp_unknown := vp_unknown s @ [p] \<rparr>
           | Some b \<Rightarrow> if scopeRank want \<notin> set (scope_ranks ! b) then s\<lparr> vp_outOf := vp_outOf s @ [p] \<rparr> else s\<lparr> vp_set := Add (vp_set s) p \<rparr>)"
proof (cases "gomap_get index p")
  case (Some b)
  then have "b < 99" by (simp add: index_get_iff)
  then show ?thesis using Some by (simp add: vp_step_def Get_def HasScope_nth)
qed (simp add: vp_step_def Get_def)

lemma missingDependencies_code [code]:
  "missingDependencies st = sort (remdups (concat (map (\<lambda>b. filter (\<lambda>r. \<not> Set_Has st r) (map ((!) ids) (require_bits ! b))) (set_bits_of st))))"
proof -
  have "(case Get (ids ! b) of None \<Rightarrow> [] | Some c \<Rightarrow> filter (\<lambda>r. \<not> Set_Has st r) (Requires c)) = filter (\<lambda>r. \<not> Set_Has st r) (map ((!) ids) (require_bits ! b))"
    if "b \<in> set (set_bits_of st)" for b
  proof -
    have "b < 99" using that by (simp add: set_bits_of_def)
    moreover from this have "gomap_get index (ids ! b) = Some b" by (simp add: index_get_iff)
    ultimately show ?thesis by (simp add: Get_def Requires_nth)
  qed
  then have "map (\<lambda>i. case Get i of None \<Rightarrow> [] | Some c \<Rightarrow> filter (\<lambda>r. \<not> Set_Has st r) (Requires c)) (IDs st) =
      map (\<lambda>b. filter (\<lambda>r. \<not> Set_Has st r) (map ((!) ids) (require_bits ! b))) (set_bits_of st)" by (simp add: IDs_code)
  then show ?thesis by (simp only: missingDependencies_def)
qed

text \<open>User 5 has the organization template 101; the other tables are those of the small organization.\<close>

definition ex_tdb :: "VersionRow \<Rightarrow> ADB" where
  "ex_tdb v = ex_adb\<lparr> db_members := [(ex_member 5)\<lparr> om_Template := Some 101 \<rparr>, ex_member 6],
     db_templates := db_templates ex_adb @ [ex_template 101 ''org''], db_versions := db_versions ex_adb @ [v] \<rparr>"

definition ex_manager :: VersionRow where
  "ex_manager = ex_version 101 [''template:manage'']"

definition ex_save :: TemplateInput where
  "ex_save = \<lparr> ti_Kind = ''project'', ti_Slug = [], ti_Name = ''Granters'', ti_Description = [], ti_Permissions = [''project:view'', ''assignment:read'', ''assignment:grant''],
     ti_Ceiling = None, ti_FloorTemplate = None, ti_BaseTemplate = None, ti_ClonedFrom = None, ti_Note = [] \<rparr>"

lemma ex_save_ok: "ok_result (fst (PublishTemplate ex_cx 5 1 201 ex_save False None (ex_tdb ex_manager) ex_eng))"
  by code_simp

lemma ex_tdb_facts: "\<not> isOwner ex_cx (ex_tdb ex_manager) 1 5" "ok_result (map_sum AInternal id (engine_LoadAccess (ex_tdb ex_manager) 6 1))" "10 \<in> set (projectIDs (ex_tdb ex_manager) 1)"
  "loadHead (ex_tdb ex_manager) 1 201 = Inr (ex_template 201 ''project'')"
  by code_simp+

lemma ex_tdb_wf: "adb_wf (ex_tdb ex_manager)" "templates_wf (ex_tdb ex_manager)"
  by (simp_all add: adb_wf_def templates_wf_def ex_tdb_def ex_adb_def ex_arow_def same_live_def ex_manager_def ex_template_def ex_version_def ex_member_def)

theorem PublishTemplate_no_escalation_witness:
  "\<exists>dA d d'. engine_LoadAccess (ex_tdb ex_manager) 5 1 = Inr dA \<and> engine_LoadAccess (ex_tdb ex_manager) 6 1 = Inr d \<and>
    engine_LoadAccess (fst (snd (PublishTemplate ex_cx 5 1 201 ex_save False None (ex_tdb ex_manager) ex_eng))) 6 1 = Inr d' \<and>
    spec_effective d' 1000 (ProjectScope 10) \<subseteq> granted d 1000 (ProjectScope 10) \<union> spec_effective dA 1000 (ProjectScope 10)"
proof -
  let ?run = "PublishTemplate ex_cx 5 1 201 ex_save False None (ex_tdb ex_manager) ex_eng"
  obtain rep where run: "?run = (Inr rep, fst (snd ?run), snd (snd ?run))" using ok_resultE [OF ex_save_ok] by blast
  obtain d where d: "engine_LoadAccess (ex_tdb ex_manager) 6 1 = Inr d" using ex_tdb_facts(2) by (cases "engine_LoadAccess (ex_tdb ex_manager) 6 1") (auto simp: ok_result_def)
  have "sc_ProjectID (ProjectScope 10) \<in> set (projectIDs (ex_tdb ex_manager) 1)" using ex_tdb_facts(3) by (simp add: ProjectScope_def)
  then show ?thesis
    using PublishTemplate_no_escalation [OF ex_tdb_wf New_wf ex_coherent run ex_tdb_facts(1,4) _ d, of "ProjectScope 10"] d by (auto simp: ex_cx_def ex_template_def)
qed

definition ex_capped :: VersionRow where
  "ex_capped = (ex_version 101 [''org:read'', ''org:delete'', ''template:read'', ''template:manage'', ''assignment:read'', ''assignment:grant''])
     \<lparr> rv_Ceiling := Some [''template:read'', ''template:manage''] \<rparr>"

definition ex_lift :: TemplateInput where
  "ex_lift = ex_save\<lparr> ti_Kind := ''org'', ti_Permissions := [] \<rparr>"


end
