(* ===== verification/Access_Delete.thy ===== *)
theory Access_Delete
  imports Access_Publish
begin

text \<open>
  What deleting a template (\<^verbatim>\<open>DeleteTemplate\<close> of \<^verbatim>\<open>templates.go\<close>) does to the people who have it.
\<close>

section \<open>References that stay\<close>

text \<open>\<open>kept_refs\<close>: only the template \<open>i\<close> changed, in its archive mark, or it is gone and nothing uses it.\<close>

definition tv_key :: "TemplateRow \<times> VersionRow \<Rightarrow> uuid \<times> string \<times> bool \<times> string \<times> bool \<times> VersionRow" where
  "tv_key = (\<lambda>(t, v). (rt_ID t, rt_Slug t, rt_Archived t = None, rt_Kind t, rt_System t, v))"

definition kept_refs :: "uuid \<Rightarrow> ADB \<Rightarrow> ADB \<Rightarrow> bool" where
  "kept_refs i db db' \<longleftrightarrow> kept_people db db' \<and> db_environments db' = db_environments db \<and> db_groups db' = db_groups db \<and>
     db_group_members db' = db_group_members db \<and> db_assignments db' = db_assignments db \<and>
     (\<forall>ref. fst ref \<noteq> i \<longrightarrow> map_option tv_key (template_version db' ref) = map_option tv_key (template_version db ref)) \<and>
     ((\<forall>ref. tv_like (=) db db' ref) \<or> \<not> template_used db i)"

lemma key_like: "map_option tv_key (template_version db' ref) = map_option tv_key (template_version db ref) \<Longrightarrow> tv_like (=) db db' ref"
  unfolding tv_like_def by (cases "template_version db ref"; cases "template_version db' ref") (auto simp: tv_key_def)

lemma like_grant:
  assumes "tv_like (=) db db' (row_ref y)" "db_environments db' = db_environments db"
  shows "row_grant db' y = row_grant db y"
proof -
  have pl: "row_place db' (fst y) = row_place db (fst y)" unfolding row_place_def assms(2) ..
  show ?thesis
  proof (cases rule: tv_likeE [OF assms(1)])
    case 1 then show ?thesis by (simp add: row_grant_def)
  next
    case (2 t v t' v') then show ?thesis unfolding row_grant_def pl by (simp split: option.split)
  qed
qed

lemma kept_refs_like:
  assumes "kept_refs i db db'" "fst ref = i \<Longrightarrow> template_used db i"
  shows "tv_like (=) db db' ref"
  using assms key_like unfolding kept_refs_def by blast

lemma like_part: "tv_like (=) db db' (j, 0) \<Longrightarrow>
    (case template_version db' (j, 0) of None \<Rightarrow> empty_set | Some tv \<Rightarrow> NewSet (rv_Permissions (snd tv))) =
    (case template_version db (j, 0) of None \<Rightarrow> empty_set | Some tv \<Rightarrow> NewSet (rv_Permissions (snd tv)))"
  by (erule tv_likeE) simp_all

lemma org_template_like:
  assumes "rt_ID t' = rt_ID t" "rt_Slug t' = rt_Slug t" "\<And>j. rv_Floor v = Some j \<or> rv_Base v = Some j \<Longrightarrow> tv_like (=) db db' (j, 0)"
  shows "org_template db' t' v = org_template db t v"
proof (rule OrgTemplate.equality)
  show "tpl_Floor (org_template db' t' v) = tpl_Floor (org_template db t v)" "tpl_Base (org_template db' t' v) = tpl_Base (org_template db t v)"
    unfolding org_template_parts using like_part assms(3) by (auto split: option.split)
qed (simp_all add: org_template_def Let_def assms(1,2))

lemma kept_member_template:
  assumes kr: "kept_refs i db db'" and m: "mb_Template m \<noteq> Some i"
  shows "member_template db' m = member_template db m"
proof (cases "mb_Template m")
  case (Some j)
  let ?ref = "(j, pin_of (mb_Version m))"
  have key: "map_option tv_key (template_version db' ?ref) = map_option tv_key (template_version db ?ref)" using kr m Some unfolding kept_refs_def by (metis fst_conv)
  show ?thesis
  proof (cases "template_version db ?ref")
    case None then show ?thesis using key Some by (simp add: member_template_def)
  next
    case tv: (Some x)
    obtain t v where x: "x = (t, v)" by (cases x)
    obtain t' where t': "template_version db' ?ref = Some (t', v)" "rt_ID t' = rt_ID t" "rt_Slug t' = rt_Slug t" "(rt_Archived t' = None) = (rt_Archived t = None)" "rt_Kind t' = rt_Kind t"
      using key tv x by (auto simp: tv_key_def)
    have "rv_Template v = j" "v \<in> set (db_versions db)" using tv x by (auto simp: template_version_def dest: find_SomeD split: option.splits)
    then have "template_used db i" if "rv_Floor v = Some i \<or> rv_Base v = Some i" using that m Some by (auto simp: template_used_def list_ex_iff)
    then have "org_template db' t' v = org_template db t v" by (intro org_template_like t'(2,3) kept_refs_like [OF kr]) auto
    then show ?thesis using Some tv x t' by (simp add: member_template_def)
  qed
qed (simp add: member_template_def)

lemma kept_refs_load:
  assumes kr: "kept_refs i db db'" and mem: "\<forall>m \<in> set (db_members db). om_Template m \<noteq> Some i" and d: "engine_LoadAccess db u g = Inr d"
  shows "\<exists>ep. engine_LoadAccess db' u g = Inr (d\<lparr> d_Epochs := ep \<rparr>)"
proof -
  have kp: "kept_people db db'" using kr by (simp add: kept_refs_def)
  have env: "db_environments db' = db_environments db" using kr by (simp add: kept_refs_def)
  have eqs: "db_groups db' = db_groups db" "db_group_members db' = db_group_members db" "db_assignments db' = db_assignments db" using kr unfolding kept_refs_def by blast+
  have "group_rows db' g = group_rows db g" by (rule ext) (simp add: group_rows_def live_rows_def eqs)
  then have rows: "LoadUserAssignments db' g u = LoadUserAssignments db g u" by (simp add: LoadUserAssignments_def live_rows_def eqs)
  have grants: "List.map_filter (row_grant db') (LoadUserAssignments db g u) = List.map_filter (row_grant db) (LoadUserAssignments db g u)"
  proof (rule map_filter_cong)
    fix y assume "y \<in> set (LoadUserAssignments db g u)"
    then have "fst y \<in> set (db_assignments db)" using set_LoadUserAssignments [of "fst y" "snd y" db g u] by simp
    then have "template_used db i" if "fst (row_ref y) = i" using that by (auto simp: row_ref_def template_used_def list_ex_iff)
    then show "row_grant db' y = row_grant db y" by (intro like_grant [OF kept_refs_like [OF kr] env])
  qed
  obtain ep' where ep': "src_Epochs db' g u = Inr ep'" using kept_people_member(2) [OF kp] LoadAccess_epochs [OF d] by blast
  show ?thesis
  proof (rule LoadAccess_cases [OF d])
    fix ep assume o: "LoadMembership db g u = None" "d = zero_AccessData\<lparr> d_Epochs := ep \<rparr>"
    have "engine_LoadAccess db' u g = Inr (zero_AccessData\<lparr> d_Epochs := ep' \<rparr>)" by (simp add: LoadAccess_eq ep' kept_people_member(1) [OF kp] o(1))
    then show ?thesis using o(2) by auto
  next
    fix m r ep assume o: "LoadMembership db g u = Some m" "org_live db g = Some r" "d = loaded db u g m r ep"
    obtain r' where r': "org_live db' g = Some r'" "ao_Mode r' = ao_Mode r" by (rule kept_people_live [OF kp o(2)])
    have ov: "LoadProjectOverrides db' g = LoadProjectOverrides db g" using kp by (simp add: kept_people_def LoadProjectOverrides_def)
    have "mb_Template m \<noteq> Some i" using o(1) mem by (auto simp: LoadMembership_def dest: find_SomeD split: option.splits)
    then have mt: "member_template db' m = member_template db m" by (rule kept_member_template [OF kr])
    have "engine_LoadAccess db' u g = Inr (loaded db' u g m r' ep')"
      by (simp add: LoadAccess_eq ep' kept_people_member(1) [OF kp] o(1) LoadOrgPolicy_def r'(1) loaded_def)
    moreover have "loaded db' u g m r' ep' = d\<lparr> d_Epochs := ep' \<rparr>" unfolding o(3) loaded_def rows grants mt ov r'(2) by simp
    ultimately show ?thesis by auto
  qed
qed

lemma find_filter_other: "(\<And>x. P x \<Longrightarrow> Q x) \<Longrightarrow> find P (filter Q xs) = find P xs"
  by (induction xs) auto

lemma drop_template_tv:
  assumes "fst ref \<noteq> i"
  shows "map_option tv_key (template_version (drop_template i db) ref) = map_option tv_key (template_version db ref)"
proof -
  let ?f = "\<lambda>t. if rt_ClonedFrom t = Some i then t\<lparr> rt_ClonedFrom := None \<rparr> else t"
  have t: "find (\<lambda>t. rt_ID t = fst ref) (db_templates (drop_template i db)) = map_option ?f (find (\<lambda>t. rt_ID t = fst ref) (db_templates db))"
    unfolding drop_template_def using assms by (simp add: find_map_inv find_filter_other)
  have v: "find (\<lambda>v. rv_Template v = fst ref \<and> rv_Version v = k) (db_versions (drop_template i db)) = find (\<lambda>v. rv_Template v = fst ref \<and> rv_Version v = k) (db_versions db)" for k
    using find_filter_other [of "\<lambda>v. rv_Template v = fst ref \<and> rv_Version v = k" "\<lambda>v. rv_Template v \<noteq> i" "db_versions db"] assms by (simp add: drop_template_def)
  show ?thesis unfolding template_version_def t v by (auto simp: tv_key_def option.map_comp comp_def split: option.split)
qed

lemma delete_tx_kept:
  assumes "delete_template_tx cx actor g i db = Inr (x, db1)"
  shows "kept_refs i db db1"
proof -
  let ?f = "\<lambda>t. if rt_ID t = i then t\<lparr> rt_Archived := Some (cx_now cx) \<rparr> else t"
  let ?arch = "access_audit g actor ''access.template.archived'' ''template'' i None 0 (db\<lparr> db_templates := map ?f (db_templates db) \<rparr>)"
  consider "db1 = db" | "db1 = ?arch" | "db1 = access_audit g actor ''access.template.deleted'' ''template'' i None 0 (drop_template i db)" "\<not> template_used db i"
    using assms by (auto simp: delete_template_tx_def split: sum.splits if_splits)
  then show ?thesis
  proof cases
    case 1 then show ?thesis by (simp add: kept_refs_def kept_people_def tv_like_same)
  next
    case 2
    have ts: "db_templates db1 = map ?f (db_templates db)" "db_versions db1 = db_versions db" by (simp_all add: 2 access_audit_def)
    have fnd: "find (\<lambda>t. rt_ID t = fst ref) (db_templates db1) = map_option ?f (find (\<lambda>t. rt_ID t = fst ref) (db_templates db))" for ref :: TemplateRef
      unfolding ts(1) by (rule find_map_inv) simp
    have "tv_like (=) db db1 ref" for ref
      unfolding tv_like_def template_version_def fnd ts(2) by (auto simp: option.rel_map intro!: option.rel_refl split: option.split)
    moreover have "template_version db1 ref = template_version db ref" if "fst ref \<noteq> i" for ref
      by (rule tv_updated [OF ts(1), where ws = "[]"]) (use ts(2) that in auto)
    ultimately show ?thesis unfolding kept_refs_def by (simp add: 2 access_audit_def kept_people_def)
  next
    case 3
    have "template_version db1 ref = template_version (drop_template i db) ref" for ref
      using same_tables_reads(1) [OF same_tables_upd(4)] by (simp add: 3(1))
    then show ?thesis using drop_template_tv [of _ i db] 3(2) unfolding kept_refs_def by (simp add: 3(1) access_audit_def kept_people_def drop_template_def)
  qed
qed

lemma kept_refs_cong:
  assumes "kept_refs i a b" "same_tables db a" "db_assignments a = db_assignments db" "db_invitations a = db_invitations db" "same_tables b db'" "db_assignments db' = db_assignments b"
  shows "kept_refs i db db'"
proof -
  have "template_version a ref = template_version db ref" "template_version db' ref = template_version b ref" for ref
    using assms(2,5) kept_core_reads(1) unfolding same_tables_def by blast+
  moreover have "template_used a i = template_used db i" using assms(2-4) unfolding same_defs template_used_def by simp
  ultimately show ?thesis using assms unfolding kept_refs_def tv_like_def same_defs by simp
qed

text \<open>What refers to a template, read off the tables: an assignment, a member, an invitation, or a version of another
  template that has it as floor or base.\<close>

definition referred :: "ADB \<Rightarrow> uuid \<Rightarrow> bool" where
  "referred db i \<longleftrightarrow> (\<exists>r \<in> set (db_assignments db). as_Template r = i) \<or> (\<exists>m \<in> set (db_members db). om_Template m = Some i) \<or>
     (\<exists>x \<in> set (db_invitations db). x = Some i) \<or>
     (\<exists>v \<in> set (db_versions db). rv_Template v \<noteq> i \<and> (rv_Floor v = Some i \<or> rv_Base v = Some i))"

lemma used_referred: "template_used db i = referred db i"
  by (auto simp: template_used_def referred_def list_ex_iff)

text \<open>The two ways a delete ends.\<close>

definition archived_only :: "uuid \<Rightarrow> ADB \<Rightarrow> ADB \<Rightarrow> bool" where
  "archived_only i db db' \<longleftrightarrow> (\<exists>t \<in> set (db_templates db'). rt_ID t = i \<and> rt_Archived t \<noteq> None) \<and>
     map rt_ID (db_templates db') = map rt_ID (db_templates db) \<and> db_versions db' = db_versions db"

definition removed :: "uuid \<Rightarrow> ADB \<Rightarrow> ADB \<Rightarrow> bool" where
  "removed i db db' \<longleftrightarrow> (\<forall>t \<in> set (db_templates db'). rt_ID t \<noteq> i) \<and> (\<forall>v \<in> set (db_versions db'). rv_Template v \<noteq> i) \<and>
     (\<forall>v \<in> set (db_versions db). rv_Template v \<noteq> i \<longrightarrow> v \<in> set (db_versions db'))"

lemma delete_tx_outcome:
  assumes "delete_template_tx cx actor g i db = Inr (x, db1)"
  shows "if referred db i then archived_only i db db1 else removed i db db1"
proof -
  obtain hh where hh: "loadHead db g i = Inr hh" using assms by (auto simp: delete_template_tx_def split: sum.splits)
  have h: "hh \<in> set (db_templates db)" "rt_ID hh = i" using hh by (auto simp: loadHead_def dest: find_SomeD split: option.splits)
  show ?thesis
  proof (cases "referred db i")
    case False
    then have "db1 = access_audit g actor ''access.template.deleted'' ''template'' i None 0 (drop_template i db)"
      using assms by (simp add: delete_template_tx_def hh used_referred)
    then show ?thesis using False by (auto simp: removed_def access_audit_def drop_template_def)
  next
    case True
    show ?thesis
    proof (cases "rt_Archived hh = None")
      case None: True
      let ?f = "\<lambda>t. if rt_ID t = i then t\<lparr> rt_Archived := Some (cx_now cx) \<rparr> else t"
      have "db1 = access_audit g actor ''access.template.archived'' ''template'' i None 0 (db\<lparr> db_templates := map ?f (db_templates db) \<rparr>)"
        using assms True None by (simp add: delete_template_tx_def hh used_referred)
      then have eq: "db_templates db1 = map ?f (db_templates db)" "db_versions db1 = db_versions db" by (simp_all add: access_audit_def)
      have "?f hh \<in> set (db_templates db1)" unfolding eq(1) set_map by (rule imageI [OF h(1)])
      then have "archived_only i db db1" unfolding archived_only_def eq(2) using h(2) by (intro conjI bexI [of _ "?f hh"]) (simp_all add: eq(1))
      then show ?thesis using True by simp
    next
      case False
      then have "db1 = db" using assms True by (simp add: delete_template_tx_def hh used_referred del: not_None_eq)
      then show ?thesis using True False h by (auto simp: archived_only_def)
    qed
  qed
qed

lemma DeleteTemplate_writes:
  assumes "DeleteTemplate cx actor g i idem db e = (Inr rep, db', e')" "\<not> rp_Replayed rep"
  obtains db0 db1 js where "delete_template_tx cx actor g i db0 = Inr ((), db1)" "same_tables db db0" "db_assignments db0 = db_assignments db"
    "db_invitations db0 = db_invitations db" "db' = bump_org g (db1\<lparr> db_idempotency := js \<rparr>)"
proof -
  obtain e1 where "doWrite cx g actor idem 204 (\<lambda>_. JUnit) dec_unit (delete_template_tx cx actor g i) db e1 = (Inr rep, db', e')"
    using assms(1) by (auto simp: DeleteTemplate_def split: prod.splits sum.splits if_splits)
  then show thesis
  proof (rule doWrite_cases)
    fix v db0 db1 js assume w: "delete_template_tx cx actor g i db0 = Inr (v, db1)" "db0 = db \<or> (\<exists>k. db0 = drop_old_key cx g actor k db)"
      "db' = bump_org g (db1\<lparr> db_idempotency := js \<rparr>)"
    have "same_tables db db0" "db_assignments db0 = db_assignments db" "db_invitations db0 = db_invitations db" using w(2) by (auto simp: drop_old_key_def)
    then show thesis using that [of db0 db1 js] w by simp
  qed (use assms(2) in auto)
qed

lemma DeleteTemplate_outcome:
  assumes "DeleteTemplate cx actor g i idem db e = (Inr rep, db', e')" "\<not> rp_Replayed rep"
  shows "if referred db i then archived_only i db db' else removed i db db'"
proof -
  obtain db0 db1 js where w: "delete_template_tx cx actor g i db0 = Inr ((), db1)" "same_tables db db0" "db_assignments db0 = db_assignments db"
    "db_invitations db0 = db_invitations db" "db' = bump_org g (db1\<lparr> db_idempotency := js \<rparr>)" by (rule DeleteTemplate_writes [OF assms])
  have eqs: "referred db0 i = referred db i" "db_templates db0 = db_templates db" "db_versions db0 = db_versions db"
    using w(2-4) unfolding same_defs referred_def by simp_all
  have "db_templates db' = db_templates db1" "db_versions db' = db_versions db1" by (simp_all add: w(5) bump_org_def)
  then show ?thesis using delete_tx_outcome [OF w(1)] unfolding archived_only_def removed_def by (simp only: eqs)
qed

lemma DeleteTemplate_access:
  assumes "DeleteTemplate cx actor g i idem db e = (r, db', e')" "\<forall>m \<in> set (db_members db). om_Template m \<noteq> Some i" "engine_LoadAccess db u o' = Inr d"
  shows "\<exists>ep. engine_LoadAccess db' u o' = Inr (d\<lparr> d_Epochs := ep \<rparr>)"
proof -
  have same: ?thesis if "db' = db" using that assms(3) by (intro exI [of _ "d_Epochs d"]) simp
  consider "db' = db" | e1 where "doWrite cx g actor idem 204 (\<lambda>_. JUnit) dec_unit (delete_template_tx cx actor g i) db e1 = (r, db', e')"
    using assms(1) by (auto simp: DeleteTemplate_def split: prod.splits sum.splits if_splits)
  then show ?thesis
  proof cases
    case 1 then show ?thesis by (rule same)
  next
    case 2
    then show ?thesis
    proof (rule doWrite_cases)
      fix x db0 db1 js assume w: "delete_template_tx cx actor g i db0 = Inr (x, db1)" "db0 = db \<or> (\<exists>k. db0 = drop_old_key cx g actor k db)"
        "db' = bump_org g (db1\<lparr> db_idempotency := js \<rparr>)"
      have d0: "same_tables db db0" "db_assignments db0 = db_assignments db" "db_invitations db0 = db_invitations db" using w(2) by (auto simp: drop_old_key_def)
      have "kept_refs i db db'" by (rule kept_refs_cong [OF delete_tx_kept [OF w(1)] d0]) (simp_all add: w(3) same_tables_trans [OF same_tables_upd(3) same_tables_upd(5)])
      then show ?thesis by (rule kept_refs_load [OF _ assms(2,3)])
    qed (rule same, assumption)+
  qed
qed

text \<open>
  C21 (safety). Deleting a template: when a delete succeeds (and is not the replay of an earlier one), a template that an
  assignment, a member, an invitation or another template's floor or base refers to is kept with all its versions
  and is archived afterwards, and a template nothing refers to is gone with its versions while the versions of the
  others stay. Whatever the outcome, when no member has it as organization template, nobody's access changes, in any
  organization: the data every decision is made from stay the same but for the epochs.
\<close>

theorem DeleteTemplate_keeps_access:
  assumes "DeleteTemplate cx actor g i idem db e = (r, db', e')"
  shows "(\<forall>rep. r = Inr rep \<and> \<not> rp_Replayed rep \<longrightarrow>
      (if (\<exists>a \<in> set (db_assignments db). as_Template a = i) \<or> (\<exists>m \<in> set (db_members db). om_Template m = Some i) \<or>
          (\<exists>x \<in> set (db_invitations db). x = Some i) \<or>
          (\<exists>v \<in> set (db_versions db). rv_Template v \<noteq> i \<and> (rv_Floor v = Some i \<or> rv_Base v = Some i))
       then (\<exists>t \<in> set (db_templates db'). rt_ID t = i \<and> rt_Archived t \<noteq> None) \<and>
          map rt_ID (db_templates db') = map rt_ID (db_templates db) \<and> db_versions db' = db_versions db
       else (\<forall>t \<in> set (db_templates db'). rt_ID t \<noteq> i) \<and> (\<forall>v \<in> set (db_versions db'). rv_Template v \<noteq> i) \<and>
          (\<forall>v \<in> set (db_versions db). rv_Template v \<noteq> i \<longrightarrow> v \<in> set (db_versions db')))) \<and>
    ((\<forall>m \<in> set (db_members db). om_Template m \<noteq> Some i) \<longrightarrow> engine_LoadAccess db u o' = Inr d \<longrightarrow>
      (\<exists>ep. engine_LoadAccess db' u o' = Inr (d\<lparr> d_Epochs := ep \<rparr>)))"
  using DeleteTemplate_outcome [unfolded referred_def archived_only_def removed_def] DeleteTemplate_access [OF assms] assms by blast

theorem DeleteTemplate_keeps_access_witness:
  "\<exists>d ep. engine_LoadAccess (ex_tdb ex_manager) 6 1 = Inr d \<and>
     engine_LoadAccess (fst (snd (DeleteTemplate ex_cx 5 1 202 None (ex_tdb ex_manager) ex_eng))) 6 1 = Inr (d\<lparr> d_Epochs := ep \<rparr>)"
proof -
  let ?run = "DeleteTemplate ex_cx 5 1 202 None (ex_tdb ex_manager) ex_eng"
  have run: "?run = (fst ?run, fst (snd ?run), snd (snd ?run))" by simp
  obtain d where d: "engine_LoadAccess (ex_tdb ex_manager) 6 1 = Inr d" using ex_tdb_facts(2) by (cases "engine_LoadAccess (ex_tdb ex_manager) 6 1") (auto simp: ok_result_def)
  have "\<forall>m \<in> set (db_members (ex_tdb ex_manager)). om_Template m \<noteq> Some 202" by (simp add: ex_tdb_def ex_member_def)
  then show ?thesis using DeleteTemplate_keeps_access [OF run, of 6 1 d] d by blast
qed

section \<open>Members of a deleted role\<close>

lemma archived_closes:
  assumes wf: "distinct (map rt_ID (db_templates db))" and t: "t \<in> set (db_templates db)" "rt_ID t = i" "rt_Archived t \<noteq> None" and m: "mb_Template m = Some i"
  shows "member_template db m = None"
proof -
  have "find (\<lambda>x. rt_ID x = i) (db_templates db) = Some t"
  proof (cases "find (\<lambda>x. rt_ID x = i) (db_templates db)")
    case None then show ?thesis using t by (auto simp: find_None_iff)
  next
    case (Some t') then show ?thesis using t wf by (auto simp: distinct_map inj_on_def dest!: find_SomeD)
  qed
  then show ?thesis using t(3) m by (auto simp: member_template_def template_version_def split: option.split)
qed

lemma member_found:
  assumes "adb_wf db" "m \<in> set (db_members db)"
  shows "find (\<lambda>x. om_Org x = om_Org m \<and> om_User x = om_User m) (db_members db) = Some m"
proof -
  have key: "distinct (map (\<lambda>m. (om_Org m, om_User m)) (db_members db))" using assms(1) by (simp add: adb_wf_def)
  show ?thesis
  proof (cases "find (\<lambda>x. om_Org x = om_Org m \<and> om_User x = om_User m) (db_members db)")
    case None then show ?thesis using assms(2) by (auto simp: find_None_iff)
  next
    case (Some m') then show ?thesis using assms(2) key by (auto simp: distinct_map inj_on_def dest!: find_SomeD)
  qed
qed

text \<open>
  C22 (error). Deleting the organization template that members have locks them out, all of them, the one who deletes it
  included: when the delete succeeds (and is not the replay of an earlier one), the template is still there, archived, every
  member who has it still has it, and the data the engine loads for the member have no organization template, so the
  member has no permission at any scope at any time, not even what live assignments give in a project. Nothing in the
  operation asks who is left: neither the hypotheses nor the outcome depend on another member who can grant access.
\<close>

theorem DeleteTemplate_locks_out:
  assumes "adb_wf db" "templates_wf db" and "DeleteTemplate cx actor g i idem db e = (Inr rep, db', e')" "\<not> rp_Replayed rep"
    and "m \<in> set (db_members db)" "om_Template m = Some i" and "engine_LoadAccess db (om_User m) (om_Org m) = Inr d"
  shows "m \<in> set (db_members db') \<and> (\<exists>t \<in> set (db_templates db'). rt_ID t = i \<and> rt_Archived t \<noteq> None) \<and>
    (\<exists>d'. engine_LoadAccess db' (om_User m) (om_Org m) = Inr d' \<and> d_Template d' = None \<and> (\<forall>now sc. spec_effective d' now sc = {}))"
proof -
  obtain db0 db1 js where w: "delete_template_tx cx actor g i db0 = Inr ((), db1)" "same_tables db db0" "db_assignments db0 = db_assignments db"
    "db_invitations db0 = db_invitations db" "db' = bump_org g (db1\<lparr> db_idempotency := js \<rparr>)" by (rule DeleteTemplate_writes [OF assms(3,4)])
  have kr: "kept_refs i db db'" by (rule kept_refs_cong [OF delete_tx_kept [OF w(1)] w(2-4)]) (simp_all add: w(5) same_tables_trans [OF same_tables_upd(3) same_tables_upd(5)])
  then have kp: "kept_people db db'" by (simp add: kept_refs_def)
  have "referred db i" using assms(5,6) unfolding referred_def by blast
  then have arch: "archived_only i db db'" using DeleteTemplate_outcome [OF assms(3,4)] by simp
  then obtain t where t: "t \<in> set (db_templates db')" "rt_ID t = i" "rt_Archived t \<noteq> None" unfolding archived_only_def by blast
  have dist: "distinct (map rt_ID (db_templates db'))" using arch assms(2) unfolding archived_only_def templates_wf_def by simp
  obtain d' where d': "engine_LoadAccess db' (om_User m) (om_Org m) = Inr d'" and mem: "d_Member d' = d_Member d"
    and tp: "d_Template d' = d_Template d \<or> (\<exists>x. LoadMembership db (om_Org m) (om_User m) = Some x \<and> d_Template d = member_template db x \<and> d_Template d' = member_template db' x)"
    by (rule kept_people_load [OF kp assms(7)])
  have none: "d_Template d' = None"
  proof (cases rule: LoadAccess_cases [OF d'])
    case 1 then show ?thesis by (simp add: zero_AccessData_def)
  next
    case (2 x r ep)
    have "LoadMembership db (om_Org m) (om_User m) = Some x" using 2(1) kept_people_member(1) [OF kp] by simp
    then have "mb_Template x = Some i" using member_found [OF assms(1,5)] assms(6) by (auto simp: LoadMembership_def split: option.splits)
    then show ?thesis using 2(4) archived_closes [OF dist t] by (simp add: loaded_def)
  qed
  have "spec_effective d' now sc = {}" for now sc by (rule spec_effective_closed) (simp add: resolves_def none)
  moreover have "m \<in> set (db_members db')" using assms(5) kp by (simp add: kept_people_def)
  ultimately show ?thesis using d' none t by blast
qed

text \<open>User 5 alone may grant access in the organization, sees project 10 by an assignment, and deletes the role.\<close>

abbreviation ex_ldb :: ADB where "ex_ldb \<equiv> ex_tdb (ex_capped\<lparr> rv_Ceiling := None \<rparr>)"

lemma ex_ldb_wf: "adb_wf ex_ldb" "templates_wf ex_ldb"
  by (simp_all add: adb_wf_def templates_wf_def ex_tdb_def ex_adb_def ex_arow_def same_live_def ex_capped_def ex_template_def ex_version_def ex_member_def)

lemma ex_lockout:
  "ok_result (fst (DeleteTemplate ex_cx 5 1 101 None ex_ldb ex_eng))" "ok_result (map_sum AInternal id (engine_LoadAccess ex_ldb 5 1))"
  "map_sum id rp_Replayed (fst (DeleteTemplate ex_cx 5 1 101 None ex_ldb ex_eng)) = Inr False"
  by code_simp+

theorem DeleteTemplate_locks_out_witness:
  "\<exists>d'. engine_LoadAccess (fst (snd (DeleteTemplate ex_cx 5 1 101 None ex_ldb ex_eng))) 5 1 = Inr d' \<and> (\<forall>now sc. spec_effective d' now sc = {}) \<and>
   fst (Can (cx_store ex_cx ex_ldb) ex_eng (5, 1) OrgScope ''assignment:grant'' 1000) = Inr True \<and>
   fst (Can (cx_store ex_cx ex_ldb) ex_eng (5, 1) (ProjectScope 10) ''project:view'' 1000) = Inr True"
proof -
  let ?run = "DeleteTemplate ex_cx 5 1 101 None ex_ldb ex_eng"
  obtain rep where run: "?run = (Inr rep, fst (snd ?run), snd (snd ?run))" using ok_resultE [OF ex_lockout(1)] by blast
  have "fst ?run = Inr rep" using run by (metis fst_conv)
  then have nr: "\<not> rp_Replayed rep" using ex_lockout(3) by simp
  obtain d where d: "engine_LoadAccess ex_ldb 5 1 = Inr d" using ex_lockout(2) by (cases "engine_LoadAccess ex_ldb 5 1") (auto simp: ok_result_def)
  let ?m = "(ex_member 5)\<lparr> om_Template := Some 101 \<rparr>"
  have m: "?m \<in> set (db_members ex_ldb)" "om_Template ?m = Some 101" by (simp_all add: ex_tdb_def)
  have k: "om_User ?m = 5" "om_Org ?m = 1" by (simp_all add: ex_member_def)
  have c: "fst (Can (cx_store ex_cx ex_ldb) ex_eng (5, 1) OrgScope ''assignment:grant'' 1000) = Inr True"
    "fst (Can (cx_store ex_cx ex_ldb) ex_eng (5, 1) (ProjectScope 10) ''project:view'' 1000) = Inr True" by code_simp+
  show ?thesis using DeleteTemplate_locks_out [OF ex_ldb_wf run nr m, unfolded k, OF d] c by blast
qed

end
