(* ===== verification/Access_Override.thy ===== *)
theory Access_Override
  imports Access_Delete
begin

text \<open>
  The access policy of a project and the organization role of a person (\<^verbatim>\<open>internal/access/override.go\<close>), with the overlay
  engine of \<^verbatim>\<open>simulate.go\<close> that the preview uses and the trigger of \<^verbatim>\<open>000071_access_sync_triggers.up.sql\<close> that runs on an
  update of a membership row.

  The preview asks the engine for the members in eight goroutines at a time; the model asks in the order of the query,
  one of the orders in which they can run. The list is sorted afterwards; all members are asked even after an error.
\<close>

section \<open>The preview (wouldHide)\<close>

definition maxWouldHideScan :: nat where "maxWouldHideScan = 5000"

definition overlayStore :: "(AccessData \<Rightarrow> AccessData) \<Rightarrow> Store \<Rightarrow> Store" where
  "overlayStore mutate inner = inner\<lparr> st_LoadAccess := (\<lambda>k. case st_LoadAccess inner k of
     Inr (Some d) \<Rightarrow> Inr (Some (if d_Member d then mutate d else d)) | r \<Rightarrow> r) \<rparr>"

definition overlayEngine :: Engine where "overlayEngine = New 0 0"

definition set_mode :: "uuid \<Rightarrow> string option \<Rightarrow> AccessData \<Rightarrow> AccessData" where
  "set_mode project newMode d = (case newMode of
     None \<Rightarrow> d\<lparr> d_ProjectOverrides := gomap_del project (d_ProjectOverrides d) \<rparr>
   | Some m \<Rightarrow> d\<lparr> d_ProjectOverrides := gomap_set project m (d_ProjectOverrides d) \<rparr>)"

text \<open>One goroutine: the answer is whether the member loses the project.\<close>

definition hides_from :: "Ctx \<Rightarrow> ADB \<Rightarrow> uuid \<Rightarrow> uuid \<Rightarrow> string option \<Rightarrow> uuid \<Rightarrow> Engine \<times> Engine \<Rightarrow> (aerr + bool) \<times> Engine \<times> Engine" where
  "hides_from cx db g project newMode u es =
     (let (r, e') = Effective (cx_store cx db) (fst es) (u, g) (ProjectScope project) (cx_now cx)
      in case r of
           Inl x \<Rightarrow> (Inl (AInternal x), e', snd es)
         | Inr (acc, _) \<Rightarrow>
             if acc_Member acc \<and> \<not> acc_Hidden acc then
               let (r2, h') = Effective (overlayStore (set_mode project newMode) (cx_store cx db)) (snd es) (u, g) (ProjectScope project) (cx_now cx)
               in (map_sum AInternal (\<lambda>(nxt, _). acc_Hidden nxt) r2, e', h')
             else (Inr False, e', snd es))"

fun hide_loop :: "Ctx \<Rightarrow> ADB \<Rightarrow> uuid \<Rightarrow> uuid \<Rightarrow> string option \<Rightarrow> uuid list \<Rightarrow> uuid list \<Rightarrow> aerr option \<Rightarrow> Engine \<times> Engine
    \<Rightarrow> (aerr + uuid list) \<times> Engine" where
  "hide_loop cx db g project newMode [] hide first es = (case first of None \<Rightarrow> (Inr hide, fst es) | Some x \<Rightarrow> (Inl x, fst es))"
| "hide_loop cx db g project newMode (u # us) hide first es =
     (case hides_from cx db g project newMode u es of
        (Inl x, es') \<Rightarrow> hide_loop cx db g project newMode us hide (if first = None then Some x else first) es'
      | (Inr b, es') \<Rightarrow> hide_loop cx db g project newMode us (if b then hide @ [u] else hide) first es')"

definition userRefs :: "ADB \<Rightarrow> uuid list \<Rightarrow> (uuid, UserRef) gomap" where
  "userRefs db us = map (\<lambda>x. (us_ID x, \<lparr> ur_ID = us_ID x, ur_Email = us_Email x, ur_Name = us_Name x \<rparr>)) (filter (\<lambda>x. us_ID x \<in> set us) (db_users db))"

definition zero_UserRef :: UserRef where "zero_UserRef = \<lparr> ur_ID = uuid_Nil, ur_Email = [], ur_Name = [] \<rparr>"

definition wouldHide :: "Ctx \<Rightarrow> ADB \<Rightarrow> uuid \<Rightarrow> uuid \<Rightarrow> string option \<Rightarrow> UserRef list astep" where
  "wouldHide cx db g project newMode e =
     (let members = take (maxWouldHideScan + 1) (sort (map om_User (filter (\<lambda>m. om_Org m = g) (db_members db))))
      in if length members > maxWouldHideScan then fail (limitErr ''the organization is too large to preview the visibility change'') e
         else case hide_loop cx db g project newMode members [] None (e, overlayEngine) of
                (Inl x, e') \<Rightarrow> (Inl x, e')
              | (Inr hide, e') \<Rightarrow> (Inr (sort_key ur_Email (sort_key ur_ID (map (gomap_at zero_UserRef (userRefs db hide)) hide))), e'))"

section \<open>The access policy of a project (SetAccessOverride)\<close>

record OverridePlan =
  op_Old :: "string option"
  op_EffOld :: string
  op_EffNew :: string
  op_Hide :: int

definition would_hide_error :: "UserRef list \<Rightarrow> aerr" where
  "would_hide_error hide = AError 409 ''CONFLICT'' ''this change would hide the project from people who see it now; repeat with confirm=true''
     [(''code'', DText ''WOULD_HIDE''), (''would_hide'', DRefs (take 200 hide)), (''would_hide_count'', DInt (int (length hide)))]"

definition override_guard :: "Ctx \<Rightarrow> ADB \<Rightarrow> uuid \<Rightarrow> uuid \<Rightarrow> uuid \<Rightarrow> string option \<Rightarrow> bool \<Rightarrow> OverridePlan astep" where
  "override_guard cx db actor g project mode confirm =
     andThen (require cx db actor g OrgScope [''org:access-policy''])
       (\<lambda>_. if mode \<noteq> None \<and> mode \<noteq> Some ''open'' \<and> mode \<noteq> Some ''restricted'' then fail (validationField ''mode'' ''must be open, restricted or null'')
          else andThen (svc_effective cx db actor g (ProjectScope project) False)
            (\<lambda>(acc, _).
               if \<not> list_ex (\<lambda>p. pj_ID p = project \<and> pj_Org p = g \<and> \<not> pj_Deleted p) (db_projects db) \<or> acc_Hidden acc then fail (notFound ''project not found'')
               else case (find (\<lambda>o'. ao_ID o' = g) (db_orgs db), find (\<lambda>p. pj_ID p = project \<and> pj_Org p = g) (db_projects db)) of
                      (Some org, Some p) \<Rightarrow>
                        let effOld = (case pj_Override p of None \<Rightarrow> ao_Mode org | Some m \<Rightarrow> m); effNew = (case mode of None \<Rightarrow> ao_Mode org | Some m \<Rightarrow> m);
                            plan = (\<lambda>n. \<lparr> op_Old = pj_Override p, op_EffOld = effOld, op_EffNew = effNew, op_Hide = n \<rparr>)
                        in if effNew = ''restricted'' \<and> effOld \<noteq> ''restricted'' then
                             andThen (wouldHide cx db g project mode)
                               (\<lambda>hide. if hide \<noteq> [] \<and> \<not> confirm then fail (would_hide_error hide) else pure (plan (int (length hide))))
                           else pure (plan 0)
                    | _ \<Rightarrow> fail (AInternal ''no rows in result set'')))"

definition override_tx :: "uuid \<Rightarrow> uuid \<Rightarrow> uuid \<Rightarrow> string option \<Rightarrow> OverridePlan \<Rightarrow> ADB \<Rightarrow> aerr + OverrideResult \<times> ADB" where
  "override_tx actor g project mode plan db =
     (let hit = (\<lambda>p. pj_ID p = project \<and> pj_Org p = g \<and> \<not> pj_Deleted p)
      in if \<not> list_ex hit (db_projects db) then Inl ADomainNotFound
         else
           let db1 = db\<lparr> db_projects := map (\<lambda>p. if hit p then p\<lparr> pj_Override := mode \<rparr> else p) (db_projects db) \<rparr>;
               db2 = (if op_Old plan \<noteq> mode then access_audit g actor ''access.mode.changed'' ''org_policy'' project (Some project) (op_Hide plan) db1 else db1)
           in Inr (\<lparr> ov_Mode = mode, ov_EffectiveMode = op_EffNew plan \<rparr>, db2))"

definition dec_override :: "json \<Rightarrow> OverrideResult option" where
  "dec_override j = (case j of JOverride r \<Rightarrow> Some r | _ \<Rightarrow> None)"

definition SetAccessOverride :: "Ctx \<Rightarrow> uuid \<Rightarrow> uuid \<Rightarrow> uuid \<Rightarrow> string option \<Rightarrow> bool \<Rightarrow> Idem option \<Rightarrow> ADB \<Rightarrow> Engine
    \<Rightarrow> (aerr + OverrideResult Reply) \<times> ADB \<times> Engine" where
  "SetAccessOverride cx actor g project mode confirm idem db e =
     (case override_guard cx db actor g project mode confirm e of
        (Inl x, e') \<Rightarrow> (Inl x, db, e')
      | (Inr plan, e') \<Rightarrow> doWrite cx g actor idem 200 JOverride dec_override (override_tx actor g project mode plan) db e')"

section \<open>The role of a member (SetMemberTemplate)\<close>

definition loadOrgMember :: "ADB \<Rightarrow> uuid \<Rightarrow> uuid \<Rightarrow> aerr + OrgMemberDTO" where
  "loadOrgMember db g user =
     (case (find (\<lambda>m. om_Org m = g \<and> om_User m = user) (db_members db), find (\<lambda>x. us_ID x = user) (db_users db)) of
        (Some m, Some x) \<Rightarrow>
          let tpl = Option.bind (om_Template m) (\<lambda>i. find (\<lambda>t. rt_ID t = i) (db_templates db));
              groups = concat (map (\<lambda>gm. filter (\<lambda>gr. gr_ID gr = gm_Group gm \<and> gr_Org gr = g \<and> gr_Archived gr = None) (db_groups db))
                (filter (\<lambda>gm. gm_User gm = user) (db_group_members db)))
          in Inr \<lparr> md_User = \<lparr> ur_ID = us_ID x, ur_Email = us_Email x, ur_Name = us_Name x \<rparr>, md_Role = om_Role m,
                   md_Template = map_option (\<lambda>t. \<lparr> mt_Slug = rt_Slug t, mt_Version = (case om_Version m of Some n \<Rightarrow> n | None \<Rightarrow> rt_Current t), mt_System = rt_System t \<rparr>) tpl,
                   md_Status = om_Status m, md_Groups = sort (map gr_Slug groups), md_JoinedAt = om_JoinedAt m \<rparr>
      | _ \<Rightarrow> Inl ADomainNotFound)"

definition legacyLabel :: "ADB \<Rightarrow> TemplateRow \<Rightarrow> VersionRow \<Rightarrow> string" where
  "legacyLabel db h v =
     (if rt_System h then rt_Slug h
      else case List.map_filter (\<lambda>t. if rt_System t \<and> rt_Kind t = ''org'' \<and> rt_Slug t = ''member''
                  then find (\<lambda>w. rv_Template w = rt_ID t \<and> rv_Version w = rt_Current t) (db_versions db) else None) (db_templates db) of
             [] \<Rightarrow> ''readonly''
           | w # _ \<Rightarrow> if ContainsAll (NewSet (rv_Permissions v)) (NewSet (rv_Permissions w)) then ''member'' else ''readonly'')"

definition named_template :: "ADB \<Rightarrow> uuid \<Rightarrow> string \<Rightarrow> TemplateRow option" where
  "named_template db g slug =
     (case sort_key (\<lambda>t. if rt_System t then 1 else (0::nat)) (filter (\<lambda>t. rt_Kind t = ''org'' \<and> rt_Slug t = slug \<and> (rt_Org t = Some g \<or> rt_System t)) (db_templates db)) of
        [] \<Rightarrow> None | t # _ \<Rightarrow> Some t)"

text \<open>What the rule against escalation compares: every permission of the new role counts as added.\<close>

definition role_part :: "ADB \<Rightarrow> uuid option \<Rightarrow> uuid option \<times> pset" where
  "role_part db i = (case i of None \<Rightarrow> (None, empty_set)
     | Some j \<Rightarrow> (case loadVer db j 0 of Inl _ \<Rightarrow> (None, empty_set) | Inr w \<Rightarrow> (Some j, NewSet (rv_Permissions w))))"

definition role_prepared :: "ADB \<Rightarrow> VersionRow \<Rightarrow> preparedTemplate" where
  "role_prepared db ver = \<lparr> pt_Perms = NewSet (rv_Permissions ver), pt_PermIDs = [], pt_Ceiling = None,
     pt_FloorID = fst (role_part db (rv_Floor ver)), pt_BaseID = fst (role_part db (rv_Base ver)),
     pt_FloorSet = snd (role_part db (rv_Floor ver)), pt_BaseSet = snd (role_part db (rv_Base ver)), pt_Name = [], pt_Description = [], pt_Note = [],
     pt_baselinePerms = empty_set, pt_baselineFloor = empty_set, pt_baselineBase = empty_set, pt_baselineFloorI = None, pt_baselineBaseI = None \<rparr>"

abbreviation owner_ID :: "Ctx \<Rightarrow> uuid" where "owner_ID cx \<equiv> template_ID (cx_uuid cx) KindOrg ''owner''"

definition role_version :: "ADB \<Rightarrow> uuid \<Rightarrow> string \<Rightarrow> aerr + TemplateRow \<times> VersionRow" where
  "role_version db g slug =
     (case named_template db g slug of
        None \<Rightarrow> Inl (validationField ''template'' ''no such organization template'')
      | Some t \<Rightarrow>
          if rt_Archived t \<noteq> None then Inl (conflict ''TEMPLATE_ARCHIVED'' ''template is archived'')
          else
            (case loadHead db g (rt_ID t) of
               Inl x \<Rightarrow> Inl (access_Normalize x)
             | Inr h \<Rightarrow>
                 (case loadVer db (rt_ID t) 0 of
                    Inl x \<Rightarrow> Inl (access_Normalize x)
                  | Inr ver \<Rightarrow>
                      if rt_System h then Inr (h, ver)
                      else (case load_orgSettings db g of
                              Inl x \<Rightarrow> Inl x
                            | Inr st \<Rightarrow> if \<not> set_CustomRoles st then Inl (validationField ''template'' ''custom roles are not enabled for this organization'') else Inr (h, ver)))))"

definition role_guard :: "Ctx \<Rightarrow> ADB \<Rightarrow> uuid \<Rightarrow> uuid \<Rightarrow> uuid \<Rightarrow> string \<Rightarrow> (TemplateRow \<times> string) astep" where
  "role_guard cx db actor g user slug =
     andThen (require cx db actor g OrgScope [''member:update''])
       (\<lambda>orgSet. if \<not> slugRE slug then fail (validationField ''template'' ''a template slug is required'')
          else case loadOrgMember db g user of
                 Inl _ \<Rightarrow> fail (notFound ''member not found'')
               | Inr mem \<Rightarrow>
                   (case role_version db g slug of
                      Inl x \<Rightarrow> fail x
                    | Inr (h, ver) \<Rightarrow>
                        let owner = isOwner cx db g actor;
                            targetIsOwner = (case md_Template mem of None \<Rightarrow> False | Some t \<Rightarrow> mt_System t \<and> mt_Slug t = ''owner'')
                        in if actor = user then fail (forbidden ''you cannot change your own role'')
                           else if targetIsOwner \<and> \<not> owner then fail (forbidden ''only an owner can change an owner'')
                           else if rt_ID h = owner_ID cx \<and> \<not> owner then fail (escalation ''only an owner can assign the owner template'' [] ''owner_required'')
                           else andThen (if owner then pure () else checkNoEscalation cx db actor g ''org'' orgSet (role_prepared db ver))
                                  (\<lambda>_. pure (h, legacyLabel db h ver))))"

text \<open>The trigger on an update of a membership row (\<open>access_trg_org_members_sync\<close>). When the label changes and the
  template does not, the template becomes the system template with that label.\<close>

definition system_named :: "ADB \<Rightarrow> string \<Rightarrow> uuid option" where
  "system_named db role = map_option rt_ID (find (\<lambda>t. rt_System t \<and> rt_Kind t = ''org'' \<and> rt_Slug t = role) (db_templates db))"

definition org_members_sync :: "ADB \<Rightarrow> OrgMember \<Rightarrow> OrgMember \<Rightarrow> aerr + OrgMember" where
  "org_members_sync db old new =
     (let t = Option.bind (om_Template new) (\<lambda>i. find (\<lambda>t. rt_ID t = i \<and> rt_Kind t = ''org'' \<and> (rt_Org t = None \<or> rt_Org t = Some (om_Org new))) (db_templates db));
          role_ch = (om_Role new \<noteq> om_Role old); tpl_ch = (om_Template new \<noteq> om_Template old)
      in if om_Template new \<noteq> None \<and> t = None then Inl (ARepo ErrAccessInvalid ''not an organization template'')
         else if role_ch \<and> \<not> tpl_ch then Inr (new\<lparr> om_Template := system_named db (om_Role new), om_Version := None \<rparr>)
         else if tpl_ch \<and> \<not> role_ch then Inr (case t of Some h \<Rightarrow> if rt_System h then new\<lparr> om_Role := rt_Slug h \<rparr> else new | None \<Rightarrow> new)
         else Inr new)"

definition active_owners :: "uuid \<Rightarrow> ADB \<Rightarrow> uuid \<Rightarrow> OrgMember list" where
  "active_owners i db g = filter (\<lambda>m. om_Org m = g \<and> om_Status m = ''active'' \<and> om_Template m = Some i \<and>
     list_ex (\<lambda>x. us_ID x = om_User m \<and> us_Status x = ''active'') (db_users db)) (db_members db)"

text \<open>A row without a template makes the comparison with the owner template NULL, which does not scan into a bool.\<close>

definition role_tx :: "Ctx \<Rightarrow> uuid \<Rightarrow> uuid \<Rightarrow> uuid \<Rightarrow> uuid \<Rightarrow> string \<Rightarrow> ADB \<Rightarrow> aerr + OrgMemberDTO \<times> ADB" where
  "role_tx cx actor g user i label db =
     (case find (\<lambda>m. om_Org m = g \<and> om_User m = user) (db_members db) of
        None \<Rightarrow> Inl ADomainNotFound
      | Some m \<Rightarrow>
          (case om_Template m of
             None \<Rightarrow> Inl (AInternal ''cannot scan NULL into *bool'')
           | Some old \<Rightarrow>
               if old = owner_ID cx \<and> i \<noteq> owner_ID cx \<and> length (active_owners (owner_ID cx) db g) \<le> 1
               then Inl (conflict ''LAST_OWNER'' ''an organization needs at least one active owner'')
               else
                 (case org_members_sync db m (m\<lparr> om_Template := Some i, om_Version := None, om_Role := label \<rparr>) of
                    Inl x \<Rightarrow> Inl x
                  | Inr m' \<Rightarrow>
                      let db1 = db\<lparr> db_members := map (\<lambda>x. if om_Org x = g \<and> om_User x = user then m' else x) (db_members db) \<rparr>;
                          db2 = access_audit g actor ''access.org_member.role_changed'' ''org_member'' user None 1 db1
                      in (case loadOrgMember db2 g user of Inl x \<Rightarrow> Inl x | Inr d \<Rightarrow> Inr (d, db2)))))"

definition dec_member :: "json \<Rightarrow> OrgMemberDTO option" where
  "dec_member j = (case j of JOrgMember d \<Rightarrow> Some d | _ \<Rightarrow> None)"

definition SetMemberTemplate :: "Ctx \<Rightarrow> uuid \<Rightarrow> uuid \<Rightarrow> uuid \<Rightarrow> string \<Rightarrow> Idem option \<Rightarrow> ADB \<Rightarrow> Engine
    \<Rightarrow> (aerr + OrgMemberDTO Reply) \<times> ADB \<times> Engine" where
  "SetMemberTemplate cx actor g user slug idem db e =
     (case role_guard cx db actor g user slug e of
        (Inl x, e') \<Rightarrow> (Inl x, db, e')
      | (Inr (h, label), e') \<Rightarrow> doWrite cx g actor idem 200 JOrgMember dec_member (role_tx cx actor g user (rt_ID h) label) db e')"

section \<open>What a change of role writes\<close>

definition owner_seeded :: "uuid_lib \<Rightarrow> ADB \<Rightarrow> bool" where
  "owner_seeded U db \<longleftrightarrow> (let i = template_ID U KindOrg ''owner''; own = (\<lambda>t. rt_System t \<and> rt_Kind t = ''org'' \<and> rt_Slug t = ''owner'') in
     (\<exists>t \<in> set (db_templates db). rt_ID t = i \<and> own t) \<and> (\<forall>t \<in> set (db_templates db). own t \<longrightarrow> rt_ID t = i))"

lemma role_txE:
  assumes "role_tx cx actor g user i label db = Inr (dto, db1)"
  obtains m old m' where "find (\<lambda>m. om_Org m = g \<and> om_User m = user) (db_members db) = Some m" "om_Template m = Some old"
    "old = owner_ID cx \<Longrightarrow> i \<noteq> owner_ID cx \<Longrightarrow> 1 < length (active_owners (owner_ID cx) db g)"
    "org_members_sync db m (m\<lparr> om_Template := Some i, om_Version := None, om_Role := label \<rparr>) = Inr m'"
    "db1 = access_audit g actor ''access.org_member.role_changed'' ''org_member'' user None 1
       (db\<lparr> db_members := map (\<lambda>x. if om_Org x = g \<and> om_User x = user then m' else x) (db_members db) \<rparr>)"
    "loadOrgMember db1 g user = Inr dto"
proof -
  obtain m old where m: "find (\<lambda>m. om_Org m = g \<and> om_User m = user) (db_members db) = Some m" "om_Template m = Some old"
    using assms by (auto simp: role_tx_def split: option.splits)
  let ?new = "m\<lparr> om_Template := Some i, om_Version := None, om_Role := label \<rparr>"
  obtain m' where m': "org_members_sync db m ?new = Inr m'" using assms m by (cases "org_members_sync db m ?new") (auto simp: role_tx_def split: if_splits)
  show thesis using assms m m' that [of m old m'] by (auto simp: role_tx_def Let_def split: if_splits sum.splits)
qed

lemma sync_cases:
  assumes "org_members_sync db m (m\<lparr> om_Template := Some i, om_Version := None, om_Role := label \<rparr>) = Inr m'"
  shows "om_Org m' = om_Org m" "om_User m' = om_User m" "om_Status m' = om_Status m" "om_JoinedAt m' = om_JoinedAt m" "om_Version m' = None"
    "om_Template m' = (if label \<noteq> om_Role m \<and> om_Template m = Some i then system_named db label else Some i)"
    "\<exists>t \<in> set (db_templates db). rt_ID t = i \<and> rt_Kind t = ''org''"
proof -
  let ?find = "find (\<lambda>t. rt_ID t = i \<and> rt_Kind t = ''org'' \<and> (rt_Org t = None \<or> rt_Org t = Some (om_Org m))) (db_templates db)"
  obtain t where t: "?find = Some t" using assms by (cases ?find) (auto simp: org_members_sync_def Let_def)
  then show "\<exists>t \<in> set (db_templates db). rt_ID t = i \<and> rt_Kind t = ''org''" by (auto dest: find_SomeD)
  note eq = assms [unfolded org_members_sync_def Let_def]
  show "om_Org m' = om_Org m" "om_User m' = om_User m" "om_Status m' = om_Status m" "om_JoinedAt m' = om_JoinedAt m" "om_Version m' = None"
    "om_Template m' = (if label \<noteq> om_Role m \<and> om_Template m = Some i then system_named db label else Some i)"
    using eq t by (auto split: if_splits)
qed

lemma system_named_org: "system_named db role = Some j \<Longrightarrow> \<exists>t \<in> set (db_templates db). rt_ID t = j \<and> rt_Kind t = ''org''"
  by (auto simp: system_named_def dest: find_SomeD)

lemma owner_named: "owner_seeded U db \<Longrightarrow> system_named db ''owner'' = Some (template_ID U KindOrg ''owner'')"
proof -
  assume o: "owner_seeded U db"
  let ?P = "\<lambda>t. rt_System t \<and> rt_Kind t = ''org'' \<and> rt_Slug t = ''owner''"
  obtain t where "find ?P (db_templates db) = Some t" using o by (cases "find ?P (db_templates db)") (auto simp: owner_seeded_def Let_def find_None_iff)
  then show ?thesis using o find_SomeD by (fastforce simp: owner_seeded_def Let_def system_named_def)
qed

lemma role_keeps_owner:
  assumes wf: "adb_wf db" and seed: "owner_seeded (cx_uuid cx) db" and tx: "role_tx cx actor g user i label db = Inr (dto, db1)"
    and label: "i = owner_ID cx \<Longrightarrow> label = ''owner''" and own: "active_owners (owner_ID cx) db g' \<noteq> []"
  shows "active_owners (owner_ID cx) db1 g' \<noteq> []"
proof (rule role_txE [OF tx])
  fix m old m' assume m: "find (\<lambda>m. om_Org m = g \<and> om_User m = user) (db_members db) = Some m" "om_Template m = Some old"
    and last: "old = owner_ID cx \<Longrightarrow> i \<noteq> owner_ID cx \<Longrightarrow> 1 < length (active_owners (owner_ID cx) db g)"
    and sync: "org_members_sync db m (m\<lparr> om_Template := Some i, om_Version := None, om_Role := label \<rparr>) = Inr m'"
    and db1: "db1 = access_audit g actor ''access.org_member.role_changed'' ''org_member'' user None 1
       (db\<lparr> db_members := map (\<lambda>x. if om_Org x = g \<and> om_User x = user then m' else x) (db_members db) \<rparr>)"
  let ?A = "\<lambda>x. om_Org x = g' \<and> om_Status x = ''active'' \<and> om_Template x = Some (owner_ID cx) \<and> list_ex (\<lambda>u. us_ID u = om_User x \<and> us_Status u = ''active'') (db_users db)"
  have mm: "m \<in> set (db_members db)" "om_Org m = g" "om_User m = user" using find_SomeD [OF m(1)] by auto
  have key: "distinct (map (\<lambda>m. (om_Org m, om_User m)) (db_members db))" using wf by (simp add: adb_wf_def)
  have is_m: "x = m" if "x \<in> set (db_members db)" "om_Org x = g" "om_User x = user" for x
    using key that mm by (auto simp: distinct_map inj_on_def)
  let ?f = "\<lambda>x. if om_Org x = g \<and> om_User x = user then m' else x"
  have ms: "db_members db1 = map ?f (db_members db)" by (simp add: db1 access_audit_def)
  have after: "\<exists>x \<in> set (db_members db1). ?A x" if x: "x \<in> set (db_members db)" "?A x" "x \<noteq> m \<or> ?A m'" for x
  proof (rule bexI)
    show "?A (?f x)"
    proof (cases "om_Org x = g \<and> om_User x = user")
      case True
      then have "?A m'" using x is_m by blast
      then show ?thesis using True by (simp only: if_True simp_thms)
    next
      case False then show ?thesis using x(2) by (simp only: if_False simp_thms)
    qed
    show "?f x \<in> set (db_members db1)" unfolding ms set_map by (rule imageI [OF x(1)])
  qed
  have users: "db_users db1 = db_users db" by (simp add: db1 access_audit_def)
  obtain x where x: "x \<in> set (db_members db)" "?A x" using own by (auto simp: active_owners_def filter_empty_conv)
  have "\<exists>x \<in> set (db_members db1). ?A x"
  proof (cases "x = m \<and> \<not> ?A m'")
    case False then show ?thesis using after [OF x] by blast
  next
    case True
    have old: "old = owner_ID cx" "g' = g" using True x m(2) mm by auto
    have i: "i \<noteq> owner_ID cx"
    proof
      assume i: "i = owner_ID cx"
      then have "om_Template m' = Some (owner_ID cx)" using sync_cases(6) [OF sync] label owner_named [OF seed] by simp
      then show False using True x sync_cases(1-3) [OF sync] by auto
    qed
    have "\<exists>y \<in> set (active_owners (owner_ID cx) db g). y \<noteq> m"
    proof (rule ccontr)
      assume "\<not> ?thesis"
      then have "set (active_owners (owner_ID cx) db g) \<subseteq> {m}" by blast
      moreover have "distinct (active_owners (owner_ID cx) db g)" using key by (simp add: active_owners_def distinct_map)
      ultimately have "length (active_owners (owner_ID cx) db g) \<le> 1" by (metis card_mono distinct_card finite.emptyI finite_insert is_singletonI is_singleton_altdef)
      then show False using last [OF old(1) i] by simp
    qed
    then obtain y where "y \<in> set (db_members db)" "?A y" "y \<noteq> m" using old(2) by (auto simp: active_owners_def)
    then show ?thesis using after by blast
  qed
  then show ?thesis unfolding active_owners_def users filter_empty_conv by blast
qed

text \<open>Rows that are replaced by rows with the same keys.\<close>

lemma adb_wf_rekeyed:
  "adb_wf db \<Longrightarrow> map (\<lambda>m. (om_Org m, om_User m)) ms = map (\<lambda>m. (om_Org m, om_User m)) (db_members db) \<Longrightarrow> adb_wf (db\<lparr> db_members := ms \<rparr>)"
  "adb_wf db \<Longrightarrow> map pj_ID ps = map pj_ID (db_projects db) \<Longrightarrow> adb_wf (db\<lparr> db_projects := ps \<rparr>)"
  "adb_wf (access_audit g actor action kind i project impact db) = adb_wf db"
  by (simp_all add: adb_wf_def access_audit_def)

lemma role_tx_tables:
  assumes wf: "adb_wf db" "templates_wf db" and tx: "role_tx cx actor g user i label db = Inr (dto, db1)"
  shows "adb_wf db1" "templates_wf db1" "db_templates db1 = db_templates db" "db_versions db1 = db_versions db"
proof -
  obtain m old m' where m: "find (\<lambda>m. om_Org m = g \<and> om_User m = user) (db_members db) = Some m"
    and sync: "org_members_sync db m (m\<lparr> om_Template := Some i, om_Version := None, om_Role := label \<rparr>) = Inr m'"
    and db1: "db1 = access_audit g actor ''access.org_member.role_changed'' ''org_member'' user None 1
       (db\<lparr> db_members := map (\<lambda>x. if om_Org x = g \<and> om_User x = user then m' else x) (db_members db) \<rparr>)" by (rule role_txE [OF tx])
  let ?f = "\<lambda>x. if om_Org x = g \<and> om_User x = user then m' else x"
  have mm: "om_Org m = g" "om_User m = user" using find_SomeD [OF m] by auto
  have keys: "map (\<lambda>m. (om_Org m, om_User m)) (map ?f (db_members db)) = map (\<lambda>m. (om_Org m, om_User m)) (db_members db)"
    using sync_cases(1,2) [OF sync] mm by auto
  show "adb_wf db1" unfolding db1 adb_wf_rekeyed(3) by (rule adb_wf_rekeyed(1) [OF wf(1) keys])
  have new: "\<exists>t \<in> set (db_templates db). rt_ID t = j \<and> rt_Kind t = ''org''" if "om_Template m' = Some j" for j
    using that sync_cases(6,7) [OF sync] system_named_org by (auto split: if_splits)
  have "\<forall>x \<in> set (map ?f (db_members db)). \<forall>j. om_Template x = Some j \<longrightarrow> (\<exists>t \<in> set (db_templates db). rt_ID t = j \<and> rt_Kind t = ''org'')"
    using wf(2) new by (auto simp: templates_wf_def)
  then show "templates_wf db1" using wf(2) unfolding templates_wf_def db1 access_audit_def by simp
  show "db_templates db1 = db_templates db" "db_versions db1 = db_versions db" by (simp_all add: db1 access_audit_def)
qed

lemma override_tx_tables:
  assumes "adb_wf db" "templates_wf db" "override_tx actor g project mode plan db = Inr (res, db1)"
  shows "adb_wf db1" "templates_wf db1" "db_templates db1 = db_templates db" "db_versions db1 = db_versions db" "db_members db1 = db_members db" "db_users db1 = db_users db"
proof -
  have ids: "map pj_ID (map (\<lambda>p. if pj_ID p = project \<and> pj_Org p = g \<and> \<not> pj_Deleted p then p\<lparr> pj_Override := mode \<rparr> else p) (db_projects db)) = map pj_ID (db_projects db)" by simp
  show "adb_wf db1" using adb_wf_rekeyed(2) [OF assms(1) ids] assms(3) adb_wf_rekeyed(3) unfolding override_tx_def Let_def by (auto split: if_splits)
  show "templates_wf db1" using assms(2,3) by (auto simp: templates_wf_def override_tx_def access_audit_def Let_def split: if_splits)
qed (use assms(3) in \<open>auto simp: override_tx_def access_audit_def Let_def split: if_splits\<close>)

section \<open>A role that is not the one asked for\<close>

lemma sync_role:
  assumes "org_members_sync db m (m\<lparr> om_Template := Some i, om_Version := None, om_Role := label \<rparr>) = Inr m'" "label \<noteq> om_Role m"
  shows "om_Role m' = label"
  using assms unfolding org_members_sync_def Let_def by (auto split: if_splits)

lemma role_guard_Inr:
  assumes "role_guard cx db actor g user slug e = (Inr (h, label), e')"
  obtains ver where "role_version db g slug = Inr (h, ver)" "label = legacyLabel db h ver"
proof -
  obtain orgSet e1 where rq: "require cx db actor g OrgScope [''member:update''] e = (Inr orgSet, e1)" using assms by (auto simp: role_guard_def andThen_Inr)
  obtain mem where mem: "loadOrgMember db g user = Inr mem" using assms rq by (auto simp: role_guard_def andThen_Inr split: if_splits sum.splits)
  obtain h' ver where rv: "role_version db g slug = Inr (h', ver)" using assms rq mem by (auto simp: role_guard_def andThen_Inr split: if_splits sum.splits)
  have "h' = h" "label = legacyLabel db h ver" using assms rq mem rv by (auto simp: role_guard_def andThen_Inr Let_def split: if_splits)
  then show thesis using that rv by blast
qed

lemma role_version_head:
  assumes "role_version db g slug = Inr (h, ver)"
  shows "h \<in> set (db_templates db)"
  using assms by (auto simp: role_version_def loadHead_def dest: find_SomeD split: option.splits sum.splits if_splits)

lemma SetMemberTemplate_writes:
  assumes "SetMemberTemplate cx actor g user slug idem db e = (Inr rep, db', e')" "\<not> rp_Replayed rep"
  obtains h ver db0 db1 js dto where "role_version db g slug = Inr (h, ver)" "role_tx cx actor g user (rt_ID h) (legacyLabel db h ver) db0 = Inr (dto, db1)"
    "same_tables db db0" "db' = bump_org g (db1\<lparr> db_idempotency := js \<rparr>)"
proof -
  obtain h label e1 where gd: "role_guard cx db actor g user slug e = (Inr (h, label), e1)"
    and wr: "doWrite cx g actor idem 200 JOrgMember dec_member (role_tx cx actor g user (rt_ID h) label) db e1 = (Inr rep, db', e')"
    using assms(1) by (auto simp: SetMemberTemplate_def split: prod.splits sum.splits)
  obtain ver where rv: "role_version db g slug = Inr (h, ver)" "label = legacyLabel db h ver" by (rule role_guard_Inr [OF gd])
  show thesis
  proof (rule doWrite_cases [OF wr])
    fix v db0 db1 js assume w: "role_tx cx actor g user (rt_ID h) label db0 = Inr (v, db1)" "db0 = db \<or> (\<exists>k. db0 = drop_old_key cx g actor k db)"
      "db' = bump_org g (db1\<lparr> db_idempotency := js \<rparr>)"
    have "same_tables db db0" using w(2) by auto
    then show thesis using that [OF rv(1), of db0 v db1 js] w(1,3) rv(2) by simp
  qed (use assms(2) in auto)
qed

lemma SetMemberTemplate_row:
  assumes "SetMemberTemplate cx actor g user slug idem db e = (Inr rep, db', e')" "\<not> rp_Replayed rep" and wf: "adb_wf db"
    and m: "m \<in> set (db_members db)" "om_Org m = g" "om_User m = user" and rv: "role_version db g slug = Inr (h, ver)"
  obtains m' where "m' \<in> set (db_members db')" "org_members_sync db m (m\<lparr> om_Template := Some (rt_ID h), om_Version := None, om_Role := legacyLabel db h ver \<rparr>) = Inr m'"
    "\<forall>x \<in> set (db_members db'). om_Org x = g \<and> om_User x = user \<longrightarrow> x = m'"
proof -
  obtain db0 db1 js dto where w: "role_tx cx actor g user (rt_ID h) (legacyLabel db h ver) db0 = Inr (dto, db1)"
    "same_tables db db0" "db' = bump_org g (db1\<lparr> db_idempotency := js \<rparr>)"
    by (rule SetMemberTemplate_writes [OF assms(1,2)]) (use rv in auto)
  have eqs: "db_members db0 = db_members db" "db_templates db0 = db_templates db" using w(2) unfolding same_defs by simp_all
  have fnd: "find (\<lambda>x. om_Org x = g \<and> om_User x = user) (db_members db) = Some m" using member_found [OF wf m(1)] m(2,3) by simp
  obtain m0 old m' where m0: "find (\<lambda>x. om_Org x = g \<and> om_User x = user) (db_members db0) = Some m0"
    "org_members_sync db0 m0 (m0\<lparr> om_Template := Some (rt_ID h), om_Version := None, om_Role := legacyLabel db h ver \<rparr>) = Inr m'"
    "db1 = access_audit g actor ''access.org_member.role_changed'' ''org_member'' user None 1
       (db0\<lparr> db_members := map (\<lambda>x. if om_Org x = g \<and> om_User x = user then m' else x) (db_members db0) \<rparr>)"
    by (rule role_txE [OF w(1)])
  have mm: "m0 = m" using m0(1) fnd eqs(1) by simp
  have sync: "org_members_sync db m (m\<lparr> om_Template := Some (rt_ID h), om_Version := None, om_Role := legacyLabel db h ver \<rparr>) = Inr m'"
    using m0(2) unfolding mm org_members_sync_def system_named_def eqs(2) .
  have ms: "db_members db' = map (\<lambda>x. if om_Org x = g \<and> om_User x = user then m' else x) (db_members db)"
    by (simp add: w(3) bump_org_def m0(3) access_audit_def eqs(1))
  have key: "om_Org m' = g" "om_User m' = user" using sync_cases(1,2) [OF sync] m(2,3) by simp_all
  have "m' \<in> set (db_members db')" unfolding ms using m by (force simp: image_iff)
  moreover have "x = m'" if "x \<in> set (db_members db')" "om_Org x = g \<and> om_User x = user" for x using that unfolding ms by (auto split: if_splits)
  ultimately show thesis using that sync by blast
qed

lemma system_named_cases:
  "(\<exists>t \<in> set (db_templates db). rt_System t \<and> rt_Kind t = ''org'' \<and> rt_Slug t = role \<and> system_named db role = Some (rt_ID t)) \<or>
   (\<forall>t \<in> set (db_templates db). \<not> (rt_System t \<and> rt_Kind t = ''org'' \<and> rt_Slug t = role)) \<and> system_named db role = None"
proof (cases "find (\<lambda>t. rt_System t \<and> rt_Kind t = ''org'' \<and> rt_Slug t = role) (db_templates db)")
  case None
  then show ?thesis by (simp add: system_named_def find_None_iff)
next
  case (Some t)
  then show ?thesis using find_SomeD [OF Some] by (auto simp: system_named_def)
qed

text \<open>
  C24 (error). Giving a member the role they have can give them another one. Whenever a change of role succeeds (and is not the
  replay of an earlier one), the member gets the template asked for, unless the member has that template already and
  the label computed for it now differs from the label of the row: then the update changes the label and not the
  template, and the trigger on membership rows replaces the template by the system template of that label (or by none,
  when there is no such template). For a custom role this is never the template asked for, although the request succeeds.
\<close>

theorem SetMemberTemplate_swaps_role:
  assumes "adb_wf db" "templates_wf db" and "SetMemberTemplate cx actor g user slug idem db e = (Inr rep, db', e')" "\<not> rp_Replayed rep"
    and "m \<in> set (db_members db)" "om_Org m = g" "om_User m = user" and "role_version db g slug = Inr (h, ver)"
  shows "\<exists>m' \<in> set (db_members db'). (\<forall>x \<in> set (db_members db'). om_Org x = g \<and> om_User x = user \<longrightarrow> x = m') \<and> om_Org m' = g \<and> om_User m' = user \<and>
    (om_Template m \<noteq> Some (rt_ID h) \<or> legacyLabel db h ver = om_Role m \<longrightarrow> om_Template m' = Some (rt_ID h)) \<and>
    (om_Template m = Some (rt_ID h) \<and> legacyLabel db h ver \<noteq> om_Role m \<longrightarrow>
       om_Role m' = legacyLabel db h ver \<and> (\<not> rt_System h \<longrightarrow> om_Template m' \<noteq> Some (rt_ID h)) \<and>
       ((\<exists>t \<in> set (db_templates db). rt_System t \<and> rt_Kind t = ''org'' \<and> rt_Slug t = legacyLabel db h ver \<and> om_Template m' = Some (rt_ID t)) \<or>
        (\<forall>t \<in> set (db_templates db). \<not> (rt_System t \<and> rt_Kind t = ''org'' \<and> rt_Slug t = legacyLabel db h ver)) \<and> om_Template m' = None))"
proof -
  let ?label = "legacyLabel db h ver"
  obtain m' where m': "m' \<in> set (db_members db')" "org_members_sync db m (m\<lparr> om_Template := Some (rt_ID h), om_Version := None, om_Role := ?label \<rparr>) = Inr m'"
    "\<forall>x \<in> set (db_members db'). om_Org x = g \<and> om_User x = user \<longrightarrow> x = m'" by (rule SetMemberTemplate_row [OF assms(3,4,1,5-8)])
  note sy = sync_cases [OF m'(2)]
  have own: "om_Template m' \<noteq> Some (rt_ID h)" if "\<not> rt_System h" "om_Template m = Some (rt_ID h)" "?label \<noteq> om_Role m"
  proof
    assume "om_Template m' = Some (rt_ID h)"
    then have "system_named db ?label = Some (rt_ID h)" using sy(6) that by simp
    then obtain t where "t \<in> set (db_templates db)" "rt_System t" "rt_ID t = rt_ID h" using system_named_cases [of db ?label] by auto
    then show False using templates_wfD(1) [OF assms(2)] role_version_head [OF assms(8)] that(1) by metis
  qed
  have swap: "om_Template m' = system_named db ?label" if "om_Template m = Some (rt_ID h)" "?label \<noteq> om_Role m" using sy(6) that by simp
  show ?thesis
  proof (intro bexI [OF _ m'(1)] conjI impI ballI)
    show "om_Org m' = g" "om_User m' = user" using sy(1,2) assms(6,7) by simp_all
    show "om_Template m' = Some (rt_ID h)" if "om_Template m \<noteq> Some (rt_ID h) \<or> ?label = om_Role m" using sy(6) that by auto
    show "om_Role m' = ?label" if "om_Template m = Some (rt_ID h) \<and> ?label \<noteq> om_Role m" using sync_role [OF m'(2)] that by blast
    show "om_Template m' \<noteq> Some (rt_ID h)" if "om_Template m = Some (rt_ID h) \<and> ?label \<noteq> om_Role m" "\<not> rt_System h" using own that by blast
    show "(\<exists>t \<in> set (db_templates db). rt_System t \<and> rt_Kind t = ''org'' \<and> rt_Slug t = ?label \<and> om_Template m' = Some (rt_ID t)) \<or>
        (\<forall>t \<in> set (db_templates db). \<not> (rt_System t \<and> rt_Kind t = ''org'' \<and> rt_Slug t = ?label)) \<and> om_Template m' = None"
      if "om_Template m = Some (rt_ID h) \<and> ?label \<noteq> om_Role m"
      using system_named_cases [of db ?label] swap that by simp
  qed (use m'(3) in blast)
qed

text \<open>User 6 has the custom role 100, which holds nothing, with the label of an earlier version; user 5 may change roles
  and holds nothing else. The system has a role \<^verbatim>\<open>readonly\<close>. The request to give user 6 the role 100 leaves user 6 with
  the role 311, and so with a permission that neither of them had.\<close>

definition ex_rdb :: ADB where
  "ex_rdb = ex_adb\<lparr> db_orgs := map (\<lambda>r. r\<lparr> ao_CustomRoles := Some True \<rparr>) (db_orgs ex_adb),
     db_members := [(ex_member 5)\<lparr> om_Template := Some 102 \<rparr>, (ex_member 6)\<lparr> om_Role := ''member'' \<rparr>],
     db_templates := db_templates ex_adb @ [(ex_template 102 ''org'')\<lparr> rt_Slug := ''manager'' \<rparr>,
       (ex_template 311 ''org'')\<lparr> rt_Org := None, rt_System := True, rt_Slug := ''readonly'' \<rparr>],
     db_versions := db_versions ex_adb @ [ex_version 102 [''member:update''], ex_version 311 [''org:read'', ''member:read'']] \<rparr>"

lemma ex_rdb_wf: "adb_wf ex_rdb" "templates_wf ex_rdb"
  by (simp_all add: adb_wf_def templates_wf_def ex_rdb_def ex_adb_def ex_arow_def same_live_def ex_template_def ex_version_def ex_member_def)

lemma ex_swap_run:
  "\<not> isOwner ex_cx ex_rdb 1 5" "ok_result (fst (SetMemberTemplate ex_cx 5 1 6 ''custom'' None ex_rdb ex_eng))"
  "map_sum id rp_Replayed (fst (SetMemberTemplate ex_cx 5 1 6 ''custom'' None ex_rdb ex_eng)) = Inr False"
  "ok_result (role_version ex_rdb 1 ''custom'')"
  "map_sum id (\<lambda>(h, ver). (rt_ID h, rt_System h, legacyLabel ex_rdb h ver)) (role_version ex_rdb 1 ''custom'') = Inr (100, False, ''readonly'')"
  "fst (Can (cx_store ex_cx ex_rdb) ex_eng (5, 1) OrgScope ''member:read'' 1000) = Inr False"
  "fst (Can (cx_store ex_cx ex_rdb) ex_eng (6, 1) OrgScope ''member:read'' 1000) = Inr False"
  "fst (Can (cx_store ex_cx (fst (snd (SetMemberTemplate ex_cx 5 1 6 ''custom'' None ex_rdb ex_eng)))) ex_eng (6, 1) OrgScope ''member:read'' 1000) = Inr True"
  by code_simp+

theorem SetMemberTemplate_swaps_role_witness:
  "ok_result (fst (SetMemberTemplate ex_cx 5 1 6 ''custom'' None ex_rdb ex_eng)) \<and> (ex_member 6)\<lparr> om_Role := ''member'' \<rparr> \<in> set (db_members ex_rdb) \<and>
   (\<exists>m' \<in> set (db_members (fst (snd (SetMemberTemplate ex_cx 5 1 6 ''custom'' None ex_rdb ex_eng)))). om_Org m' = 1 \<and> om_User m' = 6 \<and>
      om_Role m' = ''readonly'' \<and> om_Template m' \<noteq> Some 100) \<and>
   fst (Can (cx_store ex_cx ex_rdb) ex_eng (5, 1) OrgScope ''member:read'' 1000) = Inr False \<and>
   fst (Can (cx_store ex_cx ex_rdb) ex_eng (6, 1) OrgScope ''member:read'' 1000) = Inr False \<and>
   fst (Can (cx_store ex_cx (fst (snd (SetMemberTemplate ex_cx 5 1 6 ''custom'' None ex_rdb ex_eng)))) ex_eng (6, 1) OrgScope ''member:read'' 1000) = Inr True"
proof -
  let ?run = "SetMemberTemplate ex_cx 5 1 6 ''custom'' None ex_rdb ex_eng" and ?m = "(ex_member 6)\<lparr> om_Role := ''member'' \<rparr>"
  obtain rep where run: "?run = (Inr rep, fst (snd ?run), snd (snd ?run))" using ok_resultE [OF ex_swap_run(2)] by blast
  have "fst ?run = Inr rep" using run by (metis fst_conv)
  then have nr: "\<not> rp_Replayed rep" using ex_swap_run(3) by simp
  obtain h ver where rv: "role_version ex_rdb 1 ''custom'' = Inr (h, ver)" using ex_swap_run(4) by (cases "role_version ex_rdb 1 ''custom''") (auto simp: ok_result_def)
  have h: "rt_ID h = 100" "\<not> rt_System h" "legacyLabel ex_rdb h ver = ''readonly''" using ex_swap_run(5) by (simp_all add: rv)
  have m: "?m \<in> set (db_members ex_rdb)" "om_Org ?m = 1" "om_User ?m = 6" "om_Template ?m = Some 100" "om_Role ?m = ''member''" by (simp_all add: ex_rdb_def ex_member_def)
  have "\<exists>m' \<in> set (db_members (fst (snd ?run))). om_Org m' = 1 \<and> om_User m' = 6 \<and> om_Role m' = ''readonly'' \<and> om_Template m' \<noteq> Some 100"
    using SetMemberTemplate_swaps_role [OF ex_rdb_wf run nr m(1-3) rv] unfolding h(1,3) m(4,5) using h(2) by auto
  then show ?thesis using ex_swap_run(2,6-8) m(1) by blast
qed

end
