(* ===== verification/Access_Preview.thy ===== *)
theory Access_Preview
  imports Access_Override
begin

text \<open>
  What the preview of \<^verbatim>\<open>SetAccessOverride\<close> is worth: nobody who sees a project loses it without a warning. The real engine and
  the throw-away engine over the overlay are both instances of the contract \<open>access_source\<close>.
\<close>

section \<open>Reads of several members\<close>

context access_source
begin

definition all_current :: "'d \<Rightarrow> time \<Rightarrow> uuid \<Rightarrow> Engine \<Rightarrow> bool" where
  "all_current d now g e \<longleftrightarrow> engine_wf e now \<and> (\<forall>u. current d e (u, g))"

lemma current_read:
  assumes wf: "engine_wf e now" and cur: "current d e k'"
  shows "current d (snd (engine_snapshot (store d) e k strict now)) k'"
proof (cases "k' = k")
  case False then show ?thesis by (rule current_other [OF wf cur])
next
  case k: True
  show ?thesis
  proof (cases "st_LoadAccess (store d) k")
    case (Inr od) then show ?thesis using read_current(1) [OF wf, of d k od strict] cur k by simp
  next
    case (Inl x)
    have touch: "current d e1 k" if "e_cache e1 = cache_touch (e_cache e) k now" "e_inflight e1 = e_inflight e" for e1
      using current_touch [OF wf _ that] cur k by simp
    have kept: "current d (snd (compileNow (store d) e1 k now)) k" "current d (snd (loadShared (store d) e1 k now)) k" if "current d e1 k" for e1
      using that Inl by (simp_all add: compileNow_def loadShared_def current_def)
    show ?thesis
      by (cases rule: engine_snapshot_cases [of e k now strict "store d"]) (simp_all add: k touch kept)
  qed
qed

lemma all_current_read: "all_current d now g e \<Longrightarrow> all_current d now g (snd (effective (store d) e k sc strict now))"
  unfolding all_current_def snd_effective using current_read engine_snapshot_wf by blast

text \<open>The answer about one project: who is told that it is hidden, and who is told that they are a member.\<close>

lemma read_member:
  assumes wf: "engine_wf e now" and cur: "current d e k" and load: "st_LoadAccess (store d) k = Inr od"
    and s: "fst (engine_snapshot (store d) e k strict now) = Inr s"
  shows "s_member s = d_Member (or_zero od)"
proof (cases rule: engine_snapshot_cases [of e k now strict "store d"])
  case (hit s1 e1)
  have "s = compile (fst k) (snd k) (s_data s) (s_compiled s) (e_ttl e)"
    using sc.holdsD [of "compiled_from (e_ttl e) now" "e_cache e" k s] wf hit(1,4) s by (simp add: engine_wf_def compiled_from_def)
  then have "s_member s = d_Member (s_data s)" by (metis compile_common(4))
  then show ?thesis using cur hit(1,4) load s by (simp add: current_def)
next
  case (strict_load e1) then show ?thesis using compileNow_fresh [OF load, of e1 now] s by (auto simp flip: prod.inject)
next
  case (shared_load e1)
  then show ?thesis using loadShared_fresh [OF load, of e1 now] s cur by (auto simp: current_def)
qed (use load_epochs [OF load] in simp_all)

lemma project_answer:
  assumes "ok d" "engine_wf e now" "current d e k" "st_LoadAccess (store d) k = Inr od"
  shows "\<exists>acc st. fst (effective (store d) e k (ProjectScope p) strict now) = Inr (acc, st) \<and> acc_Member acc = d_Member (or_zero od) \<and>
    (acc_Hidden acc \<longleftrightarrow> d_Member (or_zero od) \<and> spec_effective (or_zero od) now (ProjectScope p) = {})"
proof -
  obtain s where s: "fst (engine_snapshot (store d) e k strict now) = Inr s" "decides_on (or_zero od) e k now s" using read_current(2) [OF assms(2-4)] by blast
  have "snd (snd (scopeSet s (ProjectScope p))) \<longleftrightarrow> d_Member (or_zero od) \<and> spec_effective (or_zero od) now (ProjectScope p) = {}"
    using s(2) compile_hidden [OF load_wf [OF assms(1,4)], of "fst k" "snd k" now "e_ttl e" "ProjectScope p"] by (simp add: decides_on_def ProjectScope_def)
  moreover have "s_member s = d_Member (or_zero od)" by (rule read_member [OF assms(2-4) s(1)])
  moreover have "fst (effective (store d) e k (ProjectScope p) strict now) =
      Inr (access s (ProjectScope p) (fst (scopeSet s (ProjectScope p))) (fst (snd (scopeSet s (ProjectScope p)))) (snd (snd (scopeSet s (ProjectScope p)))), fst (scopeSet s (ProjectScope p)))"
    using s(1) by (simp add: effective_def with_snapshot_eq case_prod_unfold Let_def)
  moreover have "acc_Member (access s sc st own h) = s_member s" "acc_Hidden (access s sc st own h) = h" for sc st own h by (simp_all add: access_def Let_def)
  ultimately show ?thesis by simp
qed

end

interpretation hyp: access_source "\<lambda>db. overlayStore (set_mode p m) (engine_store wait db)" adb_wf for p m wait
proof
  have mode: "data_wf d \<Longrightarrow> data_wf (set_mode p m d)" "d_Epochs (set_mode p m d) = d_Epochs d" for d by (auto simp: set_mode_def data_wf_def split: option.split)
  have od: "\<exists>od0. st_LoadAccess (engine_store wait db) k = Inr od0 \<and> (or_zero od = or_zero od0 \<or> or_zero od = set_mode p m (or_zero od0))"
    if "st_LoadAccess (overlayStore (set_mode p m) (engine_store wait db)) k = Inr od" for db k od
    using that by (auto simp: overlayStore_def or_zero_def split: sum.splits option.splits if_splits)
  fix db k od assume l: "st_LoadAccess (overlayStore (set_mode p m) (engine_store wait db)) k = Inr od"
  obtain od0 where od0: "st_LoadAccess (engine_store wait db) k = Inr od0" "or_zero od = or_zero od0 \<or> or_zero od = set_mode p m (or_zero od0)" using od [OF l] by blast
  show "adb_wf db \<Longrightarrow> data_wf (or_zero od)" using src.load_wf [OF _ od0(1)] od0(2) mode(1) by metis
  show "st_Epochs (overlayStore (set_mode p m) (engine_store wait db)) k = Inr (d_Epochs (or_zero od))"
    using src.load_epochs [OF od0(1)] od0(2) mode(2) by (auto simp: overlayStore_def)
qed

section \<open>The preview finds whoever loses the project\<close>

definition loses :: "Ctx \<Rightarrow> uuid \<Rightarrow> string option \<Rightarrow> AccessData \<Rightarrow> bool" where
  "loses cx p m d \<longleftrightarrow> spec_effective d (cx_now cx) (ProjectScope p) \<noteq> {} \<and> spec_effective (set_mode p m d) (cx_now cx) (ProjectScope p) = {}"

text \<open>\<open>ready\<close>: both engines hold nothing stale for the members of the organization.\<close>

definition ready :: "Ctx \<Rightarrow> ADB \<Rightarrow> uuid \<Rightarrow> uuid \<Rightarrow> string option \<Rightarrow> Engine \<times> Engine \<Rightarrow> bool" where
  "ready cx db g p m es \<longleftrightarrow> src.all_current (cx_wait cx) db (cx_now cx) g (fst es) \<and> hyp.all_current p m (cx_wait cx) db (cx_now cx) g (snd es)"

lemma Effective_ready:
  "ready cx db g p m (e, h) \<Longrightarrow> ready cx db g p m (snd (Effective (cx_store cx db) e k sc (cx_now cx)), h)"
  "ready cx db g p m (e, h) \<Longrightarrow> ready cx db g p m (e, snd (Effective (overlayStore (set_mode p m) (cx_store cx db)) h k sc (cx_now cx)))"
  unfolding ready_def Effective_def fst_conv snd_conv using src.all_current_read hyp.all_current_read by blast+

lemma hides_from_ready: "ready cx db g p m es \<Longrightarrow> ready cx db g p m (snd (hides_from cx db g p m u es))"
proof -
  assume r: "ready cx db g p m es"
  obtain e h where es: "es = (e, h)" by (cases es)
  note r1 = Effective_ready(1) [OF r [unfolded es], of "(u, g)" "ProjectScope p"]
  show ?thesis using r1 Effective_ready(2) [OF r1, of "(u, g)" "ProjectScope p"]
    by (auto simp: hides_from_def es case_prod_unfold Let_def split: sum.split)
qed

lemma member_of: "spec_effective d now sc \<noteq> {} \<Longrightarrow> d_Member d"
  by (auto simp: spec_effective_def resolves_def)

lemma hides_from_loses:
  assumes wf: "adb_wf db" and r: "ready cx db g p m es" and d: "engine_LoadAccess db u g = Inr d" "loses cx p m d"
  shows "fst (hides_from cx db g p m u es) = Inr True"
proof -
  obtain e h where es: "es = (e, h)" by (cases es)
  let ?st = "cx_store cx db" and ?sc = "ProjectScope p" and ?now = "cx_now cx"
  have vis: "spec_effective d ?now ?sc \<noteq> {}" "spec_effective (set_mode p m d) ?now ?sc = {}" using d(2) by (auto simp: loses_def)
  have mem: "d_Member d" by (rule member_of [OF vis(1)])
  have e: "engine_wf e ?now" "src.current (cx_wait cx) db e (u, g)" using r by (auto simp: ready_def es src.all_current_def)
  have h: "engine_wf h ?now" "hyp.current p m (cx_wait cx) db h (u, g)" using r by (auto simp: ready_def es hyp.all_current_def)
  obtain acc st where a: "fst (Effective ?st e (u, g) ?sc ?now) = Inr (acc, st)" "acc_Member acc" "\<not> acc_Hidden acc"
    using src.project_answer [OF wf e load_store [OF d(1), of cx], of p False] mem vis(1) by (auto simp: Effective_def or_zero_def)
  have "st_LoadAccess (overlayStore (set_mode p m) ?st) (u, g) = Inr (Some (set_mode p m d))" using load_store [OF d(1), of cx] mem by (simp add: overlayStore_def)
  moreover have "d_Member (set_mode p m d)" using mem by (simp add: set_mode_def split: option.split)
  ultimately obtain nxt st' where "fst (Effective (overlayStore (set_mode p m) ?st) h (u, g) ?sc ?now) = Inr (nxt, st')" "acc_Hidden nxt"
    using hyp.project_answer [OF wf h, of "Some (set_mode p m d)" p False] vis(2) by (auto simp: Effective_def or_zero_def)
  then show ?thesis using a by (simp add: hides_from_def es case_prod_unfold Let_def)
qed

lemma hide_loop_finds:
  assumes "hide_loop cx db g p m us hide first es = (Inr hs, e')" "adb_wf db" "ready cx db g p m es"
  shows "first = None \<and> set hide \<subseteq> set hs \<and> (\<forall>u \<in> set us. \<forall>d. engine_LoadAccess db u g = Inr d \<longrightarrow> loses cx p m d \<longrightarrow> u \<in> set hs) \<and>
    src.all_current (cx_wait cx) db (cx_now cx) g e'"
  using assms(1,3)
proof (induction us arbitrary: hide first es)
  case Nil then show ?case by (auto simp: ready_def split: option.splits)
next
  case (Cons u us)
  obtain r es' where h: "hides_from cx db g p m u es = (r, es')" by (cases "hides_from cx db g p m u es")
  have rdy: "ready cx db g p m es'" using hides_from_ready [OF Cons.prems(2), of u] h by simp
  show ?case
  proof (cases r)
    case (Inl x) then show ?thesis using Cons.IH [OF _ rdy, of hide "if first = None then Some x else first"] Cons.prems(1) h by (simp split: if_splits)
  next
    case (Inr b)
    have ih: "first = None \<and> set (if b then hide @ [u] else hide) \<subseteq> set hs \<and> (\<forall>u \<in> set us. \<forall>d. engine_LoadAccess db u g = Inr d \<longrightarrow> loses cx p m d \<longrightarrow> u \<in> set hs) \<and>
        src.all_current (cx_wait cx) db (cx_now cx) g e'" by (rule Cons.IH [OF _ rdy]) (use Cons.prems(1) h Inr in simp)
    have "b" if "engine_LoadAccess db u g = Inr d" "loses cx p m d" for d using hides_from_loses [OF assms(2) Cons.prems(2) that] h Inr by simp
    then show ?thesis using ih by (auto split: if_splits)
  qed
qed

lemma overlay_ready: "src.all_current (cx_wait cx) db (cx_now cx) g e \<Longrightarrow> ready cx db g p m (e, overlayEngine)"
  using New_wf [of 0 0 "cx_now cx"] by (simp add: ready_def hyp.all_current_def hyp.current_def overlayEngine_def New_def newCache_def cache_lookup_def)

lemma sort_key_Nil_iff: "sort_key f xs = [] \<longleftrightarrow> xs = []"
  by (metis length_0_conv length_sort)

lemma wouldHide_finds:
  assumes "wouldHide cx db g p m e = (Inr [], e')" "adb_wf db" "src.all_current (cx_wait cx) db (cx_now cx) g e" "engine_LoadAccess db u g = Inr d"
  shows "\<not> loses cx p m d"
proof
  assume l: "loses cx p m d"
  let ?ms = "sort (map om_User (filter (\<lambda>m. om_Org m = g) (db_members db)))"
  have len: "length ?ms \<le> maxWouldHideScan" using assms(1) by (auto simp: wouldHide_def Let_def split: if_splits)
  then obtain hide where "hide_loop cx db g p m ?ms [] None (e, overlayEngine) = (Inr hide, e')" "hide = []"
    using assms(1) by (auto simp: wouldHide_def Let_def sort_key_Nil_iff split: prod.splits sum.splits)
  then have "u \<notin> set ?ms" using hide_loop_finds [OF _ assms(2) overlay_ready [OF assms(3)]] assms(4) l by force
  then have "LoadMembership db g u = None" by (auto simp: LoadMembership_def find_None_iff dest: find_SomeD split: option.splits)
  then have "\<not> d_Member d" using assms(4) by (elim LoadAccess_cases) (simp_all add: zero_AccessData_def)
  then show False using l member_of unfolding loses_def by blast
qed

section \<open>The data after the write\<close>

text \<open>What a person holds in a project depends on the override of that project alone.\<close>

lemma opens_effective:
  assumes "same_base (d\<lparr> d_ProjectOverrides := ov \<rparr>) d'" "set (d_Assignments d') = set (d_Assignments d)" "opens d p \<longrightarrow> opens d' p" "spec_effective d now (ProjectScope p) \<noteq> {}"
  shows "spec_effective d' now (ProjectScope p) \<noteq> {}"
proof -
  have res: "resolves d' t = resolves d t" for t using assms(1) by (simp add: same_base_def resolves_def)
  have lv: "set (live d' now) = set (live d now)" using assms(2) by (simp add: live_def)
  have own: "(own_of d' now p \<noteq> []) = (own_of d now p \<noteq> [])" unfolding own_of_Nil lv ..
  have gr: "grants (filter P (live_at d' now k)) b = grants (filter P (live_at d now k)) b" for P k b unfolding grants_live_at lv ..
  note gr = gr [of "\<lambda>a. a_ScopeID a = p" StProject] gr [of "\<lambda>a. True" StOrg]
  have "spec_bounded d t now (ProjectScope p) b \<Longrightarrow> spec_bounded d' t now (ProjectScope p) b" for t b
    using assms(3) own gr by (auto simp: spec_bounded_def spec_project_def own_of_def nested_of_def ProjectScope_def split: if_splits)
  then show ?thesis using assms(4) by (auto simp: spec_effective_def res ProjectScope_def)
qed

lemma projects_load:
  "engine_LoadAccess (db\<lparr> db_projects := ps \<rparr>) u g =
     map_sum id (\<lambda>d. if d_Member d then d\<lparr> d_ProjectOverrides := LoadProjectOverrides (db\<lparr> db_projects := ps \<rparr>) g \<rparr> else d) (engine_LoadAccess db u g)"
proof -
  let ?db = "db\<lparr> db_projects := ps \<rparr>"
  have q: "src_Epochs ?db g u = src_Epochs db g u" "LoadMembership ?db g u = LoadMembership db g u" "LoadOrgPolicy ?db g = LoadOrgPolicy db g"
    "LoadUserAssignments ?db g u = LoadUserAssignments db g u" by (simp_all add: src_Epochs_def LoadMembership_def LoadOrgPolicy_def LoadUserAssignments_def live_rows_def group_rows_def [abs_def])
  have tv: "template_version ?db r = template_version db r" for r by (simp add: template_version_def cong: option.case_cong)
  have ev: "db_environments ?db = db_environments db" by simp
  have rp: "row_place ?db r = row_place db r" for r unfolding row_place_def ev ..
  have rg: "row_grant ?db = row_grant db" unfolding row_grant_def [abs_def] tv rp ..
  have mt: "member_template ?db m = member_template db m" for m by (auto simp: member_template_def tv org_template_def LoadTemplateVersions_def split: option.splits)
  show ?thesis by (cases "LoadOrgPolicy db g") (auto simp: LoadAccess_eq q rg mt zero_AccessData_def split: sum.split option.split)
qed

lemma get_overrides:
  assumes "distinct (map pj_ID (db_projects db))" "r \<in> set (db_projects db)" "pj_Org r = g" "\<not> pj_Deleted r"
  shows "gomap_get (LoadProjectOverrides db g) (pj_ID r) = pj_Override r"
proof -
  have "map_of (List.map_filter (\<lambda>p. map_option (Pair (pj_ID p)) (pj_Override p)) rs) (pj_ID r) = pj_Override r"
    if "distinct (map pj_ID rs)" "r \<in> set rs" for rs
    using that
  proof (induction rs)
    case (Cons q rs)
    have none: "map_of (List.map_filter (\<lambda>p. map_option (Pair (pj_ID p)) (pj_Override p)) rs) (pj_ID q) = None"
      using Cons.prems(1) by (auto simp: map_of_eq_None_iff set_map_filter)
    show ?case
    proof (cases "r = q")
      case True then show ?thesis using none by (cases "pj_Override q") (simp_all add: map_filter_simps)
    next
      case False
      then have r: "r \<in> set rs" using Cons.prems(2) by simp
      then have "pj_ID r \<in> set (map pj_ID rs)" by (simp add: imageI)
      then have "pj_ID r \<noteq> pj_ID q" using Cons.prems(1) by auto
      then show ?thesis using Cons.IH Cons.prems(1) r by (cases "pj_Override q") (simp_all add: map_filter_simps)
    qed
  qed simp
  then show ?thesis using assms by (simp add: LoadProjectOverrides_def distinct_map_filter)
qed

lemma override_guardE:
  assumes "override_guard cx db actor g project mode False e = (Inr plan, e')"
  obtains st e1 acc st2 e2 org p where "require cx db actor g OrgScope [''org:access-policy''] e = (Inr st, e1)" "mode \<in> {None, Some ''open'', Some ''restricted''}"
    "svc_effective cx db actor g (ProjectScope project) False e1 = (Inr (acc, st2), e2)"
    "find (\<lambda>r. ao_ID r = g) (db_orgs db) = Some org" "find (\<lambda>r. pj_ID r = project \<and> pj_Org r = g) (db_projects db) = Some p"
    "list_ex (\<lambda>r. pj_ID r = project \<and> pj_Org r = g \<and> \<not> pj_Deleted r) (db_projects db)"
    "(case mode of None \<Rightarrow> ao_Mode org | Some m \<Rightarrow> m) = ''restricted'' \<Longrightarrow> (case pj_Override p of None \<Rightarrow> ao_Mode org | Some m \<Rightarrow> m) \<noteq> ''restricted'' \<Longrightarrow>
       wouldHide cx db g project mode e2 = (Inr [], e')"
proof -
  obtain st e1 where r: "require cx db actor g OrgScope [''org:access-policy''] e = (Inr st, e1)" using assms by (auto simp: override_guard_def andThen_Inr)
  have m: "mode \<in> {None, Some ''open'', Some ''restricted''}" using assms r by (auto simp: override_guard_def andThen_Inr split: if_splits)
  then have bad: "(mode \<noteq> None \<and> mode \<noteq> Some ''open'' \<and> mode \<noteq> Some ''restricted'') = False" by blast
  let ?ex = "list_ex (\<lambda>r. pj_ID r = project \<and> pj_Org r = g \<and> \<not> pj_Deleted r) (db_projects db)"
  obtain acc st2 e2 where s: "svc_effective cx db actor g (ProjectScope project) False e1 = (Inr (acc, st2), e2)"
    using assms [unfolded override_guard_def bad if_False] r by (auto simp: andThen_Inr)
  note g = assms [unfolded override_guard_def bad if_False andThen_def r s prod.case sum.case]
  have ex: "(\<not> ?ex \<or> acc_Hidden acc) = False" using g by (cases "\<not> ?ex \<or> acc_Hidden acc") auto
  note g = g [unfolded ex if_False]
  show thesis
  proof (cases "find (\<lambda>r. ao_ID r = g) (db_orgs db)")
    case None then show thesis using g by simp
  next
    case org: (Some org)
    show thesis
    proof (cases "find (\<lambda>r. pj_ID r = project \<and> pj_Org r = g) (db_projects db)")
      case None then show thesis using g org by simp
    next
      case p: (Some p)
      show thesis
      proof (rule that [OF r m s org p])
        show ?ex using ex by simp
        assume "(case mode of None \<Rightarrow> ao_Mode org | Some m \<Rightarrow> m) = ''restricted''" "(case pj_Override p of None \<Rightarrow> ao_Mode org | Some m \<Rightarrow> m) \<noteq> ''restricted''"
        then show "wouldHide cx db g project mode e2 = (Inr [], e')" using g org p
          by (cases "wouldHide cx db g project mode e2"; cases "fst (wouldHide cx db g project mode e2)") (auto simp: Let_def split: if_splits)
      qed
    qed
  qed
qed

lemma override_guard_current:
  assumes gd: "override_guard cx db actor g project mode False e = (Inr plan, e')" and wf: "adb_wf db" and cur: "\<forall>u. cur cx db (u, g) e"
  obtains e2 org p where "mode \<in> {None, Some ''open'', Some ''restricted''}" "src.all_current (cx_wait cx) db (cx_now cx) g e2"
    "find (\<lambda>r. ao_ID r = g) (db_orgs db) = Some org" "p \<in> set (db_projects db)" "pj_ID p = project" "pj_Org p = g" "\<not> pj_Deleted p"
    "(case mode of None \<Rightarrow> ao_Mode org | Some m \<Rightarrow> m) = ''restricted'' \<and> (case pj_Override p of None \<Rightarrow> ao_Mode org | Some m \<Rightarrow> m) \<noteq> ''restricted'' \<longrightarrow>
       wouldHide cx db g project mode e2 = (Inr [], e')"
proof (rule override_guardE [OF gd])
  fix st a1 acc st2 e2 org p assume req: "require cx db actor g OrgScope [''org:access-policy''] e = (Inr st, a1)" and m: "mode \<in> {None, Some ''open'', Some ''restricted''}"
    and eff: "svc_effective cx db actor g (ProjectScope project) False a1 = (Inr (acc, st2), e2)"
    and org: "find (\<lambda>r. ao_ID r = g) (db_orgs db) = Some org" and p: "find (\<lambda>r. pj_ID r = project \<and> pj_Org r = g) (db_projects db) = Some p"
    and ex: "list_ex (\<lambda>r. pj_ID r = project \<and> pj_Org r = g \<and> \<not> pj_Deleted r) (db_projects db)"
    and hide: "(case mode of None \<Rightarrow> ao_Mode org | Some m \<Rightarrow> m) = ''restricted'' \<Longrightarrow> (case pj_Override p of None \<Rightarrow> ao_Mode org | Some m \<Rightarrow> m) \<noteq> ''restricted'' \<Longrightarrow>
      wouldHide cx db g project mode e2 = (Inr [], e')"
  have a0: "src.all_current (cx_wait cx) db (cx_now cx) g e" using cur by (simp add: cur_def src.all_current_def)
  obtain ac where "svc_effective cx db actor g OrgScope (needStrict [''org:access-policy'']) e = (Inr (ac, st), a1)" using require_Inr [OF req] by blast
  then have "a1 = snd (effective (cx_store cx db) e (actor, g) OrgScope (needStrict [''org:access-policy'']) (cx_now cx))" by (simp add: svc_effective_eq)
  then have "src.all_current (cx_wait cx) db (cx_now cx) g a1" using src.all_current_read [OF a0] by simp
  moreover have "e2 = snd (effective (cx_store cx db) a1 (actor, g) (ProjectScope project) False (cx_now cx))" using eff by (simp add: svc_effective_eq)
  ultimately have all: "src.all_current (cx_wait cx) db (cx_now cx) g e2" using src.all_current_read by simp
  have pm: "p \<in> set (db_projects db)" "pj_ID p = project" "pj_Org p = g" using find_SomeD [OF p] by auto
  obtain q where q: "q \<in> set (db_projects db)" "pj_ID q = project" "\<not> pj_Deleted q" using ex by (auto simp: list_ex_iff)
  have "inj_on pj_ID (set (db_projects db))" using wf by (simp add: adb_wf_def distinct_map)
  then have "q = p" using q(1,2) pm(1,2) by (simp add: inj_on_def)
  then show thesis using that [OF m all org pm] q(3) hide by blast
qed

text \<open>The tables after the write are tables with the same rows, with the rows of the projects replaced.\<close>

lemma override_written:
  assumes tx: "override_tx actor g project mode plan db0 = Inr (res, db1)" and d0: "db0 = db \<or> (\<exists>k. db0 = drop_old_key cx g actor k db)"
  obtains X where "same_tables db X" "db_assignments X = db_assignments db"
    "bump_org g (db1\<lparr> db_idempotency := js \<rparr>) = X\<lparr> db_projects := map (\<lambda>p. if pj_ID p = project \<and> pj_Org p = g \<and> \<not> pj_Deleted p then p\<lparr> pj_Override := mode \<rparr> else p) (db_projects db) \<rparr>"
proof -
  let ?ps = "map (\<lambda>p. if pj_ID p = project \<and> pj_Org p = g \<and> \<not> pj_Deleted p then p\<lparr> pj_Override := mode \<rparr> else p)"
  let ?audit = "access_audit g actor ''access.mode.changed'' ''org_policy'' project (Some project) (op_Hide plan)"
  let ?X = "bump_org g ((if op_Old plan \<noteq> mode then ?audit db0 else db0)\<lparr> db_idempotency := js \<rparr>)"
  have st0: "same_tables db db0" "db_assignments db0 = db_assignments db" "db_projects db0 = db_projects db" using d0 by (auto simp: drop_old_key_def)
  have st: "same_tables db ?X" "db_assignments ?X = db_assignments db"
    using same_tables_trans [OF st0(1) same_tables_trans [OF _ same_tables_trans [OF same_tables_upd(3) same_tables_upd(5)]]] st0(2) by simp_all
  have "db1 = (if op_Old plan \<noteq> mode then ?audit (db0\<lparr> db_projects := ?ps (db_projects db0) \<rparr>) else db0\<lparr> db_projects := ?ps (db_projects db0) \<rparr>)"
    using tx by (auto simp: override_tx_def Let_def split: if_splits)
  then have "bump_org g (db1\<lparr> db_idempotency := js \<rparr>) = ?X\<lparr> db_projects := ?ps (db_projects db) \<rparr>" by (simp add: bump_org_def access_audit_def st0(3))
  then show thesis by (rule that [OF st])
qed

lemma same_load:
  assumes "same_tables db X" "db_assignments X = db_assignments db" "engine_LoadAccess db u g = Inr d"
  obtains dX where "engine_LoadAccess X u g = Inr dX" "same_base d dX" "set (d_Assignments dX) = set (d_Assignments d)"
proof -
  obtain dX where dX: "engine_LoadAccess X u g = Inr dX" "same_base d dX" by (rule same_tables_load [OF assms(1,3)])
  have "sources X g u r x = sources db g u r x" for r x using assms(2) same_tables_reads(4) [OF assms(1)] by (simp add: sources_def)
  then have "a \<in> set (d_Assignments dX) \<longleftrightarrow> a \<in> set (d_Assignments d)" for a
    using dX(2) unfolding loaded_mem [OF dX(1)] loaded_mem [OF assms(3)] same_tables_reads(3) [OF assms(1)] same_base_def by simp
  then show thesis using that [OF dX] by blast
qed

lemma policy_of: "adb_wf db \<Longrightarrow> engine_LoadAccess db u g = Inr d \<Longrightarrow> d_Member d \<Longrightarrow> find (\<lambda>r. ao_ID r = g) (db_orgs db) = Some org \<Longrightarrow>
    d_Policy d = ao_Mode org \<and> d_ProjectOverrides d = LoadProjectOverrides db g"
proof -
  assume wf: "adb_wf db" and d: "engine_LoadAccess db u g = Inr d" "d_Member d" and org: "find (\<lambda>r. ao_ID r = g) (db_orgs db) = Some org"
  have "r = org" if "org_live db g = Some r" for r
    using find_SomeD [OF that] find_SomeD [OF org] wf by (auto simp: adb_wf_def distinct_map inj_on_def)
  then show ?thesis using d(2) by - (rule LoadAccess_cases [OF d(1)], auto simp: zero_AccessData_def loaded_def)
qed

lemma written_data:
  assumes wf: "adb_wf db" and tx: "override_tx actor g project mode plan db0 = Inr (res, db1)" "db0 = db \<or> (\<exists>k. db0 = drop_old_key cx g actor k db)"
    and d: "engine_LoadAccess db u g = Inr d" "d_Member d" and db': "db' = bump_org g (db1\<lparr> db_idempotency := js \<rparr>)"
    and p: "p \<in> set (db_projects db)" "pj_ID p = project" "pj_Org p = g" "\<not> pj_Deleted p"
  obtains d' where "engine_LoadAccess db' u g = Inr d'" "same_base (d\<lparr> d_ProjectOverrides := d_ProjectOverrides d' \<rparr>) d'" "set (d_Assignments d') = set (d_Assignments d)"
    "gomap_get (d_ProjectOverrides d') project = mode"
proof -
  let ?f = "\<lambda>p. if pj_ID p = project \<and> pj_Org p = g \<and> \<not> pj_Deleted p then p\<lparr> pj_Override := mode \<rparr> else p"
  let ?ps = "map ?f (db_projects db)"
  obtain X where X: "same_tables db X" "db_assignments X = db_assignments db" "bump_org g (db1\<lparr> db_idempotency := js \<rparr>) = X\<lparr> db_projects := ?ps \<rparr>"
    by (rule override_written [OF tx])
  obtain dX where dX: "engine_LoadAccess X u g = Inr dX" "same_base d dX" "set (d_Assignments dX) = set (d_Assignments d)" by (rule same_load [OF X(1,2) d(1)])
  have mem: "d_Member dX" using d(2) dX(2) by (simp add: same_base_def)
  have eq: "db' = X\<lparr> db_projects := ?ps \<rparr>" using db' X(3) by (rule trans)
  have ps: "db_projects db' = ?ps" unfolding eq by simp
  have l: "engine_LoadAccess db' u g = Inr (dX\<lparr> d_ProjectOverrides := LoadProjectOverrides db' g \<rparr>)" unfolding eq projects_load dX(1) using mem by simp
  have n: "gomap_get (LoadProjectOverrides db' g) project = mode"
  proof -
    have ids: "map pj_ID ?ps = map pj_ID (db_projects db)" by simp
    have "distinct (map pj_ID (db_projects db'))" unfolding ps ids using wf by (simp add: adb_wf_def)
    moreover have "?f p \<in> set (db_projects db')" unfolding ps set_map by (rule imageI [OF p(1)])
    ultimately show ?thesis using get_overrides [of db' "?f p" g] p(2-4) by simp
  qed
  show thesis by (rule that [OF l]) (use dX(2,3) n in \<open>simp_all add: same_base_def\<close>)
qed

text \<open>
  C11 (safety). Nobody loses a project without a warning: when the access policy of a project is changed without confirmation
  and the request succeeds, everyone who sees the project still sees it after the write, at the instant of the
  request, provided the cache of the engine held nothing stale for the organization when the request arrived.
\<close>

theorem SetAccessOverride_warns:
  assumes wf: "adb_wf db" and cur: "\<forall>u. cur cx db (u, g) e" and run: "SetAccessOverride cx actor g project mode False idem db e = (Inr rep, db', e')"
    and d: "engine_LoadAccess db u g = Inr d" "spec_effective d (cx_now cx) (ProjectScope project) \<noteq> {}"
  shows "\<exists>d'. engine_LoadAccess db' u g = Inr d' \<and> spec_effective d' (cx_now cx) (ProjectScope project) \<noteq> {}"
proof -
  obtain plan e1 where gd: "override_guard cx db actor g project mode False e = (Inr plan, e1)"
    and wr: "doWrite cx g actor idem 200 JOverride dec_override (override_tx actor g project mode plan) db e1 = (Inr rep, db', e')"
    using run by (auto simp: SetAccessOverride_def split: prod.splits sum.splits)
  obtain e2 org p where m: "mode \<in> {None, Some ''open'', Some ''restricted''}" and all: "src.all_current (cx_wait cx) db (cx_now cx) g e2"
    and org: "find (\<lambda>r. ao_ID r = g) (db_orgs db) = Some org" and p: "p \<in> set (db_projects db)" "pj_ID p = project" "pj_Org p = g" "\<not> pj_Deleted p"
    and hide: "(case mode of None \<Rightarrow> ao_Mode org | Some m \<Rightarrow> m) = ''restricted'' \<and> (case pj_Override p of None \<Rightarrow> ao_Mode org | Some m \<Rightarrow> m) \<noteq> ''restricted'' \<longrightarrow>
      wouldHide cx db g project mode e2 = (Inr [], e1)" by (rule override_guard_current [OF gd wf cur])
  have mem: "d_Member d" by (rule member_of [OF d(2)])
  have keys: "distinct (map pj_ID (db_projects db))" using wf by (simp add: adb_wf_def)
  note pol = policy_of [OF wf d(1) mem org]
  have old: "gomap_get (d_ProjectOverrides d) project = pj_Override p" using get_overrides [OF keys p(1,3,4)] p(2) pol by simp
  show ?thesis
  proof (rule doWrite_cases [OF wr])
    fix v db0 db1 js assume tx: "override_tx actor g project mode plan db0 = Inr (v, db1)" "db0 = db \<or> (\<exists>k. db0 = drop_old_key cx g actor k db)"
      and db': "db' = bump_org g (db1\<lparr> db_idempotency := js \<rparr>)"
    obtain d' where d': "engine_LoadAccess db' u g = Inr d'" and base: "same_base (d\<lparr> d_ProjectOverrides := d_ProjectOverrides d' \<rparr>) d'" "set (d_Assignments d') = set (d_Assignments d)"
      and new: "gomap_get (d_ProjectOverrides d') project = mode" by (rule written_data [OF wf tx d(1) mem db' p])
    have pol': "d_Policy d' = ao_Mode org" using base(1) pol by (simp add: same_base_def)
    show ?thesis
    proof (cases "(case mode of None \<Rightarrow> ao_Mode org | Some m \<Rightarrow> m) = ''restricted'' \<and> (case pj_Override p of None \<Rightarrow> ao_Mode org | Some m \<Rightarrow> m) \<noteq> ''restricted''")
      case False
      then have "opens d project \<longrightarrow> opens d' project" using m pol unfolding opens_def new old pol' by (auto split: option.splits)
      then show ?thesis using opens_effective [OF base _ d(2)] d' by blast
    next
      case True
      let ?s = "set_mode project mode d"
      have s: "spec_effective ?s (cx_now cx) (ProjectScope project) \<noteq> {}" using wouldHide_finds [OF mp [OF hide True] wf all d(1)] d(2) unfolding loses_def by blast
      have sb: "same_base (?s\<lparr> d_ProjectOverrides := d_ProjectOverrides d' \<rparr>) d'" "set (d_Assignments d') = set (d_Assignments ?s)" using base by (simp_all add: set_mode_def split: option.split)
      have "opens ?s project = opens d' project" unfolding opens_def new pol' using pol by (simp add: set_mode_def split: option.split)
      then show ?thesis using opens_effective [OF sb _ s] d' by blast
    qed
  qed (use d in auto)
qed

text \<open>User 5 sets the policy of project 10 from open to restricted; both members have assignments there and keep it.\<close>

definition ex_pdb :: ADB where
  "ex_pdb = ex_adb\<lparr> db_members := [(ex_member 5)\<lparr> om_Template := Some 101 \<rparr>, ex_member 6],
     db_templates := db_templates ex_adb @ [ex_template 101 ''org''], db_versions := db_versions ex_adb @ [ex_version 101 [''org:access-policy'']],
     db_projects := map (\<lambda>p. p\<lparr> pj_Override := Some ''open'' \<rparr>) (db_projects ex_adb), db_assignments := [ex_arow 50 5 200 None, ex_arow 51 6 201 None] \<rparr>"

lemma ex_pdb_wf: "adb_wf ex_pdb"
  by (simp add: adb_wf_def ex_pdb_def ex_adb_def ex_arow_def ex_member_def same_live_def)

lemma ex_restrict_ok: "ok_result (fst (SetAccessOverride ex_cx 5 1 10 (Some ''restricted'') False None ex_pdb ex_eng))"
  by code_simp

lemma ex_sees: "fst (Can (cx_store ex_cx ex_pdb) ex_eng (6, 1) (ProjectScope 10) ''project:view'' 1000) = Inr True"
  by code_simp

lemma ex_cur: "cur ex_cx db k ex_eng"
  using New_wf [of 300 0] by (simp add: cur_def src.current_def New_def newCache_def cache_lookup_def)

theorem SetAccessOverride_warns_witness:
  "ok_result (fst (SetAccessOverride ex_cx 5 1 10 (Some ''restricted'') False None ex_pdb ex_eng)) \<and>
   (\<exists>d'. engine_LoadAccess (fst (snd (SetAccessOverride ex_cx 5 1 10 (Some ''restricted'') False None ex_pdb ex_eng))) 6 1 = Inr d' \<and>
      spec_effective d' 1000 (ProjectScope 10) \<noteq> {})"
proof -
  let ?run = "SetAccessOverride ex_cx 5 1 10 (Some ''restricted'') False None ex_pdb ex_eng"
  obtain rep where run: "?run = (Inr rep, fst (snd ?run), snd (snd ?run))" using ok_resultE [OF ex_restrict_ok] by blast
  have "ok_result (map_sum AInternal id (engine_LoadAccess ex_pdb 6 1))" by code_simp
  then obtain d where d: "engine_LoadAccess ex_pdb 6 1 = Inr d" by (cases "engine_LoadAccess ex_pdb 6 1") (auto simp: ok_result_def)
  have c: "engine_wf ex_eng (cx_now ex_cx)" "src.current (cx_wait ex_cx) ex_pdb ex_eng (6, 1)" using ex_cur [of ex_pdb "(6, 1)"] by (simp_all add: cur_def)
  obtain s where s: "fst (engine_snapshot (cx_store ex_cx ex_pdb) ex_eng (6, 1) (sensitives 26) (cx_now ex_cx)) = Inr s" "decides_on d ex_eng (6, 1) (cx_now ex_cx) s"
    using src.read_current(2) [OF c load_store [OF d]] by (auto simp: or_zero_def)
  have "snapshot_has s (ProjectScope 10) 26" using ex_sees s(1) by (simp add: Can_def Bit_of_def project_view_bit with_snapshot_eq ex_cx_def)
  then have "spec_effective d 1000 (ProjectScope 10) \<noteq> {}" using decides_on_has [OF s(2) LoadAccess_wf [OF ex_pdb_wf d]] by (auto simp: ex_cx_def)
  then show ?thesis using SetAccessOverride_warns [OF ex_pdb_wf _ run d] ex_cur ex_restrict_ok by (simp add: ex_cx_def)
qed

end
