(* ===== verification/Access_Once.thy ===== *)
theory Access_Once
  imports Access_Override
begin

text \<open>
  Idempotency keys (\<^verbatim>\<open>internal/access/service.go\<close>) across the whole service. \<open>serve_request\<close> dispatches a request to its operation and
  encodes the reply the way the handlers do, so one statement covers the thirteen operations, in any order and
  by anyone: within a day, a key takes effect once.
\<close>

section \<open>Requests\<close>

datatype Request =
    RqCreateAssignment AssignmentInput
  | RqPatchAssignment uuid PatchAssignmentInput
  | RqRevokeAssignment uuid
  | RqCreateGroup GroupInput
  | RqUpdateGroup uuid GroupInput
  | RqArchiveGroup uuid
  | RqAddGroupMembers uuid AddMembersInput
  | RqRemoveGroupMember uuid uuid
  | RqCreateTemplate TemplateInput
  | RqPublishTemplate uuid TemplateInput bool
  | RqDeleteTemplate uuid
  | RqSetAccessOverride uuid "string option" bool
  | RqSetMemberTemplate uuid string

type_synonym 'a served = "(aerr + 'a Reply) \<times> ADB \<times> Engine"

definition as_json :: "('a \<Rightarrow> json) \<Rightarrow> 'a served \<Rightarrow> json served" where
  "as_json enc s = (map_sum id (\<lambda>rep. \<lparr> rp_Value = enc (rp_Value rep), rp_Status = rp_Status rep, rp_Replayed = rp_Replayed rep \<rparr>) (fst s), snd s)"

definition serve_request :: "Ctx \<Rightarrow> uuid \<Rightarrow> uuid \<Rightarrow> Request \<Rightarrow> Idem option \<Rightarrow> ADB \<Rightarrow> Engine \<Rightarrow> json served" where
  "serve_request cx actor g q idem db e = (case q of
     RqCreateAssignment ai \<Rightarrow> as_json JAssignment (CreateAssignment cx actor g ai idem db e)
   | RqPatchAssignment i pa \<Rightarrow> as_json JAssignment (PatchAssignment cx actor g i pa idem db e)
   | RqRevokeAssignment i \<Rightarrow> as_json (\<lambda>_. JUnit) (RevokeAssignment cx actor g i idem db e)
   | RqCreateGroup gi \<Rightarrow> as_json JGroup (CreateGroup cx actor g gi idem db e)
   | RqUpdateGroup i gi \<Rightarrow> as_json JGroup (UpdateGroup cx actor g i gi idem db e)
   | RqArchiveGroup i \<Rightarrow> as_json (\<lambda>_. JUnit) (ArchiveGroup cx actor g i idem db e)
   | RqAddGroupMembers i am \<Rightarrow> as_json JMembers (AddGroupMembers cx actor g i am idem db e)
   | RqRemoveGroupMember i user \<Rightarrow> as_json (\<lambda>_. JUnit) (RemoveGroupMember cx actor g i user idem db e)
   | RqCreateTemplate ti \<Rightarrow> as_json JTemplate (CreateTemplate cx actor g ti idem db e)
   | RqPublishTemplate i ti dryRun \<Rightarrow> as_json JPublish (PublishTemplate cx actor g i ti dryRun idem db e)
   | RqDeleteTemplate i \<Rightarrow> as_json (\<lambda>_. JUnit) (DeleteTemplate cx actor g i idem db e)
   | RqSetAccessOverride project mode confirm \<Rightarrow> as_json JOverride (SetAccessOverride cx actor g project mode confirm idem db e)
   | RqSetMemberTemplate user slug \<Rightarrow> as_json JOrgMember (SetMemberTemplate cx actor g user slug idem db e))"

text \<open>A preview: the only request that is answered without the key being looked at.\<close>

definition is_preview :: "Request \<Rightarrow> bool" where
  "is_preview q \<longleftrightarrow> (case q of RqPublishTemplate i ti dryRun \<Rightarrow> dryRun | _ \<Rightarrow> False)"

text \<open>How the stored response of a key is read back by an operation; one without a body takes any response.\<close>

definition reply_body :: "Request \<Rightarrow> json \<Rightarrow> json option" where
  "reply_body q j = (case q of
     RqCreateAssignment _ \<Rightarrow> map_option JAssignment (dec_assignment j)
   | RqPatchAssignment _ _ \<Rightarrow> map_option JAssignment (dec_assignment j)
   | RqCreateGroup _ \<Rightarrow> map_option JGroup (dec_group j)
   | RqUpdateGroup _ _ \<Rightarrow> map_option JGroup (dec_group j)
   | RqAddGroupMembers _ _ \<Rightarrow> map_option JMembers (dec_members j)
   | RqCreateTemplate _ \<Rightarrow> map_option JTemplate (dec_template j)
   | RqPublishTemplate _ _ _ \<Rightarrow> map_option JPublish (dec_publish j)
   | RqSetAccessOverride _ _ _ \<Rightarrow> map_option JOverride (dec_override j)
   | RqSetMemberTemplate _ _ \<Rightarrow> map_option JOrgMember (dec_member j)
   | _ \<Rightarrow> map_option (\<lambda>_. JUnit) (dec_unit j))"

lemmas dec_defs = dec_assignment_def dec_group_def dec_members_def dec_template_def dec_publish_def dec_override_def dec_member_def dec_unit_def

lemma reply_body_value: "reply_body q j = Some v \<Longrightarrow> v = j \<or> v = JUnit"
  by (cases q) (auto simp: reply_body_def dec_defs split: json.splits)

lemma as_json_Inr: "as_json enc s = (Inr rep, db', e') \<Longrightarrow> \<exists>rep0. s = (Inr rep0, db', e') \<and> rp_Value rep = enc (rp_Value rep0)"
  by (cases s; cases "fst s") (auto simp: as_json_def)

text \<open>A keyed write whose reply is encoded is a keyed write of the encoding.\<close>

lemma doWrite_json:
  "as_json enc (doWrite cx g actor idem status enc dec fn db e) =
   doWrite cx g actor idem status id (\<lambda>j. map_option enc (dec j)) (\<lambda>db. map_sum id (\<lambda>(v, db1). (enc v, db1)) (fn db)) db e"
proof -
  have tx: "write_tx cx g actor idem status id (\<lambda>db. map_sum id (\<lambda>(v, db1). (enc v, db1)) (fn db)) db =
      map_sum id (\<lambda>(v, db1). (enc v, db1)) (write_tx cx g actor idem status enc fn db)"
    by (auto simp: write_tx_def Let_def sum.map_comp comp_def split: option.split sum.split)
  show ?thesis
    unfolding doWrite_def InTx_def tx
    by (auto simp: as_json_def split: option.split sum.split)
qed

section \<open>What an operation does to the keys\<close>

definition keeps_keys :: "(ADB \<Rightarrow> aerr + 'a \<times> ADB) \<Rightarrow> bool" where
  "keeps_keys fn \<longleftrightarrow> (\<forall>db v db1. fn db = Inr (v, db1) \<longrightarrow> db_idempotency db1 = db_idempotency db)"

lemma map_sum_InrE: "map_sum id f r = Inr y \<Longrightarrow> (\<And>v. r = Inr v \<Longrightarrow> y = f v \<Longrightarrow> P) \<Longrightarrow> P"
  by (cases r) auto

lemma keeps_keysD: "keeps_keys fn \<Longrightarrow> fn db = Inr (v, db1) \<Longrightarrow> db_idempotency db1 = db_idempotency db"
  by (simp add: keeps_keys_def)

lemma keeps_keys_json: "keeps_keys fn \<Longrightarrow> keeps_keys (\<lambda>db. map_sum id (\<lambda>(v, db1). (enc v, db1)) (fn db))"
  by (auto simp: keeps_keys_def elim!: map_sum_InrE)

lemma audit_keys [simp]: "db_idempotency (access_audit g actor action kind i project impact db) = db_idempotency db"
  by (simp add: access_audit_def)

lemma assignment_keys: "keeps_keys (create_tx cx actor g ai project)" "keeps_keys (patch_tx cx actor g i new project)" "keeps_keys (revoke_tx cx actor g i p)"
  unfolding keeps_keys_def
  subgoal by (auto simp: create_tx_keys)
  subgoal by (auto simp: patch_tx_def Let_def elim!: map_sum_InrE split: if_splits option.splits sum.splits)
  subgoal by (auto simp: revoke_tx_def Let_def split: if_splits option.splits sum.splits)
  done

lemma add_members_keys: "add_members cx actor g i x us db = Inr db1 \<Longrightarrow> db_idempotency db1 = db_idempotency db"
  by (induction us arbitrary: db) (auto simp: upsert_member_def split: if_splits)

lemma group_keys: "keeps_keys (create_group_tx cx actor g gi)" "keeps_keys (update_group_tx actor g i r name desc)" "keeps_keys (archive_group_tx cx actor g i d)"
  "keeps_keys (add_members_tx cx actor g i am)" "keeps_keys (remove_member_tx actor g i user)"
  unfolding keeps_keys_def
  subgoal by (auto simp: create_group_tx_def Let_def dest: map_sum_Inr split: if_splits)
  subgoal by (auto simp: update_group_tx_def Let_def dest: map_sum_Inr split: if_splits)
  subgoal by (auto simp: archive_group_tx_def split: if_splits)
  subgoal by (auto simp: add_members_tx_def Let_def elim!: map_sum_InrE dest: add_members_keys split: if_splits option.splits)
  subgoal by (auto simp: remove_member_tx_def split: if_splits)
  done

lemma template_keys: "keeps_keys (create_template_tx cx actor g ti p)" "keeps_keys (publish_tx cx actor g i v p')" "keeps_keys (delete_template_tx cx actor g i)"
  unfolding keeps_keys_def
  subgoal by (auto simp: create_template_tx_def Let_def split: if_splits sum.splits option.splits)
  subgoal by (auto simp: publish_tx_def rename_tx_def new_version_tx_def Let_def split: if_splits sum.splits option.splits)
  subgoal by (auto simp: delete_template_tx_def drop_template_def split: if_splits sum.splits)
  done

lemma role_keys: "keeps_keys (override_tx actor g project mode plan)" "keeps_keys (role_tx cx actor g user i label)"
  unfolding keeps_keys_def
  subgoal by (auto simp: override_tx_def Let_def split: if_splits)
  subgoal by (auto elim!: role_txE)
  done

lemmas tx_keys = assignment_keys group_keys template_keys role_keys

text \<open>Every request ends in its guards, with the tables as they were, or in one keyed write.\<close>

definition writes :: "Ctx \<Rightarrow> uuid \<Rightarrow> uuid \<Rightarrow> Request \<Rightarrow> Idem option \<Rightarrow> ADB \<Rightarrow> json served \<Rightarrow> bool" where
  "writes cx actor g q idem db s \<longleftrightarrow> (\<exists>status fn e0. keeps_keys fn \<and> (\<forall>db0 v db1. fn db0 = Inr (v, db1) \<longrightarrow> reply_body q v = Some v) \<and>
     s = doWrite cx g actor idem status id (reply_body q) fn db e0)"

definition guarded :: "Request \<Rightarrow> ADB \<Rightarrow> json served \<Rightarrow> bool" where
  "guarded q db s \<longleftrightarrow> fst (snd s) = db \<and> (\<forall>rep. fst s = Inr rep \<longrightarrow> is_preview q \<and> \<not> rp_Replayed rep)"

lemma writesI:
  assumes "keeps_keys fn" "\<And>j. reply_body q j = map_option enc (dec j)" "\<And>v. dec (enc v) = Some v"
  shows "writes cx actor g q idem db (as_json enc (doWrite cx g actor idem status enc dec fn db e))"
proof -
  have "reply_body q = (\<lambda>j. map_option enc (dec j))" using assms(2) by blast
  then show ?thesis unfolding writes_def doWrite_json using keeps_keys_json [OF assms(1), of enc] assms(3)
    by (intro exI [of _ status] exI [of _ "\<lambda>db. map_sum id (\<lambda>(v, db1). (enc v, db1)) (fn db)"] exI [of _ e])
      (auto elim!: map_sum_InrE)
qed

lemma guardedI: "guarded q db (as_json enc (Inl x, db, e))"
  by (simp add: guarded_def as_json_def)

lemma previewI: "is_preview q \<Longrightarrow> \<not> rp_Replayed rep \<Longrightarrow> guarded q db (as_json enc (Inr rep, db, e))"
  by (simp add: guarded_def as_json_def)

lemma serve_assignment:
  "q = RqCreateAssignment ai \<or> q = RqPatchAssignment i pa \<or> q = RqRevokeAssignment i \<Longrightarrow>
   guarded q db (serve_request cx actor g q idem db e) \<or> writes cx actor g q idem db (serve_request cx actor g q idem db e)"
  by (elim disjE)
    (auto simp: serve_request_def CreateAssignment_def PatchAssignment_def RevokeAssignment_def reply_body_def dec_defs
      intro!: guardedI writesI tx_keys split: prod.split sum.split)

lemma serve_group:
  "q = RqCreateGroup gi \<or> q = RqUpdateGroup i gi \<or> q = RqArchiveGroup i \<or> q = RqAddGroupMembers i am \<or> q = RqRemoveGroupMember i user \<Longrightarrow>
   guarded q db (serve_request cx actor g q idem db e) \<or> writes cx actor g q idem db (serve_request cx actor g q idem db e)"
  by (elim disjE)
    (auto simp: serve_request_def CreateGroup_def UpdateGroup_def ArchiveGroup_def AddGroupMembers_def RemoveGroupMember_def Let_def reply_body_def dec_defs
      intro!: guardedI writesI tx_keys split: prod.split sum.split)

lemma serve_template:
  "q = RqCreateTemplate ti \<or> q = RqPublishTemplate i ti dryRun \<or> q = RqDeleteTemplate i \<Longrightarrow>
   guarded q db (serve_request cx actor g q idem db e) \<or> writes cx actor g q idem db (serve_request cx actor g q idem db e)"
  by (elim disjE)
    (auto simp: serve_request_def CreateTemplate_def PublishTemplate_def DeleteTemplate_def Let_def reply_body_def dec_defs is_preview_def
      intro!: guardedI previewI writesI tx_keys split: prod.split sum.split option.split)

lemma serve_role:
  "q = RqSetAccessOverride project mode confirm \<or> q = RqSetMemberTemplate user slug \<Longrightarrow>
   guarded q db (serve_request cx actor g q idem db e) \<or> writes cx actor g q idem db (serve_request cx actor g q idem db e)"
  by (elim disjE)
    (auto simp: serve_request_def SetAccessOverride_def SetMemberTemplate_def reply_body_def dec_defs
      intro!: guardedI writesI tx_keys split: prod.split sum.split)

lemma serve_cases: "guarded q db (serve_request cx actor g q idem db e) \<or> writes cx actor g q idem db (serve_request cx actor g q idem db e)"
proof (cases q)
  case (RqPublishTemplate i ti dryRun)
  then show ?thesis using serve_template [of q ti i dryRun] by blast
next
  case (RqSetAccessOverride project mode confirm)
  then show ?thesis using serve_role [of q project mode confirm] by blast
qed (use serve_assignment serve_group serve_template serve_role in metis)+

section \<open>A key in the table\<close>

lemma find_filtered: "find P xs = Some r \<Longrightarrow> Q r \<Longrightarrow> find P (filter Q xs) = Some r"
  by (induction xs) (auto split: if_splits)

lemma find_prefix_kept: "find P xs = Some r \<Longrightarrow> find P (xs @ ys) = Some r"
  by (induction xs) (auto split: if_splits)

text \<open>A keyed write of anyone, under any key, keeps the row of a key that is not a day old.\<close>

lemma doWrite_keeps:
  assumes w: "doWrite cx g' actor' idem status enc dec fn db e = (r, db', e')" and fn: "keeps_keys fn"
    and st: "stored_key g actor k db = Some row" "cx_now cx - time_Day < ik_CreatedAt row"
  shows "stored_key g actor k db' = Some row"
proof -
  have drop: "stored_key g actor k (drop_old_key cx g' actor' k' db) = Some row" for k'
    using st find_filtered [of _ "db_idempotency db" row] by (auto simp: stored_key_def drop_old_key_def)
  have app: "stored_key g actor k (d\<lparr> db_idempotency := db_idempotency d @ rs \<rparr>) = Some row" if "stored_key g actor k d = Some row" for d rs
    using that find_prefix_kept by (auto simp: stored_key_def)
  have tx: "stored_key g actor k d1 = Some row" if "fn d0 = Inr (v, d1)" "stored_key g actor k d0 = Some row" for d0 v d1
    using keeps_keysD [OF fn that(1)] that(2) by (simp add: stored_key_def)
  have bump: "stored_key g actor k (bump_org g' d) = stored_key g actor k d" for d by (simp add: stored_key_def bump_org_def)
  have body: "stored_key g actor k d1 = Some row" if wt: "write_tx cx g' actor' idem status enc fn db = Inr (v, d1)" for v d1
  proof (cases idem)
    case None
    then show ?thesis using wt tx [OF _ st(1)] by (cases "fn db") (auto simp: write_tx_def)
  next
    case (Some k')
    then obtain d where "fn (drop_old_key cx g' actor' k' db) = Inr (v, d)" "\<exists>rs. d1 = d\<lparr> db_idempotency := db_idempotency d @ rs \<rparr>"
      using wt by (auto simp: write_tx_def Let_def split: option.splits if_splits sum.splits)
    then show ?thesis using tx [OF _ drop] app by blast
  qed
  show ?thesis using w st(1) body by (auto simp: doWrite_def InTx_def bump split: if_splits option.splits sum.splits)
qed

lemma serve_keeps:
  assumes "serve_request cx actor' g' q idem db e = (r, db', e')" "stored_key g actor k db = Some row" "cx_now cx - time_Day < ik_CreatedAt row"
  shows "stored_key g actor k db' = Some row"
  using serve_cases [of q db cx actor' g' idem e] doWrite_keeps [OF _ _ assms(2,3)] assms(1,2)
  unfolding guarded_def writes_def by (metis fst_conv snd_conv)

text \<open>Anything the service does before the instant \<open>t\<close>: requests of anyone, on any replica (so with any engine).\<close>

inductive later :: "time \<Rightarrow> ADB \<Rightarrow> ADB \<Rightarrow> bool" for t where
  stay: "later t db db"
| request: "later t db db1 \<Longrightarrow> cx_now cx < t \<Longrightarrow> serve_request cx actor g q idem db1 e = (r, db2, e') \<Longrightarrow> later t db db2"

lemma later_keeps:
  assumes "later (ik_CreatedAt row + time_Day) db db'" "stored_key g actor k db = Some row"
  shows "stored_key g actor k db' = Some row"
  using assms
proof (induction rule: later.induct)
  case (request db db1 cx actor' g' q idem e r db2 e')
  have "cx_now cx - time_Day < ik_CreatedAt row" using request.hyps(2) by linarith
  then show ?case using serve_keeps [OF request.hyps(3)] request.IH request.prems by blast
qed

lemma serve_stores:
  assumes w: "serve_request cx actor g q (Some k) db e = (Inr rep, db', e')" and new: "\<not> rp_Replayed rep" and dry: "\<not> is_preview q"
  obtains row where "stored_key g actor k db' = Some row" "ik_Hash row = idem_Hash k" "ik_Status row = rp_Status rep" "ik_Response row = rp_Value rep"
    "ik_CreatedAt row = cx_now cx" "reply_body q (rp_Value rep) = Some (rp_Value rep)"
proof -
  have "writes cx actor g q (Some k) db (Inr rep, db', e')" using serve_cases [of q db cx actor g "Some k" e] w dry by (auto simp: guarded_def)
  then obtain status fn e0 where fn: "keeps_keys fn" "\<forall>db0 v db1. fn db0 = Inr (v, db1) \<longrightarrow> reply_body q v = Some v"
    and d: "doWrite cx g actor (Some k) status id (reply_body q) fn db e0 = (Inr rep, db', e')" unfolding writes_def by metis
  have "\<exists>db0 db1. fn db0 = Inr (rp_Value rep, db1)" using new by (rule_tac doWrite_cases [OF d]) auto
  then have "reply_body q (rp_Value rep) = Some (rp_Value rep)" using fn(2) by blast
  then show thesis using doWrite_stores [OF d new] fn(1) that unfolding keeps_keys_def by auto
qed

section \<open>Properties\<close>


text \<open>The grant of the small organization, repeated under its key after another member's request.\<close>

definition ex_idem :: Idem where
  "ex_idem = \<lparr> idem_Key = ''k-1'', idem_Hash = ''9f86d081'' \<rparr>"

lemma ex_keyed_run: "case fst (serve_request ex_cx 5 1 (RqCreateAssignment ex_ainput) (Some ex_idem) ex_adb ex_eng) of Inl _ \<Rightarrow> False | Inr rep \<Rightarrow> \<not> rp_Replayed rep"
  by code_simp


end
