(* ===== verification/Access_Service.thy ===== *)
theory Access_Service
  imports Access_Override
begin

text \<open>
  The service as a state machine: every operation of the access administration is a step on the tables and the engine.
  The constraints of the tables hold in every state that is reached, the templates of the system never change, and an
  organization that has an active owner keeps one. The uuid library \<open>U\<close>, which the id of the owner template comes from, is the
  same in every step.
\<close>

section \<open>Steps\<close>

inductive access_step :: "uuid_lib \<Rightarrow> ADB \<times> Engine \<Rightarrow> ADB \<times> Engine \<Rightarrow> bool" for U where
  create_assignment: "0 \<le> cx_now cx \<Longrightarrow> CreateAssignment cx actor g ai idem db e = (r, s) \<Longrightarrow> access_step U (db, e) s"
| patch_assignment: "0 \<le> cx_now cx \<Longrightarrow> PatchAssignment cx actor g i pa idem db e = (r, s) \<Longrightarrow> access_step U (db, e) s"
| revoke_assignment: "RevokeAssignment cx actor g i idem db e = (r, s) \<Longrightarrow> access_step U (db, e) s"
| create_group: "CreateGroup cx actor g gi idem db e = (r, s) \<Longrightarrow> access_step U (db, e) s"
| update_group: "UpdateGroup cx actor g i gi idem db e = (r, s) \<Longrightarrow> access_step U (db, e) s"
| archive_group: "ArchiveGroup cx actor g i idem db e = (r, s) \<Longrightarrow> access_step U (db, e) s"
| add_group_members: "0 \<le> cx_now cx \<Longrightarrow> AddGroupMembers cx actor g i am idem db e = (r, s) \<Longrightarrow> access_step U (db, e) s"
| remove_group_member: "RemoveGroupMember cx actor g i user idem db e = (r, s) \<Longrightarrow> access_step U (db, e) s"
| create_template: "CreateTemplate cx actor g ti idem db e = (r, s) \<Longrightarrow> access_step U (db, e) s"
| publish_template: "PublishTemplate cx actor g i ti dryRun idem db e = (r, s) \<Longrightarrow> access_step U (db, e) s"
| delete_template: "DeleteTemplate cx actor g i idem db e = (r, s) \<Longrightarrow> access_step U (db, e) s"
| set_access_override: "SetAccessOverride cx actor g project mode confirm idem db e = (r, s) \<Longrightarrow> access_step U (db, e) s"
| set_member_template: "cx_uuid cx = U \<Longrightarrow> SetMemberTemplate cx actor g user slug idem db e = (r, s) \<Longrightarrow> access_step U (db, e) s"

text \<open>\<open>sys_kept\<close>: the templates of the system are there with the same versions.\<close>

definition is_system :: "ADB \<Rightarrow> uuid \<Rightarrow> bool" where
  "is_system db j \<longleftrightarrow> (\<exists>t \<in> set (db_templates db). rt_ID t = j \<and> rt_System t)"

definition sys_kept :: "ADB \<Rightarrow> ADB \<Rightarrow> bool" where
  "sys_kept db db' \<longleftrightarrow> (\<forall>j. is_system db' j = is_system db j) \<and> (\<forall>j. is_system db j \<longrightarrow>
     (\<forall>n. map_option tv_key (template_version db' (j, n)) = map_option tv_key (template_version db (j, n))))"

text \<open>\<open>owners_kept\<close>: where the owner template is the one the system ships, an organization with an active owner has one.\<close>

definition owners_kept :: "uuid_lib \<Rightarrow> ADB \<Rightarrow> ADB \<Rightarrow> bool" where
  "owners_kept U db db' \<longleftrightarrow> (owner_seeded U db \<longrightarrow> (\<forall>g. active_owners (template_ID U KindOrg ''owner'') db g \<noteq> [] \<longrightarrow>
     active_owners (template_ID U KindOrg ''owner'') db' g \<noteq> []))"

definition service_ok :: "uuid_lib \<Rightarrow> ADB \<Rightarrow> ADB \<Rightarrow> bool" where
  "service_ok U base db \<longleftrightarrow> templates_wf base \<and> adb_wf db \<and> templates_wf db \<and> sys_kept base db \<and> owners_kept U base db"

lemma sys_kept_trans: "sys_kept a b \<Longrightarrow> sys_kept b c \<Longrightarrow> sys_kept a c"
  by (simp add: sys_kept_def)

lemma sys_kept_same:
  assumes "db_templates db' = db_templates db" "db_versions db' = db_versions db"
  shows "sys_kept db db'"
  unfolding sys_kept_def is_system_def template_version_def assms by blast

lemma owners_kept_same: "owners_kept U a b \<Longrightarrow> db_members c = db_members b \<Longrightarrow> db_users c = db_users b \<Longrightarrow> owners_kept U a c"
  by (simp add: owners_kept_def active_owners_def)

lemma service_ok_people:
  assumes "service_ok U base a" "adb_wf b" "templates_wf b" "sys_kept a b" "db_members b = db_members a" "db_users b = db_users a"
  shows "service_ok U base b"
  using assms sys_kept_trans owners_kept_same unfolding service_ok_def by blast

lemma ball_map: "(\<And>x. x \<in> set xs \<Longrightarrow> P (f x)) \<Longrightarrow> \<forall>y \<in> set (map f xs). P y"
  by auto

lemma service_ok_tables: "service_ok U base a \<Longrightarrow> same_tables a b \<Longrightarrow> db_assignments b = db_assignments a \<Longrightarrow> service_ok U base b"
proof -
  assume ok: "service_ok U base a" and st: "same_tables a b" "db_assignments b = db_assignments a"
  have "templates_wf b = templates_wf a" using st unfolding templates_wf_def same_defs by simp
  moreover have "sys_kept a b" by (rule sys_kept_same) (use st in \<open>simp_all add: same_defs\<close>)
  moreover have "db_members b = db_members a" "db_users b = db_users a" using st(1) unfolding same_defs by blast+
  moreover have "adb_wf b" "templates_wf a" using ok adb_wf_tables [OF st] unfolding service_ok_def by blast+
  ultimately show ?thesis using service_ok_people [OF ok] by blast
qed

lemma doWrite_ok:
  assumes "service_ok U base db" "\<And>db0 v db1. service_ok U base db0 \<Longrightarrow> same_tables db db0 \<Longrightarrow> db_assignments db0 = db_assignments db \<Longrightarrow> fn db0 = Inr (v, db1) \<Longrightarrow> service_ok U base db1"
    and "doWrite cx g actor idem status enc dec fn db e = (r, db', e')"
  shows "service_ok U base db'"
proof (rule doWrite_cases [OF assms(3)])
  fix v db0 db1 js assume w: "fn db0 = Inr (v, db1)" "db0 = db \<or> (\<exists>k. db0 = drop_old_key cx g actor k db)" "db' = bump_org g (db1\<lparr> db_idempotency := js \<rparr>)"
  have d0: "same_tables db db0" "db_assignments db0 = db_assignments db" using w(2) by auto
  have "service_ok U base db1" by (rule assms(2) [OF service_ok_tables [OF assms(1) d0] d0 w(1)])
  then show ?thesis by (rule service_ok_tables) (simp_all add: w(3) same_tables_trans [OF same_tables_upd(3) same_tables_upd(5)])
qed (use assms(1) in simp_all)

section \<open>Assignments\<close>

definition row_ok :: "ADB \<Rightarrow> AssignRow \<Rightarrow> bool" where
  "row_ok db r \<longleftrightarrow> (\<exists>t \<in> set (db_templates db). rt_ID t = as_Template r) \<and>
     (\<forall>n. as_Pinned r = Some n \<longrightarrow> (\<exists>v \<in> set (db_versions db). rv_Template v = as_Template r \<and> rv_Version v = n))"

lemma templates_wf_rows:
  assumes "templates_wf db" "same_tables db db'" "\<forall>r \<in> set (db_assignments db'). row_ok db r"
  shows "templates_wf db'"
proof -
  have "db_templates db' = db_templates db" "db_versions db' = db_versions db" "db_members db' = db_members db" using assms(2) unfolding same_defs by blast+
  then show ?thesis using assms(1,3) unfolding templates_wf_def row_ok_def by (simp only:) blast
qed

lemma templates_row_ok: "templates_wf db \<Longrightarrow> r \<in> set (db_assignments db) \<Longrightarrow> row_ok db r"
  unfolding templates_wf_def row_ok_def by blast

lemma rows_service_ok:
  assumes "service_ok U base db" "same_tables db db1" "adb_wf db1" "\<forall>r \<in> set (db_assignments db1). row_ok db r"
  shows "service_ok U base db1"
proof -
  have "sys_kept db db1" by (rule sys_kept_same) (use assms(2) in \<open>simp_all add: same_defs\<close>)
  moreover have "db_members db1 = db_members db" "db_users db1 = db_users db" using assms(2) unfolding same_defs by blast+
  moreover have "templates_wf db" using assms(1) unfolding service_ok_def by blast
  ultimately show ?thesis using service_ok_people [OF assms(1,3)] templates_wf_rows [OF _ assms(2,4)] by blast
qed

lemma loadVer_mem: "loadVer db i n = Inr v \<Longrightarrow> n \<noteq> 0 \<Longrightarrow> v \<in> set (db_versions db) \<and> rv_Template v = i \<and> rv_Version v = n"
  by (auto simp: loadVer_def template_version_def dest: find_SomeD split: option.splits)

lemma checked_pin:
  assumes "checked_version db g ai = Inr (head, ver)" "ai_Pinned ai = Some n"
  shows "\<exists>v \<in> set (db_versions db). rv_Template v = ai_TemplateID ai \<and> rv_Version v = n"
proof -
  have h: "loadHead db g (ai_TemplateID ai) = Inr head" "loadVer db (rt_ID head) n = Inr ver" "n \<ge> 1"
    using assms by (auto simp: checked_version_def Let_def pin_of_def split: sum.splits if_splits)
  have "rt_ID head = ai_TemplateID ai" using h(1) by (auto simp: loadHead_def dest: find_SomeD split: option.splits)
  then show ?thesis using loadVer_mem [OF h(2)] h(3) by auto
qed

lemma patched_pin:
  assumes "patch_versions db g c new = Inr q" "as_Pinned new = Some n"
  shows "\<exists>v \<in> set (db_versions db). rv_Template v = as_Template c \<and> rv_Version v = n"
proof -
  obtain head ver where h: "loadHead db g (as_Template c) = Inr head" "loadVer db (rt_ID head) n = Inr ver" "n \<ge> 1"
    using assms by (auto simp: patch_versions_def Let_def pin_of_def split: sum.splits if_splits)
  have "rt_ID head = as_Template c" using h(1) by (auto simp: loadHead_def dest: find_SomeD split: option.splits)
  then show ?thesis using loadVer_mem [OF h(2)] h(3) by auto
qed

lemma create_tx_ok:
  assumes ok: "service_ok U base db" and tx: "create_tx cx actor g ai project db = Inr (dto, db1)" and ex: "\<And>t. ai_Expires ai = Some t \<Longrightarrow> 0 < t"
    and pin: "\<And>n. ai_Pinned ai = Some n \<Longrightarrow> \<exists>v \<in> set (db_versions db). rv_Template v = ai_TemplateID ai \<and> rv_Version v = n"
  shows "service_ok U base db1"
proof -
  let ?r = "input_row cx g actor ai"
  obtain i created action impact db0 where up: "upsert_assignment ?r db = Inr ((i, created), db0)"
    and db1: "db1 = access_audit g actor action ''assignment'' i (project_of (ai_ScopeType ai) project) impact db0" by (rule create_tx_Inr [OF tx])
  have chk: "assignment_check db ?r" using up by (auto simp: upsert_assignment_def split: if_splits)
  have "\<exists>t \<in> set (db_templates db). rt_ID t = as_Template ?r" using chk by (auto simp: assignment_check_def dest: find_SomeD split: option.splits)
  then have new: "row_ok db ?r" using pin by (auto simp: row_ok_def input_row_def)
  have old: "row_ok db x" if "x \<in> set (db_assignments db)" for x using ok templates_row_ok that unfolding service_ok_def by blast
  have upd: "row_ok db (x\<lparr> as_Pinned := as_Pinned ?r, as_Expires := as_Expires ?r, as_Reason := as_Reason ?r \<rparr>)" if "same_live ?r x" for x
    using new that unfolding row_ok_def same_live_def by simp
  have "same_tables db db0 \<and> (\<forall>x \<in> set (db_assignments db0). row_ok db x)"
  proof (cases "find (same_live ?r) (db_assignments db)")
    case None
    then have "db0 = db\<lparr> db_assignments := db_assignments db @ [?r] \<rparr>" using up by (auto simp: upsert_assignment_def split: if_splits)
    then show ?thesis using new old by auto
  next
    case (Some q)
    let ?f = "\<lambda>x. if as_ID x = as_ID q then x\<lparr> as_Pinned := as_Pinned ?r, as_Expires := as_Expires ?r, as_Reason := as_Reason ?r \<rparr> else x"
    have db0: "db0 = db\<lparr> db_assignments := map ?f (db_assignments db) \<rparr>" using up Some unfolding upsert_assignment_def by (simp split: if_splits) blast
    have q: "q \<in> set (db_assignments db)" "same_live ?r q" using find_SomeD [OF Some] by blast+
    have "row_ok db (?f x)" if x: "x \<in> set (db_assignments db)" for x
    proof (cases "as_ID x = as_ID q")
      case True
      then have "x = q" using adb_wfD(1) x q(1) ok unfolding service_ok_def inj_on_def by blast
      then show ?thesis using upd [OF q(2)] by simp
    qed (use old [OF x] in simp)
    then have "\<forall>x \<in> set (map ?f (db_assignments db)). row_ok db x" by (rule ball_map)
    then show ?thesis unfolding db0 by simp
  qed
  then have "same_tables db db1" "\<forall>x \<in> set (db_assignments db1). row_ok db x" using same_tables_trans [OF _ same_tables_upd(4)] by (simp_all add: db1)
  moreover have "adb_wf db1" by (rule create_tx_wf [OF _ tx ex]) (use ok in \<open>simp add: service_ok_def\<close>)
  ultimately show ?thesis using rows_service_ok [OF ok] by blast
qed

lemma patch_tx_ok:
  assumes ok: "service_ok U base db" and tx: "patch_tx cx actor g i new project db = Inr (dto, db1)" and ex: "\<And>t. as_Expires new = Some t \<Longrightarrow> 0 < t"
    and c: "loadLive db g i = Inr c" and pin: "\<And>n. as_Pinned new = Some n \<Longrightarrow> \<exists>v \<in> set (db_versions db). rv_Template v = as_Template c \<and> rv_Version v = n"
  shows "service_ok U base db1"
proof -
  let ?f = "\<lambda>x. if as_ID x = i \<and> as_Org x = g then patch_row new x else x"
  obtain lc where st: "same_tables db db1" "db_assignments db1 = map ?f (db_assignments db)" by (rule patch_tx_Inr [OF tx])
  note cm = loadLive_Inr [OF c]
  have old: "row_ok db x" if "x \<in> set (db_assignments db)" for x using ok templates_row_ok that unfolding service_ok_def by blast
  have "row_ok db (?f x)" if x: "x \<in> set (db_assignments db)" for x
  proof (cases "as_ID x = i \<and> as_Org x = g")
    case True
    then have "x = c" using adb_wfD(1) x cm ok unfolding service_ok_def inj_on_def by blast
    then show ?thesis using old [OF x] pin True by (simp add: row_ok_def patch_row_def)
  qed (use old [OF x] in \<open>simp only: if_False\<close>)
  then have "\<forall>r \<in> set (db_assignments db1). row_ok db r" unfolding st(2) by (rule ball_map)
  moreover have "adb_wf db1" by (rule patch_tx_wf [OF _ tx ex]) (use ok in \<open>simp add: service_ok_def\<close>)
  ultimately show ?thesis using rows_service_ok [OF ok st(1)] by blast
qed

lemma revoke_tx_ok:
  assumes ok: "service_ok U base db" and tx: "revoke_tx cx actor g i project db = Inr (v, db1)"
  shows "service_ok U base db1"
proof -
  let ?f = "\<lambda>x. if as_ID x = i \<and> as_Org x = g \<and> as_Revoked x = None then x\<lparr> as_Revoked := Some (cx_now cx), as_RevokedBy := Some actor \<rparr> else x"
  obtain lc where st: "same_tables db db1" "db_assignments db1 = map ?f (db_assignments db)" by (rule revoke_tx_Inr [OF tx])
  have "row_ok db (?f x)" if "x \<in> set (db_assignments db)" for x using ok templates_row_ok that unfolding service_ok_def row_ok_def by simp
  then have "\<forall>r \<in> set (db_assignments db1). row_ok db r" unfolding st(2) by (rule ball_map)
  moreover have "adb_wf db1" by (rule revoke_tx_wf [OF _ tx]) (use ok in \<open>simp add: service_ok_def\<close>)
  ultimately show ?thesis using rows_service_ok [OF ok st(1)] by blast
qed

section \<open>Groups\<close>

definition groups_only :: "ADB \<Rightarrow> ADB \<Rightarrow> bool" where
  "groups_only db db' \<longleftrightarrow> kept_core db db' \<and> db_assignments db' = db_assignments db"

lemma groups_service_ok:
  assumes "service_ok U base db" "groups_only db db1" "adb_wf db1"
  shows "service_ok U base db1"
proof -
  have "sys_kept db db1" by (rule sys_kept_same) (use assms(2) in \<open>simp_all add: groups_only_def core_defs\<close>)
  moreover have "templates_wf db1 = templates_wf db" using assms(2) unfolding templates_wf_def groups_only_def core_defs by simp
  moreover have "db_members db1 = db_members db" "db_users db1 = db_users db" using assms(2) unfolding groups_only_def core_defs by blast+
  moreover have "templates_wf db" using assms(1) unfolding service_ok_def by blast
  ultimately show ?thesis using service_ok_people [OF assms(1,3)] by blast
qed

lemma groups_only_upd: "groups_only db (access_audit g actor action kind i project impact (db\<lparr> db_groups := gs \<rparr>))" "groups_only db (db\<lparr> db_groups := gs \<rparr>)"
  "groups_only db (access_audit g actor action kind i project impact (db\<lparr> db_group_members := ms \<rparr>))" "groups_only db db"
  by (simp_all add: groups_only_def core_defs access_audit_def)

lemma group_txs:
  "create_group_tx cx actor g gi db = Inr (v, db1) \<Longrightarrow> groups_only db db1" "update_group_tx actor g i r name desc db = Inr (v, db1) \<Longrightarrow> groups_only db db1"
  "archive_group_tx cx actor g i d db = Inr (w, db1) \<Longrightarrow> groups_only db db1" "remove_member_tx actor g i user db = Inr (w, db1) \<Longrightarrow> groups_only db db1"
  by (auto simp: create_group_tx_def update_group_tx_def archive_group_tx_def remove_member_tx_def Let_def groups_only_upd dest: map_sum_Inr split: if_splits)

lemma add_members_groups_only: "add_members_tx cx actor g i am db = Inr (v, db1) \<Longrightarrow> groups_only db db1"
proof -
  assume tx: "add_members_tx cx actor g i am db = Inr (v, db1)"
  have "add_members cx actor g i (am_Expires am) (dedup [] (am_UserIDs am)) db = Inr db1"
    using tx by (cases "add_members cx actor g i (am_Expires am) (dedup [] (am_UserIDs am)) db") (auto simp: add_members_tx_def Let_def split: option.splits if_splits)
  then show ?thesis using joined_members unfolding joined_def groups_only_def by blast
qed

lemma group_txs_ok:
  assumes "service_ok U base db"
  shows "create_group_tx cx actor g gi db = Inr (v, db1) \<Longrightarrow> service_ok U base db1" "update_group_tx actor g i r name desc db = Inr (v, db1) \<Longrightarrow> service_ok U base db1"
    "archive_group_tx cx actor g i d db = Inr (w, db1) \<Longrightarrow> service_ok U base db1" "remove_member_tx actor g i user db = Inr (w, db1) \<Longrightarrow> service_ok U base db1"
    "add_members_tx cx actor g i am db = Inr (u, db1) \<Longrightarrow> (\<And>t. am_Expires am = Some t \<Longrightarrow> 0 < t) \<Longrightarrow> service_ok U base db1"
proof -
  have wf: "adb_wf db" using assms by (simp add: service_ok_def)
  show "create_group_tx cx actor g gi db = Inr (v, db1) \<Longrightarrow> service_ok U base db1" using groups_service_ok [OF assms group_txs(1)] create_group_wf [OF wf] by blast
  show "update_group_tx actor g i r name desc db = Inr (v, db1) \<Longrightarrow> service_ok U base db1" using groups_service_ok [OF assms group_txs(2)] update_group_wf [OF wf] by blast
  show "archive_group_tx cx actor g i d db = Inr (w, db1) \<Longrightarrow> service_ok U base db1" using groups_service_ok [OF assms group_txs(3)] archive_group_wf [OF wf] by blast
  show "remove_member_tx actor g i user db = Inr (w, db1) \<Longrightarrow> service_ok U base db1" using groups_service_ok [OF assms group_txs(4)] remove_member_wf [OF wf] by blast
  show "add_members_tx cx actor g i am db = Inr (u, db1) \<Longrightarrow> (\<And>t. am_Expires am = Some t \<Longrightarrow> 0 < t) \<Longrightarrow> service_ok U base db1"
    using groups_service_ok [OF assms add_members_groups_only] add_members_tx_wf [OF wf] by blast
qed

section \<open>Templates\<close>

definition only_templates :: "ADB \<Rightarrow> ADB \<Rightarrow> bool" where
  "only_templates db db' \<longleftrightarrow> kept_people db db' \<and> db_environments db' = db_environments db \<and> db_groups db' = db_groups db \<and>
     db_group_members db' = db_group_members db \<and> db_assignments db' = db_assignments db"

lemma only_templates_wf:
  assumes "only_templates db db'"
  shows "adb_wf db' = adb_wf db"
proof -
  have "map ao_ID (map (\<lambda>r. r\<lparr> ao_Epoch := 0 \<rparr>) (db_orgs db')) = map ao_ID (map (\<lambda>r. r\<lparr> ao_Epoch := 0 \<rparr>) (db_orgs db))"
    using assms unfolding only_templates_def kept_people_def by simp
  then have "map ao_ID (db_orgs db') = map ao_ID (db_orgs db)" by (simp add: comp_def)
  then show ?thesis using assms unfolding adb_wf_def only_templates_def kept_people_def by simp
qed

lemma templates_service_ok:
  assumes "service_ok U base db" "only_templates db db1" "templates_wf db1" "sys_kept db db1"
  shows "service_ok U base db1"
proof -
  have "db_members db1 = db_members db" "db_users db1 = db_users db" using assms(2) unfolding only_templates_def kept_people_def by blast+
  moreover have "adb_wf db1" using assms(1) only_templates_wf [OF assms(2)] unfolding service_ok_def by blast
  ultimately show ?thesis using service_ok_people [OF assms(1) _ assms(3,4)] by blast
qed

text \<open>A new template.\<close>

lemma create_template_ok:
  assumes ok: "service_ok U base db" and tx: "create_template_tx cx actor g ti p db = Inr (dto, db1)"
  shows "service_ok U base db1"
proof -
  let ?h = "\<lparr> rt_ID = cx_new cx, rt_Org = Some g, rt_Kind = ti_Kind ti, rt_Slug = ti_Slug ti, rt_Name = pt_Name p, rt_Description = pt_Description p,
    rt_ClonedFrom = ti_ClonedFrom ti, rt_System = False, rt_Current = 1, rt_Archived = None \<rparr>"
  let ?action = "if ti_ClonedFrom ti = None then ''access.template.created'' else ''access.template.cloned''"
  let ?db1 = "access_audit g actor ?action ''template'' (rt_ID ?h) None 0 (db\<lparr> db_templates := db_templates db @ [?h], db_versions := db_versions db @ [prepared_version (rt_ID ?h) 1 p] \<rparr>)"
  have new: "cx_new cx \<notin> rt_ID ` set (db_templates db)" using tx by (auto simp: create_template_tx_def list_ex_iff split: if_splits)
  have "case loadVer ?db1 (rt_ID ?h) 0 of Inl x \<Rightarrow> False | Inr v \<Rightarrow> db1 = ?db1"
    using tx unfolding create_template_tx_def Let_def by (cases "loadVer ?db1 (rt_ID ?h) 0") (simp_all split: if_splits)
  then have db1: "db1 = ?db1" by (simp only: split: sum.splits)
  define h where "h = ?h"
  have h: "rt_ID h = cx_new cx" "rt_Current h = 1" by (simp_all add: h_def)
  let ?w = "prepared_version (cx_new cx) 1 p"
  have ts: "db_templates db1 = db_templates db @ [h]" "db_versions db1 = db_versions db @ [?w]" and ot: "only_templates db db1"
    by (simp_all add: db1 h_def access_audit_def only_templates_def kept_people_def)
  have w: "rv_Template ?w = cx_new cx" "rv_Version ?w = 1" by (simp_all add: prepared_version_def)
  have wf: "templates_wf db" using ok by (simp add: service_ok_def)
  have fresh: "rv_Template v \<noteq> cx_new cx" if "v \<in> set (db_versions db)" for v
  proof -
    have "\<exists>t \<in> set (db_templates db). rt_ID t = rv_Template v" using wf that unfolding templates_wf_def by blast
    then show ?thesis using new by (metis imageI)
  qed
  have same: "db_assignments db1 = db_assignments db" "db_members db1 = db_members db" using ot unfolding only_templates_def kept_people_def by blast+
  have new_key: "(rv_Template ?w, rv_Version ?w) \<notin> (\<lambda>v. (rv_Template v, rv_Version v)) ` set (db_versions db)"
  proof
    assume "(rv_Template ?w, rv_Version ?w) \<in> (\<lambda>v. (rv_Template v, rv_Version v)) ` set (db_versions db)"
    then obtain v where "v \<in> set (db_versions db)" "rv_Template v = rv_Template ?w" by auto
    then show False using fresh w(1) by metis
  qed
  have "templates_wf db1" unfolding templates_wf_def ts same
  proof (intro conjI)
    show "distinct (map rt_ID (db_templates db @ [h]))" using wf new h(1) by (simp add: templates_wf_def)
    show "distinct (map (\<lambda>v. (rv_Template v, rv_Version v)) (db_versions db @ [?w]))" 
      using wf new_key by (simp add: templates_wf_def)
    show "\<forall>v \<in> set (db_versions db @ [?w]). 0 < rv_Version v \<and> (\<exists>t \<in> set (db_templates db @ [h]). rt_ID t = rv_Template v)" using wf h(1) w by (simp add: templates_wf_def)
    show "\<forall>t \<in> set (db_templates db @ [h]). \<exists>v \<in> set (db_versions db @ [?w]). rv_Template v = rt_ID t \<and> rv_Version v = rt_Current t" using wf h w by (simp add: templates_wf_def)
    show "\<forall>r \<in> set (db_assignments db). (\<exists>t \<in> set (db_templates db @ [h]). rt_ID t = as_Template r) \<and>
        (\<forall>n. as_Pinned r = Some n \<longrightarrow> (\<exists>v \<in> set (db_versions db @ [?w]). rv_Template v = as_Template r \<and> rv_Version v = n))" using wf by (simp add: templates_wf_def)
    show "\<forall>m \<in> set (db_members db). \<forall>j. om_Template m = Some j \<longrightarrow> (\<exists>t \<in> set (db_templates db @ [h]). rt_ID t = j \<and> rt_Kind t = ''org'')" using wf by (simp add: templates_wf_def)
  qed
  moreover have "sys_kept db db1" unfolding sys_kept_def
  proof (intro allI impI conjI)
    show "is_system db1 j = is_system db j" for j by (simp add: is_system_def ts h_def)
    fix j n assume j: "is_system db j"
    have jn: "j \<noteq> cx_new cx" using j new unfolding is_system_def by (metis imageI)
    have f1: "find (\<lambda>t. rt_ID t = j) (db_templates db1) = find (\<lambda>t. rt_ID t = j) (db_templates db)" using jn h(1) by (simp add: ts find_append split: option.split)
    have f2: "find (\<lambda>v. rv_Template v = j \<and> rv_Version v = k) (db_versions db1) = find (\<lambda>v. rv_Template v = j \<and> rv_Version v = k) (db_versions db)" for k
      using jn w(1) by (simp add: ts find_append split: option.split)
    show "map_option tv_key (template_version db1 (j, n)) = map_option tv_key (template_version db (j, n))" unfolding template_version_def fst_conv f1 f2 ..
  qed
  ultimately show ?thesis by (rule templates_service_ok [OF ok ot])
qed

text \<open>A save, and a delete: the template is not one of the system.\<close>

lemma other_than_system:
  assumes "templates_wf db" "loadHead db g i = Inr h" "\<not> rt_System h" "is_system db j"
  shows "j \<noteq> i"
proof
  assume "j = i"
  have h: "h \<in> set (db_templates db)" "rt_ID h = i" using assms(2) by (auto simp: loadHead_def dest: find_SomeD split: option.splits)
  obtain t where "t \<in> set (db_templates db)" "rt_ID t = i" "rt_System t" using assms(4) \<open>j = i\<close> by (auto simp: is_system_def)
  then show False using templates_wfD(1) [OF assms(1) h(1)] h(2) assms(3) by metis
qed

lemma mapped_templates:
  assumes wf: "templates_wf db" and ot: "only_templates db db'" and ts: "db_templates db' = map f (db_templates db)" "db_versions db' = db_versions db @ ws"
    and f: "\<And>t. rt_ID (f t) = rt_ID t \<and> rt_Kind (f t) = rt_Kind t \<and> rt_System (f t) = rt_System t" "\<And>t. rt_ID t \<noteq> i \<Longrightarrow> f t = t"
    and cur: "\<And>t. t \<in> set (db_templates db) \<Longrightarrow> rt_ID t = i \<Longrightarrow> rt_Current (f t) = rt_Current t \<or> (\<exists>w \<in> set ws. rv_Version w = rt_Current (f t))"
    and ws: "\<And>w. w \<in> set ws \<Longrightarrow> rv_Template w = i \<and> 0 < rv_Version w" "distinct (map rv_Version ws)"
      "\<And>w v. w \<in> set ws \<Longrightarrow> v \<in> set (db_versions db) \<Longrightarrow> \<not> (rv_Template v = i \<and> rv_Version v = rv_Version w)"
    and h: "loadHead db g i = Inr h" "\<not> rt_System h"
  shows "templates_wf db' \<and> sys_kept db db'"
proof
  have hm: "h \<in> set (db_templates db)" "rt_ID h = i" using h(1) by (auto simp: loadHead_def dest: find_SomeD split: option.splits)
  have same: "db_assignments db' = db_assignments db" "db_members db' = db_members db" using ot unfolding only_templates_def kept_people_def by blast+
  have ids: "map rt_ID (map f (db_templates db)) = map rt_ID (db_templates db)" by (simp add: f(1))
  have keys: "distinct (map (\<lambda>v. (rv_Template v, rv_Version v)) (db_versions db @ ws))"
  proof -
    have "distinct (map (\<lambda>v. (rv_Template v, rv_Version v)) ws)" using ws(2) by (auto simp: distinct_map inj_on_def)
    moreover have "(\<lambda>v. (rv_Template v, rv_Version v)) ` set (db_versions db) \<inter> (\<lambda>v. (rv_Template v, rv_Version v)) ` set ws = {}" using ws(1,3) by force
    ultimately show ?thesis using wf by (simp add: templates_wf_def)
  qed
  have tmem: "\<exists>t \<in> set (map f (db_templates db)). rt_ID t = j \<and> (k \<longrightarrow> rt_Kind t = ''org'')" if "\<exists>t \<in> set (db_templates db). rt_ID t = j \<and> (k \<longrightarrow> rt_Kind t = ''org'')" for j k
    using that f(1) by auto
  have cu: "\<exists>v \<in> set (db_versions db @ ws). rv_Template v = rt_ID (f t) \<and> rv_Version v = rt_Current (f t)" if t: "t \<in> set (db_templates db)" for t
  proof (cases "rt_ID t = i")
    case True
    show ?thesis using cur [OF t True]
    proof
      assume "rt_Current (f t) = rt_Current t" then show ?thesis using wf t f(1) unfolding templates_wf_def by auto
    next
      assume "\<exists>w \<in> set ws. rv_Version w = rt_Current (f t)" then show ?thesis using ws(1) f(1) True by auto
    qed
  next
    case False then show ?thesis using wf t f(2) unfolding templates_wf_def by auto
  qed
  show "templates_wf db'" unfolding templates_wf_def ts same ids
  proof (intro conjI)
    show "distinct (map rt_ID (db_templates db))" using wf by (simp add: templates_wf_def)
    show "\<forall>v \<in> set (db_versions db @ ws). 0 < rv_Version v \<and> (\<exists>t \<in> set (map f (db_templates db)). rt_ID t = rv_Template v)"
      using tmem [of _ False] wf ws(1) hm unfolding templates_wf_def by (simp add: ball_Un) blast
    show "\<forall>t \<in> set (map f (db_templates db)). \<exists>v \<in> set (db_versions db @ ws). rv_Template v = rt_ID t \<and> rv_Version v = rt_Current t" by (rule ball_map) (rule cu)
    show "\<forall>r \<in> set (db_assignments db). (\<exists>t \<in> set (map f (db_templates db)). rt_ID t = as_Template r) \<and>
        (\<forall>n. as_Pinned r = Some n \<longrightarrow> (\<exists>v \<in> set (db_versions db @ ws). rv_Template v = as_Template r \<and> rv_Version v = n))"
      using tmem [of _ False] wf unfolding templates_wf_def by simp blast
    show "\<forall>m \<in> set (db_members db). \<forall>j. om_Template m = Some j \<longrightarrow> (\<exists>t \<in> set (map f (db_templates db)). rt_ID t = j \<and> rt_Kind t = ''org'')"
      using tmem [of _ True] wf unfolding templates_wf_def by simp
  qed (rule keys)
  show "sys_kept db db'" unfolding sys_kept_def
  proof (intro allI impI conjI)
    show "is_system db' j = is_system db j" for j using f(1) by (auto simp: is_system_def ts(1))
    fix j n assume j: "is_system db j"
    have "template_version db' (j, n) = template_version db (j, n)"
      by (rule tv_updated [OF ts(1) _ f(2) ts(2)]) (use f(1) ws(1) other_than_system [OF wf h j] in auto)
    then show "map_option tv_key (template_version db' (j, n)) = map_option tv_key (template_version db (j, n))" by simp
  qed
qed

lemma publish_tx_ok:
  assumes ok: "service_ok U base db" and tx: "publish_tx cx actor g i v p db = Inr (res, db1)" and h: "loadHead db g i = Inr h" "\<not> rt_System h"
  shows "service_ok U base db1"
proof -
  have wf: "templates_wf db" using ok by (simp add: service_ok_def)
  obtain cc where cc: "loadVer db i 0 = Inr cc" using tx h(1) by (auto simp: publish_tx_def split: if_splits sum.splits)
  have pos: "0 < rv_Version cc" using loadVer_tv [OF cc] templates_wfD(2) [OF wf, of cc] by (auto simp: template_version_def dest: find_SomeD split: option.splits)
  consider "rename_tx actor g i h cc p db = (res, db1)" | imp where "new_version_tx actor g i h cc p imp db = Inr (res, db1)"
    using tx by (auto simp: publish_tx_def h(1) cc split: if_splits option.splits)
  then show ?thesis
  proof cases
    case 1
    let ?f = "\<lambda>t. if rt_ID t = i then t\<lparr> rt_Name := pt_Name p, rt_Description := pt_Description p \<rparr> else t"
    consider "db1 = db" | "db1 = access_audit g actor ''access.template.updated'' ''template'' i None 0 (db\<lparr> db_templates := map ?f (db_templates db) \<rparr>)"
      using 1 by (auto simp: rename_tx_def Let_def split: if_splits)
    then show ?thesis
    proof cases
      case 2
      have ot: "only_templates db db1" "db_templates db1 = map ?f (db_templates db)" "db_versions db1 = db_versions db @ []"
        by (simp_all add: 2 access_audit_def only_templates_def kept_people_def)
      have "templates_wf db1 \<and> sys_kept db db1" by (rule mapped_templates [OF wf ot _ _ _ _ _ _ h]) simp_all
      then show ?thesis using templates_service_ok [OF ok ot(1)] by blast
    qed (use ok in simp)
  next
    case 2
    let ?n = "rv_Version cc + 1"
    let ?f = "\<lambda>t. if rt_ID t = i then t\<lparr> rt_Current := ?n, rt_Name := pt_Name p, rt_Description := pt_Description p \<rparr> else t"
    have new: "\<not> (rv_Template x = i \<and> rv_Version x = ?n)" if "x \<in> set (db_versions db)" for x
      using 2 that by (auto simp: new_version_tx_def Let_def list_ex_iff split: if_splits)
    have db1: "db1 = access_audit g actor ''access.template.published'' ''template'' i None (im_Users imp)
        (db\<lparr> db_versions := db_versions db @ [prepared_version i ?n p], db_templates := map ?f (db_templates db) \<rparr>)"
      using 2 unfolding new_version_tx_def Let_def by (auto split: if_splits sum.splits)
    have ot: "only_templates db db1" "db_templates db1 = map ?f (db_templates db)" "db_versions db1 = db_versions db @ [prepared_version i ?n p]"
      by (simp_all add: db1 access_audit_def only_templates_def kept_people_def)
    have w: "rv_Template (prepared_version i ?n p) = i" "rv_Version (prepared_version i ?n p) = ?n" by (simp_all add: prepared_version_def)
    have "templates_wf db1 \<and> sys_kept db db1" by (rule mapped_templates [OF wf ot _ _ _ _ _ _ h]) (use w pos new in auto)
    then show ?thesis using templates_service_ok [OF ok ot(1)] by blast
  qed
qed

lemma drop_template_ok:
  assumes wf: "templates_wf db" and un: "\<not> template_used db i" and h: "loadHead db g i = Inr h" "\<not> rt_System h"
  shows "templates_wf (drop_template i db) \<and> sys_kept db (drop_template i db)"
proof
  let ?f = "\<lambda>t. if rt_ClonedFrom t = Some i then t\<lparr> rt_ClonedFrom := None \<rparr> else t"
  let ?ts = "filter (\<lambda>t. rt_ID t \<noteq> i) (db_templates db)" and ?vs = "filter (\<lambda>v. rv_Template v \<noteq> i) (db_versions db)"
  have ids: "map rt_ID (map ?f ?ts) = map rt_ID ?ts" by simp
  have tmem: "\<exists>t \<in> set (map ?f ?ts). rt_ID t = j \<and> (k \<longrightarrow> rt_Kind t = ''org'')" if ex: "\<exists>t \<in> set (db_templates db). rt_ID t = j \<and> (k \<longrightarrow> rt_Kind t = ''org'')" and ne: "j \<noteq> i" for j k
  proof -
    obtain t where "t \<in> set ?ts" "rt_ID t = j" "k \<longrightarrow> rt_Kind t = ''org''" using ex ne by auto
    then show ?thesis by (intro bexI [of _ "?f t"]) auto
  qed
  have ts: "db_templates (drop_template i db) = map ?f ?ts" "db_versions (drop_template i db) = ?vs" "db_assignments (drop_template i db) = db_assignments db"
    "db_members (drop_template i db) = db_members db" by (simp_all add: drop_template_def)
  show "templates_wf (drop_template i db)" unfolding templates_wf_def ts ids
  proof (intro conjI)
    show "distinct (map rt_ID ?ts)" "distinct (map (\<lambda>v. (rv_Template v, rv_Version v)) ?vs)" using wf by (simp_all add: templates_wf_def distinct_map_filter)
    show "\<forall>v \<in> set ?vs. 0 < rv_Version v \<and> (\<exists>t \<in> set (map ?f ?ts). rt_ID t = rv_Template v)"
      using tmem [of _ False] wf unfolding templates_wf_def by (simp only: set_filter mem_Collect_eq simp_thms) blast
    have "\<exists>v \<in> set ?vs. rv_Template v = rt_ID (?f t) \<and> rv_Version v = rt_Current (?f t)" if t: "t \<in> set ?ts" for t
    proof -
      have "t \<in> set (db_templates db)" "rt_ID t \<noteq> i" using t by simp_all
      moreover from this obtain v where "v \<in> set (db_versions db)" "rv_Template v = rt_ID t" "rv_Version v = rt_Current t" using wf unfolding templates_wf_def by blast
      ultimately show ?thesis by auto
    qed
    then show "\<forall>t \<in> set (map ?f ?ts). \<exists>v \<in> set ?vs. rv_Template v = rt_ID t \<and> rv_Version v = rt_Current t" by (rule ball_map)
    show "\<forall>r \<in> set (db_assignments db). (\<exists>t \<in> set (map ?f ?ts). rt_ID t = as_Template r) \<and>
        (\<forall>n. as_Pinned r = Some n \<longrightarrow> (\<exists>v \<in> set ?vs. rv_Template v = as_Template r \<and> rv_Version v = n))"
    proof
      fix r assume r: "r \<in> set (db_assignments db)"
      have ne: "as_Template r \<noteq> i" using un r by (auto simp: template_used_def list_ex_iff)
      have rk: "row_ok db r" by (rule templates_row_ok [OF wf r])
      have "\<exists>v \<in> set ?vs. rv_Template v = as_Template r \<and> rv_Version v = n" if pin: "as_Pinned r = Some n" for n
      proof -
        obtain v where "v \<in> set (db_versions db)" "rv_Template v = as_Template r" "rv_Version v = n" using rk pin unfolding row_ok_def by blast
        then show ?thesis using ne by auto
      qed
      then show "(\<exists>t \<in> set (map ?f ?ts). rt_ID t = as_Template r) \<and> (\<forall>n. as_Pinned r = Some n \<longrightarrow> (\<exists>v \<in> set ?vs. rv_Template v = as_Template r \<and> rv_Version v = n))"
        using tmem [of "as_Template r" False] ne rk unfolding row_ok_def by simp
    qed
    show "\<forall>m \<in> set (db_members db). \<forall>j. om_Template m = Some j \<longrightarrow> (\<exists>t \<in> set (map ?f ?ts). rt_ID t = j \<and> rt_Kind t = ''org'')"
    proof (intro ballI allI impI)
      fix m j assume m: "m \<in> set (db_members db)" "om_Template m = Some j"
      then have "j \<noteq> i" using un by (auto simp: template_used_def list_ex_iff)
      then show "\<exists>t \<in> set (map ?f ?ts). rt_ID t = j \<and> rt_Kind t = ''org''" using tmem [of j True] templates_wfD(4) [OF wf m] by simp
    qed
  qed
  show "sys_kept db (drop_template i db)" unfolding sys_kept_def
  proof (intro allI impI conjI)
    fix j
    show "is_system (drop_template i db) j = is_system db j"
    proof
      assume j: "is_system db j"
      note ji = other_than_system [OF wf h j]
      obtain t where "t \<in> set ?ts" "rt_ID t = j" "rt_System t" using j ji by (auto simp: is_system_def)
      then have "?f t \<in> set (map ?f ?ts) \<and> rt_ID (?f t) = j \<and> rt_System (?f t)" by (simp add: image_iff) blast
      then show "is_system (drop_template i db) j" unfolding is_system_def ts by blast
    next
      assume "is_system (drop_template i db) j" then show "is_system db j" by (auto simp: is_system_def ts)
    qed
    fix n assume j: "is_system db j"
    note ji = other_than_system [OF wf h j]
    show "map_option tv_key (template_version (drop_template i db) (j, n)) = map_option tv_key (template_version db (j, n))"
      by (rule drop_template_tv) (simp add: ji)
  qed
qed

lemma delete_tx_ok:
  assumes ok: "service_ok U base db" and tx: "delete_template_tx cx actor g i db = Inr (x, db1)" and h: "loadHead db g i = Inr h" "\<not> rt_System h"
  shows "service_ok U base db1"
proof -
  have wf: "templates_wf db" using ok by (simp add: service_ok_def)
  let ?f = "\<lambda>t. if rt_ID t = i then t\<lparr> rt_Archived := Some (cx_now cx) \<rparr> else t"
  let ?arch = "access_audit g actor ''access.template.archived'' ''template'' i None 0 (db\<lparr> db_templates := map ?f (db_templates db) \<rparr>)"
  consider "db1 = db" | "db1 = ?arch" | "db1 = access_audit g actor ''access.template.deleted'' ''template'' i None 0 (drop_template i db)" "\<not> template_used db i"
    using tx by (auto simp: delete_template_tx_def split: sum.splits if_splits)
  then show ?thesis
  proof cases
    case 2
    have ot: "only_templates db db1" "db_templates db1 = map ?f (db_templates db)" "db_versions db1 = db_versions db @ []"
      by (simp_all add: 2 access_audit_def only_templates_def kept_people_def)
    have "templates_wf db1 \<and> sys_kept db db1" by (rule mapped_templates [OF wf ot _ _ _ _ _ _ h]) simp_all
    then show ?thesis using templates_service_ok [OF ok ot(1)] by blast
  next
    case 3
    have "only_templates db (drop_template i db)" by (simp add: drop_template_def only_templates_def kept_people_def)
    then have "service_ok U base (drop_template i db)" using templates_service_ok [OF ok] drop_template_ok [OF wf 3(2) h] by blast
    then show ?thesis by (rule service_ok_tables) (simp_all add: 3(1))
  qed (use ok in simp)
qed

section \<open>Every state that is reached\<close>

lemma guarded_doWrite:
  assumes "service_ok U base db"
  shows "CreateAssignment cx actor g ai idem db e = (r1, db', e') \<Longrightarrow> 0 \<le> cx_now cx \<Longrightarrow> service_ok U base db'"
    "PatchAssignment cx actor g i pa idem db e = (r1, db', e') \<Longrightarrow> 0 \<le> cx_now cx \<Longrightarrow> service_ok U base db'"
    "RevokeAssignment cx actor g i idem db e = (r2, db', e') \<Longrightarrow> service_ok U base db'"
proof -
  have wf: "adb_wf db" using assms by (simp add: service_ok_def)
  show "service_ok U base db'" if run: "CreateAssignment cx actor g ai idem db e = (r1, db', e')" and now: "0 \<le> cx_now cx"
  proof (cases "create_guard cx db actor g ai e")
    case (Pair q e1)
    show ?thesis
    proof (cases q)
      case (Inl x) then show ?thesis using run Pair assms by (simp add: CreateAssignment_def)
    next
      case (Inr y)
      obtain head ver project where y: "y = (head, ver, project)" by (cases y)
      have gd: "checked_version db g ai = Inr (head, ver)" "checkExpiry cx db g ''expires_at'' (ai_Expires ai) = None" using create_guard_Inr Pair Inr y by metis+
      have pos: "0 < t" if "ai_Expires ai = Some t" for t using checkExpiry_future [OF gd(2)] that now by auto
      have wr: "doWrite cx g actor idem 201 JAssignment dec_assignment (create_tx cx actor g ai project) db e1 = (r1, db', e')" using run Pair Inr y by (simp add: CreateAssignment_def)
      show ?thesis
      proof (rule doWrite_ok [OF assms _ wr])
        fix db0 v db1 assume "service_ok U base db0" "same_tables db db0" "create_tx cx actor g ai project db0 = Inr (v, db1)"
        moreover from this have "db_versions db0 = db_versions db" by (simp add: same_defs)
        ultimately show "service_ok U base db1" using create_tx_ok pos checked_pin [OF gd(1)] by metis
      qed
    qed
  qed
  show "service_ok U base db'" if run: "PatchAssignment cx actor g i pa idem db e = (r1, db', e')" and now: "0 \<le> cx_now cx"
  proof (cases "patch_guard cx db actor g i pa e")
    case (Pair q e1)
    show ?thesis
    proof (cases q)
      case (Inl x) then show ?thesis using run Pair assms by (simp add: PatchAssignment_def)
    next
      case (Inr y)
      obtain new project where y: "y = (new, project)" by (cases y)
      obtain c e2 newPerms oldPerms where c1: "authorizeExisting cx db actor g i e = (Inr (c, project), e2)" "new = patched c pa" "patch_expiry cx db g c pa = None"
        "patch_versions db g c new = Inr (newPerms, oldPerms)" using patch_guard_Inr Pair Inr y by metis
      obtain sc st where c: "loadLive db g i = Inr c" using authorizeExisting_Inr [OF c1(1)] by metis
      have pos: "0 < t" if "as_Expires new = Some t" for t
        using patched_expiry [OF c1(3)] that adb_wfD(3) [OF wf, of c t] loadLive_Inr [OF c] now unfolding c1(2) by auto
      have wr: "doWrite cx g actor idem 200 JAssignment dec_assignment (patch_tx cx actor g i new project) db e1 = (r1, db', e')" using run Pair Inr y by (simp add: PatchAssignment_def)
      show ?thesis
      proof (rule doWrite_ok [OF assms _ wr])
        fix db0 v db1 assume a: "service_ok U base db0" "same_tables db db0" "db_assignments db0 = db_assignments db" "patch_tx cx actor g i new project db0 = Inr (v, db1)"
        have "loadLive db0 g i = Inr c" using c a(3) by (simp add: loadLive_def)
        moreover have "db_versions db0 = db_versions db" using a(2) by (simp add: same_defs)
        ultimately show "service_ok U base db1" using patch_tx_ok [OF a(1,4) pos] patched_pin [OF c1(4)] by metis
      qed
    qed
  qed
  show "service_ok U base db'" if run: "RevokeAssignment cx actor g i idem db e = (r2, db', e')"
  proof (cases "authorizeExisting cx db actor g i e")
    case (Pair q e1)
    show ?thesis
    proof (cases q)
      case (Inl x) then show ?thesis using run Pair assms by (simp add: RevokeAssignment_def)
    next
      case (Inr y)
      obtain c project where y: "y = (c, project)" by (cases y)
      have wr: "doWrite cx g actor idem 204 (\<lambda>_. JUnit) dec_unit (revoke_tx cx actor g i (project_of (as_ScopeType c) project)) db e1 = (r2, db', e')"
        using run Pair Inr y by (simp add: RevokeAssignment_def)
      show ?thesis by (rule doWrite_ok [OF assms _ wr]) (rule revoke_tx_ok)
    qed
  qed
qed

lemma doWrite_tx_ok:
  assumes "db' = db \<or> (\<exists>e1. doWrite cx g actor idem status enc dec fn db e1 = (r, db', e'))" "service_ok U base db"
    "\<And>db0 v db1. service_ok U base db0 \<Longrightarrow> fn db0 = Inr (v, db1) \<Longrightarrow> service_ok U base db1"
  shows "service_ok U base db'"
  using assms(1)
proof (elim disjE exE)
  fix e1 assume "doWrite cx g actor idem status enc dec fn db e1 = (r, db', e')"
  then show ?thesis by (rule doWrite_ok [OF assms(2), rotated 1]) (rule assms(3))
qed (use assms(2) in simp)

lemma group_ops_ok:
  assumes "service_ok U base db"
  shows "CreateGroup cx actor g gi idem db e = (r1, db', e') \<Longrightarrow> service_ok U base db'" "UpdateGroup cx actor g i gi idem db e = (r1, db', e') \<Longrightarrow> service_ok U base db'"
    "ArchiveGroup cx actor g i idem db e = (r2, db', e') \<Longrightarrow> service_ok U base db'" "RemoveGroupMember cx actor g i user idem db e = (r2, db', e') \<Longrightarrow> service_ok U base db'"
    "AddGroupMembers cx actor g i am idem db e = (r3, db', e') \<Longrightarrow> 0 \<le> cx_now cx \<Longrightarrow> service_ok U base db'"
proof -
  note tx = group_txs_ok
  show "service_ok U base db'" if run: "CreateGroup cx actor g gi idem db e = (r1, db', e')"
  proof (rule doWrite_tx_ok [OF _ assms])
    show "db' = db \<or> (\<exists>e1. doWrite cx g actor idem 201 JGroup dec_group (create_group_tx cx actor g gi) db e1 = (r1, db', e'))"
      using run by (auto simp: CreateGroup_def split: prod.splits sum.splits if_splits)
  qed (rule tx(1))
  show "service_ok U base db'" if run: "UpdateGroup cx actor g i gi idem db e = (r1, db', e')"
  proof (cases "loadGroup db g i")
    case (Inl x) then show ?thesis using run assms by (auto simp: UpdateGroup_def split: prod.splits sum.splits)
  next
    case (Inr d)
    let ?name = "case gi_Name gi of None \<Rightarrow> gr_Name (gd_Row d) | Some n \<Rightarrow> strings_TrimSpace n" and ?desc = "text_or (gr_Description (gd_Row d)) (gi_Description gi)"
    show ?thesis
    proof (rule doWrite_tx_ok [OF _ assms])
      show "db' = db \<or> (\<exists>e1. doWrite cx g actor idem 200 JGroup dec_group (update_group_tx actor g i (gd_Row d) ?name ?desc) db e1 = (r1, db', e'))"
        using run Inr unfolding UpdateGroup_def by (cases "require cx db actor g OrgScope [''group:manage''] e") (auto simp: Let_def split: sum.splits if_splits)
    qed (rule tx(2))
  qed
  show "service_ok U base db'" if run: "ArchiveGroup cx actor g i idem db e = (r2, db', e')"
  proof (cases "loadGroup db g i")
    case (Inl x) then show ?thesis using run assms by (auto simp: ArchiveGroup_def split: prod.splits sum.splits)
  next
    case (Inr d)
    show ?thesis
    proof (rule doWrite_tx_ok [OF _ assms])
      show "db' = db \<or> (\<exists>e1. doWrite cx g actor idem 204 (\<lambda>_. JUnit) dec_unit (archive_group_tx cx actor g i d) db e1 = (r2, db', e'))"
        using run Inr by (auto simp: ArchiveGroup_def split: prod.splits sum.splits)
    qed (rule tx(3))
  qed
  show "service_ok U base db'" if run: "RemoveGroupMember cx actor g i user idem db e = (r2, db', e')"
  proof (rule doWrite_tx_ok [OF _ assms])
    show "db' = db \<or> (\<exists>e1. doWrite cx g actor idem 204 (\<lambda>_. JUnit) dec_unit (remove_member_tx actor g i user) db e1 = (r2, db', e'))"
      using run by (auto simp: RemoveGroupMember_def split: prod.splits sum.splits)
  qed (rule tx(4))
  show "service_ok U base db'" if run: "AddGroupMembers cx actor g i am idem db e = (r3, db', e')" and now: "0 \<le> cx_now cx"
  proof (cases "add_guard cx db actor g i am e")
    case (Pair q e1)
    show ?thesis
    proof (cases q)
      case (Inl x) then show ?thesis using run Pair assms by (simp add: AddGroupMembers_def)
    next
      case (Inr y)
      have "checkExpiry cx db g ''expires_at'' (am_Expires am) = None" using add_guard_Inr Pair Inr by (metis old.unit.exhaust)
      from checkExpiry_future [OF this] have pos: "0 < t" if "am_Expires am = Some t" for t using that now by auto
      have wr: "doWrite cx g actor idem 200 JMembers dec_members (add_members_tx cx actor g i am) db e1 = (r3, db', e')" using run Pair Inr by (simp add: AddGroupMembers_def)
      show ?thesis by (rule doWrite_ok [OF assms _ wr]) (use tx(5) pos in blast)
    qed
  qed
qed

lemma same_head: "same_tables db db0 \<Longrightarrow> loadHead db g i = Inr h \<Longrightarrow> loadHead db0 g i = Inr h"
  by (simp add: loadHead_def same_defs)

lemma publish_guard_head: "publish_guard cx db actor g i ti e = (Inr (h, v, p), e') \<Longrightarrow> loadHead db g i = Inr h \<Longrightarrow> \<not> rt_System h"
  by (rule notI) (auto simp: publish_guard_def andThen_Inr)

lemma template_ops_ok:
  assumes ok: "service_ok U base db"
  shows "CreateTemplate cx actor g ti idem db e = (r1, db', e') \<Longrightarrow> service_ok U base db'"
    "PublishTemplate cx actor g i ti dryRun idem db e = (r2, db', e') \<Longrightarrow> service_ok U base db'" "DeleteTemplate cx actor g i idem db e = (r3, db', e') \<Longrightarrow> service_ok U base db'"
proof -
  show "service_ok U base db'" if run: "CreateTemplate cx actor g ti idem db e = (r1, db', e')"
  proof (cases "create_template_guard cx db actor g ti e")
    case (Pair q e1)
    show ?thesis
    proof (cases q)
      case (Inl x) then show ?thesis using run Pair ok by (simp add: CreateTemplate_def)
    next
      case (Inr y)
      obtain ti' p where y: "y = (ti', p)" by (cases y)
      have "doWrite cx g actor idem 201 JTemplate dec_template (create_template_tx cx actor g ti' p) db e1 = (r1, db', e')" using run Pair Inr y by (simp add: CreateTemplate_def)
      then show ?thesis by (rule doWrite_ok [OF ok, rotated 1]) (rule create_template_ok)
    qed
  qed
  show "service_ok U base db'" if run: "PublishTemplate cx actor g i ti dryRun idem db e = (r2, db', e')"
  proof (cases "publish_guard cx db actor g i ti e")
    case (Pair q e1)
    show ?thesis
    proof (cases q)
      case (Inl x) then show ?thesis using run Pair ok by (simp add: PublishTemplate_def)
    next
      case (Inr y)
      obtain h v p where y: "y = (h, v, p)" by (cases y)
      have h: "loadHead db g i = Inr h" "\<not> rt_System h" using publish_guard_Inr publish_guard_head Pair Inr y by metis+
      show ?thesis
      proof (cases dryRun)
        case True then show ?thesis using run Pair Inr y ok by (auto simp: PublishTemplate_def split: option.splits)
      next
        case False
        then have "doWrite cx g actor idem 200 JPublish dec_publish (publish_tx cx actor g i v p) db e1 = (r2, db', e')" using run Pair Inr y by (simp add: PublishTemplate_def)
        then show ?thesis by (rule doWrite_ok [OF ok, rotated 1]) (use publish_tx_ok same_head h in blast)
      qed
    qed
  qed
  show "service_ok U base db'" if run: "DeleteTemplate cx actor g i idem db e = (r3, db', e')"
  proof (cases "db' = db")
    case False
    then obtain h e1 where h: "loadHead db g i = Inr h" "\<not> rt_System h" and wr: "doWrite cx g actor idem 204 (\<lambda>_. JUnit) dec_unit (delete_template_tx cx actor g i) db e1 = (r3, db', e')"
      using run by (auto simp: DeleteTemplate_def split: prod.splits sum.splits if_splits)
    from wr show ?thesis by (rule doWrite_ok [OF ok, rotated 1]) (use delete_tx_ok same_head h in blast)
  qed (use ok in simp)
qed

text \<open>The policy of a project, and the role of a member.\<close>

lemma seeded_kept:
  assumes "sys_kept a b" "templates_wf a" "templates_wf b" "owner_seeded U a"
  shows "owner_seeded U b"
proof -
  let ?i = "template_ID U KindOrg ''owner''" and ?own = "\<lambda>t. rt_System t \<and> rt_Kind t = ''org'' \<and> rt_Slug t = ''owner''"
  have row: "\<exists>v. template_version db (rt_ID t, 0) = Some (t, v)" if wf: "templates_wf db" and t: "t \<in> set (db_templates db)" for db t
  proof -
    obtain t1 where t1: "find (\<lambda>x. rt_ID x = rt_ID t) (db_templates db) = Some t1" using t by (cases "find (\<lambda>x. rt_ID x = rt_ID t) (db_templates db)") (auto simp: find_None_iff)
    then have "t1 = t" using find_SomeD [OF t1] templates_wfD(1) [OF wf _ t] by blast
    moreover have "\<exists>v \<in> set (db_versions db). rv_Template v = rt_ID t \<and> rv_Version v = rt_Current t" using wf t unfolding templates_wf_def by blast
    ultimately show ?thesis using t1 by (cases "find (\<lambda>v. rv_Template v = rt_ID t \<and> rv_Version v = rt_Current t) (db_versions db)") (auto simp: template_version_def find_None_iff)
  qed
  have same: "\<exists>t' \<in> set (db_templates db'). rt_ID t' = rt_ID t \<and> ?own t'"
    if wf: "templates_wf db" "t \<in> set (db_templates db)" "?own t" and eq: "map_option tv_key (template_version db' (rt_ID t, 0)) = map_option tv_key (template_version db (rt_ID t, 0))" for db db' t
  proof -
    obtain v where "template_version db (rt_ID t, 0) = Some (t, v)" using row [OF wf(1,2)] by blast
    then obtain t' v' where "template_version db' (rt_ID t, 0) = Some (t', v')" "tv_key (t', v') = tv_key (t, v)" using eq by auto
    then show ?thesis using wf(3) by (auto simp: template_version_def tv_key_def dest: find_SomeD split: option.splits)
  qed
  have keys: "map_option tv_key (template_version b (j, 0)) = map_option tv_key (template_version a (j, 0))" if "is_system a j" for j
    using assms(1) that unfolding sys_kept_def by blast
  have sys: "is_system db (rt_ID t)" if "t \<in> set (db_templates db)" "?own t" for db t using that unfolding is_system_def by blast
  obtain t where t: "t \<in> set (db_templates a)" "rt_ID t = ?i" "?own t" using assms(4) unfolding owner_seeded_def Let_def by blast
  have ex: "\<exists>t' \<in> set (db_templates b). rt_ID t' = ?i \<and> ?own t'" using same [OF assms(2) t(1,3) keys [OF sys [OF t(1,3)]]] t(2) by simp
  have "rt_ID t = ?i" if t: "t \<in> set (db_templates b)" "?own t" for t
  proof -
    have "is_system a (rt_ID t)" using sys [OF t] assms(1) unfolding sys_kept_def by blast
    then have "\<exists>t' \<in> set (db_templates a). rt_ID t' = rt_ID t \<and> ?own t'" by (intro same [OF assms(3) t]) (simp add: keys)
    then show ?thesis using assms(4) unfolding owner_seeded_def Let_def by metis
  qed
  then show ?thesis using ex unfolding owner_seeded_def Let_def by blast
qed

lemma role_guard_label:
  assumes "role_guard cx db actor g user slug e = (Inr (h, label), e')"
  shows "\<exists>ver. loadHead db g (rt_ID h) = Inr h \<and> label = legacyLabel db h ver"
proof -
  obtain orgSet e1 mem ver where rv: "role_version db g slug = Inr (h, ver)" and l: "label = legacyLabel db h ver"
    using assms by (auto simp: role_guard_def andThen_Inr Let_def split: if_splits sum.splits)
  have "\<exists>t :: TemplateRow. loadHead db g (rt_ID t) = Inr h" using rv by (auto simp: role_version_def split: option.splits if_splits sum.splits)
  then obtain t :: TemplateRow where t: "loadHead db g (rt_ID t) = Inr h" ..
  then have "rt_ID h = rt_ID t" by (auto simp: loadHead_def dest: find_SomeD split: option.splits)
  then show ?thesis using t l by metis
qed

lemma role_tx_ok:
  assumes ok: "service_ok (cx_uuid cx) base db" and tx: "role_tx cx actor g user (rt_ID h) label db = Inr (dto, db1)"
    and h: "loadHead db g (rt_ID h) = Inr h" "label = legacyLabel db' h ver"
  shows "service_ok (cx_uuid cx) base db1"
proof -
  have wf: "templates_wf base" "adb_wf db" "templates_wf db" "sys_kept base db" "owners_kept (cx_uuid cx) base db" using ok unfolding service_ok_def by blast+
  note t = role_tx_tables [OF wf(2,3) tx]
  have hm: "h \<in> set (db_templates db)" using h(1) by (auto simp: loadHead_def dest: find_SomeD split: option.splits)
  have "active_owners (owner_ID cx) db1 g' \<noteq> []" if sd: "owner_seeded (cx_uuid cx) base" and own: "active_owners (owner_ID cx) base g' \<noteq> []" for g'
  proof (rule role_keeps_owner [OF wf(2) _ tx])
    show seed: "owner_seeded (cx_uuid cx) db" by (rule seeded_kept [OF wf(4,1,3) sd])
    show "active_owners (owner_ID cx) db g' \<noteq> []" using wf(5) sd own unfolding owners_kept_def by blast
    assume i: "rt_ID h = owner_ID cx"
    obtain o' where "o' \<in> set (db_templates db)" "rt_ID o' = owner_ID cx" "rt_System o' \<and> rt_Slug o' = ''owner''" using seed unfolding owner_seeded_def Let_def by blast
    moreover from this have "o' = h" using templates_wfD(1) [OF wf(3) _ hm] i by metis
    ultimately show "label = ''owner''" using h(2) by (simp add: legacyLabel_def)
  qed
  then have "owners_kept (cx_uuid cx) base db1" unfolding owners_kept_def by blast
  moreover have "sys_kept base db1" using sys_kept_trans [OF wf(4) sys_kept_same [OF t(3,4)]] .
  ultimately show ?thesis using t(1,2) wf(1) unfolding service_ok_def by blast
qed

lemma override_ops_ok:
  assumes ok: "service_ok U base db"
  shows "SetAccessOverride cx actor g project mode confirm idem db e = (r1, db', e') \<Longrightarrow> service_ok U base db'"
    "cx_uuid cx = U \<Longrightarrow> SetMemberTemplate cx actor g user slug idem db e = (r2, db', e') \<Longrightarrow> service_ok U base db'"
proof -
  show "service_ok U base db'" if run: "SetAccessOverride cx actor g project mode confirm idem db e = (r1, db', e')"
  proof (cases "db' = db")
    case False
    then obtain plan e1 where "doWrite cx g actor idem 200 JOverride dec_override (override_tx actor g project mode plan) db e1 = (r1, db', e')"
      using run by (auto simp: SetAccessOverride_def split: prod.splits sum.splits)
    then show ?thesis
    proof (rule doWrite_ok [OF ok, rotated 1])
      fix db0 v db1 assume ok0: "service_ok U base db0" and tx: "override_tx actor g project mode plan db0 = Inr (v, db1)"
      have wf: "adb_wf db0" "templates_wf db0" using ok0 unfolding service_ok_def by blast+
      note t = override_tx_tables [OF wf tx]
      show "service_ok U base db1" by (rule service_ok_people [OF ok0 t(1,2) sys_kept_same [OF t(3,4)] t(5,6)])
    qed
  qed (use ok in simp)
  show "service_ok U base db'" if U: "cx_uuid cx = U" and run: "SetMemberTemplate cx actor g user slug idem db e = (r2, db', e')"
  proof (cases "db' = db")
    case False
    then obtain h label e1 where gd: "role_guard cx db actor g user slug e = (Inr (h, label), e1)"
      and wr: "doWrite cx g actor idem 200 JOrgMember dec_member (role_tx cx actor g user (rt_ID h) label) db e1 = (r2, db', e')"
      using run by (auto simp: SetMemberTemplate_def split: prod.splits sum.splits)
    obtain ver where l: "loadHead db g (rt_ID h) = Inr h" "label = legacyLabel db h ver" using role_guard_label [OF gd] by blast
    from wr show ?thesis by (rule doWrite_ok [OF ok, rotated 1]) (use role_tx_ok [of cx base] same_head l U in blast)
  qed (use ok in simp)
qed

lemma access_step_ok:
  assumes "access_step U s s'" "service_ok U base (fst s)"
  shows "service_ok U base (fst s')"
proof -
  obtain db e db' e' where s: "s = (db, e)" "s' = (db', e')" by (cases s; cases s')
  have ok: "service_ok U base db" using assms(2) s by simp
  have "access_step U (db, e) (db', e')" using assms(1) s by simp
  then have "service_ok U base db'"
  proof (cases rule: access_step.cases)
    case create_assignment then show ?thesis by (intro guarded_doWrite(1) [OF ok])
  next
    case patch_assignment then show ?thesis by (intro guarded_doWrite(2) [OF ok])
  next
    case revoke_assignment then show ?thesis by (intro guarded_doWrite(3) [OF ok])
  next
    case create_group then show ?thesis by (intro group_ops_ok(1) [OF ok])
  next
    case update_group then show ?thesis by (intro group_ops_ok(2) [OF ok])
  next
    case archive_group then show ?thesis by (intro group_ops_ok(3) [OF ok])
  next
    case add_group_members then show ?thesis by (intro group_ops_ok(5) [OF ok])
  next
    case remove_group_member then show ?thesis by (intro group_ops_ok(4) [OF ok])
  next
    case create_template then show ?thesis by (intro template_ops_ok(1) [OF ok])
  next
    case publish_template then show ?thesis by (intro template_ops_ok(2) [OF ok])
  next
    case delete_template then show ?thesis by (intro template_ops_ok(3) [OF ok])
  next
    case set_access_override then show ?thesis by (intro override_ops_ok(1) [OF ok])
  next
    case set_member_template then show ?thesis by (intro override_ops_ok(2) [OF ok])
  qed
  then show ?thesis using s by simp
qed

lemma service_ok_start: "adb_wf db \<Longrightarrow> templates_wf db \<Longrightarrow> service_ok U db db"
  using sys_kept_same [of db db] by (simp add: service_ok_def owners_kept_def)

lemma reached_ok:
  assumes "(access_step U)\<^sup>*\<^sup>* s s'" "service_ok U base (fst s)"
  shows "service_ok U base (fst s')"
  using assms by (induction rule: rtranclp_induct) (auto intro: access_step_ok)

text \<open>
  C9 (invariant). Whatever operations of the access service run, in whatever order, whoever asks and whether they succeed or
  not, the tables keep their constraints: keys and the index over live assignments are unique, instants are after the
  zero time, every assignment refers to a template that exists and, if pinned, to a version that exists, every
  template has its current version, and members have organization templates.
\<close>

theorem reachable_wf:
  assumes "(access_step U)\<^sup>*\<^sup>* (db, e) (db', e')" "adb_wf db" "templates_wf db"
  shows "adb_wf db' \<and> templates_wf db'"
  using reached_ok [OF assms(1), of db] service_ok_start [OF assms(2,3)] by (simp add: service_ok_def)

theorem reachable_wf_witness: "adb_wf (fst (snd (DeleteTemplate ex_cx 5 1 202 None (ex_tdb ex_manager) ex_eng))) \<and>
   templates_wf (fst (snd (DeleteTemplate ex_cx 5 1 202 None (ex_tdb ex_manager) ex_eng)))"
proof -
  let ?run = "DeleteTemplate ex_cx 5 1 202 None (ex_tdb ex_manager) ex_eng"
  have "access_step ex_uuid (ex_tdb ex_manager, ex_eng) (fst (snd ?run), snd (snd ?run))" by (rule delete_template [of ex_cx 5 1 202 None _ _ "fst ?run"]) simp
  then show ?thesis using reachable_wf [OF r_into_rtranclp ex_tdb_wf] by blast
qed

text \<open>
  C12 (safety). The templates of the system are immutable: no sequence of operations, of any organization, changes the version that a
  reference to a system template resolves to, removes it, or archives it.
\<close>

theorem system_templates_immutable:
  assumes "(access_step U)\<^sup>*\<^sup>* (db, e) (db', e')" "adb_wf db" "templates_wf db" "t \<in> set (db_templates db)" "rt_System t"
  shows "map_option tv_key (template_version db' (rt_ID t, n)) = map_option tv_key (template_version db (rt_ID t, n))"
proof -
  have "sys_kept db db'" using reached_ok [OF assms(1), of db] service_ok_start [OF assms(2,3)] by (simp add: service_ok_def)
  moreover have "is_system db (rt_ID t)" using assms(4,5) by (auto simp: is_system_def)
  ultimately show ?thesis by (simp add: sys_kept_def)
qed

text \<open>The small organization with a system template (300).\<close>

definition ex_sdb :: ADB where
  "ex_sdb = (ex_tdb ex_manager)\<lparr> db_templates := db_templates (ex_tdb ex_manager) @ [(ex_template 300 ''project'')\<lparr> rt_Org := None, rt_System := True \<rparr>],
     db_versions := db_versions (ex_tdb ex_manager) @ [ex_version 300 [''project:view'']] \<rparr>"

theorem system_templates_immutable_witness:
  "map_option tv_key (template_version (fst (snd (DeleteTemplate ex_cx 5 1 300 None ex_sdb ex_eng))) (300, 0)) = map_option tv_key (template_version ex_sdb (300, 0))"
proof -
  let ?run = "DeleteTemplate ex_cx 5 1 300 None ex_sdb ex_eng" and ?t = "(ex_template 300 ''project'')\<lparr> rt_Org := None, rt_System := True \<rparr>"
  have wf: "adb_wf ex_sdb" "templates_wf ex_sdb"
    by (simp_all add: adb_wf_def templates_wf_def ex_sdb_def ex_tdb_def ex_adb_def ex_arow_def same_live_def ex_manager_def ex_template_def ex_version_def ex_member_def)
  have "access_step ex_uuid (ex_sdb, ex_eng) (fst (snd ?run), snd (snd ?run))" by (rule delete_template [of ex_cx 5 1 300 None _ _ "fst ?run"]) simp
  then have step: "(access_step ex_uuid)\<^sup>*\<^sup>* (ex_sdb, ex_eng) (fst (snd ?run), snd (snd ?run))" ..
  have t: "?t \<in> set (db_templates ex_sdb)" "rt_System ?t" by (simp_all add: ex_sdb_def)
  have "rt_ID ?t = 300" by (simp add: ex_template_def)
  then show ?thesis using system_templates_immutable [OF step wf t, of 0] by (simp only:)
qed

text \<open>
  C10 (invariant). An organization is never left without an owner: where the owner template is the one the system ships, no
  sequence of operations takes the last active owner away, whoever asks, also when a demotion changes the template
  through the trigger on membership rows.
\<close>

theorem owner_remains:
  assumes "(access_step U)\<^sup>*\<^sup>* (db, e) (db', e')" "adb_wf db" "templates_wf db" "owner_seeded U db"
    and "active_owners (template_ID U KindOrg ''owner'') db g \<noteq> []"
  shows "active_owners (template_ID U KindOrg ''owner'') db' g \<noteq> []"
  using reached_ok [OF assms(1), of db] service_ok_start [OF assms(2,3)] assms(4,5) by (simp add: service_ok_def owners_kept_def)

text \<open>Two owners (5 and 6), the system templates owner and member, and a custom organization template.\<close>

definition ex_owner :: uuid where "ex_owner = template_ID ex_uuid KindOrg ''owner''"

definition ex_odb :: ADB where
  "ex_odb = ex_adb\<lparr> db_members := [(ex_member 5)\<lparr> om_Template := Some ex_owner, om_Role := ''owner'' \<rparr>, (ex_member 6)\<lparr> om_Template := Some ex_owner, om_Role := ''owner'' \<rparr>],
     db_templates := db_templates ex_adb @ [(ex_template ex_owner ''org'')\<lparr> rt_Org := None, rt_System := True, rt_Slug := ''owner'' \<rparr>,
       (ex_template 310 ''org'')\<lparr> rt_Org := None, rt_System := True, rt_Slug := ''member'' \<rparr>],
     db_versions := db_versions ex_adb @ [ex_version ex_owner [''org:read'', ''member:read'', ''member:update''], ex_version 310 [''org:read'', ''member:read'']] \<rparr>"

lemma ex_owner_fresh: "ex_owner \<notin> {100, 200, 201, 202, 310}"
  by code_simp

lemma ex_odb_wf: "adb_wf ex_odb" "templates_wf ex_odb" "owner_seeded ex_uuid ex_odb"
  using ex_owner_fresh by (simp_all add: adb_wf_def templates_wf_def owner_seeded_def Let_def ex_odb_def ex_adb_def ex_arow_def same_live_def ex_template_def ex_version_def ex_member_def
    flip: ex_owner_def)

lemma ex_demote_ok: "ok_result (fst (SetMemberTemplate ex_cx 5 1 6 ''member'' None ex_odb ex_eng))"
  by code_simp

theorem owner_remains_witness:
  "ok_result (fst (SetMemberTemplate ex_cx 5 1 6 ''member'' None ex_odb ex_eng)) \<and>
   active_owners ex_owner (fst (snd (SetMemberTemplate ex_cx 5 1 6 ''member'' None ex_odb ex_eng))) 1 \<noteq> []"
proof -
  let ?run = "SetMemberTemplate ex_cx 5 1 6 ''member'' None ex_odb ex_eng"
  have "access_step ex_uuid (ex_odb, ex_eng) (fst (snd ?run), snd (snd ?run))"
    by (rule set_member_template [of ex_cx _ 5 1 6 "''member''" None _ _ "fst ?run"]) (simp_all add: ex_cx_def)
  then have step: "(access_step ex_uuid)\<^sup>*\<^sup>* (ex_odb, ex_eng) (fst (snd ?run), snd (snd ?run))" ..
  have "active_owners ex_owner ex_odb 1 \<noteq> []" by code_simp
  then show ?thesis using owner_remains [OF step ex_odb_wf, of 1] ex_demote_ok by (simp add: ex_owner_def)
qed

end
