(* ===== verification/Spec2Isabelle.thy ===== *)
theory Spec2Isabelle
  imports Explain Engine V2_Adapter Glob Env_Queue Access_Preview Access_Once Access_Service
begin

text \<open>
  \<^bold>\<open>Verification of the Capsule backend: who may do what, and what may be deployed where.\<close>

  The backend is a platform service in Go. Three parts of it decide things that other parts only carry out, and
  these are modelled here from the source, with the theorems that make them correct.

  \<^item> \<^bold>\<open>Authorization\<close> (\<^verbatim>\<open>internal/authz\<close>). A catalog of atomic permissions; role templates that are sets of them;
    assignments of templates to users and groups at the organization, at a project, at a repository or at an
    environment. For one (user, organization) pair the engine compiles a \<^emph>\<open>snapshot\<close>, caches it and answers every
    question from it. An older role matrix (\<^verbatim>\<open>v1\<close>) is still there; a mode per organization says which of the two
    answers, and an adapter gives the new engine the shape of the old one.
  \<^item> \<^bold>\<open>Administration of access\<close> (\<^verbatim>\<open>internal/access\<close>, \<^verbatim>\<open>internal/repository/access_store.go\<close>, \<^verbatim>\<open>access_engine.go\<close>). Who may
    change templates, groups, assignments, roles and the policy of a project, and how a change is written. It asks the engine what the actor holds and
    writes the tables that the engine's store reads, so it closes the circle: its no-escalation rule is about the very
    sets the engine computes.
  \<^item> \<^bold>\<open>Environments and promotions\<close> (\<^verbatim>\<open>internal/environments\<close>). An environment has a policy: which branches may be
    deployed, who must approve, how long to wait, in which windows. A promotion asks to deploy one commit to one
    environment; requests and a loop that ticks move it through its states, over tables in a database.

  \<^bold>\<open>Theories and sources.\<close> Paths are below \<^verbatim>\<open>src/\<close>.

  \<^item> \<open>Prelude\<close>: Go's instants, durations, uuids, maps and strings, and the lemmas all theories share.
  \<^item> \<open>Catalog\<close>, \<open>Catalog_Tables\<close> (\<^verbatim>\<open>authz/catalog/catalog.go\<close>): the table of permissions, \<open>init_catalog\<close>, the lookups.
    Shown: initialisation does not panic, bit positions and ids are inverse, dependencies are closed.
  \<^item> \<open>Perm_Set\<close> (\<^verbatim>\<open>authz/catalog/set.go\<close>): the 128-bit set on two words, parsing and the hexadecimal mask. The locale
    \<open>bitset\<close> is its contract. Shown: it refines sets of ids, and the mask round trips.
  \<^item> \<open>Snapshot\<close> (\<^verbatim>\<open>authz/engine/snapshot.go\<close>, \<^verbatim>\<open>store.go\<close>): \<open>compile\<close> and the evaluation. The specification
    \<open>spec_effective\<close> is the rule of the package comment, written without snapshots. Shown: a snapshot answers every
    scope with exactly that set, fails closed, stays right until \<open>validUntil\<close>, and additions never take away.
  \<^item> \<open>Explain\<close> (\<^verbatim>\<open>authz/engine/explain.go\<close>): why a decision came out as it did. Shown: the cause is the true one.
  \<^item> \<open>Engine_Cache\<close>, \<open>Engine\<close> (\<^verbatim>\<open>authz/engine/cache.go\<close>, \<^verbatim>\<open>engine.go\<close>): the cache with its byte budget behind the locale
    \<open>snapshot_cache\<close>, the engine's calls as functions on its state, and the goroutines as a step relation
    \<open>estep\<close>. Shown: the cached entries fit their budget, strict reads are current, a writer reads its own write in a
    sequential run, staleness is bounded under every interleaving, and one window of the invalidation counter that
    stays open.
  \<^item> \<open>Sys_Templates\<close> (\<^verbatim>\<open>authz/systemtemplates\<close>, \<^verbatim>\<open>engine/legacyrole.go\<close>): the embedded role templates and their loader.
  \<^item> \<open>Legacy_Authz\<close> (\<^verbatim>\<open>authz/authz.go\<close>, \<^verbatim>\<open>shadow.go\<close> and the action tables): the role matrix, the mode switch, the shadow
    comparison. Shown: the matrix and the templates are the same policy.
  \<^item> \<open>V2_Adapter\<close> (\<^verbatim>\<open>authz/v2adapter\<close>, \<^verbatim>\<open>authz/wire\<close>): the adapter, token decisions and the modes. Shown: over the
    legacy store the new engine decides and lists as the old one does, members without a role apart.
  \<^item> \<open>Access_Store\<close> (\<^verbatim>\<open>repository/access_store.go\<close>, \<^verbatim>\<open>access_engine.go\<close> and the migrations): the tables, the queries behind
    the engine, \<open>engine_LoadAccess\<close> that turns rows into the engine's data, and the organization transaction. The locale
    \<open>access_source\<close> is what the administration relies on: a strict read decides by the tables as they are.
  \<^item> \<open>Access_Admin\<close>, \<open>Access_Perms\<close> (\<^verbatim>\<open>access/errors.go\<close>, \<^verbatim>\<open>perms.go\<close>, \<^verbatim>\<open>service.go\<close>, \<^verbatim>\<open>assignments.go\<close>): errors, validation of
    permission lists, the authorization of a request, the write with its idempotency key, and the operations on
    assignments. Shown: which permission lists are accepted.
  \<^item> \<open>Access_Grants\<close>, \<open>Access_Escalation\<close>, \<open>Access_Change\<close>: a change of rows followed through the store to the
    resolution rule (\<open>grown\<close>: what a change may add where), and back through the guards to what the actor holds. Shown:
    creating an assignment, and changing one without widening its expiry, gives nobody what the actor does not hold. \<open>Access_Run\<close> evaluates the operations on a small
    organization and shows that widening an expiry escapes the rule.
  \<^item> \<open>Access_Groups\<close> (\<^verbatim>\<open>access/groups.go\<close>): groups and their members. Shown: adding members gives nobody what the actor
    does not hold.
  \<^item> \<open>Access_Templates\<close>, \<open>Access_Publish\<close>, \<open>Access_Delete\<close> (\<^verbatim>\<open>access/templates.go\<close>): templates and their versions. Shown:
    publishing a project or repository template adds nothing the actor does not hold in every project, but a save can
    lift the actor's own ceiling; deleting a template keeps everybody's access unless it is somebody's organization
    template, whose holders are locked out.
  \<^item> \<open>Access_Override\<close>, \<open>Access_Preview\<close> (\<^verbatim>\<open>access/override.go\<close>, the overlay engine of \<^verbatim>\<open>simulate.go\<close>, the trigger on membership
    rows of \<^verbatim>\<open>migrations/000071\<close>): the access policy of a project and the role of a member. The overlay store is a second
    interpretation of \<open>access_source\<close>. Shown: without confirmation nobody loses a project they see; giving a member the
    custom role they have can leave them with another one.
  \<^item> \<open>Access_Once\<close> (\<^verbatim>\<open>access/service.go\<close>): the thirteen writes as requests. Shown: within a day a request with
    an idempotency key takes effect once, whatever is served in between.
  \<^item> \<open>Access_Service\<close>: the operations as a step relation. Shown: the constraints of the tables hold in every state that
    is reached, the system's templates never change, and an organization with an active owner keeps one.
  \<^item> \<open>Glob\<close> (\<^verbatim>\<open>gitprotect/glob.go\<close>): branch patterns, their translation to regular expressions and the precedence of
    rules. Shown: a pattern means what the documentation says, and which patterns are refused.
  \<^item> \<open>Env_Window\<close>, \<open>Env_Gate\<close>, \<open>Env_Policy\<close> (\<^verbatim>\<open>environments/window.go\<close>, \<^verbatim>\<open>types.go\<close>, \<^verbatim>\<open>gate.go\<close>, \<^verbatim>\<open>validate.go\<close>): deployment
    windows, the pure rules of a promotion, and the validation of a policy.
  \<^item> \<open>Env_Store\<close>, \<open>Env_Txn\<close> (\<^verbatim>\<open>repository/environment_repo.go\<close> and the migration): the tables, one function per
    transaction, and the relation \<open>txn\<close> of the transactions the service issues; the expiry of promotions, which the code
    runs outside a transaction, is taken statement by statement. The locales \<open>store_invariant\<close> and
    \<open>store_evolution\<close> are the contract between store and clients: what every transaction keeps holds after every
    sequence of them, in whatever order concurrent requests issue them. They are interpreted for the
    well-formedness of the tables, for the policy of approvals and for the finality of states.
  \<^item> \<open>Env_Promotions\<close>, \<open>Env_Tick\<close> (\<^verbatim>\<open>environments/service.go\<close>, \<^verbatim>\<open>promotions.go\<close>, \<^verbatim>\<open>tick.go\<close>, \<^verbatim>\<open>wire.go\<close>): the handlers and the
    loop, each proved to be a sequence of transactions.
  \<^item> \<open>Env_Service\<close>, \<open>Env_Queue\<close>: the service as a whole (\<open>serve\<close>, \<open>reached\<close>) and what one tick starts and finishes.
    Shown: no deployment without its quorum, one deployment per environment, final states are final, overdue
    promotions end (an expiry that is cut short leaves the history behind), a tick starts only what windows, waiting time and conditions admit, and it ends what ended.

  \<^bold>\<open>Conventions.\<close> Stateful operations take the state last and return it updated. Errors are values of a sum type.
  Code outside the repository is a parameter: the uuid library, the zone database and the store of the engine as
  records of functions, the git server, directory and clock of the promotions as the record \<open>Ext\<close>. Properties that
  need something of a parameter name it as a hypothesis, and a witness instantiates it.

  \<^bold>\<open>Bounds and fuel.\<close> Loops of the code that are bounded by a constant carry that constant: at most 5 pages of
  branches, 10 comparisons and 3 pages of tags when a commit is looked for, 500 active promotions per tick, 9 days
  in the search for the next window. No definition runs on fuel that the code does not have.

  \<^bold>\<open>Not modelled.\<close> JSON decoding and encoding, SQL connection failures, the second clock
  reading with which a tick stamps what it finishes (one reading per request), logging, metrics, the events and commit
  statuses published after a change, goroutines that only wait, the response views and lists, and process wiring.
  The other packages (builds, backups, functions, gateway, forge client, AI, HTTP handlers) mostly call external
  services; the manifest lists each with its reason. Of the administration of access, the reports, the simulation
  and the paged lists are left out; a request there reads the tables as they are when it arrives, and
  the theorems are about one request at a time, with the steps of \<open>Access_Service\<close> as whole requests. Candidates for
  further work are these, the validation of branch protection rules (\<^verbatim>\<open>gitprotect/validate.go\<close>) and the limits of the
  API gateway.
\<close>

end
